(* ===== verification/Prelude.thy ===== *)
theory Prelude
  imports Complex_Main "HOL-Library.Sublist"
begin

text \<open>
  Shared vocabulary of the development: the errors the control plane throws, the
  state-and-exception type in which its handlers are written, transactions, and the
  generic facts about lists of rows that every table operation uses.

  A handler that talks to the database is a function \<open>'s \<Rightarrow> (error + 'a) \<times> 's\<close>: it
  takes the current state and returns either the error it throws or its value, together with
  the state it leaves behind.  A statement that ran before a throw has still happened, as in
  the source; only \<open>tx\<close> (\<open>BEGIN\<close> / \<open>COMMIT\<close> / \<open>ROLLBACK\<close>) undoes it.
\<close>

named_theorems act_simps "unfolding rules of the state-and-exception combinators"
named_theorems table_simps "rewriting of inserts, updates and deletes on tables"

section \<open>Errors\<close>

text \<open>
  \<open>ApiError status code message\<close> is the class of \<open>lib/api.ts\<close>; \<open>ZodError\<close> a schema
  validation failure; \<open>JsError\<close> a plain \<open>Error\<close>; \<open>DbError\<close> a constraint violation that
  the database driver raises.
\<close>

datatype error =
    ApiError nat string string
  | ZodError
  | JsError string
  | DbError string

fun error_status :: "error \<Rightarrow> nat" where
  "error_status (ApiError st c m) = st"
| "error_status ZodError = 400"
| "error_status (JsError m) = 500"
| "error_status (DbError m) = 500"

fun error_code :: "error \<Rightarrow> string option" where
  "error_code (ApiError st c m) = Some c"
| "error_code _ = None"

type_synonym 'a res = "error + 'a"

section \<open>Handlers: state and exceptions\<close>

type_synonym ('s, 'a) act = "'s \<Rightarrow> 'a res \<times> 's"

definition return_act :: "'a \<Rightarrow> ('s, 'a) act" where
  "return_act x = (\<lambda>s. (Inr x, s))"

definition throw :: "error \<Rightarrow> ('s, 'a) act" where
  "throw e = (\<lambda>s. (Inl e, s))"

definition bind_act :: "('s, 'a) act \<Rightarrow> ('a \<Rightarrow> ('s, 'b) act) \<Rightarrow> ('s, 'b) act" where
  "bind_act m f = (\<lambda>s. case m s of (Inl e, t) \<Rightarrow> (Inl e, t) | (Inr x, t) \<Rightarrow> f x t)"

definition then_act :: "('s, 'a) act \<Rightarrow> ('s, 'b) act \<Rightarrow> ('s, 'b) act" where
  "then_act m n = bind_act m (\<lambda>_. n)"

definition gets_act :: "('s \<Rightarrow> 'a) \<Rightarrow> ('s, 'a) act" where
  "gets_act f = (\<lambda>s. (Inr (f s), s))"

definition modify_act :: "('s \<Rightarrow> 's) \<Rightarrow> ('s, unit) act" where
  "modify_act f = (\<lambda>s. (Inr (), f s))"

definition lift_res :: "'a res \<Rightarrow> ('s, 'a) act" where
  "lift_res r = (\<lambda>s. (r, s))"

definition guard_act :: "bool \<Rightarrow> error \<Rightarrow> ('s, unit) act" where
  "guard_act b e = (if b then return_act () else throw e)"

text \<open>\<open>try { m } catch (e) { h e }\<close>: the handler runs in the state the failing body left.\<close>

definition catch_act :: "('s, 'a) act \<Rightarrow> (error \<Rightarrow> ('s, 'a) act) \<Rightarrow> ('s, 'a) act" where
  "catch_act m h = (\<lambda>s. case m s of (Inl e, t) \<Rightarrow> h e t | (Inr x, t) \<Rightarrow> (Inr x, t))"

text \<open>
  \<open>txOn\<close> of \<open>lib/db.ts\<close>: \<open>BEGIN\<close>, the body, \<open>COMMIT\<close>; when the body throws, \<open>ROLLBACK\<close>
  restores the state of \<open>BEGIN\<close> and the error is rethrown.
\<close>

definition txOn :: "('s, 'a) act \<Rightarrow> ('s, 'a) act" where
  "txOn m = (\<lambda>s. case m s of (Inl e, t) \<Rightarrow> (Inl e, s) | (Inr x, t) \<Rightarrow> (Inr x, t))"

fun for_act :: "'x list \<Rightarrow> ('x \<Rightarrow> ('s, unit) act) \<Rightarrow> ('s, unit) act" where
  "for_act [] body = return_act ()"
| "for_act (x # xs) body = then_act (body x) (for_act xs body)"

lemmas act_defs = return_act_def throw_def bind_act_def then_act_def gets_act_def
  modify_act_def lift_res_def guard_act_def catch_act_def txOn_def

lemma return_act_apply [act_simps]: "return_act x s = (Inr x, s)"
  and throw_apply [act_simps]: "throw e s = (Inl e, s)"
  and gets_act_apply [act_simps]: "gets_act f s = (Inr (f s), s)"
  and modify_act_apply [act_simps]: "modify_act g s = (Inr (), g s)"
  and lift_res_apply [act_simps]: "lift_res r s = (r, s)"
  by (simp_all add: act_defs)

lemma bind_act_Inl [act_simps]: "m s = (Inl e, t) \<Longrightarrow> bind_act m f s = (Inl e, t)"
  and bind_act_Inr [act_simps]: "m s = (Inr x, t) \<Longrightarrow> bind_act m f s = f x t"
  by (simp_all add: bind_act_def)

lemma bind_gets [act_simps]: "bind_act (gets_act g) f s = f (g s) s"
  and bind_modify [act_simps]: "bind_act (modify_act h) f' s = f' () (h s)"
  and bind_throw [act_simps]: "bind_act (throw e) f'' s = (Inl e, s)"
  and bind_return [act_simps]: "bind_act (return_act x) k s = k x s"
  and bind_lift_Inl [act_simps]: "bind_act (lift_res (Inl e)) l s = (Inl e, s)"
  and bind_lift_Inr [act_simps]: "bind_act (lift_res (Inr y)) n s = n y s"
  by (simp_all add: act_defs)

lemma then_modify [act_simps]: "then_act (modify_act h) n s = n (h s)"
  and then_return [act_simps]: "then_act (return_act x) n s = n s"
  and then_throw [act_simps]: "then_act (throw e) n s = (Inl e, s)"
  by (simp_all add: act_defs)

lemma bind_guard [act_simps]:
  "bind_act (guard_act b e) f s = (if b then f () s else (Inl e, s))"
  by (simp add: act_defs)

lemma then_guard [act_simps]:
  "then_act (guard_act b e) n s = (if b then n s else (Inl e, s))"
  by (simp add: act_defs)

lemma bind_lift: "bind_act (lift_res r) f s = (case r of Inl e \<Rightarrow> (Inl e, s) | Inr x \<Rightarrow> f x s)"
  by (cases r) (simp_all add: bind_lift_Inl bind_lift_Inr)

text \<open>Every successful bind ran both halves: the elimination rule the invariants use.\<close>

lemma bind_act_InrE:
  assumes "bind_act m f s = (Inr y, u)"
  obtains x t where "m s = (Inr x, t)" and "f x t = (Inr y, u)"
  using assms by (auto simp: bind_act_def split: prod.splits sum.splits)

lemma then_act_InrE:
  assumes "then_act m n s = (Inr y, u)"
  obtains x t where "m s = (Inr x, t)" and "n t = (Inr y, u)"
  using assms unfolding then_act_def by (elim bind_act_InrE) blast

lemma txOn_cases:
  obtains (commit) x t where "m s = (Inr x, t)" "txOn m s = (Inr x, t)"
    | (rollback) e t where "m s = (Inl e, t)" "txOn m s = (Inl e, s)"
proof -
  obtain r t where m: "m s = (r, t)" by (cases "m s") simp
  show thesis
  proof (cases r)
    case (Inl e)
    with m rollback [of e t] show thesis by (simp add: txOn_def)
  next
    case (Inr x)
    with m commit [of x t] show thesis by (simp add: txOn_def)
  qed
qed

lemma txOn_Inl: "txOn m s = (Inl e, t) \<Longrightarrow> t = s"
  by (cases rule: txOn_cases [of m s]) auto

lemma txOn_Inr_iff: "txOn m s = (Inr x, t) \<longleftrightarrow> m s = (Inr x, t)"
  by (cases rule: txOn_cases [of m s]) auto

section \<open>Preservation of an invariant by a handler\<close>

text \<open>
  \<open>preserves I m\<close>: whatever the outcome of \<open>m\<close>, a state satisfying \<open>I\<close> leads to a state
  satisfying \<open>I\<close>.  The rules below reduce the claim for a handler to its statements.
\<close>

definition preserves :: "('s \<Rightarrow> bool) \<Rightarrow> ('s, 'a) act \<Rightarrow> bool" where
  "preserves I m \<longleftrightarrow> (\<forall>s. I s \<longrightarrow> I (snd (m s)))"

named_theorems preserves_intros "compositional rules for invariant preservation"

lemma preservesI: "(\<And>s. I s \<Longrightarrow> I (snd (m s))) \<Longrightarrow> preserves I m"
  by (simp add: preserves_def)

lemma preservesD: "preserves I m \<Longrightarrow> I s \<Longrightarrow> m s = (r, t) \<Longrightarrow> I t"
  by (metis preserves_def snd_conv)

lemma preserves_bind [preserves_intros]:
  assumes "preserves I m" and "\<And>x. preserves I (f x)"
  shows "preserves I (bind_act m f)"
proof (rule preservesI)
  fix s assume I: "I s"
  obtain r t where m: "m s = (r, t)" by fastforce
  have "I t" using assms(1) I m by (rule preservesD)
  then show "I (snd (bind_act m f s))"
    using m assms(2) by (cases r) (auto simp: bind_act_def preserves_def)
qed

lemma preserves_then [preserves_intros]:
  "preserves I m \<Longrightarrow> preserves I n \<Longrightarrow> preserves I (then_act m n)"
  unfolding then_act_def by (rule preserves_bind)

lemma preserves_pure [preserves_intros]:
  "preserves I (return_act x)" "preserves I (throw e)" "preserves I (gets_act g)"
  "preserves I (lift_res r)" "preserves I (guard_act b e)"
  by (simp_all add: preserves_def act_defs)

lemma preserves_modify [preserves_intros]: "(\<And>s. I s \<Longrightarrow> I (f s)) \<Longrightarrow> preserves I (modify_act f)"
  by (simp add: preserves_def act_defs)

lemma preserves_tx [preserves_intros]: "preserves I m \<Longrightarrow> preserves I (txOn m)"
proof (rule preservesI)
  fix s assume "preserves I m" "I s"
  then show "I (snd (txOn m s))"
    by (cases rule: txOn_cases [of m s]) (auto dest: preservesD)
qed

lemma preserves_catch [preserves_intros]:
  assumes "preserves I m" and "\<And>e. preserves I (h e)"
  shows "preserves I (catch_act m h)"
proof (rule preservesI)
  fix s assume I: "I s"
  obtain r t where m: "m s = (r, t)" by fastforce
  have "I t" using assms(1) I m by (rule preservesD)
  then show "I (snd (catch_act m h s))"
    using m assms(2) by (cases r) (auto simp: catch_act_def preserves_def)
qed

lemma preserves_for [preserves_intros]:
  "(\<And>x. x \<in> set xs \<Longrightarrow> preserves I (body x)) \<Longrightarrow> preserves I (for_act xs body)"
  by (induction xs) (auto intro!: preserves_intros)

lemma preserves_if [preserves_intros]:
  "(b \<Longrightarrow> preserves I m) \<Longrightarrow> (\<not> b \<Longrightarrow> preserves I n) \<Longrightarrow> preserves I (if b then m else n)"
  by simp

lemma preserves_case_option [preserves_intros]:
  "(x = None \<Longrightarrow> preserves I m) \<Longrightarrow> (\<And>y. x = Some y \<Longrightarrow> preserves I (f y)) \<Longrightarrow>
   preserves I (case x of None \<Rightarrow> m | Some y \<Rightarrow> f y)"
  by (cases x) simp_all

section \<open>Rows of a table\<close>

text \<open>
  A table is the list of its rows in insertion order.  \<open>UPDATE t SET f WHERE p\<close> maps \<open>f\<close> over
  the rows satisfying \<open>p\<close>; \<open>DELETE\<close> filters; a \<open>LIMIT 1\<close> query is \<open>find\<close>.
\<close>

definition update_where :: "('r \<Rightarrow> bool) \<Rightarrow> ('r \<Rightarrow> 'r) \<Rightarrow> 'r list \<Rightarrow> 'r list" where
  "update_where p f = map (\<lambda>r. if p r then f r else r)"

definition delete_where :: "('r \<Rightarrow> bool) \<Rightarrow> 'r list \<Rightarrow> 'r list" where
  "delete_where p = filter (\<lambda>r. \<not> p r)"

text \<open>
  \<open>INSERT \<dots> ON CONFLICT (key) DO UPDATE\<close>: when a row conflicting with the new one exists it is
  changed by \<open>upd\<close>, otherwise the new row is appended.
\<close>

definition upsert_where :: "('r \<Rightarrow> bool) \<Rightarrow> ('r \<Rightarrow> 'r) \<Rightarrow> 'r \<Rightarrow> 'r list \<Rightarrow> 'r list" where
  "upsert_where p upd r rs = (if \<exists>x\<in>set rs. p x then update_where p upd rs else rs @ [r])"

lemma length_update_where [simp]: "length (update_where p f rs) = length rs"
  by (simp add: update_where_def)

lemma update_where_Nil [simp]: "update_where p f [] = []"
  and update_where_Cons [simp]:
    "update_where p f (r # rs) = (if p r then f r else r) # update_where p f rs"
  by (simp_all add: update_where_def)

lemma update_where_append [simp]:
  "update_where p f (rs @ ss) = update_where p f rs @ update_where p f ss"
  by (simp add: update_where_def)

lemma set_update_where:
  "set (update_where p f rs) = (\<lambda>r. if p r then f r else r) ` set rs"
  by (simp add: update_where_def)

lemma map_update_where_same [table_simps]:
  "(\<And>r. r \<in> set rs \<Longrightarrow> p r \<Longrightarrow> g (f r) = g r) \<Longrightarrow> map g (update_where p f rs) = map g rs"
  by (simp add: update_where_def)

lemma update_where_none: "(\<And>r. r \<in> set rs \<Longrightarrow> \<not> p r) \<Longrightarrow> update_where p f rs = rs"
  by (induction rs) auto

lemma delete_where_Nil [simp]: "delete_where p [] = []"
  and delete_where_Cons [simp]:
    "delete_where p (r # rs) = (if p r then delete_where p rs else r # delete_where p rs)"
  by (simp_all add: delete_where_def)

lemma set_delete_where [simp]: "set (delete_where p rs) = {r \<in> set rs. \<not> p r}"
  by (auto simp: delete_where_def)

lemma distinct_map_delete_where:
  "distinct (map g rs) \<Longrightarrow> distinct (map g (delete_where p rs))"
  by (simp add: delete_where_def distinct_map_filter)

lemma find_None_set: "find p xs = None \<longleftrightarrow> (\<forall>x\<in>set xs. \<not> p x)"
  by (auto simp: find_None_iff)

lemma find_Some_set: "find p xs = Some x \<Longrightarrow> x \<in> set xs \<and> p x"
  by (auto simp: find_Some_iff)

lemma find_map: "find p (map f xs) = map_option f (find (\<lambda>x. p (f x)) xs)"
  by (induction xs) simp_all

lemma find_append: "find p (xs @ ys) = (case find p xs of None \<Rightarrow> find p ys | Some x \<Rightarrow> Some x)"
  by (induction xs) simp_all

text \<open>A lookup by a unique key finds exactly the row carrying it.\<close>

lemma find_unique_key:
  assumes "distinct (map key rs)" and "r \<in> set rs"
  shows "find (\<lambda>x. key x = key r) rs = Some r"
  using assms
proof (induction rs)
  case (Cons a rs)
  show ?case
  proof (cases "key a = key r")
    case True
    with Cons.prems have "a = r" by (auto simp: image_iff)
    then show ?thesis by simp
  qed (use Cons in auto)
qed simp

lemma find_update_key:
  assumes "\<And>r. key (f r) = key r"
  shows "find (\<lambda>r. key r = i) (update_where (\<lambda>r. key r = j) f rs) = map_option (\<lambda>r. if i = j then f r else r) (find (\<lambda>r. key r = i) rs)"
  by (induction rs) (auto simp: assms)

lemma unique_key_eq:
  "distinct (map key rs) \<Longrightarrow> r \<in> set rs \<Longrightarrow> r' \<in> set rs \<Longrightarrow> key r = key r' \<Longrightarrow> r = r'"
  by (meson distinct_map inj_onD)

section \<open>Sums over rows\<close>

lemma sum_list_update_where:
  fixes g :: "'r \<Rightarrow> 'n::ab_group_add"
  shows "sum_list (map g (update_where p f rs)) =
    sum_list (map g rs) + sum_list (map (\<lambda>r. if p r then g (f r) - g r else 0) rs)"
  by (induction rs) (auto simp: algebra_simps)

lemma sum_list_filter_split:
  fixes g :: "'r \<Rightarrow> 'n::comm_monoid_add"
  shows "sum_list (map g rs) =
    sum_list (map g (filter p rs)) + sum_list (map g (filter (\<lambda>r. \<not> p r) rs))"
  by (induction rs) (auto simp: algebra_simps)

end
