(* ===== verification/Js_Strings.thy ===== *)
theory Js_Strings
  imports Prelude
begin

text \<open>
  The string and number operations of JavaScript that the control plane uses, on strings
  whose code units lie in 0..255 (one \<open>char\<close> per code unit).  \<open>trim\<close>, \<open>toLowerCase\<close>,
  \<open>split\<close>, \<open>indexOf\<close>, \<open>slice\<close>, \<open>join\<close> and the conversion \<open>Number(text)\<close> are executable
  functions; numbers are exact rationals with the three non-finite values of IEEE 754 beside
  them, so rounding to the nearest double is not modelled while overflow to infinity is.
\<close>

section \<open>Character classes\<close>

definition code :: "char \<Rightarrow> nat" where
  "code c = of_char c"

definition is_digit :: "char \<Rightarrow> bool" where
  "is_digit c \<longleftrightarrow> 48 \<le> code c \<and> code c \<le> 57"

definition is_upper :: "char \<Rightarrow> bool" where
  "is_upper c \<longleftrightarrow> 65 \<le> code c \<and> code c \<le> 90"

definition is_lower :: "char \<Rightarrow> bool" where
  "is_lower c \<longleftrightarrow> 97 \<le> code c \<and> code c \<le> 122"

definition is_alnum :: "char \<Rightarrow> bool" where
  "is_alnum c \<longleftrightarrow> is_digit c \<or> is_upper c \<or> is_lower c"

text \<open>The class \<open>[\x00-\x1f\x7f]\<close>.\<close>

definition is_ctrl :: "char \<Rightarrow> bool" where
  "is_ctrl c \<longleftrightarrow> code c \<le> 31 \<or> code c = 127"

text \<open>White space of \<open>trim\<close> and of \<open>\s\<close>: tab to carriage return, space, no-break space.\<close>

definition is_space :: "char \<Rightarrow> bool" where
  "is_space c \<longleftrightarrow> (9 \<le> code c \<and> code c \<le> 13) \<or> code c = 32 \<or> code c = 160"

definition lower_char :: "char \<Rightarrow> char" where
  "lower_char c =
     (if is_upper c \<or> (192 \<le> code c \<and> code c \<le> 222 \<and> code c \<noteq> 215)
      then char_of (code c + 32) else c)"

definition toLowerCase :: "string \<Rightarrow> string" where
  "toLowerCase = map lower_char"

definition js_trim :: "string \<Rightarrow> string" where
  "js_trim s = rev (dropWhile is_space (rev (dropWhile is_space s)))"

definition strip_ctrl :: "string \<Rightarrow> string" where
  "strip_ctrl = filter (\<lambda>c. \<not> is_ctrl c)"

lemmas char_class_defs = code_def is_digit_def is_upper_def is_lower_def is_alnum_def
  is_ctrl_def is_space_def lower_char_def

lemma code_less [simp]: "code c < 256"
  by (simp add: code_def)

lemma code_char_of: "n < 256 \<Longrightarrow> code (char_of n) = n"
  by (simp add: code_def)

lemma code_inj: "code c = code d \<Longrightarrow> c = d"
  by (simp add: code_def)

lemma lower_char_idem [simp]: "lower_char (lower_char c) = lower_char c"
proof (cases "is_upper c \<or> (192 \<le> code c \<and> code c \<le> 222 \<and> code c \<noteq> 215)")
  case True
  then have "code c + 32 < 256" by (auto simp: is_upper_def)
  then have "code (lower_char c) = code c + 32"
    using True by (simp add: lower_char_def code_char_of)
  with True show ?thesis
    by (auto simp: lower_char_def [of "lower_char c"] is_upper_def)
next
  case False
  then show ?thesis by (auto simp: lower_char_def)
qed

lemma toLowerCase_idem [simp]: "toLowerCase (toLowerCase s) = toLowerCase s"
  by (simp add: toLowerCase_def)

lemma length_toLowerCase [simp]: "length (toLowerCase s) = length s"
  by (simp add: toLowerCase_def)

lemma dropWhile_noop: "(\<And>c. c \<in> set s \<Longrightarrow> \<not> p c) \<Longrightarrow> dropWhile p s = s"
  by (cases s) auto

lemma js_trim_noop: "(\<And>c. c \<in> set s \<Longrightarrow> \<not> is_space c) \<Longrightarrow> js_trim s = s"
  using dropWhile_noop [of s is_space] dropWhile_noop [of "rev s" is_space]
  by (simp add: js_trim_def)

lemma set_js_trim: "set (js_trim s) \<subseteq> set s"
  unfolding js_trim_def by (auto dest!: set_dropWhileD)

lemma length_js_trim: "length (js_trim s) \<le> length s"
proof -
  have "length (js_trim s) \<le> length (dropWhile is_space s)"
    unfolding js_trim_def by (metis length_dropWhile_le length_rev)
  then show ?thesis using length_dropWhile_le [of is_space s] by linarith
qed

lemma js_trim_Nil_iff: "js_trim s = [] \<longleftrightarrow> (\<forall>c\<in>set s. is_space c)"
proof -
  have "js_trim s = [] \<longleftrightarrow> (\<forall>c\<in>set (dropWhile is_space s). is_space c)"
    by (simp add: js_trim_def dropWhile_eq_Nil_conv)
  also have "\<dots> \<longleftrightarrow> (\<forall>c\<in>set s. is_space c)"
    by (induction s) auto
  finally show ?thesis .
qed

lemma js_trim_idem [simp]: "js_trim (js_trim s) = js_trim s"
proof -
  have drop: "dropWhile p (dropWhile p xs) = dropWhile p xs" for p :: "char \<Rightarrow> bool" and xs
    by (induction xs) auto
  have head: "xs \<noteq> [] \<Longrightarrow> \<not> p (hd xs) \<Longrightarrow> dropWhile p xs = xs" for p :: "char \<Rightarrow> bool" and xs
    by (cases xs) auto
  let ?a = "dropWhile is_space s" and ?b = "dropWhile is_space (rev (dropWhile is_space s))"
  have b: "dropWhile is_space (rev ?b) = rev ?b"
  proof (cases "?b = []")
    case False
    then have ne: "?a \<noteq> []" by (metis dropWhile.simps(1) rev.simps(1))
    moreover from False obtain zs where "rev ?a = zs @ ?b"
      by (metis takeWhile_dropWhile_id)
    then have "?a = rev ?b @ rev zs" by (metis rev_append rev_rev_ident)
    ultimately have "hd ?a = hd (rev ?b)" using False by (metis hd_append2 rev_is_Nil_conv)
    moreover have "\<not> is_space (hd ?a)" using ne by (rule hd_dropWhile)
    ultimately show ?thesis using False by (intro head) auto
  next
    case True
    show ?thesis unfolding True by simp
  qed
  show ?thesis by (simp add: js_trim_def b drop)
qed

section \<open>Splitting, joining and searching\<close>

fun js_split :: "char \<Rightarrow> string \<Rightarrow> string list" where
  "js_split d [] = [[]]"
| "js_split d (c # cs) =
     (if c = d then [] # js_split d cs
      else (case js_split d cs of [] \<Rightarrow> [[c]] | w # ws \<Rightarrow> (c # w) # ws))"

fun js_join :: "string \<Rightarrow> string list \<Rightarrow> string" where
  "js_join sep [] = []"
| "js_join sep [w] = w"
| "js_join sep (w # v # ws) = w @ sep @ js_join sep (v # ws)"

fun index_of :: "string \<Rightarrow> string \<Rightarrow> nat option" where
  "index_of pat [] = (if pat = [] then Some 0 else None)"
| "index_of pat (c # cs) =
     (if prefix pat (c # cs) then Some 0 else map_option Suc (index_of pat cs))"

fun index_of_char :: "char \<Rightarrow> string \<Rightarrow> nat option" where
  "index_of_char d [] = None"
| "index_of_char d (c # cs) = (if c = d then Some 0 else map_option Suc (index_of_char d cs))"

fun last_index_of_char :: "char \<Rightarrow> string \<Rightarrow> nat option" where
  "last_index_of_char d [] = None"
| "last_index_of_char d (c # cs) =
     (case last_index_of_char d cs of
        Some i \<Rightarrow> Some (Suc i)
      | None \<Rightarrow> if c = d then Some 0 else None)"

definition js_includes :: "string \<Rightarrow> string \<Rightarrow> bool" where
  "js_includes s pat \<longleftrightarrow> index_of pat s \<noteq> None"

definition starts_with :: "string \<Rightarrow> string \<Rightarrow> bool" where
  "starts_with s pat \<longleftrightarrow> prefix pat s"

definition ends_with :: "string \<Rightarrow> string \<Rightarrow> bool" where
  "ends_with s pat \<longleftrightarrow> suffix pat s"

lemma js_split_not_Nil [simp]: "js_split d s \<noteq> []"
  by (cases s) (auto split: list.splits)

lemma js_split_single: "d \<notin> set s \<Longrightarrow> js_split d s = [s]"
  by (induction s) auto

lemma js_split_append: "d \<notin> set w \<Longrightarrow> js_split d (w @ d # s) = w # js_split d s"
  by (induction w) auto

lemma length_js_split: "length (js_split d s) = Suc (count_list s d)"
  by (induction s) (auto split: list.splits)

lemma js_split_no_sep: "w \<in> set (js_split d s) \<Longrightarrow> d \<notin> set w"
proof (induction s arbitrary: w)
  case (Cons c s)
  then show ?case by (cases "js_split d s") (auto split: if_splits)
qed simp

lemma js_join_split: "js_join [d] (js_split d s) = s"
proof (induction s)
  case (Cons c s)
  then show ?case
    by (cases "js_split d s"; cases "tl (js_split d s)") auto
qed simp

lemma js_split_join:
  "ws \<noteq> [] \<Longrightarrow> (\<And>w. w \<in> set ws \<Longrightarrow> d \<notin> set w) \<Longrightarrow> js_split d (js_join [d] ws) = ws"
proof (induction "[d]" ws rule: js_join.induct)
  case (3 w v ws)
  have "js_join [d] (w # v # ws) = w @ d # js_join [d] (v # ws)" by simp
  with 3 show ?case by (simp add: js_split_append)
qed (auto simp: js_split_single)

lemma index_of_char_None: "index_of_char d s = None \<longleftrightarrow> d \<notin> set s"
  by (induction s) auto

lemma index_of_char_append: "d \<notin> set w \<Longrightarrow> index_of_char d (w @ d # s) = Some (length w)"
  by (induction w) auto

lemma last_index_of_char_None: "last_index_of_char d s = None \<longleftrightarrow> d \<notin> set s"
  by (induction s) (auto split: option.splits)

lemma last_index_of_char_append:
  "d \<notin> set s \<Longrightarrow> last_index_of_char d (w @ d # s) = Some (length w)"
  by (induction w) (auto simp: last_index_of_char_None split: option.splits)

lemma includes_Nil_iff: "js_includes [] pat \<longleftrightarrow> pat = []"
  by (simp add: js_includes_def)

lemma includes_Cons_iff: "js_includes (c # s) pat \<longleftrightarrow> prefix pat (c # s) \<or> js_includes s pat"
  by (auto simp: js_includes_def)

lemma includes_iff_sublist: "js_includes s pat \<longleftrightarrow> sublist pat s"
  by (induction s) (auto simp: includes_Nil_iff includes_Cons_iff sublist_Cons_right)

lemma includes_char: "js_includes s [c] \<longleftrightarrow> c \<in> set s"
  by (simp add: includes_iff_sublist sublist_def in_set_conv_decomp)

section \<open>Decimal numerals\<close>

definition digit_val :: "char \<Rightarrow> nat" where
  "digit_val c = code c - 48"

definition digit_char :: "nat \<Rightarrow> char" where
  "digit_char n = ''0123456789'' ! n"

definition dec_val :: "string \<Rightarrow> nat" where
  "dec_val s = foldl (\<lambda>a c. 10 * a + digit_val c) 0 s"

fun show_nat :: "nat \<Rightarrow> string" where
  "show_nat n = (if n < 10 then [digit_char n] else show_nat (n div 10) @ [digit_char (n mod 10)])"

declare show_nat.simps [simp del]

lemma digit_char_digit: "n < 10 \<Longrightarrow> is_digit (digit_char n) \<and> digit_val (digit_char n) = n"
proof -
  assume "n < 10"
  then have "n = 0 \<or> n = 1 \<or> n = 2 \<or> n = 3 \<or> n = 4 \<or> n = 5 \<or> n = 6 \<or> n = 7 \<or> n = 8 \<or> n = 9"
    by arith
  then show ?thesis
    by (elim disjE) (simp_all add: is_digit_def digit_val_def digit_char_def code_def)
qed

lemma dec_val_snoc: "dec_val (s @ [c]) = 10 * dec_val s + digit_val c"
  by (simp add: dec_val_def)

lemma show_nat_props: "dec_val (show_nat n) = n \<and> list_all is_digit (show_nat n) \<and> show_nat n \<noteq> []"
proof (induction n rule: show_nat.induct)
  case (1 n)
  show ?case
  proof (cases "n < 10")
    case True
    then show ?thesis
      using digit_char_digit [OF True]
      by (subst (1 2 3) show_nat.simps) (simp add: dec_val_def)
  next
    case False
    have "is_digit (digit_char (n mod 10)) \<and> digit_val (digit_char (n mod 10)) = n mod 10"
      by (rule digit_char_digit) simp
    with False 1 show ?thesis
      by (subst (1 2 3) show_nat.simps) (simp add: dec_val_snoc)
  qed
qed

lemma dec_val_show_nat [simp]: "dec_val (show_nat n) = n"
  and show_nat_digits: "list_all is_digit (show_nat n)"
  and show_nat_not_Nil [simp]: "show_nat n \<noteq> []"
  using show_nat_props [of n] by auto

lemma show_nat_inj: "show_nat m = show_nat n \<Longrightarrow> m = n"
  by (metis dec_val_show_nat)

lemma show_nat_chars: "c \<in> set (show_nat n) \<Longrightarrow> is_digit c"
  using show_nat_digits by (auto simp: list_all_iff)

lemma digit_not_space: "is_digit c \<Longrightarrow> \<not> is_space c"
  by (auto simp: is_digit_def is_space_def)

section \<open>Numbers\<close>

datatype jsnum = NaN | PosInf | NegInf | Fin rat

text \<open>Values at or above this bound are read as infinity (\<open>2^1024 - 2^970\<close>).\<close>

definition js_overflow :: rat where
  "js_overflow = 2 ^ 1024 - 2 ^ 970"

definition mk_num :: "rat \<Rightarrow> jsnum" where
  "mk_num x = (if js_overflow \<le> x then PosInf else if x \<le> - js_overflow then NegInf else Fin x)"

text \<open>\<open>StrDecimalLiteral\<close>: digits, an optional fraction, an optional exponent.\<close>

definition parse_exponent :: "string \<Rightarrow> (bool \<times> nat) option" where
  "parse_exponent s =
     (case s of
        [] \<Rightarrow> Some (False, 0)
      | e # r \<Rightarrow>
          if e \<noteq> CHR ''e'' \<and> e \<noteq> CHR ''E'' then None
          else let neg = (case r of c # _ \<Rightarrow> c = CHR ''-'' | [] \<Rightarrow> False);
                   ds = (case r of c # r' \<Rightarrow> if c = CHR ''-'' \<or> c = CHR ''+'' then r' else r | [] \<Rightarrow> [])
               in if ds \<noteq> [] \<and> list_all is_digit ds then Some (neg, dec_val ds) else None)"

definition parse_decimal :: "string \<Rightarrow> rat option" where
  "parse_decimal s =
     (let ip = takeWhile is_digit s; r1 = dropWhile is_digit s;
          dotted = (case r1 of c # _ \<Rightarrow> c = CHR ''.'' | [] \<Rightarrow> False);
          fp = (if dotted then takeWhile is_digit (tl r1) else []);
          r2 = (if dotted then dropWhile is_digit (tl r1) else r1)
      in if ip = [] \<and> fp = [] then None
         else case parse_exponent r2 of
             None \<Rightarrow> None
           | Some (neg, e) \<Rightarrow>
               (let m = rat_of_nat (dec_val (ip @ fp)) / 10 ^ length fp
                in Some (if neg then m / 10 ^ e else m * 10 ^ e)))"

definition radix_digit :: "nat \<Rightarrow> char \<Rightarrow> nat option" where
  "radix_digit b c =
     (let v = (if is_digit c then code c - 48
               else if is_lower c then code c - 87
               else if is_upper c then code c - 55 else 99)
      in if v < b then Some v else None)"

fun parse_radix :: "nat \<Rightarrow> nat \<Rightarrow> string \<Rightarrow> nat option" where
  "parse_radix b acc [] = Some acc"
| "parse_radix b acc (c # cs) =
     (case radix_digit b c of None \<Rightarrow> None | Some v \<Rightarrow> parse_radix b (b * acc + v) cs)"

definition radix_of :: "string \<Rightarrow> nat option" where
  "radix_of t =
     (if starts_with t ''0x'' \<or> starts_with t ''0X'' then Some 16
      else if starts_with t ''0o'' \<or> starts_with t ''0O'' then Some 8
      else if starts_with t ''0b'' \<or> starts_with t ''0B'' then Some 2 else None)"

definition signed_number :: "string \<Rightarrow> jsnum" where
  "signed_number t =
     (let neg = starts_with t ''-'';
          body = (if starts_with t ''-'' \<or> starts_with t ''+'' then tl t else t)
      in if body = ''Infinity'' then (if neg then NegInf else PosInf)
         else case parse_decimal body of
             None \<Rightarrow> NaN
           | Some x \<Rightarrow> mk_num (if neg then - x else x))"

text \<open>\<open>Number(text)\<close>.\<close>

definition js_number :: "string \<Rightarrow> jsnum" where
  "js_number s =
     (let t = js_trim s
      in if t = [] then Fin 0
         else case radix_of t of
             Some b \<Rightarrow> (if drop 2 t = [] then NaN
                        else case parse_radix b 0 (drop 2 t) of
                            None \<Rightarrow> NaN | Some n \<Rightarrow> mk_num (rat_of_nat n))
           | None \<Rightarrow> signed_number t)"

definition is_integer :: "jsnum \<Rightarrow> bool" where
  "is_integer n = (case n of Fin x \<Rightarrow> rat_of_int \<lfloor>x\<rfloor> = x | _ \<Rightarrow> False)"

definition is_finite :: "jsnum \<Rightarrow> bool" where
  "is_finite n = (case n of Fin x \<Rightarrow> True | _ \<Rightarrow> False)"

lemma dec_val_all_digits:
  "list_all is_digit s \<Longrightarrow> s \<noteq> [] \<Longrightarrow> parse_decimal s = Some (rat_of_nat (dec_val s))"
proof -
  assume d: "list_all is_digit s" and "s \<noteq> []"
  then have tw: "takeWhile is_digit s = s" and dw: "dropWhile is_digit s = []"
    by (auto simp: list_all_iff takeWhile_eq_all_conv dropWhile_eq_Nil_conv)
  show ?thesis using \<open>s \<noteq> []\<close> by (simp add: parse_decimal_def parse_exponent_def tw dw)
qed

lemma mk_num_small: "x < 2 ^ 64 \<Longrightarrow> - (2 ^ 64) < x \<Longrightarrow> mk_num x = Fin x"
proof -
  assume a: "x < 2 ^ 64" "- (2 ^ 64) < x"
  have "(2::rat) ^ 64 \<le> js_overflow"
  proof -
    have "(2::rat) ^ 970 \<ge> 2 ^ 64" by (rule power_increasing) simp_all
    moreover have "(2::rat) ^ 1024 = 2 ^ 54 * 2 ^ 970" by (simp add: power_add [symmetric])
    moreover have "(2::rat) * 2 ^ 970 \<le> 2 ^ 54 * 2 ^ 970"
      by (rule mult_right_mono) simp_all
    ultimately show ?thesis unfolding js_overflow_def by linarith
  qed
  with a show ?thesis by (simp add: mk_num_def)
qed

text \<open>Reading back a printed decimal: \<open>Number(String(n)) = n\<close>.\<close>

lemma js_number_digits:
  assumes "list_all is_digit s" and "s \<noteq> []" and "dec_val s < 2 ^ 64"
  shows "js_number s = Fin (rat_of_nat (dec_val s))"
proof -
  have trim: "js_trim s = s"
    using assms(1) digit_not_space by (intro js_trim_noop) (auto simp: list_all_iff)
  have dig: "is_digit (hd s)" using assms(1,2) by (auto simp: list_all_iff)
  have no: "\<not> starts_with s [a, b]" if "\<not> is_digit b" for a b
    using that assms(1) by (auto simp: starts_with_def prefix_def list_all_iff)
  have notx: "radix_of s = None"
    by (simp add: radix_of_def no is_digit_def code_def)
  have nosign: "\<not> starts_with s ''-''" "\<not> starts_with s ''+''"
    using dig assms(2) by (cases s; simp add: starts_with_def is_digit_def code_def; fastforce)+
  have "s \<noteq> ''Infinity''" using dig by (auto simp: is_digit_def code_def)
  moreover have "mk_num (rat_of_nat (dec_val s)) = Fin (rat_of_nat (dec_val s))"
  proof (rule mk_num_small)
    show "rat_of_nat (dec_val s) < 2 ^ 64"
      using assms(3) by (metis of_nat_less_iff of_nat_numeral of_nat_power)
    have "(0::rat) < 2 ^ 64" by simp
    then show "- (2 ^ 64) < rat_of_nat (dec_val s)"
      by (meson less_le_trans neg_less_0_iff_less of_nat_0_le_iff)
  qed
  ultimately have "signed_number s = Fin (rat_of_nat (dec_val s))"
    by (simp add: signed_number_def nosign dec_val_all_digits [OF assms(1,2)])
  then show ?thesis by (simp add: js_number_def trim notx assms(2))
qed

lemma js_number_show_nat: "n < 2 ^ 64 \<Longrightarrow> js_number (show_nat n) = Fin (rat_of_nat n)"
  using js_number_digits [OF show_nat_digits] by simp

lemma is_integer_nat [simp]: "is_integer (Fin (rat_of_nat n))"
  by (simp add: is_integer_def)

text \<open>Bundles that evaluate the conversions on closed text.\<close>

lemmas number_eval = js_number_def signed_number_def parse_decimal_def parse_exponent_def
  radix_of_def mk_num_def js_overflow_def is_integer_def dec_val_def digit_val_def
  starts_with_def ends_with_def char_class_defs js_trim_def

lemmas show_eval = show_nat.simps digit_char_def

end
