(* ===== verification/Js_Values.thy ===== *)
theory Js_Values
  imports Js_Strings
begin

text \<open>
  JavaScript values of type \<open>unknown\<close> or \<open>any\<close>: what \<open>JSON.parse\<close> returns and what a
  \<open>jsonb\<close> column holds, with \<open>undefined\<close> for an absent property.  An object is the list of
  its properties in enumeration order.  The operations are the ones the code applies before it
  trusts such a value: property access, \<open>??\<close>, truthiness, \<open>typeof\<close> tests and \<open>Number(x)\<close>.
\<close>

datatype jv =
    JUndef
  | JNull
  | JBool bool
  | JNum jsnum
  | JStr string
  | JArr "jv list"
  | JObj "(string \<times> jv) list"

section \<open>Access and tests\<close>

definition lookup_or_undef :: "(string \<times> jv) list \<Rightarrow> string \<Rightarrow> jv" where
  "lookup_or_undef ps k = (case map_of ps k of None \<Rightarrow> JUndef | Some v \<Rightarrow> v)"

text \<open>\<open>value?.key\<close>: \<open>undefined\<close> for anything that is not an object holding the key.\<close>

fun get_prop :: "jv \<Rightarrow> string \<Rightarrow> jv" where
  "get_prop (JObj ps) k = lookup_or_undef ps k"
| "get_prop _ k = JUndef"

fun nullish :: "jv \<Rightarrow> bool" where
  "nullish JUndef = True"
| "nullish JNull = True"
| "nullish _ = False"

definition coalesce :: "jv \<Rightarrow> jv \<Rightarrow> jv" where
  "coalesce a b = (if nullish a then b else a)"

fun truthy :: "jv \<Rightarrow> bool" where
  "truthy JUndef = False"
| "truthy JNull = False"
| "truthy (JBool b) = b"
| "truthy (JNum n) = (n \<noteq> NaN \<and> n \<noteq> Fin 0)"
| "truthy (JStr s) = (s \<noteq> [])"
| "truthy (JArr xs) = True"
| "truthy (JObj ps) = True"

fun is_str :: "jv \<Rightarrow> bool" where
  "is_str (JStr s) = True"
| "is_str _ = False"

fun as_str :: "jv \<Rightarrow> string option" where
  "as_str (JStr s) = Some s"
| "as_str _ = None"

fun as_bool :: "jv \<Rightarrow> bool option" where
  "as_bool (JBool b) = Some b"
| "as_bool _ = None"

fun as_arr :: "jv \<Rightarrow> jv list option" where
  "as_arr (JArr xs) = Some xs"
| "as_arr _ = None"

text \<open>\<open>value && typeof value === 'object' && !Array.isArray(value) ? value : {}\<close>, the helper
  that appears as \<open>record\<close>, \<open>objectDataOrEmpty\<close> and \<open>isRecord\<close>.\<close>

fun is_record :: "jv \<Rightarrow> bool" where
  "is_record (JObj ps) = True"
| "is_record _ = False"

fun record_of :: "jv \<Rightarrow> (string \<times> jv) list" where
  "record_of (JObj ps) = ps"
| "record_of _ = []"

section \<open>Number coercion\<close>

fun to_number :: "jv \<Rightarrow> jsnum" where
  "to_number JUndef = NaN"
| "to_number JNull = Fin 0"
| "to_number (JBool b) = Fin (if b then 1 else 0)"
| "to_number (JNum n) = n"
| "to_number (JStr s) = js_number s"
| "to_number (JArr []) = Fin 0"
| "to_number (JArr [v]) =
     (case v of JUndef \<Rightarrow> Fin 0 | JNull \<Rightarrow> Fin 0 | JBool b \<Rightarrow> NaN | JObj ps \<Rightarrow> NaN
        | JNum n \<Rightarrow> n | JStr s \<Rightarrow> js_number s | JArr xs \<Rightarrow> to_number (JArr xs))"
| "to_number (JArr (v # w # vs)) = NaN"
| "to_number (JObj ps) = NaN"

text \<open>\<open>Number(x) > 0\<close> and \<open>Number(x) || d\<close>.\<close>

definition num_positive :: "jsnum \<Rightarrow> bool" where
  "num_positive n = (case n of Fin x \<Rightarrow> 0 < x | PosInf \<Rightarrow> True | _ \<Rightarrow> False)"

definition num_or :: "jsnum \<Rightarrow> jsnum \<Rightarrow> jsnum" where
  "num_or n d = (if n = NaN \<or> n = Fin 0 then d else n)"

definition num_less :: "jsnum \<Rightarrow> jsnum \<Rightarrow> bool" where
  "num_less a b =
     (case (a, b) of
        (Fin x, Fin y) \<Rightarrow> x < y
      | (Fin x, PosInf) \<Rightarrow> True
      | (NegInf, Fin x) \<Rightarrow> True
      | (NegInf, PosInf) \<Rightarrow> True
      | _ \<Rightarrow> False)"

lemma num_positive_Fin [simp]: "num_positive (Fin x) \<longleftrightarrow> 0 < x"
  by (simp add: num_positive_def)

lemma num_less_Fin [simp]: "num_less (Fin x) (Fin y) \<longleftrightarrow> x < y"
  by (simp add: num_less_def)

lemma num_less_irrefl [simp]: "\<not> num_less n n"
  by (cases n) (simp_all add: num_less_def)

lemma num_less_trans: "num_less a b \<Longrightarrow> num_less b c \<Longrightarrow> num_less a c"
  by (cases a; cases b; cases c) (auto simp: num_less_def)

section \<open>Objects as maps\<close>

lemma lookup_or_undef_Nil [simp]: "lookup_or_undef [] k = JUndef"
  by (simp add: lookup_or_undef_def)

lemma lookup_or_undef_Cons [simp]:
  "lookup_or_undef ((k, v) # ps) k' = (if k = k' then v else lookup_or_undef ps k')"
  by (simp add: lookup_or_undef_def)

lemma lookup_or_undef_in:
  "lookup_or_undef ps k \<noteq> JUndef \<Longrightarrow> (k, lookup_or_undef ps k) \<in> set ps"
  by (auto simp: lookup_or_undef_def split: option.splits dest: map_of_SomeD)

end
