(* ===== verification/Proxylib.thy ===== *)
theory Proxylib
  imports Js_Values
begin

text \<open>
  \<open>lib/proxylib.ts\<close>: the parser for upstream proxy lists and the two printers.  The platform
  services it calls (\<open>new URL\<close>, \<open>decodeURIComponent\<close>, \<open>JSON.parse\<close>) are the fields of
  \<open>web_api\<close>, a parameter: the theorems hold for every such service.  A function of the source
  that returns \<open>ProxyEntry | string\<close> returns \<open>string + proxy_entry\<close> here; the \<open>URIError\<close>
  that \<open>decodeURIComponent\<close> can throw is an \<open>error\<close>.
\<close>

section \<open>Data\<close>

datatype proxy_scheme = Http | Https | Socks4 | Socks4a | Socks5 | Socks5h

record proxy_entry =
  scheme :: proxy_scheme
  host :: string
  port :: nat
  user :: string
  pass :: string

record proxy_line_error =
  err_line :: nat
  err_text :: string
  err_reason :: string

text \<open>The components of a parsed URL the code reads.\<close>

record url_parts =
  protocol :: string
  hostname :: string
  url_port :: string
  username :: string
  password :: string

record web_api =
  new_URL :: "string \<Rightarrow> url_parts option"
  decodeURIComponent :: "string \<Rightarrow> string option"
  json_parse :: "string \<Rightarrow> jv option"

definition quote_char :: string where
  "quote_char = [CHR 0x22]"

fun scheme_text :: "proxy_scheme \<Rightarrow> string" where
  "scheme_text Http = ''http''"
| "scheme_text Https = ''https''"
| "scheme_text Socks4 = ''socks4''"
| "scheme_text Socks4a = ''socks4a''"
| "scheme_text Socks5 = ''socks5''"
| "scheme_text Socks5h = ''socks5h''"

text \<open>\<open>KNOWN_SCHEMES.has(s)\<close> together with the cast \<open>s as ProxyScheme\<close>.\<close>

definition known_scheme :: "string \<Rightarrow> proxy_scheme option" where
  "known_scheme s = find (\<lambda>k. scheme_text k = s) [Http, Https, Socks4, Socks4a, Socks5, Socks5h]"

section \<open>Field validators\<close>

fun defaultPort :: "proxy_scheme \<Rightarrow> nat" where
  "defaultPort Http = 80"
| "defaultPort Https = 443"
| "defaultPort _ = 1080"

definition host_separator :: "char \<Rightarrow> bool" where
  "host_separator c \<longleftrightarrow> is_space c \<or> c = CHR ''/'' \<or> c = CHR 0x5C \<or> c = CHR ''@''"

definition host_char :: "char \<Rightarrow> bool" where
  "host_char c \<longleftrightarrow> is_alnum c \<or> c \<in> set [CHR ''.'', CHR ''_'', CHR '':'', CHR ''-'', CHR ''['', CHR '']'']"

definition validateHost :: "string \<Rightarrow> string option" where
  "validateHost h =
     (if h = [] then Some ''missing proxy host''
      else if list_ex host_separator h
        then Some (''invalid proxy host '' @ quote_char @ h @ quote_char)
      else if \<not> list_all host_char h
        then Some (''invalid character in proxy host '' @ quote_char @ h @ quote_char)
      else None)"

definition validateCreds :: "string \<Rightarrow> string \<Rightarrow> string option" where
  "validateCreds u p =
     (if list_ex is_ctrl u \<or> list_ex is_ctrl p
      then Some ''proxy credentials contain control characters'' else None)"

text \<open>\<open>raw\<close> is \<open>''\<close> where the source passes \<open>undefined\<close>: both take the default.\<close>

definition portOf :: "string \<Rightarrow> proxy_scheme \<Rightarrow> string + nat" where
  "portOf raw sch =
     (if raw = [] then Inr (defaultPort sch)
      else case js_number raw of
          Fin p \<Rightarrow> (if is_integer (Fin p) \<and> 1 \<le> p \<and> p \<le> 65535 then Inr (nat \<lfloor>p\<rfloor>)
                    else Inl (''invalid proxy port '' @ quote_char @ raw @ quote_char))
        | _ \<Rightarrow> Inl (''invalid proxy port '' @ quote_char @ raw @ quote_char))"

section \<open>Parsers\<close>

definition parseSchemeUrl :: "web_api \<Rightarrow> string \<Rightarrow> (string + proxy_entry) res" where
  "parseSchemeUrl api token =
     (let idx = (case index_of ''://'' token of None \<Rightarrow> 0 | Some i \<Rightarrow> i);
          sch = toLowerCase (take idx token)
      in case known_scheme sch of
          None \<Rightarrow> Inr (Inl (''unsupported proxy scheme '' @ quote_char @ sch @ quote_char))
        | Some k \<Rightarrow>
      (case new_URL api token of
          None \<Rightarrow> Inr (Inl ''malformed proxy URL'')
        | Some u \<Rightarrow>
      (if hostname u = [] then Inr (Inl ''missing proxy host'')
       else case portOf (url_port u) k of
          Inl e \<Rightarrow> Inr (Inl e)
        | Inr p \<Rightarrow>
      (case (if username u = [] then Some [] else decodeURIComponent api (username u)) of
          None \<Rightarrow> Inl (JsError ''URIError'')
        | Some us \<Rightarrow>
      (case (if password u = [] then Some [] else decodeURIComponent api (password u)) of
          None \<Rightarrow> Inl (JsError ''URIError'')
        | Some pw \<Rightarrow>
      (case validateCreds us pw of
          Some e \<Rightarrow> Inr (Inl e)
        | None \<Rightarrow> Inr (Inr \<lparr>scheme = k, host = hostname u, port = p, user = us, pass = pw\<rparr>)))))))"

text \<open>The \<open>user:pass@\<close> prefix of a bare entry, split at the last \<open>@\<close>.\<close>

definition bareUserinfo :: "string \<Rightarrow> string + (string \<times> string \<times> string)" where
  "bareUserinfo token =
     (case last_index_of_char CHR ''@'' token of
        None \<Rightarrow> Inr ([], [], token)
      | Some i \<Rightarrow>
          let userinfo = take i token; rest = drop (Suc i) token
          in if userinfo = [] then Inl ''empty proxy credentials''
             else let (us, pw) = (case index_of_char CHR '':'' userinfo of
                                    None \<Rightarrow> (userinfo, [])
                                  | Some sep \<Rightarrow> (take sep userinfo, drop (Suc sep) userinfo))
                  in if us = [] \<and> pw = [] then Inl ''empty proxy credentials''
                     else Inr (us, pw, rest))"

text \<open>The host, port and trailing credentials of a bare entry: host, port text, user, pass.\<close>

definition bareHostport ::
  "string \<Rightarrow> string \<Rightarrow> string \<Rightarrow> string + (string \<times> string \<times> string \<times> string)" where
  "bareHostport us pw rest =
     (if us = [] \<and> pw = [] \<and> \<not> starts_with rest ''['' \<and> count_list rest CHR '':'' = 3 then
        (case js_split CHR '':'' rest of
           h # p # u # w # _ \<Rightarrow> Inr (h, p, u, w)
         | _ \<Rightarrow> Inl ''missing proxy host'')
      else if starts_with rest ''['' then
        (case index_of_char CHR '']'' rest of
           None \<Rightarrow> Inl ''missing proxy host''
         | Some e \<Rightarrow>
             let h = take (e - 1) (drop 1 rest); tail = drop (Suc e) rest
             in if tail = [] then Inr (h, [], us, pw)
                else if \<not> starts_with tail '':'' then Inl ''missing proxy host''
                else (case js_split CHR '':'' (drop 1 tail) of
                        [p, u, w] \<Rightarrow> (if us = [] then Inr (h, p, u, w) else Inr (h, p, us, pw))
                      | p # _ \<Rightarrow> Inr (h, p, us, pw)
                      | [] \<Rightarrow> Inr (h, [], us, pw)))
      else
        (case js_split CHR '':'' rest of
           [h] \<Rightarrow> Inr (h, [], us, pw)
         | [h, p] \<Rightarrow> Inr (h, p, us, pw)
         | _ \<Rightarrow> Inl ''missing proxy host''))"

definition parseBare :: "string \<Rightarrow> string + proxy_entry" where
  "parseBare token =
     (case bareUserinfo token of
        Inl e \<Rightarrow> Inl e
      | Inr (us0, pw0, rest) \<Rightarrow>
     (case bareHostport us0 pw0 rest of
        Inl e \<Rightarrow> Inl e
      | Inr (h, p, us, pw) \<Rightarrow>
     (if h = [] then Inl ''missing proxy host''
      else case portOf p Http of
        Inl e \<Rightarrow> Inl e
      | Inr n \<Rightarrow>
     (case validateHost h of
        Some e \<Rightarrow> Inl e
      | None \<Rightarrow>
     (case validateCreds us pw of
        Some e \<Rightarrow> Inl e
      | None \<Rightarrow> Inr \<lparr>scheme = Http, host = h, port = n, user = us, pass = pw\<rparr>)))))"

definition parseProxyEntry :: "web_api \<Rightarrow> string \<Rightarrow> (string + proxy_entry) res" where
  "parseProxyEntry api token =
     (let trimmed = js_trim token
      in if trimmed = [] then Inr (Inl ''empty proxy entry'')
         else if js_includes trimmed ''://'' then parseSchemeUrl api trimmed
         else Inr (parseBare trimmed))"

section \<open>Lists\<close>

record proxy_acc =
  entries :: "proxy_entry list"
  errors :: "proxy_line_error list"
  seen :: "string list"

definition entry_key :: "proxy_entry \<Rightarrow> string" where
  "entry_key e = scheme_text (scheme e) @ ''://'' @ user e @ '':'' @ pass e @ ''@'' @ host e @ '':''
     @ show_nat (port e)"

definition addEntry :: "web_api \<Rightarrow> string \<Rightarrow> nat \<Rightarrow> proxy_acc \<Rightarrow> proxy_acc res" where
  "addEntry api token lineNo acc =
     (case parseProxyEntry api token of
        Inl e \<Rightarrow> Inl e
      | Inr (Inl reason) \<Rightarrow>
          Inr (acc\<lparr>errors := errors acc @
                 [\<lparr>err_line = lineNo, err_text = js_trim token, err_reason = reason\<rparr>]\<rparr>)
      | Inr (Inr parsed) \<Rightarrow>
          (if entry_key parsed \<in> set (seen acc) then Inr acc
           else Inr (acc\<lparr>entries := entries acc @ [parsed], seen := seen acc @ [entry_key parsed]\<rparr>)))"

fun addEntries :: "web_api \<Rightarrow> (string \<times> nat) list \<Rightarrow> proxy_acc \<Rightarrow> proxy_acc res" where
  "addEntries api [] acc = Inr acc"
| "addEntries api ((t, n) # ts) acc =
     (case addEntry api t n acc of Inl e \<Rightarrow> Inl e | Inr acc' \<Rightarrow> addEntries api ts acc')"

text \<open>A JSON array of strings, when the text parses to one.\<close>

definition json_string_list :: "web_api \<Rightarrow> string \<Rightarrow> string list option" where
  "json_string_list api t =
     (case json_parse api t of
        Some (JArr xs) \<Rightarrow> (if list_all is_str xs then Some (List.map_filter as_str xs) else None)
      | _ \<Rightarrow> None)"

definition is_token_sep :: "char \<Rightarrow> bool" where
  "is_token_sep c \<longleftrightarrow> c = CHR '','' \<or> c = CHR '';'' \<or> is_space c"

fun split_class :: "(char \<Rightarrow> bool) \<Rightarrow> string \<Rightarrow> string list" where
  "split_class p [] = [[]]"
| "split_class p (c # cs) =
     (if p c then [] # split_class p cs
      else (case split_class p cs of [] \<Rightarrow> [[c]] | w # ws \<Rightarrow> (c # w) # ws))"

text \<open>The tokens of one line: comments and blank lines give none; a line that is a JSON array
  of strings gives its items; any other line is split at runs of separators, empty pieces
  being skipped.\<close>

definition line_tokens :: "web_api \<Rightarrow> string \<Rightarrow> string list" where
  "line_tokens api rawLine =
     (let line0 = js_trim rawLine
      in if line0 = [] \<or> starts_with line0 ''#'' then []
         else let line = (case index_of_char CHR ''#'' line0 of
                            None \<Rightarrow> line0 | Some h \<Rightarrow> js_trim (take h line0))
              in if line = [] then []
                 else case (if starts_with line ''['' \<and> ends_with line '']''
                            then json_string_list api line else None) of
                     Some xs \<Rightarrow> xs
                   | None \<Rightarrow> filter (\<lambda>t. t \<noteq> []) (split_class is_token_sep line))"

definition number_from :: "nat \<Rightarrow> 'a list \<Rightarrow> ('a \<times> nat) list" where
  "number_from n xs = zip xs [n..<n + length xs]"

definition list_tokens :: "web_api \<Rightarrow> string \<Rightarrow> (string \<times> nat) list" where
  "list_tokens api raw =
     (case (if starts_with (js_trim raw) ''['' then json_string_list api (js_trim raw) else None) of
        Some xs \<Rightarrow> number_from 1 xs
      | None \<Rightarrow> concat (map (\<lambda>(l, n). map (\<lambda>t. (t, n)) (line_tokens api l))
                          (number_from 1 (js_split CHR 0x0A raw))))"

definition parseProxyList :: "web_api \<Rightarrow> string \<Rightarrow> proxy_acc res" where
  "parseProxyList api raw =
     addEntries api (list_tokens api raw) \<lparr>entries = [], errors = [], seen = []\<rparr>"

section \<open>Printers\<close>

definition hostport :: "proxy_entry \<Rightarrow> string" where
  "hostport e = (if CHR '':'' \<in> set (host e) then ''['' @ host e @ '']:'' @ show_nat (port e)
                 else host e @ '':'' @ show_nat (port e))"

definition maskProxy :: "proxy_entry \<Rightarrow> string" where
  "maskProxy e = (if user e = [] then scheme_text (scheme e) @ ''://'' @ hostport e
                  else scheme_text (scheme e) @ ''://'' @ user e @ '':****@'' @ hostport e)"

definition normalizeProxy :: "proxy_entry \<Rightarrow> string" where
  "normalizeProxy e =
     scheme_text (scheme e) @ ''://'' @ (if user e = [] then [] else user e @ '':'' @ pass e @ ''@'')
       @ hostport e"

section \<open>Correctness\<close>

lemma portOf_bounds: "portOf raw sch = Inr n \<Longrightarrow> 1 \<le> n \<and> n \<le> 65535"
proof (cases "raw = []")
  case True
  then show "portOf raw sch = Inr n \<Longrightarrow> 1 \<le> n \<and> n \<le> 65535"
    by (cases sch) (auto simp: portOf_def)
next
  case False
  assume "portOf raw sch = Inr n"
  with False obtain p :: rat where p: "1 \<le> p" "p \<le> 65535" "n = nat \<lfloor>p\<rfloor>"
    by (auto simp: portOf_def split: jsnum.splits if_splits)
  then have "1 \<le> \<lfloor>p\<rfloor>" "\<lfloor>p\<rfloor> \<le> 65535" by linarith+
  with p show "1 \<le> n \<and> n \<le> 65535" by linarith
qed

lemma portOf_show_nat: "1 \<le> n \<Longrightarrow> n \<le> 65535 \<Longrightarrow> portOf (show_nat n) sch = Inr n"
  by (simp add: portOf_def js_number_show_nat)

text \<open>What every accepted entry satisfies.\<close>

definition valid_entry :: "proxy_entry \<Rightarrow> bool" where
  "valid_entry e \<longleftrightarrow> host e \<noteq> [] \<and> 1 \<le> port e \<and> port e \<le> 65535
     \<and> (\<forall>c\<in>set (user e) \<union> set (pass e). \<not> is_ctrl c)"

lemma validateCreds_None: "validateCreds u p = None \<longleftrightarrow> (\<forall>c\<in>set u \<union> set p. \<not> is_ctrl c)"
  by (auto simp: validateCreds_def list_ex_iff)

lemma parseSchemeUrl_valid: "parseSchemeUrl api t = Inr (Inr e) \<Longrightarrow> valid_entry e"
  unfolding parseSchemeUrl_def Let_def valid_entry_def
  by (auto simp: validateCreds_None split: option.splits if_splits sum.splits dest!: portOf_bounds)

lemma parseBare_Inr:
  assumes "parseBare t = Inr e"
  obtains us0 pw0 rest p where
    "bareUserinfo t = Inr (us0, pw0, rest)"
    "bareHostport us0 pw0 rest = Inr (host e, p, user e, pass e)"
    "portOf p Http = Inr (port e)" "host e \<noteq> []" "validateHost (host e) = None"
    "validateCreds (user e) (pass e) = None" "scheme e = Http"
  using assms unfolding parseBare_def
  by (auto split: option.splits if_splits sum.splits prod.splits intro: that)

lemma parseBare_valid: "parseBare t = Inr e \<Longrightarrow> valid_entry e"
  by (elim parseBare_Inr) (auto simp: valid_entry_def validateCreds_None dest: portOf_bounds)

lemma parseProxyEntry_valid: "parseProxyEntry api t = Inr (Inr e) \<Longrightarrow> valid_entry e"
  by (auto simp: parseProxyEntry_def Let_def split: if_splits
      dest: parseSchemeUrl_valid parseBare_valid)

text \<open>The accumulator invariant of \<open>addEntry\<close>: \<open>seen\<close> holds exactly the keys of \<open>entries\<close>.\<close>

definition acc_ok :: "proxy_acc \<Rightarrow> bool" where
  "acc_ok acc \<longleftrightarrow> seen acc = map entry_key (entries acc) \<and> distinct (seen acc)
     \<and> list_all valid_entry (entries acc)"

lemma addEntry_ok: "acc_ok acc \<Longrightarrow> addEntry api t n acc = Inr acc' \<Longrightarrow> acc_ok acc'"
  by (auto simp: addEntry_def acc_ok_def split: sum.splits if_splits dest: parseProxyEntry_valid)

lemma addEntries_ok: "acc_ok acc \<Longrightarrow> addEntries api ts acc = Inr acc' \<Longrightarrow> acc_ok acc'"
  by (induction api ts acc rule: addEntries.induct)
    (auto split: sum.splits dest: addEntry_ok)

text \<open>A token is accounted for when its entry is listed or its error is reported.\<close>

definition accounted :: "web_api \<Rightarrow> proxy_acc \<Rightarrow> string \<times> nat \<Rightarrow> bool" where
  "accounted api acc tn =
     (case parseProxyEntry api (fst tn) of
        Inl e \<Rightarrow> False
      | Inr (Inl reason) \<Rightarrow>
          \<lparr>err_line = snd tn, err_text = js_trim (fst tn), err_reason = reason\<rparr> \<in> set (errors acc)
      | Inr (Inr e) \<Rightarrow> entry_key e \<in> set (seen acc))"

lemma addEntry_mono:
  "addEntry api t n acc = Inr acc' \<Longrightarrow>
   set (errors acc) \<subseteq> set (errors acc') \<and> set (seen acc) \<subseteq> set (seen acc') \<and> accounted api acc' (t, n)"
  by (auto simp: addEntry_def accounted_def split: sum.splits if_splits)

lemma addEntries_accounted:
  "addEntries api ts acc = Inr acc' \<Longrightarrow>
   set (errors acc) \<subseteq> set (errors acc') \<and> set (seen acc) \<subseteq> set (seen acc')
   \<and> (\<forall>tn\<in>set ts. accounted api acc' tn)"
proof (induction api ts acc rule: addEntries.induct)
  case (2 api t n ts acc)
  then obtain acc1 where a1: "addEntry api t n acc = Inr acc1"
    and rest: "addEntries api ts acc1 = Inr acc'" by (auto split: sum.splits)
  note IH = "2.IH" [OF a1 rest] and step = addEntry_mono [OF a1]
  have "accounted api acc' (t, n)"
    using IH step unfolding accounted_def by (auto split: sum.splits)
  with IH step show ?case by auto
qed simp

section \<open>Round trip of the canonical form\<close>

lemma take_Suc_drop_notin:
  "last_index_of_char d s = Some i \<Longrightarrow> d \<notin> set (drop (Suc i) s)"
proof (induction s arbitrary: i)
  case (Cons c s)
  then show ?case
    by (cases "last_index_of_char d s") (auto simp: last_index_of_char_None split: if_splits)
qed simp

lemma index_of_char_take: "index_of_char d s = Some i \<Longrightarrow> d \<notin> set (take i s)"
  by (induction s arbitrary: i) (auto split: if_splits)

lemma bareUserinfo_shape:
  "bareUserinfo t = Inr (us, pw, rest) \<Longrightarrow> CHR '':'' \<notin> set us \<and> CHR ''@'' \<notin> set rest"
  unfolding bareUserinfo_def Let_def
  by (auto simp: last_index_of_char_None index_of_char_None take_Suc_drop_notin
      split: option.splits if_splits prod.splits dest!: index_of_char_take)

lemma bareHostport_shape:
  assumes "bareHostport us pw rest = Inr (h, p, us', pw')" and "CHR '':'' \<notin> set us"
  shows "CHR '':'' \<notin> set us' \<and> (CHR '':'' \<in> set h \<longrightarrow> CHR '']'' \<notin> set h)"
proof -
  have sep: "js_split CHR '':'' x = w # ws \<Longrightarrow> CHR '':'' \<notin> set w \<and> (\<forall>v\<in>set ws. CHR '':'' \<notin> set v)"
    for x w ws
    using js_split_no_sep [of _ "CHR '':''" x] by auto
  have brk: "CHR '']'' \<notin> set (take (e - 1) (drop 1 rest))"
    if "index_of_char CHR '']'' rest = Some e" for e
  proof -
    have "take (e - 1) (drop 1 rest) = drop 1 (take e rest)" by (simp add: drop_take)
    then show ?thesis using index_of_char_take [OF that] by (metis in_set_dropD)
  qed
  show ?thesis
    using assms brk unfolding bareHostport_def Let_def
    by (auto split: if_splits list.splits option.splits dest!: sep)
qed

lemma hostport_parses:
  assumes "CHR '':'' \<in> set (host e) \<longrightarrow> CHR '']'' \<notin> set (host e)"
    and "host e \<noteq> []" and "hd (host e) \<noteq> CHR ''[''"
  shows "bareHostport us pw (hostport e) = Inr (host e, show_nat (port e), us, pw)"
proof -
  have dig: "CHR '':'' \<notin> set (show_nat (port e))"
    using show_nat_chars [of "CHR '':''" "port e"] by (auto simp: is_digit_def code_def)
  show ?thesis
  proof (cases "CHR '':'' \<in> set (host e)")
    case True
    let ?h = "host e" and ?n = "show_nat (port e)"
    have rest: "hostport e = (CHR ''['' # ?h) @ CHR '']'' # CHR '':'' # ?n"
      using True by (simp add: hostport_def)
    have "index_of_char CHR '']'' (hostport e) = Some (Suc (length ?h))"
      unfolding rest using True assms(1) by (subst index_of_char_append) auto
    moreover have "starts_with (hostport e) ''[''" by (simp add: rest starts_with_def)
    moreover have "drop (Suc (Suc (length ?h))) (hostport e) = CHR '':'' # ?n"
      and "take (length ?h) (drop 1 (hostport e)) = ?h" by (simp_all add: rest)
    ultimately show ?thesis
      using dig by (simp add: bareHostport_def starts_with_def js_split_single)
  next
    case False
    let ?h = "host e" and ?n = "show_nat (port e)"
    have rest: "hostport e = ?h @ CHR '':'' # ?n" using False by (simp add: hostport_def)
    have "\<not> starts_with (hostport e) ''[''"
      using assms(2,3) by (cases ?h) (auto simp: rest starts_with_def)
    moreover have "count_list (hostport e) CHR '':'' = 1"
      using False dig by (simp add: rest count_list_0_iff)
    moreover have "js_split CHR '':'' (hostport e) = [?h, ?n]"
      using False dig by (simp add: rest js_split_append js_split_single)
    ultimately show ?thesis by (simp add: bareHostport_def)
  qed
qed

lemma userinfo_parses:
  assumes "CHR '':'' \<notin> set (user e)" and "user e \<noteq> [] \<or> pass e = []"
    and "CHR ''@'' \<notin> set (hostport e)"
  shows "bareUserinfo ((if user e = [] then [] else user e @ '':'' @ pass e @ ''@'') @ hostport e)
    = Inr (user e, pass e, hostport e)"
proof (cases "user e = []")
  case True
  moreover have "last_index_of_char CHR ''@'' (hostport e) = None"
    using assms(3) by (simp add: last_index_of_char_None)
  ultimately show ?thesis using assms(2) by (simp add: bareUserinfo_def)
next
  case False
  let ?ui = "user e @ CHR '':'' # pass e"
  have "last_index_of_char CHR ''@'' (?ui @ CHR ''@'' # hostport e) = Some (length ?ui)"
    by (rule last_index_of_char_append [OF assms(3)])
  moreover have "index_of_char CHR '':'' ?ui = Some (length (user e))"
    by (rule index_of_char_append [OF assms(1)])
  ultimately show ?thesis using False by (simp add: bareUserinfo_def)
qed

lemma validateHost_no_at: "validateHost h = None \<Longrightarrow> CHR ''@'' \<notin> set h"
  by (auto simp: validateHost_def host_separator_def list_ex_iff split: if_splits)

lemma parseBare_normal_form:
  assumes t: "parseBare t = Inr e"
    and creds: "user e \<noteq> [] \<or> pass e = []" and bracket: "hd (host e) \<noteq> CHR ''[''"
  shows "parseBare (drop 7 (normalizeProxy e)) = Inr e"
proof -
  obtain us0 pw0 rest p where
    ui: "bareUserinfo t = Inr (us0, pw0, rest)" and
    hp: "bareHostport us0 pw0 rest = Inr (host e, p, user e, pass e)" and
    po: "portOf p Http = Inr (port e)" and ne: "host e \<noteq> []" and vh: "validateHost (host e) = None"
    and vc: "validateCreds (user e) (pass e) = None" and http: "scheme e = Http"
    using t by (rule parseBare_Inr)
  have shape: "CHR '':'' \<notin> set (user e)" "CHR '':'' \<in> set (host e) \<longrightarrow> CHR '']'' \<notin> set (host e)"
    using bareHostport_shape [OF hp] bareUserinfo_shape [OF ui] by auto
  have "CHR ''@'' \<notin> set (hostport e)"
    using validateHost_no_at [OF vh] show_nat_chars [of "CHR ''@''" "port e"]
    by (auto simp: hostport_def is_digit_def code_def)
  note ui' = userinfo_parses [OF shape(1) creds this]
  have "drop 7 (normalizeProxy e) =
      (if user e = [] then [] else user e @ '':'' @ pass e @ ''@'') @ hostport e"
    by (simp add: normalizeProxy_def http)
  moreover have "portOf (show_nat (port e)) Http = Inr (port e)"
    using portOf_bounds [OF po] by (intro portOf_show_nat) auto
  ultimately show ?thesis
    using hostport_parses [OF shape(2) ne bracket] ne vh vc http
    unfolding parseBare_def by (simp only: ui') simp
qed

section \<open>Properties\<close>


text \<open>The canonical form is stable.  When the bare parser accepts a token, printing the entry
  with \<open>normalizeProxy\<close> and parsing the printed text again (without its \<open>http://\<close>) returns the
  same entry, provided the credentials are not a bare password and the host does not itself
  start with a bracket.\<close>

theorem normalizeProxy_roundtrip:
  assumes "parseBare t = Inr e" and "user e \<noteq> [] \<or> pass e = []" and "hd (host e) \<noteq> CHR ''[''"
  shows "parseBare (drop 7 (normalizeProxy e)) = Inr e"
  using assms by (rule parseBare_normal_form)

lemmas bare_eval = parseBare_def bareUserinfo_def bareHostport_def portOf_def validateHost_def
  host_char_def host_separator_def validateCreds_def number_eval

theorem normalizeProxy_roundtrip_witness:
  "parseBare ''u:p@h:8080'' =
     Inr \<lparr>scheme = Http, host = ''h'', port = 8080, user = ''u'', pass = ''p''\<rparr>
   \<and> parseBare (drop 7 (normalizeProxy
       \<lparr>scheme = Http, host = ''h'', port = 8080, user = ''u'', pass = ''p''\<rparr>)) =
     Inr \<lparr>scheme = Http, host = ''h'', port = 8080, user = ''u'', pass = ''p''\<rparr>"
proof -
  let ?e = "\<lparr>scheme = Http, host = ''h'', port = 8080, user = ''u'', pass = ''p''\<rparr>"
  have h: "parseBare ''u:p@h:8080'' = Inr ?e" by (simp add: bare_eval)
  have "parseBare (drop 7 (normalizeProxy ?e)) = Inr ?e"
    by (rule normalizeProxy_roundtrip [OF h]) simp_all
  with h show ?thesis by blast
qed

text \<open>A platform on which every URL is malformed and no text is JSON.\<close>

definition no_web :: web_api where
  "no_web = \<lparr>new_URL = (\<lambda>_. None), decodeURIComponent = Some, json_parse = (\<lambda>_. None)\<rparr>"


end
