(* ===== verification/Rate_Limit.thy ===== *)
theory Rate_Limit
  imports Js_Values "HOL-Library.AList"
begin

text \<open>
  \<open>lib/rate-limit.ts\<close>: the in-memory fixed-window limiter in front of the self-serve
  endpoints.  The module-level \<open>Map\<close> is an association list with distinct keys; \<open>limit\<close> is a
  JavaScript number, since callers compute it with \<open>Number(process.env.X ?? d)\<close>, which is
  \<open>NaN\<close> for a malformed setting; times are integral milliseconds.
\<close>

record bucket =
  count :: nat
  resetAt :: int

type_synonym buckets = "(string \<times> bucket) list"

definition num_le_zero :: "jsnum \<Rightarrow> bool" where
  "num_le_zero n = (case n of Fin x \<Rightarrow> x \<le> 0 | NegInf \<Rightarrow> True | _ \<Rightarrow> False)"

definition count_reaches :: "nat \<Rightarrow> jsnum \<Rightarrow> bool" where
  "count_reaches c n = (case n of Fin x \<Rightarrow> x \<le> rat_of_nat c | NegInf \<Rightarrow> True | _ \<Rightarrow> False)"

definition bucket_cap :: nat where
  "bucket_cap = 50000"

text \<open>The sweep at the top of \<open>rateLimit\<close>: above the cap, expired buckets go first, then all.\<close>

definition purge :: "int \<Rightarrow> buckets \<Rightarrow> buckets" where
  "purge now bs =
     (if length bs > bucket_cap
      then let live = filter (\<lambda>(k, b). \<not> resetAt b \<le> now) bs
           in if length live > bucket_cap then [] else live
      else bs)"

definition rateLimit :: "string \<Rightarrow> jsnum \<Rightarrow> int \<Rightarrow> int \<Rightarrow> buckets \<Rightarrow> bool \<times> buckets" where
  "rateLimit key limit windowMs now bs =
     (if num_le_zero limit \<or> windowMs \<le> 0 then (False, bs)
      else let bs' = purge now bs
           in case map_of bs' key of
               None \<Rightarrow> (True, AList.update key \<lparr>count = 1, resetAt = now + windowMs\<rparr> bs')
             | Some b \<Rightarrow>
                 (if resetAt b \<le> now
                  then (True, AList.update key \<lparr>count = 1, resetAt = now + windowMs\<rparr> bs')
                  else if count_reaches (count b) limit then (False, bs')
                  else (True, AList.update key (b\<lparr>count := count b + 1\<rparr>) bs')))"

text \<open>First hop of \<open>X-Forwarded-For\<close>, or the placeholder \<open>local\<close>.\<close>

definition clientIp :: "string option \<Rightarrow> string" where
  "clientIp fwd =
     (case fwd of
        None \<Rightarrow> ''local''
      | Some f \<Rightarrow> if f = [] then ''local''
                  else let first = js_trim (hd (js_split CHR '','' f))
                       in if first = [] then ''local'' else first)"

text \<open>A run of requests for one endpoint: key and arrival time of each.\<close>

fun rate_run :: "jsnum \<Rightarrow> int \<Rightarrow> (string \<times> int) list \<Rightarrow> buckets \<Rightarrow> bool list \<times> buckets" where
  "rate_run limit w [] bs = ([], bs)"
| "rate_run limit w ((k, now) # calls) bs =
     (let (g, bs') = rateLimit k limit w now bs; (gs, bs'') = rate_run limit w calls bs'
      in (g # gs, bs''))"

definition grants_to :: "string \<Rightarrow> (string \<times> int) list \<Rightarrow> bool list \<Rightarrow> nat" where
  "grants_to k calls gs = length (filter (\<lambda>((k', t), g). k' = k \<and> g) (zip calls gs))"

section \<open>Invariant and frame\<close>

definition buckets_ok :: "buckets \<Rightarrow> bool" where
  "buckets_ok bs \<longleftrightarrow> distinct (map fst bs) \<and> length bs \<le> Suc bucket_cap"

lemma length_alist_update:
  "length (AList.update k v bs) = (if k \<in> fst ` set bs then length bs else Suc (length bs))"
  by (induction bs) auto

lemma purge_props:
  "distinct (map fst bs) \<Longrightarrow> distinct (map fst (purge now bs)) \<and> length (purge now bs) \<le> bucket_cap"
  by (auto simp: purge_def Let_def distinct_map_filter)

lemma rateLimit_ok: "buckets_ok bs \<Longrightarrow> buckets_ok (snd (rateLimit k limit w now bs))"
proof -
  assume ok: "buckets_ok bs"
  then have p: "distinct (map fst (purge now bs))" "length (purge now bs) \<le> bucket_cap"
    using purge_props by (auto simp: buckets_ok_def)
  have upd: "buckets_ok (AList.update k b (purge now bs))" for b
    using p by (auto simp: buckets_ok_def length_alist_update distinct_update)
  have "buckets_ok (purge now bs)" using p by (simp add: buckets_ok_def)
  with upd ok show ?thesis by (auto simp: rateLimit_def Let_def split: option.splits)
qed

lemma rate_run_ok: "buckets_ok bs \<Longrightarrow> buckets_ok (snd (rate_run limit w calls bs))"
proof (induction calls arbitrary: bs)
  case (Cons kt calls)
  obtain k now where kt: "kt = (k, now)" by fastforce
  have "buckets_ok (snd (rateLimit k limit w now bs))" by (rule rateLimit_ok [OF Cons.prems])
  from Cons.IH [OF this] show ?case by (simp add: kt case_prod_beta Let_def)
qed simp

lemma purge_noop: "length bs \<le> bucket_cap \<Longrightarrow> purge now bs = bs"
  by (simp add: purge_def)

lemma length_rateLimit: "length (snd (rateLimit k limit w now bs)) \<le> Suc (length bs)"
proof -
  have "length (purge now bs) \<le> length bs" by (simp add: purge_def Let_def)
  then show ?thesis
    by (auto simp: rateLimit_def Let_def length_alist_update split: option.splits)
qed

section \<open>The window\<close>

lemma rateLimit_other:
  "length bs \<le> bucket_cap \<Longrightarrow> k' \<noteq> k \<Longrightarrow>
   map_of (snd (rateLimit k' limit w now bs)) k = map_of bs k"
  by (auto simp: rateLimit_def Let_def purge_noop update_conv split: option.splits)

lemma rateLimit_in_window:
  assumes "length bs \<le> bucket_cap" and "map_of bs k = Some \<lparr>count = c, resetAt = r\<rparr>"
    and "now < r" and "0 < L" and "0 < w"
  shows "rateLimit k (Fin (rat_of_nat L)) w now bs =
    (if c < L then (True, AList.update k \<lparr>count = Suc c, resetAt = r\<rparr> bs) else (False, bs))"
  using assms
  by (simp add: rateLimit_def num_le_zero_def count_reaches_def purge_noop)

lemma grants_to_Cons:
  "grants_to k ((k', t) # calls) (g # gs) = (if k' = k \<and> g then 1 else 0) + grants_to k calls gs"
  by (simp add: grants_to_def)

lemma rate_run_window:
  assumes "length bs + length calls \<le> bucket_cap"
    and "map_of bs k = Some \<lparr>count = c, resetAt = r\<rparr>" and "c \<le> L"
    and "\<forall>(k', t)\<in>set calls. t < r" and "0 < L" and "0 < w"
  shows "grants_to k calls (fst (rate_run (Fin (rat_of_nat L)) w calls bs)) =
    min (length (filter (\<lambda>(k', t). k' = k) calls)) (L - c)"
  using assms(1-4)
proof (induction calls arbitrary: bs c)
  case Nil
  then show ?case by (simp add: grants_to_def)
next
  case (Cons kt calls)
  obtain k' t where kt: "kt = (k', t)" by fastforce
  let ?step = "rateLimit k' (Fin (rat_of_nat L)) w t bs"
  have len: "length (snd ?step) + length calls \<le> bucket_cap"
    using length_rateLimit [of k' "Fin (rat_of_nat L)" w t bs] Cons.prems(1) by simp
  have bound: "length bs \<le> bucket_cap" using Cons.prems(1) by simp
  have tl: "\<forall>(k', t)\<in>set calls. t < r" and t: "t < r" using Cons.prems(4) kt by auto
  show ?case
  proof (cases "k' = k")
    case False
    have "map_of (snd ?step) k = Some \<lparr>count = c, resetAt = r\<rparr>"
      using rateLimit_other [OF bound False] Cons.prems(2) by simp
    from Cons.IH [OF len this Cons.prems(3) tl] show ?thesis
      using False by (simp add: kt case_prod_beta Let_def grants_to_Cons)
  next
    case True
    note step = rateLimit_in_window [OF bound Cons.prems(2) t assms(5,6)]
    show ?thesis
    proof (cases "c < L")
      case c: True
      have m: "map_of (snd ?step) k = Some \<lparr>count = Suc c, resetAt = r\<rparr>"
        using step True c by (simp add: update_conv)
      have "Suc c \<le> L" using c by simp
      from Cons.IH [OF len m this tl] show ?thesis
        using True c step by (simp add: kt case_prod_beta Let_def grants_to_Cons)
    next
      case c: False
      have m: "map_of (snd ?step) k = Some \<lparr>count = c, resetAt = r\<rparr>"
        using step True c Cons.prems(2) by simp
      from Cons.IH [OF len m Cons.prems(3) tl] show ?thesis
        using True c step by (simp add: kt case_prod_beta Let_def grants_to_Cons)
    qed
  qed
qed

section \<open>Properties\<close>

text \<open>C32: in the window that the first request of a client opens, exactly the first \<open>L\<close> requests
  of that client are granted, whatever other clients do in between, as long as the limiter has
  room for the clients it sees (it tracks at most fifty thousand).\<close>

theorem rateLimit_window_exact:
  assumes "0 < L" and "0 < w" and "map_of bs k = None"
    and "length bs + length calls < bucket_cap" and "\<forall>(k', t)\<in>set calls. t < t0 + w"
  shows "grants_to k ((k, t0) # calls)
      (fst (rate_run (Fin (rat_of_nat L)) w ((k, t0) # calls) bs)) =
    min (Suc (length (filter (\<lambda>(k', t). k' = k) calls))) L"
proof -
  let ?bs = "AList.update k \<lparr>count = 1, resetAt = t0 + w\<rparr> bs"
  have step: "rateLimit k (Fin (rat_of_nat L)) w t0 bs = (True, ?bs)"
    using assms by (simp add: rateLimit_def num_le_zero_def purge_noop)
  have len: "length ?bs + length calls \<le> bucket_cap"
    using assms(4) by (simp add: length_alist_update)
  have "map_of ?bs k = Some \<lparr>count = 1, resetAt = t0 + w\<rparr>" by (simp add: update_conv)
  from rate_run_window [OF len this _ assms(5,1,2)] assms(1)
  have "grants_to k calls (fst (rate_run (Fin (rat_of_nat L)) w calls ?bs)) =
      min (length (filter (\<lambda>(k', t). k' = k) calls)) (L - 1)" by simp
  with step assms(1) show ?thesis
    by (simp add: case_prod_beta Let_def grants_to_Cons)
qed

theorem rateLimit_window_exact_witness:
  "grants_to ''ip'' [(''ip'', 0), (''ip'', 1), (''other'', 2), (''ip'', 3)]
     (fst (rate_run (Fin (rat_of_nat 2)) 1000 [(''ip'', 0), (''ip'', 1), (''other'', 2), (''ip'', 3)] []))
   = 2"
  using rateLimit_window_exact [of 2 1000 "[]" "''ip''" "[(''ip'', 1), (''other'', 2), (''ip'', 3)]" 0]
  by (simp add: bucket_cap_def)

text \<open>The limiter's memory is bounded: starting empty, after any run of requests at any times
  and under any limit it holds at most 50001 buckets, one per client key.\<close>

theorem rateLimit_memory_bounded:
  "length (snd (rate_run limit w calls [])) \<le> 50001
   \<and> distinct (map fst (snd (rate_run limit w calls [])))"
  using rate_run_ok [of "[]" limit w calls] by (simp add: buckets_ok_def bucket_cap_def)

text \<open>A limit that is not a number closes nothing: with \<open>limit = NaN\<close> (a malformed
  \<open>LOGIN_RATE_LIMIT\<close>) and a positive window every request is granted, although a non-positive
  limit denies every request.\<close>

theorem rateLimit_degenerate_limits:
  assumes "0 < w"
  shows "fst (rateLimit k NaN w now bs) \<and> \<not> fst (rateLimit k (Fin (- rat_of_nat n)) w now bs)"
  using assms
  by (simp add: rateLimit_def num_le_zero_def count_reaches_def Let_def split: option.splits)

theorem rateLimit_degenerate_limits_witness:
  "fst (rateLimit ''ip'' NaN 3600000 5 [(''ip'', \<lparr>count = 99, resetAt = 10\<rparr>)])"
  using rateLimit_degenerate_limits [of 3600000 "''ip''" 5 "[(''ip'', \<lparr>count = 99, resetAt = 10\<rparr>)]" 0]
  by simp

end
