(* ===== verification/Ipacl.thy ===== *)
theory Ipacl
  imports Js_Values "HOL-Library.Word"
begin

text \<open>
  \<open>lib/ipacl.ts\<close>: the allowlist of IPv4 CIDR blocks applied to requests that arrive through a
  proxy.  The code computes ranges with floating-point arithmetic on integers below
  \<open>2 ^ 53\<close>, which is exact; here they are naturals and the reference definition of a CIDR match
  is stated on 32-bit words.
\<close>

section \<open>Validation\<close>

definition digits_between :: "nat \<Rightarrow> nat \<Rightarrow> string \<Rightarrow> bool" where
  "digits_between lo hi s \<longleftrightarrow> list_all is_digit s \<and> lo \<le> length s \<and> length s \<le> hi"

text \<open>\<open>[ip, bitsRaw] = value.split('/')\<close>; \<open>None\<close> when there are more than two segments.\<close>

definition cidr_segments :: "string \<Rightarrow> (string \<times> string option) option" where
  "cidr_segments value =
     (case js_split CHR ''/'' value of
        [ip] \<Rightarrow> Some (ip, None)
      | [ip, bits] \<Rightarrow> Some (ip, Some bits)
      | _ \<Rightarrow> None)"

definition isCidr :: "string \<Rightarrow> bool" where
  "isCidr value =
     (if CHR '':'' \<in> set value then 0 < length value \<and> length value \<le> 45
      else case cidr_segments value of
          None \<Rightarrow> False
        | Some (ip, bitsRaw) \<Rightarrow>
            (case bitsRaw of
               None \<Rightarrow> True
             | Some b \<Rightarrow> digits_between 1 2 b \<and> dec_val b \<le> 32)
            \<and> (let parts = js_split CHR ''.'' ip
               in length parts = 4
                  \<and> list_all (\<lambda>p. digits_between 1 3 p \<and> dec_val p \<le> 255) parts))"

fun parse_cidr_items :: "jv list \<Rightarrow> string list res" where
  "parse_cidr_items [] = Inr []"
| "parse_cidr_items (item # rest) =
     (case item of
        JStr s \<Rightarrow>
          (if isCidr s
           then (case parse_cidr_items rest of Inl e \<Rightarrow> Inl e | Inr out \<Rightarrow> Inr (s # out))
           else Inl (ApiError 400 ''invalid_cidrs'' ''Not a valid IPv4 CIDR or literal IP''))
      | _ \<Rightarrow> Inl (ApiError 400 ''invalid_cidrs'' ''Not a valid IPv4 CIDR or literal IP''))"

definition parseCidrs :: "jv \<Rightarrow> string list res" where
  "parseCidrs raw =
     (case raw of
        JArr items \<Rightarrow> parse_cidr_items items
      | _ \<Rightarrow> Inl (ApiError 400 ''invalid_cidrs'' ''cidrs must be an array of strings''))"

section \<open>Matching\<close>

text \<open>\<open>v4ToNumber\<close> on dotted decimal text: an address that passed the test of \<open>ipAllowed\<close>, or the
  base of a block that \<open>isCidr\<close> accepted before it was stored, on which \<open>Number(part)\<close> is the
  decimal value.\<close>

definition v4ToNumber :: "string \<Rightarrow> nat" where
  "v4ToNumber ip = foldl (\<lambda>value part. value * 256 + dec_val part) 0 (js_split CHR ''.'' ip)"

text \<open>The prefix length after the slash, 32 without one.\<close>

definition prefix_bits :: "string option \<Rightarrow> nat" where
  "prefix_bits bitsRaw = (case bitsRaw of None \<Rightarrow> 32 | Some b \<Rightarrow> dec_val b)"

definition v4Range :: "string \<Rightarrow> (nat \<times> nat) option" where
  "v4Range cidr =
     (if CHR '':'' \<in> set cidr then None
      else case cidr_segments cidr of
          None \<Rightarrow> None
        | Some (ip, bitsRaw) \<Rightarrow>
            let size = 2 ^ (32 - prefix_bits bitsRaw); lo = (v4ToNumber ip div size) * size
            in Some (lo, lo + size - 1))"

text \<open>The expression \<open>^(\d{1,3}\.){3}\d{1,3}$\<close>.\<close>

definition is_v4_text :: "string \<Rightarrow> bool" where
  "is_v4_text ip \<longleftrightarrow>
     (let parts = js_split CHR ''.'' ip in length parts = 4 \<and> list_all (digits_between 1 3) parts)"

definition ipAllowed :: "string \<Rightarrow> string list \<Rightarrow> bool" where
  "ipAllowed ip cidrs =
     (if cidrs = [] then True
      else if \<not> is_v4_text ip then ip \<in> set cidrs
      else list_ex (\<lambda>cidr. case v4Range cidr of
                              None \<Rightarrow> False
                            | Some (lo, hi) \<Rightarrow> lo \<le> v4ToNumber ip \<and> v4ToNumber ip \<le> hi) cidrs)"

text \<open>
  \<open>assertIpacl\<close>: \<open>licensed\<close> is \<open>hasFeature('ipacl')\<close>, \<open>forwarded\<close> the \<open>X-Forwarded-For\<close>
  header, \<open>setting\<close> the stored \<open>ipacl\<close> value (\<open>undefined\<close> when there is no row).
\<close>

definition stored_cidrs :: "jv \<Rightarrow> string list" where
  "stored_cidrs setting =
     (case get_prop setting ''cidrs'' of JArr xs \<Rightarrow> List.map_filter as_str xs | _ \<Rightarrow> [])"

definition assertIpacl :: "bool \<Rightarrow> string option \<Rightarrow> jv \<Rightarrow> unit res" where
  "assertIpacl licensed forwarded setting =
     (if \<not> licensed then Inr ()
      else case forwarded of
          None \<Rightarrow> Inr ()
        | Some f \<Rightarrow>
            if f = [] then Inr ()
            else let cidrs = stored_cidrs setting
                 in if cidrs = [] then Inr ()
                    else let ip = js_trim (hd (js_split CHR '','' f))
                         in if ipAllowed ip cidrs then Inr ()
                            else Inl (ApiError 403 ''ip_not_allowed''
                                   (''Client IP '' @ ip @ '' is not in the configured allowlist'')))"

section \<open>Reference: a CIDR match compares the leading bits\<close>

definition v4_word :: "string \<Rightarrow> 32 word" where
  "v4_word ip = of_nat (v4ToNumber ip)"

definition cidr_matches :: "string \<Rightarrow> string \<Rightarrow> bool" where
  "cidr_matches ip cidr =
     (CHR '':'' \<notin> set cidr \<and>
      (case cidr_segments cidr of
         None \<Rightarrow> False
       | Some (base, bitsRaw) \<Rightarrow>
           drop_bit (32 - prefix_bits bitsRaw) (v4_word ip)
             = drop_bit (32 - prefix_bits bitsRaw) (v4_word base)))"

definition v4_octets :: "string \<Rightarrow> bool" where
  "v4_octets ip \<longleftrightarrow>
     (let parts = js_split CHR ''.'' ip
      in length parts = 4 \<and> list_all (\<lambda>p. digits_between 1 3 p \<and> dec_val p \<le> 255) parts)"

lemma list_4: "length xs = 4 \<Longrightarrow> \<exists>a b c d. xs = [a, b, c, d]"
  by (simp add: numeral_eq_Suc length_Suc_conv) blast

lemma v4ToNumber_less: "v4_octets ip \<Longrightarrow> v4ToNumber ip < 2 ^ 32"
proof -
  assume "v4_octets ip"
  then obtain a b c d where "js_split CHR ''.'' ip = [a, b, c, d]"
    "dec_val a \<le> 255" "dec_val b \<le> 255" "dec_val c \<le> 255" "dec_val d \<le> 255"
    using list_4 [of "js_split CHR ''.'' ip"] by (auto simp: v4_octets_def Let_def)
  then show ?thesis by (simp add: v4ToNumber_def)
qed

lemma v4_octets_is_text: "v4_octets ip \<Longrightarrow> is_v4_text ip"
  by (auto simp: v4_octets_def is_v4_text_def Let_def list_all_iff)

lemma block_range_iff:
  fixes v b s :: nat
  assumes "0 < s"
  shows "((b div s) * s \<le> v \<and> v \<le> (b div s) * s + s - 1) \<longleftrightarrow> v div s = b div s"
proof
  assume *: "(b div s) * s \<le> v \<and> v \<le> (b div s) * s + s - 1"
  then have "v < (b div s) * s + s" using assms by linarith
  then have "v < (b div s + 1) * s" by (simp add: algebra_simps)
  moreover from * have "(b div s) * s \<le> v" by simp
  ultimately show "v div s = b div s"
    by (metis Suc_eq_plus1 assms div_less_iff_less_mult less_Suc_eq_le less_eq_div_iff_mult_less_eq
        order_antisym_conv)
next
  assume eq: "v div s = b div s"
  have v: "v = (b div s) * s + v mod s" using div_mult_mod_eq [of v s] eq by simp
  have "v mod s < s" using assms by simp
  with v show "(b div s) * s \<le> v \<and> v \<le> (b div s) * s + s - 1" by linarith
qed

lemma drop_bit_v4_word:
  "v4ToNumber ip < 2 ^ 32 \<Longrightarrow> unat (drop_bit n (v4_word ip)) = v4ToNumber ip div 2 ^ n"
  by (simp only: v4_word_def unat_drop_bit_eq) (simp add: unat_of_nat drop_bit_eq_div)

lemma drop_bit_v4_word_eq:
  assumes "v4ToNumber ip < 2 ^ 32" and "v4ToNumber jp < 2 ^ 32"
  shows "drop_bit n (v4_word ip) = drop_bit n (v4_word jp)
    \<longleftrightarrow> v4ToNumber ip div 2 ^ n = v4ToNumber jp div 2 ^ n"
  using drop_bit_v4_word [OF assms(1), of n] drop_bit_v4_word [OF assms(2), of n]
  by (metis unat_arith_simps(3))

lemma isCidr_v4:
  "isCidr c \<Longrightarrow> CHR '':'' \<notin> set c \<Longrightarrow>
   \<exists>base bits. cidr_segments c = Some (base, bits) \<and> v4_octets base \<and> prefix_bits bits \<le> 32"
  by (auto simp: isCidr_def v4_octets_def prefix_bits_def Let_def split: option.splits)

lemma v4Range_matches:
  assumes "isCidr c" and "v4_octets ip"
  shows "(case v4Range c of None \<Rightarrow> False
     | Some (lo, hi) \<Rightarrow> lo \<le> v4ToNumber ip \<and> v4ToNumber ip \<le> hi) \<longleftrightarrow> cidr_matches ip c"
proof (cases "CHR '':'' \<in> set c")
  case True
  then show ?thesis by (simp add: v4Range_def cidr_matches_def)
next
  case False
  obtain base bits where seg: "cidr_segments c = Some (base, bits)" and "v4_octets base"
    using isCidr_v4 [OF assms(1) False] by blast
  then have lt: "v4ToNumber ip < 2 ^ 32" "v4ToNumber base < 2 ^ 32"
    using assms(2) v4ToNumber_less by blast+
  let ?s = "2 ^ (32 - prefix_bits bits) :: nat"
  have "(case v4Range c of None \<Rightarrow> False
      | Some (lo, hi) \<Rightarrow> lo \<le> v4ToNumber ip \<and> v4ToNumber ip \<le> hi)
    \<longleftrightarrow> v4ToNumber ip div ?s = v4ToNumber base div ?s"
    using block_range_iff [of ?s "v4ToNumber base" "v4ToNumber ip"] False
    by (simp add: v4Range_def seg Let_def)
  also have "\<dots> \<longleftrightarrow> cidr_matches ip c"
    using False by (simp add: cidr_matches_def seg drop_bit_v4_word_eq [OF lt])
  finally show ?thesis .
qed

lemma parse_cidr_items_valid: "parse_cidr_items items = Inr cs \<Longrightarrow> list_all isCidr cs"
  by (induction items arbitrary: cs) (auto split: jv.splits if_splits sum.splits)

section \<open>Properties\<close>

text \<open>C33: on an allowlist that \<open>parseCidrs\<close> accepted, an IPv4 address is allowed exactly when the
  list is empty or its leading bits agree with one of the blocks, the floating-point range
  computation of \<open>v4Range\<close> being equivalent to a comparison of the first \<open>bits\<close> bits of two
  32-bit words.\<close>

theorem ipAllowed_iff_prefix_match:
  assumes "parseCidrs raw = Inr cidrs" and "v4_octets ip"
  shows "ipAllowed ip cidrs \<longleftrightarrow> cidrs = [] \<or> (\<exists>c\<in>set cidrs. cidr_matches ip c)"
proof -
  have "list_all isCidr cidrs"
    using assms(1) by (auto simp: parseCidrs_def split: jv.splits dest: parse_cidr_items_valid)
  then have "list_ex (\<lambda>c. case v4Range c of None \<Rightarrow> False
      | Some (lo, hi) \<Rightarrow> lo \<le> v4ToNumber ip \<and> v4ToNumber ip \<le> hi) cidrs
    \<longleftrightarrow> (\<exists>c\<in>set cidrs. cidr_matches ip c)"
    using v4Range_matches [OF _ assms(2)] by (auto simp: list_ex_iff list_all_iff)
  with v4_octets_is_text [OF assms(2)] show ?thesis by (auto simp: ipAllowed_def)
qed

lemmas cidr_eval = isCidr_def cidr_segments_def digits_between_def is_digit_def code_def
  dec_val_def digit_val_def v4_octets_def Let_def

theorem ipAllowed_iff_prefix_match_witness:
  "parseCidrs (JArr [JStr ''10.1.0.0/16'']) = Inr [''10.1.0.0/16'']
   \<and> (ipAllowed ''10.1.2.3'' [''10.1.0.0/16'']
      \<longleftrightarrow> (\<exists>c\<in>set [''10.1.0.0/16'']. cidr_matches ''10.1.2.3'' c))"
proof -
  have p: "parseCidrs (JArr [JStr ''10.1.0.0/16'']) = Inr [''10.1.0.0/16'']"
    by (simp add: parseCidrs_def cidr_eval)
  have "v4_octets ''10.1.2.3''" by (simp add: cidr_eval)
  from p ipAllowed_iff_prefix_match [OF p this] show ?thesis by simp
qed

text \<open>The access check fails closed for proxied traffic and open for direct access: a request
  is refused exactly when the feature is licensed, an \<open>X-Forwarded-For\<close> header is present, a
  non-empty allowlist is stored and the first hop of the header is not allowed by it; the
  refusal is the error 403 \<open>ip_not_allowed\<close>.\<close>

theorem assertIpacl_refuses_iff:
  "(\<exists>e. assertIpacl licensed forwarded setting = Inl e) \<longleftrightarrow>
     licensed \<and> stored_cidrs setting \<noteq> [] \<and>
     (\<exists>f. forwarded = Some f \<and> f \<noteq> [] \<and>
        \<not> ipAllowed (js_trim (hd (js_split CHR '','' f))) (stored_cidrs setting))"
  by (auto simp: assertIpacl_def Let_def split: option.splits)

end
