(* ===== verification/Store.thy ===== *)
theory Store
  imports Js_Values
begin

text \<open>
  The relational state of the control plane: one record per table of \<open>migrations/\<close>, with the
  columns the TypeScript code reads or writes, and the database as the record of the tables.
  A table is the list of its rows in insertion order, which is also the order of
  \<open>created_at\<close> and of serial keys.  Primary keys drawn from \<open>gen_random_uuid()\<close> or a sequence
  come from one counter, so a new key is fresh.  \<open>numeric\<close> columns are rationals, \<open>jsonb\<close>
  columns values of type \<open>jv\<close>, times integral milliseconds.  A secret record keeps its sealed
  JSON document; the sealing itself is the subject of theory \<open>Credentials\<close>.
\<close>

type_synonym uuid = nat
type_synonym ms = int

section \<open>Providers, accounts and models\<close>

record provider_row =
  p_id :: uuid
  p_slug :: string
  p_name :: string
  p_adapter :: string
  p_base_url :: string
  p_enabled :: bool
  p_metadata :: jv

record account_row =
  a_id :: uuid
  a_provider :: uuid
  a_secret :: "uuid option"
  a_name :: string
  a_display :: string
  a_base_url :: string
  a_enabled :: bool
  a_priority :: int
  a_weight :: int
  a_max_concurrency :: int
  a_cost :: rat
  a_metadata :: jv
  a_revision :: int
  a_external :: "string option"
  a_email :: "string option"
  a_plan :: "string option"
  a_expires :: "string option"
  a_persistence :: string

record secret_row =
  s_id :: uuid
  s_purpose :: string
  s_sealed :: jv

record alias_row =
  m_id :: uuid
  m_alias :: string
  m_upstream :: string
  m_provider :: "uuid option"
  m_strategy :: string
  m_enabled :: bool
  m_fallbacks :: "string list"
  m_cache :: "string option"
  m_cache_ttl :: "string option"
  m_threshold :: "rat option"

record pricing_row =
  pc_model :: uuid
  pc_input :: rat
  pc_output :: rat

record mapping_row =
  mm_model :: uuid
  mm_account :: uuid
  mm_enabled :: bool
  mm_tier :: int
  mm_position :: int
  mm_override :: "string option"
  mm_weight :: rat
  mm_input :: rat
  mm_output :: rat

record discovered_row =
  d_provider :: uuid
  d_account :: uuid
  d_upstream :: string
  d_display :: string
  d_capabilities :: jv
  d_visibility :: string
  d_supported :: bool
  d_available :: bool
  d_raw :: jv
  d_last_seen :: ms

section \<open>Keys, teams and billing\<close>

record key_row =
  k_id :: uuid
  k_name :: string
  k_hash :: string
  k_prefix :: string
  k_enabled :: bool
  k_models :: "string list"
  k_rpm :: int
  k_tpm :: int
  k_max_concurrency :: int
  k_budget :: rat
  k_duration :: string
  k_team :: "uuid option"

record team_row =
  t_id :: uuid
  t_name :: string
  t_enabled :: bool
  t_budget :: rat
  t_balance :: rat
  t_org :: "uuid option"

record org_row =
  o_id :: uuid
  o_name :: string
  o_owner :: "uuid option"
  o_budget :: rat

record credit_row =
  ct_team :: uuid
  ct_delta :: rat
  ct_kind :: string
  ct_source :: string
  ct_external :: string

record event_row =
  e_id :: nat
  e_gateway :: string
  e_request :: string
  e_occurred :: ms
  e_received :: ms
  e_endpoint :: string
  e_model :: string
  e_upstream :: string
  e_vkey :: string
  e_streaming :: bool
  e_config :: nat
  e_key :: "uuid option"
  e_cost :: rat
  e_status :: nat
  e_success :: bool
  e_latency :: nat
  e_input :: nat
  e_output :: nat
  e_total :: nat

record attempt_row =
  at_event :: nat
  at_position :: nat
  at_account :: string
  at_adapter :: string
  at_alias :: string
  at_status :: nat
  at_outcome :: string
  at_latency :: nat
  at_cooldown :: nat

record spend_row =
  sd_key :: uuid
  sd_day :: int
  sd_cost :: rat
  sd_tokens_in :: nat
  sd_tokens_out :: nat
  sd_requests :: nat

text \<open>\<open>numeric(12,6)\<close>: a value is rounded to six decimals, halves away from zero, when it is stored.\<close>

definition numeric6 :: "rat \<Rightarrow> rat" where
  "numeric6 x = (if x < 0 then - (rat_of_int \<lfloor>- x * 1000000 + 1 / 2\<rfloor> / 1000000)
                 else rat_of_int \<lfloor>x * 1000000 + 1 / 2\<rfloor> / 1000000)"

section \<open>Users and sessions\<close>

record user_row =
  u_id :: uuid
  u_email :: string
  u_password :: string
  u_role :: string
  u_verified :: "ms option"
  u_disabled :: "ms option"

record session_row =
  se_user :: uuid
  se_hash :: string
  se_expires :: ms

record vtoken_row =
  vt_user :: uuid
  vt_hash :: string
  vt_expires :: ms

record member_row =
  tm_team :: uuid
  tm_user :: uuid
  tm_role :: string

section \<open>Configuration versions, gateways and operations\<close>

datatype version_status = Draft | Published | RolledBack | Invalid

record version_row =
  cv_version :: nat
  cv_status :: version_status
  cv_checksum :: string
  cv_config_checksum :: "string option"
  cv_schema :: nat
  cv_snapshot :: jv
  cv_errors :: "jv list"
  cv_published_at :: "ms option"
  cv_source :: "nat option"

record gateway_row =
  gi_id :: string
  gi_schemas :: "int list"
  gi_envelope :: int
  gi_seen :: ms

record ack_row =
  ak_gateway :: string
  ak_version :: nat
  ak_checksum :: string
  ak_status :: string
  ak_error :: "string option"
  ak_schema :: nat
  ak_config_checksum :: string
  ak_credential_digest :: "string option"
  ak_runtime_checksum :: string
  ak_envelope :: nat
  ak_at :: ms

datatype op_status = Pending | Succeeded | Failed | Unknown

record op_row =
  op_id :: uuid
  op_account :: uuid
  op_key :: string
  op_status :: op_status
  op_lease :: "ms option"
  op_preflight :: jv
  op_upstream :: string
  op_summary :: "(string \<times> jv) list"
  op_warning :: "string option"
  op_source :: "string option"
  op_resolved_by :: "string option"
  op_note :: "string option"
  op_resolved_at :: "ms option"
  op_completed_at :: "ms option"

record pstate_row =
  ps_account :: uuid
  ps_quota :: jv
  ps_credits :: jv
  ps_capability :: string
  ps_fetched :: "ms option"
  ps_last_operation :: "string option"
  ps_error_code :: "string option"
  ps_error_message :: "string option"

record audit_row =
  au_actor :: string
  au_action :: string
  au_type :: string
  au_resource :: "string option"
  au_payload :: jv

record mcp_row =
  mc_id :: uuid
  mc_name :: string
  mc_url :: string
  mc_enabled :: bool
  mc_headers :: "uuid option"

section \<open>The database\<close>

record db =
  providers :: "provider_row list"
  accounts :: "account_row list"
  secrets :: "secret_row list"
  aliases :: "alias_row list"
  pricing :: "pricing_row list"
  mappings :: "mapping_row list"
  discovered :: "discovered_row list"
  vkeys :: "key_row list"
  teams :: "team_row list"
  orgs :: "org_row list"
  credits :: "credit_row list"
  events :: "event_row list"
  attempts :: "attempt_row list"
  spend :: "spend_row list"
  users :: "user_row list"
  sessions :: "session_row list"
  vtokens :: "vtoken_row list"
  members :: "member_row list"
  versions :: "version_row list"
  gateways :: "gateway_row list"
  acks :: "ack_row list"
  operations :: "op_row list"
  pstates :: "pstate_row list"
  audits :: "audit_row list"
  settings :: "(string \<times> jv) list"
  routing :: "jv option"
  mcps :: "mcp_row list"
  next_id :: nat

definition empty_db :: db where
  "empty_db = \<lparr>providers = [], accounts = [], secrets = [], aliases = [], pricing = [],
     mappings = [], discovered = [], vkeys = [], teams = [], orgs = [], credits = [], events = [],
     attempts = [], spend = [], users = [], sessions = [], vtokens = [], members = [],
     versions = [], gateways = [], acks = [], operations = [], pstates = [], audits = [],
     settings = [], routing = None, mcps = [], next_id = 1\<rparr>"

text \<open>\<open>audit\<close> of \<open>lib/control.ts\<close>.\<close>

definition audit :: "string \<Rightarrow> string \<Rightarrow> string option \<Rightarrow> jv \<Rightarrow> (db, unit) act" where
  "audit action typ resource payload =
     modify_act (\<lambda>d. d\<lparr>audits := audits d @
       [\<lparr>au_actor = ''local-admin'', au_action = action, au_type = typ,
         au_resource = resource, au_payload = payload\<rparr>]\<rparr>)"

definition fresh_id :: "(db, uuid) act" where
  "fresh_id = (\<lambda>d. (Inr (next_id d), d\<lparr>next_id := Suc (next_id d)\<rparr>))"

text \<open>\<open>insertSecret\<close> of \<open>lib/control.ts\<close>.\<close>

definition insertSecret :: "string \<Rightarrow> jv \<Rightarrow> (db, uuid) act" where
  "insertSecret purpose credential =
     bind_act fresh_id (\<lambda>i.
       then_act (modify_act (\<lambda>d. d\<lparr>secrets := secrets d @
           [\<lparr>s_id = i, s_purpose = purpose, s_sealed = credential\<rparr>]\<rparr>))
         (return_act i))"

lemma audit_apply [act_simps]:
  "audit action typ resource payload d = (Inr (), d\<lparr>audits := audits d @
     [\<lparr>au_actor = ''local-admin'', au_action = action, au_type = typ,
       au_resource = resource, au_payload = payload\<rparr>]\<rparr>)"
  by (simp add: audit_def act_simps)

lemma bind_audit [act_simps]:
  "then_act (audit action typ resource payload) m d = m (d\<lparr>audits := audits d @
     [\<lparr>au_actor = ''local-admin'', au_action = action, au_type = typ,
       au_resource = resource, au_payload = payload\<rparr>]\<rparr>)"
  by (simp add: audit_def act_simps)

lemma fresh_id_apply [act_simps]: "fresh_id d = (Inr (next_id d), d\<lparr>next_id := Suc (next_id d)\<rparr>)"
  by (simp add: fresh_id_def)

lemma bind_fresh_id [act_simps]:
  "bind_act fresh_id f d = f (next_id d) (d\<lparr>next_id := Suc (next_id d)\<rparr>)"
  by (simp add: bind_act_def fresh_id_def)

lemma insertSecret_apply [act_simps]:
  "insertSecret purpose credential d = (Inr (next_id d), d\<lparr>next_id := Suc (next_id d),
     secrets := secrets d @ [\<lparr>s_id = next_id d, s_purpose = purpose, s_sealed = credential\<rparr>]\<rparr>)"
  by (simp add: insertSecret_def act_simps)

lemma bind_insertSecret [act_simps]:
  "bind_act (insertSecret purpose credential) f d = f (next_id d) (d\<lparr>next_id := Suc (next_id d),
     secrets := secrets d @ [\<lparr>s_id = next_id d, s_purpose = purpose, s_sealed = credential\<rparr>]\<rparr>)"
  by (simp add: bind_act_def insertSecret_apply)

definition find_account :: "uuid \<Rightarrow> db \<Rightarrow> account_row option" where
  "find_account i d = find (\<lambda>a. a_id a = i) (accounts d)"

definition find_provider :: "uuid \<Rightarrow> db \<Rightarrow> provider_row option" where
  "find_provider i d = find (\<lambda>p. p_id p = i) (providers d)"

definition find_secret :: "uuid \<Rightarrow> db \<Rightarrow> secret_row option" where
  "find_secret i d = find (\<lambda>s. s_id s = i) (secrets d)"

definition setting :: "string \<Rightarrow> db \<Rightarrow> jv" where
  "setting k d = lookup_or_undef (settings d) k"

text \<open>A statement on the database inside a handler that also keeps another state.\<close>

definition on_db :: "(db, 'a) act \<Rightarrow> (db \<times> 'u, 'a) act" where
  "on_db m = (\<lambda>(d, u). let (r, d') = m d in (r, (d', u)))"

lemma on_db_apply [act_simps]: "on_db m (d, u) = (fst (m d), (snd (m d), u))"
  by (simp add: on_db_def split_beta)

lemma preserves_on_db [preserves_intros]:
  assumes "preserves I m" shows "preserves (\<lambda>du. I (fst du)) (on_db m)"
  using assms by (auto simp: preserves_def on_db_apply)

text \<open>Concrete rows for examples: a provider with a given adapter and an account of it.\<close>

definition sample_provider :: "uuid \<Rightarrow> string \<Rightarrow> provider_row" where
  "sample_provider i adapter = \<lparr>p_id = i, p_slug = adapter, p_name = adapter, p_adapter = adapter,
     p_base_url = ''https://api.example.com/v1'', p_enabled = True, p_metadata = JObj []\<rparr>"

definition sample_account :: "uuid \<Rightarrow> uuid \<Rightarrow> string \<Rightarrow> account_row" where
  "sample_account i prov name = \<lparr>a_id = i, a_provider = prov, a_secret = None, a_name = name,
     a_display = name, a_base_url = [], a_enabled = True, a_priority = 0, a_weight = 1,
     a_max_concurrency = 1, a_cost = 0, a_metadata = JObj [], a_revision = 1, a_external = None,
     a_email = None, a_plan = None, a_expires = None, a_persistence = ''unlinked''\<rparr>"

end
