(* ===== verification/Request_Events.thy ===== *)
theory Request_Events
  imports Store
begin

text \<open>
  \<open>lib/request-events.ts\<close>: the gateways report the requests they served in batches; the control
  plane stores each once, adds it to the daily spend of its key and takes it off the prepaid balance of the
  key's team, in one transaction.  Reports may be delivered again.
\<close>

section \<open>The report format\<close>

record request_attempt =
  ra_account :: string
  ra_adapter :: string
  ra_alias :: string
  ra_status :: nat
  ra_outcome :: string
  ra_latency :: nat
  ra_cooldown :: nat

record request_event =
  re_request :: string
  re_occurred :: ms
  re_endpoint :: string
  re_model :: string
  re_upstream :: string
  re_vkey :: string
  re_key :: "uuid option"
  re_cost :: rat
  re_streaming :: bool
  re_config :: nat
  re_status :: nat
  re_success :: bool
  re_latency :: nat
  re_input :: nat
  re_output :: nat
  re_total :: nat
  re_attempts :: "request_attempt list"

definition RequestAttemptSchema :: "request_attempt \<Rightarrow> bool" where
  "RequestAttemptSchema a \<longleftrightarrow>
     1 \<le> length (ra_account a) \<and> length (ra_account a) \<le> 200
     \<and> 1 \<le> length (ra_adapter a) \<and> length (ra_adapter a) \<le> 100
     \<and> length (ra_alias a) \<le> 200 \<and> ra_status a \<le> 599
     \<and> ra_outcome a \<in> set [''success'', ''rate_limited'', ''upstream_error'', ''saturated'',
          ''canceled'', ''rejected'', ''budget_exceeded'', ''concurrency_limited'']"

definition is_hex :: "char \<Rightarrow> bool" where
  "is_hex c \<longleftrightarrow> is_digit c \<or> c \<in> set ''abcdef''"

definition RequestEventSchema :: "ms \<Rightarrow> request_event \<Rightarrow> bool" where
  "RequestEventSchema now e \<longleftrightarrow>
     length (re_request e) = 32 \<and> list_all is_hex (re_request e)
     \<and> re_occurred e \<le> now + 5 * 60 * 1000
     \<and> re_endpoint e \<in> set [''/v1/chat/completions'', ''/v1/responses'']
     \<and> 1 \<le> length (re_model e) \<and> length (re_model e) \<le> 300 \<and> length (re_upstream e) \<le> 300
     \<and> length (re_vkey e) \<le> 200 \<and> 0 \<le> re_cost e \<and> re_status e \<le> 599
     \<and> length (re_attempts e) \<le> 32 \<and> list_all RequestAttemptSchema (re_attempts e)
     \<and> re_success e = (200 \<le> re_status e \<and> re_status e < 300)
     \<and> re_total e = re_input e + re_output e"

definition gateway_id_ok :: "string \<Rightarrow> bool" where
  "gateway_id_ok g \<longleftrightarrow>
     (case g of [] \<Rightarrow> False
      | c # cs \<Rightarrow> is_alnum c \<and> length cs \<le> 199 \<and> list_all (\<lambda>x. is_alnum x \<or> x \<in> set ''._-'') cs)"

definition RequestEventBatchSchema :: "ms \<Rightarrow> string \<Rightarrow> request_event list \<Rightarrow> bool" where
  "RequestEventBatchSchema now gw evs \<longleftrightarrow>
     gateway_id_ok gw \<and> 1 \<le> length evs \<and> length evs \<le> 10 \<and> list_all (RequestEventSchema now) evs"

section \<open>Storing a batch\<close>

text \<open>The retention: events received more than thirty days ago go, with their attempts.\<close>

definition retention_ms :: ms where
  "retention_ms = 30 * 86400000"

definition drop_old_events :: "ms \<Rightarrow> db \<Rightarrow> db" where
  "drop_old_events now d =
     d\<lparr>events := filter (\<lambda>r. now - retention_ms \<le> e_received r) (events d),
       attempts := filter (\<lambda>a. \<forall>r\<in>set (events d). e_id r = at_event a \<longrightarrow>
                              now - retention_ms \<le> e_received r) (attempts d)\<rparr>"

definition event_of :: "nat \<Rightarrow> string \<Rightarrow> ms \<Rightarrow> request_event \<Rightarrow> event_row" where
  "event_of i gw now e =
     \<lparr>e_id = i, e_gateway = gw, e_request = re_request e, e_occurred = re_occurred e, e_received = now,
      e_endpoint = re_endpoint e, e_model = re_model e, e_upstream = re_upstream e, e_vkey = re_vkey e,
      e_streaming = re_streaming e, e_config = re_config e, e_key = re_key e,
      e_cost = numeric6 (re_cost e), e_status = re_status e, e_success = re_success e,
      e_latency = re_latency e, e_input = re_input e, e_output = re_output e, e_total = re_total e\<rparr>"

definition reported :: "string \<Rightarrow> string \<Rightarrow> event_row \<Rightarrow> bool" where
  "reported gw req r \<longleftrightarrow> e_gateway r = gw \<and> e_request r = req"

text \<open>\<open>INSERT \<dots> ON CONFLICT (gateway_id,request_id) DO NOTHING RETURNING id\<close>; the key of an
  inserted row must exist.\<close>

definition insert_event :: "ms \<Rightarrow> string \<Rightarrow> request_event \<Rightarrow> (db, nat option) act" where
  "insert_event now gw e =
     bind_act (gets_act (\<lambda>d. list_ex (reported gw (re_request e)) (events d))) (\<lambda>dup.
     if dup then return_act None
     else
       bind_act (gets_act (\<lambda>d. case re_key e of None \<Rightarrow> True | Some k \<Rightarrow> list_ex (\<lambda>r. k_id r = k) (vkeys d)))
       (\<lambda>ok. then_act (guard_act ok (DbError ''request_events_virtual_key_id_fkey''))
       (bind_act fresh_id (\<lambda>i.
        then_act (modify_act (\<lambda>d. d\<lparr>events := events d @ [event_of i gw now e]\<rparr>))
        (return_act (Some i))))))"

text \<open>The check constraint of \<open>request_event_attempts.outcome\<close> in migration 007.\<close>

definition outcome_check :: "string \<Rightarrow> bool" where
  "outcome_check s \<longleftrightarrow> s \<in> set [''success'', ''rate_limited'', ''upstream_error'', ''saturated'',
     ''canceled'', ''rejected'']"

definition insert_attempt :: "nat \<Rightarrow> nat \<times> request_attempt \<Rightarrow> (db, unit) act" where
  "insert_attempt i pa =
     then_act (guard_act (outcome_check (ra_outcome (snd pa))) (DbError ''request_event_attempts_outcome_check''))
     (modify_act (\<lambda>d. d\<lparr>attempts := attempts d @
        [\<lparr>at_event = i, at_position = fst pa, at_account = ra_account (snd pa), at_adapter = ra_adapter (snd pa),
          at_alias = ra_alias (snd pa), at_status = ra_status (snd pa), at_outcome = ra_outcome (snd pa),
          at_latency = ra_latency (snd pa), at_cooldown = ra_cooldown (snd pa)\<rparr>]\<rparr>))"

fun insert_events :: "ms \<Rightarrow> string \<Rightarrow> request_event list \<Rightarrow> nat list \<Rightarrow> (db, nat list) act" where
  "insert_events now gw [] insertedIds = return_act insertedIds"
| "insert_events now gw (e # es) insertedIds =
     bind_act (insert_event now gw e) (\<lambda>requestEventId.
       case requestEventId of
         None \<Rightarrow> insert_events now gw es insertedIds
       | Some i \<Rightarrow>
           then_act (for_act (enumerate 0 (re_attempts e)) (insert_attempt i))
             (insert_events now gw es (insertedIds @ [i])))"

definition day_of :: "ms \<Rightarrow> int" where
  "day_of t = t div 86400000"

text \<open>The rows that count: successful and, for the daily spend, with a key.\<close>

definition counted :: "nat list \<Rightarrow> event_row list \<Rightarrow> event_row list" where
  "counted ids rows = filter (\<lambda>r. e_id r \<in> set ids \<and> e_key r \<noteq> None \<and> e_success r) rows"

definition spend_group :: "event_row \<Rightarrow> uuid \<times> int" where
  "spend_group r = (the (e_key r), day_of (e_occurred r))"

definition group_rows :: "(uuid \<times> int) \<Rightarrow> event_row list \<Rightarrow> event_row list" where
  "group_rows g rows = filter (\<lambda>r. spend_group r = g) rows"

definition spend_key :: "spend_row \<Rightarrow> uuid \<times> int" where
  "spend_key s = (sd_key s, sd_day s)"

text \<open>\<open>INSERT INTO key_spend_daily \<dots> ON CONFLICT DO UPDATE\<close> for one group.\<close>

definition add_spend :: "event_row list \<Rightarrow> (uuid \<times> int) \<Rightarrow> spend_row list \<Rightarrow> spend_row list" where
  "add_spend rows g ss =
     (let rs = group_rows g rows;
          cost = sum_list (map e_cost rs);
          inp = sum_list (map e_input rs);
          out = sum_list (map e_output rs)
      in upsert_where (\<lambda>s. spend_key s = g)
           (\<lambda>s. s\<lparr>sd_cost := sd_cost s + cost, sd_tokens_in := sd_tokens_in s + inp,
                  sd_tokens_out := sd_tokens_out s + out, sd_requests := sd_requests s + length rs\<rparr>)
           \<lparr>sd_key = fst g, sd_day = snd g, sd_cost = cost, sd_tokens_in = inp, sd_tokens_out = out,
            sd_requests = length rs\<rparr> ss)"

definition record_spend :: "nat list \<Rightarrow> db \<Rightarrow> db" where
  "record_spend ids d =
     (let rows = counted ids (events d)
      in d\<lparr>spend := fold (add_spend rows) (remdups (map spend_group rows)) (spend d)\<rparr>)"

definition key_team :: "db \<Rightarrow> uuid option \<Rightarrow> uuid option" where
  "key_team d key =
     (case key of None \<Rightarrow> None
      | Some k \<Rightarrow> (case find (\<lambda>r. k_id r = k) (vkeys d) of None \<Rightarrow> None | Some r \<Rightarrow> k_team r))"

definition team_rows :: "db \<Rightarrow> uuid \<Rightarrow> event_row list \<Rightarrow> event_row list" where
  "team_rows d t rows = filter (\<lambda>r. e_success r \<and> key_team d (e_key r) = Some t) rows"

definition charge_teams :: "nat list \<Rightarrow> db \<Rightarrow> db" where
  "charge_teams ids d =
     (let rows = filter (\<lambda>r. e_id r \<in> set ids) (events d)
      in d\<lparr>teams := map (\<lambda>t. if team_rows d (t_id t) rows \<noteq> [] \<and> 0 < t_balance t
               then t\<lparr>t_balance := t_balance t - sum_list (map e_cost (team_rows d (t_id t) rows))\<rparr>
               else t) (teams d)\<rparr>)"

definition store_body :: "ms \<Rightarrow> string \<Rightarrow> request_event list \<Rightarrow> (db, nat) act" where
  "store_body now gw evs =
     then_act (modify_act (drop_old_events now))
     (bind_act (insert_events now gw evs []) (\<lambda>insertedIds.
      if insertedIds = [] then return_act 0
      else then_act (modify_act (record_spend insertedIds))
           (then_act (modify_act (charge_teams insertedIds))
           (return_act (length insertedIds)))))"

definition storeRequestEvents :: "ms \<Rightarrow> string \<Rightarrow> request_event list \<Rightarrow> (db, nat) act" where
  "storeRequestEvents now gw evs = txOn (store_body now gw evs)"

section \<open>Reading\<close>

definition clamp_limit :: "int option \<Rightarrow> nat" where
  "clamp_limit l = nat (min (max (case l of None \<Rightarrow> 100 | Some n \<Rightarrow> n) 1) 200)"

definition listRequestEvents :: "int option \<Rightarrow> db \<Rightarrow> (event_row \<times> attempt_row list) list" where
  "listRequestEvents limit d =
     map (\<lambda>r. (r, sort_key at_position (filter (\<lambda>a. at_event a = e_id r) (attempts d))))
       (take (clamp_limit limit) (sort_key (\<lambda>r. - e_occurred r) (sort_key (\<lambda>r. - int (e_id r)) (events d))))"

definition first_attempt_by :: "string \<Rightarrow> db \<Rightarrow> event_row \<Rightarrow> attempt_row list" where
  "first_attempt_by name d r =
     filter (\<lambda>a. at_event a = e_id r \<and> at_position a = 0 \<and> at_account a = name) (attempts d)"

text \<open>A join: a row of \<open>request_events\<close> counts once per matching attempt row.\<close>

definition accountUsageSince :: "string \<Rightarrow> ms \<Rightarrow> db \<Rightarrow> nat \<times> nat" where
  "accountUsageSince name since d =
     (let rows = concat (map (\<lambda>r. map (\<lambda>_. r) (first_attempt_by name d r))
                   (filter (\<lambda>r. since \<le> e_occurred r) (events d)))
      in (sum_list (map (\<lambda>r. e_input r + e_output r) rows), length (remdups (map e_id rows))))"

record metrics =
  mx_requests :: nat
  mx_successful :: nat
  mx_fallbacks :: nat
  mx_success_rate :: rat
  mx_p95 :: rat
  mx_total_tokens :: nat

text \<open>\<open>percentile_cont(0.95)\<close>: linear interpolation between the two neighbouring values.\<close>

definition percentile_cont :: "rat \<Rightarrow> nat list \<Rightarrow> rat" where
  "percentile_cont p xs =
     (if xs = [] then 0
      else let ys = sort xs; pos = p * rat_of_nat (length xs - 1);
               lo = nat \<lfloor>pos\<rfloor>; hi = nat \<lceil>pos\<rceil>
           in rat_of_nat (ys ! lo) + (pos - rat_of_nat lo) * (rat_of_nat (ys ! hi) - rat_of_nat (ys ! lo)))"

definition requestMetrics :: "ms option \<Rightarrow> ms \<Rightarrow> db \<Rightarrow> metrics" where
  "requestMetrics since now d =
     (let from = (case since of None \<Rightarrow> now - 24 * 60 * 60 * 1000 | Some t \<Rightarrow> t);
          rows = filter (\<lambda>r. from \<le> e_occurred r) (events d);
          requests = length rows;
          successful = length (filter e_success rows)
      in \<lparr>mx_requests = requests, mx_successful = successful,
          mx_fallbacks = length (filter (\<lambda>r. 1 < length (filter (\<lambda>a. at_event a = e_id r) (attempts d))) rows),
          mx_success_rate = (if requests = 0 then 0 else rat_of_nat successful / rat_of_nat requests),
          mx_p95 = percentile_cont (95 / 100) (map e_latency rows),
          mx_total_tokens = sum_list (map e_total rows)\<rparr>)"

section \<open>What a batch inserts\<close>

text \<open>The rows a batch adds to a table, computed without the database: an event whose
  (gateway, request) pair is known, from the table or from earlier in the batch, adds nothing.\<close>

fun new_events :: "ms \<Rightarrow> string \<Rightarrow> event_row list \<Rightarrow> nat \<Rightarrow> request_event list \<Rightarrow> event_row list" where
  "new_events now gw known i [] = []"
| "new_events now gw known i (e # es) =
     (if list_ex (reported gw (re_request e)) known then new_events now gw known i es
      else event_of i gw now e # new_events now gw (known @ [event_of i gw now e]) (Suc i) es)"

lemma insert_attempt_frame: "\<exists>r ats. insert_attempt i x d = (r, d\<lparr>attempts := ats\<rparr>)"
proof (cases "outcome_check (ra_outcome (snd x))")
  case True
  then show ?thesis by (auto simp: insert_attempt_def act_simps)
next
  case False
  then have "insert_attempt i x d = (Inl (DbError ''request_event_attempts_outcome_check''), d\<lparr>attempts := attempts d\<rparr>)"
    by (simp add: insert_attempt_def act_simps)
  then show ?thesis by blast
qed

lemma insert_attempts_frame: "\<exists>r ats. for_act xs (insert_attempt i) d = (r, d\<lparr>attempts := ats\<rparr>)"
proof (induction xs arbitrary: d)
  case Nil
  have "for_act [] (insert_attempt i) d = (Inr (), d\<lparr>attempts := attempts d\<rparr>)" by (simp add: act_simps)
  then show ?case by blast
next
  case (Cons x xs)
  obtain r ats where x: "insert_attempt i x d = (r, d\<lparr>attempts := ats\<rparr>)"
    using insert_attempt_frame by blast
  show ?case
  proof (cases r)
    case (Inl e)
    with x show ?thesis by (auto simp: then_act_def bind_act_def)
  next
    case (Inr y)
    obtain r2 ats2 where "for_act xs (insert_attempt i) (d\<lparr>attempts := ats\<rparr>) = (r2, d\<lparr>attempts := ats2\<rparr>)"
      using Cons.IH [of "d\<lparr>attempts := ats\<rparr>"] by auto
    with x Inr show ?thesis by (auto simp: then_act_def bind_act_def)
  qed
qed

lemma insert_event_cases:
  obtains (duplicate) "list_ex (reported gw (re_request e)) (events d)" "insert_event now gw e d = (Inr None, d)"
  | (missing_key) "insert_event now gw e d = (Inl (DbError ''request_events_virtual_key_id_fkey''), d)"
  | (inserted) "\<not> list_ex (reported gw (re_request e)) (events d)"
      "insert_event now gw e d = (Inr (Some (next_id d)),
         d\<lparr>next_id := Suc (next_id d), events := events d @ [event_of (next_id d) gw now e]\<rparr>)"
proof (cases "list_ex (reported gw (re_request e)) (events d)")
  case True
  then show thesis by (intro duplicate) (simp_all add: insert_event_def act_simps)
next
  case False
  show thesis
  proof (cases "case re_key e of None \<Rightarrow> True | Some k \<Rightarrow> list_ex (\<lambda>r. k_id r = k) (vkeys d)")
    case True
    with False show thesis by (intro inserted) (simp_all add: insert_event_def act_simps)
  next
    case nokey: False
    with \<open>\<not> list_ex (reported gw (re_request e)) (events d)\<close> show thesis
      by (intro missing_key) (simp add: insert_event_def act_simps)
  qed
qed

definition inserts :: "event_row list \<Rightarrow> db \<Rightarrow> db \<Rightarrow> bool" where
  "inserts rows d d' \<longleftrightarrow> (\<exists>ats. d' = d\<lparr>events := events d @ rows, next_id := next_id d + length rows, attempts := ats\<rparr>)"

lemma insert_events_Inr:
  "insert_events now gw evs acc d = (Inr ids, d') \<Longrightarrow>
   ids = acc @ map e_id (new_events now gw (events d) (next_id d) evs)
   \<and> inserts (new_events now gw (events d) (next_id d) evs) d d'"
proof (induction evs arbitrary: acc d)
  case Nil
  then show ?case unfolding inserts_def by (auto simp: act_simps intro: exI [of _ "attempts d"])
next
  case (Cons e es)
  show ?case
  proof (cases rule: insert_event_cases [of gw e d now])
    case duplicate
    with Cons show ?thesis by (simp add: bind_act_def)
  next
    case missing_key
    with Cons.prems show ?thesis by (simp add: bind_act_def)
  next
    case inserted
    let ?r = "event_of (next_id d) gw now e"
    let ?d = "d\<lparr>next_id := Suc (next_id d), events := events d @ [?r]\<rparr>"
    obtain r2 ats d2 where f: "for_act (enumerate 0 (re_attempts e)) (insert_attempt (next_id d)) ?d = (r2, d2)"
      and d2: "d2 = ?d\<lparr>attempts := ats\<rparr>"
      using insert_attempts_frame by blast
    from Cons.prems inserted f have ok: "insert_events now gw es (acc @ [next_id d]) d2 = (Inr ids, d')"
      by (cases r2) (simp_all add: bind_act_def then_act_def)
    from Cons.IH [OF this] inserted(1) d2 show ?thesis
      by (auto simp: inserts_def event_of_def)
  qed
qed

lemma store_Inr:
  assumes "storeRequestEvents now gw evs d = (Inr n, d')"
  defines "rows \<equiv> new_events now gw (events (drop_old_events now d)) (next_id d) evs"
  obtains d1 where "inserts rows (drop_old_events now d) d1" and "n = length rows"
    and "d' = (if rows = [] then d1 else charge_teams (map e_id rows) (record_spend (map e_id rows) d1))"
proof -
  let ?d = "drop_old_events now d"
  have b: "store_body now gw evs d = (Inr n, d')"
    using assms(1) by (simp add: storeRequestEvents_def txOn_Inr_iff)
  obtain r d1 where i: "insert_events now gw evs [] ?d = (r, d1)" by (metis prod.exhaust)
  with b obtain ids where r: "r = Inr ids"
    by (cases r) (simp_all add: store_body_def act_simps bind_act_def)
  have n: "next_id ?d = next_id d" by (simp add: drop_old_events_def)
  from insert_events_Inr [OF i [unfolded r]] have ids: "ids = map e_id rows" "inserts rows ?d d1"
    by (simp_all add: rows_def n)
  from b i r ids(1) have "n = length rows"
    "d' = (if rows = [] then d1 else charge_teams (map e_id rows) (record_spend (map e_id rows) d1))"
    by (auto simp: store_body_def act_simps bind_act_def split: if_splits)
  with ids(2) that show thesis by blast
qed

section \<open>Facts about the inserted rows\<close>

lemma new_events_ids:
  "map e_id (new_events now gw known i evs) = [i ..< i + length (new_events now gw known i evs)]"
proof (induction now gw known i evs rule: new_events.induct)
  case (2 now gw known i e es)
  have "e_id (event_of i gw now e) = i" by (simp add: event_of_def)
  with 2 show ?case by (simp add: upt_rec [of i])
qed simp

lemma new_events_known:
  "(\<And>e. e \<in> set evs \<Longrightarrow> list_ex (reported gw (re_request e)) known) \<Longrightarrow> new_events now gw known i evs = []"
  by (induction evs) simp_all

lemma new_events_complete:
  "e \<in> set evs \<Longrightarrow> list_ex (reported gw (re_request e)) (known @ new_events now gw known i evs)"
proof (induction now gw known i evs rule: new_events.induct)
  case (2 now gw known i f es)
  have "reported gw (re_request f) (event_of i gw now f)" by (simp add: reported_def event_of_def)
  with 2 show ?case by (cases "e = f") auto
qed simp

definition event_key :: "event_row \<Rightarrow> string \<times> string" where
  "event_key r = (e_gateway r, e_request r)"

lemma new_events_keys:
  "distinct (map event_key known) \<Longrightarrow> distinct (map event_key (known @ new_events now gw known i evs))"
proof (induction now gw known i evs rule: new_events.induct)
  case (2 now gw known i e es)
  show ?case
  proof (cases "list_ex (reported gw (re_request e)) known")
    case False
    then have "(gw, re_request e) \<notin> event_key ` set known"
      by (auto simp: list_ex_iff reported_def event_key_def)
    with 2 False show ?thesis by (simp add: event_key_def event_of_def)
  qed (use 2 in simp)
qed simp

lemma store_frame [simp]:
  "events (charge_teams ids d) = events d" "attempts (charge_teams ids d) = attempts d"
  "spend (charge_teams ids d) = spend d" "vkeys (charge_teams ids d) = vkeys d"
  "next_id (charge_teams ids d) = next_id d"
  "events (record_spend ids d) = events d" "attempts (record_spend ids d) = attempts d"
  "teams (record_spend ids d) = teams d" "vkeys (record_spend ids d) = vkeys d"
  "next_id (record_spend ids d) = next_id d"
  "teams (drop_old_events now d) = teams d" "spend (drop_old_events now d) = spend d"
  "vkeys (drop_old_events now d) = vkeys d" "next_id (drop_old_events now d) = next_id d"
  by (simp_all add: charge_teams_def record_spend_def drop_old_events_def Let_def)

section \<open>Daily spend\<close>

definition spent :: "uuid \<times> int \<Rightarrow> spend_row list \<Rightarrow> rat" where
  "spent g ss = sum_list (map sd_cost (filter (\<lambda>s. spend_key s = g) ss))"

definition group_cost :: "uuid \<times> int \<Rightarrow> event_row list \<Rightarrow> rat" where
  "group_cost g rows = sum_list (map e_cost (group_rows g rows))"

lemma spent_update:
  assumes "distinct (map spend_key ss)" "s0 \<in> set ss" "spend_key s0 = h"
    and upd: "\<And>s. spend_key (f s) = spend_key s" "\<And>s. sd_cost (f s) = sd_cost s + c"
  shows "spent g (update_where (\<lambda>s. spend_key s = h) f ss) = spent g ss + (if g = h then c else 0)"
  using assms(1-3)
proof (induction ss)
  case (Cons a ss)
  have id: "spend_key a = h \<Longrightarrow> update_where (\<lambda>s. spend_key s = h) f ss = ss"
    using Cons.prems(1) by (intro update_where_none) (auto simp: image_iff)
  from Cons id show ?case by (auto simp: spent_def upd)
qed simp

lemma add_spend_spent:
  assumes "distinct (map spend_key ss)"
  shows "spent g (add_spend rows h ss) = spent g ss + (if g = h then group_cost h rows else 0)"
proof (cases "\<exists>s\<in>set ss. spend_key s = h")
  case True
  then obtain s0 where s0: "s0 \<in> set ss" "spend_key s0 = h" by blast
  show ?thesis
    using True unfolding add_spend_def Let_def upsert_where_def group_cost_def
    by (simp, intro conjI impI; subst spent_update [OF assms s0]) (simp_all add: spend_key_def)
next
  case False
  then show ?thesis
    by (auto simp: add_spend_def Let_def upsert_where_def spent_def group_cost_def spend_key_def)
qed

lemma add_spend_keys:
  assumes "distinct (map spend_key ss)"
  shows "distinct (map spend_key (add_spend rows h ss))"
proof (cases "\<exists>s\<in>set ss. spend_key s = h")
  case True
  have "map spend_key (add_spend rows h ss) = map spend_key ss"
    using True by (auto simp: add_spend_def Let_def upsert_where_def spend_key_def intro!: map_update_where_same)
  with assms show ?thesis by simp
next
  case False
  with assms show ?thesis
    by (cases h) (auto simp: add_spend_def Let_def upsert_where_def spend_key_def)
qed

lemma fold_add_spend:
  "distinct (map spend_key ss) \<Longrightarrow> distinct hs \<Longrightarrow>
   distinct (map spend_key (fold (add_spend rows) hs ss))
   \<and> spent g (fold (add_spend rows) hs ss) = spent g ss + (if g \<in> set hs then group_cost g rows else 0)"
  by (induction hs arbitrary: ss) (auto simp: add_spend_spent add_spend_keys)

lemma group_cost_none: "g \<notin> set (map spend_group rows) \<Longrightarrow> group_cost g rows = 0"
proof -
  assume "g \<notin> set (map spend_group rows)"
  then have "group_rows g rows = []" by (auto simp: group_rows_def filter_empty_conv)
  then show ?thesis by (simp add: group_cost_def)
qed

lemma record_spend_spent:
  assumes "distinct (map spend_key (spend d))"
  shows "spent g (spend (record_spend ids d)) = spent g (spend d) + group_cost g (counted ids (events d))"
  using fold_add_spend [OF assms, of "remdups (map spend_group (counted ids (events d)))"
      "counted ids (events d)" g] group_cost_none [of g "counted ids (events d)"]
  by (auto simp: record_spend_def Let_def)

section \<open>Examples\<close>

definition sample_key :: "uuid \<Rightarrow> uuid option \<Rightarrow> key_row" where
  "sample_key i t = \<lparr>k_id = i, k_name = ''k'', k_hash = ''h'', k_prefix = ''sk-cp'', k_enabled = True,
     k_models = [], k_rpm = 60, k_tpm = 0, k_max_concurrency = 0, k_budget = 0, k_duration = [], k_team = t\<rparr>"

definition sample_team :: "uuid \<Rightarrow> rat \<Rightarrow> team_row" where
  "sample_team i b = \<lparr>t_id = i, t_name = ''t'', t_enabled = True, t_budget = 0, t_balance = b, t_org = None\<rparr>"

definition sample_attempt :: "string \<Rightarrow> request_attempt" where
  "sample_attempt outcome = \<lparr>ra_account = ''main'', ra_adapter = ''openai'', ra_alias = [], ra_status = 200,
     ra_outcome = outcome, ra_latency = 10, ra_cooldown = 0\<rparr>"

definition sample_event :: "string \<Rightarrow> rat \<Rightarrow> string \<Rightarrow> request_event" where
  "sample_event req cost outcome = \<lparr>re_request = req, re_occurred = 0, re_endpoint = ''/v1/responses'',
     re_model = ''gpt'', re_upstream = [], re_vkey = [], re_key = Some 2, re_cost = cost, re_streaming = False,
     re_config = 0, re_status = 200, re_success = True, re_latency = 10, re_input = 3, re_output = 4,
     re_total = 7, re_attempts = [sample_attempt outcome]\<rparr>"

definition team_db :: db where
  "team_db = empty_db\<lparr>teams := [sample_team 1 10], vkeys := [sample_key 2 (Some 1)], next_id := 3\<rparr>"

definition team_db_after :: db where
  "team_db_after = team_db\<lparr>next_id := 4, events := [event_of 3 ''g'' 0 (sample_event ''r1'' 2 ''success'')],
     attempts := [\<lparr>at_event = 3, at_position = 0, at_account = ''main'', at_adapter = ''openai'', at_alias = [],
       at_status = 200, at_outcome = ''success'', at_latency = 10, at_cooldown = 0\<rparr>],
     spend := [\<lparr>sd_key = 2, sd_day = 0, sd_cost = 2, sd_tokens_in = 3, sd_tokens_out = 4, sd_requests = 1\<rparr>],
     teams := [sample_team 1 8]\<rparr>"

lemma numeric6_nat [simp]: "numeric6 (rat_of_nat n) = rat_of_nat n"
proof -
  have "\<lfloor>rat_of_nat n * 1000000 + 1 / 2\<rfloor> = int n * 1000000" by (rule floor_unique) simp_all
  then show ?thesis by (simp add: numeric6_def)
qed

lemma numeric6_two: "numeric6 2 = 2"
  using numeric6_nat [of 2] by simp

lemmas team_eval = team_db_def team_db_after_def sample_team_def sample_key_def sample_event_def
  sample_attempt_def empty_db_def

lemma team_store: "storeRequestEvents 0 ''g'' [sample_event ''r1'' 2 ''success''] team_db = (Inr 1, team_db_after)"
proof -
  show ?thesis
    unfolding storeRequestEvents_def txOn_Inr_iff
    by (simp add: store_body_def act_defs fresh_id_def insert_event_def drop_old_events_def insert_attempt_def
        enumerate_eq_zip outcome_check_def record_spend_def charge_teams_def counted_def spend_group_def
        group_rows_def add_spend_def upsert_where_def team_rows_def key_team_def Let_def event_of_def
        day_of_def numeric6_two team_eval)
qed

section \<open>Properties\<close>

definition events_inv :: "db \<Rightarrow> bool" where
  "events_inv d \<longleftrightarrow> distinct (map event_key (events d)) \<and> distinct (map e_id (events d))
     \<and> list_all (\<lambda>r. e_id r < next_id d) (events d) \<and> distinct (map spend_key (spend d))"

text \<open>The rows a call added: those with an id the database had not given out before.\<close>

definition added :: "db \<Rightarrow> db \<Rightarrow> event_row list" where
  "added d d' = filter (\<lambda>r. next_id d \<le> e_id r) (events d')"

lemma store_added:
  assumes "storeRequestEvents now gw evs d = (Inr n, d')" and inv: "events_inv d"
  defines "rows \<equiv> new_events now gw (events (drop_old_events now d)) (next_id d) evs"
  shows "added d d' = rows" and "n = length rows"
    and "events d' = events (drop_old_events now d) @ rows" and "next_id d' = next_id d + length rows"
    and "spend d' = (if rows = [] then spend d
           else fold (add_spend (filter (\<lambda>r. e_key r \<noteq> None \<and> e_success r) rows))
             (remdups (map spend_group (filter (\<lambda>r. e_key r \<noteq> None \<and> e_success r) rows))) (spend d))"
    and "teams d' = map (\<lambda>t. if team_rows d (t_id t) rows \<noteq> [] \<and> 0 < t_balance t
           then t\<lparr>t_balance := t_balance t - sum_list (map e_cost (team_rows d (t_id t) rows))\<rparr>
           else t) (teams d)"
proof -
  let ?d = "drop_old_events now d"
  obtain d1 where d1: "inserts rows ?d d1" "n = length rows"
    and d': "d' = (if rows = [] then d1 else charge_teams (map e_id rows) (record_spend (map e_id rows) d1))"
    using store_Inr [OF assms(1)] unfolding rows_def by blast
  from d1(1) have e1: "events d1 = events ?d @ rows" "next_id d1 = next_id d + length rows"
    "spend d1 = spend d" "teams d1 = teams d" "vkeys d1 = vkeys d"
    by (auto simp: inserts_def)
  show n: "n = length rows" by (fact d1(2))
  show ev: "events d' = events ?d @ rows" and "next_id d' = next_id d + length rows"
    using d' e1 by simp_all
  have old: "e_id r < next_id d" if "r \<in> set (events ?d)" for r
    using that inv by (auto simp: events_inv_def drop_old_events_def list_all_iff)
  have new: "next_id d \<le> e_id r" if "r \<in> set rows" for r
  proof -
    have "e_id r \<in> set (map e_id rows)" using that by simp
    then show ?thesis unfolding rows_def new_events_ids by simp
  qed
  have none: "filter (\<lambda>r. next_id d \<le> e_id r) (events ?d) = []"
    using old by (fastforce simp: filter_empty_conv)
  show "added d d' = rows"
    unfolding added_def ev using none new by (simp add: filter_id_conv)
  have sel: "filter (\<lambda>r. e_id r \<in> set (map e_id rows) \<and> P r) (events ?d @ rows) = filter P rows" for P
  proof -
    have "filter (\<lambda>r. e_id r \<in> set (map e_id rows) \<and> P r) (events ?d) = []"
      using old new by (fastforce simp: filter_empty_conv)
    moreover have "filter (\<lambda>r. e_id r \<in> set (map e_id rows) \<and> P r) rows = filter P rows"
      by (rule filter_cong) auto
    ultimately show ?thesis by simp
  qed
  have cnt: "counted (map e_id rows) (events d1) = filter (\<lambda>r. e_key r \<noteq> None \<and> e_success r) rows"
    unfolding counted_def e1(1) by (rule sel)
  show "spend d' = (if rows = [] then spend d
           else fold (add_spend (filter (\<lambda>r. e_key r \<noteq> None \<and> e_success r) rows))
             (remdups (map spend_group (filter (\<lambda>r. e_key r \<noteq> None \<and> e_success r) rows))) (spend d))"
    unfolding d' by (simp add: e1(3) record_spend_def Let_def cnt)
  have kt: "key_team (record_spend ids d1) k = key_team d k" for ids k
    unfolding key_team_def store_frame e1(5) ..
  show "teams d' = map (\<lambda>t. if team_rows d (t_id t) rows \<noteq> [] \<and> 0 < t_balance t
           then t\<lparr>t_balance := t_balance t - sum_list (map e_cost (team_rows d (t_id t) rows))\<rparr>
           else t) (teams d)"
    unfolding d' using sel [of "\<lambda>_. True"]
    by (simp add: charge_teams_def Let_def e1 team_rows_def kt del: set_map)
qed

text \<open>C2: Every stored event is accounted for exactly once: after a successful call the spend of
  any key on any day has grown by the cost of exactly the added successful events of that key and
  day, a tracked team's balance has shrunk by the cost of its keys' added successful events, no
  other team is touched, the count returned is the number of added rows, and the table's keys stay
  unique.\<close>

theorem storeRequestEvents_accounts:
  assumes "storeRequestEvents now gw evs d = (Inr n, d')" and "events_inv d"
  shows "n = length (added d d')
    \<and> spent (k, day) (spend d') = spent (k, day) (spend d) +
        sum_list (map e_cost (filter (\<lambda>r. e_key r = Some k \<and> e_success r \<and> day_of (e_occurred r) = day) (added d d')))
    \<and> teams d' = map (\<lambda>t. if 0 < t_balance t
        then t\<lparr>t_balance := t_balance t - sum_list (map e_cost (team_rows d (t_id t) (added d d')))\<rparr> else t) (teams d)
    \<and> events_inv d'"
proof -
  let ?rows = "new_events now gw (events (drop_old_events now d)) (next_id d) evs"
  note st = store_added [OF assms]
  let ?c = "filter (\<lambda>r. e_key r \<noteq> None \<and> e_success r) ?rows"
  have sk: "distinct (map spend_key (spend d))" using assms(2) by (simp add: events_inv_def)
  note fs = fold_add_spend [OF sk, of "remdups (map spend_group ?c)" ?c "(k, day)"]
  have gc: "group_cost (k, day) ?c
      = sum_list (map e_cost (filter (\<lambda>r. e_key r = Some k \<and> e_success r \<and> day_of (e_occurred r) = day) ?rows))"
    unfolding group_cost_def group_rows_def spend_group_def filter_filter
    by (rule arg_cong [where f = "\<lambda>x. sum_list (map e_cost x)"], rule filter_cong) auto
  have "spent (k, day) (spend d') = spent (k, day) (spend d) + group_cost (k, day) ?c"
  proof (cases "?rows = []")
    case True
    then show ?thesis unfolding st(5) by (simp add: group_cost_def group_rows_def)
  next
    case False
    then show ?thesis
      unfolding st(5) using fs group_cost_none [of "(k, day)" ?c] by auto
  qed
  moreover have "teams d' = map (\<lambda>t. if 0 < t_balance t
        then t\<lparr>t_balance := t_balance t - sum_list (map e_cost (team_rows d (t_id t) ?rows))\<rparr> else t) (teams d)"
    unfolding st(6) by (rule map_cong) (auto simp del: new_events.simps)
  moreover have "events_inv d'"
  proof -
    have kept: "distinct (map g (events (drop_old_events now d)))" if "distinct (map g (events d))" for g :: "event_row \<Rightarrow> 'x"
      using that by (simp add: drop_old_events_def distinct_map_filter)
    have lt: "\<forall>r\<in>set (events (drop_old_events now d)). e_id r < next_id d"
      using assms(2) by (auto simp: events_inv_def drop_old_events_def list_all_iff)
    have ids: "set (map e_id ?rows) = {next_id d ..< next_id d + length ?rows}"
      unfolding new_events_ids by simp
    have "distinct (map e_id ?rows)" unfolding new_events_ids by simp
    moreover have "distinct (map event_key (events d'))"
      unfolding st(3) using assms(2) by (intro new_events_keys kept) (simp add: events_inv_def)
    moreover have "distinct (map spend_key (spend d'))"
      unfolding st(5) using fs sk by simp
    moreover have "\<forall>r\<in>set ?rows. next_id d \<le> e_id r \<and> e_id r < next_id d + length ?rows"
      using ids by auto
    ultimately show ?thesis
      using lt kept [of e_id] assms(2) unfolding events_inv_def st(3,4)
      by (fastforce simp: list_all_iff)
  qed
  ultimately show ?thesis unfolding st(1) gc using st(2) by blast
qed

theorem storeRequestEvents_accounts_witness:
  "spent (2, 0) (spend team_db_after) = 2 \<and> teams team_db_after = [sample_team 1 8] \<and> events_inv team_db_after"
  using storeRequestEvents_accounts [OF team_store, of 2 0]
  by (simp add: events_inv_def spent_def added_def team_rows_def key_team_def event_of_def day_of_def
      numeric6_two team_eval)

text \<open>C16: Delivering a stored batch again changes nothing: as long as no stored event has aged out in
  the meantime, a second call with the same batch inserts no row and leaves every table as it is.\<close>

theorem storeRequestEvents_redelivery:
  assumes "storeRequestEvents now gw evs d = (Inr n, d')" and "events_inv d"
    and "\<forall>r\<in>set (events d'). later - retention_ms \<le> e_received r"
  shows "storeRequestEvents later gw evs d' = (Inr 0, d')"
proof -
  have "drop_old_events later d' = d'"
    using assms(3) by (simp add: drop_old_events_def filter_id_conv)
  moreover have "list_ex (reported gw (re_request e)) (events d')" if "e \<in> set evs" for e
    unfolding store_added(3) [OF assms(1,2)] using that by (rule new_events_complete)
  then have "insert_events later gw evs [] d' = (Inr [], d')"
  proof (induction evs)
    case (Cons e es)
    then have "insert_event later gw e d' = (Inr None, d')" by (simp add: insert_event_def act_simps)
    with Cons show ?case by (simp add: bind_act_def)
  qed (simp add: act_simps)
  ultimately show ?thesis
    by (simp add: storeRequestEvents_def txOn_Inr_iff store_body_def act_simps bind_act_def)
qed

theorem storeRequestEvents_redelivery_witness:
  "storeRequestEvents 1000 ''g'' [sample_event ''r1'' 2 ''success''] team_db_after = (Inr 0, team_db_after)"
  using storeRequestEvents_redelivery [OF team_store, of 1000]
  by (simp add: events_inv_def retention_ms_def event_of_def team_eval)

lemma insert_attempt_ok:
  "outcome_check (ra_outcome (snd x)) \<Longrightarrow> \<exists>d'. insert_attempt i x d = (Inr (), d')"
  and insert_attempt_refused:
  "\<not> outcome_check (ra_outcome (snd x)) \<Longrightarrow>
     insert_attempt i x d = (Inl (DbError ''request_event_attempts_outcome_check''), d)"
  by (simp_all add: insert_attempt_def act_simps)

lemma insert_attempts_rejected:
  "\<exists>x\<in>set xs. \<not> outcome_check (ra_outcome (snd x)) \<Longrightarrow> \<exists>e d'. for_act xs (insert_attempt i) d = (Inl e, d')"
proof (induction xs arbitrary: d)
  case (Cons x xs)
  show ?case
  proof (cases "outcome_check (ra_outcome (snd x))")
    case True
    with Cons.prems have "\<exists>x\<in>set xs. \<not> outcome_check (ra_outcome (snd x))" by auto
    note IH = Cons.IH [OF this]
    obtain d1 where "insert_attempt i x d = (Inr (), d1)" using insert_attempt_ok [OF True] by blast
    with IH [of d1] show ?thesis by (simp add: then_act_def bind_act_def)
  next
    case False
    from insert_attempt_refused [OF this] show ?thesis by (simp add: then_act_def bind_act_def)
  qed
qed simp

text \<open>A failing batch is rolled back as a whole, and a batch whose first event is new and reports an
  attempt cut short by a budget or concurrency limit always fails: the report schema accepts these
  outcomes, the table's check constraint does not.\<close>

theorem storeRequestEvents_rejects_limit_outcomes:
  assumes "a \<in> set (re_attempts e)" and "ra_outcome a \<in> {''budget_exceeded'', ''concurrency_limited''}"
    and "\<not> list_ex (reported gw (re_request e)) (events d)"
  shows "\<exists>err. storeRequestEvents now gw (e # es) d = (Inl err, d)"
proof -
  let ?d = "drop_old_events now d"
  have new: "\<not> list_ex (reported gw (re_request e)) (events ?d)"
    using assms(3) by (auto simp: drop_old_events_def list_ex_iff)
  have bad: "\<exists>x\<in>set (enumerate 0 (re_attempts e)). \<not> outcome_check (ra_outcome (snd x))"
  proof -
    have "a \<in> snd ` set (enumerate 0 (re_attempts e))"
      using assms(1) by (metis list.set_map map_snd_enumerate)
    moreover have "\<not> outcome_check (ra_outcome a)" using assms(2) by (auto simp: outcome_check_def)
    ultimately show ?thesis by auto
  qed
  have "\<exists>err d'. insert_events now gw (e # es) [] ?d = (Inl err, d')"
  proof (cases rule: insert_event_cases [of gw e ?d now])
    case inserted
    let ?d1 = "?d\<lparr>next_id := Suc (next_id ?d), events := events ?d @ [event_of (next_id ?d) gw now e]\<rparr>"
    obtain err d' where "for_act (enumerate 0 (re_attempts e)) (insert_attempt (next_id ?d)) ?d1 = (Inl err, d')"
      using insert_attempts_rejected [OF bad] by blast
    with inserted(2) show ?thesis by (simp add: bind_act_def then_act_def)
  qed (use new in \<open>simp_all add: bind_act_def\<close>)
  then show ?thesis
    by (auto simp: storeRequestEvents_def txOn_def store_body_def act_simps bind_act_def)
qed

theorem storeRequestEvents_rejects_limit_outcomes_witness:
  "\<exists>err. storeRequestEvents 0 ''g'' [sample_event ''r1'' 2 ''budget_exceeded''] team_db = (Inl err, team_db)"
  using storeRequestEvents_rejects_limit_outcomes [of "sample_attempt ''budget_exceeded''"
      "sample_event ''r1'' 2 ''budget_exceeded''" "''g''" team_db 0 "[]"]
  by (simp add: team_eval)

lemma percentile_cont_bounds:
  assumes "xs \<noteq> []" "0 \<le> p" "p \<le> 1" "\<forall>x\<in>set xs. lo \<le> x \<and> x \<le> hi"
  shows "rat_of_nat lo \<le> percentile_cont p xs \<and> percentile_cont p xs \<le> rat_of_nat hi"
proof -
  define pos where "pos = p * rat_of_nat (length xs - 1)"
  define i where "i = nat \<lfloor>pos\<rfloor>"
  define j where "j = nat \<lceil>pos\<rceil>"
  have pos0: "0 \<le> pos" using assms(2) by (simp add: pos_def)
  have "pos \<le> rat_of_nat (length xs - 1)"
    unfolding pos_def using assms(3) mult_right_mono [of p 1 "rat_of_nat (length xs - 1)"] by simp
  then have "\<lceil>pos\<rceil> \<le> int (length xs - 1)" by (simp add: ceiling_le_iff)
  then have j: "j < length xs" using assms(1) by (cases xs) (auto simp: j_def)
  have "i \<le> j" unfolding i_def j_def by (intro nat_mono) (rule floor_le_ceiling)
  with j have i: "i < length xs" by simp
  have mem: "sort xs ! k \<in> set xs" if "k < length xs" for k
    using nth_mem [of k "sort xs"] that by simp
  let ?a = "rat_of_nat (sort xs ! i)" and ?b = "rat_of_nat (sort xs ! j)"
  have ab: "rat_of_nat lo \<le> ?a" "?a \<le> rat_of_nat hi" "rat_of_nat lo \<le> ?b" "?b \<le> rat_of_nat hi"
    using mem [OF i] mem [OF j] assms(4) by auto
  define w where "w = pos - rat_of_nat i"
  have "rat_of_nat i = rat_of_int \<lfloor>pos\<rfloor>" using pos0 by (simp add: i_def)
  then have w: "0 \<le> w" "w \<le> 1" unfolding w_def by linarith+
  have val: "percentile_cont p xs = (1 - w) * ?a + w * ?b"
    using assms(1) by (simp add: percentile_cont_def Let_def pos_def i_def j_def w_def algebra_simps)
  have "(1 - w) * rat_of_nat lo + w * rat_of_nat lo \<le> (1 - w) * ?a + w * ?b"
    by (intro add_mono mult_left_mono) (use ab w in auto)
  moreover have "(1 - w) * ?a + w * ?b \<le> (1 - w) * rat_of_nat hi + w * rat_of_nat hi"
    by (intro add_mono mult_left_mono) (use ab w in auto)
  ultimately show ?thesis unfolding val by (simp add: algebra_simps)
qed

text \<open>The metrics are consistent: successful and fallback counts never exceed the requests, the
  success rate lies between zero and one, and the 95th percentile lies within any bounds that hold for the
  latencies of the period.\<close>

theorem requestMetrics_bounds:
  assumes "\<forall>r\<in>set (events d). lo \<le> e_latency r \<and> e_latency r \<le> hi"
    and "mx_requests (requestMetrics since now d) > 0"
  shows "mx_successful (requestMetrics since now d) \<le> mx_requests (requestMetrics since now d)
    \<and> mx_fallbacks (requestMetrics since now d) \<le> mx_requests (requestMetrics since now d)
    \<and> 0 \<le> mx_success_rate (requestMetrics since now d) \<and> mx_success_rate (requestMetrics since now d) \<le> 1
    \<and> rat_of_nat lo \<le> mx_p95 (requestMetrics since now d) \<and> mx_p95 (requestMetrics since now d) \<le> rat_of_nat hi"
proof -
  define t where "t = (case since of None \<Rightarrow> now - 24 * 60 * 60 * 1000 | Some t \<Rightarrow> t)"
  define rows where "rows = filter (\<lambda>r. t \<le> e_occurred r) (events d)"
  have ne: "map e_latency rows \<noteq> []"
    using assms(2) by (auto simp: requestMetrics_def Let_def rows_def t_def)
  have "\<forall>x\<in>set (map e_latency rows). lo \<le> x \<and> x \<le> hi" using assms(1) by (auto simp: rows_def)
  from percentile_cont_bounds [OF ne _ _ this, of "95 / 100"]
  have "rat_of_nat lo \<le> percentile_cont (95 / 100) (map e_latency rows)
    \<and> percentile_cont (95 / 100) (map e_latency rows) \<le> rat_of_nat hi" by simp
  moreover have "rat_of_nat (length (filter e_success rows)) / rat_of_nat (length rows) \<le> 1"
    using ne by (simp add: divide_le_eq)
  ultimately show ?thesis
    using ne unfolding requestMetrics_def Let_def t_def [symmetric] rows_def [symmetric]
    by simp
qed

theorem requestMetrics_bounds_witness:
  "mx_requests (requestMetrics (Some 0) 0 team_db_after) = 1
   \<and> 10 \<le> mx_p95 (requestMetrics (Some 0) 0 team_db_after) \<and> mx_p95 (requestMetrics (Some 0) 0 team_db_after) \<le> 10"
  using requestMetrics_bounds [of team_db_after 10 10 "Some 0" 0]
  by (simp add: requestMetrics_def Let_def event_of_def team_eval)

end
