(* ===== verification/Quota_Reset.thy ===== *)
theory Quota_Reset
  imports Request_Events "HOL-Library.AList"
begin

text \<open>
  \<open>lib/codex/quota.ts\<close>: the reset of a Codex account's quota, an operation that spends a reset
  credit at the provider and must not spend two.  The database statements of the file are
  functions on \<open>db\<close>; calls to the provider go through a \<open>dispatch\<close> parameter that acts on an
  external state \<open>'u\<close>.  Functions that interleave both work on pairs \<open>db \<times> 'u\<close>.  A function
  that waits for the provider between two statements takes one \<open>now\<close> per statement group.
  All rows of \<open>provider_operations\<close> have type \<open>quota_reset\<close>, the only one the code writes.
\<close>

section \<open>Provider dispatch\<close>

datatype operation_kind =
  Discover_models | Validate_credentials | Read_usage | List_reset_credits | Consume_reset_credit

record op_response =
  r_data :: jv
  r_warning :: "string option"

type_synonym 'u dispatch =
  "uuid \<Rightarrow> operation_kind \<Rightarrow> jv \<Rightarrow> string \<Rightarrow> db \<times> 'u \<Rightarrow> op_response res \<times> 'u"

definition call_dispatch ::
  "'u dispatch \<Rightarrow> uuid \<Rightarrow> operation_kind \<Rightarrow> jv \<Rightarrow> string \<Rightarrow> (db \<times> 'u, op_response) act" where
  "call_dispatch dispatch acct kind input key =
     (\<lambda>(d, u). let (r, u') = dispatch acct kind input key (d, u) in (r, (d, u')))"

section \<open>Checks on requests and provider answers\<close>

definition validateIdempotencyKey :: "string \<Rightarrow> unit res" where
  "validateIdempotencyKey key =
     (if key = [] \<or> length key > 128 \<or> list_ex (\<lambda>c. code c \<le> 32 \<or> code c = 127) key
      then Inl (ApiError 400 ''idempotency_key_invalid'' ''A valid Idempotency-Key header is required'')
      else Inr ())"

definition objectData :: "jv \<Rightarrow> string \<Rightarrow> jv res" where
  "objectData v ecode =
     (case v of JObj ps \<Rightarrow> Inr v
      | _ \<Rightarrow> Inl (ApiError 502 ecode ''Codex quota response contract changed''))"

text \<open>\<open>date_parse\<close> is \<open>Date.parse\<close>, \<open>None\<close> for \<open>NaN\<close>.\<close>

definition requireAvailableCredit :: "(string \<Rightarrow> ms option) \<Rightarrow> jv \<Rightarrow> ms \<Rightarrow> unit res" where
  "requireAvailableCredit date_parse creds now =
     (let available = to_number (get_prop creds ''available_count'');
          expiry = (case get_prop creds ''next_expires_at'' of
                      JStr s \<Rightarrow> (case date_parse s of None \<Rightarrow> NaN | Some t \<Rightarrow> Fin (rat_of_int t))
                    | _ \<Rightarrow> PosInf)
      in if \<not> is_integer available \<or> \<not> num_positive available \<or> \<not> is_finite expiry
            \<or> \<not> num_less (Fin (rat_of_int now)) expiry
         then Inl (ApiError 409 ''quota_reset_credit_unavailable'' ''No unexpired reset credit is available'')
         else Inr ())"

definition error_code_chars :: "string \<Rightarrow> bool" where
  "error_code_chars c \<longleftrightarrow> 1 \<le> length c \<and> length c \<le> 128
     \<and> list_all (\<lambda>x. is_lower x \<or> is_digit x \<or> x = CHR ''_'') c"

definition safeErrorCode :: "error \<Rightarrow> string" where
  "safeErrorCode e =
     (case error_code e of
        Some c \<Rightarrow> if error_code_chars c then c else ''provider_operation_ambiguous''
      | None \<Rightarrow> ''provider_operation_ambiguous'')"

definition conclusiveResetFailure :: "error \<Rightarrow> bool" where
  "conclusiveResetFailure e =
     (case e of
        ApiError st c msg \<Rightarrow>
          c \<in> set [''codex_reset_request_invalid'', ''codex_reset_credit_failed'',
                   ''codex_quota_unsupported'', ''credential_revision_conflict''] \<and> st < 500
      | _ \<Rightarrow> False)"

definition primaryWindow :: "jv \<Rightarrow> jsnum \<times> jsnum" where
  "primaryWindow quota =
     (let window = JObj (record_of (get_prop (JObj (record_of (get_prop quota ''rate_limit'')))
                                     ''primary_window''))
      in (num_or (to_number (get_prop window ''used_percent'')) (Fin 0),
          num_or (to_number (get_prop window ''reset_at'')) (Fin 0)))"

text \<open>Evidence, in the answers before and after, that the credit was spent.\<close>

definition resetWasConsumed :: "jv \<Rightarrow> jv \<Rightarrow> jv \<Rightarrow> bool" where
  "resetWasConsumed preflight quota creds =
     (let beforeCount = to_number (get_prop (JObj (record_of (get_prop preflight ''reset_credits''))) ''available_count'');
          afterCount = to_number (get_prop creds ''available_count'');
          (beforeUsed, beforeReset) = primaryWindow (JObj (record_of (get_prop preflight ''quota'')));
          (afterUsed, afterReset) = primaryWindow quota
      in (is_finite beforeCount \<and> is_finite afterCount \<and> num_less afterCount beforeCount)
         \<or> (num_positive beforeReset \<and> num_less beforeReset afterReset \<and> num_less afterUsed beforeUsed))"

section \<open>Statements on \<open>provider_operations\<close>\<close>

text \<open>The row functions of the \<open>UPDATE\<close> statements: each changes the rows its \<open>WHERE\<close> selects.\<close>

definition expire_op :: "uuid \<Rightarrow> string option \<Rightarrow> ms \<Rightarrow> op_row \<Rightarrow> op_row" where
  "expire_op acct key now r =
     (if op_account r = acct \<and> op_status r = Pending
         \<and> (case op_lease r of None \<Rightarrow> False | Some l \<Rightarrow> l \<le> now)
         \<and> (case key of None \<Rightarrow> True | Some k \<Rightarrow> op_key r = k)
      then r\<lparr>op_status := Unknown, op_warning := Some ''quota_reset_lease_expired'', op_lease := None\<rparr>
      else r)"

definition finish_op ::
  "uuid \<Rightarrow> op_status \<Rightarrow> (string \<times> jv) list \<Rightarrow> string option \<Rightarrow> ms \<Rightarrow> op_row \<Rightarrow> op_row" where
  "finish_op i st summary warning now r =
     (if op_id r = i \<and> op_status r = Pending
      then r\<lparr>op_status := st, op_summary := summary, op_warning := warning, op_lease := None,
             op_completed_at := (if st = Succeeded \<or> st = Failed then Some now else None)\<rparr>
      else r)"

definition reconcile_op ::
  "uuid \<Rightarrow> uuid \<Rightarrow> bool \<Rightarrow> (string \<times> jv) list \<Rightarrow> ms \<Rightarrow> op_row \<Rightarrow> op_row" where
  "reconcile_op acct i conclusive summary now r =
     (if op_id r = i \<and> op_account r = acct \<and> op_status r = Unknown
      then r\<lparr>op_status := (if conclusive then Succeeded else Unknown), op_summary := summary,
             op_source := (if conclusive then Some ''reconciled'' else op_source r),
             op_resolved_at := (if conclusive then Some now else op_resolved_at r),
             op_completed_at := (if conclusive then Some now else op_completed_at r),
             op_lease := None,
             op_warning := (if conclusive then None
                            else Some ''quota_reset_reconciliation_inconclusive'')\<rparr>
      else r)"

definition inconclusive_op :: "uuid \<Rightarrow> string \<Rightarrow> op_row \<Rightarrow> op_row" where
  "inconclusive_op i ecode r =
     (if op_id r = i \<and> op_status r = Unknown
      then r\<lparr>op_summary := [(''reconciliation'', JStr ''inconclusive''), (''error_code'', JStr ecode)],
             op_warning := Some ecode\<rparr>
      else r)"

definition resolve_op :: "uuid \<Rightarrow> uuid \<Rightarrow> op_status \<Rightarrow> string \<Rightarrow> ms \<Rightarrow> op_row \<Rightarrow> op_row" where
  "resolve_op acct i st note now r =
     (if op_id r = i \<and> op_account r = acct \<and> op_status r = Unknown
      then r\<lparr>op_status := st, op_source := Some ''manual'', op_resolved_by := Some ''operator'',
             op_note := Some note, op_resolved_at := Some now, op_completed_at := Some now,
             op_lease := None,
             op_summary := AList.update ''manual_resolution''
               (JStr (if st = Succeeded then ''succeeded'' else ''failed'')) (op_summary r)\<rparr>
      else r)"

definition update_ops :: "(op_row \<Rightarrow> op_row) \<Rightarrow> (db, unit) act" where
  "update_ops f = modify_act (\<lambda>d. d\<lparr>operations := map f (operations d)\<rparr>)"

primrec status_text :: "op_status \<Rightarrow> string" where
  "status_text Pending = ''pending''"
| "status_text Succeeded = ''succeeded''"
| "status_text Failed = ''failed''"
| "status_text Unknown = ''unknown''"

primrec opt_str :: "string option \<Rightarrow> jv" where
  "opt_str None = JNull"
| "opt_str (Some s) = JStr s"

definition expirePendingReset :: "uuid \<Rightarrow> string option \<Rightarrow> ms \<Rightarrow> (db, unit) act" where
  "expirePendingReset acct key now = update_ops (expire_op acct key now)"

definition loadResetByKey :: "uuid \<Rightarrow> string \<Rightarrow> db \<Rightarrow> op_row option" where
  "loadResetByKey acct key d = find (\<lambda>r. op_account r = acct \<and> op_key r = key) (operations d)"

definition loadResetByID :: "uuid \<Rightarrow> uuid \<Rightarrow> db \<Rightarrow> op_row option" where
  "loadResetByID acct i d = find (\<lambda>r. op_id r = i \<and> op_account r = acct) (operations d)"

definition savedResetOperation :: "uuid \<Rightarrow> string \<Rightarrow> ms \<Rightarrow> (db, op_row option) act" where
  "savedResetOperation acct key now =
     then_act (expirePendingReset acct (Some key) now) (gets_act (loadResetByKey acct key))"

definition active :: "op_row \<Rightarrow> bool" where
  "active r \<longleftrightarrow> op_status r = Pending \<or> op_status r = Unknown"

text \<open>\<open>ORDER BY created_at DESC LIMIT 1\<close> over the active rows of an account.\<close>

definition latest_active :: "uuid \<Rightarrow> db \<Rightarrow> op_row option" where
  "latest_active acct d = find (\<lambda>r. op_account r = acct \<and> active r) (rev (operations d))"

definition is_codex_account :: "uuid \<Rightarrow> db \<Rightarrow> bool" where
  "is_codex_account acct d =
     (case find_account acct d of
        None \<Rightarrow> False
      | Some a \<Rightarrow> (case find_provider (a_provider a) d of
                     None \<Rightarrow> False | Some p \<Rightarrow> p_adapter p = ''openai-codex''))"

definition lease_ms :: ms where
  "lease_ms = 120000"

definition new_op :: "uuid \<Rightarrow> uuid \<Rightarrow> string \<Rightarrow> jv \<Rightarrow> string \<Rightarrow> ms \<Rightarrow> op_row" where
  "new_op i acct key preflight upstream now =
     \<lparr>op_id = i, op_account = acct, op_key = key, op_status = Pending,
      op_lease = Some (now + lease_ms), op_preflight = preflight, op_upstream = upstream,
      op_summary = [], op_warning = None, op_source = None, op_resolved_by = None, op_note = None,
      op_resolved_at = None, op_completed_at = None\<rparr>"

text \<open>The transaction under the account's advisory lock: expire, replay a saved operation,
  refuse while another is active, otherwise record the intention.  The flag says whether the
  caller has to dispatch.\<close>

definition prepareReset ::
  "uuid \<Rightarrow> string \<Rightarrow> jv \<Rightarrow> string \<Rightarrow> ms \<Rightarrow> (db, op_row \<times> bool) act" where
  "prepareReset acct key preflight upstream now =
     then_act (expirePendingReset acct None now)
     (bind_act (gets_act (loadResetByKey acct key)) (\<lambda>same. case same of
        Some op \<Rightarrow> return_act (op, False)
      | None \<Rightarrow>
     bind_act (gets_act (latest_active acct)) (\<lambda>act. case act of
        Some op \<Rightarrow> throw (ApiError 409 ''quota_reset_active''
                      ''A reset operation is pending or requires resolution'')
      | None \<Rightarrow>
     bind_act (gets_act (is_codex_account acct)) (\<lambda>ok.
     then_act (guard_act ok (ApiError 404 ''codex_account_not_found'' ''Codex account not found''))
     (bind_act fresh_id (\<lambda>i.
     then_act (modify_act (\<lambda>d. d\<lparr>operations := operations d @ [new_op i acct key preflight upstream now]\<rparr>))
     (then_act (audit ''quota.reset.start'' ''provider_operation'' (Some (show_nat i))
                  (JObj [(''account_id'', JStr (show_nat acct)), (''status'', JStr ''pending'')]))
     (return_act (new_op i acct key preflight upstream now, True)))))))))"

definition updateResetAfterDispatch ::
  "uuid \<Rightarrow> op_status \<Rightarrow> (string \<times> jv) list \<Rightarrow> string option \<Rightarrow> ms \<Rightarrow> (db, op_row) act" where
  "updateResetAfterDispatch i st summary warning now =
     bind_act (gets_act (\<lambda>d. find (\<lambda>r. op_id r = i \<and> op_status r = Pending) (operations d))) (\<lambda>found.
     case found of
       None \<Rightarrow> throw (ApiError 409 ''quota_reset_state_conflict'' ''Reset operation state changed unexpectedly'')
     | Some r \<Rightarrow>
         then_act (update_ops (finish_op i st summary warning now))
         (then_act (audit ''quota.reset.finish'' ''provider_operation'' (Some (show_nat i))
                      (JObj [(''status'', JStr (status_text st)), (''warning_code'', opt_str warning)]))
         (return_act (finish_op i st summary warning now r))))"

section \<open>Refreshing the cached quota\<close>

definition error_pstate :: "uuid \<Rightarrow> string \<Rightarrow> string \<Rightarrow> string \<Rightarrow> pstate_row list \<Rightarrow> pstate_row list" where
  "error_pstate acct capability ecode msg =
     upsert_where (\<lambda>p. ps_account p = acct)
       (\<lambda>p. p\<lparr>ps_capability := capability, ps_last_operation := Some ''quota.refresh'',
              ps_error_code := Some ecode, ps_error_message := Some msg\<rparr>)
       \<lparr>ps_account = acct, ps_quota = JObj [], ps_credits = JObj [], ps_capability = capability,
        ps_fetched = None, ps_last_operation = Some ''quota.refresh'', ps_error_code = Some ecode,
        ps_error_message = Some msg\<rparr>"

definition ok_row :: "uuid \<Rightarrow> jv \<Rightarrow> jv \<Rightarrow> ms \<Rightarrow> pstate_row" where
  "ok_row acct quota creds fetched =
     \<lparr>ps_account = acct, ps_quota = quota, ps_credits = creds, ps_capability = ''available'',
      ps_fetched = Some fetched, ps_last_operation = Some ''quota.refresh'',
      ps_error_code = None, ps_error_message = None\<rparr>"

definition ok_pstate :: "uuid \<Rightarrow> jv \<Rightarrow> jv \<Rightarrow> ms \<Rightarrow> pstate_row list \<Rightarrow> pstate_row list" where
  "ok_pstate acct quota creds fetched =
     upsert_where (\<lambda>p. ps_account p = acct) (\<lambda>_. ok_row acct quota creds fetched)
       (ok_row acct quota creds fetched)"

text \<open>The upsert of \<open>account_provider_state\<close>, whose key references \<open>accounts\<close>: for an account that
  does not exist the statement fails.\<close>

definition upsert_pstate ::
  "uuid \<Rightarrow> (pstate_row list \<Rightarrow> pstate_row list) \<Rightarrow> (db, unit) act" where
  "upsert_pstate acct f =
     bind_act (gets_act (find_account acct)) (\<lambda>a. case a of
        None \<Rightarrow> throw (DbError ''account_provider_state_account_id_fkey'')
      | Some _ \<Rightarrow> modify_act (\<lambda>d. d\<lparr>pstates := f (pstates d)\<rparr>))"

text \<open>\<open>COALESCE((quota->>'fetched_at')::timestamptz, now())\<close>; a text that is no timestamp makes
  the statement fail.\<close>

definition fetched_at :: "(string \<Rightarrow> ms option) \<Rightarrow> jv \<Rightarrow> ms \<Rightarrow> ms res" where
  "fetched_at date_parse quota now =
     (case get_prop quota ''fetched_at'' of
        JUndef \<Rightarrow> Inr now
      | JNull \<Rightarrow> Inr now
      | JStr s \<Rightarrow> (case date_parse s of None \<Rightarrow> Inl (DbError ''invalid timestamp'') | Some t \<Rightarrow> Inr t)
      | _ \<Rightarrow> Inl (DbError ''invalid timestamp''))"

definition capability_of :: "error \<Rightarrow> string" where
  "capability_of e =
     (case error_code e of
        Some c \<Rightarrow> (if c = ''codex_quota_unsupported'' then ''unsupported''
                   else if c = ''codex_quota_contract_changed'' then ''contract_changed'' else ''error'')
      | None \<Rightarrow> ''error'')"

definition safeMessage :: "error \<Rightarrow> string" where
  "safeMessage e =
     take 256 (strip_ctrl (case e of ApiError st c msg \<Rightarrow> msg | _ \<Rightarrow> ''Provider operation failed''))"

definition refresh_code :: "error \<Rightarrow> string" where
  "refresh_code e = (case error_code e of Some c \<Rightarrow> c | None \<Rightarrow> ''provider_operation_failed'')"

definition refreshCodexQuota ::
  "'u dispatch \<Rightarrow> (string \<Rightarrow> ms option) \<Rightarrow> uuid \<Rightarrow> ms \<Rightarrow> (db \<times> 'u, pstate_row) act" where
  "refreshCodexQuota dispatch date_parse acct now =
     catch_act
       (bind_act (call_dispatch dispatch acct Read_usage (JObj [])
                    (''quota-usage:'' @ show_nat acct @ '':'' @ show_nat (nat now))) (\<lambda>usage.
        bind_act (call_dispatch dispatch acct List_reset_credits (JObj [])
                    (''quota-credits:'' @ show_nat acct @ '':'' @ show_nat (nat now))) (\<lambda>resetCredits.
        bind_act (lift_res (objectData (r_data usage) ''codex_quota_contract_changed'')) (\<lambda>quota.
        bind_act (lift_res (objectData (r_data resetCredits) ''codex_quota_contract_changed'')) (\<lambda>creds.
        on_db (txOn
          (bind_act (lift_res (fetched_at date_parse quota now)) (\<lambda>t.
           then_act (upsert_pstate acct (ok_pstate acct quota creds t))
           (then_act (audit ''quota.refresh'' ''account'' (Some (show_nat acct))
              (JObj [(''status'', JStr ''succeeded''),
                     (''warning_code'', opt_str (case r_warning usage of None \<Rightarrow> r_warning resetCredits | w \<Rightarrow> w))]))
           (return_act (ok_row acct quota creds t))))))))))) 
       (\<lambda>e. then_act
          (on_db (txOn
            (then_act (upsert_pstate acct (error_pstate acct (capability_of e) (refresh_code e) (safeMessage e)))
             (audit ''quota.refresh'' ''account'' (Some (show_nat acct))
                (JObj [(''status'', JStr ''failed''), (''error_code'', JStr (refresh_code e))])))))
          (throw e))"

section \<open>Reading the cached quota\<close>

record quota_view =
  qv_state :: pstate_row
  qv_operation :: "op_row option"
  qv_usage :: "(nat \<times> nat \<times> ms) option"

definition no_pstate :: "uuid \<Rightarrow> pstate_row" where
  "no_pstate acct = \<lparr>ps_account = acct, ps_quota = JObj [], ps_credits = JObj [], ps_capability = ''unknown'',
     ps_fetched = None, ps_last_operation = None, ps_error_code = None, ps_error_message = None\<rparr>"

definition getCodexQuota :: "uuid \<Rightarrow> ms \<Rightarrow> (db, quota_view) act" where
  "getCodexQuota acct now =
     bind_act (gets_act (find_account acct)) (\<lambda>account. case account of
        None \<Rightarrow> throw (ApiError 404 ''account_not_found'' ''Account not found'')
      | Some a \<Rightarrow>
     then_act (expirePendingReset acct None now)
     (gets_act (\<lambda>d.
        let quota = (case find (\<lambda>p. ps_account p = acct) (pstates d) of None \<Rightarrow> no_pstate acct | Some p \<Rightarrow> p)
        in \<lparr>qv_state = quota, qv_operation = latest_active acct d,
            qv_usage = (case ps_fetched quota of
               None \<Rightarrow> None
             | Some t \<Rightarrow> (case accountUsageSince (a_name a) t d of (tokens, requests) \<Rightarrow>
                            if 0 < requests \<or> 0 < tokens then Some (tokens, requests, t) else None))\<rparr>)))"

section \<open>The reset\<close>

text \<open>The refresh after a successful reset: its failure is ignored.\<close>

definition refreshAfterReset ::
  "'u dispatch \<Rightarrow> (string \<Rightarrow> ms option) \<Rightarrow> bool \<Rightarrow> uuid \<Rightarrow> ms \<Rightarrow> (db \<times> 'u, unit) act" where
  "refreshAfterReset dispatch date_parse postRefresh acct now =
     (if postRefresh
      then catch_act (then_act (refreshCodexQuota dispatch date_parse acct now) (return_act ()))
             (\<lambda>_. return_act ())
      else return_act ())"

text \<open>From the provider's answer to the consume call to the stored outcome.\<close>

definition finishReset ::
  "'u dispatch \<Rightarrow> (string \<Rightarrow> ms option) \<Rightarrow> bool \<Rightarrow> uuid \<Rightarrow> op_row \<Rightarrow> string \<Rightarrow> ms
    \<Rightarrow> (db \<times> 'u, op_row) act" where
  "finishReset dispatch date_parse postRefresh acct op key now =
     catch_act
       (bind_act (call_dispatch dispatch acct Consume_reset_credit
                    (JObj [(''redeem_request_id'', JStr (op_upstream op))]) key) (\<lambda>consumed.
        bind_act (lift_res (objectData (r_data consumed) ''provider_operation_invalid_response'')) (\<lambda>provider.
        bind_act (on_db (txOn (updateResetAfterDispatch (op_id op) Succeeded
                    [(''consumed'', JBool True), (''provider'', provider)] (r_warning consumed) now))) (\<lambda>completed.
        then_act (refreshAfterReset dispatch date_parse postRefresh acct now) (return_act completed)))))
       (\<lambda>e. let st = (if conclusiveResetFailure e then Failed else Unknown)
            in on_db (txOn (updateResetAfterDispatch (op_id op) st
                 [(''error_code'', JStr (safeErrorCode e))]
                 (Some (if st = Unknown then ''quota_reset_outcome_unknown'' else safeErrorCode e)) now)))"

definition resetCodexQuota ::
  "'u dispatch \<Rightarrow> (string \<Rightarrow> ms option) \<Rightarrow> bool \<Rightarrow> uuid \<Rightarrow> string \<Rightarrow> bool \<Rightarrow> string \<Rightarrow> ms \<Rightarrow> ms \<Rightarrow> ms
    \<Rightarrow> (db \<times> 'u, op_row) act" where
  "resetCodexQuota dispatch date_parse postRefresh acct key confirmed upstream now0 now1 now2 =
     then_act (guard_act confirmed
        (ApiError 400 ''quota_reset_confirmation_required'' ''Reset confirmation is required''))
     (then_act (lift_res (validateIdempotencyKey key))
     (bind_act (on_db (savedResetOperation acct key now0)) (\<lambda>existing. case existing of
        Some op \<Rightarrow> return_act op
      | None \<Rightarrow>
     bind_act (call_dispatch dispatch acct Read_usage (JObj []) (''quota-preflight-usage:'' @ key)) (\<lambda>usage.
     bind_act (call_dispatch dispatch acct List_reset_credits (JObj []) (''quota-preflight-credits:'' @ key)) (\<lambda>cr.
     bind_act (lift_res (objectData (r_data usage) ''codex_quota_contract_changed'')) (\<lambda>quota.
     bind_act (lift_res (objectData (r_data cr) ''codex_quota_contract_changed'')) (\<lambda>resetCredits.
     then_act (lift_res (requireAvailableCredit date_parse resetCredits now0))
     (bind_act (on_db (txOn (prepareReset acct key
                  (JObj [(''quota'', quota), (''reset_credits'', resetCredits)]) upstream now1)))
       (\<lambda>(op, go). if go then finishReset dispatch date_parse postRefresh acct op key now2
                   else return_act op))))))))) "

section \<open>Reconciliation and manual resolution\<close>

definition reconcileBegin :: "uuid \<Rightarrow> uuid \<Rightarrow> ms \<Rightarrow> (db, op_row) act" where
  "reconcileBegin acct i now =
     then_act (expirePendingReset acct None now)
     (bind_act (gets_act (loadResetByID acct i)) (\<lambda>found. case found of
        None \<Rightarrow> throw (ApiError 404 ''quota_reset_operation_not_found'' ''Reset operation not found'')
      | Some r \<Rightarrow> (if op_status r = Pending
                   then throw (ApiError 409 ''quota_reset_pending'' ''Reset operation is still pending'')
                   else return_act r)))"

definition reconcileFinish ::
  "uuid \<Rightarrow> uuid \<Rightarrow> bool \<Rightarrow> jv \<Rightarrow> jv \<Rightarrow> ms \<Rightarrow> (db, op_row) act" where
  "reconcileFinish acct i conclusive quota creds now =
     then_act (update_ops (reconcile_op acct i conclusive
        [(''reconciliation'', JStr (if conclusive then ''consumed'' else ''inconclusive'')),
         (''quota'', quota), (''reset_credits'', creds)] now))
     (bind_act (gets_act (loadResetByID acct i)) (\<lambda>row. case row of
        None \<Rightarrow> throw (JsError ''TypeError'')
      | Some r \<Rightarrow>
          then_act (audit ''quota.reset.reconcile'' ''provider_operation'' (Some (show_nat i))
             (JObj [(''account_id'', JStr (show_nat acct)), (''status'', JStr (status_text (op_status r))),
                    (''conclusive'', JBool conclusive)]))
          (return_act r)))"

definition reconcileCodexQuotaReset ::
  "'u dispatch \<Rightarrow> uuid \<Rightarrow> uuid \<Rightarrow> ms \<Rightarrow> ms \<Rightarrow> (db \<times> 'u, op_row) act" where
  "reconcileCodexQuotaReset dispatch acct i now0 now1 =
     bind_act (on_db (txOn (reconcileBegin acct i now0))) (\<lambda>op.
     if op_status op \<noteq> Unknown then return_act op
     else
       bind_act
         (catch_act
            (bind_act (call_dispatch dispatch acct Read_usage (JObj []) (''quota-reconcile-usage:'' @ show_nat i)) (\<lambda>usage.
             bind_act (lift_res (objectData (r_data usage) ''codex_quota_contract_changed'')) (\<lambda>quota.
             bind_act (call_dispatch dispatch acct List_reset_credits (JObj []) (''quota-reconcile-credits:'' @ show_nat i)) (\<lambda>cr.
             bind_act (lift_res (objectData (r_data cr) ''codex_quota_contract_changed'')) (\<lambda>creds.
             return_act (Some (quota, creds)))))))
            (\<lambda>e. then_act (on_db (update_ops (inconclusive_op i (safeErrorCode e)))) (return_act None)))
         (\<lambda>answers. case answers of
            None \<Rightarrow> bind_act (on_db (gets_act (loadResetByID acct i))) (\<lambda>row. case row of
                       None \<Rightarrow> throw (JsError ''TypeError'') | Some r \<Rightarrow> return_act r)
          | Some (quota, creds) \<Rightarrow>
              on_db (txOn (reconcileFinish acct i
                (resetWasConsumed (op_preflight op) quota creds) quota creds now1))))"

text \<open>The resolution arrives as text; the type \<open>'succeeded' | 'failed'\<close> is checked at run time.\<close>

definition resolution_of :: "string \<Rightarrow> op_status option" where
  "resolution_of s = (if s = ''succeeded'' then Some Succeeded
                      else if s = ''failed'' then Some Failed else None)"

definition resolveCodexQuotaReset :: "uuid \<Rightarrow> uuid \<Rightarrow> string \<Rightarrow> string \<Rightarrow> ms \<Rightarrow> (db, op_row) act" where
  "resolveCodexQuotaReset acct i resolution note now =
     (let normalizedNote = js_trim note
      in case resolution_of resolution of
          None \<Rightarrow> throw (ApiError 400 ''resolution_invalid'' ''Resolution must be succeeded or failed'')
        | Some st \<Rightarrow>
            then_act (guard_act (10 \<le> length normalizedNote \<and> length normalizedNote \<le> 1000)
              (ApiError 400 ''resolution_note_required'' ''A resolution note of 10 to 1000 characters is required''))
            (txOn
              (then_act (expirePendingReset acct None now)
              (bind_act (gets_act (loadResetByID acct i)) (\<lambda>found. case found of
                 None \<Rightarrow> throw (ApiError 404 ''quota_reset_operation_not_found'' ''Reset operation not found'')
               | Some r \<Rightarrow>
                  (if op_status r \<noteq> Unknown
                   then throw (ApiError 409 ''quota_reset_not_unknown''
                          ''Only an unknown reset operation can be manually resolved'')
                   else then_act (update_ops (resolve_op acct i st normalizedNote now))
                     (then_act (audit ''quota.reset.resolve'' ''provider_operation'' (Some (show_nat i))
                        (JObj [(''account_id'', JStr (show_nat acct)), (''resolution'', JStr resolution),
                               (''note'', JStr normalizedNote)]))
                     (return_act (resolve_op acct i st normalizedNote now r)))))))))"

section \<open>Updates of a reset operation\<close>

text \<open>
  What every \<open>UPDATE provider_operations\<close> of the file promises: it keeps the identity of a row,
  never touches a finished one, and never makes an inactive one active or an unknown one pending.
\<close>

locale op_update =
  fixes f :: "op_row \<Rightarrow> op_row"
  assumes id_kept: "op_id (f r) = op_id r"
    and account_kept: "op_account (f r) = op_account r"
    and key_kept: "op_key (f r) = op_key r"
    and preflight_kept: "op_preflight (f r) = op_preflight r"
    and finished_kept: "\<not> active r \<Longrightarrow> f r = r"
    and pending_origin: "op_status (f r) = Pending \<Longrightarrow> op_status r = Pending"
begin

lemma active_origin: "active (f r) \<Longrightarrow> active r"
  using finished_kept by metis

lemma map_ids: "map op_id (map f rs) = map op_id rs"
  by (simp add: id_kept)

lemma map_keys: "map (\<lambda>r. (op_account r, op_key r)) (map f rs) = map (\<lambda>r. (op_account r, op_key r)) rs"
  by (simp add: account_kept key_kept)

lemma active_accounts_distinct:
  "distinct (map op_account (filter active rs)) \<Longrightarrow>
   distinct (map op_account (filter active (map f rs)))
   \<and> set (map op_account (filter active (map f rs))) \<subseteq> set (map op_account (filter active rs))"
  by (induction rs) (auto simp: account_kept dest: active_origin)

lemma finished_member: "r \<in> set rs \<Longrightarrow> \<not> active r \<Longrightarrow> r \<in> set (map f rs)"
  using finished_kept by force

end

interpretation expire: op_update "expire_op acct key now" for acct key now
  by unfold_locales (auto simp: expire_op_def active_def split: if_splits)

interpretation finish: op_update "finish_op i st summary warning now"
  for i summary warning now and st :: op_status
  by unfold_locales (auto simp: finish_op_def active_def split: if_splits)

interpretation reconcile: op_update "reconcile_op acct i conclusive summary now"
  for acct i conclusive summary now
  by unfold_locales (auto simp: reconcile_op_def active_def split: if_splits)

interpretation inconclusive: op_update "inconclusive_op i ecode" for i ecode
  by unfold_locales (auto simp: inconclusive_op_def active_def split: if_splits)

interpretation resolve: op_update "resolve_op acct i (if ok then Succeeded else Failed) reason now"
  for acct i ok reason now
  by unfold_locales (auto simp: resolve_op_def active_def split: if_splits)

section \<open>The table's invariant\<close>

definition op_keys :: "db \<Rightarrow> (uuid \<times> string) list" where
  "op_keys d = map (\<lambda>r. (op_account r, op_key r)) (operations d)"

definition ops_inv :: "db \<Rightarrow> bool" where
  "ops_inv d \<longleftrightarrow>
     distinct (map op_id (operations d)) \<and> distinct (op_keys d)
     \<and> distinct (map op_account (filter active (operations d)))
     \<and> list_all (\<lambda>r. op_id r < next_id d) (operations d)"

text \<open>One step of a handler on the table: it keeps the invariant and every finished row, and the
  keys recorded so far.\<close>

definition ops_le :: "db \<Rightarrow> db \<Rightarrow> bool" where
  "ops_le d d' \<longleftrightarrow> (ops_inv d \<longrightarrow> ops_inv d') \<and> set (op_keys d) \<subseteq> set (op_keys d')
     \<and> (\<forall>r\<in>set (operations d). \<not> active r \<longrightarrow> r \<in> set (operations d'))"

lemma ops_le_refl [simp]: "ops_le d d"
  by (simp add: ops_le_def)

lemma ops_le_trans: "ops_le a b \<Longrightarrow> ops_le b c \<Longrightarrow> ops_le a c"
  unfolding ops_le_def by blast

lemma ops_le_same: "operations d' = operations d \<Longrightarrow> next_id d \<le> next_id d' \<Longrightarrow> ops_le d d'"
  by (auto simp: ops_le_def ops_inv_def op_keys_def list_all_iff)

lemma ops_le_audits [simp]: "ops_le d (d\<lparr>audits := x\<rparr>)"
  by (rule ops_le_same) simp_all

context op_update
begin

lemma ops_le_map: "ops_le d (d\<lparr>operations := map f (operations d)\<rparr>)"
  using active_accounts_distinct [of "operations d"] finished_member
  by (auto simp: ops_le_def ops_inv_def op_keys_def account_kept key_kept id_kept list_all_iff
      image_iff comp_def)

lemma op_keys_map: "op_keys (d\<lparr>operations := map f (operations d)\<rparr>) = op_keys d"
  by (simp add: op_keys_def account_kept key_kept)

lemma ops_le_update: "ops_le d (snd (update_ops f d))"
  by (simp add: update_ops_def act_simps ops_le_map)

lemma op_keys_update: "op_keys (snd (update_ops f d)) = op_keys d"
  by (simp add: update_ops_def act_simps op_keys_map)

end

text \<open>The outcome of the transaction that starts a reset.\<close>

definition expired :: "uuid \<Rightarrow> ms \<Rightarrow> db \<Rightarrow> db" where
  "expired acct now d = d\<lparr>operations := map (expire_op acct None now) (operations d)\<rparr>"

definition started :: "uuid \<Rightarrow> string \<Rightarrow> jv \<Rightarrow> string \<Rightarrow> ms \<Rightarrow> db \<Rightarrow> db" where
  "started acct key preflight upstream now d =
     d\<lparr>next_id := Suc (next_id d),
       operations := operations d @ [new_op (next_id d) acct key preflight upstream now],
       audits := audits d @ [\<lparr>au_actor = ''local-admin'', au_action = ''quota.reset.start'',
         au_type = ''provider_operation'', au_resource = Some (show_nat (next_id d)),
         au_payload = JObj [(''account_id'', JStr (show_nat acct)), (''status'', JStr ''pending'')]\<rparr>]\<rparr>"

lemma prepareReset_apply:
  "prepareReset acct key preflight upstream now d =
     (let d1 = expired acct now d in
      case loadResetByKey acct key d1 of
        Some op \<Rightarrow> (Inr (op, False), d1)
      | None \<Rightarrow>
         (case latest_active acct d1 of
            Some op \<Rightarrow> (Inl (ApiError 409 ''quota_reset_active''
                          ''A reset operation is pending or requires resolution''), d1)
          | None \<Rightarrow>
             (if is_codex_account acct d1
              then (Inr (new_op (next_id d) acct key preflight upstream now, True),
                    started acct key preflight upstream now d1)
              else (Inl (ApiError 404 ''codex_account_not_found'' ''Codex account not found''), d1))))"
  by (simp add: prepareReset_def expirePendingReset_def update_ops_def act_simps Let_def expired_def
      started_def split: option.split)

lemma loadResetByKey_None: "loadResetByKey acct key d = None \<longleftrightarrow> (acct, key) \<notin> set (op_keys d)"
  by (auto simp: loadResetByKey_def op_keys_def find_None_set image_iff)

lemma latest_active_None:
  "latest_active acct d = None \<longleftrightarrow> acct \<notin> set (map op_account (filter active (operations d)))"
  by (auto simp: latest_active_def find_None_set)

lemma ops_le_started:
  assumes "loadResetByKey acct key d = None" "latest_active acct d = None"
  shows "ops_le d (started acct key preflight upstream now d)"
proof -
  have "active (new_op i acct key preflight upstream now)" for i
    by (simp add: active_def new_op_def)
  with assms show ?thesis
    unfolding loadResetByKey_None latest_active_None
    by (auto simp: ops_le_def ops_inv_def op_keys_def started_def list_all_iff new_op_def)
qed

lemma prepareReset_ops_le: "ops_le d (snd (txOn (prepareReset acct key preflight upstream now) d))"
proof -
  have e: "ops_le d (expired acct now d)"
    unfolding expired_def by (rule expire.ops_le_map)
  show ?thesis
  proof (cases rule: txOn_cases [of "prepareReset acct key preflight upstream now" d])
    case (commit x t)
    then show ?thesis
      using e ops_le_trans [OF e ops_le_started]
      by (auto simp: prepareReset_apply Let_def split: option.splits if_splits)
  qed simp
qed

lemma prepareReset_True:
  assumes "txOn (prepareReset acct key preflight upstream now) d = (Inr (op, True), d')"
  shows "op_account op = acct \<and> op_key op = key \<and> (acct, key) \<notin> set (op_keys d)
    \<and> op_keys d' = op_keys d @ [(acct, key)]"
  using assms unfolding txOn_Inr_iff prepareReset_apply Let_def
  by (auto simp: loadResetByKey_None started_def op_keys_def new_op_def expired_def
      expire.account_kept expire.key_kept comp_def split: option.splits if_splits)

section \<open>Concurrent resets\<close>

text \<open>
  Handlers of several requests interleave between their database transactions and provider calls.
  \<open>ready\<close> holds the operations whose handler was told to dispatch and has not done it yet,
  \<open>sent\<close> the account and idempotency key of every \<open>consume_reset_credit\<close> call made so far.  A
  handler may die at any point; other components may change every table but this one.
\<close>

record reset_state =
  rdb :: db
  ready :: "op_row list"
  sent :: "(uuid \<times> string) list"

inductive reset_step :: "reset_state \<Rightarrow> reset_state \<Rightarrow> bool" where
  replay_lookup:
    "reset_step s (s\<lparr>rdb := snd (savedResetOperation acct key now (rdb s))\<rparr>)"
| prepare:
    "txOn (prepareReset acct key preflight upstream now) (rdb s) = (Inr (op, True), d') \<Longrightarrow>
     reset_step s (s\<lparr>rdb := d', ready := op # ready s\<rparr>)"
| prepare_done:
    "txOn (prepareReset acct key preflight upstream now) (rdb s) = (r, d') \<Longrightarrow>
     (\<And>op. r \<noteq> Inr (op, True)) \<Longrightarrow> reset_step s (s\<lparr>rdb := d'\<rparr>)"
| consume:
    "op \<in> set (ready s) \<Longrightarrow>
     reset_step s (s\<lparr>ready := remove1 op (ready s), sent := (op_account op, op_key op) # sent s\<rparr>)"
| finish:
    "reset_step s (s\<lparr>rdb := snd (txOn (updateResetAfterDispatch i st summary warning now) (rdb s))\<rparr>)"
| crash:
    "reset_step s (s\<lparr>ready := remove1 op (ready s)\<rparr>)"
| reconcile_begin:
    "reset_step s (s\<lparr>rdb := snd (txOn (reconcileBegin acct i now) (rdb s))\<rparr>)"
| reconcile_failed:
    "reset_step s (s\<lparr>rdb := snd (update_ops (inconclusive_op i ecode) (rdb s))\<rparr>)"
| reconcile_finish:
    "reset_step s (s\<lparr>rdb := snd (txOn (reconcileFinish acct i conclusive quota creds now) (rdb s))\<rparr>)"
| resolve:
    "reset_step s (s\<lparr>rdb := snd (resolveCodexQuotaReset acct i resolution reason now (rdb s))\<rparr>)"
| other:
    "operations d' = operations (rdb s) \<Longrightarrow> next_id (rdb s) \<le> next_id d' \<Longrightarrow>
     reset_step s (s\<lparr>rdb := d'\<rparr>)"

inductive_cases reset_stepE: "reset_step s s'"

text \<open>A transaction keeps the table ordered whatever its outcome, when its committed runs do.\<close>

lemma txOn_ops_le:
  assumes "\<And>x t. m d = (Inr x, t) \<Longrightarrow> ops_le d t"
  shows "ops_le d (snd (txOn m d))"
  by (cases rule: txOn_cases [of m d]) (use assms in auto)

lemma ops_le_map_audits:
  "op_update f \<Longrightarrow> ops_le d (d\<lparr>operations := map f (operations d), audits := x\<rparr>)"
  using ops_le_trans [OF op_update.ops_le_map ops_le_audits, of f d x] by simp

lemma savedResetOperation_le: "ops_le d (snd (savedResetOperation acct key now d))"
  by (simp add: savedResetOperation_def expirePendingReset_def update_ops_def act_simps expire.ops_le_map)

lemma updateResetAfterDispatch_le:
  "ops_le d (snd (txOn (updateResetAfterDispatch i st summary warning now) d))"
  by (rule txOn_ops_le)
     (auto simp: updateResetAfterDispatch_def update_ops_def act_simps split: option.splits
       intro: ops_le_map_audits finish.op_update_axioms)

lemma reconcileBegin_le: "ops_le d (snd (txOn (reconcileBegin acct i now) d))"
  by (rule txOn_ops_le)
     (auto simp: reconcileBegin_def expirePendingReset_def update_ops_def act_simps expire.ops_le_map
       split: option.splits if_splits)

lemma reconcileFinish_le: "ops_le d (snd (txOn (reconcileFinish acct i conclusive quota creds now) d))"
  by (rule txOn_ops_le)
     (auto simp: reconcileFinish_def update_ops_def act_simps split: option.splits
       intro: ops_le_map_audits reconcile.op_update_axioms)

lemma resolution_of_cases:
  "resolution_of s = Some st \<Longrightarrow> st = (if s = ''succeeded'' then Succeeded else Failed)"
  by (auto simp: resolution_of_def split: if_splits)

lemma resolveCodexQuotaReset_le: "ops_le d (snd (resolveCodexQuotaReset acct i resolution reason now d))"
proof (cases "resolution_of resolution")
  case (Some st)
  let ?d = "d\<lparr>operations := map (expire_op acct None now) (operations d)\<rparr>"
  have "ops_le ?d (?d\<lparr>operations := map (resolve_op acct i st (js_trim reason) now) (operations ?d), audits := x\<rparr>)" for x
    unfolding resolution_of_cases [OF Some] by (rule ops_le_map_audits) (rule resolve.op_update_axioms)
  note r = ops_le_trans [OF expire.ops_le_map this]
  show ?thesis
    using Some r
    by (auto simp: resolveCodexQuotaReset_def Let_def act_simps expirePendingReset_def update_ops_def
        split: option.splits if_splits intro!: txOn_ops_le)
qed (simp add: resolveCodexQuotaReset_def Let_def act_simps)

lemmas reset_le = savedResetOperation_le updateResetAfterDispatch_le reconcileBegin_le
  reconcileFinish_le resolveCodexQuotaReset_le inconclusive.ops_le_update ops_le_same

lemma reset_step_le: "reset_step s s' \<Longrightarrow> ops_le (rdb s) (rdb s')"
proof (induction rule: reset_step.induct)
  case (prepare acct key preflight upstream now s op d')
  then show ?case using prepareReset_ops_le [of "rdb s" acct key preflight upstream now] by simp
next
  case (prepare_done acct key preflight upstream now s r d')
  then show ?case using prepareReset_ops_le [of "rdb s" acct key preflight upstream now] by simp
qed (simp_all add: reset_le)

text \<open>The keys whose credit may have been or may yet be spent: each is recorded, and counted once.\<close>

definition claimed :: "reset_state \<Rightarrow> (uuid \<times> string) list" where
  "claimed s = map (\<lambda>op. (op_account op, op_key op)) (ready s) @ sent s"

definition reset_inv :: "reset_state \<Rightarrow> bool" where
  "reset_inv s \<longleftrightarrow> ops_inv (rdb s) \<and> distinct (claimed s) \<and> set (claimed s) \<subseteq> set (op_keys (rdb s))"

lemma claimed_mono:
  "reset_inv s \<Longrightarrow> ops_le (rdb s) d' \<Longrightarrow> reset_inv (s\<lparr>rdb := d'\<rparr>)"
  by (auto simp: reset_inv_def claimed_def ops_le_def)

lemma reset_inv_consume:
  assumes "reset_inv s" "op \<in> set (ready s)"
  shows "reset_inv (s\<lparr>ready := remove1 op (ready s), sent := (op_account op, op_key op) # sent s\<rparr>)"
proof -
  obtain xs ys where x: "ready s = xs @ op # ys" "op \<notin> set xs"
    using assms(2) by (auto dest: split_list_first)
  then have "remove1 op (ready s) = xs @ ys" by (simp add: remove1_append)
  with x assms(1) show ?thesis by (auto simp: reset_inv_def claimed_def)
qed

lemma reset_inv_crash: "reset_inv s \<Longrightarrow> reset_inv (s\<lparr>ready := remove1 op (ready s)\<rparr>)"
proof (cases "op \<in> set (ready s)")
  case True
  assume "reset_inv s"
  obtain xs ys where x: "ready s = xs @ op # ys" "op \<notin> set xs"
    using True by (auto dest: split_list_first)
  then have "remove1 op (ready s) = xs @ ys" by (simp add: remove1_append)
  with x \<open>reset_inv s\<close> show ?thesis by (auto simp: reset_inv_def claimed_def)
qed (simp add: remove1_idem)

lemma reset_inv_step: "reset_step s s' \<Longrightarrow> reset_inv s \<Longrightarrow> reset_inv s'"
proof (induction rule: reset_step.induct)
  case (prepare acct key preflight upstream now s op d')
  note p = prepareReset_True [OF prepare.hyps]
  have "ops_inv d'"
    using prepareReset_ops_le [of "rdb s" acct key preflight upstream now] prepare
    by (simp add: reset_inv_def ops_le_def)
  with p prepare.prems show ?case by (auto simp: reset_inv_def claimed_def)
next
  case (prepare_done acct key preflight upstream now s r d')
  then show ?case
    using prepareReset_ops_le [of "rdb s" acct key preflight upstream now] claimed_mono by simp
qed (simp_all add: claimed_mono reset_le reset_inv_consume reset_inv_crash)

abbreviation reset_run :: "reset_state \<Rightarrow> reset_state \<Rightarrow> bool" where
  "reset_run \<equiv> reset_step\<^sup>*\<^sup>*"

lemma reset_inv_run: "reset_run s s' \<Longrightarrow> reset_inv s \<Longrightarrow> reset_inv s'"
  by (induction rule: rtranclp_induct) (auto intro: reset_inv_step)

lemma reset_run_le: "reset_run s s' \<Longrightarrow> ops_le (rdb s) (rdb s')"
  by (induction rule: rtranclp_induct) (auto intro: reset_step_le ops_le_trans)

definition idle :: "db \<Rightarrow> reset_state" where
  "idle d = \<lparr>rdb = d, ready = [], sent = []\<rparr>"

lemma reset_inv_idle: "ops_inv d \<Longrightarrow> reset_inv (idle d)"
  by (simp add: reset_inv_def idle_def claimed_def)

lemma claimed_step:
  "reset_step s s' \<Longrightarrow> x \<in> set (claimed s') \<Longrightarrow> x \<in> set (claimed s) \<or> x \<notin> set (op_keys (rdb s))"
proof (induction rule: reset_step.induct)
  case (prepare acct key preflight upstream now s op d')
  with prepareReset_True [OF prepare.hyps] show ?case by (auto simp: claimed_def)
qed (auto simp: claimed_def dest: set_remove1_subset [THEN subsetD])

lemma claimed_new: "reset_run (idle d) s \<Longrightarrow> set (claimed s) \<inter> set (op_keys d) = {}"
proof (induction rule: rtranclp_induct)
  case (step s s')
  have le: "set (op_keys d) \<subseteq> set (op_keys (rdb s))"
    using reset_run_le [OF step.hyps(1)] by (simp add: ops_le_def idle_def)
  with step.IH claimed_step [OF step.hyps(2)] show ?case by blast
qed (simp add: idle_def claimed_def)

section \<open>The sequential handlers\<close>

lemma call_dispatch_apply [act_simps]:
  "call_dispatch dispatch acct kind input key (d, u) =
     (fst (dispatch acct kind input key (d, u)), (d, snd (dispatch acct kind input key (d, u))))"
  by (simp add: call_dispatch_def split_beta)

text \<open>Refreshing the cached quota, successful or not, leaves the operations alone.\<close>

lemma refresh_keeps_operations:
  "preserves (\<lambda>du. operations (fst du) = ops) (refreshCodexQuota dispatch date_parse acct now)"
proof -
  have d: "preserves (\<lambda>du. operations (fst du) = ops) (call_dispatch dispatch acct kind input key)" for kind input key
    by (auto simp: preserves_def call_dispatch_apply)
  have u: "preserves (\<lambda>d. operations d = ops) (upsert_pstate acct f)" for f
    by (auto simp: preserves_def upsert_pstate_def act_simps split: option.split)
  have a: "preserves (\<lambda>d. operations d = ops) (audit x y z w)" for x y z w
    by (auto simp: preserves_def act_simps)
  show ?thesis
    unfolding refreshCodexQuota_def
    by (intro preserves_intros d u a)
qed

definition expected_status :: "op_response res \<Rightarrow> op_status" where
  "expected_status ans =
     (case ans of
        Inr resp \<Rightarrow> if is_record (r_data resp) then Succeeded else Unknown
      | Inl e \<Rightarrow> if conclusiveResetFailure e then Failed else Unknown)"

definition stored_as :: "uuid \<Rightarrow> op_status \<Rightarrow> op_row res \<times> db \<times> 'u \<Rightarrow> bool" where
  "stored_as i st out \<longleftrightarrow>
     (\<exists>row d u. out = (Inr row, (d, u)) \<and> op_id row = i \<and> op_status row = st
        \<and> row \<in> set (operations d))"

lemma updateResetAfterDispatch_stored:
  assumes "find (\<lambda>r. op_id r = i \<and> op_status r = Pending) (operations d) = Some row"
  shows "\<exists>d'. txOn (updateResetAfterDispatch i st summary warning now) d
      = (Inr (finish_op i st summary warning now row), d')
    \<and> finish_op i st summary warning now row \<in> set (operations d')"
    and "op_id (finish_op i st summary warning now row) = i"
    and "op_status (finish_op i st summary warning now row) = st"
  using find_Some_set [OF assms] assms
  by (auto simp: txOn_Inr_iff updateResetAfterDispatch_def update_ops_def act_simps finish_op_def)

lemma objectData_cases:
  "objectData v ecode = (if is_record v then Inr v
     else Inl (ApiError 502 ecode ''Codex quota response contract changed''))"
  by (cases v) (simp_all add: objectData_def)

lemma postRefresh_result:
  obtains d' u' where "refreshAfterReset dispatch date_parse postRefresh acct now (d, u) = (Inr (), (d', u'))"
    and "operations d' = operations d"
proof -
  obtain r d2 u2 where m: "refreshCodexQuota dispatch date_parse acct now (d, u) = (r, (d2, u2))"
    by (metis prod.exhaust)
  have "operations d2 = operations d"
    using preservesD [OF refresh_keeps_operations _ m, of "operations d"] by simp
  with m that show thesis by (cases r; cases postRefresh) (simp_all add: refreshAfterReset_def act_defs)
qed

lemma finishReset_stored:
  assumes pend: "find (\<lambda>r. op_id r = op_id op \<and> op_status r = Pending) (operations d) = Some row"
    and ans: "dispatch acct Consume_reset_credit (JObj [(''redeem_request_id'', JStr (op_upstream op))])
                key (d, u) = (ans, u')"
  shows "stored_as (op_id op) (expected_status ans)
    (finishReset dispatch date_parse postRefresh acct op key now (d, u))"
proof (cases "\<exists>resp. ans = Inr resp \<and> is_record (r_data resp)")
  case True
  then obtain resp where r: "ans = Inr resp" "is_record (r_data resp)" by blast
  let ?sm = "[(''consumed'', JBool True), (''provider'', r_data resp)]"
  obtain d' where d': "txOn (updateResetAfterDispatch (op_id op) Succeeded ?sm (r_warning resp) now) d
      = (Inr (finish_op (op_id op) Succeeded ?sm (r_warning resp) now row), d')"
    "finish_op (op_id op) Succeeded ?sm (r_warning resp) now row \<in> set (operations d')"
    using updateResetAfterDispatch_stored(1) [OF pend] by blast
  obtain d2 u2 where pr: "refreshAfterReset dispatch date_parse postRefresh acct now (d', u') = (Inr (), (d2, u2))"
    "operations d2 = operations d'"
    by (rule postRefresh_result)
  have c: "call_dispatch dispatch acct Consume_reset_credit
      (JObj [(''redeem_request_id'', JStr (op_upstream op))]) key (d, u) = (Inr resp, (d, u'))"
    using ans r(1) by (simp add: call_dispatch_apply)
  have w: "on_db (txOn (updateResetAfterDispatch (op_id op) Succeeded ?sm (r_warning resp) now)) (d, u')
      = (Inr (finish_op (op_id op) Succeeded ?sm (r_warning resp) now row), (d', u'))"
    using d'(1) by (simp only: on_db_apply fst_conv snd_conv)
  have o: "objectData (r_data resp) ''provider_operation_invalid_response'' = Inr (r_data resp)"
    using r(2) by (simp add: objectData_cases)
  have "finishReset dispatch date_parse postRefresh acct op key now (d, u)
      = (Inr (finish_op (op_id op) Succeeded ?sm (r_warning resp) now row), (d2, u2))"
    unfolding finishReset_def catch_act_def then_act_def
    by (simp only: bind_act_def c o lift_res_apply w pr(1) return_act_apply prod.case sum.case)
  moreover have "expected_status ans = Succeeded" using r by (simp add: expected_status_def)
  ultimately show ?thesis
    unfolding stored_as_def using pr(2) d'(2) updateResetAfterDispatch_stored(2,3) [OF pend] by simp
next
  case False
  then obtain e where e: "(case ans of Inl e \<Rightarrow> Inl e
      | Inr resp \<Rightarrow> objectData (r_data resp) ''provider_operation_invalid_response'') = Inl e"
      "expected_status ans = (if conclusiveResetFailure e then Failed else Unknown)"
    by (cases ans) (auto simp: objectData_cases expected_status_def conclusiveResetFailure_def)
  let ?st = "if conclusiveResetFailure e then Failed else Unknown"
  have c: "call_dispatch dispatch acct Consume_reset_credit
      (JObj [(''redeem_request_id'', JStr (op_upstream op))]) key (d, u) = (ans, (d, u'))"
    using ans by (simp add: call_dispatch_apply)
  have fails: "bind_act (call_dispatch dispatch acct Consume_reset_credit
      (JObj [(''redeem_request_id'', JStr (op_upstream op))]) key) (\<lambda>consumed.
      bind_act (lift_res (objectData (r_data consumed) ''provider_operation_invalid_response'')) (k consumed))
      (d, u) = (Inl e, (d, u'))" for k :: "op_response \<Rightarrow> jv \<Rightarrow> (db \<times> 'a, op_row) act"
    using e(1) by (cases ans) (simp_all only: bind_act_def c lift_res_apply prod.case sum.case sum.inject)
  have body: "finishReset dispatch date_parse postRefresh acct op key now (d, u)
      = on_db (txOn (updateResetAfterDispatch (op_id op) ?st [(''error_code'', JStr (safeErrorCode e))]
          (Some (if ?st = Unknown then ''quota_reset_outcome_unknown'' else safeErrorCode e)) now)) (d, u')"
    unfolding finishReset_def catch_act_def Let_def by (simp only: fails prod.case sum.case)
  obtain row' d' where "txOn (updateResetAfterDispatch (op_id op) ?st [(''error_code'', JStr (safeErrorCode e))]
      (Some (if ?st = Unknown then ''quota_reset_outcome_unknown'' else safeErrorCode e)) now) d = (Inr row', d')"
    "row' \<in> set (operations d')" "op_id row' = op_id op" "op_status row' = ?st"
    using updateResetAfterDispatch_stored [OF pend] by blast
  then show ?thesis
    unfolding body e(2) on_db_apply stored_as_def by (simp only: fst_conv snd_conv) blast
qed

text \<open>A database with one Codex account, and the run that resets it.\<close>

definition codex_db :: db where
  "codex_db = empty_db\<lparr>providers := [sample_provider 1 ''openai-codex''],
                        accounts := [sample_account 2 1 ''main''], next_id := 3\<rparr>"

definition codex_op :: op_row where
  "codex_op = new_op 3 2 ''k1'' (JObj []) ''u1'' 0"

definition codex_run_end :: reset_state where
  "codex_run_end = \<lparr>rdb = started 2 ''k1'' (JObj []) ''u1'' 0 codex_db, ready = [], sent = [(2, ''k1'')]\<rparr>"

lemmas codex_eval = codex_db_def codex_op_def codex_run_end_def sample_provider_def sample_account_def
  empty_db_def ops_inv_def op_keys_def started_def new_op_def active_def

lemma codex_prepare:
  "txOn (prepareReset 2 ''k1'' (JObj []) ''u1'' 0) codex_db = (Inr (codex_op, True),
     started 2 ''k1'' (JObj []) ''u1'' 0 codex_db)"
proof -
  have "expired 2 0 codex_db = codex_db" by (simp add: expired_def codex_eval)
  moreover have "loadResetByKey 2 ''k1'' codex_db = None" "latest_active 2 codex_db = None"
    by (simp_all add: loadResetByKey_def latest_active_def codex_eval)
  moreover have "is_codex_account 2 codex_db"
    by (simp add: is_codex_account_def find_account_def find_provider_def codex_eval)
  ultimately show ?thesis
    unfolding txOn_Inr_iff prepareReset_apply Let_def by (simp add: codex_op_def codex_db_def)
qed

lemma codex_run: "reset_run (idle codex_db) codex_run_end"
proof -
  let ?s1 = "(idle codex_db)\<lparr>rdb := started 2 ''k1'' (JObj []) ''u1'' 0 codex_db, ready := [codex_op]\<rparr>"
  have "reset_step (idle codex_db) ?s1"
    using reset_step.prepare [of 2 "''k1''" "JObj []" "''u1''" 0 "idle codex_db"] codex_prepare
    by (simp add: idle_def)
  moreover have "reset_step ?s1 codex_run_end"
    using reset_step.consume [of codex_op ?s1]
    by (simp add: codex_run_end_def idle_def codex_op_def new_op_def)
  ultimately show ?thesis by auto
qed

section \<open>Properties\<close>

text \<open>C1: A reset credit is spent at most once per account and idempotency key: in every
  interleaving of handlers, crashes, reconciliations and resolutions, the \<open>consume_reset_credit\<close>
  calls made carry pairwise different (account, key) pairs, each recorded in the table before the
  call, and none of them repeats a pair recorded before the run.\<close>

theorem reset_spends_once:
  assumes "ops_inv d" and "reset_run (idle d) s"
  shows "distinct (sent s) \<and> set (sent s) \<subseteq> set (op_keys (rdb s)) - set (op_keys d)"
  using reset_inv_run [OF assms(2) reset_inv_idle [OF assms(1)]] claimed_new [OF assms(2)]
  by (auto simp: reset_inv_def claimed_def)

theorem reset_spends_once_witness:
  "distinct (sent codex_run_end) \<and> set (sent codex_run_end) \<subseteq> set (op_keys (rdb codex_run_end)) - set (op_keys codex_db)
   \<and> sent codex_run_end = [(2, ''k1'')]"
  using reset_spends_once [OF _ codex_run] by (simp add: codex_eval)

text \<open>C7: In every reachable state an account has at most one operation that is pending or unknown.\<close>

theorem reset_one_active:
  assumes "reset_run s s'" and "ops_inv (rdb s)"
    and "r1 \<in> set (operations (rdb s'))" "r2 \<in> set (operations (rdb s'))"
    and "active r1" "active r2" "op_account r1 = op_account r2"
  shows "r1 = r2"
proof -
  have "ops_inv (rdb s')" using reset_run_le [OF assms(1)] assms(2) by (simp add: ops_le_def)
  then have "distinct (map op_account (filter active (operations (rdb s'))))" by (simp add: ops_inv_def)
  from unique_key_eq [OF this, of r1 r2] assms show ?thesis by simp
qed

theorem reset_one_active_witness:
  "{r \<in> set (operations (rdb codex_run_end)). active r \<and> op_account r = 2} = {codex_op}"
proof -
  have "codex_op \<in> set (operations (rdb codex_run_end)) \<and> active codex_op \<and> op_account codex_op = 2"
    by (simp add: codex_eval)
  moreover have "ops_inv (rdb (idle codex_db))" by (simp add: codex_eval idle_def)
  ultimately show ?thesis using reset_one_active [OF codex_run] by force
qed



text \<open>Retrying a reset whose key is already recorded returns the recorded operation, marked
  unknown when its lease has run out, and makes no provider call at all: the external state is the
  one before.\<close>

theorem resetCodexQuota_replay:
  assumes "loadResetByKey acct key d = Some op" and "validateIdempotencyKey key = Inr ()"
  shows "\<exists>d'. resetCodexQuota dispatch date_parse postRefresh acct key True upstream t0 t1 t2 (d, u)
    = (Inr (expire_op acct (Some key) t0 op), (d', u))"
proof -
  let ?f = "expire_op acct (Some key) t0"
  let ?d = "d\<lparr>operations := map ?f (operations d)\<rparr>"
  have "loadResetByKey acct key ?d = map_option ?f (loadResetByKey acct key d)"
    by (simp add: loadResetByKey_def find_map expire.account_kept expire.key_kept)
  then have s: "on_db (savedResetOperation acct key t0) (d, u) = (Inr (Some (?f op)), (?d, u))"
    using assms(1) by (simp add: on_db_apply savedResetOperation_def expirePendingReset_def
        update_ops_def act_simps)
  have "resetCodexQuota dispatch date_parse postRefresh acct key True upstream t0 t1 t2 (d, u)
      = (Inr (?f op), (?d, u))"
    unfolding resetCodexQuota_def then_act_def guard_act_def
    by (simp only: bind_act_def assms(2) s lift_res_apply return_act_apply prod.case sum.case
        option.case if_True)
  then show ?thesis by blast
qed

theorem resetCodexQuota_replay_witness:
  "\<exists>d'. resetCodexQuota (\<lambda>_ _ _ _ _. (Inl ZodError, ())) (\<lambda>_. None) True 2 ''k1'' True ''u2'' 1 1 1
     (codex_db\<lparr>operations := [codex_op]\<rparr>, ()) = (Inr codex_op, (d', ()))"
  using resetCodexQuota_replay [of 2 "''k1''" "codex_db\<lparr>operations := [codex_op]\<rparr>" codex_op
      "\<lambda>_ _ _ _ _. (Inl ZodError, ())" "\<lambda>_. None" True "''u2''" 1 1 1 "()"]
  by (simp add: loadResetByKey_def validateIdempotencyKey_def code_def expire_op_def lease_ms_def codex_eval)

text \<open>The stored outcome of a dispatched reset: succeeded exactly when the provider answered
  with an object, failed exactly for the four conclusive refusals, unknown otherwise; the row is
  in the table whatever the refresh that follows does.\<close>

theorem finishReset_outcome:
  assumes "find (\<lambda>r. op_id r = op_id op \<and> op_status r = Pending) (operations d) = Some row"
    and "dispatch acct Consume_reset_credit (JObj [(''redeem_request_id'', JStr (op_upstream op))])
           key (d, u) = (ans, u')"
  shows "stored_as (op_id op) (expected_status ans)
    (finishReset dispatch date_parse postRefresh acct op key now (d, u))"
  using assms by (rule finishReset_stored)

theorem finishReset_outcome_witness:
  "stored_as 3 Failed (finishReset
     (\<lambda>_ _ _ _ _. (Inl (ApiError 409 ''codex_reset_credit_failed'' []), ())) (\<lambda>_. None) True 2
     codex_op ''k1'' 5 (codex_db\<lparr>operations := [codex_op]\<rparr>, ()))"
  using finishReset_outcome [of codex_op "codex_db\<lparr>operations := [codex_op]\<rparr>" codex_op
      "\<lambda>_ _ _ _ _. (Inl (ApiError 409 ''codex_reset_credit_failed'' []), ())" 2 "''k1''" "()"
      "Inl (ApiError 409 ''codex_reset_credit_failed'' [])" "()" "\<lambda>_. None" True 5]
  by (simp add: codex_eval expected_status_def conclusiveResetFailure_def)

text \<open>An available credit whose answer carries no expiry is refused, whatever its count.\<close>

theorem credit_without_expiry_refused:
  assumes "\<not> is_str (get_prop creds ''next_expires_at'')"
  shows "requireAvailableCredit date_parse creds now =
    Inl (ApiError 409 ''quota_reset_credit_unavailable'' ''No unexpired reset credit is available'')"
  using assms
  by (cases "get_prop creds ''next_expires_at''") (simp_all add: requireAvailableCredit_def is_finite_def)

theorem credit_without_expiry_refused_witness:
  "requireAvailableCredit (\<lambda>_. None) (JObj [(''available_count'', JNum (Fin 3))]) 0 =
    Inl (ApiError 409 ''quota_reset_credit_unavailable'' ''No unexpired reset credit is available'')"
  using credit_without_expiry_refused [of "JObj [(''available_count'', JNum (Fin 3))]" "\<lambda>_. None" 0]
  by simp

end
