(* ===== verification/Auth.thy ===== *)
theory Auth
  imports Store
begin

text \<open>
  Editions and licences (\<open>lib/edition.ts\<close>), dashboard sessions (\<open>lib/auth.ts\<close>), password
  hashes (\<open>lib/passwords.ts\<close>) and bearer tokens (\<open>lib/jwt.ts\<close>).  The cryptographic
  primitives and the base64/JSON codecs are fields of a parameter record.
\<close>

record crypto_api =
  sha256 :: "string \<Rightarrow> string"
  hmac_b64u :: "string \<Rightarrow> string \<Rightarrow> string"
  hmac_hex :: "string \<Rightarrow> string \<Rightarrow> string"
  scryptSync :: "string \<Rightarrow> string \<Rightarrow> nat \<Rightarrow> jsnum \<times> jsnum \<times> jsnum \<Rightarrow> string option"
  b64 :: "string \<Rightarrow> string"
  unb64 :: "string \<Rightarrow> string"
  b64u :: "string \<Rightarrow> string"
  unb64u :: "string \<Rightarrow> string"
  stringify :: "jv \<Rightarrow> string"
  parseJson :: "string \<Rightarrow> jv option"
  nfkc :: "string \<Rightarrow> string"
  ed25519_key :: "string \<Rightarrow> bool"
  ed25519_verify :: "string \<Rightarrow> string \<Rightarrow> string \<Rightarrow> bool"

section \<open>Licences and editions\<close>

datatype edition = Oss | Cloud | Ent

record resolved =
  rs_edition :: edition
  rs_features :: "string list"

definition KNOWN_FEATURES :: "string list" where
  "KNOWN_FEATURES = [''sso'', ''orgs'', ''audit_export'', ''secrets'', ''ipacl'', ''guardrails'',
     ''multiregion'', ''branding'', ''cc_gateway'']"

definition oss :: resolved where
  "oss = \<lparr>rs_edition = Oss, rs_features = []\<rparr>"

definition edition_of :: "string \<Rightarrow> edition option" where
  "edition_of p = (if p = ''ent'' then Some Ent else if p = ''cloud'' then Some Cloud else None)"

text \<open>The elements a \<open>for of\<close> loop visits; a number, boolean or plain object is not iterable.\<close>

definition iterate :: "jv \<Rightarrow> jv list res" where
  "iterate v = (case v of JArr xs \<Rightarrow> Inr xs | JStr s \<Rightarrow> Inr (map (\<lambda>c. JStr [c]) s)
                | _ \<Rightarrow> Inl (JsError ''TypeError''))"

fun check_features :: "jv list \<Rightarrow> string list res" where
  "check_features [] = Inr []"
| "check_features (f # fs) =
     (case f of
        JStr s \<Rightarrow> (if s \<in> set KNOWN_FEATURES
                   then (case check_features fs of Inl e \<Rightarrow> Inl e | Inr ss \<Rightarrow> Inr (s # ss))
                   else Inl (JsError (''unknown feature '' @ s)))
      | _ \<Rightarrow> Inl (JsError ''unknown feature''))"

definition licence_expired :: "jv \<Rightarrow> int \<Rightarrow> bool" where
  "licence_expired v unix \<longleftrightarrow> truthy v \<and> num_positive (to_number v)
     \<and> \<not> num_less (Fin (rat_of_int unix)) (to_number v)"

definition licence_early :: "jv \<Rightarrow> int \<Rightarrow> bool" where
  "licence_early v unix \<longleftrightarrow> truthy v \<and> num_positive (to_number v)
     \<and> num_less (Fin (rat_of_int unix)) (to_number v)"

text \<open>\<open><prefix>:<payload>.<signature>\<close>, split at the first colon and the last dot.\<close>

definition split_licence :: "string \<Rightarrow> (string \<times> string \<times> string) option" where
  "split_licence s =
     (case (index_of_char (CHR '':'') s, last_index_of_char (CHR ''.'') s) of
        (Some colon, Some dot) \<Rightarrow>
          if colon = 0 \<or> dot \<le> colon + 1 \<or> dot = length s - 1 then None
          else Some (take colon s, take (dot - (colon + 1)) (drop (colon + 1) s), drop (dot + 1) s)
      | _ \<Rightarrow> None)"

definition validateLicense :: "crypto_api \<Rightarrow> string \<Rightarrow> string \<Rightarrow> ms \<Rightarrow> resolved res" where
  "validateLicense api text pubkeyHex now =
     (case split_licence (js_trim text) of
        None \<Rightarrow> Inl (JsError ''bad license format'')
      | Some (pre, b64payload, b64sig) \<Rightarrow>
     (case edition_of pre of
        None \<Rightarrow> Inl (JsError ''bad license prefix'')
      | Some ed \<Rightarrow>
     if \<not> ed25519_key api pubkeyHex then Inl (JsError ''no trusted public key configured'')
     else if \<not> ed25519_verify api pubkeyHex (pre @ ''.'' @ b64payload) (unb64u api b64sig)
     then Inl (JsError ''bad license signature or payload'')
     else
     (case parseJson api (unb64u api b64payload) of
        None \<Rightarrow> Inl (JsError ''bad license signature or payload'')
      | Some payload \<Rightarrow>
     if nullish payload then Inl (JsError ''TypeError'')
     else if get_prop payload ''ed'' \<noteq> JStr pre then Inl (JsError ''edition mismatch'')
     else
     (case iterate (coalesce (get_prop payload ''f'') (JArr [])) of
        Inl e \<Rightarrow> Inl e
      | Inr fs \<Rightarrow>
     (case check_features fs of
        Inl e \<Rightarrow> Inl e
      | Inr features \<Rightarrow>
     if licence_expired (get_prop payload ''exp'') (now div 1000) then Inl (JsError ''license expired'')
     else if licence_early (get_prop payload ''nbf'') (now div 1000) then Inl (JsError ''license not valid yet'')
     else Inr \<lparr>rs_edition = ed, rs_features = remdups features\<rparr>)))))"

text \<open>The environment of one call: the override, the licence file (modification time and, when
  readable, its text), the trusted key, and the clock.  The cache is the state.\<close>

record host =
  h_edition :: string
  h_file :: "(int \<times> string option) option"
  h_pubkey :: string
  h_now :: ms

type_synonym licence_cache = "(int \<times> resolved) option"

definition load_licence :: "crypto_api \<Rightarrow> host \<Rightarrow> string option \<Rightarrow> resolved" where
  "load_licence api h text =
     (case text of
        None \<Rightarrow> oss
      | Some t \<Rightarrow> (case validateLicense api t (h_pubkey h) (h_now h) of Inl e \<Rightarrow> oss | Inr r \<Rightarrow> r))"

definition resolve :: "crypto_api \<Rightarrow> host \<Rightarrow> licence_cache \<Rightarrow> resolved \<times> licence_cache" where
  "resolve api h cache =
     (let envEdition = js_trim (toLowerCase (h_edition h))
      in if envEdition \<noteq> []
         then (case edition_of envEdition of
                 Some ed \<Rightarrow> (\<lparr>rs_edition = ed, rs_features = KNOWN_FEATURES\<rparr>, cache)
               | None \<Rightarrow> (oss, cache))
         else (case h_file h of
                 None \<Rightarrow> (oss, cache)
               | Some (mtime, text) \<Rightarrow>
                  (case cache of
                     Some (m, r) \<Rightarrow> if m = mtime then (r, cache)
                       else (load_licence api h text, Some (mtime, load_licence api h text))
                   | None \<Rightarrow> (load_licence api h text, Some (mtime, load_licence api h text)))))"

definition hasFeature :: "resolved \<Rightarrow> string \<Rightarrow> bool" where
  "hasFeature r f \<longleftrightarrow> f \<in> set (rs_features r)"

definition requireFeature :: "resolved \<Rightarrow> string \<Rightarrow> unit res" where
  "requireFeature r f =
     (if hasFeature r f then Inr ()
      else Inl (ApiError 403 ''feature_not_licensed'' 
        (''Feature '' @ [CHR 0x22] @ f @ [CHR 0x22]
         @ '' requires an enterprise license (see https://github.com/Rethinger/2papi)'')))"

definition requireHosted :: "resolved \<Rightarrow> unit res" where
  "requireHosted r =
     (if rs_edition r = Oss
      then Inl (ApiError 403 ''hosted_only'' 
        ''Self-serve accounts are available on 2papi Cloud (see https://github.com/Rethinger/2papi)'')
      else Inr ())"

section \<open>Sessions\<close>

definition session_ttl :: "jsnum \<Rightarrow> rat" where
  "session_ttl days = (case days of Fin x \<Rightarrow> if 0 < x then x else 7 | _ \<Rightarrow> 7)"

text \<open>The random token is an argument; the insert fails when its hash is taken.\<close>

definition createSession :: "crypto_api \<Rightarrow> string \<Rightarrow> uuid \<Rightarrow> jsnum \<Rightarrow> ms \<Rightarrow> (db, string \<times> ms) act" where
  "createSession api token user ttlDays now =
     (let expiresAt = now + \<lfloor>session_ttl ttlDays * 86400000\<rfloor>
      in bind_act (gets_act (\<lambda>d. list_ex (\<lambda>s. se_hash s = sha256 api token) (sessions d))) (\<lambda>taken.
         then_act (guard_act (\<not> taken) (DbError ''user_sessions_token_uq''))
         (then_act (modify_act (\<lambda>d. d\<lparr>sessions := sessions d @
            [\<lparr>se_user = user, se_hash = sha256 api token, se_expires = expiresAt\<rparr>]\<rparr>))
         (return_act (token, expiresAt)))))"

definition sessionCookie :: "bool \<Rightarrow> (ms \<Rightarrow> string) \<Rightarrow> string \<times> ms \<Rightarrow> string" where
  "sessionCookie production toUTCString session =
     js_join ''; '' ([''papi_session='' @ fst session, ''Path=/'', ''HttpOnly'', ''SameSite=Lax'',
       ''Expires='' @ toUTCString (snd session)] @ (if production then [''Secure''] else []))"

definition clearSessionCookie :: string where
  "clearSessionCookie = ''papi_session=; Path=/; HttpOnly; SameSite=Lax; Max-Age=0''"

text \<open>The expression \<open>(?:^|;\s*)papi_session=([^;]+)\<close> on a cookie header.\<close>

definition cookie_value_at :: "string \<Rightarrow> string option" where
  "cookie_value_at s =
     (if starts_with s ''papi_session='' \<and> takeWhile (\<lambda>c. c \<noteq> CHR '';'') (drop 13 s) \<noteq> []
      then Some (takeWhile (\<lambda>c. c \<noteq> CHR '';'') (drop 13 s)) else None)"

fun cookie_scan :: "bool \<Rightarrow> string \<Rightarrow> string option" where
  "cookie_scan after [] = None"
| "cookie_scan after (c # cs) =
     (case (if after then cookie_value_at (c # cs) else None) of
        Some v \<Rightarrow> Some v
      | None \<Rightarrow> cookie_scan (c = CHR '';'' \<or> (after \<and> is_space c)) cs)"

definition cookie_token :: "string option \<Rightarrow> string option" where
  "cookie_token header =
     (case header of None \<Rightarrow> None
      | Some s \<Rightarrow> (case cookie_value_at s of Some v \<Rightarrow> Some v | None \<Rightarrow> cookie_scan False s))"

definition live_user :: "crypto_api \<Rightarrow> string \<Rightarrow> ms \<Rightarrow> db \<Rightarrow> user_row option" where
  "live_user api token now d =
     (case find (\<lambda>s. se_hash s = sha256 api token \<and> now \<le> se_expires s
                     \<and> list_ex (\<lambda>u. u_id u = se_user s \<and> u_disabled u = None) (users d)) (sessions d) of
        None \<Rightarrow> None
      | Some s \<Rightarrow> find (\<lambda>u. u_id u = se_user s \<and> u_disabled u = None) (users d))"

definition resolveSession :: "crypto_api \<Rightarrow> string option \<Rightarrow> ms \<Rightarrow> (db, user_row option) act" where
  "resolveSession api token now =
     (case token of
        None \<Rightarrow> return_act None
      | Some t \<Rightarrow>
          if t = [] then return_act None
          else
            bind_act (gets_act (\<lambda>d. list_ex (\<lambda>s. se_expires s < now \<and> se_hash s = sha256 api t) (sessions d)))
            (\<lambda>swept.
             then_act (modify_act (\<lambda>d. d\<lparr>sessions :=
                delete_where (\<lambda>s. se_expires s < now \<and> se_hash s = sha256 api t) (sessions d)\<rparr>))
             (if swept then return_act None else gets_act (live_user api t now))))"

definition same_email :: "string \<Rightarrow> user_row \<Rightarrow> bool" where
  "same_email email u \<longleftrightarrow> toLowerCase (u_email u) = toLowerCase email"

definition findOrCreateOidcUser :: "string \<Rightarrow> string \<Rightarrow> ms \<Rightarrow> (db, user_row) act" where
  "findOrCreateOidcUser email random now =
     bind_act (gets_act (\<lambda>d. find (same_email email) (users d))) (\<lambda>existing.
     case existing of
       Some u \<Rightarrow>
         (if u_verified u = None
          then then_act (modify_act (\<lambda>d. d\<lparr>users := update_where (\<lambda>x. u_id x = u_id u)
                   (\<lambda>x. x\<lparr>u_verified := Some now\<rparr>) (users d)\<rparr>))
                (return_act (u\<lparr>u_verified := Some now\<rparr>))
          else return_act u)
     | None \<Rightarrow>
         bind_act fresh_id (\<lambda>i.
           let u = \<lparr>u_id = i, u_email = toLowerCase email, u_password = ''!oidc-'' @ random, u_role = ''user'',
                    u_verified = Some now, u_disabled = None\<rparr>
           in then_act (modify_act (\<lambda>d. d\<lparr>users := users d @ [u]\<rparr>)) (return_act u)))"

section \<open>Passwords\<close>

definition hashPassword :: "crypto_api \<Rightarrow> string \<Rightarrow> string \<Rightarrow> string res" where
  "hashPassword api salt password =
     (case scryptSync api (nfkc api password) salt 32 (Fin 16384, Fin 8, Fin 1) of
        None \<Rightarrow> Inl (JsError ''scrypt'')
      | Some h \<Rightarrow> Inr (js_join ''$'' [''scrypt'', show_nat 16384, show_nat 8, show_nat 1, b64 api salt, b64 api h]))"

definition verifyPassword :: "crypto_api \<Rightarrow> string \<Rightarrow> string \<Rightarrow> bool" where
  "verifyPassword api password stored =
     (if stored = [] \<or> starts_with stored ''!'' then False
      else case js_split (CHR ''$'') stored of
        [alg, nStr, rStr, pStr, saltB64, hashB64] \<Rightarrow>
          alg = ''scrypt'' \<and>
          (case scryptSync api (nfkc api password) (unb64 api saltB64) (length (unb64 api hashB64))
                  (js_number nStr, js_number rStr, js_number pStr) of
             None \<Rightarrow> False
           | Some actual \<Rightarrow> length actual = length (unb64 api hashB64) \<and> actual = unb64 api hashB64)
      | _ \<Rightarrow> False)"

section \<open>Bearer tokens\<close>

definition jwt_claims :: "string \<Rightarrow> string \<Rightarrow> int \<Rightarrow> int \<Rightarrow> jv" where
  "jwt_claims sub role iat ttl =
     JObj [(''sub'', JStr sub), (''role'', JStr role), (''aud'', JStr ''2papi-api''),
           (''iat'', JNum (Fin (rat_of_int iat))), (''exp'', JNum (Fin (rat_of_int (iat + max 1 ttl))))]"

definition jwt_header :: jv where
  "jwt_header = JObj [(''alg'', JStr ''HS256''), (''typ'', JStr ''JWT'')]"

definition signJwt :: "crypto_api \<Rightarrow> string \<Rightarrow> string \<Rightarrow> string \<Rightarrow> rat \<Rightarrow> ms \<Rightarrow> string" where
  "signJwt api sub role secret ttlSeconds now =
     (let input = b64u api (stringify api jwt_header) @ ''.''
            @ b64u api (stringify api (jwt_claims sub role (now div 1000) \<lfloor>ttlSeconds\<rfloor>))
      in input @ ''.'' @ hmac_b64u api secret input)"

text \<open>\<open>claims.exp + 30\<close>: addition on numbers, concatenation on text.\<close>

definition exp_limit :: "jv \<Rightarrow> jsnum" where
  "exp_limit v =
     (case v of JNum (Fin x) \<Rightarrow> Fin (x + 30) | JNum n \<Rightarrow> n | JStr s \<Rightarrow> js_number (s @ ''30'')
      | JBool b \<Rightarrow> Fin (if b then 31 else 30) | _ \<Rightarrow> NaN)"

definition reached :: "int \<Rightarrow> jsnum \<Rightarrow> bool" where
  "reached t n = (case n of Fin x \<Rightarrow> x \<le> rat_of_int t | NegInf \<Rightarrow> True | _ \<Rightarrow> False)"

definition claims_ok :: "jv \<Rightarrow> int \<Rightarrow> bool" where
  "claims_ok claims nowSec \<longleftrightarrow>
     truthy (get_prop claims ''exp'') \<and> \<not> reached nowSec (exp_limit (get_prop claims ''exp''))
     \<and> get_prop claims ''aud'' = JStr ''2papi-api''
     \<and> truthy (get_prop claims ''sub'') \<and> is_str (get_prop claims ''role'')"

definition verifyJwt :: "crypto_api \<Rightarrow> string \<Rightarrow> string \<Rightarrow> ms \<Rightarrow> jv option res" where
  "verifyJwt api token secret now =
     (case js_split (CHR ''.'') token of
        [headerB64, payloadB64, sigB64] \<Rightarrow>
          (case parseJson api (unb64u api headerB64) of
             None \<Rightarrow> Inr None
           | Some header \<Rightarrow>
               if nullish header then Inl (JsError ''TypeError'')
               else if get_prop header ''alg'' \<noteq> JStr ''HS256'' then Inr None
               else if sigB64 \<noteq> hmac_b64u api secret (headerB64 @ ''.'' @ payloadB64) then Inr None
               else (case parseJson api (unb64u api payloadB64) of
                       None \<Rightarrow> Inr None
                     | Some claims \<Rightarrow>
                         if nullish claims then Inl (JsError ''TypeError'')
                         else Inr (if claims_ok claims (now div 1000) then Some claims else None)))
      | _ \<Rightarrow> Inr None)"

text \<open>\<open>/^Bearer\s+/i\<close>, then \<open>trim\<close>.\<close>

definition bearerFrom :: "string option \<Rightarrow> string option" where
  "bearerFrom header =
     (case header of None \<Rightarrow> None
      | Some h \<Rightarrow>
          if toLowerCase (take 6 h) = ''bearer'' \<and> (case drop 6 h of c # _ \<Rightarrow> is_space c | [] \<Rightarrow> False)
          then (let v = js_trim (drop 6 h) in if v = [] then None else Some v)
          else None)"

section \<open>The operator gate\<close>

record request_auth =
  rq_authorization :: "string option"
  rq_cookie :: "string option"

datatype principal = LocalPrincipal | TokenPrincipal jv | UserPrincipal user_row

definition requireOperator ::
  "crypto_api \<Rightarrow> resolved \<Rightarrow> string \<Rightarrow> request_auth \<Rightarrow> ms \<Rightarrow> (db, principal) act" where
  "requireOperator api r masterKey req now =
     (if rs_edition r = Oss then return_act LocalPrincipal
      else case bearerFrom (rq_authorization req) of
        Some bearer \<Rightarrow>
          bind_act (lift_res (verifyJwt api bearer masterKey now)) (\<lambda>claims. case claims of
            None \<Rightarrow> throw (ApiError 401 ''operator_session_required'' ''Invalid or expired API token'')
          | Some c \<Rightarrow>
              (if get_prop c ''role'' \<noteq> JStr ''operator''
               then throw (ApiError 401 ''operator_session_required'' ''Invalid or expired API token'')
               else return_act (TokenPrincipal (get_prop c ''sub''))))
      | None \<Rightarrow>
          bind_act (resolveSession api (cookie_token (rq_cookie req)) now) (\<lambda>user. case user of
            None \<Rightarrow> throw (ApiError 401 ''operator_session_required'' ''Sign in as an operator to change configuration'')
          | Some u \<Rightarrow>
              (if u_role u \<noteq> ''operator''
               then throw (ApiError 403 ''operator_required'' ''Only operators can change configuration'')
               else return_act (UserPrincipal u))))"

section \<open>Licence lemmas\<close>

lemma index_of_char_Some: "index_of_char d s = Some i \<Longrightarrow> i < length s \<and> s ! i = d \<and> d \<notin> set (take i s)"
  by (induction s arbitrary: i) (auto split: if_splits)

lemma last_index_of_char_Some:
  "last_index_of_char d s = Some i \<Longrightarrow> i < length s \<and> s ! i = d \<and> d \<notin> set (drop (Suc i) s)"
proof (induction s arbitrary: i)
  case (Cons c s)
  then show ?case
    by (cases "last_index_of_char d s") (auto simp: last_index_of_char_None split: if_splits)
qed simp

lemma split_licence_Some:
  assumes "split_licence s = Some (pre, payload, sig)"
  shows "s = pre @ '':'' @ payload @ ''.'' @ sig" and "CHR '':'' \<notin> set pre" and "CHR ''.'' \<notin> set sig"
proof -
  obtain i j where ij: "index_of_char (CHR '':'') s = Some i" "last_index_of_char (CHR ''.'') s = Some j"
    "i + 1 < j" "pre = take i s" "payload = take (j - (i + 1)) (drop (i + 1) s)" "sig = drop (j + 1) s"
    using assms by (auto simp: split_licence_def split: option.splits if_splits)
  note i = index_of_char_Some [OF ij(1)] and j = last_index_of_char_Some [OF ij(2)]
  have "s = take i s @ s ! i # drop (Suc i) s" using i id_take_nth_drop by blast
  moreover have "drop (Suc i) s = payload @ drop j s"
    using ij(3) append_take_drop_id [of "j - (i + 1)" "drop (i + 1) s"] by (simp add: ij(5))
  moreover have "drop j s = s ! j # sig" using j Cons_nth_drop_Suc [of j s] by (simp add: ij(6))
  ultimately show "s = pre @ '':'' @ payload @ ''.'' @ sig" using i j ij(4) by simp
  show "CHR '':'' \<notin> set pre" "CHR ''.'' \<notin> set sig" using i j ij(4,6) by simp_all
qed

lemma check_features_known: "check_features fs = Inr ss \<Longrightarrow> set ss \<subseteq> set KNOWN_FEATURES \<and> map JStr ss = fs"
  by (induction fs arbitrary: ss) (auto split: jv.splits if_splits sum.splits)

section \<open>Properties\<close>

text \<open>C34: An accepted licence is genuine and in force: its text is \<open>prefix:payload.signature\<close>, the
  signature verifies over \<open>prefix.payload\<close> under the trusted key, the signed payload names the same
  edition as the prefix, only known features are unlocked, all of them listed in the payload, and the
  expiry and not-before times hold at the given moment.\<close>

theorem validateLicense_sound:
  assumes "validateLicense api text key now = Inr r"
  shows "\<exists>pre payload sig doc fs. js_trim text = pre @ '':'' @ payload @ ''.'' @ sig
    \<and> edition_of pre = Some (rs_edition r)
    \<and> ed25519_verify api key (pre @ ''.'' @ payload) (unb64u api sig)
    \<and> parseJson api (unb64u api payload) = Some doc \<and> get_prop doc ''ed'' = JStr pre
    \<and> iterate (coalesce (get_prop doc ''f'') (JArr [])) = Inr (map JStr fs)
    \<and> set (rs_features r) = set fs \<and> set fs \<subseteq> set KNOWN_FEATURES
    \<and> \<not> licence_expired (get_prop doc ''exp'') (now div 1000)
    \<and> \<not> licence_early (get_prop doc ''nbf'') (now div 1000)"
proof -
  obtain pre payload sig where sp: "split_licence (js_trim text) = Some (pre, payload, sig)"
    using assms by (auto simp: validateLicense_def split: option.splits)
  obtain ed where ed: "edition_of pre = Some ed"
    using assms sp by (auto simp: validateLicense_def split: option.splits)
  obtain doc where doc: "parseJson api (unb64u api payload) = Some doc"
    and ok: "ed25519_verify api key (pre @ ''.'' @ payload) (unb64u api sig)" "get_prop doc ''ed'' = JStr pre"
    using assms sp ed by (auto simp: validateLicense_def split: option.splits if_splits)
  obtain xs fs where fs: "iterate (coalesce (get_prop doc ''f'') (JArr [])) = Inr xs" "check_features xs = Inr fs"
    and rest: "\<not> licence_expired (get_prop doc ''exp'') (now div 1000)"
      "\<not> licence_early (get_prop doc ''nbf'') (now div 1000)"
      "r = \<lparr>rs_edition = ed, rs_features = remdups fs\<rparr>"
    using assms sp ed doc ok by (auto simp: validateLicense_def split: if_splits sum.splits)
  from check_features_known [OF fs(2)] fs(1)
  have "set fs \<subseteq> set KNOWN_FEATURES" "iterate (coalesce (get_prop doc ''f'') (JArr [])) = Inr (map JStr fs)"
    by simp_all
  with split_licence_Some(1) [OF sp] ed doc ok rest show ?thesis
    by (intro exI [of _ pre] exI [of _ payload] exI [of _ sig] exI [of _ doc] exI [of _ fs]) simp
qed

text \<open>An invertible text encoding without dollar signs, standing in for base64 in examples.\<close>

fun esc :: "string \<Rightarrow> string" where
  "esc [] = []"
| "esc (c # cs) = (if c = CHR ''$'' then ''%a'' else if c = CHR ''%'' then ''%b'' else [c]) @ esc cs"

fun unesc :: "string \<Rightarrow> string" where
  "unesc [] = []"
| "unesc [c] = [c]"
| "unesc (c # d # cs) =
     (if c = CHR ''%'' then (if d = CHR ''a'' then CHR ''$'' else CHR ''%'') # unesc cs else c # unesc (d # cs))"

lemma unesc_plain: "c \<noteq> CHR ''%'' \<Longrightarrow> unesc (c # cs) = c # unesc cs"
  by (cases cs) simp_all

lemma unesc_esc: "unesc (esc s) = s"
  by (induction s) (auto simp: unesc_plain)

lemma esc_no_dollar: "CHR ''$'' \<notin> set (esc s)"
  by (induction s) auto

definition demo_api :: crypto_api where
  "demo_api = \<lparr>sha256 = id, hmac_b64u = (\<lambda>_ _. ''m''), hmac_hex = (\<lambda>_ _. ''m''),
     scryptSync = (\<lambda>p salt n _. Some (take n (p @ salt @ replicate n (CHR ''x'')))), b64 = esc,
     unb64 = unesc, b64u = filter (\<lambda>c. c \<noteq> CHR ''.''), unb64u = id, stringify = (\<lambda>v. if v = jwt_header then ''h'' else ''c''),
     parseJson = (\<lambda>s. if s = ''h'' then Some jwt_header
       else if s = ''c'' then Some (jwt_claims ''u'' ''operator'' 0 60)
       else Some (JObj [(''ed'', JStr ''ent''), (''f'', JArr [JStr ''sso'']), (''exp'', JNum (Fin 100))])),
     nfkc = id, ed25519_key = (\<lambda>_. True), ed25519_verify = (\<lambda>_ _ _. True)\<rparr>"

lemmas licence_eval = validateLicense_def split_licence_def edition_of_def demo_api_def js_trim_def
  char_class_defs iterate_def coalesce_def KNOWN_FEATURES_def licence_expired_def licence_early_def
  num_positive_def num_less_def

lemma demo_licence: "validateLicense demo_api ''ent:p.s'' ''k'' 0 = Inr \<lparr>rs_edition = Ent, rs_features = [''sso'']\<rparr>"
  and demo_licence_expired: "validateLicense demo_api ''ent:p.s'' ''k'' 100000 = Inl (JsError ''license expired'')"
  by (simp_all add: licence_eval)

theorem validateLicense_sound_witness:
  "\<exists>pre payload sig doc fs. js_trim ''ent:p.s'' = pre @ '':'' @ payload @ ''.'' @ sig
    \<and> edition_of pre = Some Ent
    \<and> ed25519_verify demo_api ''k'' (pre @ ''.'' @ payload) (unb64u demo_api sig)
    \<and> parseJson demo_api (unb64u demo_api payload) = Some doc \<and> get_prop doc ''ed'' = JStr pre
    \<and> iterate (coalesce (get_prop doc ''f'') (JArr [])) = Inr (map JStr fs)
    \<and> {''sso''} = set fs \<and> set fs \<subseteq> set KNOWN_FEATURES
    \<and> \<not> licence_expired (get_prop doc ''exp'') (0 div 1000)
    \<and> \<not> licence_early (get_prop doc ''nbf'') (0 div 1000)"
  using validateLicense_sound [OF demo_licence]
  by (simp only: resolved.simps list.set)

text \<open>A licence that has expired keeps its edition and features for as long as its file is not
  touched: once resolved, later calls answer from the cache without looking at the clock.\<close>

theorem resolve_ignores_expiry:
  assumes "resolve api h None = (r, cache)" and "h_file h = Some (m, Some text)"
    and "js_trim (toLowerCase (h_edition h)) = []"
    and "validateLicense api text (h_pubkey h) later = Inl (JsError ''license expired'')"
  shows "resolve api (h\<lparr>h_now := later\<rparr>) cache = (r, cache)
    \<and> load_licence api (h\<lparr>h_now := later\<rparr>) (Some text) = oss"
  using assms by (auto simp: resolve_def Let_def load_licence_def)

theorem resolve_ignores_expiry_witness:
  "resolve demo_api \<lparr>h_edition = [], h_file = Some (1, Some ''ent:p.s''), h_pubkey = ''k'', h_now = 100000\<rparr>
     (Some (1, \<lparr>rs_edition = Ent, rs_features = [''sso'']\<rparr>))
   = (\<lparr>rs_edition = Ent, rs_features = [''sso'']\<rparr>, Some (1, \<lparr>rs_edition = Ent, rs_features = [''sso'']\<rparr>))"
  using resolve_ignores_expiry [of demo_api
      "\<lparr>h_edition = [], h_file = Some (1, Some ''ent:p.s''), h_pubkey = ''k'', h_now = 0\<rparr>"
      "\<lparr>rs_edition = Ent, rs_features = [''sso'']\<rparr>" "Some (1, \<lparr>rs_edition = Ent, rs_features = [''sso'']\<rparr>)"
      1 "''ent:p.s''" 100000]
  by (simp add: resolve_def Let_def load_licence_def demo_licence demo_licence_expired toLowerCase_def js_trim_def)

lemma split_three:
  assumes "CHR ''.'' \<notin> set a" "CHR ''.'' \<notin> set b" "CHR ''.'' \<notin> set c"
  shows "js_split (CHR ''.'') ((a @ ''.'' @ b) @ ''.'' @ c) = [a, b, c]"
  using assms by (simp add: js_split_append js_split_single)

text \<open>A signed token is accepted, with the claims it was made from, exactly until thirty seconds
  after its lifetime ends, given that the codecs invert and that base64url text has no dot.\<close>

theorem verifyJwt_signJwt:
  assumes codec: "\<And>v. v \<in> {jwt_header, jwt_claims sub role (now div 1000) \<lfloor>ttl\<rfloor>} \<Longrightarrow>
      parseJson api (unb64u api (b64u api (stringify api v))) = Some v"
    and nodot: "\<And>x. CHR ''.'' \<notin> set (b64u api x)" "\<And>k x. CHR ''.'' \<notin> set (hmac_b64u api k x)"
    and "sub \<noteq> []" and "0 \<le> now"
  shows "verifyJwt api (signJwt api sub role secret ttl now) secret later =
    Inr (if later div 1000 < now div 1000 + max 1 \<lfloor>ttl\<rfloor> + 30
         then Some (jwt_claims sub role (now div 1000) \<lfloor>ttl\<rfloor>) else None)"
proof -
  let ?c = "jwt_claims sub role (now div 1000) \<lfloor>ttl\<rfloor>"
  let ?e = "now div 1000 + max 1 \<lfloor>ttl\<rfloor>"
  have "0 < ?e" using assms(5) by (simp add: pos_imp_zdiv_nonneg_iff add_nonneg_pos)
  have lim: "rat_of_int a < rat_of_int b + 30 \<longleftrightarrow> a < b + 30" for a b
    using of_int_less_iff [of a "b + 30", where 'a = rat] by simp
  from \<open>0 < ?e\<close> have ok: "claims_ok ?c (later div 1000) \<longleftrightarrow> later div 1000 < ?e + 30"
    using assms(4)
    by (simp add: claims_ok_def jwt_claims_def exp_limit_def reached_def not_le lim del: of_int_add)
  have "verifyJwt api (signJwt api sub role secret ttl now) secret later
      = Inr (if claims_ok ?c (later div 1000) then Some ?c else None)"
    unfolding verifyJwt_def signJwt_def Let_def split_three [OF nodot(1) nodot(1) nodot(2)]
    by (simp add: codec) (simp add: jwt_header_def jwt_claims_def)
  with ok show ?thesis by simp
qed

theorem verifyJwt_signJwt_witness:
  "verifyJwt demo_api (signJwt demo_api ''u'' ''operator'' ''k'' 60 0) ''k'' 89000
     = Inr (Some (jwt_claims ''u'' ''operator'' 0 60))
   \<and> verifyJwt demo_api (signJwt demo_api ''u'' ''operator'' ''k'' 60 0) ''k'' 90000 = Inr None"
proof -
  have ne: "jwt_claims ''u'' ''operator'' 0 60 \<noteq> jwt_header" by (simp add: jwt_claims_def jwt_header_def)
  then have "v \<in> {jwt_header, jwt_claims ''u'' ''operator'' (0 div 1000) \<lfloor>60 :: rat\<rfloor>} \<Longrightarrow>
      parseJson demo_api (unb64u demo_api (b64u demo_api (stringify demo_api v))) = Some v" for v
    by (auto simp: demo_api_def)
  note v = verifyJwt_signJwt [of "''u''" "''operator''" 0 60 demo_api, OF this]
  show ?thesis using v [of "''k''" 89000] v [of "''k''" 90000] by (auto simp: demo_api_def)
qed

lemma verifyPassword_own:
  assumes "hashPassword api salt password = Inr stored"
    and "\<And>x. unb64 api (b64 api x) = x" and "\<And>x. CHR ''$'' \<notin> set (b64 api x)"
    and "\<And>p s l c h. scryptSync api p s l c = Some h \<Longrightarrow> length h = l"
  shows "verifyPassword api password stored"
proof -
  obtain h where h: "scryptSync api (nfkc api password) salt 32 (Fin 16384, Fin 8, Fin 1) = Some h"
    "stored = js_join ''$'' [''scrypt'', show_nat 16384, show_nat 8, show_nat 1, b64 api salt, b64 api h]"
    using assms(1) by (auto simp: hashPassword_def split: option.splits)
  have nd: "CHR ''$'' \<notin> set (show_nat n)" for n
    using show_nat_chars [of "CHR ''$''" n] by (auto simp: char_class_defs)
  have sp: "js_split (CHR ''$'') stored
      = [''scrypt'', show_nat 16384, show_nat 8, show_nat 1, b64 api salt, b64 api h]"
    unfolding h(2) by (rule js_split_join) (auto simp: nd assms(3))
  have "\<not> starts_with stored ''!''" and "stored \<noteq> []" by (simp_all add: h(2) starts_with_def)
  with sp h(1) show ?thesis
    by (simp add: verifyPassword_def assms(2) assms(4) [OF h(1)] js_number_show_nat)
qed

text \<open>A stored password hash verifies for the password it was made from, and a marker starting
  with an exclamation mark, as given to accounts without a password, verifies for none, whatever the
  hash function does.\<close>

theorem verifyPassword_hashPassword:
  assumes "hashPassword api salt password = Inr stored"
    and "\<And>x. unb64 api (b64 api x) = x" and "\<And>x. CHR ''$'' \<notin> set (b64 api x)"
    and "\<And>p s l c h. scryptSync api p s l c = Some h \<Longrightarrow> length h = l"
  shows "verifyPassword api password stored \<and> \<not> verifyPassword api other (CHR ''!'' # marker)"
proof
  show "verifyPassword api password stored" using assms by (rule verifyPassword_own)
  show "\<not> verifyPassword api other (CHR ''!'' # marker)" by (simp add: verifyPassword_def starts_with_def)
qed

lemma demo_api_password:
  "unb64 demo_api (b64 demo_api x) = x" "CHR ''$'' \<notin> set (b64 demo_api x)"
  "scryptSync demo_api p s l c = Some h \<Longrightarrow> length h = l"
  by (auto simp: demo_api_def unesc_esc esc_no_dollar)

definition demo_hash :: string where
  "demo_hash = (case hashPassword demo_api ''ab'' ''secret'' of Inr h \<Rightarrow> h | Inl _ \<Rightarrow> [])"

lemma demo_hash: "hashPassword demo_api ''ab'' ''secret'' = Inr demo_hash"
  by (simp add: demo_hash_def hashPassword_def demo_api_def)

theorem verifyPassword_hashPassword_witness:
  "verifyPassword demo_api ''secret'' demo_hash \<and> \<not> verifyPassword demo_api ''x'' ''!oidc''"
  by (rule verifyPassword_hashPassword [OF demo_hash demo_api_password(1,2)]) (rule demo_api_password(3))

section \<open>Sessions and the operator gate\<close>

definition live_session :: "crypto_api \<Rightarrow> string \<Rightarrow> ms \<Rightarrow> user_row \<Rightarrow> db \<Rightarrow> bool" where
  "live_session api token now u d \<longleftrightarrow>
     token \<noteq> [] \<and> u \<in> set (users d) \<and> u_disabled u = None
     \<and> (\<exists>s\<in>set (sessions d). se_hash s = sha256 api token \<and> now \<le> se_expires s \<and> se_user s = u_id u)"

lemma live_user_Some: "live_user api token now d = Some u \<Longrightarrow> token \<noteq> [] \<Longrightarrow> live_session api token now u d"
  unfolding live_user_def live_session_def
  by (auto split: option.splits dest!: find_Some_set)

lemma resolveSession_Some:
  assumes "resolveSession api tok now d = (Inr (Some u), d')"
  shows "\<exists>token. tok = Some token \<and> live_session api token now u d"
proof -
  obtain token where t: "tok = Some token" "token \<noteq> []"
    using assms by (auto simp: resolveSession_def act_simps split: option.splits if_splits)
  let ?old = "\<lambda>s. se_expires s < now \<and> se_hash s = sha256 api token"
  have n: "\<not> list_ex ?old (sessions d)"
    using assms t by (auto simp: resolveSession_def act_simps split: if_splits)
  then have "delete_where ?old (sessions d) = sessions d"
    by (auto simp: delete_where_def filter_id_conv list_ex_iff)
  with assms t n have "live_user api token now d = Some u"
    by (auto simp: resolveSession_def act_simps live_user_def)
  with t live_user_Some show ?thesis by blast
qed

lemma resolveSession_total: "\<exists>u d'. resolveSession api tok now d = (Inr u, d')"
  by (auto simp: resolveSession_def act_simps split: option.splits)

text \<open>On a hosted edition the operator gate lets a request through only with a bearer token whose
  signature verifies under the master key and whose claims are current and say operator, or, without a
  bearer token, with the cookie of a live session of an enabled user who is an operator.\<close>

theorem requireOperator_safe:
  assumes "requireOperator api r masterKey req now d = (Inr p, d')" and "rs_edition r \<noteq> Oss"
  shows "(\<exists>bearer c. bearerFrom (rq_authorization req) = Some bearer
            \<and> verifyJwt api bearer masterKey now = Inr (Some c) \<and> claims_ok c (now div 1000)
            \<and> get_prop c ''role'' = JStr ''operator'')
       \<or> (\<exists>token u. bearerFrom (rq_authorization req) = None \<and> cookie_token (rq_cookie req) = Some token
            \<and> live_session api token now u d \<and> u_role u = ''operator'' \<and> p = UserPrincipal u)"
proof (cases "bearerFrom (rq_authorization req)")
  case (Some bearer)
  with assms obtain c where c: "verifyJwt api bearer masterKey now = Inr (Some c)" "get_prop c ''role'' = JStr ''operator''"
    by (cases "verifyJwt api bearer masterKey now")
       (auto simp: requireOperator_def act_simps split: option.splits if_splits)
  then have "claims_ok c (now div 1000)"
    by (auto simp: verifyJwt_def split: list.splits option.splits if_splits)
  with Some c show ?thesis by blast
next
  case None
  obtain user d1 where s: "resolveSession api (cookie_token (rq_cookie req)) now d = (Inr user, d1)"
    using resolveSession_total by blast
  with None assms obtain u where "user = Some u" "u_role u = ''operator''" "p = UserPrincipal u"
    by (auto simp: requireOperator_def bind_act_def act_simps split: option.splits if_splits)
  with resolveSession_Some [of api _ now d u d1] s None show ?thesis by blast
qed

definition operator_db :: db where
  "operator_db = empty_db\<lparr>users := [\<lparr>u_id = 1, u_email = ''op@x'', u_password = ''!'', u_role = ''operator'',
     u_verified = Some 0, u_disabled = None\<rparr>], sessions := [\<lparr>se_user = 1, se_hash = ''tok'', se_expires = 10\<rparr>]\<rparr>"

theorem requireOperator_safe_witness:
  "\<exists>token u. cookie_token (Some ''a=b; papi_session=tok'') = Some token \<and> live_session demo_api token 5 u operator_db
     \<and> u_role u = ''operator''"
proof -
  have "\<exists>u d'. requireOperator demo_api \<lparr>rs_edition = Ent, rs_features = []\<rparr> ''k''
      \<lparr>rq_authorization = None, rq_cookie = Some ''a=b; papi_session=tok''\<rparr> 5 operator_db = (Inr (UserPrincipal u), d')"
    by (simp add: requireOperator_def bearerFrom_def cookie_token_def cookie_value_at_def starts_with_def
        resolveSession_def live_user_def operator_db_def empty_db_def demo_api_def act_defs char_class_defs)
  then show ?thesis using requireOperator_safe by (fastforce simp: bearerFrom_def)
qed

end
