(* ===== verification/Billing.thy ===== *)
theory Billing
  imports Auth Rate_Limit Request_Events
begin

text \<open>
  The hosted edition's accounts and money: sign-up, verification and login
  (\<open>lib/cloud-auth.ts\<close>), the payment webhook (\<open>lib/webhooks.ts\<close>), the operator's balance
  adjustment (\<open>billing/adjust\<close> in the control route) and the nightly reconciliation
  (\<open>lib/balance.ts\<close>).  The ledger \<open>credits\<close> is the source of truth; \<open>t_balance\<close> caches it.
  Handlers run on the database and the limiter's buckets.  A thrown error is the value \<open>Inl\<close>,
  which \<open>problem\<close> turns into the response.
\<close>

type_synonym cloud = "db \<times> buckets"

record cloud_env =
  ce_api :: crypto_api
  ce_res :: resolved
  ce_is_email :: "string \<Rightarrow> bool"
  ce_uuid :: "string \<Rightarrow> uuid option"
  ce_show :: "jsnum \<Rightarrow> string"
  ce_signup_limit :: jsnum
  ce_verify_limit :: jsnum
  ce_login_limit :: jsnum
  ce_token_hours :: rat
  ce_bonus :: rat
  ce_session_days :: jsnum
  ce_token_ttl :: jsnum
  ce_gateway_secret :: string
  ce_master_key :: string
  ce_paddle_secret :: string
  ce_checkout_url :: string

section \<open>Shared steps\<close>

definition limit_to :: "string \<Rightarrow> jsnum \<Rightarrow> string option \<Rightarrow> string \<Rightarrow> ms \<Rightarrow> (cloud, unit) act" where
  "limit_to name limit fwd msg now =
     (\<lambda>(d, bs). let (granted, bs') = rateLimit (name @ '':'' @ clientIp fwd) limit 3600000 now bs
                in (if granted then Inr () else Inl (ApiError 429 ''rate_limited'' msg), (d, bs')))"

definition json_body :: "jv option \<Rightarrow> jv res" where
  "json_body b = (case b of None \<Rightarrow> Inl (JsError ''SyntaxError'') | Some v \<Rightarrow> Inr v)"

text \<open>\<open>z.object(\<dots>)\<close> on an e-mail (trimmed, lowered) and a password within bounds.\<close>

definition parse_login :: "cloud_env \<Rightarrow> nat \<Rightarrow> jv \<Rightarrow> (string \<times> string) res" where
  "parse_login env minLen v =
     (case (get_prop v ''email'', get_prop v ''password'') of
        (JStr e, JStr pw) \<Rightarrow>
          let email = toLowerCase (js_trim e)
          in if ce_is_email env email \<and> minLen \<le> length pw \<and> length pw \<le> 200
             then Inr (email, pw) else Inl ZodError
      | _ \<Rightarrow> Inl ZodError)"

definition SignupSchema :: "cloud_env \<Rightarrow> jv \<Rightarrow> (string \<times> string) res" where
  "SignupSchema env = parse_login env 10"

definition LoginSchema :: "cloud_env \<Rightarrow> jv \<Rightarrow> (string \<times> string) res" where
  "LoginSchema env = parse_login env 1"

definition by_email :: "string \<Rightarrow> db \<Rightarrow> user_row option" where
  "by_email email d = find (\<lambda>u. toLowerCase (u_email u) = email) (users d)"

section \<open>Sign-up and verification\<close>

text \<open>The random token, salt and key text are arguments.\<close>

definition issueVerificationToken :: "cloud_env \<Rightarrow> string \<Rightarrow> uuid \<Rightarrow> ms \<Rightarrow> (db, string) act" where
  "issueVerificationToken env token user now =
     then_act (modify_act (\<lambda>d. d\<lparr>vtokens := delete_where (\<lambda>t. vt_user t = user) (vtokens d)\<rparr>))
     (then_act (modify_act (\<lambda>d. d\<lparr>vtokens := vtokens d @
        [\<lparr>vt_user = user, vt_hash = sha256 (ce_api env) token,
          vt_expires = now + \<lfloor>ce_token_hours env * 3600000\<rfloor>\<rparr>]\<rparr>))
     (return_act token))"

definition register :: "cloud_env \<Rightarrow> string \<Rightarrow> string \<Rightarrow> string \<times> string \<Rightarrow> ms \<Rightarrow> (db, unit) act" where
  "register env salt token body now =
     bind_act (gets_act (by_email (fst body))) (\<lambda>existing. case existing of
       Some u \<Rightarrow> return_act ()
     | None \<Rightarrow>
         bind_act (lift_res (hashPassword (ce_api env) salt (snd body))) (\<lambda>h.
         bind_act fresh_id (\<lambda>i.
         then_act (modify_act (\<lambda>d. d\<lparr>users := users d @
            [\<lparr>u_id = i, u_email = fst body, u_password = h, u_role = ''user'', u_verified = None, u_disabled = None\<rparr>]\<rparr>))
         (then_act (issueVerificationToken env token i now) (return_act ())))))"

definition signupCore ::
  "cloud_env \<Rightarrow> string \<Rightarrow> string \<Rightarrow> string option \<Rightarrow> jv option \<Rightarrow> ms \<Rightarrow> (cloud, unit) act" where
  "signupCore env salt token fwd body now =
     then_act (lift_res (requireHosted (ce_res env)))
     (then_act (limit_to ''signup'' (ce_signup_limit env) fwd ''Too many signup attempts. Try again later.'' now)
     (bind_act (lift_res (json_body body)) (\<lambda>v.
      bind_act (lift_res (SignupSchema env v)) (\<lambda>b.
      on_db (register env salt token b now)))))"

definition token_owner :: "cloud_env \<Rightarrow> string \<Rightarrow> ms \<Rightarrow> db \<Rightarrow> user_row option" where
  "token_owner env token now d =
     (case find (\<lambda>t. vt_hash t = sha256 (ce_api env) token \<and> now \<le> vt_expires t
                     \<and> list_ex (\<lambda>u. u_id u = vt_user t) (users d)) (vtokens d) of
        None \<Rightarrow> None
      | Some t \<Rightarrow> find (\<lambda>u. u_id u = vt_user t) (users d))"

definition insert_credit :: "credit_row \<Rightarrow> (db, unit) act" where
  "insert_credit c =
     bind_act (gets_act (\<lambda>d. ct_external c \<noteq> [] \<and>
        list_ex (\<lambda>x. ct_source x = ct_source c \<and> ct_external x = ct_external c) (credits d))) (\<lambda>dup.
     then_act (guard_act (\<not> dup) (DbError ''credit_tx_source_external_uq''))
     (bind_act (gets_act (\<lambda>d. list_ex (\<lambda>t. t_id t = ct_team c) (teams d))) (\<lambda>ok.
      then_act (guard_act ok (DbError ''credit_transactions_team_id_fkey''))
      (modify_act (\<lambda>d. d\<lparr>credits := credits d @ [c]\<rparr>)))))"

definition insert_team :: "string \<Rightarrow> rat \<Rightarrow> (db, uuid) act" where
  "insert_team name balance =
     bind_act (gets_act (\<lambda>d. list_ex (\<lambda>t. toLowerCase (t_name t) = toLowerCase name) (teams d))) (\<lambda>dup.
     then_act (guard_act (\<not> dup) (DbError ''teams_name_folded_uq''))
     (bind_act fresh_id (\<lambda>i.
      then_act (modify_act (\<lambda>d. d\<lparr>teams := teams d @
         [\<lparr>t_id = i, t_name = name, t_enabled = True, t_budget = 0, t_balance = numeric6 balance, t_org = None\<rparr>]\<rparr>))
      (return_act i))))"

definition insert_default_key :: "string \<Rightarrow> uuid \<Rightarrow> (db, unit) act" where
  "insert_default_key keyHash team =
     bind_act (gets_act (\<lambda>d. list_ex (\<lambda>k. k_name k = ''default'') (vkeys d))) (\<lambda>dup.
     then_act (guard_act (\<not> dup) (DbError ''virtual_keys_name_key''))
     (bind_act fresh_id (\<lambda>i.
      modify_act (\<lambda>d. d\<lparr>vkeys := vkeys d @
        [\<lparr>k_id = i, k_name = ''default'', k_hash = keyHash, k_prefix = ''sk-cp'', k_enabled = True,
          k_models = [], k_rpm = 60, k_tpm = 0, k_max_concurrency = 0, k_budget = 0, k_duration = ''day'',
          k_team = Some team\<rparr>]\<rparr>))))"

text \<open>The transaction of a first verification: mark the user, drop the token, create the personal
  team with the bonus, its owner, the ledger entry and the first key.\<close>

definition provision :: "cloud_env \<Rightarrow> string \<Rightarrow> user_row \<Rightarrow> ms \<Rightarrow> (db, unit) act" where
  "provision env plaintext u now =
     then_act (modify_act (\<lambda>d. d\<lparr>users := update_where (\<lambda>x. u_id x = u_id u) (\<lambda>x. x\<lparr>u_verified := Some now\<rparr>) (users d),
                                 vtokens := delete_where (\<lambda>t. vt_user t = u_id u) (vtokens d)\<rparr>))
     (bind_act (insert_team (u_email u) (ce_bonus env)) (\<lambda>team.
      then_act (modify_act (\<lambda>d. d\<lparr>members := members d @ [\<lparr>tm_team = team, tm_user = u_id u, tm_role = ''owner''\<rparr>]\<rparr>))
      (then_act (if 0 < ce_bonus env
                 then insert_credit \<lparr>ct_team = team, ct_delta = numeric6 (ce_bonus env), ct_kind = ''bonus'',
                        ct_source = ''signup_bonus'', ct_external = show_nat (u_id u)\<rparr>
                 else return_act ())
      (insert_default_key (hmac_hex (ce_api env) (ce_gateway_secret env) plaintext) team))))"

definition verify_user :: "cloud_env \<Rightarrow> string \<Rightarrow> string \<Rightarrow> ms \<Rightarrow> (db, bool) act" where
  "verify_user env plaintext token now =
     bind_act (gets_act (token_owner env token now)) (\<lambda>row. case row of
       None \<Rightarrow> throw (ApiError 400 ''invalid_verification_token'' ''Verification link is invalid or expired'')
     | Some u \<Rightarrow>
         (if u_verified u \<noteq> None
          then then_act (modify_act (\<lambda>d. d\<lparr>vtokens := delete_where (\<lambda>t. vt_user t = u_id u) (vtokens d)\<rparr>))
                 (return_act True)
          else then_act (txOn (provision env plaintext u now)) (return_act False)))"

definition verifyCore ::
  "cloud_env \<Rightarrow> string \<Rightarrow> string option \<Rightarrow> jv option \<Rightarrow> ms \<Rightarrow> (cloud, bool) act" where
  "verifyCore env plaintext fwd body now =
     then_act (lift_res (requireHosted (ce_res env)))
     (then_act (limit_to ''verify'' (ce_verify_limit env) fwd ''Too many verification attempts. Try again later.'' now)
     (bind_act (lift_res (json_body body)) (\<lambda>v.
      bind_act (lift_res (case get_prop v ''token'' of
          JStr t \<Rightarrow> if 16 \<le> length t \<and> length t \<le> 200 then Inr t else Inl ZodError
        | _ \<Rightarrow> Inl ZodError)) (\<lambda>token.
      on_db (verify_user env plaintext token now)))))"

section \<open>Login and the signed-in tenant\<close>

definition login_user :: "cloud_env \<Rightarrow> string \<Rightarrow> string \<times> string \<Rightarrow> ms \<Rightarrow> (db, string \<times> string \<times> ms) act" where
  "login_user env token b now =
     bind_act (gets_act (by_email (fst b))) (\<lambda>user. case user of
       None \<Rightarrow> throw (ApiError 401 ''invalid_credentials'' ''Invalid email or password'')
     | Some u \<Rightarrow>
         then_act (guard_act (verifyPassword (ce_api env) (snd b) (u_password u))
            (ApiError 401 ''invalid_credentials'' ''Invalid email or password''))
         (then_act (guard_act (u_disabled u = None) (ApiError 403 ''account_disabled'' ''This account has been suspended''))
         (then_act (guard_act (u_verified u \<noteq> None) (ApiError 403 ''email_unverified'' ''Verify your email before signing in''))
         (bind_act (createSession (ce_api env) token (u_id u) (ce_session_days env) now) (\<lambda>s.
          return_act (u_role u, s))))))"

definition loginCore ::
  "cloud_env \<Rightarrow> string \<Rightarrow> string option \<Rightarrow> jv option \<Rightarrow> ms \<Rightarrow> (cloud, string \<times> string \<times> ms) act" where
  "loginCore env token fwd body now =
     then_act (lift_res (requireHosted (ce_res env)))
     (then_act (limit_to ''login'' (ce_login_limit env) fwd ''Too many login attempts. Try again later.'' now)
     (bind_act (lift_res (json_body body)) (\<lambda>v.
      bind_act (lift_res (LoginSchema env v)) (\<lambda>b.
      on_db (login_user env token b now)))))"

definition signed_in :: "cloud_env \<Rightarrow> string option \<Rightarrow> ms \<Rightarrow> (db, user_row) act" where
  "signed_in env cookie now =
     then_act (lift_res (requireHosted (ce_res env)))
     (bind_act (resolveSession (ce_api env) (cookie_token cookie) now) (\<lambda>user. case user of
        None \<Rightarrow> throw (ApiError 401 ''unauthorized'' ''Not signed in'') | Some u \<Rightarrow> return_act u))"

definition own_team :: "uuid \<Rightarrow> db \<Rightarrow> team_row option" where
  "own_team user d =
     find (\<lambda>t. list_ex (\<lambda>m. tm_team m = t_id t \<and> tm_user m = user) (members d)) (teams d)"

record billing_view =
  bv_team :: "(uuid \<times> string) option"
  bv_balance :: rat
  bv_transactions :: "credit_row list"
  bv_keys :: "(string \<times> string \<times> bool) list"
  bv_checkout :: string

definition billing_data :: "cloud_env \<Rightarrow> uuid \<Rightarrow> db \<Rightarrow> billing_view" where
  "billing_data env user d =
     (case own_team user d of
        None \<Rightarrow> \<lparr>bv_team = None, bv_balance = 0, bv_transactions = [], bv_keys = [], bv_checkout = []\<rparr>
      | Some t \<Rightarrow> \<lparr>bv_team = Some (t_id t, t_name t), bv_balance = t_balance t,
           bv_transactions = take 50 (rev (filter (\<lambda>c. ct_team c = t_id t) (credits d))),
           bv_keys = map (\<lambda>k. (k_name k, k_prefix k, k_enabled k))
             (filter (\<lambda>k. k_team k = Some (t_id t) \<and> k_enabled k) (vkeys d)),
           bv_checkout = ce_checkout_url env\<rparr>)"

definition billingCore :: "cloud_env \<Rightarrow> string option \<Rightarrow> ms \<Rightarrow> (db, billing_view) act" where
  "billingCore env cookie now =
     bind_act (signed_in env cookie now) (\<lambda>u. gets_act (billing_data env (u_id u)))"

definition logoutCore :: "cloud_env \<Rightarrow> string option \<Rightarrow> (db, string) act" where
  "logoutCore env cookie =
     then_act (lift_res (requireHosted (ce_res env)))
     (then_act (case cookie_token cookie of
         None \<Rightarrow> return_act ()
       | Some t \<Rightarrow> modify_act (\<lambda>d. d\<lparr>sessions := delete_where (\<lambda>s. se_hash s = sha256 (ce_api env) t) (sessions d)\<rparr>))
     (return_act clearSessionCookie))"

definition token_ttl :: "jsnum \<Rightarrow> rat" where
  "token_ttl n = (case n of Fin x \<Rightarrow> if 0 < x then x else 3600 | _ \<Rightarrow> 3600)"

definition tokenCore :: "cloud_env \<Rightarrow> string option \<Rightarrow> ms \<Rightarrow> (db, string \<times> rat) act" where
  "tokenCore env cookie now =
     bind_act (signed_in env cookie now) (\<lambda>u.
     then_act (guard_act (u_role u = ''operator'') (ApiError 403 ''operator_required'' ''Only operators can mint API tokens''))
     (return_act (signJwt (ce_api env) (show_nat (u_id u)) ''operator'' (ce_master_key env)
                    (token_ttl (ce_token_ttl env)) now, token_ttl (ce_token_ttl env))))"

definition meCore :: "cloud_env \<Rightarrow> string option \<Rightarrow> ms \<Rightarrow> (db, user_row \<times> team_row option) act" where
  "meCore env cookie now =
     bind_act (signed_in env cookie now) (\<lambda>u. bind_act (gets_act (own_team (u_id u))) (\<lambda>t. return_act (u, t)))"

section \<open>Payments\<close>

text \<open>\<open>Object.fromEntries\<close> of the \<open>key=value\<close> parts of the signature header: later parts win, a part
  without an equals sign has the value \<open>undefined\<close>.\<close>

definition signature_part :: "string \<Rightarrow> string \<Rightarrow> jv" where
  "signature_part header key =
     (case find (\<lambda>kv. hd (js_split (CHR ''='') kv) = key) (rev (js_split (CHR '';'') header)) of
        None \<Rightarrow> JUndef
      | Some kv \<Rightarrow> (case js_split (CHR ''='') kv of _ # v # _ \<Rightarrow> JStr v | _ \<Rightarrow> JUndef))"

definition verifySignature :: "cloud_env \<Rightarrow> string \<Rightarrow> string option \<Rightarrow> ms \<Rightarrow> bool" where
  "verifySignature env rawBody header now =
     (case header of
        None \<Rightarrow> False
      | Some h \<Rightarrow>
          h \<noteq> [] \<and>
          (case to_number (signature_part h ''ts'') of
             Fin ts \<Rightarrow> truthy (signature_part h ''h1'')
               \<and> \<bar>rat_of_int now / 1000 - ts\<bar> \<le> 300
               \<and> signature_part h ''h1'' =
                   JStr (hmac_hex (ce_api env) (ce_paddle_secret env) (ce_show env (Fin ts) @ '':'' @ rawBody))
           | _ \<Rightarrow> False))"

record paddle_event =
  pe_type :: string
  pe_id :: string
  pe_status :: "string option"
  pe_currency :: "string option"
  pe_total :: string
  pe_team :: "uuid option"

definition opt_text :: "jv \<Rightarrow> string option res" where
  "opt_text v = (case v of JUndef \<Rightarrow> Inr None | JStr s \<Rightarrow> Inr (Some s) | _ \<Rightarrow> Inl ZodError)"

definition team_ref :: "cloud_env \<Rightarrow> jv \<Rightarrow> uuid option res" where
  "team_ref env v =
     (case v of
        JUndef \<Rightarrow> Inr None
      | JObj ps \<Rightarrow> (case get_prop v ''team_id'' of
                      JStr s \<Rightarrow> (case ce_uuid env s of Some i \<Rightarrow> Inr (Some i) | None \<Rightarrow> Inl ZodError)
                    | _ \<Rightarrow> Inl ZodError)
      | _ \<Rightarrow> Inl ZodError)"

definition EventSchema :: "cloud_env \<Rightarrow> jv \<Rightarrow> paddle_event res" where
  "EventSchema env v =
     (let data = get_prop v ''data''
      in case (get_prop v ''event_type'', get_prop data ''id'', get_prop data ''total'') of
           (JStr ty, JStr i, JStr tot) \<Rightarrow>
             (case (opt_text (get_prop data ''status''), opt_text (get_prop data ''currency_code''),
                    team_ref env (get_prop data ''custom_data'')) of
                (Inr st, Inr cur, Inr team) \<Rightarrow>
                  if i = [] then Inl ZodError
                  else Inr \<lparr>pe_type = ty, pe_id = i, pe_status = st, pe_currency = cur, pe_total = tot, pe_team = team\<rparr>
              | _ \<Rightarrow> Inl ZodError)
         | _ \<Rightarrow> Inl ZodError)"

definition add_balance :: "uuid \<Rightarrow> rat \<Rightarrow> db \<Rightarrow> db" where
  "add_balance team delta d =
     d\<lparr>teams := update_where (\<lambda>t. t_id t = team) (\<lambda>t. t\<lparr>t_balance := t_balance t + numeric6 delta\<rparr>) (teams d)\<rparr>"

text \<open>\<open>INSERT \<dots> ON CONFLICT (source, external_id) WHERE external_id <> '' DO NOTHING\<close>, then the balance and
  the audit entry when a row was inserted.\<close>

definition topup :: "uuid \<Rightarrow> rat \<Rightarrow> string \<Rightarrow> (db, bool) act" where
  "topup team delta external =
     bind_act (gets_act (\<lambda>d. external \<noteq> [] \<and>
        list_ex (\<lambda>x. ct_source x = ''paddle'' \<and> ct_external x = external) (credits d))) (\<lambda>dup.
     if dup then return_act False
     else
       then_act (insert_credit \<lparr>ct_team = team, ct_delta = numeric6 delta, ct_kind = ''topup'', ct_source = ''paddle'',
                    ct_external = external\<rparr>)
       (then_act (modify_act (add_balance team delta))
       (then_act (audit ''topup'' ''team'' (Some (show_nat team))
          (JObj [(''source'', JStr ''paddle''), (''external_id'', JStr external), (''delta_usd'', JNum (Fin delta))]))
       (return_act True))))"

datatype webhook_answer = Ignored string | Credited bool rat

definition payable :: "paddle_event \<Rightarrow> (uuid \<times> rat) res" where
  "payable e =
     (if pe_currency e \<noteq> Some ''USD''
      then Inl (ApiError 422 ''unsupported_currency'' ''Only USD checkouts are supported in this phase'')
      else if (case pe_status e of None \<Rightarrow> False | Some s \<Rightarrow> s \<noteq> [] \<and> s \<noteq> ''completed'' \<and> s \<noteq> ''paid'')
      then Inl (ApiError 422 ''transaction_not_paid'' (''Transaction status '' @ the (pe_status e) @ '' is not payable''))
      else case pe_team e of
        None \<Rightarrow> Inl (ApiError 422 ''missing_team_reference'' ''Checkout is missing custom_data.team_id'')
      | Some team \<Rightarrow>
          (case js_number (pe_total e) of
             Fin x \<Rightarrow> if 0 < x then Inr (team, x / 100)
                      else Inl (ApiError 422 ''invalid_amount'' (''Total '' @ pe_total e @ '' is not a positive amount''))
           | PosInf \<Rightarrow> Inl (DbError ''numeric field overflow'')
           | _ \<Rightarrow> Inl (ApiError 422 ''invalid_amount'' (''Total '' @ pe_total e @ '' is not a positive amount''))))"

definition paddleWebhookCore ::
  "cloud_env \<Rightarrow> string \<Rightarrow> string option \<Rightarrow> ms \<Rightarrow> (db, webhook_answer) act" where
  "paddleWebhookCore env rawBody header now =
     then_act (lift_res (requireHosted (ce_res env)))
     (then_act (guard_act (ce_paddle_secret env \<noteq> [])
        (ApiError 503 ''webhook_not_configured'' ''PADDLE_WEBHOOK_SECRET is not set''))
     (then_act (guard_act (verifySignature env rawBody header now)
        (ApiError 401 ''invalid_signature'' ''Webhook signature verification failed''))
     (bind_act (lift_res (json_body (parseJson (ce_api env) rawBody))) (\<lambda>v.
      bind_act (lift_res (EventSchema env v)) (\<lambda>e.
      if pe_type e \<noteq> ''transaction.completed'' then return_act (Ignored (pe_type e))
      else
        bind_act (lift_res (payable e)) (\<lambda>(team, delta).
        bind_act (txOn (topup team delta (pe_id e))) (\<lambda>credited. return_act (Credited credited delta))))))))"

text \<open>\<open>billing/adjust\<close> of the control route, after the schema checks of its three fields.\<close>

definition billingAdjust :: "uuid \<Rightarrow> rat \<Rightarrow> string \<Rightarrow> (db, rat) act" where
  "billingAdjust teamId delta reason =
     txOn
      (then_act (guard_act (length reason \<le> 300) ZodError)
      (then_act (guard_act (\<not> \<bar>delta\<bar> < 1 / 10 ^ 9 \<and> \<not> \<bar>delta\<bar> > 10000)
         (ApiError 422 ''invalid_amount'' ''delta_usd must be a non-zero amount within 10 000''))
      (bind_act (gets_act (\<lambda>d. find (\<lambda>t. t_id t = teamId) (teams d))) (\<lambda>team. case team of
         None \<Rightarrow> throw (ApiError 404 ''not_found'' ''Team not found'')
       | Some t \<Rightarrow>
           then_act (insert_credit \<lparr>ct_team = teamId, ct_delta = numeric6 delta, ct_kind = ''adjustment'',
              ct_source = ''manual'', ct_external = []\<rparr>)
           (then_act (modify_act (add_balance teamId delta))
           (then_act (audit ''adjustment'' ''team'' (Some (show_nat teamId))
              (JObj [(''delta_usd'', JNum (Fin delta)), (''note'', JStr reason)]))
           (return_act (t_balance t + delta))))))))"

section \<open>Reconciliation\<close>

definition ledger_sum :: "uuid \<Rightarrow> db \<Rightarrow> rat" where
  "ledger_sum team d = sum_list (map ct_delta (filter (\<lambda>c. ct_team c = team) (credits d)))"

definition team_spend :: "uuid \<Rightarrow> db \<Rightarrow> rat" where
  "team_spend team d = sum_list (map e_cost (team_rows d team (events d)))"

definition computed_balance :: "db \<Rightarrow> uuid \<Rightarrow> rat" where
  "computed_balance d team = ledger_sum team d - team_spend team d"

fun reconcile_loop :: "(uuid \<times> rat \<times> rat) list \<Rightarrow> nat \<Rightarrow> nat \<Rightarrow> (db, nat \<times> nat) act" where
  "reconcile_loop [] updated drifted = return_act (updated, drifted)"
| "reconcile_loop ((i, computed, live) # rows) updated drifted =
     then_act (modify_act (\<lambda>d. d\<lparr>teams := update_where (\<lambda>t. t_id t = i)
                 (\<lambda>t. t\<lparr>t_balance := max computed 0\<rparr>) (teams d)\<rparr>))
       (reconcile_loop rows (updated + 1)
          (if \<bar>computed - live\<bar> > 1 / 10 ^ 6 then drifted + 1 else drifted))"

definition reconcileTeamBalances :: "(db, nat \<times> nat) act" where
  "reconcileTeamBalances =
     txOn (bind_act (gets_act (\<lambda>d. map (\<lambda>t. (t_id t, computed_balance d (t_id t), t_balance t)) (teams d)))
       (\<lambda>rows. reconcile_loop rows 0 0))"

section \<open>The ledger contract\<close>

definition balance_of :: "uuid \<Rightarrow> db \<Rightarrow> rat" where
  "balance_of i d = (case find (\<lambda>t. t_id t = i) (teams d) of None \<Rightarrow> 0 | Some t \<Rightarrow> t_balance t)"

definition credit_key :: "credit_row \<Rightarrow> string \<times> string" where
  "credit_key c = (ct_source c, ct_external c)"

definition ledger_inv :: "db \<Rightarrow> bool" where
  "ledger_inv d \<longleftrightarrow> distinct (map t_id (teams d)) \<and> list_all (\<lambda>t. t_id t < next_id d) (teams d)
     \<and> list_all (\<lambda>c. ct_team c \<in> t_id ` set (teams d)) (credits d)
     \<and> distinct (map credit_key (filter (\<lambda>c. ct_external c \<noteq> []) (credits d)))"

text \<open>
  What every operation that writes the ledger promises when it succeeds: entries are only added, no
  external payment is entered twice, and each team's cached balance moves by exactly what its
  ledger does.
\<close>

locale ledger_op =
  fixes m :: "(db, 'a) act"
  assumes inv_kept: "m d = (Inr x, d') \<Longrightarrow> ledger_inv d \<Longrightarrow> ledger_inv d'"
    and moves: "m d = (Inr x, d') \<Longrightarrow> ledger_inv d \<Longrightarrow>
      balance_of i d' - balance_of i d = ledger_sum i d' - ledger_sum i d"
    and appends: "m d = (Inr x, d') \<Longrightarrow> ledger_inv d \<Longrightarrow> prefix (credits d) (credits d')"
begin

lemma drift_kept:
  "m d = (Inr x, d') \<Longrightarrow> ledger_inv d \<Longrightarrow> balance_of i d' - ledger_sum i d' = balance_of i d - ledger_sum i d"
  using moves [of d x d' i] by (simp add: algebra_simps)

lemma entries_kept: "m d = (Inr x, d') \<Longrightarrow> ledger_inv d \<Longrightarrow> c \<in> set (credits d) \<Longrightarrow> c \<in> set (credits d')"
  using appends set_mono_prefix by blast

end

lemma ledger_op_tx: "ledger_op m \<Longrightarrow> ledger_op (txOn m)"
  unfolding ledger_op_def txOn_Inr_iff .

lemma ledger_op_then:
  assumes "ledger_op m" "ledger_op n"
  shows "ledger_op (then_act m n)"
proof
  fix d x d' i assume r: "then_act m n d = (Inr x, d')" and inv: "ledger_inv d"
  obtain y e where m: "m d = (Inr y, e)" and n: "n e = (Inr x, d')" using r by (rule then_act_InrE)
  note mi = assms(1) [THEN ledger_op.inv_kept] assms(1) [THEN ledger_op.moves] assms(1) [THEN ledger_op.appends]
  note ni = assms(2) [THEN ledger_op.inv_kept] assms(2) [THEN ledger_op.moves] assms(2) [THEN ledger_op.appends]
  have e: "ledger_inv e" using mi(1) [OF m inv] .
  show "ledger_inv d'" using ni(1) [OF n e] .
  show "balance_of i d' - balance_of i d = ledger_sum i d' - ledger_sum i d"
    using mi(2) [OF m inv, of i] ni(2) [OF n e, of i] by (simp add: algebra_simps)
  show "prefix (credits d) (credits d')"
    using mi(3) [OF m inv] ni(3) [OF n e] by (rule prefix_order.trans)
qed

lemma ledger_op_return: "ledger_op (return_act x)"
  by unfold_locales (simp_all add: act_simps)

lemma ledger_op_for: "(\<And>x. x \<in> set xs \<Longrightarrow> ledger_op (body x)) \<Longrightarrow> ledger_op (for_act xs body)"
  by (induction xs) (simp_all add: ledger_op_return ledger_op_then)

lemma insert_credit_Inr:
  "insert_credit c d = (Inr u, d') \<longleftrightarrow>
   \<not> (ct_external c \<noteq> [] \<and> list_ex (\<lambda>x. ct_source x = ct_source c \<and> ct_external x = ct_external c) (credits d))
   \<and> ct_team c \<in> t_id ` set (teams d) \<and> d' = d\<lparr>credits := credits d @ [c]\<rparr>"
proof -
  have "list_ex (\<lambda>t. t_id t = ct_team c) (teams d) \<longleftrightarrow> ct_team c \<in> t_id ` set (teams d)"
    by (auto simp: list_ex_iff intro: rev_image_eqI)
  then show ?thesis by (auto simp: insert_credit_def act_simps)
qed

lemma find_update_where_id:
  "find (\<lambda>t. t_id t = i) (update_where (\<lambda>t. t_id t = j) (\<lambda>t. t\<lparr>t_balance := f t\<rparr>) ts) =
   map_option (\<lambda>t. if t_id t = j then t\<lparr>t_balance := f t\<rparr> else t) (find (\<lambda>t. t_id t = i) ts)"
  by (induction ts) auto

lemma t_id_update_where [simp]:
  "map t_id (update_where p (\<lambda>t. t\<lparr>t_balance := f t\<rparr>) ts) = map t_id ts"
  by (rule map_update_where_same) simp

text \<open>The common core of top-ups and adjustments: one entry and the matching balance change.\<close>

definition booked :: "credit_row \<Rightarrow> db \<Rightarrow> db" where
  "booked c d = d\<lparr>credits := credits d @ [c],
     teams := update_where (\<lambda>t. t_id t = ct_team c) (\<lambda>t. t\<lparr>t_balance := t_balance t + ct_delta c\<rparr>) (teams d)\<rparr>"

lemma balance_of_cong: "teams d' = teams d \<Longrightarrow> balance_of i d' = balance_of i d"
  by (simp add: balance_of_def)

lemma find_team_Some:
  assumes "i \<in> t_id ` set ts" obtains t where "find (\<lambda>t. t_id t = i) ts = Some t" "t_id t = i"
  using assms by (cases "find (\<lambda>t. t_id t = i) ts") (auto simp: find_None_set dest: find_Some_set)

lemma booked_moves:
  assumes "ct_team c \<in> t_id ` set (teams d)"
  shows "balance_of i (booked c d) - balance_of i d = ledger_sum i (booked c d) - ledger_sum i d"
proof (cases "i = ct_team c")
  case True
  obtain t where "find (\<lambda>t. t_id t = i) (teams d) = Some t" "t_id t = i"
    using assms unfolding True by (rule find_team_Some)
  with True show ?thesis by (simp add: booked_def balance_of_def ledger_sum_def find_update_where_id)
next
  case False
  then show ?thesis
    by (auto simp: booked_def balance_of_def ledger_sum_def find_update_where_id
        split: option.splits dest: find_Some_set)
qed

lemma booked_inv:
  assumes "ledger_inv d" "ct_team c \<in> t_id ` set (teams d)"
    and "\<not> (ct_external c \<noteq> [] \<and> list_ex (\<lambda>x. ct_source x = ct_source c \<and> ct_external x = ct_external c) (credits d))"
  shows "ledger_inv (booked c d)"
proof -
  have ids: "t_id ` set (update_where p (\<lambda>t. t\<lparr>t_balance := f t\<rparr>) ts) = t_id ` set ts" for p f ts
    by (metis list.set_map t_id_update_where)
  have lt: "list_all (\<lambda>t. t_id t < n) (update_where p (\<lambda>t. t\<lparr>t_balance := f t\<rparr>) ts) = list_all (\<lambda>t. t_id t < n) ts" for p f ts n
    by (induction ts) auto
  show ?thesis
    using assms by (auto simp: ledger_inv_def booked_def ids lt credit_key_def list_ex_iff)
qed

lemma ledger_op_booked:
  assumes "\<And>d x d'. m d = (Inr x, d') \<Longrightarrow> d' = d \<or>
     (\<exists>c au. d' = (booked c d)\<lparr>audits := au\<rparr> \<and> ct_team c \<in> t_id ` set (teams d)
       \<and> \<not> (ct_external c \<noteq> [] \<and> list_ex (\<lambda>x. ct_source x = ct_source c \<and> ct_external x = ct_external c) (credits d)))"
  shows "ledger_op m"
proof
  fix d x d' i assume "m d = (Inr x, d')" and inv: "ledger_inv d"
  then consider "d' = d" | c au where "d' = (booked c d)\<lparr>audits := au\<rparr>" "ledger_inv (booked c d)"
      "ct_team c \<in> t_id ` set (teams d)"
    using assms booked_inv by blast
  then show "ledger_inv d'" using inv by cases (auto simp: ledger_inv_def)
  from \<open>m d = (Inr x, d')\<close> assms have c: "d' = d \<or> (\<exists>c au. d' = (booked c d)\<lparr>audits := au\<rparr> \<and> ct_team c \<in> t_id ` set (teams d))"
    by blast
  then show "balance_of i d' - balance_of i d = ledger_sum i d' - ledger_sum i d"
    using booked_moves [of _ d i] by (auto simp: balance_of_def ledger_sum_def)
  from c show "prefix (credits d) (credits d')" by (auto simp: booked_def)
qed

interpretation topup: ledger_op "txOn (topup team delta external)" for team delta external
proof (rule ledger_op_tx, rule ledger_op_booked)
  fix d x d' assume r: "topup team delta external d = (Inr x, d')"
  let ?c = "\<lparr>ct_team = team, ct_delta = numeric6 delta, ct_kind = ''topup'', ct_source = ''paddle'', ct_external = external\<rparr>"
  show "d' = d \<or> (\<exists>c au. d' = (booked c d)\<lparr>audits := au\<rparr> \<and> ct_team c \<in> t_id ` set (teams d)
       \<and> \<not> (ct_external c \<noteq> [] \<and> list_ex (\<lambda>x. ct_source x = ct_source c \<and> ct_external x = ct_external c) (credits d)))"
  proof (cases "external \<noteq> [] \<and> list_ex (\<lambda>x. ct_source x = ''paddle'' \<and> ct_external x = external) (credits d)")
    case True
    with r show ?thesis by (simp add: topup_def act_simps)
  next
    case False
    with r obtain e where e: "insert_credit ?c d = (Inr (), e)"
      and d': "(then_act (modify_act (add_balance team delta))
       (then_act (audit ''topup'' ''team'' (Some (show_nat team))
          (JObj [(''source'', JStr ''paddle''), (''external_id'', JStr external), (''delta_usd'', JNum (Fin delta))]))
       (return_act True))) e = (Inr x, d')"
      unfolding topup_def by (auto simp: act_simps elim: then_act_InrE)
    from e [unfolded insert_credit_Inr] d' have "d' = (booked ?c d)\<lparr>audits := audits d'\<rparr>"
      by (auto simp: act_simps add_balance_def booked_def)
    with e [unfolded insert_credit_Inr] show ?thesis by blast
  qed
qed

interpretation adjust: ledger_op "billingAdjust team delta reason" for team delta reason
  unfolding billingAdjust_def
proof (rule ledger_op_tx, rule ledger_op_booked, goal_cases)
  case (1 d x d')
  let ?c = "\<lparr>ct_team = team, ct_delta = numeric6 delta, ct_kind = ''adjustment'', ct_source = ''manual'', ct_external = []\<rparr>"
  from 1 obtain e where e: "insert_credit ?c d = (Inr (), e)"
    and d': "d' = (add_balance team delta e)\<lparr>audits := audits d'\<rparr>"
    by (auto simp: act_simps split: if_splits option.splits elim!: then_act_InrE)
  have "d' = (booked ?c d)\<lparr>audits := audits d'\<rparr>"
    by (subst d') (use e [unfolded insert_credit_Inr] in \<open>simp add: add_balance_def booked_def\<close>)
  with e [unfolded insert_credit_Inr] show ?case by blast
qed

lemma insert_team_Inr:
  "insert_team name b d = (Inr i, d') \<longleftrightarrow>
   \<not> list_ex (\<lambda>t. toLowerCase (t_name t) = toLowerCase name) (teams d) \<and> i = next_id d
   \<and> d' = d\<lparr>next_id := Suc (next_id d), teams := teams d @
       [\<lparr>t_id = next_id d, t_name = name, t_enabled = True, t_budget = 0, t_balance = numeric6 b, t_org = None\<rparr>]\<rparr>"
  by (auto simp: insert_team_def act_simps)

lemma insert_default_key_Inr:
  assumes "insert_default_key h team d = (Inr u, d')"
  shows "\<not> list_ex (\<lambda>k. k_name k = ''default'') (vkeys d)" and "\<exists>ks. d' = d\<lparr>next_id := Suc (next_id d), vkeys := ks\<rparr>"
  using assms by (auto simp: insert_default_key_def act_simps split: if_splits)

text \<open>What a first verification changes in the ledger and the teams.\<close>

lemma provision_Inr:
  assumes "provision env plaintext u now d = (Inr x, d')"
  obtains t where "t_id t = next_id d" "t_balance t = numeric6 (ce_bonus env)" "teams d' = teams d @ [t]"
    and "next_id d < next_id d'" and "\<not> list_ex (\<lambda>k. k_name k = ''default'') (vkeys d)"
    and "credits d' = (if 0 < ce_bonus env then credits d @ [\<lparr>ct_team = next_id d, ct_delta = numeric6 (ce_bonus env),
            ct_kind = ''bonus'', ct_source = ''signup_bonus'', ct_external = show_nat (u_id u)\<rparr>] else credits d)"
    and "0 < ce_bonus env \<longrightarrow>
          \<not> list_ex (\<lambda>c. ct_source c = ''signup_bonus'' \<and> ct_external c = show_nat (u_id u)) (credits d)"
proof -
  let ?d0 = "d\<lparr>users := update_where (\<lambda>x. u_id x = u_id u) (\<lambda>x. x\<lparr>u_verified := Some now\<rparr>) (users d),
               vtokens := delete_where (\<lambda>t. vt_user t = u_id u) (vtokens d)\<rparr>"
  let ?c = "\<lparr>ct_team = next_id d, ct_delta = numeric6 (ce_bonus env),
            ct_kind = ''bonus'', ct_source = ''signup_bonus'', ct_external = show_nat (u_id u)\<rparr>"
  let ?key = "insert_default_key (hmac_hex (ce_api env) (ce_gateway_secret env) plaintext)"
  obtain i d1 where t: "insert_team (u_email u) (ce_bonus env) ?d0 = (Inr i, d1)"
    and r1: "then_act (modify_act (\<lambda>d. d\<lparr>members := members d @ [\<lparr>tm_team = i, tm_user = u_id u, tm_role = ''owner''\<rparr>]\<rparr>))
      (then_act (if 0 < ce_bonus env
                 then insert_credit \<lparr>ct_team = i, ct_delta = numeric6 (ce_bonus env), ct_kind = ''bonus'',
                        ct_source = ''signup_bonus'', ct_external = show_nat (u_id u)\<rparr>
                 else return_act ()) (?key i)) d1 = (Inr x, d')"
    using assms unfolding provision_def by (auto simp: then_modify elim!: bind_act_InrE)
  let ?d2 = "d1\<lparr>members := members d1 @ [\<lparr>tm_team = i, tm_user = u_id u, tm_role = ''owner''\<rparr>]\<rparr>"
  from r1 obtain d3 where c: "(if 0 < ce_bonus env then insert_credit \<lparr>ct_team = i, ct_delta = numeric6 (ce_bonus env),
        ct_kind = ''bonus'', ct_source = ''signup_bonus'', ct_external = show_nat (u_id u)\<rparr> else return_act ()) ?d2 = (Inr (), d3)"
    and k: "?key i d3 = (Inr x, d')"
    by (auto simp: then_modify elim!: then_act_InrE)
  note t' = t [unfolded insert_team_Inr]
  have d3: "teams d3 = teams d1" "next_id d3 = next_id d1" "vkeys d3 = vkeys d1"
      "credits d3 = (if 0 < ce_bonus env then credits d1 @ [?c] else credits d1)"
    and nodup: "0 < ce_bonus env \<longrightarrow> \<not> list_ex (\<lambda>c. ct_source c = ''signup_bonus'' \<and> ct_external c = show_nat (u_id u)) (credits d1)"
    using c t' by (auto simp: insert_credit_Inr return_act_apply split: if_splits)
  obtain ks where "d' = d3\<lparr>next_id := Suc (next_id d3), vkeys := ks\<rparr>" using insert_default_key_Inr(2) [OF k] by blast
  with d3 nodup t' insert_default_key_Inr(1) [OF k] show thesis
    by (intro that [of "\<lparr>t_id = next_id d, t_name = u_email u, t_enabled = True, t_budget = 0,
            t_balance = numeric6 (ce_bonus env), t_org = None\<rparr>"]) auto
qed

text \<open>The bonus setting is validated to be at least zero.\<close>

lemma ledger_op_provision:
  assumes "0 \<le> ce_bonus env" shows "ledger_op (provision env plaintext u now)"
proof
  fix d x d' i assume p: "provision env plaintext u now d = (Inr x, d')" and inv: "ledger_inv d"
  from p obtain t where t: "t_id t = next_id d" "t_balance t = numeric6 (ce_bonus env)" "teams d' = teams d @ [t]"
      "next_id d < next_id d'" and c: "credits d' = (if 0 < ce_bonus env then credits d @ [\<lparr>ct_team = next_id d, ct_delta = numeric6 (ce_bonus env),
            ct_kind = ''bonus'', ct_source = ''signup_bonus'', ct_external = show_nat (u_id u)\<rparr>] else credits d)"
      and n: "0 < ce_bonus env \<longrightarrow> \<not> list_ex (\<lambda>c. ct_source c = ''signup_bonus'' \<and> ct_external c = show_nat (u_id u)) (credits d)"
    by (rule provision_Inr)
  have fresh: "next_id d \<notin> t_id ` set (teams d)" using inv by (auto simp: ledger_inv_def list_all_iff)
  show "ledger_inv d'"
    using inv t c n fresh by (auto simp: ledger_inv_def credit_key_def list_all_iff list_ex_iff image_iff)
  show "prefix (credits d) (credits d')" using c by simp
  have none: "filter (\<lambda>c. ct_team c = next_id d) (credits d) = []"
    using inv fresh by (fastforce simp: ledger_inv_def list_all_iff filter_empty_conv)
  have "find (\<lambda>t. t_id t = next_id d) (teams d) = None"
    unfolding find_None_set using fresh by force
  moreover have "numeric6 0 = 0" using numeric6_nat [of 0] by simp
  ultimately show "balance_of i d' - balance_of i d = ledger_sum i d' - ledger_sum i d"
    using t c none assms
    by (cases "0 < ce_bonus env"; cases "i = next_id d")
       (auto simp: balance_of_def ledger_sum_def find_append split: option.splits)
qed

interpretation verified: ledger_op "txOn (provision (env\<lparr>ce_bonus := \<bar>bonus\<bar>\<rparr>) plaintext u now)"
  for env plaintext u now bonus
  by (rule ledger_op_tx, rule ledger_op_provision) simp

lemma verifyPassword_demo: "verifyPassword demo_api ''secret'' demo_hash"
  by (rule verifyPassword_own [OF demo_hash demo_api_password(1,2)]) (rule demo_api_password(3))

section \<open>Reconciliation lemmas\<close>

lemma distinct_within_singleton: "distinct xs \<Longrightarrow> set xs \<subseteq> {a} \<Longrightarrow> length xs \<le> 1"
  using card_mono [of "{a}" "set xs"] by (simp add: distinct_card)

lemma reconcile_loop_apply:
  "reconcile_loop rows u v d =
     (Inr (u + length rows, v + length (filter (\<lambda>(i, c, l). \<bar>c - l\<bar> > 1 / 10 ^ 6) rows)),
      d\<lparr>teams := fold (\<lambda>(i, c, l) ts. update_where (\<lambda>t. t_id t = i) (\<lambda>t. t\<lparr>t_balance := max c 0\<rparr>) ts) rows (teams d)\<rparr>)"
  by (induction rows u v arbitrary: d rule: reconcile_loop.induct) (auto simp: act_simps)

lemma fold_update_balances:
  assumes "distinct (map t_id ts)"
  shows "fold (\<lambda>(i, c, l) ts. update_where (\<lambda>t. t_id t = i) (\<lambda>t. t\<lparr>t_balance := max c 0\<rparr>) ts)
     (map (\<lambda>t. (t_id t, f (t_id t), g t)) ts) us
   = map (\<lambda>t. if t_id t \<in> t_id ` set ts then t\<lparr>t_balance := max (f (t_id t)) 0\<rparr> else t) us"
  using assms
proof (induction ts arbitrary: us)
  case (Cons a ts)
  then show ?case by (auto simp: update_where_def)
qed simp

lemma reconcileTeamBalances_apply:
  assumes "distinct (map t_id (teams d))"
  shows "reconcileTeamBalances d =
     (Inr (length (teams d), length (filter (\<lambda>t. \<bar>computed_balance d (t_id t) - t_balance t\<bar> > 1 / 10 ^ 6) (teams d))),
      d\<lparr>teams := map (\<lambda>t. t\<lparr>t_balance := max (computed_balance d (t_id t)) 0\<rparr>) (teams d)\<rparr>)"
proof -
  have "map (\<lambda>t. if t_id t \<in> t_id ` set (teams d) then t\<lparr>t_balance := max (computed_balance d (t_id t)) 0\<rparr> else t) (teams d)
      = map (\<lambda>t. t\<lparr>t_balance := max (computed_balance d (t_id t)) 0\<rparr>) (teams d)"
    by (rule map_cong) auto
  then show ?thesis
    unfolding reconcileTeamBalances_def txOn_Inr_iff
    by (simp add: act_simps reconcile_loop_apply fold_update_balances [OF assms] filter_map comp_def)
qed

section \<open>Properties\<close>


definition paid_db :: db where
  "paid_db = team_db\<lparr>credits := [\<lparr>ct_team = 1, ct_delta = 10, ct_kind = ''topup'', ct_source = ''paddle'', ct_external = ''p0''\<rparr>]\<rparr>"

lemma paid_inv: "ledger_inv paid_db"
  by (simp add: ledger_inv_def paid_db_def credit_key_def team_eval)

lemma paid_twice:
  "for_act [(1, 5, ''p0''), (1, 7, ''p0'')] (\<lambda>(team, delta, external). then_act (txOn (topup team delta external)) (return_act ()))
     paid_db = (Inr (), paid_db)"
  by (simp add: topup_def act_defs paid_db_def)



definition demo_env :: cloud_env where
  "demo_env = \<lparr>ce_api = demo_api, ce_res = \<lparr>rs_edition = Cloud, rs_features = KNOWN_FEATURES\<rparr>, ce_is_email = (\<lambda>_. True),
     ce_uuid = (\<lambda>_. Some 1), ce_show = (\<lambda>_. []), ce_signup_limit = Fin 5, ce_verify_limit = Fin 20,
     ce_login_limit = Fin 10, ce_token_hours = 24, ce_bonus = 0, ce_session_days = Fin 7, ce_token_ttl = Fin 3600,
     ce_gateway_secret = ''s'', ce_master_key = ''k'', ce_paddle_secret = ''p'', ce_checkout_url = []\<rparr>"

definition demo_user :: user_row where
  "demo_user = \<lparr>u_id = 9, u_email = ''a@b'', u_password = demo_hash, u_role = ''user'', u_verified = None, u_disabled = None\<rparr>"

lemma paid_topup: "\<exists>d1. txOn (topup 1 2 ''p1'') paid_db = (Inr True, d1) \<and> teams d1 = [sample_team 1 12] \<and> vkeys d1 = vkeys paid_db"
  by (simp add: txOn_Inr_iff topup_def insert_credit_def act_defs audit_def add_balance_def paid_db_def numeric6_two team_eval)

lemma paid_adjust:
  "teams d1 = [sample_team 1 12] \<Longrightarrow> \<exists>d2 b. billingAdjust 1 (- 2) [] d1 = (Inr b, d2) \<and> length (teams d2) = 1
     \<and> t_name (teams d2 ! 0) = ''t'' \<and> vkeys d2 = vkeys d1"
  by (simp add: billingAdjust_def txOn_Inr_iff insert_credit_def act_defs audit_def add_balance_def sample_team_def)

lemma paid_provision:
  assumes "length ts = 1" "t_name (ts ! 0) = ''t''" "teams d2 = ts" "vkeys d2 = [sample_key 2 (Some 1)]"
  shows "\<exists>d3. txOn (provision (demo_env\<lparr>ce_bonus := \<bar>0\<bar>\<rparr>) ''pt'' demo_user 0) d2 = (Inr (), d3)"
  using assms
  by (cases ts) (simp_all add: txOn_Inr_iff provision_def insert_team_def insert_default_key_def act_defs fresh_id_def
      demo_user_def toLowerCase_def lower_char_def char_class_defs sample_key_def)


text \<open>The reconciliation sets every team's balance to ledger minus recorded spend, floored at
  zero, counts every team as updated and exactly those that were off by more than a millionth as
  drifted, changes nothing else, and finds no drift when it runs again, for teams not in debt.\<close>

theorem reconcileTeamBalances_correct:
  assumes "ledger_inv d" and "\<forall>t\<in>set (teams d). 0 \<le> computed_balance d (t_id t)"
  shows "\<exists>n. reconcileTeamBalances d = (Inr (length (teams d), n),
        d\<lparr>teams := map (\<lambda>t. t\<lparr>t_balance := computed_balance d (t_id t)\<rparr>) (teams d)\<rparr>)
      \<and> n = length (filter (\<lambda>t. \<bar>computed_balance d (t_id t) - t_balance t\<bar> > 1 / 10 ^ 6) (teams d))
      \<and> reconcileTeamBalances (snd (reconcileTeamBalances d))
        = (Inr (length (teams d), 0), snd (reconcileTeamBalances d))"
proof -
  have dist: "distinct (map t_id (teams d))" using assms(1) by (simp add: ledger_inv_def)
  let ?ts = "map (\<lambda>t. t\<lparr>t_balance := computed_balance d (t_id t)\<rparr>) (teams d)"
  have eq: "map (\<lambda>t. t\<lparr>t_balance := max (computed_balance d (t_id t)) 0\<rparr>) (teams d) = ?ts"
    using assms(2) by (auto simp: max_def)
  have comp: "computed_balance (d\<lparr>teams := ts\<rparr>) i = computed_balance d i" for ts i
    unfolding computed_balance_def ledger_sum_def team_spend_def team_rows_def key_team_def by (simp cong: option.case_cong)
  have dist': "distinct (map t_id (teams (d\<lparr>teams := ?ts\<rparr>)))" using dist by (simp add: comp_def)
  have "map (\<lambda>t. t\<lparr>t_balance := max (computed_balance d (t_id t)) 0\<rparr>) ?ts = ?ts"
    using assms(2) by (auto simp: max_def)
  then show ?thesis
    using reconcileTeamBalances_apply [OF dist] reconcileTeamBalances_apply [OF dist']
    by (simp add: eq comp filter_map comp_def)
qed

theorem reconcileTeamBalances_correct_witness:
  "reconcileTeamBalances (snd (reconcileTeamBalances paid_db)) = (Inr (1, 0), snd (reconcileTeamBalances paid_db))"
  using reconcileTeamBalances_correct [OF paid_inv]
  by (auto simp: computed_balance_def ledger_sum_def team_spend_def team_rows_def paid_db_def team_eval)

text \<open>The reconciliation forgives spend older than the retention: once every event of the database
  is more than thirty days old, the next report deletes them and the next reconciliation restores each
  team's balance to its full ledger sum, whatever was spent.\<close>

theorem reconcile_forgives_old_spend:
  assumes "ledger_inv d" and "\<forall>r\<in>set (events d). e_received r < now - retention_ms"
    and "t \<in> set (teams d)" and "0 \<le> ledger_sum (t_id t) d"
  shows "balance_of (t_id t) (snd (reconcileTeamBalances (drop_old_events now d))) = ledger_sum (t_id t) d"
proof -
  let ?d = "drop_old_events now d"
  have ev: "events ?d = []" using assms(2) by (fastforce simp: drop_old_events_def filter_empty_conv)
  have cr: "credits ?d = credits d" by (simp add: drop_old_events_def)
  have dist: "distinct (map t_id (teams ?d))" using assms(1) by (simp add: ledger_inv_def)
  have comp: "computed_balance ?d i = ledger_sum i d" for i
    by (simp add: computed_balance_def team_spend_def team_rows_def ev ledger_sum_def cr)
  have "find (\<lambda>x. t_id x = t_id t) (teams d) = Some t"
    using assms(1,3) by (intro find_unique_key) (simp_all add: ledger_inv_def)
  with assms(4) show ?thesis
    by (simp add: reconcileTeamBalances_apply [OF dist] balance_of_def find_map comp)
qed

theorem reconcile_forgives_old_spend_witness:
  "balance_of 1 (snd (reconcileTeamBalances (drop_old_events (retention_ms + 1)
     (paid_db\<lparr>events := [event_of 3 ''g'' 0 (sample_event ''r1'' 2 ''success'')], teams := [sample_team 1 8]\<rparr>)))) = 10"
  using reconcile_forgives_old_spend
    [of "paid_db\<lparr>events := [event_of 3 ''g'' 0 (sample_event ''r1'' 2 ''success'')], teams := [sample_team 1 8]\<rparr>"
      "retention_ms + 1" "sample_team 1 8"]
  by (simp add: ledger_inv_def ledger_sum_def credit_key_def event_of_def paid_db_def team_eval)

text \<open>Key names are unique over all tenants and a verification names the first key \<open>default\<close>: as
  soon as one key of that name exists, every further verification is rolled back.\<close>

theorem second_tenant_cannot_verify:
  assumes "list_ex (\<lambda>k. k_name k = ''default'') (vkeys d)"
  shows "\<exists>e. txOn (provision env plaintext u now) d = (Inl e, d)"
proof (cases rule: txOn_cases [of "provision env plaintext u now" d])
  case (commit x t)
  from provision_Inr [OF commit(1)] assms show ?thesis by blast
qed simp

theorem second_tenant_cannot_verify_witness:
  "\<exists>e. txOn (provision demo_env ''pt'' demo_user 0) (team_db\<lparr>vkeys := [(sample_key 2 None)\<lparr>k_name := ''default''\<rparr>]\<rparr>)
     = (Inl e, team_db\<lparr>vkeys := [(sample_key 2 None)\<lparr>k_name := ''default''\<rparr>]\<rparr>)"
  by (rule second_tenant_cannot_verify) simp

text \<open>An account registered with a password but never verified becomes usable with that password as
  soon as anyone signs in to the same address through the identity provider: before, the password is
  refused as unverified; after, it opens a session.\<close>

theorem oidc_login_activates_password:
  assumes "by_email email d = Some u" and "toLowerCase email = email" and "u_verified u = None" "u_disabled u = None"
    and "verifyPassword (ce_api env) pw (u_password u)"
    and "\<not> list_ex (\<lambda>s. se_hash s = sha256 (ce_api env) token) (sessions d)"
    and "findOrCreateOidcUser email random now d = (Inr v, d')"
  shows "fst (login_user env token (email, pw) now d) = Inl (ApiError 403 ''email_unverified'' ''Verify your email before signing in'')
    \<and> (\<exists>s. fst (login_user env token (email, pw) now d') = Inr (u_role u, s))"
proof -
  have f: "find (same_email email) (users d) = Some u"
    using assms(1,2) by (simp add: by_email_def same_email_def [abs_def])
  have d': "d' = d\<lparr>users := update_where (\<lambda>x. u_id x = u_id u) (\<lambda>x. x\<lparr>u_verified := Some now\<rparr>) (users d)\<rparr>"
    using assms(3,7) f by (simp add: findOrCreateOidcUser_def act_simps)
  have upd: "find (\<lambda>x. toLowerCase (u_email x) = email) (update_where (\<lambda>x. u_id x = u_id u) (\<lambda>x. x\<lparr>u_verified := Some now\<rparr>) us)
      = map_option (\<lambda>x. if u_id x = u_id u then x\<lparr>u_verified := Some now\<rparr> else x) (find (\<lambda>x. toLowerCase (u_email x) = email) us)" for us
    by (induction us) auto
  have "by_email email d' = Some (u\<lparr>u_verified := Some now\<rparr>)"
    using assms(1) unfolding by_email_def d' by (simp add: upd)
  with assms show ?thesis
    by (simp add: login_user_def act_defs createSession_def Let_def d')
qed

theorem oidc_login_activates_password_witness:
  "\<exists>d' s. fst (login_user demo_env ''tok'' (''a@b'', ''secret'') 0 (empty_db\<lparr>users := [demo_user]\<rparr>))
       = Inl (ApiError 403 ''email_unverified'' ''Verify your email before signing in'')
     \<and> fst (login_user demo_env ''tok'' (''a@b'', ''secret'') 0 d') = Inr (''user'', s)"
proof -
  let ?d = "empty_db\<lparr>users := [demo_user]\<rparr>"
  have low: "toLowerCase ''a@b'' = ''a@b''" by (simp add: toLowerCase_def lower_char_def char_class_defs)
  have f: "by_email ''a@b'' ?d = Some demo_user" by (simp add: by_email_def demo_user_def low)
  have pw: "verifyPassword (ce_api demo_env) ''secret'' (u_password demo_user)"
    using verifyPassword_demo by (simp add: demo_env_def demo_user_def)
  obtain v d' where o: "findOrCreateOidcUser ''a@b'' ''r'' 0 ?d = (Inr v, d')"
    using f by (simp add: findOrCreateOidcUser_def act_simps by_email_def same_email_def [abs_def] low demo_user_def)
  have "u_verified demo_user = None" "u_disabled demo_user = None" "u_role demo_user = ''user''"
    by (simp_all add: demo_user_def)
  with oidc_login_activates_password [OF f low _ _ pw _ o, of "''tok''"] show ?thesis
    by (auto simp: empty_db_def)
qed

end
