(* ===== verification/Canonical_Json.thy ===== *)
theory Canonical_Json
  imports Js_Values "HOL-Library.Char_ord" "HOL-Library.List_Lexorder" "HOL-Library.Multiset"
begin

text \<open>
  \<open>lib/canonical-json.ts\<close>: the text whose SHA-256 identifies a configuration.  Object keys are
  sorted by character codes, so the text does not depend on the order in which a snapshot was
  assembled or in which \<open>jsonb\<close> returned it.  The text of a finite number and the hash are
  parameters.
\<close>

section \<open>Text of values\<close>

definition hex_digit :: "nat \<Rightarrow> char" where
  "hex_digit n = ''0123456789abcdef'' ! n"

text \<open>\<open>JSON.stringify\<close> on one character of a string.\<close>

definition json_char :: "char \<Rightarrow> string" where
  "json_char c =
     (if c = CHR 0x22 then [CHR 0x5C, CHR 0x22]
      else if c = CHR 0x5C then [CHR 0x5C, CHR 0x5C]
      else if code c = 8 then [CHR 0x5C, CHR ''b'']
      else if code c = 12 then [CHR 0x5C, CHR ''f'']
      else if code c = 10 then [CHR 0x5C, CHR ''n'']
      else if code c = 13 then [CHR 0x5C, CHR ''r'']
      else if code c = 9 then [CHR 0x5C, CHR ''t'']
      else if code c < 32 then [CHR 0x5C, CHR ''u'', CHR ''0'', CHR ''0'', hex_digit (code c div 16), hex_digit (code c mod 16)]
      else [c])"

definition json_string :: "string \<Rightarrow> string" where
  "json_string s = CHR 0x22 # concat (map json_char s) @ [CHR 0x22]"

fun all_or_error :: "'a res list \<Rightarrow> 'a list res" where
  "all_or_error [] = Inr []"
| "all_or_error (r # rs) =
     (case r of Inl e \<Rightarrow> Inl e
      | Inr x \<Rightarrow> (case all_or_error rs of Inl e \<Rightarrow> Inl e | Inr xs \<Rightarrow> Inr (x # xs)))"

definition member_text :: "string \<times> string res \<Rightarrow> string res" where
  "member_text kv = (case snd kv of Inl e \<Rightarrow> Inl e | Inr t \<Rightarrow> Inr (json_string (fst kv) @ '':'' @ t))"

fun canonicalJson :: "(rat \<Rightarrow> string) \<Rightarrow> jv \<Rightarrow> string res" where
  "canonicalJson num JUndef = Inl (JsError ''canonical JSON rejects undefined'')"
| "canonicalJson num JNull = Inr ''null''"
| "canonicalJson num (JBool b) = Inr (if b then ''true'' else ''false'')"
| "canonicalJson num (JNum n) =
     (case n of Fin x \<Rightarrow> Inr (num x) | _ \<Rightarrow> Inl (JsError ''canonical JSON rejects non-finite numbers''))"
| "canonicalJson num (JStr s) = Inr (json_string s)"
| "canonicalJson num (JArr vs) =
     (case all_or_error (map (canonicalJson num) vs) of
        Inl e \<Rightarrow> Inl e | Inr ts \<Rightarrow> Inr (''['' @ js_join '','' ts @ '']''))"
| "canonicalJson num (JObj ps) =
     (case all_or_error (map member_text (sort_key fst (map (\<lambda>(k, v). (k, canonicalJson num v)) ps))) of
        Inl e \<Rightarrow> Inl e | Inr ts \<Rightarrow> Inr (''{'' @ js_join '','' ts @ ''}''))"

record digest_api =
  num_text :: "rat \<Rightarrow> string"
  hash_hex :: "string \<Rightarrow> string"

definition sha256Canonical :: "digest_api \<Rightarrow> jv \<Rightarrow> string res" where
  "sha256Canonical api v =
     (case canonicalJson (num_text api) v of Inl e \<Rightarrow> Inl e | Inr t \<Rightarrow> Inr (hash_hex api t))"

section \<open>Values up to the order of object members\<close>

fun keys_distinct :: "jv \<Rightarrow> bool" where
  "keys_distinct (JArr vs) = list_all keys_distinct vs"
| "keys_distinct (JObj ps) = (distinct (map fst ps) \<and> list_all (\<lambda>(k, v). keys_distinct v) ps)"
| "keys_distinct _ = True"

inductive same_json :: "jv \<Rightarrow> jv \<Rightarrow> bool" where
  same_leaf: "same_json v v"
| same_arr: "list_all2 same_json vs ws \<Longrightarrow> same_json (JArr vs) (JArr ws)"
| same_obj: "distinct (map fst ps) \<Longrightarrow> mset ps = mset ps' \<Longrightarrow>
    list_all2 (\<lambda>p q. fst p = fst q \<and> same_json (snd p) (snd q)) ps' qs \<Longrightarrow> same_json (JObj ps) (JObj qs)"

lemma sort_key_permutation:
  assumes "distinct (map fst ps)" "mset ps = mset qs"
  shows "sort_key fst ps = sort_key fst qs"
proof -
  have "inj_on fst (set ps)" using assms(1) by (simp add: distinct_map)
  with assms(2) show ?thesis by (intro sort_key_inj_key_eq) simp_all
qed

text \<open>Rearranging or replacing members by equal ones at any depth leaves the text unchanged.\<close>

lemma canonicalJson_same: "same_json v w \<Longrightarrow> canonicalJson num v = canonicalJson num w"
proof (induction rule: same_json.induct)
  case (same_arr vs ws)
  have "map (canonicalJson num) vs = map (canonicalJson num) ws"
    using same_arr by (induction rule: list_all2_induct) auto
  then show ?case by (simp only: canonicalJson.simps)
next
  case (same_obj ps ps' qs)
  let ?f = "\<lambda>(k, v). (k, canonicalJson num v)"
  have "map ?f ps' = map ?f qs"
    using same_obj(3) by (induction rule: list_all2_induct) auto
  moreover have "sort_key fst (map ?f ps) = sort_key fst (map ?f ps')"
  proof (rule sort_key_permutation)
    show "distinct (map fst (map ?f ps))" using same_obj(1) by (simp add: comp_def split_beta)
    show "mset (map ?f ps) = mset (map ?f ps')" using same_obj(2) by simp
  qed
  ultimately show ?case by (simp only: canonicalJson.simps)
qed simp

text \<open>The checksum of a configuration does not depend on the order of object members: two documents
  that differ only by rearranging members, at any depth, have the same canonical text and the same
  SHA-256.\<close>

theorem sha256Canonical_order_invariant:
  assumes "same_json v w"
  shows "sha256Canonical api v = sha256Canonical api w"
  using canonicalJson_same [OF assms] by (simp add: sha256Canonical_def)

theorem sha256Canonical_order_invariant_witness:
  "sha256Canonical \<lparr>num_text = (\<lambda>_. ''1''), hash_hex = id\<rparr> (JObj [(''b'', JNull), (''a'', JObj [(''y'', JNull), (''x'', JBool True)])])
   = sha256Canonical \<lparr>num_text = (\<lambda>_. ''1''), hash_hex = id\<rparr> (JObj [(''a'', JObj [(''x'', JBool True), (''y'', JNull)]), (''b'', JNull)])"
proof -
  have i: "same_json (JObj [(''y'', JNull), (''x'', JBool True)]) (JObj [(''x'', JBool True), (''y'', JNull)])"
    by (rule same_obj [of _ "[(''x'', JBool True), (''y'', JNull)]"]) (auto intro: same_leaf)
  have "same_json (JObj [(''b'', JNull), (''a'', JObj [(''y'', JNull), (''x'', JBool True)])])
      (JObj [(''a'', JObj [(''x'', JBool True), (''y'', JNull)]), (''b'', JNull)])"
    by (rule same_obj [of _ "[(''a'', JObj [(''y'', JNull), (''x'', JBool True)]), (''b'', JNull)]"])
       (auto intro: same_leaf i)
  then show ?thesis by (rule sha256Canonical_order_invariant)
qed

end
