(* ===== verification/Snapshots.thy ===== *)
theory Snapshots
  imports Store Canonical_Json Proxylib
begin

text \<open>
  \<open>lib/snapshots.ts\<close>: the configuration the gateways run is compiled from the tables into a
  declarative document without credentials, checked, and, when a gateway asks for it, completed with
  the decrypted credentials.  Documents are values of type \<open>jv\<close>; the models are first built as
  records, which the checks read.  \<open>ORDER BY\<close> is a stable sort by character codes.
\<close>

record sn_env =
  sn_web :: web_api
  sn_digest :: digest_api
  sn_secret :: string
  sn_min_gateways :: nat
  sn_ttl_seconds :: int

section \<open>Document pieces\<close>

definition id_json :: "uuid \<Rightarrow> jv" where
  "id_json i = JStr (show_nat i)"

definition rat_json :: "rat \<Rightarrow> jv" where
  "rat_json x = JNum (Fin x)"

definition int_json :: "int \<Rightarrow> jv" where
  "int_json x = JNum (Fin (rat_of_int x))"

text \<open>\<open>...(b ? { key: value } : {})\<close>\<close>

definition member_if :: "bool \<Rightarrow> string \<Rightarrow> jv \<Rightarrow> (string \<times> jv) list" where
  "member_if b k v = (if b then [(k, v)] else [])"

fun blank :: "jv \<Rightarrow> bool" where
  "blank (JStr s) = (js_trim s = [])"
| "blank _ = True"

definition account_json :: "provider_row \<Rightarrow> account_row \<Rightarrow> jv" where
  "account_json p a =
     JObj ([(''id'', id_json (a_id a)), (''name'', JStr (a_name a)), (''adapter'', JStr (p_adapter p)),
            (''base_url'', JStr (a_base_url a)), (''credential_revision'', int_json (a_revision a)),
            (''enabled'', JBool (a_enabled a)), (''priority'', int_json (a_priority a)),
            (''weight'', int_json (a_weight a)), (''max_concurrency'', int_json (a_max_concurrency a)),
            (''cost'', rat_json (a_cost a))]
           @ member_if (\<not> blank (get_prop (a_metadata a) ''proxy'')) ''proxy'' (get_prop (a_metadata a) ''proxy''))"

definition snapshot_accounts :: "db \<Rightarrow> (provider_row \<times> account_row) list" where
  "snapshot_accounts d =
     concat (map (\<lambda>a. case find_provider (a_provider a) d of None \<Rightarrow> [] | Some p \<Rightarrow> [(p, a)])
       (sort_key a_priority (sort_key a_name (filter a_enabled (accounts d)))))"

section \<open>Models\<close>

text \<open>Rows of \<open>mapsR\<close>: enabled mappings of enabled accounts, by tier and position, with the account.\<close>

definition mapping_rows :: "db \<Rightarrow> uuid \<Rightarrow> (mapping_row \<times> account_row) list" where
  "mapping_rows d model =
     concat (map (\<lambda>m. case find (\<lambda>a. a_id a = mm_account m \<and> a_enabled a) (accounts d) of
                        None \<Rightarrow> [] | Some a \<Rightarrow> [(m, a)])
       (sort_key mm_tier (sort_key mm_position (filter (\<lambda>m. mm_enabled m \<and> mm_model m = model) (mappings d)))))"

text \<open>Rows of \<open>providerPoolsR\<close>: enabled accounts of the provider that offer the upstream model.\<close>

definition pool_accounts :: "db \<Rightarrow> uuid \<Rightarrow> string \<Rightarrow> account_row list" where
  "pool_accounts d prov upstream =
     filter (\<lambda>a. a_provider a = prov \<and> a_enabled a \<and>
         list_ex (\<lambda>dm. d_provider dm = prov \<and> d_account dm = a_id a \<and> d_upstream dm = upstream \<and> d_available dm) (discovered d))
       (sort_key a_priority (sort_key a_name (accounts d)))"

definition has_override :: "mapping_row \<Rightarrow> bool" where
  "has_override m \<longleftrightarrow> (mm_override m \<noteq> None \<and> mm_override m \<noteq> Some []) \<or> 0 < mm_weight m \<or> 0 < mm_input m \<or> 0 < mm_output m"

definition source_json :: "mapping_row \<times> account_row \<Rightarrow> jv" where
  "source_json ma =
     JObj ([(''account'', JStr (a_name (snd ma)))]
       @ member_if (mm_override (fst ma) \<noteq> None \<and> mm_override (fst ma) \<noteq> Some []) ''upstream_model'' (JStr (the (mm_override (fst ma))))
       @ member_if (0 < mm_weight (fst ma)) ''weight'' (rat_json (mm_weight (fst ma)))
       @ member_if (0 < mm_input (fst ma)) ''input_cost_per_mtok'' (rat_json (mm_input (fst ma)))
       @ member_if (0 < mm_output (fst ma)) ''output_cost_per_mtok'' (rat_json (mm_output (fst ma))))"

record model_entry =
  me_alias :: string
  me_upstream :: string
  me_accounts :: "string list"
  me_strategy :: "string option"
  me_fallbacks :: "string list"
  me_input :: rat
  me_output :: rat
  me_cache :: "string option"
  me_ttl :: "string option"
  me_threshold :: "rat option"
  me_sources :: "jv list"

definition nonempty :: "string option \<Rightarrow> string option" where
  "nonempty s = (if s = Some [] then None else s)"

definition compile_model :: "db \<Rightarrow> alias_row \<Rightarrow> model_entry res" where
  "compile_model d m =
     (let maps = mapping_rows d (m_id m);
          accountNames = (case m_provider m of
             Some prov \<Rightarrow> map a_name (pool_accounts d prov (m_upstream m))
           | None \<Rightarrow> map (\<lambda>ma. a_name (snd ma)) maps);
          price = find (\<lambda>p. pc_model p = m_id m) (pricing d)
      in if accountNames = []
         then Inl (JsError (''model '' @ m_alias m @ '' has no eligible accounts''))
         else Inr \<lparr>me_alias = m_alias m, me_upstream = m_upstream m, me_accounts = accountNames,
                   me_strategy = (if m_provider m = None then None else Some (m_strategy m)),
                   me_fallbacks = m_fallbacks m,
                   me_input = (case price of None \<Rightarrow> 0 | Some p \<Rightarrow> pc_input p),
                   me_output = (case price of None \<Rightarrow> 0 | Some p \<Rightarrow> pc_output p),
                   me_cache = nonempty (m_cache m), me_ttl = nonempty (m_cache_ttl m),
                   me_threshold = m_threshold m,
                   me_sources = map source_json (filter (\<lambda>ma. has_override (fst ma)) maps)\<rparr>)"

definition model_json :: "model_entry \<Rightarrow> jv" where
  "model_json m =
     JObj ([(''alias'', JStr (me_alias m)), (''upstream_model'', JStr (me_upstream m)),
            (''accounts'', JArr (map JStr (me_accounts m)))]
       @ (case me_strategy m of None \<Rightarrow> [] | Some s \<Rightarrow> [(''routing_strategy'', JStr s)])
       @ member_if (me_fallbacks m \<noteq> []) ''fallbacks'' (JArr (map JStr (me_fallbacks m)))
       @ member_if (0 < me_input m) ''input_cost_per_mtok'' (rat_json (me_input m))
       @ member_if (0 < me_output m) ''output_cost_per_mtok'' (rat_json (me_output m))
       @ (case me_cache m of None \<Rightarrow> [] | Some s \<Rightarrow> [(''cache'', JStr s)])
       @ (case me_ttl m of None \<Rightarrow> [] | Some s \<Rightarrow> [(''cache_ttl'', JStr s)])
       @ (case me_threshold m of None \<Rightarrow> [] | Some x \<Rightarrow> [(''cache_similar_threshold'', rat_json x)])
       @ member_if (me_sources m \<noteq> []) ''sources'' (JArr (me_sources m)))"

section \<open>Checks on the models\<close>

text \<open>The last model of an alias wins in the \<open>Map\<close>; aliases are unique in the table.\<close>

definition byAlias :: "model_entry list \<Rightarrow> string \<Rightarrow> model_entry option" where
  "byAlias ms a = find (\<lambda>m. me_alias m = a) (rev ms)"

definition first_fallback :: "model_entry list \<Rightarrow> string \<Rightarrow> string option" where
  "first_fallback ms a =
     (case byAlias ms a of None \<Rightarrow> None
      | Some m \<Rightarrow> (case me_fallbacks m of [] \<Rightarrow> None | f # _ \<Rightarrow> Some f))"

lemma byAlias_Some: "byAlias ms c = Some m \<Longrightarrow> m \<in> set ms \<and> me_alias m = c"
  unfolding byAlias_def by (auto dest: find_Some_set)

text \<open>The walk along first fallbacks.  Every step adds a new alias, and only known aliases have a
  successor, so it ends; the measure counts the known aliases not on the path.\<close>

function walk_chain :: "model_entry list \<Rightarrow> string set \<Rightarrow> string option \<Rightarrow> unit res" where
  "walk_chain ms path current =
     (case current of
        None \<Rightarrow> Inr ()
      | Some c \<Rightarrow>
          if c = [] then Inr ()
          else if c \<in> path then Inl (JsError (''model fallback cycle involving '' @ c))
          else if byAlias ms c = None then Inr ()
          else walk_chain ms (insert c path) (first_fallback ms c))"
  by pat_completeness auto

termination
proof (relation "measure (\<lambda>(ms, path, current). card (me_alias ` set ms - path))", simp)
  fix ms path current c
  assume "current = Some c" "c \<notin> path" "byAlias ms c \<noteq> None"
  then have "c \<in> me_alias ` set ms" using byAlias_Some by fastforce
  with \<open>c \<notin> path\<close> have "me_alias ` set ms - insert c path \<subset> me_alias ` set ms - path" by auto
  then show "((ms, insert c path, first_fallback ms c), ms, path, current)
      \<in> measure (\<lambda>(ms, path, current). card (me_alias ` set ms - path))"
    by (simp add: psubset_card_mono)
qed

declare walk_chain.simps [simp del]

definition unknown_fallback :: "model_entry list \<Rightarrow> model_entry \<Rightarrow> string option" where
  "unknown_fallback ms m = find (\<lambda>f. byAlias ms f = None) (me_fallbacks m)"

fun check_chains :: "model_entry list \<Rightarrow> model_entry list \<Rightarrow> unit res" where
  "check_chains ms [] = Inr ()"
| "check_chains ms (m # rest) =
     (case unknown_fallback ms m of
        Some f \<Rightarrow> Inl (JsError (''model '' @ me_alias m @ '' fallback references unknown model '' @ f))
      | None \<Rightarrow> (case walk_chain ms {} (Some (me_alias m)) of
                   Inl e \<Rightarrow> Inl e | Inr _ \<Rightarrow> check_chains ms rest))"

definition validateFallbackChains :: "model_entry list \<Rightarrow> unit res" where
  "validateFallbackChains ms = check_chains ms ms"

fun validateCacheModes :: "model_entry list \<Rightarrow> unit res" where
  "validateCacheModes [] = Inr ()"
| "validateCacheModes (m # ms) =
     (case me_threshold m of
        None \<Rightarrow> validateCacheModes ms
      | Some t \<Rightarrow>
          if \<not> (0 < t \<and> t \<le> 1) then Inl (JsError (''model '' @ me_alias m @ '' cache_similar_threshold must be in (0, 1]''))
          else if me_cache m \<noteq> Some ''similar''
          then Inl (JsError (''model '' @ me_alias m @ '' cache_similar_threshold requires cache: similar''))
          else validateCacheModes ms)"

section \<open>Keys and teams\<close>

definition find_team :: "db \<Rightarrow> uuid option \<Rightarrow> team_row option" where
  "find_team d t = (case t of None \<Rightarrow> None | Some i \<Rightarrow> find (\<lambda>x. t_id x = i) (teams d))"

definition find_org :: "db \<Rightarrow> uuid option \<Rightarrow> org_row option" where
  "find_org d t = (case t of None \<Rightarrow> None | Some i \<Rightarrow> find (\<lambda>x. o_id x = i) (orgs d))"

definition team_key_count :: "db \<Rightarrow> uuid \<Rightarrow> nat" where
  "team_key_count d i = length (filter (\<lambda>k. k_enabled k \<and> k_team k = Some i) (vkeys d))"

definition round6 :: "rat \<Rightarrow> rat" where
  "round6 x = rat_of_int \<lfloor>x * 1000000 + 1 / 2\<rfloor> / 1000000"

definition org_budget :: "db \<Rightarrow> team_row \<Rightarrow> rat" where
  "org_budget d t = (case find_org d (t_org t) of None \<Rightarrow> 0 | Some oo \<Rightarrow> o_budget oo)"

definition team_json :: "db \<Rightarrow> team_row \<Rightarrow> (string \<times> jv) list" where
  "team_json d t =
     (if 0 < t_budget t \<or> 0 < org_budget d t \<or> 0 < t_balance t
      then let share = t_budget t / rat_of_nat (max 1 (team_key_count d (t_id t)))
           in [(''team'', JObj ([(''id'', id_json (t_id t)), (''budget_usd'', rat_json (t_budget t))]
                @ member_if (0 < share) ''share_usd'' (rat_json (round6 share))
                @ member_if (0 < t_balance t) ''balance_usd'' (rat_json (t_balance t))
                @ (case find_org d (t_org t) of
                     None \<Rightarrow> []
                   | Some oo \<Rightarrow> member_if (0 < o_budget oo) ''org''
                       (JObj [(''id'', id_json (o_id oo)), (''budget_usd'', rat_json (o_budget oo))]))))]
      else [])"

definition key_json :: "db \<Rightarrow> key_row \<Rightarrow> jv" where
  "key_json d k =
     JObj ([(''name'', JStr (k_name k)), (''id'', id_json (k_id k)), (''key_hash'', JStr (k_hash k)),
            (''models'', JArr (map JStr (k_models k))), (''rpm'', int_json (k_rpm k))]
       @ member_if (0 < k_tpm k) ''tpm'' (int_json (k_tpm k))
       @ member_if (0 < k_max_concurrency k) ''max_concurrency'' (int_json (k_max_concurrency k))
       @ member_if (0 < k_budget k) ''budget_usd'' (rat_json (k_budget k))
       @ member_if (k_duration k \<noteq> [] \<and> k_duration k \<noteq> ''day'') ''budget_duration'' (JStr (k_duration k))
       @ (case find_team d (k_team k) of None \<Rightarrow> [] | Some t \<Rightarrow> team_json d t))"

section \<open>Settings\<close>

definition opt_member :: "jv \<Rightarrow> string \<Rightarrow> (string \<times> jv) list" where
  "opt_member opt k = (case get_prop opt k of JStr s \<Rightarrow> member_if (s \<noteq> []) k (JStr s) | _ \<Rightarrow> [])"

lemma opt_member_cases:
  obtains "opt_member opt k = []" | s where "s \<noteq> []" "opt_member opt k = [(k, JStr s)]"
proof (cases "get_prop opt k")
  case (JStr s)
  then show thesis using that by (cases "s = []") (auto simp: opt_member_def member_if_def)
qed (use that in \<open>simp_all add: opt_member_def\<close>)

definition normalizeOptimization :: "jv \<Rightarrow> jv" where
  "normalizeOptimization opt =
     (JObj ([(''rtk_compression'', JBool (truthy (get_prop opt ''rtk_compression''))),
                (''caveman'', JBool (truthy (get_prop opt ''caveman''))),
                (''headroom'', JBool (truthy (get_prop opt ''headroom''))),
                (''headroom_reserve'', JNum (num_or (to_number (get_prop opt ''headroom_reserve'')) (Fin 120000))),
                (''headroom_keep'', JNum (num_or (to_number (get_prop opt ''headroom_keep'')) (Fin 8)))]
               @ opt_member opt ''rtk_mode'' @ opt_member opt ''caveman_mode'' @ opt_member opt ''headroom_profile''
               @ member_if (get_prop opt ''squoze'' = JBool True) ''squoze'' (JBool True)))"

definition default_optimization :: jv where
  "default_optimization = JObj [(''rtk_compression'', JBool False), (''caveman'', JBool False), (''headroom'', JBool False),
     (''headroom_reserve'', JNum (Fin 120000)), (''headroom_keep'', JNum (Fin 8))]"

definition default_routing :: jv where
  "default_routing = JObj [(''strategy'', JStr ''balanced''), (''sticky_ttl'', JStr ''1h''), (''max_attempts'', JNum (Fin 2)),
     (''resilience'', JObj [(''cooldown'', JStr ''30s''), (''circuit_failures'', JNum (Fin 3)), (''circuit_reset'', JStr ''1m''),
        (''lockout_failures'', JNum (Fin 10)), (''lockout_duration'', JStr ''15m'')])]"

definition resilience_json :: "jv \<Rightarrow> jv" where
  "resilience_json r =
     JObj [(''cooldown'', coalesce (get_prop r ''cooldown'') (JStr ''30s'')),
           (''circuit_failures'', JNum (to_number (coalesce (get_prop r ''circuit_failures'') (JNum (Fin 3))))),
           (''circuit_reset'', coalesce (get_prop r ''circuit_reset'') (JStr ''1m'')),
           (''lockout_failures'', JNum (to_number (coalesce (get_prop r ''lockout_failures'') (JNum (Fin 10))))),
           (''lockout_duration'', coalesce (get_prop r ''lockout_duration'') (JStr ''15m''))]"

definition text_or_empty :: "jv \<Rightarrow> jv" where
  "text_or_empty v = (if is_str v then v else JStr [])"

definition webhook_json :: "jv \<Rightarrow> (string \<times> jv) list" where
  "webhook_json w =
     member_if (truthy w) ''webhook''
       (JObj [(''enabled'', JBool (truthy (get_prop w ''enabled''))), (''url'', text_or_empty (get_prop w ''url'')),
              (''secret'', text_or_empty (get_prop w ''secret''))])"

definition proxy_pool :: "web_api \<Rightarrow> jv \<Rightarrow> jv list res" where
  "proxy_pool web v =
     (case get_prop v ''raw'' of
        JStr raw \<Rightarrow> (if js_trim raw = [] then Inr []
                    else (case parseProxyList web raw of
                            Inl e \<Rightarrow> Inl e | Inr acc \<Rightarrow> Inr (map (\<lambda>e. JStr (normalizeProxy e)) (entries acc))))
      | _ \<Rightarrow> Inr [])"

section \<open>The declarative snapshot\<close>

definition compile_models :: "db \<Rightarrow> model_entry list res" where
  "compile_models d = all_or_error (map (compile_model d) (sort_key m_alias (filter m_enabled (aliases d))))"

definition mcp_json :: "mcp_row \<Rightarrow> jv" where
  "mcp_json m = JObj [(''name'', JStr (mc_name m)), (''url'', JStr (mc_url m)), (''enabled'', JBool True)]"

definition enabled_mcps :: "db \<Rightarrow> mcp_row list" where
  "enabled_mcps d = sort_key mc_name (filter mc_enabled (mcps d))"

definition enabled_keys :: "db \<Rightarrow> key_row list" where
  "enabled_keys d = sort_key k_name (filter k_enabled (vkeys d))"

definition snapshot_json :: "db \<Rightarrow> jv list \<Rightarrow> model_entry list \<Rightarrow> jv" where
  "snapshot_json d proxies models =
     (let rt = (case routing d of None \<Rightarrow> default_routing | Some r \<Rightarrow> r)
      in JObj ([(''version'', JNum (Fin 2)), (''metadata'', JObj []),
         (''server'', JObj [(''addr'', JStr '':8080''), (''read_timeout'', JStr ''10s''), (''write_timeout'', JStr ''0s'')]),
         (''virtual_keys'', JArr (map (key_json d) (enabled_keys d))),
         (''models'', JArr (map model_json models)),
         (''accounts'', JArr (map (\<lambda>(p, a). account_json p a) (snapshot_accounts d)))]
        @ member_if (proxies \<noteq> []) ''proxies'' (JArr proxies)
        @ [(''routing'', JObj [(''strategy'', get_prop rt ''strategy''), (''sticky_ttl'', get_prop rt ''sticky_ttl''),
               (''max_attempts'', get_prop rt ''max_attempts'')]),
           (''resilience'', resilience_json (get_prop rt ''resilience'')),
           (''optimization'', normalizeOptimization (coalesce (setting ''optimization'' d) default_optimization))]
        @ member_if (enabled_mcps d \<noteq> []) ''mcp_servers'' (JArr (map mcp_json (enabled_mcps d)))
        @ webhook_json (setting ''webhook'' d)))"

record compiled =
  cs_snapshot :: jv
  cs_checksum :: string
  cs_schema :: nat

definition compileDeclarativeSnapshot :: "sn_env \<Rightarrow> db \<Rightarrow> compiled res" where
  "compileDeclarativeSnapshot env d =
     (case proxy_pool (sn_web env) (setting ''proxy_pool'' d) of Inl e \<Rightarrow> Inl e | Inr proxies \<Rightarrow>
     (case compile_models d of Inl e \<Rightarrow> Inl e | Inr models \<Rightarrow>
     (case validateFallbackChains models of Inl e \<Rightarrow> Inl e | Inr _ \<Rightarrow>
     (case validateCacheModes models of Inl e \<Rightarrow> Inl e | Inr _ \<Rightarrow>
     (if enabled_keys d = [] then Inl (JsError ''at least one virtual key required'')
      else let doc = snapshot_json d proxies models
           in case sha256Canonical (sn_digest env) doc of
                Inl e \<Rightarrow> Inl e
              | Inr h \<Rightarrow> Inr \<lparr>cs_snapshot = doc, cs_checksum = h, cs_schema = 2\<rparr>)))))"

section \<open>Digests\<close>

definition arr_of :: "jv \<Rightarrow> jv list" where
  "arr_of v = (case v of JArr vs \<Rightarrow> vs | _ \<Rightarrow> [])"

fun text_of :: "jv \<Rightarrow> string" where
  "text_of (JStr s) = s"
| "text_of _ = []"

definition credential_identity :: "jv \<Rightarrow> jv" where
  "credential_identity account =
     JObj [(''id'', coalesce (get_prop account ''id'') (get_prop account ''name'')),
           (''credential_revision'', JNum (to_number (coalesce (get_prop account ''credential_revision'') (JNum (Fin 1)))))]"

definition credentialDigestFromDeclarative :: "sn_env \<Rightarrow> jv \<Rightarrow> string res" where
  "credentialDigestFromDeclarative env doc =
     sha256Canonical (sn_digest env)
       (JArr (sort_key (\<lambda>v. text_of (get_prop v ''id'')) (map credential_identity (arr_of (get_prop doc ''accounts'')))))"

text \<open>The accounts of a document as rows of the database, found by their id.\<close>

definition doc_account :: "db \<Rightarrow> jv \<Rightarrow> account_row option" where
  "doc_account d v = find (\<lambda>a. id_json (a_id a) = get_prop v ''id'') (accounts d)"

definition credentialDigestForDeclarative :: "sn_env \<Rightarrow> jv \<Rightarrow> db \<Rightarrow> string res" where
  "credentialDigestForDeclarative env doc d =
     (let ids = map (\<lambda>v. get_prop v ''id'') (arr_of (get_prop doc ''accounts''))
      in if ids = [] then credentialDigestFromDeclarative env doc
         else let rows = filter (\<lambda>a. id_json (a_id a) \<in> set ids) (accounts d)
              in if length rows \<noteq> length ids
                 then Inl (JsError ''snapshot account credential identity is incomplete'')
                 else credentialDigestFromDeclarative env
                   (JObj [(''accounts'', JArr (map (\<lambda>a. JObj [(''id'', id_json (a_id a)),
                       (''credential_revision'', int_json (a_revision a))]) rows))]))"

section \<open>Runtime snapshots\<close>

definition current_credential :: "db \<Rightarrow> jv \<Rightarrow> (jv \<times> int) option" where
  "current_credential d v =
     (case doc_account d v of
        None \<Rightarrow> None
      | Some a \<Rightarrow> (case a_secret a of
                     None \<Rightarrow> None
                   | Some s \<Rightarrow> (case find_secret s d of None \<Rightarrow> None | Some r \<Rightarrow> Some (s_sealed r, a_revision a))))"

definition set_prop :: "string \<Rightarrow> jv \<Rightarrow> (string \<times> jv) list \<Rightarrow> (string \<times> jv) list" where
  "set_prop k v ps = (if k \<in> fst ` set ps then map (\<lambda>(k', w). (k', if k' = k then v else w)) ps else ps @ [(k, v)])"

definition runtime_account :: "db \<Rightarrow> jv \<Rightarrow> jv res" where
  "runtime_account d v =
     (case current_credential d v of
        None \<Rightarrow> Inl (JsError (''account '' @ text_of (get_prop v ''id'') @ '' missing credential''))
      | Some (cred, rv) \<Rightarrow>
          let kind = coalesce (get_prop cred ''kind'')
                       (JStr (if get_prop v ''adapter'' = JStr ''openai-codex'' then ''oauth'' else ''api_key''))
          in Inr (JObj (set_prop ''credential'' (JObj (set_prop ''revision'' (int_json rv) (set_prop ''kind'' kind (record_of cred))))
                    (set_prop ''credential_revision'' (int_json rv) (record_of v)))))"

definition runtime_mcp :: "db \<Rightarrow> mcp_row \<Rightarrow> jv" where
  "runtime_mcp d m =
     JObj ([(''name'', JStr (mc_name m)), (''url'', JStr (mc_url m))]
       @ (case mc_headers m of None \<Rightarrow> []
          | Some s \<Rightarrow> (case find_secret s d of None \<Rightarrow> [] | Some r \<Rightarrow> [(''headers'', s_sealed r)])))"

definition materializeRuntimeSnapshot :: "sn_env \<Rightarrow> jv \<Rightarrow> db \<Rightarrow> jv res" where
  "materializeRuntimeSnapshot env doc d =
     (case all_or_error (map (runtime_account d) (arr_of (get_prop doc ''accounts''))) of
        Inl e \<Rightarrow> Inl e
      | Inr accts \<Rightarrow>
          let base = set_prop ''accounts'' (JArr accts)
                (set_prop ''secret'' (JStr (sn_secret env)) (set_prop ''version'' (JNum (Fin 2)) (record_of doc)));
              mcp = map (runtime_mcp d) (enabled_mcps d)
          in Inr (JObj (if mcp \<noteq> [] then set_prop ''mcp_servers'' (JArr mcp) base else base)))"

definition legacy_account :: "db \<Rightarrow> jv \<Rightarrow> jv res" where
  "legacy_account d v =
     (case current_credential d v of
        Some (cred, rv) \<Rightarrow>
          if truthy (get_prop cred ''api_key'')
          then Inr (JObj ([(''name'', get_prop v ''name''), (''base_url'', get_prop v ''base_url''),
              (''api_key'', get_prop cred ''api_key''), (''enabled'', get_prop v ''enabled''), (''priority'', get_prop v ''priority''),
              (''weight'', get_prop v ''weight''), (''max_concurrency'', get_prop v ''max_concurrency''), (''cost'', get_prop v ''cost'')]
              @ member_if (truthy (get_prop v ''proxy'')) ''proxy'' (get_prop v ''proxy'')))
          else Inl (JsError (''account '' @ text_of (get_prop v ''id'') @ '' missing credential''))
      | None \<Rightarrow> Inl (JsError (''account '' @ text_of (get_prop v ''id'') @ '' missing credential'')))"

definition materializeLegacyRuntimeSnapshot :: "sn_env \<Rightarrow> jv \<Rightarrow> db \<Rightarrow> jv res" where
  "materializeLegacyRuntimeSnapshot env doc d =
     (case all_or_error (map (legacy_account d) (arr_of (get_prop doc ''accounts''))) of
        Inl e \<Rightarrow> Inl e
      | Inr accts \<Rightarrow>
          Inr (JObj [(''version'', JNum (Fin 1)), (''metadata'', coalesce (get_prop doc ''metadata'') (JObj [])),
             (''secret'', JStr (sn_secret env)), (''server'', get_prop doc ''server''),
             (''virtual_keys'', get_prop doc ''virtual_keys''), (''models'', get_prop doc ''models''),
             (''accounts'', JArr accts), (''routing'', get_prop doc ''routing''), (''resilience'', get_prop doc ''resilience'')]))"

definition publishedDeclarativeSnapshot :: "nat option \<Rightarrow> db \<Rightarrow> (nat \<times> jv) option" where
  "publishedDeclarativeSnapshot v d =
     (let rows = filter (\<lambda>r. cv_status r = Published) (versions d)
      in case v of
           Some n \<Rightarrow> map_option (\<lambda>r. (cv_version r, cv_snapshot r)) (find (\<lambda>r. cv_version r = n) rows)
         | None \<Rightarrow> (case rev (sort_key cv_version rows) of [] \<Rightarrow> None | r # _ \<Rightarrow> Some (cv_version r, cv_snapshot r)))"

definition snapshot_from_row ::
  "sn_env \<Rightarrow> (jv \<Rightarrow> db \<Rightarrow> jv res) \<Rightarrow> nat option \<Rightarrow> db \<Rightarrow> (nat \<times> string \<times> jv) option res" where
  "snapshot_from_row env materialize v d =
     (case publishedDeclarativeSnapshot v d of
        None \<Rightarrow> Inr None
      | Some (n, doc) \<Rightarrow> (case materialize doc d of
          Inl e \<Rightarrow> Inl e
        | Inr s \<Rightarrow> (case sha256Canonical (sn_digest env) s of Inl e \<Rightarrow> Inl e | Inr h \<Rightarrow> Inr (Some (n, h, s)))))"

definition runtimeSnapshotFromPublishedRow :: "sn_env \<Rightarrow> nat option \<Rightarrow> db \<Rightarrow> (nat \<times> string \<times> jv) option res" where
  "runtimeSnapshotFromPublishedRow env = snapshot_from_row env (materializeRuntimeSnapshot env)"

definition legacyRuntimeSnapshotFromPublishedRow :: "sn_env \<Rightarrow> nat option \<Rightarrow> db \<Rightarrow> (nat \<times> string \<times> jv) option res" where
  "legacyRuntimeSnapshotFromPublishedRow env = snapshot_from_row env (materializeLegacyRuntimeSnapshot env)"

section \<open>Laws of member updates\<close>

lemma set_prop_keys: "fst ` set (set_prop k v ps) = insert k (fst ` set ps)"
  by (auto simp: set_prop_def image_iff split: if_splits) force+

lemma lookup_set_prop [simp]:
  "lookup_or_undef (set_prop k v ps) k' = (if k' = k then v else lookup_or_undef ps k')"
proof (cases "k \<in> fst ` set ps")
  case True
  have "map_of (map (\<lambda>(k', w). (k', if k' = k then v else w)) ps) k' =
      (if k' = k then (if k \<in> fst ` set ps then Some v else None) else map_of ps k')"
    by (induction ps) (auto, force)
  with True show ?thesis by (simp add: set_prop_def lookup_or_undef_def)
next
  case False
  then have "map_of ps k = None" by (simp add: map_of_eq_None_iff)
  with False show ?thesis
    by (auto simp: set_prop_def lookup_or_undef_def map_add_def split: option.splits)
qed

lemma get_set_prop [simp]: "get_prop (JObj (set_prop k v ps)) k' = (if k' = k then v else get_prop (JObj ps) k')"
  by simp

lemma get_record_of: "get_prop (JObj (record_of v)) k = (if is_record v then get_prop v k else JUndef)"
  by (cases v) auto

section \<open>Fallback chains\<close>

definition next_rel :: "model_entry list \<Rightarrow> (string \<times> string) set" where
  "next_rel ms = {(a, b). first_fallback ms a = Some b}"

definition known :: "model_entry list \<Rightarrow> string \<Rightarrow> bool" where
  "known ms a \<longleftrightarrow> byAlias ms a \<noteq> None"

lemma next_rel_known: "(a, b) \<in> next_rel ms \<Longrightarrow> known ms a"
  by (auto simp: next_rel_def known_def first_fallback_def split: option.splits)

lemma known_alias: "known ms c \<Longrightarrow> c \<in> me_alias ` set ms"
  unfolding known_def using byAlias_Some [of ms c] by force

lemma known_member: "m \<in> set ms \<Longrightarrow> known ms (me_alias m)"
  by (auto simp: known_def byAlias_def find_None_set)

lemma walk_chain_step:
  assumes "walk_chain ms path (Some c) = Inr ()" "known ms c" "c \<noteq> []"
  shows "c \<notin> path \<and> walk_chain ms (insert c path) (first_fallback ms c) = Inr ()"
  using assms unfolding known_def by (subst (asm) walk_chain.simps) (auto split: if_splits)

lemma walk_chain_avoids:
  assumes ne: "[] \<notin> me_alias ` set ms"
    and "(c, a) \<in> (next_rel ms)\<^sup>*" "walk_chain ms path (Some c) = Inr ()" "known ms a"
  shows "a \<notin> path"
  using assms(2,3)
proof (induction arbitrary: path rule: converse_rtrancl_induct)
  case base
  have "a \<noteq> []" using known_alias [OF assms(4)] ne by force
  with walk_chain_step [OF base assms(4)] show ?case by simp
next
  case (step c d)
  have k: "known ms c" using step.hyps(1) by (rule next_rel_known)
  then have "c \<noteq> []" using known_alias ne by fastforce
  from walk_chain_step [OF step.prems k this] step.hyps(1)
  have "walk_chain ms (insert c path) (Some d) = Inr ()" by (simp add: next_rel_def)
  from step.IH [OF this] show ?case by simp
qed

lemma walk_chain_complete:
  "acyclic (next_rel ms) \<Longrightarrow> (\<And>c p. current = Some c \<Longrightarrow> p \<in> path \<Longrightarrow> (p, c) \<in> (next_rel ms)\<^sup>+) \<Longrightarrow>
   walk_chain ms path current = Inr ()"
proof (induction ms path current rule: walk_chain.induct)
  case (1 ms path current)
  show ?case
  proof (cases current)
    case (Some c)
    have "c \<notin> path" using 1(2,3) Some by (auto simp: acyclic_def)
    moreover have "walk_chain ms (insert c path) (first_fallback ms c) = Inr ()"
      if "c \<noteq> []" "byAlias ms c \<noteq> None"
    proof (rule 1(1) [OF Some that(1) \<open>c \<notin> path\<close> that(2) 1(2)])
      fix e p assume e: "first_fallback ms c = Some e" and p: "p \<in> insert c path"
      have "(c, e) \<in> next_rel ms" using e by (simp add: next_rel_def)
      with p 1(3) [OF Some] show "(p, e) \<in> (next_rel ms)\<^sup>+" by (metis insert_iff r_into_trancl trancl.trancl_into_trancl)
    qed
    ultimately show ?thesis using Some by (subst walk_chain.simps) simp
  qed (subst walk_chain.simps, simp)
qed

lemma check_chains_iff:
  "check_chains ms rest = Inr () \<longleftrightarrow>
   (\<forall>m\<in>set rest. (\<forall>f\<in>set (me_fallbacks m). known ms f) \<and> walk_chain ms {} (Some (me_alias m)) = Inr ())"
proof (induction rest)
  case (Cons m rest)
  have "unknown_fallback ms m = None \<longleftrightarrow> (\<forall>f\<in>set (me_fallbacks m). known ms f)"
    by (simp add: unknown_fallback_def find_None_set known_def)
  moreover have "walk_chain ms {} (Some (me_alias m)) = Inr () \<or> (\<exists>e. walk_chain ms {} (Some (me_alias m)) = Inl e)"
    by (cases "walk_chain ms {} (Some (me_alias m))") auto
  ultimately show ?case using Cons.IH by (cases "unknown_fallback ms m") auto
qed simp


definition demo_model :: "string \<Rightarrow> string list \<Rightarrow> model_entry" where
  "demo_model a fs = \<lparr>me_alias = a, me_upstream = a, me_accounts = [''main''], me_strategy = None, me_fallbacks = fs,
     me_input = 0, me_output = 0, me_cache = None, me_ttl = None, me_threshold = None, me_sources = []\<rparr>"


section \<open>Further properties\<close>

text \<open>The compiler reads the declarative tables and nothing else.\<close>

lemma compile_cong:
  assumes "providers d2 = providers d" "accounts d2 = accounts d" "aliases d2 = aliases d" "pricing d2 = pricing d"
    "mappings d2 = mappings d" "discovered d2 = discovered d" "vkeys d2 = vkeys d" "teams d2 = teams d" "orgs d2 = orgs d"
    "settings d2 = settings d" "routing d2 = routing d" "mcps d2 = mcps d"
  shows "compileDeclarativeSnapshot env d2 = compileDeclarativeSnapshot env d"
proof -
  have fp: "find_provider i d2 = find_provider i d" for i by (simp add: find_provider_def assms)
  have a: "snapshot_accounts d2 = snapshot_accounts d" unfolding snapshot_accounts_def fp assms ..
  have m: "mapping_rows d2 i = mapping_rows d i" for i by (simp add: mapping_rows_def assms)
  have pl: "pool_accounts d2 i u = pool_accounts d i u" for i u by (simp add: pool_accounts_def assms)
  have c: "compile_model d2 = compile_model d"
    unfolding fun_eq_iff compile_model_def m pl assms by simp
  have t: "team_json d2 = team_json d"
  proof -
    have fo: "find_org d2 i = find_org d i" for i by (simp add: find_org_def assms cong: option.case_cong)
    have "org_budget d2 x = org_budget d x" "team_key_count d2 i = team_key_count d i" for x i
      unfolding org_budget_def team_key_count_def fo assms by simp_all
    then show ?thesis unfolding fun_eq_iff team_json_def fo by simp
  qed
  have "find_team d2 i = find_team d i" for i by (simp add: find_team_def assms cong: option.case_cong)
  then have k: "key_json d2 = key_json d" unfolding fun_eq_iff key_json_def t by simp
  have sj: "snapshot_json d2 = snapshot_json d"
    by (intro ext) (simp add: snapshot_json_def a k enabled_keys_def enabled_mcps_def setting_def Let_def assms)
  have cm: "compile_models d2 = compile_models d" by (simp add: compile_models_def c assms)
  have ek: "enabled_keys d2 = enabled_keys d" and st: "setting x d2 = setting x d" for x
    by (simp_all add: enabled_keys_def setting_def assms)
  show ?thesis unfolding compileDeclarativeSnapshot_def cm sj ek st ..
qed

text \<open>The declarative snapshot holds no credential: it is the same whatever the secret records
  contain, so nothing a credential says can reach the stored and audited configuration.\<close>

theorem compileDeclarativeSnapshot_ignores_secrets:
  "compileDeclarativeSnapshot env (d\<lparr>secrets := ss\<rparr>) = compileDeclarativeSnapshot env d"
  by (rule compile_cong) simp_all

text \<open>Normalising an optimization block twice is the same as once, so re-importing an emitted block
  does not change the snapshot.\<close>

theorem normalizeOptimization_idem:
  "normalizeOptimization (normalizeOptimization opt) = normalizeOptimization opt"
proof -
  have n: "num_or (num_or x (Fin (numeral k))) (Fin (numeral k)) = num_or x (Fin (numeral k))" for x k
    by (simp add: num_or_def)
  obtain a where a: "a = [] \<or> (\<exists>s. s \<noteq> [] \<and> a = [(''rtk_mode'', JStr s)])" "opt_member opt ''rtk_mode'' = a"
    by (cases rule: opt_member_cases [of opt "''rtk_mode''"]) auto
  obtain b where b: "b = [] \<or> (\<exists>s. s \<noteq> [] \<and> b = [(''caveman_mode'', JStr s)])" "opt_member opt ''caveman_mode'' = b"
    by (cases rule: opt_member_cases [of opt "''caveman_mode''"]) auto
  obtain c where c: "c = [] \<or> (\<exists>s. s \<noteq> [] \<and> c = [(''headroom_profile'', JStr s)])" "opt_member opt ''headroom_profile'' = c"
    by (cases rule: opt_member_cases [of opt "''headroom_profile''"]) auto
  show ?thesis
    unfolding normalizeOptimization_def a(2) b(2) c(2)
    using a(1) b(1) c(1)
    by (elim disjE exE conjE) (simp_all add: opt_member_def member_if_def n)
qed

text \<open>A prepaid team whose balance is used up is not capped but uncapped: with no budget of its own or
  of its organization, the team is left out of the snapshot once its balance is not positive, and the
  gateway then applies no limit; while the balance is positive it is in the snapshot as a cap.\<close>

theorem exhausted_team_uncapped:
  assumes "t_budget t = 0" and "t_org t = None"
  shows "(t_balance t \<le> 0 \<longrightarrow> team_json d t = [])
    \<and> (0 < t_balance t \<longrightarrow> (\<exists>fs. team_json d t = [(''team'', JObj fs)]
          \<and> lookup_or_undef fs ''balance_usd'' = rat_json (t_balance t)))"
  using assms by (auto simp: team_json_def org_budget_def find_org_def Let_def member_if_def)

theorem exhausted_team_uncapped_witness:
  "team_json empty_db \<lparr>t_id = 1, t_name = ''t'', t_enabled = True, t_budget = 0, t_balance = 0, t_org = None\<rparr> = []"
  using exhausted_team_uncapped [of "\<lparr>t_id = 1, t_name = ''t'', t_enabled = True, t_budget = 0, t_balance = 0, t_org = None\<rparr>"
      empty_db] by simp

section \<open>When compilation succeeds\<close>

text \<open>The canonical text rejects nothing but undefined values and numbers that are not finite.\<close>

fun plain :: "jv \<Rightarrow> bool" where
  "plain JUndef = False"
| "plain (JNum n) = (case n of Fin x \<Rightarrow> True | _ \<Rightarrow> False)"
| "plain (JArr vs) = list_all plain vs"
| "plain (JObj ps) = list_all (\<lambda>(k, v). plain v) ps"
| "plain v = True"

lemma all_or_error_Inr: "all_or_error xs = Inr ys \<Longrightarrow> xs = map Inr ys"
  by (induction xs arbitrary: ys) (auto split: sum.splits)

lemma all_or_error_total: "list_all (\<lambda>r. \<exists>x. r = Inr x) rs \<Longrightarrow> \<exists>xs. all_or_error rs = Inr xs"
  by (induction rs) auto

lemma canonicalJson_total: "plain v \<Longrightarrow> \<exists>t. canonicalJson num v = Inr t"
proof (induction v rule: plain.induct)
  case (3 vs)
  then have "\<exists>xs. all_or_error (map (canonicalJson num) vs) = Inr xs"
    by (intro all_or_error_total) (auto simp: list_all_iff)
  then show ?case by auto
next
  case (4 ps)
  have "list_all (\<lambda>r. \<exists>x. r = Inr x) (map member_text (sort_key fst (map (\<lambda>(k, v). (k, canonicalJson num v)) ps)))"
    using 4 by (fastforce simp: list_all_iff member_text_def split: sum.splits)
  then have "\<exists>xs. all_or_error (map member_text (sort_key fst (map (\<lambda>(k, v). (k, canonicalJson num v)) ps))) = Inr xs"
    by (rule all_or_error_total)
  then show ?case by auto
qed (auto split: jsnum.splits)

lemma plain_member_if [simp]: "list_all (\<lambda>(k, v). plain v) (member_if b k v) \<longleftrightarrow> (b \<longrightarrow> plain v)"
  by (simp add: member_if_def)

lemma plain_leaves [simp]: "plain (id_json i)" "plain (rat_json x)" "plain (int_json n)"
  by (simp_all add: id_json_def rat_json_def int_json_def)

lemma plain_team: "list_all (\<lambda>(k, v). plain v) (team_json d t)"
  by (simp add: team_json_def Let_def split: option.split)

lemma plain_key: "plain (key_json d k)"
  by (simp add: key_json_def plain_team list_all_iff [of plain "map JStr xs" for xs] split: option.split)

lemma plain_source: "plain (source_json ma)"
  by (simp add: source_json_def)

lemma plain_compiled: "compile_model d m = Inr e \<Longrightarrow> plain (model_json e)"
  by (auto simp: compile_model_def model_json_def Let_def list_all_iff [of plain "map f xs" for f xs] plain_source split: if_splits option.split)

lemma plain_not_blank: "\<not> blank v \<Longrightarrow> plain v"
  by (cases v) auto

lemma plain_account: "plain (account_json p a)"
  by (simp add: account_json_def plain_not_blank)

lemma plain_settings:
  assumes "routing d = None" and "settings d = []" and "list_all plain proxies" and "list_all (\<lambda>m. plain (model_json m)) models"
  shows "plain (snapshot_json d proxies models)"
proof -
  have "plain (resilience_json (get_prop default_routing ''resilience''))"
    by (simp add: resilience_json_def default_routing_def coalesce_def)
  moreover have "plain (normalizeOptimization (coalesce (setting ''optimization'' d) default_optimization))"
    using assms(2) by (simp add: setting_def coalesce_def normalizeOptimization_def default_optimization_def num_or_def opt_member_def)
  moreover have "webhook_json (setting ''webhook'' d) = []"
    using assms(2) by (simp add: setting_def webhook_json_def member_if_def)
  ultimately show ?thesis
    using assms plain_key plain_account
    by (auto simp: snapshot_json_def list_all_iff mcp_json_def default_routing_def member_if_def)
qed

lemma compile_total:
  assumes "routing d = None" and "settings d = []" and "compile_models d = Inr models"
    and "validateFallbackChains models = Inr u" and "validateCacheModes models = Inr w" and "enabled_keys d \<noteq> []"
  shows "\<exists>c. compileDeclarativeSnapshot env d = Inr c"
proof -
  have px: "proxy_pool (sn_web env) (setting ''proxy_pool'' d) = Inr []"
    using assms(2) by (simp add: setting_def proxy_pool_def)
  have "map (compile_model d) (sort_key m_alias (filter m_enabled (aliases d))) = map Inr models"
    using assms(3) by (auto simp: compile_models_def dest: all_or_error_Inr)
  then have "\<forall>e\<in>set models. \<exists>m. compile_model d m = Inr e"
    by (metis (no_types, lifting) image_iff list.set_map sum.inject(2))
  then have "list_all (\<lambda>m. plain (model_json m)) models"
    by (auto simp: list_all_iff dest: plain_compiled)
  then have "plain (snapshot_json d [] models)"
    using assms(1,2) by (intro plain_settings) auto
  then obtain t where "canonicalJson (num_text (sn_digest env)) (snapshot_json d [] models) = Inr t"
    using canonicalJson_total by blast
  then show ?thesis
    using assms px by (simp add: compileDeclarativeSnapshot_def sha256Canonical_def Let_def)
qed

end
