(* ===== verification/Control.thy ===== *)
theory Control
  imports Snapshots
begin

text \<open>
  Configuration versions and gateways: drafts, publication and acknowledgements of \<open>lib/control.ts\<close>,
  the envelope a gateway downloads (\<open>lib/snapshot-envelope.ts\<close>), the rollback of the control route, and
  the guard against private upstream addresses.  Versions are numbered by the database's counter, so
  the list of rows is in version order.
\<close>

section \<open>Drafts and publication\<close>

definition storeDraft :: "sn_env \<Rightarrow> (db, version_row) act" where
  "storeDraft env =
     bind_act (\<lambda>d. (compileDeclarativeSnapshot env d, d)) (\<lambda>c.
     bind_act fresh_id (\<lambda>v.
       let row = \<lparr>cv_version = v, cv_status = Draft, cv_checksum = cs_checksum c, cv_config_checksum = Some (cs_checksum c),
                  cv_schema = cs_schema c, cv_snapshot = cs_snapshot c, cv_errors = [], cv_published_at = None, cv_source = None\<rparr>
       in then_act (modify_act (\<lambda>d. d\<lparr>versions := versions d @ [row]\<rparr>)) (return_act row)))"

definition max_published :: "db \<Rightarrow> nat" where
  "max_published d = fold max (map cv_version (filter (\<lambda>r. cv_status r = Published) (versions d))) 0"

definition newest_draft :: "db \<Rightarrow> version_row option" where
  "newest_draft d =
     (case rev (sort_key cv_version (filter (\<lambda>r. cv_status r = Draft \<and> max_published d < cv_version r) (versions d))) of
        [] \<Rightarrow> None | r # _ \<Rightarrow> Some r)"

definition requiresSchemaV2 :: "jv \<Rightarrow> nat \<Rightarrow> bool" where
  "requiresSchemaV2 doc schemaVersion \<longleftrightarrow> 2 \<le> schemaVersion \<or>
     list_ex (\<lambda>a. get_prop a ''adapter'' = JStr ''codex'' \<or> get_prop a ''auth_type'' = JStr ''codex''
                  \<or> get_prop a ''credential_revision'' \<noteq> JUndef) (arr_of (get_prop doc ''accounts''))"

definition latest_ack :: "string \<Rightarrow> db \<Rightarrow> ack_row option" where
  "latest_ack gw d =
     (case sort_key (\<lambda>a. - ak_at a) (rev (filter (\<lambda>a. ak_gateway a = gw) (acks d))) of [] \<Rightarrow> None | a # _ \<Rightarrow> Some a)"

definition adopted_v2 :: "db \<Rightarrow> gateway_row \<Rightarrow> unit res" where
  "adopted_v2 d g =
     (if gi_envelope g < 2 \<or> 2 \<notin> set (gi_schemas g)
      then Inl (ApiError 426 ''upgrade_required'' (''Gateway '' @ gi_id g @ '' does not advertise schema v2 envelope support''))
      else case latest_ack (gi_id g) d of
        None \<Rightarrow> Inl (ApiError 426 ''upgrade_required'' (''Gateway '' @ gi_id g @ '' has not adopted schema v2 envelope''))
      | Some a \<Rightarrow>
          if ak_status a \<noteq> ''adopted'' \<or> ak_envelope a < 2 \<or> ak_schema a < 2
          then Inl (ApiError 426 ''upgrade_required'' (''Gateway '' @ gi_id g @ '' has not adopted schema v2 envelope''))
          else Inr ())"

definition active_gateways :: "sn_env \<Rightarrow> ms \<Rightarrow> db \<Rightarrow> gateway_row list" where
  "active_gateways env now d =
     sort_key gi_id (filter (\<lambda>g. now - sn_ttl_seconds env * 1000 \<le> gi_seen g) (gateways d))"

definition assertSchemaV2Publishable :: "sn_env \<Rightarrow> ms \<Rightarrow> db \<Rightarrow> unit res" where
  "assertSchemaV2Publishable env now d =
     (let act = active_gateways env now d
      in if length act < sn_min_gateways env
         then Inl (ApiError 409 ''insufficient_active_gateways''
                (''At least '' @ show_nat (sn_min_gateways env) @ '' active gateway(s) required''))
         else (case all_or_error (map (adopted_v2 d) act) of Inl e \<Rightarrow> Inl e | Inr _ \<Rightarrow> Inr ()))"

definition publish_row :: "sn_env \<Rightarrow> ms \<Rightarrow> version_row \<Rightarrow> (db, nat \<times> string) act" where
  "publish_row env now row =
     then_act (\<lambda>d. (if requiresSchemaV2 (cv_snapshot row) (cv_schema row) then assertSchemaV2Publishable env now d else Inr (), d))
     (then_act (modify_act (\<lambda>d. d\<lparr>versions := update_where (\<lambda>r. cv_version r = cv_version row)
                   (\<lambda>r. r\<lparr>cv_status := Published, cv_published_at := Some now\<rparr>) (versions d)\<rparr>))
     (then_act (audit ''publish'' ''config_version'' (Some (show_nat (cv_version row)))
                  (JObj [(''checksum'', JStr (cv_checksum row))]))
     (return_act (cv_version row, cv_checksum row))))"

definition publishLatest :: "sn_env \<Rightarrow> ms \<Rightarrow> (db, nat \<times> string) act" where
  "publishLatest env now =
     bind_act (gets_act newest_draft) (\<lambda>draft. case draft of
        Some row \<Rightarrow> publish_row env now row
      | None \<Rightarrow> bind_act (storeDraft env) (publish_row env now))"

text \<open>\<open>config-versions/rollback\<close> of the control route: a draft with the content of an old version and the
  current credential revisions.\<close>

definition refresh_revision :: "db \<Rightarrow> jv \<Rightarrow> jv" where
  "refresh_revision d v =
     (case doc_account d v of None \<Rightarrow> v
      | Some a \<Rightarrow> JObj (set_prop ''credential_revision'' (int_json (a_revision a)) (record_of v)))"

definition rollback :: "sn_env \<Rightarrow> nat \<Rightarrow> (db, nat \<times> string) act" where
  "rollback env source =
     txOn (bind_act (gets_act (\<lambda>d. find (\<lambda>r. cv_version r = source) (versions d))) (\<lambda>old. case old of
        None \<Rightarrow> throw (ApiError 404 ''not_found'' ''Source version not found'')
      | Some r \<Rightarrow>
         if cv_status r = Invalid
         then throw (ApiError 409 ''invalid_source'' ''Invalid config versions cannot be rollback sources'')
         else
          bind_act (gets_act (\<lambda>d. JObj (set_prop ''accounts''
              (JArr (map (refresh_revision d) (arr_of (get_prop (cv_snapshot r) ''accounts'')))) (record_of (cv_snapshot r))))) (\<lambda>doc.
          bind_act (lift_res (sha256Canonical (sn_digest env) doc)) (\<lambda>h.
          bind_act fresh_id (\<lambda>v.
          then_act (modify_act (\<lambda>d. d\<lparr>versions := versions d @
             [\<lparr>cv_version = v, cv_status = Draft, cv_checksum = h, cv_config_checksum = Some h,
               cv_schema = (case get_prop doc ''version'' of JNum (Fin x) \<Rightarrow> nat \<lfloor>x\<rfloor> | _ \<Rightarrow> 2), cv_snapshot = doc, cv_errors = [],
               cv_published_at = None, cv_source = Some source\<rparr>]\<rparr>))
          (then_act (audit ''rollback'' ''config_version'' (Some (show_nat v)) (JObj [(''source_version'', JNum (Fin (rat_of_nat source)))]))
          (return_act (v, h))))))))"

section \<open>Gateways\<close>

definition upsertGatewayHeartbeat :: "string \<Rightarrow> int list \<Rightarrow> int \<Rightarrow> ms \<Rightarrow> (db, unit) act" where
  "upsertGatewayHeartbeat gw schemas envelope now =
     modify_act (\<lambda>d. d\<lparr>gateways := upsert_where (\<lambda>g. gi_id g = gw)
        (\<lambda>g. g\<lparr>gi_schemas := schemas, gi_envelope := envelope, gi_seen := now\<rparr>)
        \<lparr>gi_id = gw, gi_schemas = schemas, gi_envelope = envelope, gi_seen = now\<rparr> (gateways d)\<rparr>)"

record ack_input =
  ai_gateway :: string
  ai_version :: nat
  ai_checksum :: string
  ai_status :: string
  ai_error :: "string option"
  ai_schema :: "nat option"
  ai_config :: "string option"
  ai_credential :: "string option"
  ai_runtime :: "string option"
  ai_envelope :: "nat option"

definition ack_row_of :: "ack_input \<Rightarrow> ms \<Rightarrow> ack_row" where
  "ack_row_of i now =
     \<lparr>ak_gateway = ai_gateway i, ak_version = ai_version i, ak_checksum = ai_checksum i, ak_status = ai_status i,
      ak_error = ai_error i, ak_schema = (case ai_schema i of None \<Rightarrow> 1 | Some n \<Rightarrow> n),
      ak_config_checksum = (case ai_config i of None \<Rightarrow> ai_checksum i | Some s \<Rightarrow> s),
      ak_credential_digest = ai_credential i,
      ak_runtime_checksum = (case ai_runtime i of None \<Rightarrow> ai_checksum i | Some s \<Rightarrow> s),
      ak_envelope = (case ai_envelope i of None \<Rightarrow> 1 | Some n \<Rightarrow> n), ak_at = now\<rparr>"

text \<open>The expressions of the unique index of migration 004.\<close>

definition ack_key :: "ack_row \<Rightarrow> string \<times> nat \<times> string \<times> nat \<times> string \<times> string \<times> string \<times> nat" where
  "ack_key a = (ak_gateway a, ak_version a, ak_status a, ak_schema a, ak_config_checksum a,
     (case ak_credential_digest a of None \<Rightarrow> [] | Some s \<Rightarrow> s), ak_runtime_checksum a, ak_envelope a)"

definition check_ack :: "sn_env \<Rightarrow> ack_input \<Rightarrow> db \<Rightarrow> unit res" where
  "check_ack env i d =
     (if (case ai_envelope i of None \<Rightarrow> 1 | Some n \<Rightarrow> n) < 2 then Inr ()
      else if \<not> (case find (\<lambda>g. gi_id g = ai_gateway i) (gateways d) of
                  None \<Rightarrow> False
                | Some g \<Rightarrow> 2 \<le> gi_envelope g \<and> int (case ai_schema i of None \<Rightarrow> 0 | Some n \<Rightarrow> n) \<in> set (gi_schemas g))
      then Inl (ApiError 409 ''gateway_capability_mismatch'' ''Acknowledgement exceeds the persisted gateway capability'')
      else case find (\<lambda>r. cv_version r = ai_version i) (versions d) of
        None \<Rightarrow> Inl (ApiError 404 ''config_version_not_found'' ''Acknowledged configuration version does not exist'')
      | Some v \<Rightarrow>
          if cv_status v \<noteq> Published
          then Inl (ApiError 409 ''ack_version_not_published'' ''Acknowledged configuration version is not published'')
          else case credentialDigestForDeclarative env (cv_snapshot v) d of
            Inl e \<Rightarrow> Inl e
          | Inr digest \<Rightarrow>
              (case materializeRuntimeSnapshot env (cv_snapshot v) d of
                 Inl e \<Rightarrow> Inl e
               | Inr runtime \<Rightarrow>
                   (case sha256Canonical (sn_digest env) runtime of
                      Inl e \<Rightarrow> Inl e
                    | Inr h \<Rightarrow>
                        if Some (cv_schema v) \<noteq> ai_schema i
                           \<or> Some (case cv_config_checksum v of None \<Rightarrow> cv_checksum v | Some s \<Rightarrow> s) \<noteq> ai_config i
                           \<or> Some digest \<noteq> ai_credential i \<or> Some h \<noteq> ai_runtime i
                        then Inl (ApiError 409 ''ack_identity_mismatch''
                               ''Acknowledgement identity does not match the materialized configuration'')
                        else Inr ())))"

definition persistGatewayAck :: "sn_env \<Rightarrow> ack_input \<Rightarrow> ms \<Rightarrow> (db, unit) act" where
  "persistGatewayAck env i now =
     then_act (\<lambda>d. (check_ack env i d, d))
     (bind_act (gets_act (\<lambda>d. list_ex (\<lambda>r. cv_version r = ai_version i) (versions d))) (\<lambda>ok.
      then_act (guard_act ok (DbError ''gateway_config_acks_version_fkey''))
      (modify_act (\<lambda>d. d\<lparr>acks := upsert_where (\<lambda>a. ack_key a = ack_key (ack_row_of i now))
         (\<lambda>a. a\<lparr>ak_error := ai_error i, ak_at := now\<rparr>) (ack_row_of i now) (acks d)\<rparr>))))"

section \<open>The envelope\<close>

record gateway_request =
  gr_id :: "string option"
  gr_schemas :: "string option"
  gr_envelope :: "string option"

definition parseSchemas :: "string option \<Rightarrow> int list" where
  "parseSchemas v =
     (case v of None \<Rightarrow> []
      | Some s \<Rightarrow> concat (map (\<lambda>part. case js_number (js_trim part) of
                                  Fin x \<Rightarrow> if is_integer (Fin x) then [\<lfloor>x\<rfloor>] else []
                                | _ \<Rightarrow> []) (js_split (CHR '','') s)))"

definition advertised_envelope :: "string option \<Rightarrow> int option" where
  "advertised_envelope v =
     (case (case v of None \<Rightarrow> Fin 1 | Some s \<Rightarrow> js_number s) of
        Fin x \<Rightarrow> if is_integer (Fin x) then Some \<lfloor>x\<rfloor> else None | _ \<Rightarrow> None)"

datatype envelope =
    LegacyEnvelope nat string jv
  | EnvelopeV2 nat nat string string string jv

definition published_row :: "db \<Rightarrow> version_row option" where
  "published_row d =
     (case rev (sort_key cv_version (filter (\<lambda>r. cv_status r = Published) (versions d))) of [] \<Rightarrow> None | r # _ \<Rightarrow> Some r)"

definition v2_only :: "jv \<Rightarrow> bool" where
  "v2_only doc \<longleftrightarrow> list_ex (\<lambda>a. truthy (get_prop a ''adapter'') \<and> get_prop a ''adapter'' \<noteq> JStr ''openai-compatible'')
     (arr_of (get_prop doc ''accounts''))"

definition build_envelope :: "sn_env \<Rightarrow> bool \<Rightarrow> version_row \<Rightarrow> db \<Rightarrow> envelope res" where
  "build_envelope env v2Capable row d =
     (if v2_only (cv_snapshot row) \<and> \<not> v2Capable
      then Inl (ApiError 426 ''upgrade_required'' ''Published snapshot requires schema version 2 support'')
      else if v2Capable \<and> 2 \<le> cv_schema row
      then (case materializeRuntimeSnapshot env (cv_snapshot row) d of
              Inl e \<Rightarrow> Inl e
            | Inr s \<Rightarrow>
               (case sha256Canonical (sn_digest env) s of
                  Inl e \<Rightarrow> Inl e
                | Inr h \<Rightarrow>
                   (case credentialDigestFromDeclarative env s of
                      Inl e \<Rightarrow> Inl e
                    | Inr cd \<Rightarrow> Inr (EnvelopeV2 (cv_version row) (cv_schema row)
                        (case cv_config_checksum row of None \<Rightarrow> cv_checksum row | Some c \<Rightarrow> c) cd h s))))
      else (case materializeLegacyRuntimeSnapshot env (cv_snapshot row) d of
              Inl e \<Rightarrow> Inl e
            | Inr s \<Rightarrow> (case sha256Canonical (sn_digest env) s of
                Inl e \<Rightarrow> Inl e | Inr h \<Rightarrow> Inr (LegacyEnvelope (cv_version row) h s))))"

definition v2_capable :: "string option \<Rightarrow> db \<Rightarrow> bool" where
  "v2_capable gw d =
     (case gw of None \<Rightarrow> False
      | Some i \<Rightarrow> (case find (\<lambda>g. gi_id g = i) (gateways d) of
                     None \<Rightarrow> False | Some g \<Rightarrow> 2 \<le> gi_envelope g \<and> 2 \<in> set (gi_schemas g)))"

definition snapshotEnvelope :: "sn_env \<Rightarrow> gateway_request \<Rightarrow> ms \<Rightarrow> (db, envelope option) act" where
  "snapshotEnvelope env req now =
     bind_act (gets_act published_row) (\<lambda>row. case row of
       None \<Rightarrow> return_act None
     | Some r \<Rightarrow>
         (let gw = (if gr_id req = Some [] then None else gr_id req); schemas = parseSchemas (gr_schemas req)
          in then_act (case (gw, advertised_envelope (gr_envelope req)) of
                 (Some i, Some e) \<Rightarrow> if schemas \<noteq> [] then upsertGatewayHeartbeat i schemas e now else return_act ()
               | _ \<Rightarrow> return_act ())
             (\<lambda>d. (case build_envelope env (v2_capable gw d) r d of Inl e \<Rightarrow> Inl e | Inr x \<Rightarrow> Inr (Some x), d))))"

section \<open>Sequences of calls\<close>

text \<open>The requests that touch versions, gateways and acknowledgements; each runs in a transaction.\<close>

datatype control_call =
    DraftCall
  | PublishCall ms
  | RollbackCall nat
  | AckCall ack_input ms
  | PollCall gateway_request ms

fun control_run :: "sn_env \<Rightarrow> control_call \<Rightarrow> db \<Rightarrow> db" where
  "control_run env DraftCall d = snd (txOn (storeDraft env) d)"
| "control_run env (PublishCall now) d = snd (txOn (publishLatest env now) d)"
| "control_run env (RollbackCall v) d = snd (rollback env v d)"
| "control_run env (AckCall i now) d = snd (txOn (persistGatewayAck env i now) d)"
| "control_run env (PollCall req now) d = snd (txOn (snapshotEnvelope env req now) d)"

definition control_ok :: "db \<Rightarrow> bool" where
  "control_ok d \<longleftrightarrow> distinct (map cv_version (versions d)) \<and> (\<forall>r\<in>set (versions d). cv_version r < next_id d)
     \<and> (\<forall>r\<in>set (versions d). cv_status r = Published \<longrightarrow> cv_published_at r \<noteq> None)
     \<and> distinct (map gi_id (gateways d)) \<and> distinct (map ack_key (acks d))
     \<and> (\<forall>a\<in>set (acks d). ak_version a \<in> cv_version ` set (versions d))"

subsection \<open>Effects of the steps\<close>

lemma storeDraft_apply:
  "storeDraft env d = (case compileDeclarativeSnapshot env d of
     Inl e \<Rightarrow> (Inl e, d)
   | Inr c \<Rightarrow> (let row = \<lparr>cv_version = next_id d, cv_status = Draft, cv_checksum = cs_checksum c, cv_config_checksum = Some (cs_checksum c),
                  cv_schema = cs_schema c, cv_snapshot = cs_snapshot c, cv_errors = [], cv_published_at = None, cv_source = None\<rparr>
               in (Inr row, d\<lparr>next_id := Suc (next_id d), versions := versions d @ [row]\<rparr>)))"
  by (simp add: storeDraft_def act_defs fresh_id_def Let_def split: sum.splits)

definition with_draft :: "compiled \<Rightarrow> db \<Rightarrow> db" where
  "with_draft c d = d\<lparr>next_id := Suc (next_id d), versions := versions d @
     [\<lparr>cv_version = next_id d, cv_status = Draft, cv_checksum = cs_checksum c, cv_config_checksum = Some (cs_checksum c),
       cv_schema = cs_schema c, cv_snapshot = cs_snapshot c, cv_errors = [], cv_published_at = None, cv_source = None\<rparr>]\<rparr>"

lemma then_storeDraft:
  "then_act (storeDraft env) k d =
     (case compileDeclarativeSnapshot env d of Inl e \<Rightarrow> (Inl e, d) | Inr c \<Rightarrow> k (with_draft c d))"
  by (simp add: then_act_def bind_act_def storeDraft_apply with_draft_def Let_def split: sum.split)

lemma with_draft_simps [simp]:
  "aliases (with_draft c d) = aliases d" "vkeys (with_draft c d) = vkeys d" "accounts (with_draft c d) = accounts d"
  "providers (with_draft c d) = providers d" "secrets (with_draft c d) = secrets d" "mappings (with_draft c d) = mappings d"
  "pricing (with_draft c d) = pricing d" "discovered (with_draft c d) = discovered d" "operations (with_draft c d) = operations d"
  "pstates (with_draft c d) = pstates d" "teams (with_draft c d) = teams d" "orgs (with_draft c d) = orgs d" "mcps (with_draft c d) = mcps d"
  "settings (with_draft c d) = settings d" "routing (with_draft c d) = routing d" "audits (with_draft c d) = audits d"
  by (simp_all add: with_draft_def)

lemma storeDraft_InrE:
  assumes "storeDraft env d = (Inr row, d1)"
  obtains c where "compileDeclarativeSnapshot env d = Inr c"
    and "row = \<lparr>cv_version = next_id d, cv_status = Draft, cv_checksum = cs_checksum c, cv_config_checksum = Some (cs_checksum c),
                cv_schema = cs_schema c, cv_snapshot = cs_snapshot c, cv_errors = [], cv_published_at = None, cv_source = None\<rparr>"
    and "d1 = d\<lparr>next_id := Suc (next_id d), versions := versions d @ [row]\<rparr>"
  using assms by (auto simp: storeDraft_apply Let_def split: sum.splits)

definition mark_published :: "ms \<Rightarrow> nat \<Rightarrow> version_row list \<Rightarrow> version_row list" where
  "mark_published now v = update_where (\<lambda>r. cv_version r = v) (\<lambda>r. r\<lparr>cv_status := Published, cv_published_at := Some now\<rparr>)"

lemma publish_row_InrE:
  assumes "publish_row env now row d = (Inr (v, c), d')"
  obtains au where "requiresSchemaV2 (cv_snapshot row) (cv_schema row) \<Longrightarrow> assertSchemaV2Publishable env now d = Inr ()"
    and "v = cv_version row" and "c = cv_checksum row"
    and "d' = d\<lparr>versions := mark_published now (cv_version row) (versions d), audits := au\<rparr>"
  using assms
  by (auto simp: publish_row_def act_defs audit_def mark_published_def split: sum.splits if_splits)

lemma map_mark_published [simp]:
  "map cv_version (mark_published now v rs) = map cv_version rs"
  "cv_version ` set (mark_published now v rs) = cv_version ` set rs"
  by (induction rs) (auto simp: mark_published_def update_where_def)

lemma set_mark_published:
  "set (mark_published now v rs) =
     (\<lambda>r. if cv_version r = v then r\<lparr>cv_status := Published, cv_published_at := Some now\<rparr> else r) ` set rs"
  by (simp add: mark_published_def update_where_def)

lemma upsert_keys:
  assumes "\<And>r. p r \<longleftrightarrow> key r = key new" and "\<And>r. key (f r) = key r" and "distinct (map key rs)"
  shows "distinct (map key (upsert_where p f new rs))"
proof -
  have "map key (update_where p f rs) = map key rs"
    using assms(2) by (simp add: update_where_def)
  then show ?thesis
    using assms by (auto simp: upsert_where_def list_ex_iff image_iff)
qed

lemma newest_draft_Some:
  assumes "newest_draft d = Some r"
  shows "r \<in> set (versions d)" and "cv_status r = Draft" and "max_published d < cv_version r"
    and "\<And>q. q \<in> set (versions d) \<Longrightarrow> cv_status q = Draft \<Longrightarrow> cv_version q \<le> cv_version r"
proof -
  let ?xs = "sort_key cv_version (filter (\<lambda>r. cv_status r = Draft \<and> max_published d < cv_version r) (versions d))"
  obtain t where t: "rev ?xs = r # t"
    using assms by (auto simp: newest_draft_def split: list.splits)
  then have xs: "?xs = rev t @ [r]"
    by (metis rev.simps(2) rev_rev_ident)
  have "r \<in> set ?xs" by (simp only: xs) simp
  then show "r \<in> set (versions d)" "cv_status r = Draft" "max_published d < cv_version r"
    by auto
  fix q assume q: "q \<in> set (versions d)" "cv_status q = Draft"
  have "sorted (map cv_version (rev t @ [r]))"
    using sorted_sort_key [of cv_version] by (metis xs)
  then have le: "y \<in> set ?xs \<Longrightarrow> cv_version y \<le> cv_version r" for y
    by (simp only: xs) (auto simp: sorted_append)
  show "cv_version q \<le> cv_version r"
    using le [of q] q \<open>max_published d < cv_version r\<close> by (cases "max_published d < cv_version q") auto
qed

lemma fold_max_ge: "x \<in> set xs \<Longrightarrow> x \<le> fold max xs (a::nat)"
  by (metis List.finite_set Max.set_eq_fold Max_ge list.set_intros(2) list.simps(15) insert_iff)

lemma max_published_ge: "r \<in> set (versions d) \<Longrightarrow> cv_status r = Published \<Longrightarrow> cv_version r \<le> max_published d"
  unfolding max_published_def by (rule fold_max_ge) auto

text \<open>The invariant, shown for each step.\<close>

lemma control_ok_new_version:
  assumes "control_ok d" and "cv_version row = next_id d" and "cv_status row = Draft"
  shows "control_ok (d\<lparr>next_id := Suc (next_id d), versions := versions d @ [row]\<rparr>)"
  using assms unfolding control_ok_def by (auto simp: less_Suc_eq)

lemma control_ok_audits [simp]: "control_ok (d\<lparr>audits := au\<rparr>) = control_ok d"
  by (simp add: control_ok_def)

lemma control_ok_mark: "control_ok d \<Longrightarrow> control_ok (d\<lparr>versions := mark_published now v (versions d)\<rparr>)"
  unfolding control_ok_def
  by (simp add: map_mark_published [of now v "versions d"]) (auto simp: set_mark_published)

lemma storeDraft_control_ok:
  assumes "storeDraft env d = (Inr row, d1)" and "control_ok d"
  shows "control_ok d1"
  using assms by (elim storeDraft_InrE) (simp add: control_ok_new_version)

lemma publish_row_control_ok:
  assumes "publish_row env now row d = (Inr x, d1)" and "control_ok d"
  shows "control_ok d1"
proof -
  obtain v c where "x = (v, c)" by (cases x)
  then show ?thesis
    using assms control_ok_mark [OF assms(2)] by (auto elim!: publish_row_InrE)
qed

lemma publishLatest_InrE:
  assumes "publishLatest env now d = (Inr x, d')"
  obtains (draft) row where "newest_draft d = Some row" and "publish_row env now row d = (Inr x, d')"
    | (compiled) row d1 where "newest_draft d = None" and "storeDraft env d = (Inr row, d1)"
        and "publish_row env now row d1 = (Inr x, d')"
  using assms by (cases "newest_draft d") (auto simp: publishLatest_def bind_gets elim!: bind_act_InrE)

lemma rollback_InrE:
  assumes "rollback env v d = (Inr x, d')"
  obtains r row au where "r \<in> set (versions d)" and "cv_version r = v" and "cv_status r \<noteq> Invalid"
    and "cv_version row = next_id d" and "cv_status row = Draft" and "cv_source row = Some v"
    and "get_prop (cv_snapshot row) ''version'' = get_prop (cv_snapshot r) ''version''"
    and "cv_schema row = (case get_prop (cv_snapshot r) ''version'' of JNum (Fin x) \<Rightarrow> nat \<lfloor>x\<rfloor> | _ \<Rightarrow> 2)"
    and "d' = d\<lparr>next_id := Suc (next_id d), versions := versions d @ [row], audits := au\<rparr>"
proof -
  obtain r where r: "find (\<lambda>r. cv_version r = v) (versions d) = Some r" and inv: "cv_status r \<noteq> Invalid"
    using assms by (auto simp: rollback_def txOn_Inr_iff act_defs split: option.splits if_splits)
  let ?doc = "JObj (set_prop ''accounts'' (JArr (map (refresh_revision d) (arr_of (get_prop (cv_snapshot r) ''accounts''))))
     (record_of (cv_snapshot r)))"
  have ver: "get_prop ?doc ''version'' = get_prop (cv_snapshot r) ''version''"
    by (cases "cv_snapshot r") (simp_all add: lookup_set_prop)
  obtain h where h: "sha256Canonical (sn_digest env) ?doc = Inr h"
    using assms r inv by (auto simp: rollback_def txOn_Inr_iff act_defs split: sum.splits)
  have "rollback env v d = (Inr (next_id d, h), d')"
    using assms r inv h by (auto simp: rollback_def txOn_Inr_iff act_defs fresh_id_def audit_def)
  then show thesis
    using r inv h ver find_Some_set [OF r]
    by (intro that [of r "last (versions d')" "audits d'"]) (auto simp: rollback_def txOn_Inr_iff act_defs fresh_id_def audit_def)
qed

lemma rollback_control_ok: "rollback env v d = (Inr x, d') \<Longrightarrow> control_ok d \<Longrightarrow> control_ok d'"
  by (elim rollback_InrE) (use control_ok_new_version in fastforce)

lemma persistGatewayAck_InrE:
  assumes "persistGatewayAck env i now d = (Inr x, d')"
  obtains "check_ack env i d = Inr ()" and "ai_version i \<in> cv_version ` set (versions d)"
    and "d' = d\<lparr>acks := upsert_where (\<lambda>a. ack_key a = ack_key (ack_row_of i now))
         (\<lambda>a. a\<lparr>ak_error := ai_error i, ak_at := now\<rparr>) (ack_row_of i now) (acks d)\<rparr>"
  using assms
  by (auto simp: persistGatewayAck_def act_defs list_ex_iff image_iff eq_commute [of _ "ai_version i"] split: sum.splits if_splits)

lemma set_upsert_where: "set (upsert_where p f new rs) \<subseteq> insert new ((\<lambda>r. if p r then f r else r) ` set rs)"
  by (auto simp: upsert_where_def update_where_def)

lemma persistGatewayAck_control_ok:
  assumes "persistGatewayAck env i now d = (Inr x, d')" and "control_ok d"
  shows "control_ok d'"
  using assms(1)
proof (cases rule: persistGatewayAck_InrE)
  case 1
  have "distinct (map ack_key (upsert_where (\<lambda>a. ack_key a = ack_key (ack_row_of i now))
         (\<lambda>a. a\<lparr>ak_error := ai_error i, ak_at := now\<rparr>) (ack_row_of i now) (acks d)))"
    using assms(2) by (intro upsert_keys) (auto simp: ack_key_def control_ok_def)
  then have "distinct (map ack_key (acks d'))"
    by (simp add: 1(3))
  moreover have "\<forall>a\<in>set (acks d'). ak_version a \<in> cv_version ` set (versions d)"
    using assms(2) 1(2) set_upsert_where [of _ _ _ "acks d"]
    by (fastforce simp: 1(3) control_ok_def ack_row_of_def split: if_splits)
  ultimately show ?thesis
    using assms(2) by (simp add: control_ok_def 1(3))
qed

lemma snd_then_read: "snd (then_act m (\<lambda>s. (f s, s)) s) = snd (m s)"
  by (simp add: then_act_def bind_act_def split: prod.splits sum.splits)

lemma snapshotEnvelope_state:
  "snd (snapshotEnvelope env req now d) = d \<or>
   (\<exists>i schemas e. snd (snapshotEnvelope env req now d) = snd (upsertGatewayHeartbeat i schemas e now d))"
  by (cases "published_row d"; cases "advertised_envelope (gr_envelope req)"; cases "gr_id req")
     (auto simp: snapshotEnvelope_def bind_gets Let_def snd_then_read return_act_apply)

lemma heartbeat_control_ok:
  assumes "control_ok d"
  shows "control_ok (snd (upsertGatewayHeartbeat i schemas e now d))"
proof -
  have "distinct (map gi_id (upsert_where (\<lambda>g. gi_id g = i) (\<lambda>g. g\<lparr>gi_schemas := schemas, gi_envelope := e, gi_seen := now\<rparr>)
      \<lparr>gi_id = i, gi_schemas = schemas, gi_envelope = e, gi_seen = now\<rparr> (gateways d)))"
    using assms by (intro upsert_keys) (auto simp: control_ok_def)
  then show ?thesis
    using assms by (simp add: upsertGatewayHeartbeat_def act_defs control_ok_def)
qed

lemma tx_preserves:
  assumes "I s" and "\<And>x t. m s = (Inr x, t) \<Longrightarrow> I t"
  shows "I (snd (txOn m s))"
  by (cases rule: txOn_cases [of m s]) (use assms in auto)

lemma publishLatest_control_ok:
  assumes "publishLatest env now d = (Inr x, d')" and "control_ok d"
  shows "control_ok d'"
  using assms(1)
  by (cases rule: publishLatest_InrE) (metis assms(2) publish_row_control_ok storeDraft_control_ok)+

lemma control_run_ok:
  assumes "control_ok d"
  shows "control_ok (control_run env call d)"
proof (cases call)
  case DraftCall
  show ?thesis
    unfolding DraftCall control_run.simps
    by (rule tx_preserves [where I = control_ok, OF assms]) (rule storeDraft_control_ok [OF _ assms])
next
  case (PublishCall now)
  show ?thesis
    unfolding PublishCall control_run.simps
    by (rule tx_preserves [where I = control_ok, OF assms]) (rule publishLatest_control_ok [OF _ assms])
next
  case (RollbackCall v)
  have "control_ok (snd (txOn (rollback env v) d))"
    by (rule tx_preserves [where I = control_ok, OF assms]) (rule rollback_control_ok [OF _ assms])
  moreover have "txOn (rollback env v) d = rollback env v d"
    unfolding rollback_def by (rule txOn_cases) (auto simp: txOn_def split: prod.splits sum.splits)
  ultimately show ?thesis
    by (simp add: RollbackCall)
next
  case (AckCall i now)
  show ?thesis
    unfolding AckCall control_run.simps
    by (rule tx_preserves [where I = control_ok, OF assms]) (rule persistGatewayAck_control_ok [OF _ assms])
next
  case (PollCall req now)
  have "control_ok (snd (snapshotEnvelope env req now d))"
    using snapshotEnvelope_state [of env req now d] heartbeat_control_ok [OF assms] assms by metis
  then show ?thesis
    unfolding PollCall control_run.simps by (intro tx_preserves [where I = control_ok, OF assms]) auto
qed

section \<open>What the control plane promises\<close>

text \<open>C18: for any sequence of drafts, publications, rollbacks, acknowledgements and polls, version
  numbers stay unique and below the counter, published versions carry their time, gateways and
  acknowledgement identities stay unique and every acknowledgement refers to an existing version.\<close>

theorem control_invariant:
  assumes "control_ok d"
  shows "control_ok (fold (control_run env) calls d)"
  using assms by (induction calls arbitrary: d) (auto intro: control_run_ok)

lemma publishable_gate:
  assumes "assertSchemaV2Publishable env now d = Inr ()"
  shows "sn_min_gateways env \<le> length (active_gateways env now d)"
    and "g \<in> set (active_gateways env now d) \<Longrightarrow> adopted_v2 d g = Inr ()"
proof -
  obtain us where "all_or_error (map (adopted_v2 d) (active_gateways env now d)) = Inr us"
    and len: "sn_min_gateways env \<le> length (active_gateways env now d)"
    using assms by (auto simp: assertSchemaV2Publishable_def Let_def split: if_splits sum.splits)
  then have eq: "map (adopted_v2 d) (active_gateways env now d) = map Inr us"
    by (blast dest: all_or_error_Inr)
  show "sn_min_gateways env \<le> length (active_gateways env now d)" by (rule len)
  assume "g \<in> set (active_gateways env now d)"
  then have "adopted_v2 d g \<in> set (map Inr us)" by (simp flip: eq)
  then show "adopted_v2 d g = Inr ()" by auto
qed

definition speaks_v2 :: "db \<Rightarrow> gateway_row \<Rightarrow> bool" where
  "speaks_v2 d g \<longleftrightarrow> 2 \<le> gi_envelope g \<and> 2 \<in> set (gi_schemas g) \<and>
     (case latest_ack (gi_id g) d of None \<Rightarrow> False
      | Some a \<Rightarrow> ak_status a = ''adopted'' \<and> 2 \<le> ak_envelope a \<and> 2 \<le> ak_schema a)"

lemma adopted_v2_iff: "adopted_v2 d g = Inr () \<longleftrightarrow> speaks_v2 d g"
  by (auto simp: adopted_v2_def speaks_v2_def split: option.splits)

lemma published_row_greatest:
  assumes "r \<in> set (versions d)" and "cv_status r = Published" and "distinct (map cv_version (versions d))"
    and "\<And>q. q \<in> set (versions d) \<Longrightarrow> cv_status q = Published \<Longrightarrow> cv_version q \<le> cv_version r"
  shows "published_row d = Some r"
proof -
  define xs where "xs = sort_key cv_version (filter (\<lambda>r. cv_status r = Published) (versions d))"
  have r: "r \<in> set xs" using assms by (simp add: xs_def)
  then have ne: "xs \<noteq> []" by auto
  then have "last xs \<in> set xs" by (rule last_in_set)
  then have l: "last xs \<in> set (versions d)" "cv_version (last xs) \<le> cv_version r"
    using assms(4) by (auto simp: xs_def)
  have "sorted (map cv_version (butlast xs @ [last xs]))"
    using ne by (simp add: xs_def)
  then have "\<forall>y\<in>set (butlast xs @ [last xs]). cv_version y \<le> cv_version (last xs)"
    by (auto simp: sorted_append simp del: append_butlast_last_id)
  then have "cv_version r \<le> cv_version (last xs)"
    using ne r by simp
  then have "last xs = r"
    using l assms(1,3) by (metis antisym unique_key_eq)
  moreover have "rev xs = last xs # rev (butlast xs)"
    using ne by (metis append_butlast_last_id rev_eq_Cons_iff rev_rev_ident)
  ultimately show ?thesis by (simp only: published_row_def xs_def [symmetric] list.case)
qed

lemma publish_row_correct:
  assumes "control_ok d" and "publish_row env now row d = (Inr (v, c), d')" and "row \<in> set (versions d)"
    and "\<And>q. q \<in> set (versions d) \<Longrightarrow> cv_status q = Published \<Longrightarrow> cv_version q < cv_version row"
  shows "published_row d' = Some (row\<lparr>cv_status := Published, cv_published_at := Some now\<rparr>)"
    and "v = cv_version row" and "c = cv_checksum row"
    and "requiresSchemaV2 (cv_snapshot row) (cv_schema row) \<Longrightarrow> assertSchemaV2Publishable env now d = Inr ()"
    and "q \<in> set (versions d) \<Longrightarrow> cv_version q \<noteq> v \<Longrightarrow> q \<in> set (versions d')"
proof -
  obtain au where eqs: "v = cv_version row" "c = cv_checksum row"
    "d' = d\<lparr>versions := mark_published now (cv_version row) (versions d), audits := au\<rparr>"
    and gate: "requiresSchemaV2 (cv_snapshot row) (cv_schema row) \<Longrightarrow> assertSchemaV2Publishable env now d = Inr ()"
    using publish_row_InrE [OF assms(2)] by metis
  show "v = cv_version row" "c = cv_checksum row" by (fact eqs)+
  show "requiresSchemaV2 (cv_snapshot row) (cv_schema row) \<Longrightarrow> assertSchemaV2Publishable env now d = Inr ()"
    by (fact gate)
  show "q \<in> set (versions d')" if "q \<in> set (versions d)" "cv_version q \<noteq> v"
    using that by (auto simp: eqs set_mark_published)
  show "published_row d' = Some (row\<lparr>cv_status := Published, cv_published_at := Some now\<rparr>)"
  proof (rule published_row_greatest)
    show "row\<lparr>cv_status := Published, cv_published_at := Some now\<rparr> \<in> set (versions d')"
      using assms(3) by (auto simp: eqs set_mark_published image_iff intro!: bexI [of _ row])
    show "distinct (map cv_version (versions d'))"
      using assms(1) by (simp add: eqs control_ok_def)
    show "cv_version q \<le> cv_version (row\<lparr>cv_status := Published, cv_published_at := Some now\<rparr>)"
      if "q \<in> set (versions d')" "cv_status q = Published" for q
      using that assms(4) by (auto simp: eqs set_mark_published less_imp_le)
  qed simp
qed

text \<open>C9: a successful publication makes a version current that is newer than every version published
  before, returns its number and checksum, leaves the other versions alone, and when the version
  needs schema 2 it happened only because at least the configured number of gateways is active
  and each of them advertises schema 2 and last acknowledged adopting it.\<close>

theorem publishLatest_correct:
  assumes "control_ok d" and "publishLatest env now d = (Inr (v, c), d')"
  shows "\<exists>r. published_row d' = Some r \<and> cv_version r = v \<and> cv_checksum r = c
     \<and> (\<forall>q\<in>set (versions d). cv_status q = Published \<longrightarrow> cv_version q < v)
     \<and> (\<forall>q\<in>set (versions d). cv_version q \<noteq> v \<longrightarrow> q \<in> set (versions d'))
     \<and> (requiresSchemaV2 (cv_snapshot r) (cv_schema r) \<longrightarrow>
          sn_min_gateways env \<le> length (active_gateways env now d)
          \<and> (\<forall>g\<in>set (active_gateways env now d). speaks_v2 d g))"
  using assms(2)
proof (cases rule: publishLatest_InrE)
  case (draft row)
  have lt: "\<And>q. q \<in> set (versions d) \<Longrightarrow> cv_status q = Published \<Longrightarrow> cv_version q < cv_version row"
    using newest_draft_Some(3) [OF draft(1)] max_published_ge [of _ d] by (meson le_less_trans)
  note pub = publish_row_correct [OF assms(1) draft(2) newest_draft_Some(1) [OF draft(1)] lt]
  show ?thesis
    using pub lt publishable_gate [of env now d]
    by (intro exI [of _ "row\<lparr>cv_status := Published, cv_published_at := Some now\<rparr>"]) (simp add: adopted_v2_iff)
next
  case (compiled row d1)
  obtain c' where row: "cv_version row = next_id d" "cv_status row = Draft"
    and d1: "d1 = d\<lparr>next_id := Suc (next_id d), versions := versions d @ [row]\<rparr>"
    using storeDraft_InrE [OF compiled(2)] by (metis version_row.select_convs(1,2))
  have lt: "\<And>q. q \<in> set (versions d) \<Longrightarrow> cv_status q = Published \<Longrightarrow> cv_version q < cv_version row"
    using assms(1) row by (simp add: control_ok_def)
  then have lt1: "\<And>q. q \<in> set (versions d1) \<Longrightarrow> cv_status q = Published \<Longrightarrow> cv_version q < cv_version row"
    using row(2) by (auto simp: d1)
  have mem: "row \<in> set (versions d1)" and sub: "\<And>q. q \<in> set (versions d) \<Longrightarrow> q \<in> set (versions d1)"
    by (simp_all add: d1)
  note pub = publish_row_correct [OF storeDraft_control_ok [OF compiled(2) assms(1)] compiled(3) mem lt1]
  have same: "active_gateways env now d1 = active_gateways env now d" "speaks_v2 d1 = speaks_v2 d"
    by (simp_all add: d1 active_gateways_def speaks_v2_def latest_ack_def fun_eq_iff)
  show ?thesis
    using pub lt publishable_gate [of env now d1]
    by (intro exI [of _ "row\<lparr>cv_status := Published, cv_published_at := Some now\<rparr>"]) (simp add: adopted_v2_iff same sub)
qed

subsection \<open>A gateway can acknowledge what it downloads\<close>

definition ident_json :: "account_row \<Rightarrow> jv" where
  "ident_json a = JObj [(''id'', id_json (a_id a)), (''credential_revision'', int_json (a_revision a))]"

lemma credential_identity_runtime:
  assumes "runtime_account d v = Inr w"
  obtains a where "doc_account d v = Some a" and "credential_identity w = ident_json a"
proof -
  obtain a where a: "doc_account d v = Some a"
    using assms by (auto simp: runtime_account_def current_credential_def split: option.splits)
  then have i: "get_prop v ''id'' = id_json (a_id a)"
    unfolding doc_account_def by (drule_tac find_Some_set) simp
  then have rec: "is_record v" by (cases v) (auto simp: id_json_def)
  have "credential_identity w = ident_json a"
    using assms a i rec
    by (auto simp: runtime_account_def current_credential_def Let_def credential_identity_def ident_json_def id_json_def
          coalesce_def int_json_def get_record_of simp del: get_prop.simps split: option.splits)
  with a show thesis by (rule that)
qed

lemma id_json_inj [simp]: "id_json i = id_json j \<longleftrightarrow> i = j"
  unfolding id_json_def by (metis dec_val_show_nat jv.inject(3))

lemma runtime_identities:
  assumes "map (runtime_account d) vs = map Inr ws"
  obtains rows where "map (doc_account d) vs = map Some rows" and "map credential_identity ws = map ident_json rows"
  using assms
proof (induction vs arbitrary: ws thesis)
  case (Cons v vs)
  then obtain w ws' where ws: "ws = w # ws'" "runtime_account d v = Inr w" "map (runtime_account d) vs = map Inr ws'"
    by auto
  obtain a where "doc_account d v = Some a" "credential_identity w = ident_json a"
    using ws(2) by (rule credential_identity_runtime)
  moreover obtain rows where "map (doc_account d) vs = map Some rows" "map credential_identity ws' = map ident_json rows"
    using Cons.IH [OF _ ws(3)] by blast
  ultimately show ?case
    using Cons.prems(1) [of "a # rows"] ws(1) by simp
qed simp

lemma doc_accounts_ids:
  "map (doc_account d) vs = map Some rows \<Longrightarrow>
     map (\<lambda>v. get_prop v ''id'') vs = map (\<lambda>a. id_json (a_id a)) rows \<and> set rows \<subseteq> set (accounts d)"
proof (induction vs arbitrary: rows)
  case (Cons v vs)
  then obtain a rows' where r: "rows = a # rows'" "doc_account d v = Some a" "map (doc_account d) vs = map Some rows'"
    by auto
  moreover have "a \<in> set (accounts d) \<and> id_json (a_id a) = get_prop v ''id''"
    using r(2) unfolding doc_account_def by (rule find_Some_set)
  ultimately show ?case using Cons.IH [OF r(3)] by auto
qed simp

lemma credential_digests_agree:
  assumes "materializeRuntimeSnapshot env doc d = Inr s" and "distinct (map a_id (accounts d))"
    and "distinct (map (\<lambda>v. get_prop v ''id'') (arr_of (get_prop doc ''accounts'')))"
  shows "credentialDigestForDeclarative env doc d = credentialDigestFromDeclarative env s"
proof -
  let ?vs = "arr_of (get_prop doc ''accounts'')"
  obtain ws where ws: "all_or_error (map (runtime_account d) ?vs) = Inr ws"
    and acc: "arr_of (get_prop s ''accounts'') = ws"
    using assms(1)
    by (auto simp: materializeRuntimeSnapshot_def Let_def arr_of_def split: sum.splits)
  obtain rows where rows: "map (doc_account d) ?vs = map Some rows" "map credential_identity ws = map ident_json rows"
    using runtime_identities [OF all_or_error_Inr [OF ws]] by blast
  have ids: "map (\<lambda>v. get_prop v ''id'') ?vs = map (\<lambda>a. id_json (a_id a)) rows" and sub: "set rows \<subseteq> set (accounts d)"
    using doc_accounts_ids [OF rows(1)] by simp_all
  let ?fs = "filter (\<lambda>a. id_json (a_id a) \<in> set (map (\<lambda>a. id_json (a_id a)) rows)) (accounts d)"
  have "distinct (map (\<lambda>a. id_json (a_id a)) rows)"
    using assms(3) by (simp only: ids)
  then have inj: "inj_on (\<lambda>a. id_json (a_id a)) (set rows)" and dr: "distinct rows"
    by (simp_all add: distinct_map)
  have "set ?fs = set rows"
    using sub assms(2) by (auto dest: unique_key_eq)
  moreover have "distinct ?fs"
    using assms(2) by (simp add: distinct_map)
  ultimately have m: "mset ?fs = mset rows"
    using dr set_eq_iff_mset_eq_distinct by blast
  then have len: "length ?fs = length rows" by (metis size_mset)
  have "set ?fs = set rows" using m by (metis set_mset_mset)
  then have eq: "set (map ident_json ?fs) = ident_json ` set rows" by (metis list.set_map)
  have "inj_on (\<lambda>v. text_of (get_prop v ''id'')) (set (map ident_json ?fs))"
    unfolding eq
    by (auto simp: inj_on_def ident_json_def id_json_def dest!: show_nat_inj)
       (metis inj inj_onD)
  then have "sort_key (\<lambda>v. text_of (get_prop v ''id'')) (map ident_json ?fs) = sort_key (\<lambda>v. text_of (get_prop v ''id'')) (map ident_json rows)"
    by (intro sort_key_inj_key_eq) (simp_all only: mset_sort mset_map m sorted_sort_key)
  moreover have "map credential_identity (map (\<lambda>a. JObj [(''id'', id_json (a_id a)), (''credential_revision'', int_json (a_revision a))]) ?fs)
      = map ident_json ?fs"
    by (simp add: credential_identity_def ident_json_def id_json_def int_json_def coalesce_def)
  ultimately have dig: "sort_key (\<lambda>v. text_of (get_prop v ''id'')) (map credential_identity
      (map (\<lambda>a. JObj [(''id'', id_json (a_id a)), (''credential_revision'', int_json (a_revision a))]) ?fs))
      = sort_key (\<lambda>v. text_of (get_prop v ''id'')) (map credential_identity ws)"
    by (simp only: rows(2))
  show ?thesis
  proof (cases "rows = []")
    case True
    then have "?vs = []" "ws = []" using ids rows(2) by simp_all
    then show ?thesis
      using acc by (simp add: credentialDigestForDeclarative_def credentialDigestFromDeclarative_def)
  next
    case False
    have "credentialDigestForDeclarative env doc d = credentialDigestFromDeclarative env
       (JObj [(''accounts'', JArr (map (\<lambda>a. JObj [(''id'', id_json (a_id a)), (''credential_revision'', int_json (a_revision a))]) ?fs))])"
      unfolding credentialDigestForDeclarative_def Let_def ids length_map len using False by simp
    also have "\<dots> = credentialDigestFromDeclarative env s"
      unfolding credentialDigestFromDeclarative_def acc dig [symmetric] by (simp add: arr_of_def)
    finally show ?thesis .
  qed
qed

lemma reads_ignore_gateways [simp]:
  "materializeRuntimeSnapshot env doc (d\<lparr>gateways := gs\<rparr>) = materializeRuntimeSnapshot env doc d"
  "credentialDigestForDeclarative env doc (d\<lparr>gateways := gs\<rparr>) = credentialDigestForDeclarative env doc d"
proof -
  have "current_credential (d\<lparr>gateways := gs\<rparr>) = current_credential d" and "runtime_mcp (d\<lparr>gateways := gs\<rparr>) = runtime_mcp d"
    by (simp_all add: current_credential_def doc_account_def find_secret_def runtime_mcp_def fun_eq_iff cong: option.case_cong)
  then have "runtime_account (d\<lparr>gateways := gs\<rparr>) = runtime_account d" and "runtime_mcp (d\<lparr>gateways := gs\<rparr>) = runtime_mcp d"
    by (simp_all add: runtime_account_def fun_eq_iff)
  then show "materializeRuntimeSnapshot env doc (d\<lparr>gateways := gs\<rparr>) = materializeRuntimeSnapshot env doc d"
    by (simp add: materializeRuntimeSnapshot_def enabled_mcps_def Let_def cong: sum.case_cong)
  show "credentialDigestForDeclarative env doc (d\<lparr>gateways := gs\<rparr>) = credentialDigestForDeclarative env doc d"
    by (simp add: credentialDigestForDeclarative_def Let_def)
qed

lemma then_read: "then_act m (\<lambda>s. (f s, s)) s = (Inr y, t) \<Longrightarrow> f t = Inr y"
  by (auto elim!: then_act_InrE)

lemma snapshotEnvelope_v2E:
  assumes "snapshotEnvelope env req now d = (Inr (Some (EnvelopeV2 v sch cc cd rc s)), d')"
  obtains r gw gs where "published_row d = Some r" and "gr_id req = Some gw" and "gw \<noteq> []" and "d' = d\<lparr>gateways := gs\<rparr>"
    and "v2_capable (Some gw) d'" and "build_envelope env True r d' = Inr (EnvelopeV2 v sch cc cd rc s)"
proof -
  obtain r where r: "published_row d = Some r"
    using assms by (auto simp: snapshotEnvelope_def bind_gets return_act_apply split: option.splits)
  let ?gw = "if gr_id req = Some [] then None else gr_id req"
  have "snd (snapshotEnvelope env req now d) = d'" using assms by simp
  then obtain gs where d': "d' = d\<lparr>gateways := gs\<rparr>"
    using snapshotEnvelope_state [of env req now d]
    by (auto simp: upsertGatewayHeartbeat_def modify_act_def intro: that [of "gateways d"])
  have b: "build_envelope env (v2_capable ?gw d') r d' = Inr (EnvelopeV2 v sch cc cd rc s)"
    using assms r by (auto simp: snapshotEnvelope_def bind_gets Let_def dest!: then_read split: sum.splits)
  then have cap: "v2_capable ?gw d'"
    by (auto simp: build_envelope_def split: if_splits sum.splits)
  then obtain gw where "?gw = Some gw" by (cases ?gw) (auto simp: v2_capable_def)
  then show thesis
    using that [OF r _ _ d', of gw] b cap by (auto split: if_splits)
qed

text \<open>A gateway that downloads the current configuration in the version 2 envelope can acknowledge
  it: with the identities of the envelope it received, the acknowledgement is accepted and stored,
  whatever status it reports.\<close>

theorem envelope_can_be_acknowledged:
  assumes "control_ok d" and "distinct (map a_id (accounts d))"
    and "snapshotEnvelope env req now d = (Inr (Some (EnvelopeV2 v sch cc cd rc s)), d')"
    and "published_row d = Some r" and "cv_schema r = 2"
    and "distinct (map (\<lambda>a. get_prop a ''id'') (arr_of (get_prop (cv_snapshot r) ''accounts'')))"
  shows "\<exists>gw d''. gr_id req = Some gw \<and>
     persistGatewayAck env \<lparr>ai_gateway = gw, ai_version = v, ai_checksum = ck, ai_status = st, ai_error = err, ai_schema = Some sch,
        ai_config = Some cc, ai_credential = Some cd, ai_runtime = Some rc, ai_envelope = Some 2\<rparr> later d' = (Inr (), d'')"
proof -
  obtain gw gs where gw: "gr_id req = Some gw" and d': "d' = d\<lparr>gateways := gs\<rparr>"
    and cap: "v2_capable (Some gw) d'" and be: "build_envelope env True r d' = Inr (EnvelopeV2 v sch cc cd rc s)"
    using snapshotEnvelope_v2E [OF assms(3)] assms(4) by (metis option.inject)
  have ids: "v = cv_version r" "sch = 2" "cc = (case cv_config_checksum r of None \<Rightarrow> cv_checksum r | Some c \<Rightarrow> c)"
    and s: "materializeRuntimeSnapshot env (cv_snapshot r) d = Inr s" "sha256Canonical (sn_digest env) s = Inr rc"
      "credentialDigestFromDeclarative env s = Inr cd"
    using be assms(5) by (auto simp: build_envelope_def d' split: sum.splits if_splits)
  have "r \<in> set (versions d) \<and> cv_status r = Published"
  proof -
    let ?xs = "sort_key cv_version (filter (\<lambda>r. cv_status r = Published) (versions d))"
    have "r \<in> set (rev ?xs)" using assms(4) by (auto simp: published_row_def simp del: set_rev split: list.splits)
    then show ?thesis by simp
  qed
  then have fr: "find (\<lambda>q. cv_version q = cv_version r) (versions d) = Some r" and st: "cv_status r = Published"
      and mem: "r \<in> set (versions d)"
    using assms(1) by (auto simp: control_ok_def find_unique_key)
  have "credentialDigestForDeclarative env (cv_snapshot r) d = Inr cd"
    using credential_digests_agree [OF s(1) assms(2,6)] s(3) by simp
  then have "check_ack env \<lparr>ai_gateway = gw, ai_version = v, ai_checksum = ck, ai_status = st, ai_error = err, ai_schema = Some sch,
        ai_config = Some cc, ai_credential = Some cd, ai_runtime = Some rc, ai_envelope = Some 2\<rparr> d' = Inr ()"
    using cap s fr st by (auto simp: check_ack_def ids d' assms(5) v2_capable_def split: option.splits)
  then show ?thesis
    using gw mem by (auto simp: persistGatewayAck_def act_defs d' ids list_ex_iff)
qed

subsection \<open>The first publication\<close>

text \<open>Until something is published, only acknowledgements of the old envelope are accepted; and a
  publication of schema 2 needs an acknowledgement of the new one.\<close>

definition unpublished :: "db \<Rightarrow> bool" where
  "unpublished d \<longleftrightarrow> (\<forall>r\<in>set (versions d). cv_status r \<noteq> Published \<and> cv_schema r = 2 \<and> get_prop (cv_snapshot r) ''version'' = JNum (Fin 2))
     \<and> (\<forall>a\<in>set (acks d). ak_envelope a < 2)"

lemma compiled_schema:
  "compileDeclarativeSnapshot env d = Inr c \<Longrightarrow> cs_schema c = 2 \<and> get_prop (cs_snapshot c) ''version'' = JNum (Fin 2)"
  by (auto simp: compileDeclarativeSnapshot_def snapshot_json_def Let_def split: sum.splits if_splits)

lemma latest_ack_mem: "latest_ack gw d = Some a \<Longrightarrow> a \<in> set (acks d)"
proof -
  let ?xs = "sort_key (\<lambda>a. - ak_at a) (rev (filter (\<lambda>a. ak_gateway a = gw) (acks d)))"
  assume "latest_ack gw d = Some a"
  then have "a \<in> set ?xs" by (simp add: latest_ack_def del: set_sort split: list.splits)
  then show ?thesis by simp
qed

lemma unpublished_gate:
  assumes "unpublished d" and "0 < sn_min_gateways env"
  shows "assertSchemaV2Publishable env now d \<noteq> Inr ()"
proof
  assume ok: "assertSchemaV2Publishable env now d = Inr ()"
  then obtain g where "g \<in> set (active_gateways env now d)"
    using publishable_gate(1) assms(2) by (metis gr_zeroI le_zero_eq length_0_conv list.set_sel(1) neq0_conv)
  then have "speaks_v2 d g" using publishable_gate(2) [OF ok] adopted_v2_iff by blast
  then show False
    using assms(1) latest_ack_mem [of "gi_id g" d] by (auto simp: speaks_v2_def unpublished_def split: option.splits)
qed

lemma unpublished_draft: "storeDraft env d = (Inr row, d1) \<Longrightarrow> unpublished d \<Longrightarrow> unpublished d1 \<and> cv_schema row = 2"
  by (elim storeDraft_InrE) (auto simp: unpublished_def dest: compiled_schema)

lemma unpublished_publish:
  assumes "unpublished d" and "0 < sn_min_gateways env"
  shows "publishLatest env now d \<noteq> (Inr x, d')"
proof
  obtain v c where x: "x = (v, c)" by (cases x)
  assume "publishLatest env now d = (Inr x, d')"
  then show False
  proof (cases rule: publishLatest_InrE)
    case (draft row)
    then have "cv_schema row = 2"
      using assms(1) newest_draft_Some(1) by (simp add: unpublished_def)
    then show False
      using draft(2) unpublished_gate [OF assms] by (auto simp: x requiresSchemaV2_def elim!: publish_row_InrE)
  next
    case (compiled row d1)
    then have "unpublished d1" "cv_schema row = 2" using unpublished_draft assms(1) by auto
    then show False
      using compiled(3) unpublished_gate [OF _ assms(2)] by (auto simp: x requiresSchemaV2_def elim!: publish_row_InrE)
  qed
qed

lemma unpublished_run:
  assumes "unpublished d" and "0 < sn_min_gateways env"
  shows "unpublished (control_run env call d)"
proof (cases call)
  case DraftCall
  show ?thesis
    unfolding DraftCall control_run.simps
    by (rule tx_preserves [where I = unpublished, OF assms(1)]) (use unpublished_draft assms(1) in blast)
next
  case (PublishCall now)
  show ?thesis
    unfolding PublishCall control_run.simps
    by (rule tx_preserves [where I = unpublished, OF assms(1)]) (use unpublished_publish [OF assms] in blast)
next
  case (RollbackCall v)
  have "unpublished d'" if r: "rollback env v d = (Inr x, d')" for x d'
    using r
    by (cases rule: rollback_InrE) (use assms(1) in \<open>auto simp: unpublished_def\<close>)
  moreover have "txOn (rollback env v) d = rollback env v d"
    unfolding rollback_def by (rule txOn_cases) (auto simp: txOn_def split: prod.splits sum.splits)
  ultimately show ?thesis
    using tx_preserves [where I = unpublished and m = "rollback env v", OF assms(1)] by (simp add: RollbackCall)
next
  case (AckCall i now)
  have "unpublished d'" if r: "persistGatewayAck env i now d = (Inr x, d')" for x d'
    using r
  proof (cases rule: persistGatewayAck_InrE)
    case 1
    have "ak_envelope (ack_row_of i now) < 2"
      using 1(1) assms(1)
      by (auto simp: check_ack_def ack_row_of_def unpublished_def dest: find_Some_set split: if_splits option.splits)
    then show ?thesis
      using assms(1) set_upsert_where [of _ _ _ "acks d"] by (fastforce simp: unpublished_def 1(3) split: if_splits)
  qed
  then show ?thesis
    unfolding AckCall control_run.simps by (rule tx_preserves [where I = unpublished, OF assms(1)])
next
  case (PollCall req now)
  have "unpublished (snd (snapshotEnvelope env req now d))"
    using snapshotEnvelope_state [of env req now d] assms(1)
    by (auto simp: unpublished_def upsertGatewayHeartbeat_def modify_act_def)
  then show ?thesis
    unfolding PollCall control_run.simps by (intro tx_preserves [where I = unpublished, OF assms(1)]) auto
qed

text \<open>With at least one required gateway (the default), a database in which nothing has been published
  stays so: no sequence of drafts, rollbacks, heartbeats and acknowledgements makes a publication succeed.
  The publication of schema 2 waits for an acknowledgement of envelope version 2, and that
  acknowledgement is refused until something has been published.\<close>

theorem first_publication_impossible:
  assumes "unpublished d" and "0 < sn_min_gateways env"
  shows "publishLatest env now (fold (control_run env) calls d) \<noteq> (Inr x, d')"
proof -
  have "unpublished (fold (control_run env) calls d)"
    using assms(1) by (induction calls arbitrary: d) (auto intro: unpublished_run assms(2))
  then show ?thesis using assms(2) by (rule unpublished_publish)
qed

section \<open>Witnesses\<close>

definition demo_sn :: sn_env where
  "demo_sn = \<lparr>sn_web = \<lparr>new_URL = (\<lambda>_. None), decodeURIComponent = Some, json_parse = (\<lambda>_. None)\<rparr>,
     sn_digest = \<lparr>num_text = (\<lambda>_. ''1''), hash_hex = id\<rparr>, sn_secret = ''shared'', sn_min_gateways = 1, sn_ttl_seconds = 90\<rparr>"

definition demo_version :: "nat \<Rightarrow> version_status \<Rightarrow> version_row" where
  "demo_version v st = \<lparr>cv_version = v, cv_status = st, cv_checksum = ''c'', cv_config_checksum = None, cv_schema = 2,
     cv_snapshot = JObj [(''version'', JNum (Fin 2))], cv_errors = [],
     cv_published_at = (if st = Published then Some 0 else None), cv_source = None\<rparr>"

definition demo_ack :: "nat \<Rightarrow> ack_row" where
  "demo_ack v = \<lparr>ak_gateway = ''gw'', ak_version = v, ak_checksum = ''r'', ak_status = ''adopted'', ak_error = None,
     ak_schema = 2, ak_config_checksum = ''c'', ak_credential_digest = None, ak_runtime_checksum = ''r'', ak_envelope = 2, ak_at = 0\<rparr>"

definition demo_fleet :: db where
  "demo_fleet = empty_db\<lparr>versions := [demo_version 1 Published, demo_version 2 Draft],
     gateways := [\<lparr>gi_id = ''gw'', gi_schemas = [1, 2], gi_envelope = 2, gi_seen = 0\<rparr>], acks := [demo_ack 1], next_id := 3\<rparr>"

lemma demo_fleet_ok: "control_ok demo_fleet"
  by (simp add: control_ok_def demo_fleet_def demo_version_def demo_ack_def empty_db_def)

theorem control_invariant_witness:
  "control_ok (fold (control_run demo_sn) [DraftCall, PublishCall 5, RollbackCall 1] demo_fleet)"
  by (rule control_invariant [OF demo_fleet_ok])

lemma demo_publish: "\<exists>d'. publishLatest demo_sn 5 demo_fleet = (Inr (2, ''c''), d')"
  by (simp add: publishLatest_def publish_row_def act_defs audit_def newest_draft_def max_published_def demo_fleet_def
        demo_version_def demo_ack_def empty_db_def requiresSchemaV2_def assertSchemaV2Publishable_def active_gateways_def
        demo_sn_def adopted_v2_def latest_ack_def)

theorem publishLatest_correct_witness:
  "\<exists>d' r. publishLatest demo_sn 5 demo_fleet = (Inr (2, ''c''), d') \<and> published_row d' = Some r \<and> cv_version r = 2"
proof -
  obtain d' where "publishLatest demo_sn 5 demo_fleet = (Inr (2, ''c''), d')"
    using demo_publish by blast
  with publishLatest_correct [OF demo_fleet_ok this] show ?thesis by blast
qed

theorem first_publication_impossible_witness:
  "\<nexists>x d'. publishLatest demo_sn 9 (fold (control_run demo_sn) [PollCall \<lparr>gr_id = Some ''gw'', gr_schemas = Some ''1,2'', gr_envelope = Some ''2''\<rparr> 3,
      PublishCall 5, DraftCall, PublishCall 7] (empty_db\<lparr>versions := [demo_version 1 Draft], next_id := 2\<rparr>)) = (Inr x, d')"
proof -
  have u: "unpublished (empty_db\<lparr>versions := [demo_version 1 Draft], next_id := 2\<rparr>)" and m: "0 < sn_min_gateways demo_sn"
    by (simp_all add: unpublished_def empty_db_def demo_sn_def demo_version_def)
  show ?thesis using first_publication_impossible [OF u m] by blast
qed

lemma demo_envelope:
  "\<exists>cd rc s d'. snapshotEnvelope demo_sn \<lparr>gr_id = Some ''gw'', gr_schemas = None, gr_envelope = None\<rparr> 5 demo_fleet
     = (Inr (Some (EnvelopeV2 1 2 ''c'' cd rc s)), d')"
proof -
  have p: "published_row demo_fleet = Some (demo_version 1 Published)"
    by (simp add: published_row_def demo_fleet_def demo_version_def)
  have m: "materializeRuntimeSnapshot demo_sn (JObj [(''version'', JNum (Fin 2))]) demo_fleet =
     Inr (JObj [(''version'', JNum (Fin 2)), (''secret'', JStr ''shared''), (''accounts'', JArr [])])"
    by (simp add: materializeRuntimeSnapshot_def arr_of_def set_prop_def demo_sn_def enabled_mcps_def demo_fleet_def empty_db_def)
  have v: "v2_capable (Some ''gw'') demo_fleet"
    by (simp add: v2_capable_def demo_fleet_def)
  let ?s = "JObj [(''version'', JNum (Fin 2)), (''secret'', JStr ''shared''), (''accounts'', JArr [])]"
  obtain rc where rc: "sha256Canonical (sn_digest demo_sn) ?s = Inr rc"
    by (simp add: sha256Canonical_def demo_sn_def member_text_def)
  obtain cd where cd: "credentialDigestFromDeclarative demo_sn ?s = Inr cd"
    by (simp add: credentialDigestFromDeclarative_def sha256Canonical_def demo_sn_def arr_of_def)
  have "build_envelope demo_sn True (demo_version 1 Published) demo_fleet = Inr (EnvelopeV2 1 2 ''c'' cd rc ?s)"
    unfolding build_envelope_def by (simp add: demo_version_def m rc cd)
  then show ?thesis
    by (cases "advertised_envelope None")
       (auto simp: snapshotEnvelope_def act_defs p parseSchemas_def v Let_def)
qed

theorem envelope_can_be_acknowledged_witness:
  "\<exists>cc cd rc d' d''. persistGatewayAck demo_sn \<lparr>ai_gateway = ''gw'', ai_version = 1, ai_checksum = rc, ai_status = ''adopted'', ai_error = None,
     ai_schema = Some 2, ai_config = Some cc, ai_credential = Some cd, ai_runtime = Some rc, ai_envelope = Some 2\<rparr> 6 d' = (Inr (), d'')"
proof -
  obtain cd rc s d' where e: "snapshotEnvelope demo_sn \<lparr>gr_id = Some ''gw'', gr_schemas = None, gr_envelope = None\<rparr> 5 demo_fleet
     = (Inr (Some (EnvelopeV2 1 2 ''c'' cd rc s)), d')"
    using demo_envelope by blast
  have a: "distinct (map a_id (accounts demo_fleet))"
    and p: "published_row demo_fleet = Some (demo_version 1 Published)" and v: "cv_schema (demo_version 1 Published) = 2"
    and q: "distinct (map (\<lambda>a. get_prop a ''id'') (arr_of (get_prop (cv_snapshot (demo_version 1 Published)) ''accounts'')))"
    by (simp_all add: published_row_def demo_fleet_def demo_version_def empty_db_def arr_of_def)
  obtain d'' where "persistGatewayAck demo_sn \<lparr>ai_gateway = ''gw'', ai_version = 1, ai_checksum = rc, ai_status = ''adopted'', ai_error = None,
     ai_schema = Some 2, ai_config = Some ''c'', ai_credential = Some cd, ai_runtime = Some rc, ai_envelope = Some 2\<rparr> 6 d' = (Inr (), d'')"
    using envelope_can_be_acknowledged [OF demo_fleet_ok a e p v q, of rc "''adopted''" None 6] by auto
  then show ?thesis by blast
qed

end
