(* ===== verification/Credentials.thy ===== *)
theory Credentials
  imports Control Auth
begin

text \<open>
  Credentials at rest and in motion: the sealed records of \<open>lib/crypto.ts\<close>, the redaction of error
  details, the request guards of \<open>lib/api.ts\<close>, and the handler
  \<open>app/api/internal/v1/accounts/[id]/credentials/route.ts\<close>, by which a gateway stores a refreshed
  credential with a compare-and-swap on its revision.  AES-256-GCM, base64, JSON text and random
  bytes are parameters.
\<close>

section \<open>Sealed records\<close>

text \<open>\<open>gcm_seal key nonce aad plaintext\<close> is the ciphertext with its tag, \<open>gcm_open\<close> throws (\<open>None\<close>)
  when the tag does not fit.\<close>

record seal_api =
  gcm_seal :: "string \<Rightarrow> string \<Rightarrow> string \<Rightarrow> string \<Rightarrow> string \<times> string"
  gcm_open :: "string \<Rightarrow> string \<Rightarrow> string \<Rightarrow> string \<times> string \<Rightarrow> string option"
  to_b64 :: "string \<Rightarrow> string"
  of_b64 :: "string \<Rightarrow> string"
  json_text :: "jv \<Rightarrow> string"
  json_value :: "string \<Rightarrow> jv option"

record sealed_record =
  key_version :: nat
  data_key_nonce :: string
  data_key_ciphertext :: string
  data_key_tag :: string
  secret_nonce :: string
  secret_ciphertext :: string
  secret_tag :: string

definition secret_aad :: "nat \<Rightarrow> string" where
  "secret_aad v = ''secret:v'' @ show_nat v"

definition data_key_aad :: "nat \<Rightarrow> string" where
  "data_key_aad v = ''data-key:v'' @ show_nat v"

text \<open>\<open>rnd\<close> are the random bytes drawn: the data key, the nonce of the secret, the nonce of the key.\<close>

definition encryptSecretJson :: "seal_api \<Rightarrow> string \<times> string \<times> string \<Rightarrow> jv \<Rightarrow> nat \<Rightarrow> string \<Rightarrow> sealed_record" where
  "encryptSecretJson api rnd v keyVersion masterKey =
     (let (dataKey, secretNonce, wrapNonce) = rnd;
          secret = gcm_seal api dataKey secretNonce (secret_aad keyVersion) (json_text api v);
          wrapped = gcm_seal api masterKey wrapNonce (data_key_aad keyVersion) dataKey
      in \<lparr>key_version = keyVersion, data_key_nonce = to_b64 api wrapNonce, data_key_ciphertext = to_b64 api (fst wrapped),
          data_key_tag = to_b64 api (snd wrapped), secret_nonce = to_b64 api secretNonce,
          secret_ciphertext = to_b64 api (fst secret), secret_tag = to_b64 api (snd secret)\<rparr>)"

definition decryptSecretJson :: "seal_api \<Rightarrow> sealed_record \<Rightarrow> string \<Rightarrow> jv res" where
  "decryptSecretJson api r masterKey =
     (case gcm_open api masterKey (of_b64 api (data_key_nonce r)) (data_key_aad (key_version r))
             (of_b64 api (data_key_ciphertext r), of_b64 api (data_key_tag r)) of
        None \<Rightarrow> Inl (JsError ''Unsupported state or unable to authenticate data'')
      | Some dataKey \<Rightarrow>
         (case gcm_open api dataKey (of_b64 api (secret_nonce r)) (secret_aad (key_version r))
                 (of_b64 api (secret_ciphertext r), of_b64 api (secret_tag r)) of
            None \<Rightarrow> Inl (JsError ''Unsupported state or unable to authenticate data'')
          | Some t \<Rightarrow> (case json_value api t of None \<Rightarrow> Inl (JsError ''SyntaxError'') | Some v \<Rightarrow> Inr v)))"

section \<open>Redaction\<close>

text \<open>\<open>/api[_-]?key|secret|token|credential|password/i\<close>\<close>

definition secret_name :: "string \<Rightarrow> bool" where
  "secret_name k \<longleftrightarrow> list_ex (js_includes (toLowerCase k))
     [''apikey'', ''api_key'', ''api-key'', ''secret'', ''token'', ''credential'', ''password'']"

fun redactSecrets :: "jv \<Rightarrow> jv" where
  "redactSecrets (JArr vs) = JArr (map redactSecrets vs)"
| "redactSecrets (JObj ps) = JObj (map (\<lambda>(k, v). (k, if secret_name k then JStr ''[redacted]'' else redactSecrets v)) ps)"
| "redactSecrets v = v"

section \<open>Request guards\<close>

definition strip_bearer :: "string \<Rightarrow> string" where
  "strip_bearer h =
     (if toLowerCase (take 6 h) = ''bearer'' \<and> (case drop 6 h of c # _ \<Rightarrow> is_space c | [] \<Rightarrow> False)
      then dropWhile is_space (drop 6 h) else h)"

definition requireInternal :: "crypto_api \<Rightarrow> string option \<Rightarrow> string \<Rightarrow> unit res" where
  "requireInternal api authorization token =
     (let got = (case authorization of None \<Rightarrow> [] | Some h \<Rightarrow> strip_bearer h)
      in if sha256 api got = sha256 api token then Inr ()
         else Inl (ApiError 401 ''unauthorized'' ''Invalid internal service token''))"

definition gateway_header_ok :: "string \<Rightarrow> bool" where
  "gateway_header_ok s \<longleftrightarrow> s \<noteq> [] \<and> length s \<le> 200 \<and> is_alnum (hd s) \<and> list_all (\<lambda>c. is_alnum c \<or> c \<in> set ''._-'') (tl s)"

definition requireGatewayIdentity :: "string option \<Rightarrow> string \<Rightarrow> string res" where
  "requireGatewayIdentity header claimed =
     (let gatewayId = (case header of None \<Rightarrow> [] | Some h \<Rightarrow> h)
      in if \<not> gateway_header_ok gatewayId then Inl (ApiError 400 ''gateway_identity_missing'' ''Valid gateway identity header required'')
         else if gatewayId \<noteq> claimed then Inl (ApiError 403 ''gateway_identity_mismatch'' ''Gateway identity does not match request body'')
         else Inr gatewayId)"

text \<open>\<open>readJsonBounded\<close>: the body arrives in chunks of bytes; reading stops at the first chunk that makes it
  too large.\<close>

fun read_chunks :: "nat \<Rightarrow> nat \<Rightarrow> string list \<Rightarrow> string res" where
  "read_chunks maxBytes sz [] = Inr []"
| "read_chunks maxBytes sz (c # cs) =
     (if maxBytes < sz + length c then Inl (ApiError 413 ''payload_too_large'' ''Request body exceeds maximum size'')
      else case read_chunks maxBytes (sz + length c) cs of Inl e \<Rightarrow> Inl e | Inr rest \<Rightarrow> Inr (c @ rest))"

definition length_guard :: "string option \<Rightarrow> nat \<Rightarrow> unit res" where
  "length_guard contentLength maxBytes =
     (case contentLength of None \<Rightarrow> Inr ()
      | Some s \<Rightarrow>
         (case js_number s of
            Fin x \<Rightarrow> if x < 0 then Inl (ApiError 400 ''invalid_content_length'' ''Invalid content-length header'')
                     else if rat_of_nat maxBytes < x then Inl (ApiError 413 ''payload_too_large'' ''Request body exceeds maximum size'')
                     else Inr ()
          | _ \<Rightarrow> Inl (ApiError 400 ''invalid_content_length'' ''Invalid content-length header'')))"

definition readJsonBounded :: "crypto_api \<Rightarrow> string option \<Rightarrow> string list \<Rightarrow> nat \<Rightarrow> jv res" where
  "readJsonBounded api contentLength chunks maxBytes =
     (case length_guard contentLength maxBytes of Inl e \<Rightarrow> Inl e
      | Inr _ \<Rightarrow>
         (case read_chunks maxBytes 0 chunks of Inl e \<Rightarrow> Inl e
          | Inr bytes \<Rightarrow>
             if bytes = [] then Inr (JObj [])
             else case parseJson api bytes of
                 None \<Rightarrow> Inl (ApiError 400 ''invalid_json'' ''Request body is not valid JSON'')
               | Some v \<Rightarrow> Inr v))"

section \<open>Storing a refreshed credential\<close>

record put_env =
  pe_sn :: sn_env
  pe_api :: crypto_api
  pe_token :: string
  pe_datetime :: "string \<Rightarrow> bool"

record put_request =
  pr_auth :: "string option"
  pr_gateway :: "string option"
  pr_content_type :: "string option"
  pr_length :: "string option"
  pr_chunks :: "string list"
  pr_account :: uuid

definition CREDENTIAL_KEYS :: "string list" where
  "CREDENTIAL_KEYS = [''kind'', ''api_key'', ''access_token'', ''refresh_token'', ''id_token'', ''cookies'', ''organization_id'',
     ''expires_at'', ''client_id'', ''chatgpt_account_id'', ''revision'']"

text \<open>\<open>z.string().min(n).optional()\<close>\<close>

fun optional_text :: "nat \<Rightarrow> jv \<Rightarrow> bool" where
  "optional_text n JUndef = True"
| "optional_text n (JStr s) = (n \<le> length s)"
| "optional_text n _ = False"

definition positive_int :: "jv \<Rightarrow> bool" where
  "positive_int v \<longleftrightarrow> (case v of JNum (Fin x) \<Rightarrow> is_integer (Fin x) \<and> 0 < x | _ \<Rightarrow> False)"

definition CredentialSchema :: "put_env \<Rightarrow> jv \<Rightarrow> jv res" where
  "CredentialSchema env v =
     (if is_record v \<and> fst ` set (record_of v) \<subseteq> set CREDENTIAL_KEYS
         \<and> get_prop v ''kind'' \<in> {JStr ''api_key'', JStr ''oauth'', JStr ''cookie''}
         \<and> list_all (\<lambda>k. optional_text 1 (get_prop v k))
             [''api_key'', ''access_token'', ''refresh_token'', ''id_token'', ''cookies'', ''client_id'', ''chatgpt_account_id'']
         \<and> optional_text 0 (get_prop v ''organization_id'')
         \<and> (get_prop v ''expires_at'' = JUndef \<or> (case get_prop v ''expires_at'' of JStr s \<Rightarrow> pe_datetime env s | _ \<Rightarrow> False))
         \<and> (get_prop v ''revision'' = JUndef \<or> positive_int (get_prop v ''revision''))
         \<and> (get_prop v ''kind'' = JStr ''api_key'' \<longrightarrow> truthy (get_prop v ''api_key''))
         \<and> (get_prop v ''kind'' = JStr ''oauth'' \<longrightarrow> truthy (get_prop v ''access_token''))
         \<and> (get_prop v ''kind'' = JStr ''cookie'' \<longrightarrow> truthy (get_prop v ''cookies''))
      then Inr v else Inl ZodError)"

definition BodySchema :: "put_env \<Rightarrow> jv \<Rightarrow> (int \<times> jv) res" where
  "BodySchema env v =
     (if is_record v \<and> fst ` set (record_of v) \<subseteq> {''expected_revision'', ''credential''}
         \<and> positive_int (get_prop v ''expected_revision'')
      then (case CredentialSchema env (get_prop v ''credential'') of
              Inl e \<Rightarrow> Inl e
            | Inr c \<Rightarrow> (case get_prop v ''expected_revision'' of JNum (Fin x) \<Rightarrow> Inr (\<lfloor>x\<rfloor>, c) | _ \<Rightarrow> Inl ZodError))
      else Inl ZodError)"

definition put_gateway_ok :: "string \<Rightarrow> bool" where
  "put_gateway_ok s \<longleftrightarrow> s \<noteq> [] \<and> length s \<le> 128 \<and> list_all (\<lambda>c. is_alnum c \<or> c \<in> set ''._:-'') s"

definition media_type :: "string option \<Rightarrow> string option" where
  "media_type h = map_option (\<lambda>s. toLowerCase (js_trim (hd (js_split (CHR '';'') s)))) h"

definition admit_put :: "put_env \<Rightarrow> put_request \<Rightarrow> (string \<times> int \<times> jv) res" where
  "admit_put env rq =
     (case requireInternal (pe_api env) (pr_auth rq) (pe_token env) of Inl e \<Rightarrow> Inl e | Inr _ \<Rightarrow>
      let gw = (case pr_gateway rq of None \<Rightarrow> [] | Some s \<Rightarrow> js_trim s) in
      if \<not> put_gateway_ok gw then Inl (ApiError 403 ''gateway_required'' ''Credentials may only be updated by a gateway service'')
      else if media_type (pr_content_type rq) \<noteq> Some ''application/json''
      then Inl (ApiError 415 ''unsupported_media_type'' ''Content-Type must be application/json'')
      else case readJsonBounded (pe_api env) (pr_length rq) (pr_chunks rq) (256 * 1024) of
          Inl e \<Rightarrow> Inl e
        | Inr v \<Rightarrow> (case BodySchema env v of Inl e \<Rightarrow> Inl e | Inr b \<Rightarrow> Inr (gw, b)))"

definition without_revision :: "jv \<Rightarrow> jv" where
  "without_revision c = JObj (filter (\<lambda>p. fst p \<noteq> ''revision'') (record_of c))"

definition refreshed :: "uuid \<Rightarrow> int \<Rightarrow> jv \<Rightarrow> account_row \<Rightarrow> account_row" where
  "refreshed sid expected credential a =
     a\<lparr>a_secret := Some sid, a_revision := expected + 1, a_expires := as_str (get_prop credential ''expires_at''),
       a_persistence := ''persisted'',
       a_external := (case as_str (get_prop credential ''chatgpt_account_id'') of None \<Rightarrow> a_external a | Some x \<Rightarrow> Some x)\<rparr>"

definition store_credential :: "put_env \<Rightarrow> uuid \<Rightarrow> string \<Rightarrow> int \<Rightarrow> jv \<Rightarrow> (db, int \<times> string) act" where
  "store_credential env account gw expected credential =
     bind_act (gets_act (find_account account)) (\<lambda>current. case current of
       None \<Rightarrow> throw (ApiError 404 ''account_not_found'' ''Account not found'')
     | Some a \<Rightarrow>
        then_act (guard_act (a_revision a = expected) (ApiError 409 ''credential_revision_conflict'' ''Credential revision conflict''))
        (bind_act (insertSecret ''account_credential'' (without_revision credential)) (\<lambda>sid.
         then_act (modify_act (\<lambda>d. d\<lparr>accounts := update_where (\<lambda>a. a_id a = account)
            (refreshed sid expected credential) (accounts d)\<rparr>))
        (then_act (modify_act (\<lambda>d. d\<lparr>audits := audits d @ [\<lparr>au_actor = ''gateway:'' @ gw, au_action = ''credential.updated'',
            au_type = ''account'', au_resource = Some (show_nat account),
            au_payload = JObj [(''credential_revision'', int_json (expected + 1))]\<rparr>]\<rparr>))
        (bind_act (gets_act (\<lambda>d. credentialDigestFromDeclarative (pe_sn env)
            (JObj [(''accounts'', JArr (map (\<lambda>a. JObj [(''id'', id_json (a_id a)), (''credential_revision'', int_json (a_revision a))])
               (sort_key a_id (filter a_enabled (accounts d)))))]))) (\<lambda>digest.
         bind_act (lift_res digest) (\<lambda>h. return_act (expected + 1, h))))))))"

definition credentials_PUT :: "put_env \<Rightarrow> put_request \<Rightarrow> (db, int \<times> string) act" where
  "credentials_PUT env rq =
     bind_act (lift_res (admit_put env rq)) (\<lambda>(gw, expected, credential).
       txOn (store_credential env (pr_account rq) gw expected credential))"

text \<open>A sequence of requests, with the revisions handed out.\<close>

fun put_log :: "put_env \<Rightarrow> put_request list \<Rightarrow> db \<Rightarrow> (uuid \<times> int) list \<times> db" where
  "put_log env [] d = ([], d)"
| "put_log env (rq # rqs) d =
     (let (r, d1) = credentials_PUT env rq d; (lg, d2) = put_log env rqs d1
      in ((case r of Inl _ \<Rightarrow> [] | Inr (n, _) \<Rightarrow> [(pr_account rq, n)]) @ lg, d2))"

section \<open>Sealing is invertible\<close>

text \<open>A stored credential is recovered exactly: opening a sealed record with the master key it was sealed with
  returns the value, and a record whose key version was altered is refused.  The hypotheses are the
  documented behaviour of AES-GCM, base64 and JSON on the values involved.\<close>

theorem decryptSecretJson_encryptSecretJson:
  assumes "\<And>k n aad t. gcm_open api k n aad (gcm_seal api k n aad t) = Some t"
    and "\<And>k n aad aad' t. aad' \<noteq> aad \<Longrightarrow> gcm_open api k n aad' (gcm_seal api k n aad t) = None"
    and "\<And>b. of_b64 api (to_b64 api b) = b" and "json_value api (json_text api v) = Some v"
    and "kv' \<noteq> kv"
  shows "decryptSecretJson api (encryptSecretJson api rnd v kv mk) mk = Inr v
    \<and> (\<exists>m. decryptSecretJson api ((encryptSecretJson api rnd v kv mk)\<lparr>key_version := kv'\<rparr>) mk = Inl (JsError m))"
proof -
  obtain dk sn wn where r: "rnd = (dk, sn, wn)" by (cases rnd)
  have "data_key_aad kv' \<noteq> data_key_aad kv"
    using assms(5) by (auto simp: data_key_aad_def dest: show_nat_inj)
  then show ?thesis
    by (simp add: r encryptSecretJson_def decryptSecretJson_def Let_def assms(1-4))
qed

definition demo_seal :: seal_api where
  "demo_seal = \<lparr>gcm_seal = (\<lambda>k n aad t. (t, k @ n @ aad)), gcm_open = (\<lambda>k n aad (c, tag). if tag = k @ n @ aad then Some c else None),
     to_b64 = id, of_b64 = id, json_text = (\<lambda>_. ''{}''), json_value = (\<lambda>_. Some (JObj []))\<rparr>"

theorem decryptSecretJson_encryptSecretJson_witness:
  "decryptSecretJson demo_seal (encryptSecretJson demo_seal (''k'', ''n'', ''w'') (JObj []) 1 ''m'') ''m'' = Inr (JObj [])"
proof -
  have "decryptSecretJson demo_seal (encryptSecretJson demo_seal (''k'', ''n'', ''w'') (JObj []) 1 ''m'') ''m'' = Inr (JObj [])
    \<and> (\<exists>m. decryptSecretJson demo_seal ((encryptSecretJson demo_seal (''k'', ''n'', ''w'') (JObj []) 1 ''m'')\<lparr>key_version := 2\<rparr>) ''m'' = Inl (JsError m))"
    by (rule decryptSecretJson_encryptSecretJson) (simp_all add: demo_seal_def)
  then show ?thesis by (rule conjunct1)
qed

section \<open>Redaction is complete\<close>

fun redacted :: "jv \<Rightarrow> bool" where
  "redacted (JArr vs) = list_all redacted vs"
| "redacted (JObj ps) = list_all (\<lambda>(k, v). if secret_name k then v = JStr ''[redacted]'' else redacted v) ps"
| "redacted v = True"

lemma redacted_fixed: "redacted v \<Longrightarrow> redactSecrets v = v"
  by (induction v rule: redacted.induct) (auto simp: list_all_iff map_idI intro!: map_idI split: if_splits)

lemma redactSecrets_redacted: "redacted (redactSecrets v)"
  by (induction v rule: redactSecrets.induct) (auto simp: list_all_iff)

text \<open>The details of an error response carry no value under a name that looks like a credential, at any
  depth, and redaction leaves a value alone exactly when it is already clean.\<close>

theorem redactSecrets_complete:
  "redacted (redactSecrets v) \<and> (redactSecrets v = v \<longleftrightarrow> redacted v)"
  using redactSecrets_redacted redacted_fixed by metis

section \<open>Bounded reading\<close>

lemma read_chunks_exact:
  "read_chunks m sz cs = (if cs = [] \<or> sz + length (concat cs) \<le> m then Inr (concat cs)
     else Inl (ApiError 413 ''payload_too_large'' ''Request body exceeds maximum size''))"
  by (induction cs arbitrary: sz) (auto split: sum.splits)

text \<open>A body is parsed exactly when its declared length is acceptable and its bytes fit the bound, however
  it is split into chunks; a larger body is refused with 413 whatever its header says.\<close>

theorem readJsonBounded_exact:
  "readJsonBounded api cl chunks m =
     (case length_guard cl m of Inl e \<Rightarrow> Inl e
      | Inr _ \<Rightarrow>
         if m < length (concat chunks) then Inl (ApiError 413 ''payload_too_large'' ''Request body exceeds maximum size'')
         else if concat chunks = [] then Inr (JObj [])
         else case parseJson api (concat chunks) of
             None \<Rightarrow> Inl (ApiError 400 ''invalid_json'' ''Request body is not valid JSON'') | Some v \<Rightarrow> Inr v)"
  by (auto simp: readJsonBounded_def read_chunks_exact split: sum.split)

section \<open>Compare and swap\<close>

lemma store_credential_InrE:
  assumes "store_credential env i gw expected c d = (Inr (n, h), d')"
  obtains a au where "find_account i d = Some a" and "a_revision a = expected" and "n = expected + 1"
    and "d' = d\<lparr>next_id := Suc (next_id d),
        secrets := secrets d @ [\<lparr>s_id = next_id d, s_purpose = ''account_credential'', s_sealed = without_revision c\<rparr>],
        accounts := update_where (\<lambda>a. a_id a = i)
            (refreshed (next_id d) expected c) (accounts d), audits := au\<rparr>"
proof -
  obtain a where a: "find_account i d = Some a"
    using assms by (cases "find_account i d") (simp_all add: store_credential_def bind_gets throw_apply)
  then show thesis
    using assms
    by (auto simp: store_credential_def bind_gets then_guard bind_insertSecret then_modify bind_lift return_act_apply
          intro: that split: if_splits sum.splits)
qed

lemma credentials_PUT_cases:
  obtains (refused) e where "credentials_PUT env rq d = (Inl e, d)"
    | (stored) gw expected c n h d' where "admit_put env rq = Inr (gw, expected, c)"
        and "store_credential env (pr_account rq) gw expected c d = (Inr (n, h), d')"
        and "credentials_PUT env rq d = (Inr (n, h), d')"
proof (cases "admit_put env rq")
  case (Inl e)
  with refused show thesis by (simp add: credentials_PUT_def lift_res_def bind_act_def)
next
  case (Inr b)
  obtain gw expected c where b: "b = (gw, expected, c)" by (cases b)
  have eq: "credentials_PUT env rq d = txOn (store_credential env (pr_account rq) gw expected c) d"
    using Inr by (simp add: credentials_PUT_def lift_res_def bind_act_def b)
  show thesis
  proof (cases rule: txOn_cases [of "store_credential env (pr_account rq) gw expected c" d])
    case (commit x t)
    then show thesis using stored [of gw expected c "fst x" "snd x" t] Inr b eq by simp
  next
    case (rollback e t)
    then show thesis using refused eq by simp
  qed
qed

definition revision_of :: "uuid \<Rightarrow> db \<Rightarrow> int option" where
  "revision_of i d = map_option a_revision (find_account i d)"

lemma store_credential_revision:
  assumes "store_credential env j gw expected c d = (Inr (n, h), d')"
  shows "revision_of i d' = (if i = j then Some n else revision_of i d)" and "revision_of j d = Some (n - 1)"
proof -
  obtain a au where a: "find_account j d = Some a" "a_revision a = expected" "n = expected + 1"
    and d': "d' = d\<lparr>next_id := Suc (next_id d),
        secrets := secrets d @ [\<lparr>s_id = next_id d, s_purpose = ''account_credential'', s_sealed = without_revision c\<rparr>],
        accounts := update_where (\<lambda>a. a_id a = j)
            (refreshed (next_id d) expected c) (accounts d), audits := au\<rparr>"
    by (rule store_credential_InrE [OF assms])
  show "revision_of j d = Some (n - 1)" using a by (simp add: revision_of_def)
  show "revision_of i d' = (if i = j then Some n else revision_of i d)"
    using a by (simp add: revision_of_def d' find_account_def find_update_key refreshed_def option.map_comp o_def)
qed

text \<open>C5: in any sequence of credential updates by the gateways, the revisions handed out for an account are
  consecutive, starting after the revision it had: no two updates are accepted against the same revision,
  so no refreshed credential is overwritten by one derived from the same predecessor, and the
  account ends with the last revision handed out.\<close>

theorem credential_revisions_sequential:
  assumes "revision_of i d = Some r"
  shows "\<exists>k. map snd (filter (\<lambda>p. fst p = i) (fst (put_log env rqs d))) = map (\<lambda>j. r + int j) [1..<Suc k]
     \<and> revision_of i (snd (put_log env rqs d)) = Some (r + int k)"
  using assms
proof (induction rqs arbitrary: d r)
  case Nil
  then show ?case by (intro exI [of _ 0]) simp
next
  case (Cons rq rqs)
  show ?case
  proof (cases rule: credentials_PUT_cases [of env rq d])
    case (refused e)
    with Cons show ?thesis by (simp add: split_beta)
  next
    case (stored gw expected c n h d')
    note rev = store_credential_revision [OF stored(2)]
    show ?thesis
    proof (cases "pr_account rq = i")
      case True
      then have n: "n = r + 1" and r': "revision_of i d' = Some (r + 1)"
        using rev Cons.prems by (auto simp: rev(1))
      obtain k where k: "map snd (filter (\<lambda>p. fst p = i) (fst (put_log env rqs d'))) = map (\<lambda>j. r + 1 + int j) [1..<Suc k]"
        "revision_of i (snd (put_log env rqs d')) = Some (r + 1 + int k)"
        using Cons.IH [OF r'] by blast
      have "map (\<lambda>j. r + int j) [1..<Suc (Suc k)] = (r + 1) # map (\<lambda>j. r + 1 + int j) [1..<Suc k]"
        by (simp add: upt_conv_Cons map_Suc_upt [symmetric] o_def del: upt_Suc)
      then show ?thesis
        using k stored(3) True n by (intro exI [of _ "Suc k"]) (simp add: split_beta)
    next
      case False
      then have "revision_of i d' = Some r" using rev(1) Cons.prems by simp
      from Cons.IH [OF this] show ?thesis using stored(3) False by (simp add: split_beta)
    qed
  qed
qed

text \<open>An accepted update is what the gateways get from then on: the account's current credential is the
  one sent, without its revision field, at the revision returned, and the number returned is the
  expected revision plus one.\<close>

theorem credentials_PUT_stored:
  assumes "credentials_PUT env rq d = (Inr (n, h), d')" and "\<forall>s\<in>set (secrets d). s_id s < next_id d"
    and "get_prop v ''id'' = id_json (pr_account rq)"
  shows "\<exists>gw c. admit_put env rq = Inr (gw, n - 1, c) \<and> current_credential d' v = Some (without_revision c, n)"
proof (cases rule: credentials_PUT_cases [of env rq d])
  case (refused e)
  with assms(1) show ?thesis by simp
next
  case (stored gw expected c n' h' d'')
  then have eq: "n' = n" "d'' = d'" using assms(1) by auto
  obtain a au where a: "find_account (pr_account rq) d = Some a" "a_revision a = expected" "n = expected + 1"
    and d': "d' = d\<lparr>next_id := Suc (next_id d),
        secrets := secrets d @ [\<lparr>s_id = next_id d, s_purpose = ''account_credential'', s_sealed = without_revision c\<rparr>],
        accounts := update_where (\<lambda>a. a_id a = pr_account rq)
            (refreshed (next_id d) expected c) (accounts d), audits := au\<rparr>"
    by (rule store_credential_InrE [OF stored(2) [unfolded eq]])
  have new: "find (\<lambda>s. s_id s = next_id d) (secrets d) = None"
    using assms(2) by (auto simp: find_None_set)
  have "current_credential d' v = Some (without_revision c, n)"
    using a by (simp add: current_credential_def doc_account_def assms(3) d' find_update_key refreshed_def find_account_def
        find_secret_def find_append new)
  then show ?thesis using stored(1) a(3) by auto
qed

section \<open>Witnesses\<close>

definition demo_body :: jv where
  "demo_body = JObj [(''expected_revision'', JNum (Fin 1)), (''credential'', JObj [(''kind'', JStr ''api_key''), (''api_key'', JStr ''k'')])]"

definition demo_put :: put_env where
  "demo_put = \<lparr>pe_sn = demo_sn, pe_api = demo_api\<lparr>parseJson := (\<lambda>_. Some demo_body)\<rparr>, pe_token = ''t'', pe_datetime = (\<lambda>_. True)\<rparr>"

definition demo_request :: put_request where
  "demo_request = \<lparr>pr_auth = Some ''t'', pr_gateway = Some ''g'', pr_content_type = Some ''application/json'', pr_length = None,
     pr_chunks = [''x''], pr_account = 7\<rparr>"

definition demo_accounts :: db where
  "demo_accounts = empty_db\<lparr>accounts := [sample_account 7 1 ''a''], next_id := 9\<rparr>"

lemma demo_admitted:
  "admit_put demo_put demo_request = Inr (''g'', 1, JObj [(''kind'', JStr ''api_key''), (''api_key'', JStr ''k'')])"
  by (simp add: admit_put_def requireInternal_def strip_bearer_def demo_put_def demo_request_def demo_api_def js_trim_def char_class_defs
        put_gateway_ok_def media_type_def toLowerCase_def lower_char_def readJsonBounded_def length_guard_def BodySchema_def demo_body_def
        positive_int_def is_integer_def CredentialSchema_def CREDENTIAL_KEYS_def)

lemma demo_digest:
  "\<exists>h. credentialDigestFromDeclarative demo_sn (JObj [(''accounts'', JArr [JObj [(''id'', id_json 7), (''credential_revision'', int_json 2)]])]) = Inr h"
  by (simp add: credentialDigestFromDeclarative_def sha256Canonical_def demo_sn_def arr_of_def credential_identity_def coalesce_def
        id_json_def int_json_def member_text_def)

lemma demo_stored:
  "\<exists>h d'. credentials_PUT demo_put demo_request demo_accounts = (Inr (2, h), d')"
proof -
  let ?c = "JObj [(''kind'', JStr ''api_key''), (''api_key'', JStr ''k'')]"
  have sn: "pe_sn demo_put = demo_sn" and ac: "pr_account demo_request = 7"
    by (simp_all add: demo_put_def demo_request_def)
  obtain h where h: "credentialDigestFromDeclarative demo_sn (JObj [(''accounts'', JArr [JObj [(''id'', id_json 7), (''credential_revision'', int_json 2)]])]) = Inr h"
    using demo_digest by blast
  have "\<exists>d'. store_credential demo_put 7 ''g'' 1 ?c demo_accounts = (Inr (2, h), d')"
    unfolding store_credential_def sn
    by (simp add: bind_gets demo_accounts_def find_account_def sample_account_def then_guard bind_insertSecret then_modify
          refreshed_def h bind_lift return_act_apply)
  then show ?thesis
    by (auto simp: credentials_PUT_def bind_lift demo_admitted txOn_Inr_iff ac)
qed

theorem credential_revisions_sequential_witness:
  "\<exists>k. map snd (filter (\<lambda>p. fst p = 7) (fst (put_log demo_put [demo_request, demo_request] demo_accounts))) = map (\<lambda>j. 1 + int j) [1..<Suc k]"
proof -
  have "revision_of 7 demo_accounts = Some 1"
    by (simp add: revision_of_def find_account_def demo_accounts_def sample_account_def)
  from credential_revisions_sequential [OF this] show ?thesis by blast
qed

theorem credentials_PUT_stored_witness:
  "\<exists>d' gw c. admit_put demo_put demo_request = Inr (gw, 1, c)
     \<and> current_credential d' (JObj [(''id'', id_json 7)]) = Some (without_revision c, 2)"
proof -
  obtain h d' where p: "credentials_PUT demo_put demo_request demo_accounts = (Inr (2, h), d')"
    using demo_stored by blast
  have "\<exists>gw c. admit_put demo_put demo_request = Inr (gw, 2 - 1, c)
     \<and> current_credential d' (JObj [(''id'', id_json 7)]) = Some (without_revision c, 2)"
    by (rule credentials_PUT_stored [OF p]) (simp_all add: demo_accounts_def empty_db_def demo_request_def)
  then show ?thesis by auto
qed

end
