(* ===== verification/Model_Metadata.thy ===== *)
theory Model_Metadata
  imports Js_Values Prelude
begin

text \<open>
  \<open>lib/model-metadata.ts\<close>: the description of a model is normalized from whatever a provider
  returns, and the descriptions that several accounts return for the same model are merged.
  \<open>Date.parse\<close> is a parameter.  The table of tool names is read as a finite map; the
  names every JavaScript object inherits (\<open>constructor\<close>, \<open>toString\<close>, \<dots>) are taken as absent.
\<close>

section \<open>Data\<close>

record model_metadata =
  md_context_window :: "int option"
  md_tools :: "bool option"
  md_function_calling :: "bool option"
  md_reasoning :: "bool option"
  md_image_generation :: "bool option"
  md_supported_in_api :: "bool option"
  md_tier :: "string option"
  md_owner :: "string option"
  md_description :: "string option"
  md_tool_names :: "string list option"
  md_input_modalities :: "string list option"
  md_parallel_tool_calls :: "bool option"
  md_available_in_plans :: "string list option"
  md_last_seen_at :: "string option"

definition STRING_LIMIT :: nat where
  "STRING_LIMIT = 1024"

definition TOOL_ALIASES :: "(string \<times> string) list" where
  "TOOL_ALIASES =
     [(''web_search'', ''web_search''), (''search'', ''web_search''), (''supports_search_tool'', ''web_search''),
      (''code_execution'', ''code_execution''), (''data_analysis'', ''code_execution''), (''vision'', ''vision''),
      (''image_input'', ''vision''), (''audio'', ''audio''), (''audio_input'', ''audio''), (''file_upload'', ''file_upload''),
      (''files'', ''file_upload''), (''photo_upload'', ''photo_upload''), (''prompt_caching'', ''prompt_caching''),
      (''image_generation'', ''image_generation''), (''image_gen'', ''image_generation''),
      (''generate_image'', ''image_generation''), (''dalle_image_generation'', ''image_generation'')]"

section \<open>Picking the first usable value\<close>

definition clip :: "string \<Rightarrow> string" where
  "clip s = take STRING_LIMIT (js_trim s)"

fun texts_of :: "jv list \<Rightarrow> string list" where
  "texts_of [] = []"
| "texts_of (JStr s # vs) = (if js_trim s = [] then texts_of vs else clip s # texts_of vs)"
| "texts_of (v # vs) = texts_of vs"

fun firstBoolean :: "jv list \<Rightarrow> bool option" where
  "firstBoolean [] = None"
| "firstBoolean (JBool b # vs) = Some b"
| "firstBoolean (v # vs) = firstBoolean vs"

fun firstString :: "jv list \<Rightarrow> string option" where
  "firstString [] = None"
| "firstString (JStr s # vs) = (if js_trim s = [] then firstString vs else Some (clip s))"
| "firstString (v # vs) = firstString vs"

fun firstStringArray :: "jv list \<Rightarrow> string list option" where
  "firstStringArray [] = None"
| "firstStringArray (JArr xs # vs) = (if texts_of xs = [] then firstStringArray vs else Some (texts_of xs))"
| "firstStringArray (v # vs) = firstStringArray vs"

fun as_number :: "jv \<Rightarrow> jsnum" where
  "as_number (JNum n) = n"
| "as_number (JStr s) = (if js_trim s = [] then NaN else js_number s)"
| "as_number v = NaN"

fun firstPositiveNumber :: "jv list \<Rightarrow> int option" where
  "firstPositiveNumber [] = None"
| "firstPositiveNumber (v # vs) =
     (case as_number v of
        Fin x \<Rightarrow> if 0 < x then Some \<lfloor>x\<rfloor> else firstPositiveNumber vs
      | _ \<Rightarrow> firstPositiveNumber vs)"

section \<open>Normalization\<close>

definition pushTool :: "string \<Rightarrow> string list \<Rightarrow> string list" where
  "pushTool name tools = (if name \<noteq> [] \<and> name \<notin> set tools then tools @ [name] else tools)"

text \<open>The tools a source lists under the known names, then those it announces by type.\<close>

definition alias_tools :: "(string \<times> jv) list \<Rightarrow> string list" where
  "alias_tools ps = concat (map (\<lambda>(k, v). case map_of TOOL_ALIASES k of
      Some t \<Rightarrow> if v = JBool True then [t] else [] | None \<Rightarrow> []) ps)"

definition source_tools :: "jv \<Rightarrow> string list" where
  "source_tools source = alias_tools (record_of source)
     @ (case get_prop source ''web_search_tool_type'' of JStr s \<Rightarrow> (if js_trim s = [] then [] else [''web_search'']) | _ \<Rightarrow> [])"

definition explicit_tools :: "jv \<Rightarrow> string list" where
  "explicit_tools source =
     (case get_prop source ''experimental_supported_tools'' of JArr xs \<Rightarrow> texts_of xs | _ \<Rightarrow> [])"

definition modality_tools :: "string list option \<Rightarrow> string list" where
  "modality_tools ms = (case ms of None \<Rightarrow> []
     | Some xs \<Rightarrow> (if ''image'' \<in> set xs then [''vision''] else []) @ (if ''audio'' \<in> set xs then [''audio''] else []))"

definition normalizeModelMetadata :: "jv \<Rightarrow> model_metadata" where
  "normalizeModelMetadata input =
     (let root = JObj (record_of input);
          capabilities = JObj (record_of (get_prop root ''capabilities''));
          r = get_prop root; c = get_prop capabilities;
          modalities = firstStringArray [r ''input_modalities'', r ''modalities'', c ''input_modalities''];
          tools = fold pushTool (source_tools root @ source_tools capabilities @ explicit_tools root
             @ explicit_tools capabilities @ modality_tools modalities) []
      in \<lparr>md_context_window = firstPositiveNumber [r ''context_window'', r ''context_length'', r ''max_context_tokens'',
             c ''context_window'', c ''context_length''],
          md_tools = firstBoolean [r ''tool_call'', r ''tools'', r ''supports_tools'', c ''tools'', c ''tool_call''],
          md_function_calling = firstBoolean [r ''function_call'', r ''function_calling'', r ''supports_function_calling'',
             c ''function_calling'', c ''function_call''],
          md_reasoning = firstBoolean [r ''reasoning'', r ''supports_reasoning'', c ''reasoning''],
          md_image_generation = firstBoolean [r ''image_generation'', c ''image_generation'', r ''image_gen'', c ''image_gen'',
             r ''generate_image'', c ''generate_image'', r ''dalle_image_generation'', c ''dalle_image_generation''],
          md_supported_in_api = firstBoolean [r ''supported_in_api'', c ''supported_in_api''],
          md_tier = firstString [r ''tier'', c ''tier''],
          md_owner = firstString [r ''owned_by'', r ''owner'', c ''owner''],
          md_description = firstString [r ''description'', r ''blurb'', c ''description''],
          md_tool_names = (if tools = [] then None else Some tools),
          md_input_modalities = modalities,
          md_parallel_tool_calls = firstBoolean [r ''supports_parallel_tool_calls'', r ''parallel_tool_calls'',
             c ''supports_parallel_tool_calls'', c ''parallel_tool_calls''],
          md_available_in_plans = firstStringArray [r ''available_in_plans'', c ''available_in_plans''],
          md_last_seen_at = firstString [r ''last_seen_at'', c ''last_seen_at'']\<rparr>)"

section \<open>Plans\<close>

fun plan_text :: "jv option \<Rightarrow> string list" where
  "plan_text (Some (JStr s)) = (if js_trim s = [] then [] else [s])"
| "plan_text _ = []"

definition planIncompatibility :: "model_metadata option \<Rightarrow> 'a list \<Rightarrow> ('a \<Rightarrow> jv option) \<Rightarrow> bool" where
  "planIncompatibility metadata accountIds planByAccount =
     (case Option.bind metadata md_available_in_plans of
        None \<Rightarrow> False
      | Some plans \<Rightarrow>
          if plans = [] \<or> accountIds = [] then False
          else let known = concat (map (plan_text \<circ> planByAccount) accountIds)
               in known \<noteq> [] \<and> list_all (\<lambda>p. toLowerCase p \<notin> toLowerCase ` set plans) known)"

section \<open>Merging\<close>

fun maxNumber :: "int option list \<Rightarrow> int option" where
  "maxNumber [] = None"
| "maxNumber (None # vs) = maxNumber vs"
| "maxNumber (Some n # vs) = (case maxNumber vs of None \<Rightarrow> Some n | Some m \<Rightarrow> Some (max n m))"

definition mergeBoolean :: "bool option list \<Rightarrow> bool option" where
  "mergeBoolean vs =
     (if Some True \<in> set vs then Some True
      else if vs \<noteq> [] \<and> list_all (\<lambda>v. v = Some False) vs then Some False else None)"

fun firstPresent :: "'a option list \<Rightarrow> 'a option" where
  "firstPresent [] = None"
| "firstPresent (None # vs) = firstPresent vs"
| "firstPresent (Some x # vs) = Some x"

definition add_new :: "string \<Rightarrow> string list \<Rightarrow> string list" where
  "add_new x out = (if x \<in> set out then out else out @ [x])"

definition mergeStringArray :: "string list option list \<Rightarrow> string list option" where
  "mergeStringArray groups =
     (let out = fold add_new (concat (map (\<lambda>g. case g of None \<Rightarrow> [] | Some xs \<Rightarrow> xs) groups)) []
      in if out = [] then None else Some out)"

text \<open>\<open>reduce\<close> with a strict comparison keeps the first of the latest dates.\<close>

definition later :: "(string \<Rightarrow> int option) \<Rightarrow> string \<Rightarrow> string \<Rightarrow> string" where
  "later parse v best = (if the (parse best) < the (parse v) then v else best)"

definition dated :: "(string \<Rightarrow> int option) \<Rightarrow> string option list \<Rightarrow> string list" where
  "dated parse vs = concat (map (\<lambda>v. case v of None \<Rightarrow> [] | Some s \<Rightarrow> if parse s = None then [] else [s]) vs)"

definition latestString :: "(string \<Rightarrow> int option) \<Rightarrow> string option list \<Rightarrow> string option" where
  "latestString parse vs =
     (case dated parse vs of [] \<Rightarrow> firstPresent vs | s # ss \<Rightarrow> Some (fold (later parse) ss s))"

definition mergeModelMetadata :: "(string \<Rightarrow> int option) \<Rightarrow> model_metadata list \<Rightarrow> model_metadata" where
  "mergeModelMetadata parse items =
     \<lparr>md_context_window = maxNumber (map md_context_window items),
      md_tools = mergeBoolean (map md_tools items),
      md_function_calling = mergeBoolean (map md_function_calling items),
      md_reasoning = mergeBoolean (map md_reasoning items),
      md_image_generation = mergeBoolean (map md_image_generation items),
      md_supported_in_api = mergeBoolean (map md_supported_in_api items),
      md_tier = firstPresent (map md_tier items),
      md_owner = firstPresent (map md_owner items),
      md_description = firstPresent (map md_description items),
      md_tool_names = mergeStringArray (map md_tool_names items),
      md_input_modalities = mergeStringArray (map md_input_modalities items),
      md_parallel_tool_calls = mergeBoolean (map md_parallel_tool_calls items),
      md_available_in_plans = mergeStringArray (map md_available_in_plans items),
      md_last_seen_at = latestString parse (map md_last_seen_at items)\<rparr>"

section \<open>Well-formed descriptions\<close>

definition text_ok :: "string \<Rightarrow> bool" where
  "text_ok s \<longleftrightarrow> s \<noteq> [] \<and> length s \<le> STRING_LIMIT"

definition metadata_ok :: "model_metadata \<Rightarrow> bool" where
  "metadata_ok m \<longleftrightarrow>
     pred_option (\<lambda>n. 0 \<le> n) (md_context_window m)
     \<and> pred_option text_ok (md_tier m) \<and> pred_option text_ok (md_owner m) \<and> pred_option text_ok (md_description m)
     \<and> pred_option text_ok (md_last_seen_at m)
     \<and> pred_option (\<lambda>xs. xs \<noteq> [] \<and> distinct xs \<and> list_all text_ok xs) (md_tool_names m)
     \<and> pred_option (\<lambda>xs. xs \<noteq> [] \<and> list_all text_ok xs) (md_input_modalities m)
     \<and> pred_option (\<lambda>xs. xs \<noteq> [] \<and> list_all text_ok xs) (md_available_in_plans m)"

lemma clip_ok: "js_trim s \<noteq> [] \<Longrightarrow> text_ok (clip s)"
  by (simp add: text_ok_def clip_def STRING_LIMIT_def)

lemma texts_of_ok: "list_all text_ok (texts_of vs)"
  by (induction vs rule: texts_of.induct) (simp_all add: clip_ok)

lemma firstString_ok: "pred_option text_ok (firstString vs)"
  by (induction vs rule: firstString.induct) (simp_all add: clip_ok)

lemma firstStringArray_ok: "pred_option (\<lambda>xs. xs \<noteq> [] \<and> list_all text_ok xs) (firstStringArray vs)"
  by (induction vs rule: firstStringArray.induct) (simp_all add: texts_of_ok)

lemma firstPositiveNumber_ok: "pred_option (\<lambda>n. 0 \<le> n) (firstPositiveNumber vs)"
  by (induction vs) (simp_all split: jsnum.split)

lemma fold_pushTool:
  "distinct ts \<Longrightarrow> distinct (fold pushTool xs ts) \<and> set (fold pushTool xs ts) = set ts \<union> (set xs - {[]})"
  by (induction xs arbitrary: ts) (auto simp: pushTool_def)

lemma alias_tools_ok: "list_all text_ok (alias_tools ps)"
proof -
  have "list_all text_ok (map snd TOOL_ALIASES)"
    by (simp add: TOOL_ALIASES_def text_ok_def STRING_LIMIT_def)
  then have "map_of TOOL_ALIASES k = Some t \<Longrightarrow> text_ok t" for k t
    by (auto simp: list_all_iff dest!: map_of_SomeD)
  then show ?thesis
    by (auto simp: alias_tools_def list_all_iff split: option.splits if_splits)
qed

lemma announced_ok:
  "list_all text_ok (source_tools v)" "list_all text_ok (explicit_tools v)" "list_all text_ok (modality_tools ms)"
  using alias_tools_ok texts_of_ok
  by (simp_all add: source_tools_def explicit_tools_def modality_tools_def text_ok_def STRING_LIMIT_def split: jv.split option.split)

lemma maxNumber_ok: "list_all (pred_option (\<lambda>n. 0 \<le> n)) vs \<Longrightarrow> pred_option (\<lambda>n. 0 \<le> n) (maxNumber vs)"
  by (induction vs rule: maxNumber.induct) (auto split: option.split)

lemma firstPresent_ok: "list_all (pred_option P) vs \<Longrightarrow> pred_option P (firstPresent vs)"
  by (induction vs rule: firstPresent.induct) auto

lemma fold_add_new:
  "distinct ts \<Longrightarrow> distinct (fold add_new xs ts) \<and> set (fold add_new xs ts) = set ts \<union> set xs"
  by (induction xs arbitrary: ts) (auto simp: add_new_def)

lemma mergeStringArray_ok:
  assumes "list_all (pred_option (list_all P)) gs"
  shows "pred_option (\<lambda>xs. xs \<noteq> [] \<and> distinct xs \<and> list_all P xs) (mergeStringArray gs)"
proof -
  let ?c = "concat (map (\<lambda>g. case g of None \<Rightarrow> [] | Some xs \<Rightarrow> xs) gs)"
  have "list_all P ?c" using assms by (induction gs) (auto split: option.split)
  moreover have "distinct (fold add_new ?c []) \<and> set (fold add_new ?c []) = set ?c"
    using fold_add_new [of "[]" ?c] by simp
  ultimately show ?thesis by (simp add: mergeStringArray_def Let_def list_all_iff)
qed

lemma fold_later_mem: "fold (later parse) ss s \<in> set (s # ss)"
  by (induction ss arbitrary: s) (auto simp: later_def)

lemma latestString_ok:
  assumes "list_all (pred_option P) vs"
  shows "pred_option P (latestString parse vs)"
proof (cases "dated parse vs")
  case Nil
  then show ?thesis using firstPresent_ok [OF assms] by (simp add: latestString_def)
next
  case (Cons s ss)
  have "\<forall>x\<in>set (dated parse vs). P x"
    using assms by (induction vs) (auto simp: dated_def split: option.splits if_splits)
  then show ?thesis using Cons fold_later_mem [of parse ss s] by (auto simp: latestString_def)
qed


definition blank_metadata :: model_metadata where
  "blank_metadata = \<lparr>md_context_window = None, md_tools = None, md_function_calling = None, md_reasoning = None,
     md_image_generation = None, md_supported_in_api = None, md_tier = None, md_owner = None, md_description = None,
     md_tool_names = None, md_input_modalities = None, md_parallel_tool_calls = None, md_available_in_plans = None,
     md_last_seen_at = None\<rparr>"


section \<open>Merging in groups\<close>

lemma single [simp]: "maxNumber [x] = x" "firstPresent [y] = y"
  by (cases x; simp) (cases y; simp)

lemma maxNumber_append: "maxNumber (xs @ ys) = maxNumber [maxNumber xs, maxNumber ys]"
  by (induction xs rule: maxNumber.induct) (auto split: option.splits simp: max.assoc)

lemma mergeBoolean_append: "xs \<noteq> [] \<Longrightarrow> ys \<noteq> [] \<Longrightarrow> mergeBoolean (xs @ ys) = mergeBoolean [mergeBoolean xs, mergeBoolean ys]"
  by (auto simp: mergeBoolean_def)

lemma firstPresent_append: "firstPresent (xs @ ys) = firstPresent [firstPresent xs, firstPresent ys]"
  by (induction xs rule: firstPresent.induct) auto

lemma set_fold_add_new: "set (fold add_new xs ts) = set ts \<union> set xs"
  by (induction xs arbitrary: ts) (auto simp: add_new_def)

lemma fold_add_new_nested: "fold add_new (fold add_new ys us) ts = fold add_new ys (fold add_new us ts)"
proof (induction ys arbitrary: us)
  case (Cons y ys)
  have "fold add_new (add_new y us) ts = add_new y (fold add_new us ts)"
    using set_fold_add_new [of us ts] by (cases "y \<in> set us") (simp_all add: add_new_def)
  then show ?case using Cons by simp
qed simp

lemma mergeStringArray_append: "mergeStringArray (xs @ ys) = mergeStringArray [mergeStringArray xs, mergeStringArray ys]"
proof -
  let ?c = "\<lambda>gs. concat (map (\<lambda>g. case g of None \<Rightarrow> [] | Some xs \<Rightarrow> xs) gs)"
  have g: "(case mergeStringArray gs of None \<Rightarrow> [] | Some zs \<Rightarrow> zs) = fold add_new (?c gs) []" for gs
    by (simp add: mergeStringArray_def Let_def)
  show ?thesis
    by (simp add: mergeStringArray_def [of "xs @ ys"] mergeStringArray_def [of "[mergeStringArray xs, mergeStringArray ys]"] Let_def g
          fold_add_new_nested)
qed

lemma later_assoc: "later p c (later p b a) = later p (later p c b) a"
  by (simp add: later_def)

lemma fold_later: "fold (later p) (s # ss) a = later p (fold (later p) ss s) a"
proof (induction ss arbitrary: s)
  case (Cons t ss)
  have "fold (later p) (s # t # ss) a = fold (later p) (later p t s # ss) a"
    by (simp only: fold_simps later_assoc)
  also have "\<dots> = later p (fold (later p) ss (later p t s)) a" by (rule Cons)
  finally show ?case by (simp only: fold_simps)
qed simp

lemma dated_append [simp]: "dated p (xs @ ys) = dated p xs @ dated p ys"
  by (simp add: dated_def)

lemma dated_firstPresent: "dated p xs = [] \<Longrightarrow> dated p [firstPresent xs] = []"
  by (induction xs rule: firstPresent.induct) (auto simp: dated_def split: if_splits)

lemma dated_defined: "x \<in> set (dated p xs) \<Longrightarrow> p x \<noteq> None"
  unfolding dated_def by (force split: option.splits if_splits)

lemma dated_latest: "dated p xs = s # ss \<Longrightarrow> dated p [Some (fold (later p) ss s)] = [fold (later p) ss s]"
proof -
  assume d: "dated p xs = s # ss"
  have "fold (later p) ss s \<in> set (dated p xs)" using d fold_later_mem [of p ss s] by simp
  then have "p (fold (later p) ss s) \<noteq> None" by (rule dated_defined)
  then show ?thesis by (simp add: dated_def)
qed

lemma dated_pair: "dated p [x, y] = dated p [x] @ dated p [y]"
  by (simp add: dated_def)

lemma latestString_append: "latestString p (xs @ ys) = latestString p [latestString p xs, latestString p ys]"
proof (cases "dated p xs")
  case Nil
  note xs = Nil
  show ?thesis
  proof (cases "dated p ys")
    case Nil
    then show ?thesis
      using xs by (simp add: latestString_def dated_pair dated_firstPresent firstPresent_append [of xs ys])
  next
    case (Cons t ts)
    then show ?thesis
      using xs by (simp add: latestString_def dated_pair dated_firstPresent dated_latest [OF Cons])
  qed
next
  case (Cons s ss)
  note xs = Cons
  show ?thesis
  proof (cases "dated p ys")
    case Nil
    then show ?thesis
      using xs by (simp add: latestString_def dated_pair dated_firstPresent dated_latest [OF xs])
  next
    case (Cons t ts)
    then show ?thesis
      using xs by (simp add: latestString_def dated_pair dated_latest [OF xs] dated_latest [OF Cons] fold_later del: fold.simps(2))
  qed
qed

text \<open>The merge does not depend on how the accounts are grouped: merging two non-empty groups and then the
  two results is merging all descriptions at once.\<close>

theorem mergeModelMetadata_groups:
  assumes "xs \<noteq> []" and "ys \<noteq> []"
  shows "mergeModelMetadata p (xs @ ys) = mergeModelMetadata p [mergeModelMetadata p xs, mergeModelMetadata p ys]"
  using assms
  by (simp add: mergeModelMetadata_def maxNumber_append [of "map f xs" "map f ys" for f] mergeBoolean_append firstPresent_append [of "map f xs" "map f ys" for f]
        mergeStringArray_append [of "map f xs" "map f ys" for f] latestString_append [of p "map f xs" "map f ys" for f])

theorem mergeModelMetadata_groups_witness:
  "mergeModelMetadata (\<lambda>_. None) [blank_metadata\<lparr>md_tools := Some False\<rparr>, blank_metadata] =
   mergeModelMetadata (\<lambda>_. None) [mergeModelMetadata (\<lambda>_. None) [blank_metadata\<lparr>md_tools := Some False\<rparr>],
     mergeModelMetadata (\<lambda>_. None) [blank_metadata]]"
  using mergeModelMetadata_groups [of "[blank_metadata\<lparr>md_tools := Some False\<rparr>]" "[blank_metadata]" "\<lambda>_. None"] by simp

end
