(* ===== verification/Provider_Operations.thy ===== *)
theory Provider_Operations
  imports Snapshots
begin

text \<open>
  \<open>lib/provider-operations.ts\<close>: an operation on an upstream account is sent to a gateway with the
  decrypted account, and the answer is read within a bound and reduced to safe errors.  The
  gateway is a parameter: it gets the request document and the timeout and either fails
  (\<open>None\<close>) or answers with a status and the chunks of its body.
\<close>

datatype operation_kind =
  DiscoverModels | ValidateCredentials | ReadUsage | ListResetCredits | ConsumeResetCredit

fun kind_text :: "operation_kind \<Rightarrow> string" where
  "kind_text DiscoverModels = ''discover_models''"
| "kind_text ValidateCredentials = ''validate_credentials''"
| "kind_text ReadUsage = ''read_usage''"
| "kind_text ListResetCredits = ''list_reset_credits''"
| "kind_text ConsumeResetCredit = ''consume_reset_credit''"

record gateway_answer =
  ga_status :: nat
  ga_body :: "string list option"

record gateway_api =
  gw_fetch :: "jv \<Rightarrow> nat \<Rightarrow> gateway_answer option"
  gw_parse :: "string \<Rightarrow> jv option"

definition MAX_OPERATION_RESPONSE_BYTES :: nat where
  "MAX_OPERATION_RESPONSE_BYTES = 2 * 1024 * 1024"

definition RUNTIME_CREDENTIAL_FIELDS :: "string list" where
  "RUNTIME_CREDENTIAL_FIELDS = [''kind'', ''api_key'', ''access_token'', ''refresh_token'', ''id_token'', ''cookies'',
     ''organization_id'', ''expires_at'', ''client_id'', ''chatgpt_account_id'']"

definition runtimeCredential :: "jv \<Rightarrow> (string \<times> jv) list" where
  "runtimeCredential credential =
     concat (map (\<lambda>f. if get_prop credential f = JUndef then [] else [(f, get_prop credential f)]) RUNTIME_CREDENTIAL_FIELDS)"

definition runtime_document :: "provider_row \<Rightarrow> account_row \<Rightarrow> jv \<Rightarrow> jv" where
  "runtime_document p a credential =
     (let kind = coalesce (get_prop credential ''kind'') (JStr (if p_adapter p = ''openai-codex'' then ''oauth'' else ''api_key''));
          proxy = get_prop (a_metadata a) ''proxy''
      in JObj ([(''id'', id_json (a_id a)), (''name'', JStr (a_name a)), (''adapter'', JStr (p_adapter p)),
          (''base_url'', JStr (a_base_url a)),
          (''credential'', JObj (set_prop ''revision'' (int_json (a_revision a)) (set_prop ''kind'' kind (runtimeCredential credential)))),
          (''enabled'', JBool (a_enabled a)), (''priority'', int_json (a_priority a)), (''weight'', int_json (a_weight a)),
          (''max_concurrency'', int_json (a_max_concurrency a)), (''cost'', rat_json (a_cost a))]
        @ member_if (is_str proxy \<and> \<not> blank proxy) ''proxy'' proxy))"

text \<open>The two inner joins: an account without a provider row or without a secret is not found.\<close>

definition loadRuntimeAccount :: "uuid \<Rightarrow> db \<Rightarrow> jv res" where
  "loadRuntimeAccount i d =
     (case find_account i d of
        None \<Rightarrow> Inl (ApiError 404 ''account_not_found'' ''Account not found'')
      | Some a \<Rightarrow>
         (case (find_provider (a_provider a) d, Option.bind (a_secret a) (\<lambda>s. find_secret s d)) of
            (Some p, Some s) \<Rightarrow> Inr (runtime_document p a (s_sealed s))
          | _ \<Rightarrow> Inl (ApiError 404 ''account_not_found'' ''Account not found'')))"

fun operationTimeout :: "operation_kind \<Rightarrow> nat" where
  "operationTimeout DiscoverModels = 30000"
| "operationTimeout ConsumeResetCredit = 30000"
| "operationTimeout _ = 20000"

fun read_answer :: "nat \<Rightarrow> nat \<Rightarrow> string list \<Rightarrow> string res" where
  "read_answer maxBytes sz [] = Inr []"
| "read_answer maxBytes sz (c # cs) =
     (if maxBytes < sz + length c
      then Inl (ApiError 502 ''provider_operation_response_too_large'' ''Provider operation response exceeded the size limit'')
      else case read_answer maxBytes (sz + length c) cs of Inl e \<Rightarrow> Inl e | Inr rest \<Rightarrow> Inr (c @ rest))"

definition readResponseBounded :: "gateway_answer \<Rightarrow> nat \<Rightarrow> string res" where
  "readResponseBounded ans maxBytes = (case ga_body ans of None \<Rightarrow> Inr [] | Some cs \<Rightarrow> read_answer maxBytes 0 cs)"

text \<open>\<open>/^[a-z0-9_]{1,128}$/\<close>\<close>

definition code_ok :: "string \<Rightarrow> bool" where
  "code_ok s \<longleftrightarrow> s \<noteq> [] \<and> length s \<le> 128 \<and> list_all (\<lambda>c. is_lower c \<or> is_digit c \<or> c = CHR ''_'') s"

definition safeOperationError :: "gateway_api \<Rightarrow> string \<Rightarrow> (string \<times> string) option" where
  "safeOperationError gw body =
     (if body = [] \<or> 16 * 1024 < length body then None
      else case gw_parse gw body of
          None \<Rightarrow> None
        | Some v \<Rightarrow>
            let e = get_prop v ''error'';
                cd = (case get_prop e ''code'' of JStr s \<Rightarrow> if code_ok s then s else [] | _ \<Rightarrow> []);
                message = (case get_prop e ''message'' of JStr s \<Rightarrow> take 256 (strip_ctrl s) | _ \<Rightarrow> [])
            in if cd = [] then None
               else Some (cd, if message = [] then ''Provider operation failed'' else message))"

definition operation_request :: "operation_kind \<Rightarrow> jv \<Rightarrow> jv \<Rightarrow> string \<Rightarrow> jv" where
  "operation_request kind account input key =
     JObj [(''operation'', JStr (kind_text kind)), (''account'', account), (''input'', coalesce input (JObj [])),
           (''idempotency_key'', JStr key)]"

definition answer_error :: "gateway_api \<Rightarrow> nat \<Rightarrow> string \<Rightarrow> error" where
  "answer_error gw status body =
     (case safeOperationError gw body of
        Some (c, m) \<Rightarrow> ApiError status c m
      | None \<Rightarrow> if status = 409 then ApiError status ''credential_revision_conflict'' ''Credential revision conflict''
                else ApiError status ''provider_operation_failed'' ''Provider operation failed'')"

definition dispatchProviderOperation ::
  "gateway_api \<Rightarrow> uuid \<Rightarrow> operation_kind \<Rightarrow> jv \<Rightarrow> string \<Rightarrow> db \<Rightarrow> jv res" where
  "dispatchProviderOperation gw i kind input key d =
     (case loadRuntimeAccount i d of Inl e \<Rightarrow> Inl e
      | Inr account \<Rightarrow>
         (case gw_fetch gw (operation_request kind account input key) (operationTimeout kind) of
            None \<Rightarrow> Inl (JsError ''fetch failed'')
          | Some ans \<Rightarrow>
             (case readResponseBounded ans MAX_OPERATION_RESPONSE_BYTES of Inl e \<Rightarrow> Inl e
              | Inr body \<Rightarrow>
                 if \<not> (200 \<le> ga_status ans \<and> ga_status ans < 300) then Inl (answer_error gw (ga_status ans) body)
                 else if body = [] then Inr (JObj [(''data'', JObj [])])
                 else case gw_parse gw body of
                     None \<Rightarrow> Inl (ApiError 502 ''provider_operation_invalid_response'' ''Provider operation returned invalid JSON'')
                   | Some v \<Rightarrow> Inr v)))"

section \<open>What reaches the gateway and what comes back\<close>

lemma runtimeCredential_keys: "fst ` set (runtimeCredential c) \<subseteq> set RUNTIME_CREDENTIAL_FIELDS"
  by (auto simp: runtimeCredential_def split: if_splits)

lemma runtime_document_credential:
  "get_prop (runtime_document p a c) ''credential'' = JObj (set_prop ''revision'' (int_json (a_revision a)) (set_prop ''kind''
     (coalesce (get_prop c ''kind'') (JStr (if p_adapter p = ''openai-codex'' then ''oauth'' else ''api_key''))) (runtimeCredential c)))"
  by (simp add: runtime_document_def Let_def)

text \<open>The account document sent with an operation carries of the stored credential only the fields of the
  allow list, the kind and the revision, which is the account's current one; everything
  else that may be stored in the secret stays in the control plane.\<close>

theorem loadRuntimeAccount_allowlist:
  assumes "loadRuntimeAccount i d = Inr doc" and "find_account i d = Some a"
  shows "fst ` set (record_of (get_prop doc ''credential'')) \<subseteq> set (''revision'' # RUNTIME_CREDENTIAL_FIELDS)
     \<and> get_prop (get_prop doc ''credential'') ''revision'' = int_json (a_revision a)"
proof -
  obtain p c where doc: "doc = runtime_document p a c"
    using assms by (auto simp: loadRuntimeAccount_def split: option.splits prod.splits)
  have "set RUNTIME_CREDENTIAL_FIELDS = insert ''kind'' (set RUNTIME_CREDENTIAL_FIELDS)"
    by (auto simp: RUNTIME_CREDENTIAL_FIELDS_def)
  then show ?thesis
    using runtimeCredential_keys [of c] by (auto simp: doc runtime_document_credential set_prop_keys)
qed

theorem loadRuntimeAccount_allowlist_witness:
  "get_prop (get_prop (runtime_document (sample_provider 1 ''openai-codex'') ((sample_account 2 1 ''a'')\<lparr>a_secret := Some 3\<rparr>)
       (JObj [(''note'', JStr ''n''), (''access_token'', JStr ''t'')])) ''credential'') ''revision'' = int_json 1"
proof -
  let ?d = "empty_db\<lparr>providers := [sample_provider 1 ''openai-codex''], accounts := [(sample_account 2 1 ''a'')\<lparr>a_secret := Some 3\<rparr>],
     secrets := [\<lparr>s_id = 3, s_purpose = [], s_sealed = JObj [(''note'', JStr ''n''), (''access_token'', JStr ''t'')]\<rparr>]\<rparr>"
  have a: "find_account 2 ?d = Some ((sample_account 2 1 ''a'')\<lparr>a_secret := Some 3\<rparr>)"
    by (simp add: find_account_def sample_account_def)
  have l: "loadRuntimeAccount 2 ?d = Inr (runtime_document (sample_provider 1 ''openai-codex'') ((sample_account 2 1 ''a'')\<lparr>a_secret := Some 3\<rparr>)
       (JObj [(''note'', JStr ''n''), (''access_token'', JStr ''t'')]))"
    unfolding loadRuntimeAccount_def a
    by (simp add: find_provider_def find_secret_def sample_account_def sample_provider_def)
  show ?thesis
    using loadRuntimeAccount_allowlist [OF l a] by (simp add: sample_account_def)
qed

text \<open>What the source calls a safe error: a short code of lower-case letters, digits and underscores, and a message of
  at most 256 characters without control characters.\<close>

definition safe_error :: "error \<Rightarrow> bool" where
  "safe_error e = (case e of ApiError s c m \<Rightarrow> code_ok c \<and> length m \<le> 256 \<and> list_all (\<lambda>x. \<not> is_ctrl x) m | _ \<Rightarrow> True)"

lemma safeOperationError_safe:
  assumes "safeOperationError gw body = Some (c, m)"
  shows "code_ok c \<and> length m \<le> 256 \<and> list_all (\<lambda>x. \<not> is_ctrl x) m"
proof -
  have s: "list_all (\<lambda>x. \<not> is_ctrl x) (take 256 (strip_ctrl t))" for t
    by (auto simp: strip_ctrl_def list_all_iff dest!: in_set_takeD)
  show ?thesis
    using assms s
    by (auto simp: safeOperationError_def Let_def is_ctrl_def code_def split: if_splits option.splits jv.splits)
qed

lemma read_answer_exact:
  "read_answer m sz cs = (if cs = [] \<or> sz + length (concat cs) \<le> m then Inr (concat cs)
     else Inl (ApiError 502 ''provider_operation_response_too_large'' ''Provider operation response exceeded the size limit''))"
  by (induction cs arbitrary: sz) (auto split: sum.splits)

text \<open>Whatever a gateway answers, at most two megabytes are accepted, and an error that is passed on is safe: its code
  and message cannot carry control characters or unbounded text from the upstream provider.\<close>

theorem dispatchProviderOperation_safe:
  "case dispatchProviderOperation gw i kind input key d of
     Inl e \<Rightarrow> safe_error e
   | Inr v \<Rightarrow> v = JObj [(''data'', JObj [])]
       \<or> (\<exists>body. length body \<le> MAX_OPERATION_RESPONSE_BYTES \<and> gw_parse gw body = Some v)"
proof -
  have load: "loadRuntimeAccount i d = Inl e \<Longrightarrow> safe_error e" for e
    by (auto simp: loadRuntimeAccount_def safe_error_def code_ok_def char_class_defs split: option.splits prod.splits)
  have ans: "safe_error (answer_error gw st body)" for st body
    using safeOperationError_safe [of gw body]
    by (auto simp: answer_error_def safe_error_def code_ok_def char_class_defs split: option.split)
  have read: "readResponseBounded a m = Inl e \<Longrightarrow> safe_error e" for a m e
    by (auto simp: readResponseBounded_def read_answer_exact safe_error_def code_ok_def char_class_defs split: option.splits if_splits)
  have len: "readResponseBounded a m = Inr body \<Longrightarrow> length body \<le> m" for a m body
    by (auto simp: readResponseBounded_def read_answer_exact split: option.splits if_splits)
  have bad: "safe_error (ApiError 502 ''provider_operation_invalid_response'' ''Provider operation returned invalid JSON'')"
    by (simp add: safe_error_def code_ok_def char_class_defs)
  show ?thesis
    unfolding dispatchProviderOperation_def
    using load ans read len bad
    by (auto simp: safe_error_def [of "JsError m" for m] split: sum.split option.split)
qed

end
