(* ===== verification/Discovery.thy ===== *)
theory Discovery
  imports Control Provider_Operations Model_Metadata
begin

text \<open>
  \<open>lib/codex/operations.ts\<close>: the models of every account are discovered through the gateway, cleaned of
  anything that looks like a secret, stored per account and shown grouped by provider; a
  discovered model is imported under a public alias, and an alias can be renamed.  The workers of
  \<open>mapLimit\<close> write rows of different accounts only, so they are modelled in index order; theory
  \<open>Worker_Pool\<close> shows that every other order gives the same.
\<close>

section \<open>JSON text and its size\<close>

fun json_stringify :: "(rat \<Rightarrow> string) \<Rightarrow> jv \<Rightarrow> string" where
  "json_stringify num JUndef = ''null''"
| "json_stringify num JNull = ''null''"
| "json_stringify num (JBool b) = (if b then ''true'' else ''false'')"
| "json_stringify num (JNum n) = (case n of Fin x \<Rightarrow> num x | _ \<Rightarrow> ''null'')"
| "json_stringify num (JStr s) = json_string s"
| "json_stringify num (JArr vs) = ''['' @ js_join '','' (map (json_stringify num) vs) @ '']''"
| "json_stringify num (JObj ps) =
     ''{'' @ js_join '','' (concat (map (\<lambda>(k, v). if v = JUndef then [] else [json_string k @ '':'' @ json_stringify num v]) ps)) @ ''}''"

text \<open>\<open>Buffer.byteLength\<close>: two bytes for a character beyond ASCII.\<close>

definition byteLength :: "string \<Rightarrow> nat" where
  "byteLength s = sum_list (map (\<lambda>c. if code c < 128 then 1 else 2) s)"

section \<open>Metadata without secrets\<close>

definition METADATA_LIMIT :: nat where
  "METADATA_LIMIT = 32 * 1024"

definition SECRET_METADATA_KEY_PARTS :: "string list" where
  "SECRET_METADATA_KEY_PARTS = [''oauth'', ''token'', ''apikey'', ''authorization'', ''cookie'', ''clientsecret'', ''password'',
     ''privatekey'', ''secret'', ''credential'', ''bearer'', ''session'']"

definition isSecretMetadataKey :: "string \<Rightarrow> bool" where
  "isSecretMetadataKey key \<longleftrightarrow>
     list_ex (js_includes (toLowerCase (filter is_alnum key))) SECRET_METADATA_KEY_PARTS"

fun filterSecretMetadata :: "jv \<Rightarrow> jv" where
  "filterSecretMetadata (JArr vs) = JArr (map filterSecretMetadata vs)"
| "filterSecretMetadata (JObj ps) = JObj (concat (map (\<lambda>(k, v). if isSecretMetadataKey k then [] else [(k, filterSecretMetadata v)]) ps))"
| "filterSecretMetadata v = v"

definition doc_size :: "(rat \<Rightarrow> string) \<Rightarrow> (string \<times> jv) list \<Rightarrow> nat" where
  "doc_size num ps = byteLength (json_stringify num (JObj ps))"

fun keep_fitting :: "(rat \<Rightarrow> string) \<Rightarrow> (string \<times> jv) list \<Rightarrow> (string \<times> jv) list \<Rightarrow> (string \<times> jv) list" where
  "keep_fitting num out [] = out"
| "keep_fitting num out ((k, v) # rest) =
     (if METADATA_LIMIT < doc_size num (set_prop k v out) then keep_fitting num out rest
      else keep_fitting num (set_prop k v out) rest)"

text \<open>The \<open>while\<close> loop drops the last member until the text fits.\<close>

function drop_last :: "(rat \<Rightarrow> string) \<Rightarrow> (string \<times> jv) list \<Rightarrow> (string \<times> jv) list" where
  "drop_last num out = (if out \<noteq> [] \<and> METADATA_LIMIT < doc_size num out then drop_last num (butlast out) else out)"
  by pat_completeness auto

termination
  by (relation "measure (\<lambda>(num, out). length out)") auto

declare drop_last.simps [simp del]

definition sanitizeMetadata :: "(rat \<Rightarrow> string) \<Rightarrow> jv \<Rightarrow> jv" where
  "sanitizeMetadata num input =
     (let filtered = filterSecretMetadata (coalesce input (JObj []))
      in if byteLength (json_stringify num filtered) \<le> METADATA_LIMIT then filtered
         else JObj (drop_last num (keep_fitting num [(''truncated'', JBool True)] (record_of filtered))))"

section \<open>Discovery\<close>

record parsed_model =
  pm_upstream :: string
  pm_display :: string
  pm_capabilities :: jv
  pm_visibility :: string
  pm_supported :: bool
  pm_raw :: jv

fun filled_text :: "jv \<Rightarrow> bool" where
  "filled_text JUndef = True"
| "filled_text (JStr s) = (s \<noteq> [])"
| "filled_text _ = False"

definition DiscoveryModelSchema :: "jv \<Rightarrow> bool" where
  "DiscoveryModelSchema v \<longleftrightarrow> is_record v
     \<and> list_all (\<lambda>k. filled_text (get_prop v k)) [''slug'', ''id'', ''name'', ''display_name'']
     \<and> (get_prop v ''capabilities'' = JUndef \<or> is_record (get_prop v ''capabilities''))
     \<and> (get_prop v ''visibility'' = JUndef \<or> is_str (get_prop v ''visibility''))
     \<and> (get_prop v ''supported_in_api'' = JUndef \<or> as_bool (get_prop v ''supported_in_api'') \<noteq> None)"

definition parse_model :: "(rat \<Rightarrow> string) \<Rightarrow> jv \<Rightarrow> parsed_model res" where
  "parse_model num v =
     (if \<not> DiscoveryModelSchema v then Inl ZodError
      else case coalesce (get_prop v ''slug'') (coalesce (get_prop v ''id'') (get_prop v ''name'')) of
          JStr upstream \<Rightarrow>
            Inr \<lparr>pm_upstream = upstream,
                 pm_display = (case get_prop v ''display_name'' of JStr s \<Rightarrow> s | _ \<Rightarrow> upstream),
                 pm_capabilities = coalesce (get_prop v ''capabilities'') (JObj []),
                 pm_visibility = (case get_prop v ''visibility'' of JStr s \<Rightarrow> s | _ \<Rightarrow> ''unknown''),
                 pm_supported = (case get_prop v ''supported_in_api'' of JBool b \<Rightarrow> b | _ \<Rightarrow> False),
                 pm_raw = sanitizeMetadata num v\<rparr>
        | _ \<Rightarrow> Inl (ApiError 502 ''provider_model_missing_slug'' ''Discovered model is missing slug, id, or name''))"

definition model_items :: "jv \<Rightarrow> jv list" where
  "model_items data =
     (case as_arr (get_prop data ''models'') of Some vs \<Rightarrow> vs
      | None \<Rightarrow> (case as_arr (get_prop data ''data'') of Some vs \<Rightarrow> vs | None \<Rightarrow> arr_of data))"

definition parseModels :: "(rat \<Rightarrow> string) \<Rightarrow> jv \<Rightarrow> parsed_model list res" where
  "parseModels num data = all_or_error (map (parse_model num) (model_items data))"

definition discovered_of :: "account_row \<Rightarrow> ms \<Rightarrow> parsed_model \<Rightarrow> discovered_row" where
  "discovered_of a now m =
     \<lparr>d_provider = a_provider a, d_account = a_id a, d_upstream = pm_upstream m, d_display = pm_display m,
      d_capabilities = pm_capabilities m, d_visibility = pm_visibility m, d_supported = pm_supported m, d_available = True,
      d_raw = pm_raw m, d_last_seen = now\<rparr>"

definition upsert_model :: "account_row \<Rightarrow> ms \<Rightarrow> parsed_model \<Rightarrow> discovered_row list \<Rightarrow> discovered_row list" where
  "upsert_model a now m =
     upsert_where (\<lambda>r. d_account r = a_id a \<and> d_upstream r = pm_upstream m)
       (\<lambda>r. r\<lparr>d_display := pm_display m, d_capabilities := pm_capabilities m, d_visibility := pm_visibility m,
              d_supported := pm_supported m, d_available := True, d_raw := pm_raw m, d_last_seen := now\<rparr>)
       (discovered_of a now m)"

definition persist_rows :: "account_row \<Rightarrow> ms \<Rightarrow> parsed_model list \<Rightarrow> discovered_row list \<Rightarrow> discovered_row list" where
  "persist_rows a now models rows =
     update_where (\<lambda>r. d_account r = a_id a \<and> d_upstream r \<notin> set (map pm_upstream models))
       (\<lambda>r. r\<lparr>d_available := False\<rparr>) (fold (upsert_model a now) models rows)"

definition persistAccountModels :: "account_row \<Rightarrow> ms \<Rightarrow> parsed_model list \<Rightarrow> (db, unit) act" where
  "persistAccountModels a now models = modify_act (\<lambda>d. d\<lparr>discovered := persist_rows a now models (discovered d)\<rparr>)"

datatype discovery_scope = AllAccounts | OfProvider uuid | OfAccount uuid

definition accountsForScope :: "discovery_scope \<Rightarrow> db \<Rightarrow> account_row list" where
  "accountsForScope sc d =
     sort_key a_name (filter (\<lambda>a. a_enabled a \<and> find_provider (a_provider a) d \<noteq> None \<and>
        (case sc of AllAccounts \<Rightarrow> True | OfProvider p \<Rightarrow> a_provider a = p | OfAccount i \<Rightarrow> a_id a = i)) (accounts d))"

definition gatewayDiscoverModels :: "gateway_api \<Rightarrow> ms \<Rightarrow> account_row \<Rightarrow> db \<Rightarrow> jv res" where
  "gatewayDiscoverModels gw now a d =
     dispatchProviderOperation gw (a_id a) DiscoverModels (JObj [])
       (''discover-models:'' @ show_nat (a_id a) @ '':'' @ show_nat (nat now)) d"

datatype discovery_result =
    Discovered uuid string nat jv
  | DiscoveryFailed uuid string string

definition safeError :: "error \<Rightarrow> string" where
  "safeError e = (case error_code e of Some c \<Rightarrow> c | None \<Rightarrow> ''provider_operation_failed'')"

definition discover_account ::
  "(account_row \<Rightarrow> db \<Rightarrow> jv res) \<Rightarrow> (rat \<Rightarrow> string) \<Rightarrow> ms \<Rightarrow> account_row \<Rightarrow> (db, discovery_result) act" where
  "discover_account op num now a =
     catch_act
       (bind_act (\<lambda>d. (op a d, d)) (\<lambda>response.
        bind_act (lift_res (parseModels num (get_prop response ''data''))) (\<lambda>models.
        then_act (txOn (persistAccountModels a now models))
        (return_act (Discovered (a_id a) (a_name a) (length models) (coalesce (get_prop response ''warning_code'') JNull))))))
       (\<lambda>e. return_act (DiscoveryFailed (a_id a) (a_name a) (safeError e)))"

fun discover_all ::
  "(account_row \<Rightarrow> db \<Rightarrow> jv res) \<Rightarrow> (rat \<Rightarrow> string) \<Rightarrow> ms \<Rightarrow> account_row list \<Rightarrow> (db, discovery_result list) act" where
  "discover_all op num now [] = return_act []"
| "discover_all op num now (a # as) =
     bind_act (discover_account op num now a) (\<lambda>r. bind_act (discover_all op num now as) (\<lambda>rs. return_act (r # rs)))"

fun succeeded :: "discovery_result \<Rightarrow> bool" where
  "succeeded (Discovered i n k w) = True"
| "succeeded (DiscoveryFailed i n c) = False"

fun scope_json :: "discovery_scope \<Rightarrow> jv" where
  "scope_json AllAccounts = JObj [(''scope'', JStr ''all'')]"
| "scope_json (OfProvider p) = JObj [(''scope'', JStr ''provider_id''), (''provider_id'', id_json p)]"
| "scope_json (OfAccount i) = JObj [(''scope'', JStr ''account_id''), (''account_id'', id_json i)]"

definition discoverModelsForScope ::
  "(account_row \<Rightarrow> db \<Rightarrow> jv res) \<Rightarrow> (rat \<Rightarrow> string) \<Rightarrow> ms \<Rightarrow> discovery_scope \<Rightarrow> (db, discovery_result list) act" where
  "discoverModelsForScope op num now sc =
     bind_act (gets_act (accountsForScope sc)) (\<lambda>as.
     bind_act (discover_all op num now as) (\<lambda>rs.
     then_act (audit ''discover_models'' ''model_discovery'' None
        (JObj [(''scope'', scope_json sc), (''succeeded'', int_json (int (length (filter succeeded rs)))),
               (''failed'', int_json (int (length (filter (Not \<circ> succeeded) rs))))]))
     (return_act rs)))"

section \<open>Grouped by provider\<close>

record model_group =
  mg_provider :: provider_row
  mg_upstream :: string
  mg_display :: string
  mg_accounts :: "(uuid \<times> bool \<times> string \<times> ms) list"
  mg_count :: nat
  mg_available :: nat
  mg_items :: "model_metadata list"

definition metadata_input :: "(ms \<Rightarrow> string) \<Rightarrow> discovered_row \<Rightarrow> jv" where
  "metadata_input iso_text r =
     JObj (set_prop ''last_seen_at'' (JStr (iso_text (d_last_seen r))) (set_prop ''capabilities'' (d_capabilities r) (record_of (d_raw r))))"

definition joined_rows :: "db \<Rightarrow> (provider_row \<times> account_row \<times> discovered_row) list" where
  "joined_rows d =
     sort_key (\<lambda>(p, a, r). p_name p) (sort_key (\<lambda>(p, a, r). p_id p) (sort_key (\<lambda>(p, a, r). d_upstream r)
       (sort_key (\<lambda>(p, a, r). a_priority a) (sort_key (\<lambda>(p, a, r). a_name a)
         (concat (map (\<lambda>r. case (find_provider (d_provider r) d, find_account (d_account r) d) of
            (Some p, Some a) \<Rightarrow> [(p, a, r)] | _ \<Rightarrow> []) (discovered d)))))))"

definition group_step :: "(ms \<Rightarrow> string) \<Rightarrow> provider_row \<times> account_row \<times> discovered_row \<Rightarrow> model_group \<Rightarrow> model_group" where
  "group_step iso_text x g =
     (case x of (p, a, r) \<Rightarrow>
        g\<lparr>mg_accounts := mg_accounts g @ [(a_id a, d_available r, a_display a, d_last_seen r)], mg_count := Suc (mg_count g),
          mg_available := (if d_available r then Suc (mg_available g) else mg_available g),
          mg_items := (if d_available r then mg_items g @ [normalizeModelMetadata (metadata_input iso_text r)] else mg_items g)\<rparr>)"

definition new_group :: "provider_row \<times> account_row \<times> discovered_row \<Rightarrow> model_group" where
  "new_group x = (case x of (p, a, r) \<Rightarrow> \<lparr>mg_provider = p, mg_upstream = d_upstream r, mg_display = d_display r, mg_accounts = [],
     mg_count = 0, mg_available = 0, mg_items = []\<rparr>)"

definition same_group :: "provider_row \<times> account_row \<times> discovered_row \<Rightarrow> model_group \<Rightarrow> bool" where
  "same_group x g = (case x of (p, a, r) \<Rightarrow> p_id (mg_provider g) = p_id p \<and> mg_upstream g = d_upstream r)"

definition add_to_group ::
  "(ms \<Rightarrow> string) \<Rightarrow> provider_row \<times> account_row \<times> discovered_row \<Rightarrow> model_group list \<Rightarrow> model_group list" where
  "add_to_group iso_text x = upsert_where (same_group x) (group_step iso_text x) (group_step iso_text x (new_group x))"

definition groupedDiscoveredModels ::
  "(string \<Rightarrow> int option) \<Rightarrow> (ms \<Rightarrow> string) \<Rightarrow> db \<Rightarrow> (model_group \<times> model_metadata) list" where
  "groupedDiscoveredModels parse iso_text d =
     map (\<lambda>g. (g, mergeModelMetadata parse (mg_items g))) (fold (add_to_group iso_text) (joined_rows d) [])"

section \<open>Aliases\<close>

text \<open>\<open>/^[A-Za-z0-9][A-Za-z0-9._:/-]{0,127}$/\<close> and no separator at the end.\<close>

definition alias_ok :: "string \<Rightarrow> bool" where
  "alias_ok s \<longleftrightarrow> s \<noteq> [] \<and> length s \<le> 128 \<and> is_alnum (hd s) \<and> list_all (\<lambda>c. is_alnum c \<or> c \<in> set ''._:/-'') (tl s)"

definition validatePublicAlias :: "string \<Rightarrow> string res" where
  "validatePublicAlias s =
     (if \<not> alias_ok s \<or> last s \<in> set ''._:/-'' \<or> list_ex (\<lambda>c. is_space c \<or> is_ctrl c) s
      then Inl (ApiError 400 ''invalid_model_alias'' ''Model alias must match public alias rules exactly'') else Inr s)"

definition assertAliasAvailable :: "string \<Rightarrow> (db, unit) act" where
  "assertAliasAvailable al =
     bind_act (gets_act (\<lambda>d. list_ex (\<lambda>m. toLowerCase (m_alias m) = toLowerCase al) (aliases d))) (\<lambda>conflict.
       guard_act (\<not> conflict) (ApiError 409 ''model_alias_conflict'' ''Model alias conflicts case-insensitively with an existing alias''))"

text \<open>The table's own check on strategies (migration 006).\<close>

definition db_strategies :: "string list" where
  "db_strategies = [''manual'', ''round_robin'', ''quota_failover'']"

record selection_input =
  si_alias :: string
  si_provider :: uuid
  si_upstream :: string
  si_strategy :: string
  si_enabled :: "bool option"

definition eligible_accounts :: "uuid \<Rightarrow> string \<Rightarrow> db \<Rightarrow> account_row list" where
  "eligible_accounts p upstream d =
     filter (\<lambda>a. a_provider a = p \<and> a_enabled a \<and>
        list_ex (\<lambda>r. d_account r = a_id a \<and> d_provider r = a_provider a \<and> d_upstream r = upstream \<and> d_available r) (discovered d)) (accounts d)"

definition new_alias :: "uuid \<Rightarrow> selection_input \<Rightarrow> alias_row" where
  "new_alias i s = \<lparr>m_id = i, m_alias = si_alias s, m_upstream = si_upstream s, m_provider = Some (si_provider s),
     m_strategy = si_strategy s, m_enabled = (case si_enabled s of None \<Rightarrow> True | Some b \<Rightarrow> b), m_fallbacks = [], m_cache = None,
     m_cache_ttl = None, m_threshold = None\<rparr>"

definition importSelection :: "sn_env \<Rightarrow> selection_input \<Rightarrow> (db, alias_row) act" where
  "importSelection env s =
     then_act (lift_res (validatePublicAlias (si_alias s)))
     (then_act (assertAliasAvailable (si_alias s))
     (bind_act (gets_act (find_provider (si_provider s))) (\<lambda>p.
      then_act (guard_act (case p of Some q \<Rightarrow> p_enabled q | None \<Rightarrow> False) (ApiError 404 ''provider_not_found'' ''Enabled provider not found''))
     (bind_act (gets_act (eligible_accounts (si_provider s) (si_upstream s))) (\<lambda>els.
      then_act (guard_act (els \<noteq> []) (ApiError 409 ''model_unavailable'' ''Model is unavailable on all enabled provider accounts''))
     (then_act (guard_act (si_strategy s \<in> set db_strategies) (DbError ''model_aliases_routing_strategy_check''))
     (bind_act fresh_id (\<lambda>i.
      then_act (modify_act (\<lambda>d. d\<lparr>aliases := aliases d @ [new_alias i s]\<rparr>))
     (then_act (audit ''import_selection'' ''model_alias'' (Some (show_nat i))
         (JObj [(''alias'', JStr (si_alias s)), (''provider_id'', id_json (si_provider s)), (''upstream_model'', JStr (si_upstream s)),
                (''routing_strategy'', JStr (si_strategy s))]))
     (then_act (storeDraft env) (return_act (new_alias i s))))))))))))"

definition rename_in_keys :: "string \<Rightarrow> string \<Rightarrow> key_row list \<Rightarrow> key_row list" where
  "rename_in_keys old new =
     update_where (\<lambda>k. old \<in> set (k_models k)) (\<lambda>k. k\<lparr>k_models := map (\<lambda>m. if m = old then new else m) (k_models k)\<rparr>)"

definition rename_rows :: "uuid \<Rightarrow> string \<Rightarrow> alias_row list \<Rightarrow> alias_row list" where
  "rename_rows i new = update_where (\<lambda>m. m_id m = i) (\<lambda>m. m\<lparr>m_alias := new\<rparr>)"

definition renameModelAlias :: "sn_env \<Rightarrow> uuid \<Rightarrow> string \<Rightarrow> (db, alias_row) act" where
  "renameModelAlias env i al =
     bind_act (lift_res (validatePublicAlias al)) (\<lambda>new.
     bind_act (gets_act (\<lambda>d. find (\<lambda>m. m_id m = i) (aliases d))) (\<lambda>current. case current of
       None \<Rightarrow> throw (ApiError 404 ''not_found'' ''Model alias not found'')
     | Some m \<Rightarrow>
        then_act (if toLowerCase (m_alias m) \<noteq> toLowerCase new then assertAliasAvailable new else return_act ())
       (then_act (modify_act (\<lambda>d. d\<lparr>aliases := rename_rows i new (aliases d)\<rparr>))
       (then_act (modify_act (\<lambda>d. d\<lparr>vkeys := rename_in_keys (m_alias m) new (vkeys d)\<rparr>))
       (then_act (audit ''rename'' ''model_alias'' (Some (show_nat i)) (JObj [(''old_alias'', JStr (m_alias m)), (''new_alias'', JStr new)]))
       (then_act (storeDraft env) (return_act (m\<lparr>m_alias := new\<rparr>))))))))"

section \<open>Stored metadata\<close>

fun secret_free :: "jv \<Rightarrow> bool" where
  "secret_free (JArr vs) = list_all secret_free vs"
| "secret_free (JObj ps) = list_all (\<lambda>(k, v). \<not> isSecretMetadataKey k \<and> secret_free v) ps"
| "secret_free v = True"

lemma filterSecretMetadata_free: "secret_free (filterSecretMetadata v)"
  by (induction v rule: filterSecretMetadata.induct) (auto simp: list_all_iff split: if_splits)

lemma secret_free_set_prop:
  assumes "secret_free (JObj ps)" and "\<not> isSecretMetadataKey k" and "secret_free v"
  shows "secret_free (JObj (set_prop k v ps))"
  using assms by (auto simp: set_prop_def list_all_iff split: if_splits)

lemma keep_fitting_inv:
  assumes "doc_size num out \<le> METADATA_LIMIT" and "secret_free (JObj out)" and "secret_free (JObj ps)"
  shows "doc_size num (keep_fitting num out ps) \<le> METADATA_LIMIT \<and> secret_free (JObj (keep_fitting num out ps))"
  using assms
proof (induction num out ps rule: keep_fitting.induct)
  case (2 num out k v rest)
  then show ?case
    using secret_free_set_prop [of out k v] by (auto simp del: secret_free.simps(2) simp: secret_free.simps(2) [of "(k, v) # rest"]
      secret_free.simps(2) [of rest])
qed simp

lemma drop_last_noop: "doc_size num out \<le> METADATA_LIMIT \<Longrightarrow> drop_last num out = out"
  by (subst drop_last.simps) simp

lemma truncated_ok:
  "doc_size num [(''truncated'', JBool True)] \<le> METADATA_LIMIT \<and> secret_free (JObj [(''truncated'', JBool True)])"
proof
  show "doc_size num [(''truncated'', JBool True)] \<le> METADATA_LIMIT"
    by (simp add: doc_size_def byteLength_def json_string_def json_char_def code_def METADATA_LIMIT_def)
  have "\<not> isSecretMetadataKey ''truncated''"
    by (simp add: isSecretMetadataKey_def SECRET_METADATA_KEY_PARTS_def js_includes_def char_class_defs toLowerCase_def lower_char_def)
  then show "secret_free (JObj [(''truncated'', JBool True)])" by simp
qed

text \<open>C37: the metadata stored for a discovered model never exceeds 32 kilobytes of JSON text and has no member, at any
  depth, whose name looks like a secret; the loop that drops members ends and, since only fitting members
  are kept, never drops one.\<close>

theorem sanitizeMetadata_safe:
  "byteLength (json_stringify num (sanitizeMetadata num v)) \<le> METADATA_LIMIT \<and> secret_free (sanitizeMetadata num v)"
proof -
  let ?f = "filterSecretMetadata (coalesce v (JObj []))"
  have f: "secret_free ?f" by (rule filterSecretMetadata_free)
  then have ps: "secret_free (JObj (record_of ?f))" by (cases ?f) auto
  note k = keep_fitting_inv [OF conjunct1 [OF truncated_ok] conjunct2 [OF truncated_ok] ps, of num]
  show ?thesis
    using f k drop_last_noop [OF conjunct1 [OF k]] by (auto simp: sanitizeMetadata_def Let_def doc_size_def)
qed

section \<open>Availability\<close>

lemma upsert_model_keys:
  "r \<in> set (upsert_model a now m rows) \<Longrightarrow> d_account r \<noteq> a_id a \<Longrightarrow> r \<in> set rows"
  by (auto simp: upsert_model_def upsert_where_def update_where_def discovered_of_def split: if_splits)

lemma filter_upsert_other:
  "filter (\<lambda>r. d_account r \<noteq> a_id a) (upsert_model a now m rows) = filter (\<lambda>r. d_account r \<noteq> a_id a) rows"
proof -
  have "filter (\<lambda>r. d_account r \<noteq> i) (update_where (\<lambda>r. d_account r = i \<and> P r) f rows) = filter (\<lambda>r. d_account r \<noteq> i) rows"
    if "\<And>r. d_account (f r) = d_account r" for i P f
    using that by (induction rows) auto
  then show ?thesis
    by (simp add: upsert_model_def upsert_where_def discovered_of_def)
qed

definition listed :: "uuid \<Rightarrow> string \<Rightarrow> discovered_row list \<Rightarrow> bool" where
  "listed i u rows \<longleftrightarrow> list_ex (\<lambda>r. d_account r = i \<and> d_upstream r = u \<and> d_available r) rows"

lemma listed_update:
  assumes "\<And>r. d_account (f r) = d_account r" and "\<And>r. d_upstream (f r) = d_upstream r" and "\<And>r. d_available (f r)"
  shows "listed i u (update_where (\<lambda>r. d_account r = j \<and> d_upstream r = w) f rows) \<longleftrightarrow>
     (if i = j \<and> u = w then list_ex (\<lambda>r. d_account r = j \<and> d_upstream r = w) rows else listed i u rows)"
  by (induction rows) (auto simp: listed_def assms)

lemma listed_upsert: "listed i u (upsert_model a now m rows) \<longleftrightarrow> listed i u rows \<or> (i = a_id a \<and> u = pm_upstream m)"
proof (cases "list_ex (\<lambda>r. d_account r = a_id a \<and> d_upstream r = pm_upstream m) rows")
  case True
  then show ?thesis
    by (auto simp: upsert_model_def upsert_where_def listed_update list_ex_iff)
next
  case False
  then show ?thesis
    by (auto simp: listed_def upsert_model_def upsert_where_def discovered_of_def list_ex_iff)
qed

lemma fold_upsert:
  "filter (\<lambda>r. d_account r \<noteq> a_id a) (fold (upsert_model a now) ms rows) = filter (\<lambda>r. d_account r \<noteq> a_id a) rows
   \<and> (listed i u (fold (upsert_model a now) ms rows) \<longleftrightarrow> listed i u rows \<or> (i = a_id a \<and> u \<in> set (map pm_upstream ms)))"
  by (induction ms arbitrary: rows) (auto simp: listed_upsert filter_upsert_other)

text \<open>After a successful discovery an account offers exactly the models of the answer: a model is available on it
  afterwards if and only if the provider listed it, rows of other accounts are untouched, and every
  model that disappeared is marked unavailable rather than deleted.\<close>

theorem persist_rows_exact:
  "(listed (a_id a) u (persist_rows a now ms rows) \<longleftrightarrow> u \<in> set (map pm_upstream ms))
   \<and> filter (\<lambda>r. d_account r \<noteq> a_id a) (persist_rows a now ms rows) = filter (\<lambda>r. d_account r \<noteq> a_id a) rows
   \<and> length rows \<le> length (persist_rows a now ms rows)"
proof -
  let ?rs = "fold (upsert_model a now) ms rows"
  have l: "listed i v (update_where (\<lambda>r. d_account r = i \<and> d_upstream r \<notin> S) (\<lambda>r. r\<lparr>d_available := False\<rparr>) rs) \<longleftrightarrow> v \<in> S \<and> listed i v rs"
    for i v S and rs :: "discovered_row list" by (induction rs) (auto simp: listed_def)
  have f: "filter (\<lambda>r. d_account r \<noteq> i) (update_where (\<lambda>r. d_account r = i \<and> d_upstream r \<notin> S) (\<lambda>r. r\<lparr>d_available := False\<rparr>) rs) =
     filter (\<lambda>r. d_account r \<noteq> i) rs" for i S and rs :: "discovered_row list"
    by (induction rs) auto
  have n: "length rs \<le> length (fold (upsert_model a now) ms rs)" for rs
  proof (induction ms arbitrary: rs)
    case (Cons m ms)
    have "length rs \<le> length (upsert_model a now m rs)" by (simp add: upsert_model_def upsert_where_def)
    with Cons [of "upsert_model a now m rs"] show ?case by simp
  qed simp
  show ?thesis
    using fold_upsert [of a now ms rows "a_id a" u] n [of rows] by (auto simp: persist_rows_def l f)
qed

section \<open>Renaming\<close>

definition renamed :: "uuid \<Rightarrow> string \<Rightarrow> string \<Rightarrow> db \<Rightarrow> db" where
  "renamed i old new d = d\<lparr>aliases := rename_rows i new (aliases d), vkeys := rename_in_keys old new (vkeys d)\<rparr>"

lemma compile_fallbacks_known:
  assumes "compileDeclarativeSnapshot env d = Inr c" and "m \<in> set (aliases d)" and "m_enabled m" and "f \<in> set (m_fallbacks m)"
  shows "\<exists>m'\<in>set (aliases d). m_enabled m' \<and> m_alias m' = f"
proof -
  let ?ms = "sort_key m_alias (filter m_enabled (aliases d))"
  obtain es where es: "compile_models d = Inr es" and v: "validateFallbackChains es = Inr ()"
    using assms(1) by (auto simp: compileDeclarativeSnapshot_def split: sum.splits)
  have eq: "map (compile_model d) ?ms = map Inr es"
    using es by (auto simp: compile_models_def dest: all_or_error_Inr)
  have shape: "me_alias e = m_alias x \<and> me_fallbacks e = m_fallbacks x" if "compile_model d x = Inr e" for x e
    using that by (auto simp: compile_model_def Let_def split: if_splits)
  have "compile_model d m \<in> set (map Inr es)" using assms(2,3) by (simp flip: eq)
  then obtain e where e: "e \<in> set es" "compile_model d m = Inr e" by auto
  then have "f \<in> set (me_fallbacks e)" using shape assms(4) by simp
  then have "known es f" using v e(1) by (auto simp: validateFallbackChains_def check_chains_iff)
  then obtain e' where e': "e' \<in> set es" "me_alias e' = f" by (auto dest: known_alias)
  then have "Inr e' \<in> set (map (compile_model d) ?ms)" by (simp add: eq)
  then obtain m' where "m' \<in> set (aliases d)" "m_enabled m'" "compile_model d m' = Inr e'" by auto
  then show ?thesis using shape [of m' e'] e'(2) by auto
qed

lemma then_available:
  "then_act (assertAliasAvailable al) k d =
     (if list_ex (\<lambda>m. toLowerCase (m_alias m) = toLowerCase al) (aliases d)
      then (Inl (ApiError 409 ''model_alias_conflict'' ''Model alias conflicts case-insensitively with an existing alias''), d) else k d)"
  by (simp add: assertAliasAvailable_def act_defs)

lemma renameModelAlias_InrE:
  assumes "renameModelAlias env i al d = (Inr x, d')"
  obtains m au c where "find (\<lambda>m. m_id m = i) (aliases d) = Some m" and "validatePublicAlias al = Inr al"
    and "toLowerCase (m_alias m) \<noteq> toLowerCase al \<Longrightarrow> \<not> list_ex (\<lambda>m. toLowerCase (m_alias m) = toLowerCase al) (aliases d)"
    and "compileDeclarativeSnapshot env ((renamed i (m_alias m) al d)\<lparr>audits := au\<rparr>) = Inr c"
    and "aliases d' = rename_rows i al (aliases d)" and "vkeys d' = rename_in_keys (m_alias m) al (vkeys d)"
proof -
  obtain m where m: "find (\<lambda>m. m_id m = i) (aliases d) = Some m" and v: "validatePublicAlias al = Inr al"
    using assms
    by (auto simp: renameModelAlias_def bind_lift bind_gets throw_apply validatePublicAlias_def split: option.splits if_splits)
  let ?k = "then_act (modify_act (\<lambda>d. d\<lparr>aliases := rename_rows i al (aliases d)\<rparr>))
       (then_act (modify_act (\<lambda>d. d\<lparr>vkeys := rename_in_keys (m_alias m) al (vkeys d)\<rparr>))
       (then_act (audit ''rename'' ''model_alias'' (Some (show_nat i)) (JObj [(''old_alias'', JStr (m_alias m)), (''new_alias'', JStr al)]))
       (then_act (storeDraft env) (return_act (m\<lparr>m_alias := al\<rparr>)))))"
  have eq: "renameModelAlias env i al d =
     then_act (if toLowerCase (m_alias m) \<noteq> toLowerCase al then assertAliasAvailable al else return_act ()) ?k d"
    by (simp add: renameModelAlias_def bind_lift v bind_gets m)
  have free: "toLowerCase (m_alias m) \<noteq> toLowerCase al \<Longrightarrow> \<not> list_ex (\<lambda>m. toLowerCase (m_alias m) = toLowerCase al) (aliases d)"
    using assms by (auto simp: eq then_available)
  then have k: "?k d = (Inr x, d')"
    using assms by (auto simp: eq then_available then_return split: if_splits)
  show thesis
    using that [OF m v free] k
    by (auto simp: then_modify bind_audit renamed_def then_storeDraft return_act_apply split: sum.splits)
qed

definition aliases_ok :: "db \<Rightarrow> bool" where
  "aliases_ok d \<longleftrightarrow> distinct (map m_id (aliases d)) \<and> distinct (map (\<lambda>m. toLowerCase (m_alias m)) (aliases d))"

lemma distinct_rename:
  assumes "distinct (map m_id ms)" and "distinct (map (\<lambda>m. toLowerCase (m_alias m)) ms)"
    and "\<forall>m\<in>set ms. m_id m \<noteq> i \<longrightarrow> toLowerCase (m_alias m) \<noteq> toLowerCase new"
  shows "distinct (map (\<lambda>m. toLowerCase (m_alias m)) (rename_rows i new ms))"
  using assms
proof (induction ms)
  case (Cons x ms)
  have set: "set (rename_rows i new ms) = (\<lambda>m. if m_id m = i then m\<lparr>m_alias := new\<rparr> else m) ` set ms"
    by (simp add: rename_rows_def update_where_def)
  show ?case
  proof (cases "m_id x = i")
    case True
    then have none: "\<And>m. m \<in> set ms \<Longrightarrow> m_id m \<noteq> i" using Cons.prems(1) by (metis distinct.simps(2) image_eqI list.set_map list.simps(9))
    then have "rename_rows i new ms = ms" by (simp add: rename_rows_def update_where_none)
    then show ?thesis using Cons.prems True none by (auto simp: rename_rows_def)
  next
    case False
    then have ne: "toLowerCase (m_alias x) \<noteq> toLowerCase new" using Cons.prems(3) by simp
    have "toLowerCase (m_alias x) \<notin> (\<lambda>m. toLowerCase (m_alias m)) ` set (rename_rows i new ms)"
      unfolding set using Cons.prems(2) ne by auto
    then show ?thesis using Cons False by (simp add: rename_rows_def)
  qed
qed (simp add: rename_rows_def)

text \<open>A successful rename keeps aliases unique up to case, gives the model its new public name and rewrites every
  key that named it, so that a key allowed to use the model before is allowed to use it afterwards.\<close>

theorem renameModelAlias_correct:
  assumes "renameModelAlias env i al d = (Inr x, d')" and "aliases_ok d" and "find (\<lambda>m. m_id m = i) (aliases d) = Some m"
  shows "aliases_ok d' \<and> find (\<lambda>m. m_id m = i) (aliases d') = Some (m\<lparr>m_alias := al\<rparr>)
    \<and> map (\<lambda>k. (k_id k, al \<in> set (k_models k) \<or> k_models k = [])) (vkeys d') =
      map (\<lambda>k. (k_id k, al \<in> set (k_models k) \<or> m_alias m \<in> set (k_models k) \<or> k_models k = [])) (vkeys d)"
proof -
  have free: "toLowerCase (m_alias m) \<noteq> toLowerCase al \<Longrightarrow> \<not> list_ex (\<lambda>m. toLowerCase (m_alias m) = toLowerCase al) (aliases d)"
    and al: "aliases d' = rename_rows i al (aliases d)" and ks: "vkeys d' = rename_in_keys (m_alias m) al (vkeys d)"
    using renameModelAlias_InrE [OF assms(1)] assms(3) by (metis option.inject)+
  have m: "m \<in> set (aliases d)" "m_id m = i" using find_Some_set [OF assms(3)] by auto
  have "\<forall>q\<in>set (aliases d). m_id q \<noteq> i \<longrightarrow> toLowerCase (m_alias q) \<noteq> toLowerCase al"
  proof (intro ballI impI notI)
    fix q assume q: "q \<in> set (aliases d)" "m_id q \<noteq> i" "toLowerCase (m_alias q) = toLowerCase al"
    then have "toLowerCase (m_alias m) = toLowerCase al" using free by (auto simp: list_ex_iff)
    then have "q = m" using q m assms(2) unique_key_eq [of "\<lambda>m. toLowerCase (m_alias m)" "aliases d" q m] by (simp add: aliases_ok_def)
    then show False using q(2) m(2) by simp
  qed
  then have "aliases_ok d'"
    using assms(2) distinct_rename by (simp add: aliases_ok_def al rename_rows_def map_update_where_same)
  moreover have "find (\<lambda>m. m_id m = i) (aliases d') = Some (m\<lparr>m_alias := al\<rparr>)"
    by (simp add: al rename_rows_def find_update_key assms(3))
  moreover have "map (\<lambda>k. (k_id k, al \<in> set (k_models k) \<or> k_models k = [])) (rename_in_keys old al kks) =
      map (\<lambda>k. (k_id k, al \<in> set (k_models k) \<or> old \<in> set (k_models k) \<or> k_models k = [])) kks" for old kks
    by (induction kks) (auto simp: rename_in_keys_def)
  ultimately show ?thesis by (simp add: ks)
qed

text \<open>A model that another enabled model names as a fallback cannot be renamed: the fallback lists are not rewritten,
  the draft stored at the end then refers to an unknown model, and the whole rename fails.\<close>

theorem rename_refused_for_fallback:
  assumes "aliases_ok d" and "find (\<lambda>m. m_id m = i) (aliases d) = Some m" and "q \<in> set (aliases d)" and "m_id q \<noteq> i"
    and "m_enabled q" and "m_alias m \<in> set (m_fallbacks q)" and "al \<noteq> m_alias m"
  shows "\<exists>e. fst (renameModelAlias env i al d) = Inl e"
proof (rule ccontr)
  assume "\<nexists>e. fst (renameModelAlias env i al d) = Inl e"
  then obtain x d' where r: "renameModelAlias env i al d = (Inr x, d')"
    by (metis prod.collapse sum.exhaust)
  obtain au c where c: "compileDeclarativeSnapshot env ((renamed i (m_alias m) al d)\<lparr>audits := au\<rparr>) = Inr c"
    using renameModelAlias_InrE [OF r] assms(2) by (metis option.inject)
  have q: "q \<in> set (aliases ((renamed i (m_alias m) al d)\<lparr>audits := au\<rparr>))"
    using assms(3,4) by (auto simp: renamed_def rename_rows_def update_where_def)
  obtain m' where m': "m' \<in> set (rename_rows i al (aliases d))" "m_alias m' = m_alias m"
    using compile_fallbacks_known [OF c q assms(5,6)] by (auto simp: renamed_def)
  have m: "m \<in> set (aliases d)" "m_id m = i" using find_Some_set [OF assms(2)] by auto
  obtain z where z: "z \<in> set (aliases d)" "m' = (if m_id z = i then z\<lparr>m_alias := al\<rparr> else z)"
    using m'(1) by (auto simp: rename_rows_def update_where_def)
  show False
  proof (cases "m_id z = i")
    case True
    then show False using z(2) m'(2) assms(7) by simp
  next
    case False
    then have "z = m"
      using z m' m(1) assms(1) unique_key_eq [of "\<lambda>m. toLowerCase (m_alias m)" "aliases d" z m] by (simp add: aliases_ok_def)
    then show False using False m(2) by simp
  qed
qed

section \<open>Witnesses\<close>

definition demo_alias :: "uuid \<Rightarrow> string \<Rightarrow> string list \<Rightarrow> alias_row" where
  "demo_alias i al fs = \<lparr>m_id = i, m_alias = al, m_upstream = ''up'', m_provider = None, m_strategy = ''manual'', m_enabled = True,
     m_fallbacks = fs, m_cache = None, m_cache_ttl = None, m_threshold = None\<rparr>"

definition demo_key :: "uuid \<Rightarrow> string list \<Rightarrow> key_row" where
  "demo_key i ms = \<lparr>k_id = i, k_name = ''k'', k_hash = ''h'', k_prefix = ''p'', k_enabled = True, k_models = ms, k_rpm = 1, k_tpm = 0,
     k_max_concurrency = 0, k_budget = 0, k_duration = ''day'', k_team = None\<rparr>"

definition demo_catalog :: db where
  "demo_catalog = empty_db\<lparr>providers := [sample_provider 1 ''openai-compatible''], accounts := [sample_account 2 1 ''acc''],
     aliases := [demo_alias 3 ''a'' []], mappings := [\<lparr>mm_model = 3, mm_account = 2, mm_enabled = True, mm_tier = 1, mm_position = 0,
       mm_override = None, mm_weight = 0, mm_input = 0, mm_output = 0\<rparr>], vkeys := [demo_key 4 [''a'']], next_id := 9\<rparr>"

theorem rename_refused_for_fallback_witness:
  "\<exists>e. fst (renameModelAlias demo_sn 3 ''b'' (demo_catalog\<lparr>aliases := [demo_alias 3 ''a'' [], demo_alias 5 ''c'' [''a'']]\<rparr>)) = Inl e"
proof (rule rename_refused_for_fallback)
  let ?d = "demo_catalog\<lparr>aliases := [demo_alias 3 ''a'' [], demo_alias 5 ''c'' [''a'']]\<rparr>"
  show "aliases_ok ?d" by (simp add: aliases_ok_def demo_alias_def toLowerCase_def lower_char_def char_class_defs)
  show "find (\<lambda>m. m_id m = 3) (aliases ?d) = Some (demo_alias 3 ''a'' [])" by (simp add: demo_alias_def)
  show "demo_alias 5 ''c'' [''a''] \<in> set (aliases ?d)" by simp
qed (simp_all add: demo_alias_def)

lemma demo_compiled: "\<exists>c. compileDeclarativeSnapshot env (demo_catalog\<lparr>aliases := [demo_alias 3 ''b'' []], vkeys := [demo_key 4 [''b'']], audits := au\<rparr>) = Inr c"
proof (rule compile_total)
  let ?d = "demo_catalog\<lparr>aliases := [demo_alias 3 ''b'' []], vkeys := [demo_key 4 [''b'']], audits := au\<rparr>"
  let ?e = "\<lparr>me_alias = ''b'', me_upstream = ''up'', me_accounts = [''acc''], me_strategy = None, me_fallbacks = [],
      me_input = 0, me_output = 0, me_cache = None, me_ttl = None, me_threshold = None, me_sources = []\<rparr>"
  show "compile_models ?d = Inr [?e]"
    by (simp add: compile_models_def compile_model_def mapping_rows_def demo_catalog_def demo_alias_def empty_db_def sample_account_def
          nonempty_def has_override_def Let_def)
  show "validateFallbackChains [?e] = Inr ()"
    by (simp add: validateFallbackChains_def unknown_fallback_def byAlias_def walk_chain.simps first_fallback_def)
  show "validateCacheModes [?e] = Inr ()" by simp
qed (simp_all add: demo_catalog_def empty_db_def enabled_keys_def demo_key_def)

lemma demo_renamed: "\<exists>x d'. renameModelAlias demo_sn 3 ''b'' demo_catalog = (Inr x, d')"
proof -
  have v: "validatePublicAlias ''b'' = Inr ''b''"
    by (simp add: validatePublicAlias_def alias_ok_def char_class_defs)
  have f: "find (\<lambda>m. m_id m = 3) (aliases demo_catalog) = Some (demo_alias 3 ''a'' [])"
    by (simp add: demo_catalog_def demo_alias_def)
  have n: "\<not> list_ex (\<lambda>m. toLowerCase (m_alias m) = toLowerCase ''b'') (aliases demo_catalog)"
    by (simp add: demo_catalog_def demo_alias_def toLowerCase_def lower_char_def char_class_defs)
  have l: "toLowerCase ''a'' \<noteq> toLowerCase ''b''"
    by (simp add: toLowerCase_def lower_char_def char_class_defs)
  have r: "rename_rows 3 ''b'' (aliases demo_catalog) = [demo_alias 3 ''b'' []]"
    "rename_in_keys ''a'' ''b'' (vkeys demo_catalog) = [demo_key 4 [''b'']]"
    by (simp_all add: rename_rows_def rename_in_keys_def demo_catalog_def demo_alias_def demo_key_def)
  have a: "m_alias (demo_alias 3 ''a'' []) = ''a''" by (simp add: demo_alias_def)
  obtain c where c: "\<And>au. compileDeclarativeSnapshot demo_sn
      (demo_catalog\<lparr>aliases := [demo_alias 3 ''b'' []], vkeys := [demo_key 4 [''b'']], audits := au\<rparr>) = Inr (c au)"
    using demo_compiled [of demo_sn] by metis
  show ?thesis
    by (simp add: renameModelAlias_def bind_lift v bind_gets f a l then_available n then_modify bind_audit r then_storeDraft c return_act_apply)
qed

theorem renameModelAlias_correct_witness:
  "\<exists>x d'. renameModelAlias demo_sn 3 ''b'' demo_catalog = (Inr x, d') \<and> aliases_ok d'"
proof -
  obtain x d' where r: "renameModelAlias demo_sn 3 ''b'' demo_catalog = (Inr x, d')" using demo_renamed by blast
  have ok: "aliases_ok demo_catalog" and f: "find (\<lambda>m. m_id m = 3) (aliases demo_catalog) = Some (demo_alias 3 ''a'' [])"
    by (simp_all add: aliases_ok_def demo_catalog_def demo_alias_def)
  show ?thesis using r renameModelAlias_correct [OF r ok f] by blast
qed

end
