(* ===== verification/Schemas.thy ===== *)
theory Schemas
  imports Ipacl Proxylib Snapshots
begin

text \<open>
  The request schemas of \<open>lib/control.ts\<close>.  A schema is a function from a request value to the parsed
  value, \<open>None\<close> when validation reports an issue; \<open>JUndef\<close> stands for an absent member.  The
  combinators below follow the ones of the validation library that the schemas use: unknown members are dropped,
  defaults fill in absent members, refinements run on the parsed value.  The syntax checks for
  URLs and UUIDs are parameters.
\<close>

record schema_env =
  sv_web :: web_api
  sv_url :: "string \<Rightarrow> bool"
  sv_uuid :: "string \<Rightarrow> bool"
  sv_private :: bool

section \<open>Public upstream addresses\<close>

definition strip_brackets :: "string \<Rightarrow> string" where
  "strip_brackets h =
     (let h1 = (case h of CHR ''['' # t \<Rightarrow> t | _ \<Rightarrow> h)
      in if h1 \<noteq> [] \<and> last h1 = CHR '']'' then butlast h1 else h1)"

definition is_hex_colon :: "char \<Rightarrow> bool" where
  "is_hex_colon c \<longleftrightarrow> is_digit c \<or> c \<in> set ''abcdef:''"

definition private_v6 :: "string \<Rightarrow> bool" where
  "private_v6 hn \<longleftrightarrow> hn = ''::1'' \<or> hn = ''::'' \<or> starts_with hn ''fe80'' \<or> starts_with hn ''fc'' \<or> starts_with hn ''fd''"

definition private_v4 :: "nat \<Rightarrow> nat \<Rightarrow> bool" where
  "private_v4 a b \<longleftrightarrow> a = 127 \<or> a = 0 \<or> a = 10 \<or> 224 \<le> a \<or> (a = 169 \<and> b = 254) \<or> (a = 172 \<and> 16 \<le> b \<and> b \<le> 31) \<or> (a = 192 \<and> b = 168)"

definition public_host :: "string \<Rightarrow> bool" where
  "public_host hn =
     (if hn = ''localhost'' \<or> ends_with hn ''.localhost'' \<or> hn = ''0.0.0.0'' then False
      else if hn \<noteq> [] \<and> list_all is_hex_colon hn \<and> CHR '':'' \<in> set hn then \<not> private_v6 hn
      else if is_v4_text hn
      then \<not> private_v4 (dec_val (js_split (CHR ''.'') hn ! 0)) (dec_val (js_split (CHR ''.'') hn ! 1))
      else True)"

definition isPublicHttpUrl :: "schema_env \<Rightarrow> string \<Rightarrow> bool" where
  "isPublicHttpUrl env v =
     (if sv_private env then True
      else case new_URL (sv_web env) v of
          None \<Rightarrow> False
        | Some u \<Rightarrow>
            if protocol u \<noteq> ''http:'' \<and> protocol u \<noteq> ''https:'' then False
            else public_host (strip_brackets (toLowerCase (hostname u))))"

section \<open>Schema combinators\<close>

type_synonym schema = "jv \<Rightarrow> jv option"

fun z_text :: "nat \<Rightarrow> nat option \<Rightarrow> schema" where
  "z_text lo hi (JStr s) = (if lo \<le> length s \<and> (case hi of None \<Rightarrow> True | Some h \<Rightarrow> length s \<le> h) then Some (JStr s) else None)"
| "z_text lo hi _ = None"

abbreviation z_string :: schema where "z_string \<equiv> z_text 0 None"
abbreviation z_filled :: schema where "z_filled \<equiv> z_text 1 None"

fun z_bool :: schema where
  "z_bool (JBool b) = Some (JBool b)"
| "z_bool _ = None"

definition z_number :: "(rat \<Rightarrow> bool) \<Rightarrow> schema" where
  "z_number p v = (case v of JNum (Fin x) \<Rightarrow> if p x then Some v else None | _ \<Rightarrow> None)"

abbreviation z_int :: schema where "z_int \<equiv> z_number (\<lambda>x. is_integer (Fin x))"
abbreviation z_positive_int :: schema where "z_positive_int \<equiv> z_number (\<lambda>x. is_integer (Fin x) \<and> 0 < x)"
abbreviation z_nat :: schema where "z_nat \<equiv> z_number (\<lambda>x. is_integer (Fin x) \<and> 0 \<le> x)"
abbreviation z_nonneg :: schema where "z_nonneg \<equiv> z_number (\<lambda>x. 0 \<le> x)"

definition z_enum :: "string list \<Rightarrow> schema" where
  "z_enum xs v = (if v \<in> JStr ` set xs then Some v else None)"

definition z_optional :: "schema \<Rightarrow> schema" where
  "z_optional s v = (if v = JUndef then Some JUndef else s v)"

definition z_nullable :: "schema \<Rightarrow> schema" where
  "z_nullable s v = (if v = JNull then Some JNull else s v)"

definition z_default :: "jv \<Rightarrow> schema \<Rightarrow> schema" where
  "z_default d s v = (if v = JUndef then Some d else s v)"

definition z_refine :: "(jv \<Rightarrow> bool) \<Rightarrow> schema \<Rightarrow> schema" where
  "z_refine p s v = (case s v of None \<Rightarrow> None | Some w \<Rightarrow> if p w then Some w else None)"

fun all_some :: "'a option list \<Rightarrow> 'a list option" where
  "all_some [] = Some []"
| "all_some (x # xs) = (case x of None \<Rightarrow> None | Some y \<Rightarrow> map_option (Cons y) (all_some xs))"

definition z_array :: "nat \<Rightarrow> schema \<Rightarrow> schema" where
  "z_array lo s v =
     (case v of JArr vs \<Rightarrow> if lo \<le> length vs then map_option JArr (all_some (map s vs)) else None | _ \<Rightarrow> None)"

definition z_record :: "schema \<Rightarrow> schema" where
  "z_record s v =
     (case v of JObj ps \<Rightarrow> map_option JObj (all_some (map (\<lambda>(k, w). map_option (Pair k) (s w)) ps)) | _ \<Rightarrow> None)"

definition z_any :: schema where
  "z_any v = Some v"

text \<open>\<open>z.object\<close>: the members of the shape, in order; an absent result is no member.\<close>

definition z_object :: "(string \<times> schema) list \<Rightarrow> schema" where
  "z_object shape v =
     (if is_record v
      then map_option (\<lambda>ws. JObj (filter (\<lambda>p. snd p \<noteq> JUndef) ws))
             (all_some (map (\<lambda>(k, s). map_option (Pair k) (s (get_prop v k))) shape))
      else None)"

definition z_union :: "schema \<Rightarrow> schema \<Rightarrow> schema" where
  "z_union s t v = (case s v of Some w \<Rightarrow> Some w | None \<Rightarrow> t v)"

section \<open>Members\<close>

definition z_url :: "schema_env \<Rightarrow> schema" where
  "z_url env v = (case v of JStr s \<Rightarrow> if sv_url env s then Some v else None | _ \<Rightarrow> None)"

definition httpUrl :: "schema_env \<Rightarrow> schema" where
  "httpUrl env = z_refine (\<lambda>w. case w of JStr s \<Rightarrow> isPublicHttpUrl env s | _ \<Rightarrow> False) (z_url env)"

definition z_uuid :: "schema_env \<Rightarrow> schema" where
  "z_uuid env v = (case v of JStr s \<Rightarrow> if sv_uuid env s then Some v else None | _ \<Rightarrow> None)"

text \<open>Parsing the list may itself raise on a malformed escape, which is not an issue but an exception; the
  schema then fails as well.\<close>

definition proxyField :: "schema_env \<Rightarrow> schema" where
  "proxyField env =
     z_refine (\<lambda>w. case w of
          JStr s \<Rightarrow> js_trim s = [] \<or> (case parseProxyList (sv_web env) s of Inl _ \<Rightarrow> False | Inr acc \<Rightarrow> errors acc = [])
        | _ \<Rightarrow> True)
       (z_optional (z_text 0 (Some 65536)))"

definition similarThreshold :: schema where
  "similarThreshold = z_optional (z_nullable (z_number (\<lambda>x. 0 < x \<and> x \<le> 1)))"

definition needs :: "jv \<Rightarrow> string \<Rightarrow> string \<Rightarrow> bool" where
  "needs w kind member \<longleftrightarrow> (get_prop w ''kind'' = JStr kind \<longrightarrow> truthy (get_prop w member))"

definition AccountCredentialSchema :: schema where
  "AccountCredentialSchema =
     z_refine (\<lambda>w. needs w ''api_key'' ''api_key'' \<and> needs w ''cookie'' ''cookies'' \<and> needs w ''oauth'' ''access_token'')
       (z_object [(''kind'', z_default (JStr ''api_key'') (z_enum [''api_key'', ''cookie'', ''oauth''])),
          (''api_key'', z_optional z_filled), (''cookies'', z_optional z_filled), (''access_token'', z_optional z_filled),
          (''refresh_token'', z_optional z_string), (''expires_at'', z_optional z_string), (''client_id'', z_optional z_string),
          (''organization_id'', z_optional z_string)])"

section \<open>Resources\<close>

abbreviation z_true :: schema where "z_true \<equiv> z_default (JBool True) z_bool"
abbreviation z_false :: schema where "z_false \<equiv> z_default (JBool False) z_bool"
abbreviation z_meta :: schema where "z_meta \<equiv> z_default (JObj []) (z_record z_any)"
abbreviation num :: "rat \<Rightarrow> jv" where "num x \<equiv> JNum (Fin x)"

definition ProviderSchema :: "schema_env \<Rightarrow> schema" where
  "ProviderSchema env =
     z_object [(''slug'', z_filled), (''name'', z_filled), (''adapter'', z_default (JStr ''openai-compatible'') z_string),
       (''base_url'', httpUrl env), (''enabled'', z_true), (''metadata'', z_meta)]"

definition AccountSchema :: "schema_env \<Rightarrow> schema" where
  "AccountSchema env =
     z_object [(''provider_id'', z_uuid env), (''name'', z_filled), (''display_name'', z_filled), (''base_url'', httpUrl env),
       (''enabled'', z_true), (''priority'', z_default (num 1) z_int), (''weight'', z_default (num 1) z_positive_int),
       (''max_concurrency'', z_default (num 100) z_positive_int), (''cost'', z_default (num 0) z_nonneg),
       (''credential'', z_optional AccountCredentialSchema), (''metadata'', z_meta), (''proxy'', proxyField env)]"

definition provider_strategies :: "string list" where
  "provider_strategies = [''round_robin'', ''quota_failover'', ''p2c'', ''least_used'', ''lkgp'', ''reset_aware'']"

definition model_base :: "(string \<times> schema) list" where
  "model_base = [(''alias'', z_filled), (''upstream_model'', z_filled), (''enabled'', z_true),
     (''fallbacks'', z_default (JArr []) (z_array 0 z_filled)), (''input_per_mtok'', z_default (num 0) z_nonneg),
     (''output_per_mtok'', z_default (num 0) z_nonneg), (''cache'', z_optional (z_enum ['''', ''off'', ''exact'', ''similar''])),
     (''cache_ttl'', z_optional z_string), (''cache_similar_threshold'', similarThreshold)]"

definition z_null :: schema where
  "z_null v = (if v = JNull then Some JNull else None)"

definition z_never :: schema where
  "z_never v = None"

definition ManualModelSchema :: "schema_env \<Rightarrow> schema" where
  "ManualModelSchema env = z_object (model_base @ [(''provider_id'', z_optional z_null),
     (''routing_strategy'', z_default (JStr ''manual'') (z_enum [''manual''])), (''accounts'', z_array 1 (z_uuid env))])"

definition ProviderModelSchema :: "schema_env \<Rightarrow> schema" where
  "ProviderModelSchema env = z_object (model_base @ [(''provider_id'', z_uuid env),
     (''routing_strategy'', z_enum provider_strategies), (''accounts'', z_optional z_never)])"

definition ModelSchema :: "schema_env \<Rightarrow> schema" where
  "ModelSchema env = z_union (ProviderModelSchema env) (ManualModelSchema env)"

definition resilience_schema :: schema where
  "resilience_schema = z_object [(''cooldown'', z_default (JStr ''30s'') z_string), (''circuit_failures'', z_default (num 3) z_positive_int),
     (''circuit_reset'', z_default (JStr ''1m'') z_string), (''lockout_failures'', z_default (num 10) z_nat),
     (''lockout_duration'', z_default (JStr ''15m'') z_string)]"

definition squoze_exclusive :: "jv \<Rightarrow> bool" where
  "squoze_exclusive w \<longleftrightarrow> truthy (get_prop w ''squoze'') \<longrightarrow>
     \<not> list_ex (\<lambda>k. truthy (get_prop w k)) [''rtk_mode'', ''caveman_mode'', ''headroom_profile'', ''rtk_compression'', ''caveman'', ''headroom'']"

definition optimization_schema :: schema where
  "optimization_schema = z_object [(''rtk_compression'', z_false), (''caveman'', z_false), (''headroom'', z_false),
     (''headroom_reserve'', z_default (num 120000) z_positive_int), (''headroom_keep'', z_default (num 8) z_positive_int),
     (''rtk_mode'', z_optional (z_enum [''light'', ''standard'', ''aggressive'', ''auto''])),
     (''caveman_mode'', z_optional (z_enum [''lite'', ''full'', ''auto''])),
     (''headroom_profile'', z_optional (z_enum [''conservative'', ''balanced'', ''aggressive'', ''auto''])),
     (''squoze'', z_optional z_bool)]"

definition RoutingSchema :: schema where
  "RoutingSchema = z_object
     [(''strategy'', z_default (JStr ''balanced'') (z_enum [''balanced'', ''priority'', ''weighted'', ''p2c'', ''least_used'', ''lkgp'',
         ''reset_aware'', ''fastest'', ''cheapest'', ''quota_drain'', ''adaptive''])),
      (''sticky_ttl'', z_default (JStr ''1h'') z_string), (''max_attempts'', z_default (num 2) z_positive_int),
      (''resilience'', z_default (get_prop default_routing ''resilience'') resilience_schema),
      (''optimization'', z_refine squoze_exclusive (z_default default_optimization optimization_schema))]"

definition VirtualKeySchema :: "schema_env \<Rightarrow> schema" where
  "VirtualKeySchema env = z_object
     [(''name'', z_filled), (''plaintext_key'', z_optional (z_text 8 None)), (''enabled'', z_true),
      (''models'', z_default (JArr []) (z_array 0 z_string)), (''rpm'', z_default (num 60) z_positive_int),
      (''tpm'', z_default (num 0) z_nat), (''max_concurrency'', z_default (num 0) z_nat), (''budget_usd'', z_default (num 0) z_nonneg),
      (''budget_duration'', z_optional (z_enum [''day'', ''month''])), (''team_id'', z_optional (z_nullable (z_uuid env)))]"

definition TeamSchema :: "schema_env \<Rightarrow> schema" where
  "TeamSchema env = z_object [(''name'', z_filled), (''enabled'', z_true), (''budget_usd'', z_default (num 0) z_nonneg),
     (''org_id'', z_optional (z_nullable (z_uuid env)))]"

definition WebhookSchema :: "schema_env \<Rightarrow> schema" where
  "WebhookSchema env = z_object [(''enabled'', z_false), (''url'', z_default (JStr []) (z_union (z_url env) (z_enum [[]]))),
     (''secret'', z_default (JStr []) z_string)]"

definition OrganizationSchema :: "schema_env \<Rightarrow> schema" where
  "OrganizationSchema env = z_object [(''name'', z_filled), (''owner_user_id'', z_optional (z_nullable (z_uuid env))),
     (''budget_usd'', z_default (num 0) z_nonneg)]"

definition McpServerSchema :: "schema_env \<Rightarrow> schema" where
  "McpServerSchema env = z_object [(''name'', z_text 1 (Some 100)), (''url'', httpUrl env), (''enabled'', z_true),
     (''headers'', z_default (JObj []) (z_record z_string))]"

section \<open>Patches\<close>

definition TeamPatchSchema :: "schema_env \<Rightarrow> schema" where
  "TeamPatchSchema env = z_object [(''name'', z_optional z_filled), (''enabled'', z_optional z_bool), (''budget_usd'', z_optional z_nonneg),
     (''org_id'', z_optional (z_nullable (z_uuid env)))]"

definition OrganizationPatchSchema :: "schema_env \<Rightarrow> schema" where
  "OrganizationPatchSchema env = z_object [(''name'', z_optional z_filled), (''owner_user_id'', z_optional (z_nullable (z_uuid env))),
     (''budget_usd'', z_optional z_nonneg)]"

definition McpServerPatchSchema :: "schema_env \<Rightarrow> schema" where
  "McpServerPatchSchema env = z_object [(''name'', z_optional (z_text 1 (Some 100))), (''url'', z_optional (httpUrl env)),
     (''enabled'', z_optional z_bool), (''headers'', z_optional (z_record z_string))]"

definition ProviderPatchSchema :: "schema_env \<Rightarrow> schema" where
  "ProviderPatchSchema env = z_object [(''name'', z_optional z_filled), (''adapter'', z_optional z_filled), (''base_url'', z_optional (httpUrl env)),
     (''enabled'', z_optional z_bool), (''metadata'', z_optional (z_record z_any))]"

definition AccountPatchSchema :: "schema_env \<Rightarrow> schema" where
  "AccountPatchSchema env = z_object [(''display_name'', z_optional z_filled), (''base_url'', z_optional (httpUrl env)),
     (''enabled'', z_optional z_bool), (''priority'', z_optional z_int), (''weight'', z_optional z_positive_int),
     (''max_concurrency'', z_optional z_positive_int), (''cost'', z_optional z_nonneg), (''credential'', z_optional AccountCredentialSchema),
     (''metadata'', z_optional (z_record z_any)), (''proxy'', proxyField env)]"

definition ModelPatchSchema :: "schema_env \<Rightarrow> schema" where
  "ModelPatchSchema env = z_object [(''alias'', z_optional z_filled), (''upstream_model'', z_optional z_filled), (''enabled'', z_optional z_bool),
     (''accounts'', z_optional (z_array 1 (z_uuid env))), (''routing_strategy'', z_optional (z_enum provider_strategies)),
     (''fallbacks'', z_optional (z_array 0 z_filled)), (''input_per_mtok'', z_optional z_nonneg), (''output_per_mtok'', z_optional z_nonneg),
     (''cache'', z_optional (z_enum ['''', ''off'', ''exact'', ''similar''])), (''cache_ttl'', z_optional z_string),
     (''cache_similar_threshold'', similarThreshold)]"

definition VirtualKeyPatchSchema :: "schema_env \<Rightarrow> schema" where
  "VirtualKeyPatchSchema env = z_object [(''name'', z_optional z_filled), (''enabled'', z_optional z_bool), (''models'', z_optional (z_array 0 z_string)),
     (''rpm'', z_optional z_positive_int), (''tpm'', z_optional z_nat), (''max_concurrency'', z_optional z_nat), (''budget_usd'', z_optional z_nonneg),
     (''budget_duration'', z_optional (z_enum [''day'', ''month''])), (''team_id'', z_optional (z_nullable (z_uuid env)))]"

section \<open>Patches leave out what the request leaves out\<close>

definition keeps_absent :: "schema \<Rightarrow> bool" where
  "keeps_absent s \<longleftrightarrow> s JUndef \<in> {None, Some JUndef}"

lemma keeps_absent_intros:
  "keeps_absent (z_optional s)" "keeps_absent s \<Longrightarrow> keeps_absent (z_refine p s)"
  by (auto simp: keeps_absent_def z_optional_def z_refine_def)

lemma all_some_Some: "all_some xs = Some ys \<longleftrightarrow> xs = map Some ys"
  by (induction xs arbitrary: ys) (auto split: option.split)

lemma z_object_keys:
  assumes "z_object shape v = Some w" and "list_all (\<lambda>(k, s). keeps_absent s) shape"
  shows "fst ` set (record_of w) \<subseteq> fst ` set (record_of v)"
proof -
  obtain ps where v: "v = JObj ps" using assms(1) by (cases v) (auto simp: z_object_def)
  obtain ws where ws: "map (\<lambda>(k, s). map_option (Pair k) (s (get_prop v k))) shape = map Some ws"
    and w: "w = JObj (filter (\<lambda>p. snd p \<noteq> JUndef) ws)"
    using assms(1) by (auto simp: z_object_def all_some_Some v)
  have "k \<in> fst ` set ps" if "(k, y) \<in> set ws" "y \<noteq> JUndef" for k y
  proof (rule ccontr)
    assume "k \<notin> fst ` set ps"
    then have u: "get_prop v k = JUndef"
      by (simp add: v lookup_or_undef_def map_of_eq_None_iff [symmetric])
    have "Some (k, y) \<in> set (map (\<lambda>(k, s). map_option (Pair k) (s (get_prop v k))) shape)"
      unfolding ws using that(1) by simp
    then obtain s where "(k, s) \<in> set shape" "s (get_prop v k) = Some y" by (auto simp: eq_commute [of "Some _"])
    then show False using assms(2) that(2) u by (auto simp: list_all_iff keeps_absent_def)
  qed
  then show ?thesis by (auto simp: w v)
qed

lemma lookup_absent: "k \<notin> fst ` set ps \<Longrightarrow> lookup_or_undef ps k = JUndef"
  by (simp add: lookup_or_undef_def map_of_eq_None_iff [THEN iffD2])

lemma z_object_get:
  assumes "z_object shape v = Some w" and "distinct (map fst shape)" and "(k, s) \<in> set shape"
  shows "s (get_prop v k) = Some (get_prop w k)"
proof -
  obtain ws where ws: "map (\<lambda>(k, s). map_option (Pair k) (s (get_prop v k))) shape = map Some ws"
    and w: "w = JObj (filter (\<lambda>p. snd p \<noteq> JUndef) ws)"
    using assms(1) by (auto simp: z_object_def all_some_Some split: if_splits)
  have keys: "map fst ws = map fst shape"
  proof (rule nth_equalityI)
    show len: "length (map fst ws) = length (map fst shape)" using arg_cong [OF ws, of length] by simp
    fix i assume "i < length (map fst ws)"
    then show "map fst ws ! i = map fst shape ! i"
      using arg_cong [OF ws, of "\<lambda>xs. xs ! i"] len by (auto simp: split_beta dest: sym [of "(a, b)" for a b])
  qed
  have "map_option (Pair k) (s (get_prop v k)) \<in> set (map Some ws)"
    unfolding ws [symmetric] using assms(3) by force
  then obtain x where x: "s (get_prop v k) = Some x" "(k, x) \<in> set ws" by auto
  then have "map_of ws k = Some x" using keys assms(2) by (metis map_of_is_SomeI)
  moreover have "lookup_or_undef (filter (\<lambda>p. snd p \<noteq> JUndef) ps) k = lookup_or_undef ps k" if "distinct (map fst ps)" for ps
    using that by (induction ps) (auto simp: lookup_absent)
  ultimately have "get_prop w k = x" using keys assms(2) w by (simp add: lookup_or_undef_def)
  with x(1) show ?thesis by simp
qed

lemma all_some_total: "list_all (\<lambda>x. x \<noteq> None) xs \<Longrightarrow> \<exists>ys. all_some xs = Some ys"
  by (induction xs) auto

lemma z_object_accepts:
  assumes "is_record v" and "list_all (\<lambda>(k, s). s (get_prop v k) \<noteq> None) shape"
  shows "\<exists>w. z_object shape v = Some w"
proof -
  have "list_all (\<lambda>x. x \<noteq> None) (map (\<lambda>(k, s). map_option (Pair k) (s (get_prop v k))) shape)"
    using assms(2) by (induction shape) auto
  then obtain ws where "all_some (map (\<lambda>(k, s). map_option (Pair k) (s (get_prop v k))) shape) = Some ws" using all_some_total by blast
  then show ?thesis using assms(1) by (simp add: z_object_def)
qed

lemmas patch_schema_defs = TeamPatchSchema_def OrganizationPatchSchema_def McpServerPatchSchema_def ProviderPatchSchema_def
  AccountPatchSchema_def ModelPatchSchema_def VirtualKeyPatchSchema_def

text \<open>A patch schema never invents a member: what a PATCH request omits stays omitted in the parsed value, so
  a narrow update cannot reset unrelated stored state through a default.\<close>

theorem patch_schemas_keep_omitted:
  assumes "s \<in> {TeamPatchSchema env, OrganizationPatchSchema env, McpServerPatchSchema env, ProviderPatchSchema env,
     AccountPatchSchema env, ModelPatchSchema env, VirtualKeyPatchSchema env}"
    and "s v = Some w"
  shows "fst ` set (record_of w) \<subseteq> fst ` set (record_of v)"
  using assms
  by (elim insertE emptyE; simp only: patch_schema_defs)
     (erule z_object_keys, simp add: proxyField_def similarThreshold_def keeps_absent_intros)+

theorem patch_schemas_keep_omitted_witness:
  "\<exists>w. TeamPatchSchema \<lparr>sv_web = \<lparr>new_URL = (\<lambda>_. None), decodeURIComponent = Some, json_parse = (\<lambda>_. None)\<rparr>, sv_url = (\<lambda>_. True),
      sv_uuid = (\<lambda>_. True), sv_private = False\<rparr> (JObj [(''enabled'', JBool False)]) = Some w
    \<and> fst ` set (record_of w) \<subseteq> {''enabled''}"
proof -
  let ?env = "\<lparr>sv_web = \<lparr>new_URL = (\<lambda>_. None), decodeURIComponent = Some, json_parse = (\<lambda>_. None)\<rparr>, sv_url = (\<lambda>_. True),
      sv_uuid = (\<lambda>_. True), sv_private = False\<rparr>"
  have p: "TeamPatchSchema ?env (JObj [(''enabled'', JBool False)]) = Some (JObj [(''enabled'', JBool False)])"
    by (simp add: TeamPatchSchema_def z_object_def z_optional_def)
  show ?thesis
    using p patch_schemas_keep_omitted [of "TeamPatchSchema ?env" ?env, OF _ p] by auto
qed

section \<open>The address guard against the blocks of the allowlist\<close>

definition PRIVATE_BLOCKS :: "string list" where
  "PRIVATE_BLOCKS = [''0.0.0.0/8'', ''10.0.0.0/8'', ''127.0.0.0/8'', ''169.254.0.0/16'', ''172.16.0.0/12'', ''192.168.0.0/16'', ''224.0.0.0/3'']"

lemma cidr_block:
  assumes "v4_octets ip" and "CHR '':'' \<notin> set c" and "cidr_segments c = Some (base, Some bits)" and "v4ToNumber base < 2 ^ 32"
  shows "cidr_matches ip c \<longleftrightarrow> v4ToNumber ip div 2 ^ (32 - dec_val bits) = v4ToNumber base div 2 ^ (32 - dec_val bits)"
  using assms drop_bit_v4_word_eq [OF v4ToNumber_less [OF assms(1)] assms(4)]
  by (simp add: cidr_matches_def prefix_bits_def)

lemma private_blocks:
  assumes "v4_octets ip"
  shows "(\<exists>c\<in>set PRIVATE_BLOCKS. cidr_matches ip c) \<longleftrightarrow>
     (let n = v4ToNumber ip in n div 2 ^ 24 \<in> {0, 10, 127} \<or> n div 2 ^ 16 \<in> {43518, 49320} \<or> n div 2 ^ 20 = 2753 \<or> n div 2 ^ 29 = 7)"
proof -
  note b = cidr_block [OF assms]
  have "cidr_matches ip ''0.0.0.0/8'' \<longleftrightarrow> v4ToNumber ip div 2 ^ 24 = 0"
    by (subst b [of _ "''0.0.0.0''" "''8''"]) (simp_all add: cidr_eval v4ToNumber_def)
  moreover have "cidr_matches ip ''10.0.0.0/8'' \<longleftrightarrow> v4ToNumber ip div 2 ^ 24 = 10"
    by (subst b [of _ "''10.0.0.0''" "''8''"]) (simp_all add: cidr_eval v4ToNumber_def)
  moreover have "cidr_matches ip ''127.0.0.0/8'' \<longleftrightarrow> v4ToNumber ip div 2 ^ 24 = 127"
    by (subst b [of _ "''127.0.0.0''" "''8''"]) (simp_all add: cidr_eval v4ToNumber_def)
  moreover have "cidr_matches ip ''169.254.0.0/16'' \<longleftrightarrow> v4ToNumber ip div 2 ^ 16 = 43518"
    by (subst b [of _ "''169.254.0.0''" "''16''"]) (simp_all add: cidr_eval v4ToNumber_def)
  moreover have "cidr_matches ip ''172.16.0.0/12'' \<longleftrightarrow> v4ToNumber ip div 2 ^ 20 = 2753"
    by (subst b [of _ "''172.16.0.0''" "''12''"]) (simp_all add: cidr_eval v4ToNumber_def)
  moreover have "cidr_matches ip ''192.168.0.0/16'' \<longleftrightarrow> v4ToNumber ip div 2 ^ 16 = 49320"
    by (subst b [of _ "''192.168.0.0''" "''16''"]) (simp_all add: cidr_eval v4ToNumber_def)
  moreover have "cidr_matches ip ''224.0.0.0/3'' \<longleftrightarrow> v4ToNumber ip div 2 ^ 29 = 7"
    by (subst b [of _ "''224.0.0.0''" "''3''"]) (simp_all add: cidr_eval v4ToNumber_def)
  ultimately show ?thesis by (auto simp: PRIVATE_BLOCKS_def Let_def)
qed

lemma private_v4_blocks:
  fixes a b c d :: nat
  assumes "a \<le> 255" "b \<le> 255" "c \<le> 255" "d \<le> 255"
  defines "n \<equiv> ((a * 256 + b) * 256 + c) * 256 + d"
  shows "private_v4 a b \<longleftrightarrow> n div 2 ^ 24 \<in> {0, 10, 127} \<or> n div 2 ^ 16 \<in> {43518, 49320} \<or> n div 2 ^ 20 = 2753 \<or> n div 2 ^ 29 = 7"
proof -
  have D: "n div 2 ^ 24 = a" "n div 2 ^ 16 = a * 256 + b" "n div 2 ^ 20 = a * 16 + b div 16" "n div 2 ^ 29 = a div 32"
    using assms unfolding n_def by simp_all
  have two: "a * 256 + b = x \<longleftrightarrow> a = x div 256 \<and> b = x mod 256" for x
    using div_mult_mod_eq [of x 256] assms(2) by auto
  have E: "a * 256 + b = 43518 \<longleftrightarrow> a = 169 \<and> b = 254" "a * 256 + b = 49320 \<longleftrightarrow> a = 192 \<and> b = 168"
    by (simp_all add: two)
  have q: "a * 16 + x = 2753 \<longleftrightarrow> a = 172 \<and> x = 1" if "x < 16" for x using that by presburger
  have "b div 16 < 16" using assms(2) by linarith
  note Q = q [OF this]
  have B: "b div 16 = 1 \<longleftrightarrow> 16 \<le> b \<and> b \<le> 31" by (intro iffI conjI) linarith+
  have A: "a div 32 = 7 \<longleftrightarrow> 224 \<le> a" using assms(1) by (intro iffI) linarith+
  show ?thesis
    by (simp only: D E Q B A private_v4_def insert_iff empty_iff) blast
qed

lemma ends_with_last: "ends_with s pat \<Longrightarrow> pat \<noteq> [] \<Longrightarrow> s \<noteq> [] \<and> last s = last pat"
  by (auto simp: ends_with_def suffix_def)

lemma v4_host_chars:
  assumes "v4_octets hn"
  shows "list_all (\<lambda>c. is_digit c \<or> c = CHR ''.'') hn" and "hn \<noteq> []" and "is_digit (last hn)" and "CHR ''.'' \<in> set hn"
proof -
  obtain p q r t where sp: "js_split (CHR ''.'') hn = [p, q, r, t]"
    using assms list_4 [of "js_split (CHR ''.'') hn"] by (auto simp: v4_octets_def Let_def)
  have eq: "hn = p @ ''.'' @ q @ ''.'' @ r @ ''.'' @ t"
    using js_join_split [of "CHR ''.''" hn] by (simp add: sp)
  have dig: "list_all is_digit p" "list_all is_digit q" "list_all is_digit r" "list_all is_digit t" "t \<noteq> []"
    using assms by (auto simp: v4_octets_def Let_def sp digits_between_def)
  show "list_all (\<lambda>c. is_digit c \<or> c = CHR ''.'') hn"
    using dig(1-4) by (auto simp: eq list_all_iff)
  show "hn \<noteq> []" "CHR ''.'' \<in> set hn" by (simp_all add: eq)
  show "is_digit (last hn)" using dig(4,5) by (simp add: eq list_all_iff)
qed

lemma v4_host:
  assumes "v4_octets hn"
  shows "public_host hn \<longleftrightarrow> \<not> private_v4 (dec_val (js_split (CHR ''.'') hn ! 0)) (dec_val (js_split (CHR ''.'') hn ! 1))"
proof -
  note ch = v4_host_chars [OF assms]
  have "hn \<noteq> ''localhost''" and "\<not> ends_with hn ''.localhost''"
    using ch(3) by (auto simp: is_digit_def code_def dest: ends_with_last)
  moreover have "\<not> list_all is_hex_colon hn"
  proof -
    have "\<not> is_hex_colon (CHR ''.'')" by (simp add: is_hex_colon_def is_digit_def code_def)
    then show ?thesis using ch(4) by (metis list_all_iff)
  qed
  moreover have "hn = ''0.0.0.0'' \<Longrightarrow> private_v4 (dec_val (js_split (CHR ''.'') hn ! 0)) (dec_val (js_split (CHR ''.'') hn ! 1))"
    by (simp add: private_v4_def dec_val_def digit_val_def code_def)
  ultimately show ?thesis
    using v4_octets_is_text [OF assms] by (auto simp: public_host_def)
qed

text \<open>For a URL whose host is an IPv4 literal the guard against private upstreams is the CIDR match of the IP
  allowlist: the URL is accepted exactly when the address lies in none of the blocks 0/8, 10/8, 127/8, 169.254/16,
  172.16/12, 192.168/16 and 224/3.\<close>

theorem isPublicHttpUrl_v4_blocks:
  assumes "\<not> sv_private env" and "new_URL (sv_web env) v = Some u" and "protocol u = ''http:'' \<or> protocol u = ''https:''"
    and "v4_octets (strip_brackets (toLowerCase (hostname u)))"
  shows "isPublicHttpUrl env v \<longleftrightarrow> (\<forall>c\<in>set PRIVATE_BLOCKS. \<not> cidr_matches (strip_brackets (toLowerCase (hostname u))) c)"
proof -
  let ?h = "strip_brackets (toLowerCase (hostname u))"
  obtain p q r t where sp: "js_split (CHR ''.'') ?h = [p, q, r, t]"
    using assms(4) list_4 [of "js_split (CHR ''.'') ?h"] by (auto simp: v4_octets_def Let_def)
  have le: "dec_val p \<le> 255" "dec_val q \<le> 255" "dec_val r \<le> 255" "dec_val t \<le> 255"
    using assms(4) by (auto simp: v4_octets_def Let_def sp)
  have n: "v4ToNumber ?h = ((dec_val p * 256 + dec_val q) * 256 + dec_val r) * 256 + dec_val t"
    by (simp add: v4ToNumber_def sp)
  have "isPublicHttpUrl env v \<longleftrightarrow> public_host ?h"
    using assms(1-3) by (auto simp: isPublicHttpUrl_def)
  also have "\<dots> \<longleftrightarrow> \<not> private_v4 (dec_val p) (dec_val q)"
    by (simp add: v4_host [OF assms(4)] sp)
  also have "\<dots> \<longleftrightarrow> \<not> (\<exists>c\<in>set PRIVATE_BLOCKS. cidr_matches ?h c)"
    unfolding private_blocks [OF assms(4)] private_v4_blocks [OF le] n Let_def ..
  finally show ?thesis by blast
qed

definition demo_schema :: "string \<Rightarrow> schema_env" where
  "demo_schema hn = \<lparr>sv_web = \<lparr>new_URL = (\<lambda>_. Some \<lparr>protocol = ''http:'', hostname = hn, url_port = [], username = [], password = []\<rparr>),
     decodeURIComponent = Some, json_parse = (\<lambda>_. None)\<rparr>, sv_url = (\<lambda>_. True), sv_uuid = (\<lambda>_. True), sv_private = False\<rparr>"

theorem isPublicHttpUrl_v4_blocks_witness:
  "isPublicHttpUrl (demo_schema ''172.31.0.1'') ''http://172.31.0.1/'' \<longleftrightarrow>
     (\<forall>c\<in>set PRIVATE_BLOCKS. \<not> cidr_matches ''172.31.0.1'' c)"
proof -
  let ?u = "\<lparr>protocol = ''http:'', hostname = ''172.31.0.1'', url_port = [], username = [], password = []\<rparr>"
  have e: "strip_brackets (toLowerCase (hostname ?u)) = ''172.31.0.1''"
    by (simp add: strip_brackets_def toLowerCase_def lower_char_def char_class_defs)
  have o4: "v4_octets ''172.31.0.1''" by (simp add: cidr_eval)
  show ?thesis
    using isPublicHttpUrl_v4_blocks [of "demo_schema ''172.31.0.1''" "''http://172.31.0.1/''" ?u, unfolded e]
    by (simp add: demo_schema_def o4)
qed

text \<open>An IPv6 literal that embeds an IPv4 address passes the guard whatever that address is: every host of hexadecimal
  digits and colons that starts with \<open>::ffff:\<close> is accepted, so the loopback and private IPv4 ranges
  are reachable through their mapped form.\<close>

theorem mapped_addresses_pass:
  assumes "\<not> sv_private env" and "new_URL (sv_web env) v = Some u" and "protocol u = ''http:''"
    and "strip_brackets (toLowerCase (hostname u)) = ''::ffff:'' @ rest" and "list_all is_hex_colon rest"
  shows "isPublicHttpUrl env v"
proof -
  let ?h = "''::ffff:'' @ rest"
  have hex: "list_all is_hex_colon ?h"
    using assms(5) by (simp add: is_hex_colon_def)
  have "\<not> is_hex_colon (last ''.localhost'')" by (simp add: is_hex_colon_def is_digit_def code_def)
  then have "\<not> ends_with ?h ''.localhost''"
  proof -
    assume n: "\<not> is_hex_colon (last ''.localhost'')"
    show ?thesis
    proof
      assume "ends_with ?h ''.localhost''"
      then have "last ?h = last ''.localhost''" using ends_with_last by blast
      moreover have "is_hex_colon (last ?h)" using hex last_in_set [of ?h] by (simp only: list_all_iff) simp
      ultimately show False using n by (simp only:)
    qed
  qed
  then have "public_host ?h"
    using hex by (simp add: public_host_def private_v6_def starts_with_def)
  then show ?thesis using assms by (simp add: isPublicHttpUrl_def)
qed

theorem mapped_addresses_pass_witness: "isPublicHttpUrl (demo_schema ''[::ffff:7f00:1]'') ''http://[::ffff:127.0.0.1]/''"
proof (rule mapped_addresses_pass)
  let ?u = "\<lparr>protocol = ''http:'', hostname = ''[::ffff:7f00:1]'', url_port = [], username = [], password = []\<rparr>"
  show "new_URL (sv_web (demo_schema ''[::ffff:7f00:1]'')) ''http://[::ffff:127.0.0.1]/'' = Some ?u" by (simp add: demo_schema_def)
  show "strip_brackets (toLowerCase (hostname ?u)) = ''::ffff:'' @ ''7f00:1''"
    by (simp add: strip_brackets_def toLowerCase_def lower_char_def char_class_defs)
qed (simp_all add: demo_schema_def is_hex_colon_def is_digit_def code_def)

end
