(* ===== verification/Resources.thy ===== *)
theory Resources
  imports Discovery
begin

text \<open>
  Deletion of accounts, providers and models (\<open>lib/resource-deletion.ts\<close>, \<open>lib/model-routes.ts\<close>) and the two
  batch imports of the control API (\<open>accounts/batch\<close>, \<open>models/batch\<close>).  The foreign keys of the schema appear as
  guards that raise \<open>DbError\<close> and as the cascades the tables declare.
\<close>

section \<open>Deletion\<close>

definition has_mapping :: "db \<Rightarrow> alias_row \<Rightarrow> bool" where
  "has_mapping d m \<longleftrightarrow> list_ex (\<lambda>x. mm_model x = m_id m) (mappings d)"

definition has_offer :: "db \<Rightarrow> alias_row \<Rightarrow> bool" where
  "has_offer d m \<longleftrightarrow> (case m_provider m of None \<Rightarrow> False | Some p \<Rightarrow> eligible_accounts p (m_upstream m) d \<noteq> [])"

text \<open>The rows an account takes with it: discovered models and quota state cascade.\<close>

definition drop_account :: "uuid \<Rightarrow> db \<Rightarrow> db" where
  "drop_account i d =
     d\<lparr>operations := delete_where (\<lambda>r. op_account r = i) (operations d),
       mappings := delete_where (\<lambda>r. mm_account r = i) (mappings d),
       accounts := delete_where (\<lambda>r. a_id r = i) (accounts d),
       discovered := delete_where (\<lambda>r. d_account r = i) (discovered d),
       pstates := delete_where (\<lambda>r. ps_account r = i) (pstates d)\<rparr>"

definition disable_unmapped :: "db \<Rightarrow> db" where
  "disable_unmapped d =
     d\<lparr>aliases := update_where (\<lambda>m. m_enabled m \<and> m_provider m = None \<and> \<not> has_mapping d m) (\<lambda>m. m\<lparr>m_enabled := False\<rparr>) (aliases d)\<rparr>"

definition disable_unoffered :: "uuid \<Rightarrow> db \<Rightarrow> db" where
  "disable_unoffered p d =
     d\<lparr>aliases := update_where (\<lambda>m. m_enabled m \<and> m_provider m = Some p \<and> \<not> has_offer d m) (\<lambda>m. m\<lparr>m_enabled := False\<rparr>) (aliases d)\<rparr>"

definition delete_secret :: "uuid option \<Rightarrow> (db, unit) act" where
  "delete_secret sid =
     (case sid of None \<Rightarrow> return_act ()
      | Some s \<Rightarrow>
         bind_act (gets_act (\<lambda>d. list_ex (\<lambda>a. a_secret a = Some s) (accounts d))) (\<lambda>used.
         then_act (guard_act (\<not> used) (DbError ''accounts_secret_record_id_fkey''))
         (modify_act (\<lambda>d. d\<lparr>secrets := delete_where (\<lambda>r. s_id r = s) (secrets d),
            mcps := update_where (\<lambda>m. mc_headers m = Some s) (\<lambda>m. m\<lparr>mc_headers := None\<rparr>) (mcps d)\<rparr>))))"

definition deleteAccountResource :: "uuid \<Rightarrow> (db, unit) act" where
  "deleteAccountResource i =
     bind_act (gets_act (find_account i)) (\<lambda>acc. case acc of
       None \<Rightarrow> throw (ApiError 404 ''not_found'' ''Account not found'')
     | Some a \<Rightarrow>
        then_act (modify_act (drop_account i))
       (then_act (modify_act disable_unmapped)
       (then_act (modify_act (disable_unoffered (a_provider a)))
       (delete_secret (a_secret a)))))"

definition deleteProviderResource :: "uuid \<Rightarrow> (db, nat) act" where
  "deleteProviderResource p =
     bind_act (gets_act (find_provider p)) (\<lambda>prov. case prov of
       None \<Rightarrow> throw (ApiError 404 ''not_found'' ''Provider not found'')
     | Some _ \<Rightarrow>
        bind_act (gets_act (\<lambda>d. map a_id (sort_key a_id (filter (\<lambda>a. a_provider a = p) (accounts d))))) (\<lambda>ids.
        then_act (for_act ids deleteAccountResource)
       (bind_act (gets_act (\<lambda>d. list_ex (\<lambda>r. d_provider r = p) (discovered d))) (\<lambda>used.
        then_act (guard_act (\<not> used) (DbError ''discovered_models_provider_id_fkey''))
       (then_act (modify_act (\<lambda>d. d\<lparr>providers := delete_where (\<lambda>r. p_id r = p) (providers d),
           aliases := update_where (\<lambda>m. m_provider m = Some p) (\<lambda>m. m\<lparr>m_provider := None\<rparr>) (aliases d)\<rparr>))
       (return_act (length ids)))))))"

section \<open>Model routes\<close>

definition forget_model :: "string \<Rightarrow> key_row list \<Rightarrow> key_row list" where
  "forget_model al = update_where (\<lambda>k. al \<in> set (k_models k)) (\<lambda>k. k\<lparr>k_models := filter (\<lambda>m. m \<noteq> al) (k_models k)\<rparr>)"

definition drop_model :: "uuid \<Rightarrow> db \<Rightarrow> db" where
  "drop_model i d = d\<lparr>aliases := delete_where (\<lambda>m. m_id m = i) (aliases d), mappings := delete_where (\<lambda>r. mm_model r = i) (mappings d),
     pricing := delete_where (\<lambda>r. pc_model r = i) (pricing d)\<rparr>"

definition deleteModelRoute :: "sn_env \<Rightarrow> uuid \<Rightarrow> (db, string) act" where
  "deleteModelRoute env i =
     bind_act (gets_act (\<lambda>d. find (\<lambda>m. m_id m = i) (aliases d))) (\<lambda>current. case current of
       None \<Rightarrow> throw (ApiError 404 ''not_found'' ''Model not found'')
     | Some m \<Rightarrow>
        then_act (modify_act (\<lambda>d. d\<lparr>vkeys := forget_model (m_alias m) (vkeys d)\<rparr>))
       (then_act (modify_act (drop_model i))
       (then_act (audit ''delete'' ''model_alias'' (Some (show_nat i)) (JObj [(''alias'', JStr (m_alias m))]))
       (then_act (storeDraft env) (return_act (m_alias m))))))"

definition VALID_STRATEGIES :: "string list" where
  "VALID_STRATEGIES = [''round_robin'', ''quota_failover'', ''p2c'', ''least_used'', ''lkgp'', ''reset_aware'']"

definition updateProviderModelStrategy :: "sn_env \<Rightarrow> uuid \<Rightarrow> string \<Rightarrow> (db, unit) act" where
  "updateProviderModelStrategy env i strategy =
     then_act (guard_act (strategy \<in> set VALID_STRATEGIES) (ApiError 400 ''invalid_model_strategy'' ''Provider model strategy is invalid''))
     (bind_act (gets_act (\<lambda>d. list_ex (\<lambda>m. m_id m = i \<and> m_provider m \<noteq> None) (aliases d))) (\<lambda>present.
      then_act (guard_act (\<not> present \<or> strategy \<in> set db_strategies) (DbError ''model_aliases_routing_strategy_check''))
     (then_act (guard_act present (ApiError 404 ''not_found'' ''Provider model not found''))
     (then_act (modify_act (\<lambda>d. d\<lparr>aliases := update_where (\<lambda>m. m_id m = i \<and> m_provider m \<noteq> None) (\<lambda>m. m\<lparr>m_strategy := strategy\<rparr>) (aliases d)\<rparr>))
     (then_act (audit ''update_strategy'' ''model_alias'' (Some (show_nat i)) (JObj [(''routing_strategy'', JStr strategy)]))
     (then_act (storeDraft env) (return_act ())))))))"

section \<open>Batch import of accounts\<close>

definition suffixed :: "string \<Rightarrow> nat \<Rightarrow> string" where
  "suffixed base k = base @ ''-'' @ show_nat k"

lemma suffixed_inj: "suffixed base j = suffixed base k \<Longrightarrow> j = k"
  by (auto simp: suffixed_def dest: show_nat_inj)

text \<open>\<open>while (used.has(name)) name = base-suffix++\<close>: every round uses up one of the finitely many names.\<close>

function next_suffix :: "string list \<Rightarrow> string \<Rightarrow> nat \<Rightarrow> string" where
  "next_suffix used base k = (if suffixed base k \<in> set used then next_suffix used base (Suc k) else suffixed base k)"
  by pat_completeness auto

termination
proof (relation "measure (\<lambda>(used, base, k). card {j. k \<le> j \<and> suffixed base j \<in> set used})", simp)
  fix used base k
  assume u: "suffixed base k \<in> set used"
  let ?S = "\<lambda>k. {j. k \<le> j \<and> suffixed base j \<in> set used}"
  have "finite (suffixed base -` set used)"
    by (rule finite_vimageI) (auto intro: injI dest: suffixed_inj)
  then have fin: "finite (?S k)" by (rule rev_finite_subset) auto
  have "?S (Suc k) \<subseteq> ?S k" by auto
  moreover have "k \<in> ?S k" "k \<notin> ?S (Suc k)" using u by simp_all
  ultimately have "?S (Suc k) \<subset> ?S k" by blast
  with fin show "((used, base, Suc k), used, base, k) \<in> measure (\<lambda>(used, base, k). card {j. k \<le> j \<and> suffixed base j \<in> set used})"
    by (simp add: psubset_card_mono)
qed

declare next_suffix.simps [simp del]

definition free_name :: "string list \<Rightarrow> string \<Rightarrow> string" where
  "free_name used base = (if base \<in> set used then next_suffix used base 2 else base)"

record batch_entry =
  be_name :: "string option"
  be_secret :: string

datatype credential_kind = ApiKey | Cookie | OAuth

fun credential_json :: "credential_kind \<Rightarrow> string \<Rightarrow> jv" where
  "credential_json Cookie s = JObj [(''kind'', JStr ''cookie''), (''cookies'', JStr s)]"
| "credential_json OAuth s = JObj [(''kind'', JStr ''oauth''), (''access_token'', JStr s)]"
| "credential_json ApiKey s = JObj [(''kind'', JStr ''api_key''), (''api_key'', JStr s)]"

fun kind_name :: "credential_kind \<Rightarrow> string" where
  "kind_name Cookie = ''cookie''" | "kind_name OAuth = ''oauth''" | "kind_name ApiKey = ''api_key''"

record account_batch =
  ab_provider :: uuid
  ab_kind :: credential_kind
  ab_entries :: "batch_entry list"
  ab_priority :: int
  ab_max_concurrency :: int

definition given_name :: "batch_entry \<Rightarrow> string option" where
  "given_name e = (case be_name e of None \<Rightarrow> None | Some n \<Rightarrow> if js_trim n = [] then None else Some (js_trim n))"

definition batch_account :: "account_batch \<Rightarrow> provider_row \<Rightarrow> uuid \<Rightarrow> uuid \<Rightarrow> string \<Rightarrow> string \<Rightarrow> account_row" where
  "batch_account b p i sid name display =
     \<lparr>a_id = i, a_provider = ab_provider b, a_secret = Some sid, a_name = name, a_display = display, a_base_url = p_base_url p,
      a_enabled = True, a_priority = ab_priority b, a_weight = 1, a_max_concurrency = ab_max_concurrency b, a_cost = 0,
      a_metadata = JObj [(''auth_method'', JStr (kind_name (ab_kind b))), (''batch'', JBool True)], a_revision = 1, a_external = None,
      a_email = None, a_plan = None, a_expires = None, a_persistence = ''persisted''\<rparr>"

fun import_entries ::
  "account_batch \<Rightarrow> provider_row \<Rightarrow> string list \<Rightarrow> (uuid \<times> string) list \<Rightarrow> batch_entry list \<Rightarrow> (db, (uuid \<times> string) list) act" where
  "import_entries b p used created [] = return_act created"
| "import_entries b p used created (e # es) =
     (let number = show_nat (length created + 1);
          base = (case given_name e of Some n \<Rightarrow> n | None \<Rightarrow> p_slug p @ ''-'' @ number);
          name = free_name used base;
          display = (case given_name e of Some n \<Rightarrow> n | None \<Rightarrow> p_name p @ '' #'' @ number)
      in bind_act (insertSecret ''account_credential'' (credential_json (ab_kind b) (be_secret e))) (\<lambda>sid.
         bind_act fresh_id (\<lambda>i.
         then_act (modify_act (\<lambda>d. d\<lparr>accounts := accounts d @ [batch_account b p i sid name display]\<rparr>))
         (import_entries b p (name # used) (created @ [(i, name)]) es))))"

definition accounts_batch_change :: "sn_env \<Rightarrow> account_batch \<Rightarrow> (db, (uuid \<times> string) list) act" where
  "accounts_batch_change env b =
     bind_act (gets_act (find_provider (ab_provider b))) (\<lambda>prov. case prov of
       None \<Rightarrow> throw (ApiError 404 ''provider_not_found'' ''Provider not found'')
     | Some p \<Rightarrow>
        bind_act (gets_act (\<lambda>d. map a_name (accounts d))) (\<lambda>used.
        bind_act (import_entries b p used [] (ab_entries b)) (\<lambda>created.
        then_act (storeDraft env)
       (then_act (audit ''accounts_batch_import'' ''provider'' (Some (show_nat (ab_provider b)))
           (JObj [(''count'', int_json (int (length created))), (''kind'', JStr (kind_name (ab_kind b)))]))
       (return_act created)))))"

definition accounts_batch_POST :: "sn_env \<Rightarrow> account_batch \<Rightarrow> (db, (uuid \<times> string) list) act" where
  "accounts_batch_POST env b = txOn (accounts_batch_change env b)"

section \<open>Batch import of models\<close>

record model_line =
  ml_alias :: string
  ml_upstream :: string
  ml_accounts :: "string list"

text \<open>\<open>trimmed.split('=', 2)\<close> keeps the first two parts; \<open>split(/\s+/, 2)\<close> the first two words.\<close>

definition split_line :: "string \<Rightarrow> string \<times> string option" where
  "split_line t =
     (if CHR ''='' \<in> set t
      then (case js_split (CHR ''='') t of a # b # _ \<Rightarrow> (a, Some b) | _ \<Rightarrow> (t, None))
      else let a = takeWhile (\<lambda>c. \<not> is_space c) t; r = dropWhile is_space (dropWhile (\<lambda>c. \<not> is_space c) t)
           in if dropWhile (\<lambda>c. \<not> is_space c) t = [] then (a, None) else (a, Some (takeWhile (\<lambda>c. \<not> is_space c) r)))"

definition parseLine :: "string \<Rightarrow> model_line option" where
  "parseLine line =
     (let t = js_trim line in
      if t = [] \<or> hd t = CHR ''#'' then None
      else let (left, right) = split_line t;
               al = js_trim left;
               parts = (case right of None \<Rightarrow> [] | Some r \<Rightarrow> js_split (CHR '','') r);
               listed_accounts = (1 < length parts);
               upstream = (case right of None \<Rightarrow> [] | Some r \<Rightarrow> if listed_accounts then js_trim (hd parts) else js_trim r);
               names = (if listed_accounts then filter (\<lambda>n. n \<noteq> []) (map js_trim (tl parts)) else [])
           in if al = [] \<or> upstream = [] \<or> \<not> alias_ok al then None
              else Some \<lparr>ml_alias = al, ml_upstream = upstream, ml_accounts = names\<rparr>)"

record model_batch =
  mb_lines :: "string list"
  mb_accounts :: "uuid list option"
  mb_fallbacks :: "string list"
  mb_input :: rat
  mb_output :: rat

definition line_accounts :: "account_row list \<Rightarrow> uuid set \<Rightarrow> model_line \<Rightarrow> uuid list" where
  "line_accounts accs allowed l =
     (if ml_accounts l = [] then map a_id (filter (\<lambda>a. a_id a \<in> allowed) accs)
      else concat (map (\<lambda>n. case find (\<lambda>a. a_name a = n) (rev accs) of
             Some a \<Rightarrow> if a_id a \<in> allowed then [a_id a] else [] | None \<Rightarrow> []) (ml_accounts l)))"

definition batch_alias :: "model_batch \<Rightarrow> uuid \<Rightarrow> model_line \<Rightarrow> alias_row" where
  "batch_alias b i l = \<lparr>m_id = i, m_alias = ml_alias l, m_upstream = ml_upstream l, m_provider = None, m_strategy = ''manual'',
     m_enabled = True, m_fallbacks = mb_fallbacks b, m_cache = None, m_cache_ttl = None, m_threshold = None\<rparr>"

definition mapping_of :: "uuid \<Rightarrow> nat \<times> uuid \<Rightarrow> mapping_row" where
  "mapping_of m x = \<lparr>mm_model = m, mm_account = snd x, mm_enabled = True, mm_tier = 1, mm_position = int (fst x), mm_override = None,
     mm_weight = 0, mm_input = 0, mm_output = 0\<rparr>"

text \<open>The primary key of the mapping table refuses an account named twice.\<close>

definition insert_mappings :: "uuid \<Rightarrow> uuid list \<Rightarrow> (db, unit) act" where
  "insert_mappings m ids =
     then_act (guard_act (distinct ids) (DbError ''model_account_mappings_pkey''))
     (modify_act (\<lambda>d. d\<lparr>mappings := mappings d @ map (mapping_of m) (enumerate 0 ids)\<rparr>))"

fun import_lines ::
  "model_batch \<Rightarrow> account_row list \<Rightarrow> uuid set \<Rightarrow> string list \<Rightarrow> (string \<times> string) list \<Rightarrow> string list \<Rightarrow> string list
     \<Rightarrow> (db, (string \<times> string) list \<times> string list) act" where
  "import_lines b accs allowed taken created skipped [] = return_act (created, skipped)"
| "import_lines b accs allowed taken created skipped (raw # rest) =
     (case parseLine raw of
        None \<Rightarrow> import_lines b accs allowed taken created (skipped @ [js_trim raw]) rest
      | Some l \<Rightarrow>
          if toLowerCase (ml_alias l) \<in> set taken
          then import_lines b accs allowed taken created (skipped @ [ml_alias l @ '' (already exists)'']) rest
          else let ids = line_accounts accs allowed l
               in if ids = []
                  then import_lines b accs allowed taken created
                         (skipped @ [ml_alias l @ (if ml_accounts l = [] then '' (no eligible accounts)'' else '' (unknown accounts)'')]) rest
                  else bind_act fresh_id (\<lambda>i.
                       then_act (modify_act (\<lambda>d. d\<lparr>aliases := aliases d @ [batch_alias b i l],
                           pricing := pricing d @ [\<lparr>pc_model = i, pc_input = mb_input b, pc_output = mb_output b\<rparr>]\<rparr>))
                      (then_act (insert_mappings i ids)
                      (import_lines b accs allowed (toLowerCase (ml_alias l) # taken) (created @ [(ml_alias l, ml_upstream l)]) skipped rest))))"

definition models_batch_change :: "sn_env \<Rightarrow> model_batch \<Rightarrow> (db, (string \<times> string) list \<times> string list) act" where
  "models_batch_change env b =
     bind_act (gets_act (\<lambda>d. (map (\<lambda>m. toLowerCase (m_alias m)) (aliases d), sort_key a_name (filter a_enabled (accounts d))))) (\<lambda>(taken, accs).
       let allowed = (case mb_accounts b of Some (i # is) \<Rightarrow> set (i # is) | _ \<Rightarrow> a_id ` set accs)
       in bind_act (import_lines b accs allowed taken [] [] (mb_lines b)) (\<lambda>(created, skipped).
          then_act (guard_act (created \<noteq> []) (ApiError 400 ''no_models_imported'' ''No models could be imported''))
         (then_act (storeDraft env)
         (then_act (audit ''models_batch_import'' ''model_alias'' None
             (JObj [(''count'', int_json (int (length created))), (''skipped'', JArr (map JStr (take 20 skipped)))]))
         (return_act (created, take 50 skipped))))))"

definition models_batch_POST :: "sn_env \<Rightarrow> model_batch \<Rightarrow> (db, (string \<times> string) list \<times> string list) act" where
  "models_batch_POST env b = txOn (models_batch_change env b)"

section \<open>References\<close>

text \<open>The references between tables: every foreign key the schema declares on the tables these operations touch.\<close>

definition refs_ok :: "db \<Rightarrow> bool" where
  "refs_ok d \<longleftrightarrow>
     a_provider ` set (accounts d) \<subseteq> p_id ` set (providers d)
   \<and> (\<forall>a\<in>set (accounts d). \<forall>s. a_secret a = Some s \<longrightarrow> s \<in> s_id ` set (secrets d))
   \<and> mm_account ` set (mappings d) \<subseteq> a_id ` set (accounts d)
   \<and> mm_model ` set (mappings d) \<subseteq> m_id ` set (aliases d)
   \<and> pc_model ` set (pricing d) \<subseteq> m_id ` set (aliases d)
   \<and> op_account ` set (operations d) \<subseteq> a_id ` set (accounts d)
   \<and> ps_account ` set (pstates d) \<subseteq> a_id ` set (accounts d)
   \<and> d_account ` set (discovered d) \<subseteq> a_id ` set (accounts d)
   \<and> d_provider ` set (discovered d) \<subseteq> p_id ` set (providers d)
   \<and> (\<forall>m\<in>set (aliases d). \<forall>p. m_provider m = Some p \<longrightarrow> p \<in> p_id ` set (providers d))
   \<and> (\<forall>m\<in>set (mcps d). \<forall>s. mc_headers m = Some s \<longrightarrow> s \<in> s_id ` set (secrets d))"

lemma keep_key: "k \<in> key ` S \<Longrightarrow> k \<noteq> i \<Longrightarrow> k \<in> key ` {r \<in> S. key r \<noteq> i}"
  by auto

lemma key_image_update: "(\<And>r. key (f r) = key r) \<Longrightarrow> key ` set (update_where p f rs) = key ` set rs"
  by (metis list.set_map map_update_where_same)

lemma ball_update_where: "(\<forall>x\<in>set (update_where p f rs). Q x) \<longleftrightarrow> (\<forall>r\<in>set rs. Q (if p r then f r else r))"
  by (auto simp: update_where_def)

lemma drop_account_refs: "refs_ok d \<Longrightarrow> refs_ok (drop_account i d)"
  by (auto simp: refs_ok_def drop_account_def)

lemma disable_refs:
  "refs_ok d \<Longrightarrow> refs_ok (disable_unmapped d)"
  "refs_ok d \<Longrightarrow> refs_ok (disable_unoffered p d)"
  by (auto simp: refs_ok_def disable_unmapped_def disable_unoffered_def key_image_update ball_update_where)

lemma delete_secret_refs: "preserves refs_ok (delete_secret sid)"
proof (cases sid)
  case (Some s)
  show ?thesis
  proof (rule preservesI)
    fix d assume "refs_ok d"
    then show "refs_ok (snd (delete_secret sid d))"
      by (auto simp: Some delete_secret_def bind_gets then_guard modify_act_apply refs_ok_def ball_update_where list_ex_iff intro!: keep_key)
  qed
qed (simp add: delete_secret_def preserves_intros)

lemma deleteAccountResource_refs: "preserves refs_ok (deleteAccountResource i)"
  unfolding deleteAccountResource_def
  by (intro preserves_intros delete_secret_refs) (auto intro: drop_account_refs disable_refs)

lemma deleteAccountResource_apply:
  assumes "find_account i d = Some a"
  shows "deleteAccountResource i d = delete_secret (a_secret a) (disable_unoffered (a_provider a) (disable_unmapped (drop_account i d)))"
  by (simp add: deleteAccountResource_def bind_gets assms then_modify)

lemma delete_secret_tables:
  "delete_secret sid d = (Inr (), d') \<Longrightarrow> accounts d' = accounts d \<and> providers d' = providers d \<and> mappings d' = mappings d \<and> aliases d' = aliases d
     \<and> operations d' = operations d \<and> pstates d' = pstates d \<and> discovered d' = discovered d"
  by (auto simp: delete_secret_def return_act_apply bind_gets then_guard modify_act_apply split: option.splits if_splits)

lemma deleteAccountResource_InrE:
  assumes "deleteAccountResource i d = (Inr (), d')"
  shows "accounts d' = delete_where (\<lambda>a. a_id a = i) (accounts d)" and "providers d' = providers d"
proof -
  obtain a where f: "find_account i d = Some a"
    using assms by (auto simp: deleteAccountResource_def bind_gets throw_apply split: option.splits)
  from assms delete_secret_tables
  show "accounts d' = delete_where (\<lambda>a. a_id a = i) (accounts d)" and "providers d' = providers d"
    by (fastforce simp: deleteAccountResource_apply [OF f] drop_account_def disable_unmapped_def disable_unoffered_def)+
qed

lemma delete_accounts_loop:
  "for_act ids deleteAccountResource d = (Inr (), d') \<Longrightarrow>
     accounts d' = delete_where (\<lambda>a. a_id a \<in> set ids) (accounts d) \<and> providers d' = providers d"
proof (induction ids arbitrary: d)
  case Nil
  then show ?case by (simp add: return_act_apply delete_where_def)
next
  case (Cons i ids)
  from Cons.prems obtain t where "deleteAccountResource i d = (Inr (), t)" "for_act ids deleteAccountResource t = (Inr (), d')"
    by (auto elim!: then_act_InrE)
  with Cons.IH deleteAccountResource_InrE [of i d t] show ?case by (auto simp: delete_where_def)
qed

lemma deleteProviderResource_refs:
  assumes "refs_ok d" shows "refs_ok (snd (deleteProviderResource p d))"
proof (cases "find_provider p d")
  case None
  then show ?thesis using assms by (simp add: deleteProviderResource_def bind_gets throw_apply)
next
  case (Some r)
  let ?ids = "map a_id (sort_key a_id (filter (\<lambda>a. a_provider a = p) (accounts d)))"
  obtain x t where t: "for_act ?ids deleteAccountResource d = (x, t)" by fastforce
  have ok: "refs_ok t"
    using preserves_for [of ?ids refs_ok deleteAccountResource] deleteAccountResource_refs assms t by (auto dest: preservesD)
  show ?thesis
  proof (cases x)
    case (Inl e)
    then show ?thesis using ok by (simp add: deleteProviderResource_def bind_gets Some then_act_def bind_act_Inl [where m = "for_act ?ids deleteAccountResource", OF t [unfolded Inl]])
  next
    case (Inr u)
    then have "accounts t = delete_where (\<lambda>a. a_id a \<in> set ?ids) (accounts d)"
      using delete_accounts_loop t by simp
    then have none: "\<forall>a\<in>set (accounts t). a_provider a \<noteq> p" by auto
    have "deleteProviderResource p d =
       (if list_ex (\<lambda>r. d_provider r = p) (discovered t) then (Inl (DbError ''discovered_models_provider_id_fkey''), t)
        else (Inr (length ?ids), t\<lparr>providers := delete_where (\<lambda>r. p_id r = p) (providers t),
           aliases := update_where (\<lambda>m. m_provider m = Some p) (\<lambda>m. m\<lparr>m_provider := None\<rparr>) (aliases t)\<rparr>))"
      by (simp add: deleteProviderResource_def bind_gets Some then_act_def bind_act_Inr [where m = "for_act ?ids deleteAccountResource", OF t [unfolded Inr]] bind_guard bind_modify return_act_apply)
    then show ?thesis
      using ok none by (auto simp: refs_ok_def ball_update_where key_image_update list_ex_iff intro!: keep_key)
  qed
qed


section \<open>Names of imported accounts\<close>

text \<open>The search for a free suffix ends at a name that is not in use.\<close>

lemma next_suffix_free: "next_suffix used base k \<notin> set used"
  by (induction used base k rule: next_suffix.induct) (simp add: next_suffix.simps)

lemma free_name_free: "free_name used base \<notin> set used"
  by (simp add: free_name_def next_suffix_free)

lemma import_entries_names:
  assumes "import_entries b p used created es d = (Inr res, d')" and "set (map a_name (accounts d)) \<subseteq> set used"
    and "distinct (map a_name (accounts d))"
  shows "distinct (map a_name (accounts d')) \<and> (\<exists>rows. accounts d' = accounts d @ rows \<and> map (\<lambda>r. (a_id r, a_name r)) rows = drop (length created) res
      \<and> length rows = length es \<and> take (length created) res = created)"
  using assms
proof (induction b p used created es arbitrary: d rule: import_entries.induct)
  case (1 b p used created)
  then show ?case by (auto simp: return_act_apply)
next
  case (2 b p used created e es)
  define base where "base = (case given_name e of Some n \<Rightarrow> n | None \<Rightarrow> p_slug p @ ''-'' @ show_nat (length created + 1))"
  define display where "display = (case given_name e of Some n \<Rightarrow> n | None \<Rightarrow> p_name p @ '' #'' @ show_nat (length created + 1))"
  define name where "name = free_name used base"
  let ?row = "batch_account b p (Suc (next_id d)) (next_id d) name display"
  let ?t = "d\<lparr>secrets := secrets d @ [\<lparr>s_id = next_id d, s_purpose = ''account_credential'',
     s_sealed = credential_json (ab_kind b) (be_secret e)\<rparr>], next_id := Suc (Suc (next_id d)), accounts := accounts d @ [?row]\<rparr>"
  have run: "import_entries b p (name # used) (created @ [(Suc (next_id d), name)]) es ?t = (Inr res, d')"
    using "2.prems"(1) unfolding import_entries.simps Let_def base_def [symmetric] display_def [symmetric] name_def [symmetric]
    by (simp add: bind_insertSecret bind_fresh_id then_modify)
  have nm: "a_name ?row = name" "a_id ?row = Suc (next_id d)" by (simp_all add: batch_account_def)
  have fresh: "name \<notin> set used" by (simp add: name_def free_name_free)
  have "distinct (map a_name (accounts d')) \<and> (\<exists>rows. accounts d' = accounts ?t @ rows
      \<and> map (\<lambda>r. (a_id r, a_name r)) rows = drop (length (created @ [(Suc (next_id d), name)])) res
      \<and> length rows = length es \<and> take (length (created @ [(Suc (next_id d), name)])) res = created @ [(Suc (next_id d), name)])"
  proof (rule "2.IH" [OF refl base_def name_def display_def run])
  qed (use "2.prems" fresh nm in auto)
  then obtain rows where dist: "distinct (map a_name (accounts d'))" and rows: "accounts d' = accounts d @ ?row # rows"
      "map (\<lambda>r. (a_id r, a_name r)) rows = drop (Suc (length created)) res" "length rows = length es"
      and tk: "take (Suc (length created)) res = created @ [(Suc (next_id d), name)]" by auto
  have res: "res = created @ (Suc (next_id d), name) # drop (Suc (length created)) res"
    using append_take_drop_id [of "Suc (length created)" res] tk by simp
  have "take (length created) res = created" "drop (length created) res = (Suc (next_id d), name) # drop (Suc (length created)) res"
    by (subst res, simp)+
  then have "map (\<lambda>r. (a_id r, a_name r)) (?row # rows) = drop (length created) res \<and> take (length created) res = created"
    using rows(2) nm by simp
  with dist rows show ?case by (metis length_Cons)
qed

text \<open>A batch import that succeeds appends one account per entry, reports exactly the accounts it created, and
  keeps the account names unique even when entries repeat a name or collide with existing ones.\<close>

theorem accounts_batch_names:
  assumes "accounts_batch_POST env b d = (Inr created, d')" and "distinct (map a_name (accounts d))"
  shows "distinct (map a_name (accounts d')) \<and> length created = length (ab_entries b)
    \<and> (\<exists>rows. accounts d' = accounts d @ rows \<and> map (\<lambda>r. (a_id r, a_name r)) rows = created)"
proof -
  obtain p where p: "find_provider (ab_provider b) d = Some p"
    using assms(1) by (auto simp: accounts_batch_POST_def accounts_batch_change_def txOn_Inr_iff bind_gets throw_apply split: option.splits)
  have "bind_act (import_entries b p (map a_name (accounts d)) [] (ab_entries b)) (\<lambda>created.
        then_act (storeDraft env)
       (then_act (audit ''accounts_batch_import'' ''provider'' (Some (show_nat (ab_provider b)))
           (JObj [(''count'', int_json (int (length created))), (''kind'', JStr (kind_name (ab_kind b)))]))
       (return_act created))) d = (Inr created, d')"
    using assms(1) by (simp add: accounts_batch_POST_def accounts_batch_change_def txOn_Inr_iff bind_gets p)
  then obtain t where t: "import_entries b p (map a_name (accounts d)) [] (ab_entries b) d = (Inr created, t)"
    and same: "accounts d' = accounts t"
    by (elim bind_act_InrE) (auto simp: then_storeDraft bind_audit return_act_apply split: sum.splits)
  obtain rows where "distinct (map a_name (accounts t))" "accounts t = accounts d @ rows"
      "map (\<lambda>r. (a_id r, a_name r)) rows = created" "length rows = length (ab_entries b)"
    using import_entries_names [OF t] assms(2) by auto
  then show ?thesis using same by (metis length_map)
qed

section \<open>What a deletion and a change of strategy do to a model\<close>

text \<open>Deleting a model widens a key that was restricted to it: its model list becomes empty, and an empty
  list is how a key without any restriction is stored.\<close>

theorem deleteModelRoute_widens_key:
  assumes "deleteModelRoute env i d = (Inr al, d')" and "k \<in> set (vkeys d)" and "k_models k = [al]"
  shows "k\<lparr>k_models := []\<rparr> \<in> set (vkeys d')"
proof -
  obtain m where m: "find (\<lambda>m. m_id m = i) (aliases d) = Some m"
    using assms(1) by (auto simp: deleteModelRoute_def bind_gets throw_apply split: option.splits)
  have "al = m_alias m \<and> vkeys d' = forget_model al (vkeys d)"
    using assms(1)
    by (auto simp: deleteModelRoute_def bind_gets m then_modify drop_model_def bind_audit then_storeDraft return_act_apply split: sum.splits)
  then show ?thesis using assms(2,3) by (force simp: forget_model_def set_update_where)
qed

text \<open>Four of the six strategies the API accepts for a provider model can never be stored: the check constraint of
  the table knows only \<open>manual\<close>, \<open>round_robin\<close> and \<open>quota_failover\<close>, so the update fails in the database.\<close>

theorem advanced_strategies_unstorable:
  assumes "strategy \<in> {''p2c'', ''least_used'', ''lkgp'', ''reset_aware''}" and "m \<in> set (aliases d)" and "m_id m = i" and "m_provider m = Some p"
  shows "updateProviderModelStrategy env i strategy d = (Inl (DbError ''model_aliases_routing_strategy_check''), d)"
proof -
  have "strategy \<in> set VALID_STRATEGIES" "strategy \<notin> set db_strategies"
    using assms(1) by (auto simp: VALID_STRATEGIES_def db_strategies_def)
  moreover have "list_ex (\<lambda>m. m_id m = i \<and> m_provider m \<noteq> None) (aliases d)"
    using assms(2-4) by (auto simp: list_ex_iff)
  ultimately show ?thesis by (simp add: updateProviderModelStrategy_def then_guard bind_gets)
qed

section \<open>Witnesses for deletion and import\<close>

theorem advanced_strategies_unstorable_witness:
  "updateProviderModelStrategy demo_sn 3 ''p2c'' (demo_catalog\<lparr>aliases := [(demo_alias 3 ''a'' [])\<lparr>m_provider := Some 1\<rparr>]\<rparr>) =
     (Inl (DbError ''model_aliases_routing_strategy_check''), demo_catalog\<lparr>aliases := [(demo_alias 3 ''a'' [])\<lparr>m_provider := Some 1\<rparr>]\<rparr>)"
  by (rule advanced_strategies_unstorable [where m = "(demo_alias 3 ''a'' [])\<lparr>m_provider := Some 1\<rparr>" and p = 1]) (simp_all add: demo_alias_def)


lemma no_models_compile:
  assumes "aliases d = []" and "enabled_keys d \<noteq> []" and "routing d = None" and "settings d = []"
  shows "\<exists>c. compileDeclarativeSnapshot env d = Inr c"
  using assms by (intro compile_total [of d "[]" "()" "()"]) (simp_all add: compile_models_def validateFallbackChains_def)

theorem deleteModelRoute_widens_key_witness:
  "\<exists>d'. deleteModelRoute demo_sn 3 demo_catalog = (Inr ''a'', d') \<and> (demo_key 4 [''a''])\<lparr>k_models := []\<rparr> \<in> set (vkeys d')"
proof -
  have f: "find (\<lambda>m. m_id m = 3) (aliases demo_catalog) = Some (demo_alias 3 ''a'' [])"
    by (simp add: demo_catalog_def demo_alias_def)
  let ?t = "drop_model 3 (demo_catalog\<lparr>vkeys := forget_model ''a'' (vkeys demo_catalog)\<rparr>)"
  have "\<exists>c. compileDeclarativeSnapshot demo_sn (?t\<lparr>audits := au\<rparr>) = Inr c" for au
    by (rule no_models_compile)
       (simp_all add: drop_model_def demo_catalog_def empty_db_def demo_alias_def forget_model_def demo_key_def enabled_keys_def)
  then obtain c where c: "\<And>au. compileDeclarativeSnapshot demo_sn (?t\<lparr>audits := au\<rparr>) = Inr (c au)" by metis
  have a: "m_alias (demo_alias 3 ''a'' []) = ''a''" by (simp add: demo_alias_def)
  obtain d' where r: "deleteModelRoute demo_sn 3 demo_catalog = (Inr ''a'', d')"
    by (simp add: deleteModelRoute_def bind_gets f a then_modify bind_audit then_storeDraft c return_act_apply)
  have "demo_key 4 [''a''] \<in> set (vkeys demo_catalog)" "k_models (demo_key 4 [''a'']) = [''a'']"
    by (simp_all add: demo_catalog_def demo_key_def)
  then show ?thesis using r deleteModelRoute_widens_key [OF r] by blast
qed

definition demo_batch :: account_batch where
  "demo_batch = \<lparr>ab_provider = 1, ab_kind = ApiKey, ab_entries = [\<lparr>be_name = Some ''acc'', be_secret = ''k''\<rparr>], ab_priority = 0, ab_max_concurrency = 1\<rparr>"

theorem accounts_batch_names_witness:
  "\<exists>created d'. accounts_batch_POST demo_sn demo_batch (demo_catalog\<lparr>aliases := []\<rparr>) = (Inr created, d') \<and> distinct (map a_name (accounts d')) \<and> length created = 1"
proof -
  let ?d = "demo_catalog\<lparr>aliases := []\<rparr>"
  define pr where "pr = sample_provider 1 ''openai-compatible''"
  have p: "find_provider (ab_provider demo_batch) ?d = Some pr"
    by (simp add: pr_def find_provider_def demo_batch_def demo_catalog_def sample_provider_def)
  obtain t created where t: "import_entries demo_batch pr (map a_name (accounts ?d)) [] (ab_entries demo_batch) ?d = (Inr created, t)"
    and same: "aliases t = [] \<and> enabled_keys t \<noteq> [] \<and> routing t = None \<and> settings t = []"
    by (simp add: demo_batch_def Let_def bind_insertSecret bind_fresh_id then_modify return_act_apply)
       (simp add: pr_def demo_catalog_def empty_db_def enabled_keys_def demo_key_def)
  obtain c where c: "compileDeclarativeSnapshot demo_sn t = Inr c"
    using no_models_compile [of t demo_sn] same by auto
  obtain d' where r: "accounts_batch_POST demo_sn demo_batch ?d = (Inr created, d')"
    by (simp add: accounts_batch_POST_def accounts_batch_change_def txOn_Inr_iff bind_gets p bind_act_Inr [where m = "import_entries _ _ _ _ _", OF t [simplified]] then_storeDraft c bind_audit return_act_apply)
  have "distinct (map a_name (accounts ?d))" by (simp add: demo_catalog_def)
  from accounts_batch_names [OF r this] have "distinct (map a_name (accounts d')) \<and> length created = length (ab_entries demo_batch)" by blast
  then show ?thesis using r by (auto simp: demo_batch_def)
qed

end
