(* ===== verification/Oidc.thy ===== *)
theory Oidc
  imports Auth Schemas
begin

text \<open>
  Single sign-on of the dashboard (\<open>lib/oidc.ts\<close>, \<open>lib/sso-routes.ts\<close>): the stored configuration, discovery, the signed
  state of the authorization round trip, verification of ID tokens and the two route handlers.  The
  network, the RSA and HMAC primitives, the construction of a URL from its query parameters and \<open>String(x)\<close> on values that are
  not strings are fields of a parameter record.
\<close>

record http_answer =
  ha_ok :: bool
  ha_status :: nat
  ha_json :: "jv res"

record oidc_env =
  oe_api :: crypto_api
  oe_schema :: schema_env
  oe_master :: string
  oe_get :: "string \<Rightarrow> http_answer res"
  oe_post :: "string \<Rightarrow> (string \<times> string) list \<Rightarrow> http_answer res"
  oe_rsa :: "string \<Rightarrow> string \<Rightarrow> jv \<Rightarrow> string \<Rightarrow> bool option"
  oe_hmac :: "string \<Rightarrow> string \<Rightarrow> string"
  oe_url :: "string \<Rightarrow> (string \<times> string) list \<Rightarrow> string res"
  oe_text :: "jv \<Rightarrow> string"
  oe_cookie_date :: "ms \<Rightarrow> string"
  oe_production :: bool
  oe_ttl :: jsnum
  oe_dashboard :: "string option"

definition js_string :: "oidc_env \<Rightarrow> jv \<Rightarrow> string" where
  "js_string env v = (case v of JStr s \<Rightarrow> s | _ \<Rightarrow> oe_text env v)"

text \<open>\<open>===\<close>: objects and arrays are compared by identity, so two parsed ones are never equal.\<close>

fun strict_eq :: "jv \<Rightarrow> jv \<Rightarrow> bool" where
  "strict_eq (JArr xs) w = False"
| "strict_eq (JObj ps) w = False"
| "strict_eq (JNum n) w = (w = JNum n \<and> n \<noteq> NaN)"
| "strict_eq v w = (v = w)"

definition strip_slash :: "string \<Rightarrow> string" where
  "strip_slash s = (if s \<noteq> [] \<and> last s = CHR ''/'' then butlast s else s)"

section \<open>Configuration and discovery\<close>

definition OidcConfigSchema :: "schema_env \<Rightarrow> schema" where
  "OidcConfigSchema env =
     z_object [(''issuer'', z_url env), (''client_id'', z_filled), (''client_secret'', z_filled),
       (''scopes'', z_default (JArr [JStr ''openid'', JStr ''email'', JStr ''profile'']) (z_array 0 z_filled)),
       (''redirect_uri'', z_optional (z_url env))]"

definition cfg_text :: "jv \<Rightarrow> string \<Rightarrow> string" where
  "cfg_text c k = (case get_prop c k of JStr s \<Rightarrow> s | _ \<Rightarrow> [])"

definition cfg_scopes :: "jv \<Rightarrow> string list" where
  "cfg_scopes c = (case get_prop c ''scopes'' of JArr vs \<Rightarrow> map (\<lambda>v. case v of JStr s \<Rightarrow> s | _ \<Rightarrow> []) vs | _ \<Rightarrow> [])"

record discovery =
  authorization_endpoint :: string
  token_endpoint :: string
  jwks_uri :: string
  issuer :: string

definition missing_endpoint :: "jv \<Rightarrow> string option" where
  "missing_endpoint body = find (\<lambda>k. \<not> is_str (get_prop body k)) [''authorization_endpoint'', ''token_endpoint'', ''jwks_uri'']"

definition discover :: "oidc_env \<Rightarrow> string \<Rightarrow> discovery res" where
  "discover env iss =
     (case oe_get env (strip_slash iss @ ''/.well-known/openid-configuration'') of
        Inl e \<Rightarrow> Inl e
      | Inr res \<Rightarrow>
          if \<not> ha_ok res then Inl (JsError (''oidc_discovery_failed ('' @ show_nat (ha_status res) @ '')''))
          else (case ha_json res of
              Inl e \<Rightarrow> Inl e
            | Inr body \<Rightarrow>
                if nullish body then Inl (JsError ''TypeError'')
                else (case missing_endpoint body of
                    Some k \<Rightarrow> Inl (JsError (''oidc_discovery_missing_'' @ k))
                  | None \<Rightarrow> Inr \<lparr>authorization_endpoint = cfg_text body ''authorization_endpoint'', token_endpoint = cfg_text body ''token_endpoint'',
                      jwks_uri = cfg_text body ''jwks_uri'', issuer = js_string env (coalesce (get_prop body ''issuer'') (JStr iss))\<rparr>)))"

definition auth_params :: "jv \<Rightarrow> string \<Rightarrow> string \<Rightarrow> (string \<times> string) list" where
  "auth_params config redirectUri st =
     [(''response_type'', ''code''), (''client_id'', cfg_text config ''client_id''), (''redirect_uri'', redirectUri),
      (''scope'', js_join '' '' (cfg_scopes config)), (''state'', st)]"

definition buildAuthUrl :: "oidc_env \<Rightarrow> discovery \<Rightarrow> jv \<Rightarrow> string \<Rightarrow> string \<Rightarrow> string res" where
  "buildAuthUrl env disc config redirectUri st = oe_url env (authorization_endpoint disc) (auth_params config redirectUri st)"

section \<open>ID tokens\<close>

definition RSA_HASH :: "string \<Rightarrow> string option" where
  "RSA_HASH = map_of [(''RS256'', ''RSA-SHA256''), (''RS384'', ''RSA-SHA384''), (''RS512'', ''RSA-SHA512'')]"

text \<open>\<open>alg in RSA_HASH\<close> also holds for the properties every object inherits; those are no digest names, and
  verification with them raises and counts as a failure.\<close>

definition inherited :: "string list" where
  "inherited = [''constructor'', ''hasOwnProperty'', ''isPrototypeOf'', ''propertyIsEnumerable'', ''toLocaleString'', ''toString'', ''valueOf'',
     ''__proto__'', ''__defineGetter__'', ''__defineSetter__'', ''__lookupGetter__'', ''__lookupSetter__'']"

definition candidate :: "jv \<Rightarrow> jv \<Rightarrow> bool" where
  "candidate header k \<longleftrightarrow> get_prop k ''kty'' = JStr ''RSA''
     \<and> (\<not> truthy (get_prop k ''use'') \<or> get_prop k ''use'' = JStr ''sig'')
     \<and> (\<not> truthy (get_prop header ''kid'') \<or> \<not> truthy (get_prop k ''kid'') \<or> strict_eq (get_prop k ''kid'') (get_prop header ''kid''))"

definition jwk_verifies :: "oidc_env \<Rightarrow> string option \<Rightarrow> string \<Rightarrow> string \<Rightarrow> jv \<Rightarrow> bool" where
  "jwk_verifies env hash input sig k \<longleftrightarrow>
     truthy (get_prop k ''n'') \<and> truthy (get_prop k ''e'') \<and> (case hash of None \<Rightarrow> False | Some h \<Rightarrow> oe_rsa env h input k sig = Some True)"

definition rsa_valid :: "oidc_env \<Rightarrow> discovery \<Rightarrow> jv \<Rightarrow> string \<Rightarrow> string \<Rightarrow> string \<Rightarrow> bool res" where
  "rsa_valid env disc header alg input sig =
     (case oe_get env (jwks_uri disc) of
        Inl e \<Rightarrow> Inl e
      | Inr res \<Rightarrow>
          if \<not> ha_ok res then Inl (JsError (''oidc_jwks_fetch_failed ('' @ show_nat (ha_status res) @ '')''))
          else (case ha_json res of
              Inl e \<Rightarrow> Inl e
            | Inr jwks \<Rightarrow>
                if nullish jwks then Inl (JsError ''TypeError'')
                else (case coalesce (get_prop jwks ''keys'') (JArr []) of
                    JArr ks \<Rightarrow> if list_ex nullish ks then Inl (JsError ''TypeError'')
                      else Inr (list_ex (jwk_verifies env (RSA_HASH alg) input sig) (filter (candidate header) ks))
                  | _ \<Rightarrow> Inl (JsError ''TypeError''))))"

definition signature_valid :: "oidc_env \<Rightarrow> discovery \<Rightarrow> string \<Rightarrow> jv \<Rightarrow> string \<Rightarrow> string \<Rightarrow> bool res" where
  "signature_valid env disc clientSecret header input sig =
     (let alg = js_string env (get_prop header ''alg'') in
      if RSA_HASH alg \<noteq> None \<or> alg \<in> set inherited then rsa_valid env disc header alg input sig
      else if get_prop header ''alg'' = JStr ''HS256'' then Inr (oe_hmac env clientSecret input = sig)
      else Inl (JsError (''oidc_alg_unsupported:'' @ alg)))"

text \<open>\<open>claims.exp + 60\<close>: addition on numbers, concatenation on everything else.\<close>

definition exp_grace :: "oidc_env \<Rightarrow> jv \<Rightarrow> jsnum" where
  "exp_grace env v =
     (case v of JNum (Fin x) \<Rightarrow> Fin (x + 60) | JNum n \<Rightarrow> n | JBool b \<Rightarrow> Fin (if b then 61 else 60)
      | _ \<Rightarrow> js_number (js_string env v @ ''60''))"

definition audiences :: "jv \<Rightarrow> jv list" where
  "audiences v = (case v of JArr vs \<Rightarrow> vs | _ \<Rightarrow> [v])"

definition verifyIdToken :: "oidc_env \<Rightarrow> string \<Rightarrow> discovery \<Rightarrow> string \<Rightarrow> string \<Rightarrow> jv option \<Rightarrow> ms \<Rightarrow> jv res" where
  "verifyIdToken env idToken disc clientId clientSecret nonce now =
     (case js_split (CHR ''.'') idToken of
        [p0, p1, p2] \<Rightarrow>
          (case (parseJson (oe_api env) (unb64u (oe_api env) p0), parseJson (oe_api env) (unb64u (oe_api env) p1)) of
             (Some header, Some claims) \<Rightarrow>
               if nullish header then Inl (JsError ''TypeError'')
               else (case signature_valid env disc clientSecret header (p0 @ ''.'' @ p1) (unb64u (oe_api env) p2) of
                   Inl e \<Rightarrow> Inl e
                 | Inr valid \<Rightarrow>
                     if \<not> valid then Inl (JsError ''oidc_token_bad_signature'')
                     else if nullish claims then Inl (JsError ''TypeError'')
                     else if \<not> truthy (get_prop claims ''exp'') \<or> reached (now div 1000) (exp_grace env (get_prop claims ''exp''))
                     then Inl (JsError ''oidc_token_expired'')
                     else if strip_slash (issuer disc) \<noteq> strip_slash (js_string env (coalesce (get_prop claims ''iss'') (JStr [])))
                     then Inl (JsError ''oidc_token_iss_mismatch'')
                     else if JStr clientId \<notin> set (audiences (get_prop claims ''aud'')) then Inl (JsError ''oidc_token_aud_mismatch'')
                     else if (case nonce of None \<Rightarrow> False | Some n \<Rightarrow> \<not> strict_eq (get_prop claims ''nonce'') n)
                     then Inl (JsError ''oidc_nonce_mismatch'')
                     else Inr claims)
           | _ \<Rightarrow> Inl (JsError ''SyntaxError''))
      | _ \<Rightarrow> Inl (JsError ''oidc_token_malformed''))"

section \<open>Signed state\<close>

definition state_payload :: "string \<Rightarrow> ms \<Rightarrow> jv" where
  "state_payload nonce now = JObj [(''n'', JStr nonce), (''iat'', JNum (Fin (rat_of_int now)))]"

definition issueState :: "oidc_env \<Rightarrow> string \<Rightarrow> ms \<Rightarrow> string" where
  "issueState env nonce now =
     (let payload = b64u (oe_api env) (stringify (oe_api env) (state_payload nonce now))
      in payload @ ''.'' @ hmac_b64u (oe_api env) (oe_master env) payload)"

definition STATE_TTL :: int where
  "STATE_TTL = 600000"

definition too_old :: "ms \<Rightarrow> jsnum \<Rightarrow> bool" where
  "too_old now iat = (case iat of Fin x \<Rightarrow> rat_of_int STATE_TTL < rat_of_int now - x | NegInf \<Rightarrow> True | _ \<Rightarrow> False)"

definition readState :: "oidc_env \<Rightarrow> string option \<Rightarrow> ms \<Rightarrow> jv option res" where
  "readState env st now =
     (case st of None \<Rightarrow> Inr None
      | Some s \<Rightarrow>
         (case last_index_of_char (CHR ''.'') s of
            None \<Rightarrow> Inr None
          | Some 0 \<Rightarrow> Inr None
          | Some dot \<Rightarrow>
              let payload = take dot s in
              if drop (dot + 1) s \<noteq> hmac_b64u (oe_api env) (oe_master env) payload then Inr None
              else (case parseJson (oe_api env) (unb64u (oe_api env) payload) of
                  None \<Rightarrow> Inr None
                | Some parsed \<Rightarrow>
                    if nullish parsed then Inl (JsError ''TypeError'')
                    else if \<not> truthy (get_prop parsed ''n'') \<or> \<not> truthy (get_prop parsed ''iat'') \<or> too_old now (to_number (get_prop parsed ''iat''))
                    then Inr None else Inr (Some (get_prop parsed ''n'')))))"

section \<open>Routes\<close>

definition stateCookie :: "string \<Rightarrow> string" where
  "stateCookie st = ''papi_oidc_state='' @ st @ ''; Path=/; HttpOnly; SameSite=Lax; Max-Age=600''"

definition CLEAR_STATE_COOKIE :: string where
  "CLEAR_STATE_COOKIE = ''papi_oidc_state=; Path=/; HttpOnly; SameSite=Lax; Max-Age=0''"

definition getOidcConfig :: "oidc_env \<Rightarrow> db \<Rightarrow> jv option" where
  "getOidcConfig env d = (if truthy (setting ''oidc'' d) then OidcConfigSchema (oe_schema env) (setting ''oidc'' d) else None)"

definition saveOidcConfig :: "jv \<Rightarrow> (db, unit) act" where
  "saveOidcConfig config = modify_act (\<lambda>d. d\<lparr>settings := set_prop ''oidc'' config (settings d)\<rparr>)"

record sso_request =
  sr_query :: "(string \<times> string) list"
  sr_cookie :: "string option"
  sr_origin :: string
  sr_override :: "string option"

definition redirectBase :: "oidc_env \<Rightarrow> sso_request \<Rightarrow> string" where
  "redirectBase env req =
     strip_slash (case sr_override req of Some b \<Rightarrow> b | None \<Rightarrow> (case oe_dashboard env of Some b \<Rightarrow> b | None \<Rightarrow> sr_origin req))"

definition redirectUriFor :: "oidc_env \<Rightarrow> sso_request \<Rightarrow> jv \<Rightarrow> string" where
  "redirectUriFor env req config =
     (if truthy (get_prop config ''redirect_uri'') then cfg_text config ''redirect_uri''
      else redirectBase env req @ ''/api/auth/oidc/callback'')"

definition sso_not_configured :: error where
  "sso_not_configured = ApiError 409 ''sso_not_configured'' ''OIDC is not configured for this deployment''"

definition oidcStartCore :: "oidc_env \<Rightarrow> resolved \<Rightarrow> sso_request \<Rightarrow> string \<Rightarrow> ms \<Rightarrow> db \<Rightarrow> (string \<times> string) res" where
  "oidcStartCore env r req nonce now d =
     (case requireFeature r ''sso'' of Inl e \<Rightarrow> Inl e | Inr _ \<Rightarrow>
     (case getOidcConfig env d of None \<Rightarrow> Inl sso_not_configured | Some config \<Rightarrow>
     (case discover env (cfg_text config ''issuer'') of Inl e \<Rightarrow> Inl e | Inr disc \<Rightarrow>
      let st = issueState env nonce now in
     (case buildAuthUrl env disc config (redirectUriFor env req config) st of Inl e \<Rightarrow> Inl e | Inr url \<Rightarrow> Inr (url, stateCookie st)))))"

text \<open>\<open>Object.fromEntries(url.searchParams)\<close> keeps the last value of a repeated parameter; an empty \<open>code\<close> or
  \<open>state\<close> fails the schema.\<close>

definition query_param :: "sso_request \<Rightarrow> string \<Rightarrow> string option" where
  "query_param req k = map_of (rev (sr_query req)) k"

definition callback_query_ok :: "sso_request \<Rightarrow> bool" where
  "callback_query_ok req \<longleftrightarrow> query_param req ''code'' \<noteq> Some [] \<and> query_param req ''state'' \<noteq> Some []"

definition state_cookie_at :: "string \<Rightarrow> string option" where
  "state_cookie_at s =
     (if starts_with s ''papi_oidc_state='' \<and> takeWhile (\<lambda>c. c \<noteq> CHR '';'') (drop 16 s) \<noteq> []
      then Some (takeWhile (\<lambda>c. c \<noteq> CHR '';'') (drop 16 s)) else None)"

fun state_cookie_scan :: "bool \<Rightarrow> string \<Rightarrow> string option" where
  "state_cookie_scan after [] = None"
| "state_cookie_scan after (c # cs) =
     (case (if after then state_cookie_at (c # cs) else None) of
        Some v \<Rightarrow> Some v
      | None \<Rightarrow> state_cookie_scan (c = CHR '';'' \<or> (after \<and> is_space c)) cs)"

definition state_cookie :: "string option \<Rightarrow> string option" where
  "state_cookie header =
     (case header of None \<Rightarrow> None
      | Some s \<Rightarrow> (case state_cookie_at s of Some v \<Rightarrow> Some v | None \<Rightarrow> state_cookie_scan False s))"

datatype sso_answer = SsoFail nat string | SsoSession string "string list"

definition exchange_code :: "oidc_env \<Rightarrow> discovery \<Rightarrow> jv \<Rightarrow> string \<Rightarrow> string \<Rightarrow> string res" where
  "exchange_code env disc config redirectUri grant =
     (case oe_post env (token_endpoint disc) [(''grant_type'', ''authorization_code''), (''code'', grant), (''redirect_uri'', redirectUri),
          (''client_id'', cfg_text config ''client_id''), (''client_secret'', cfg_text config ''client_secret'')] of
        Inl e \<Rightarrow> Inl e
      | Inr res \<Rightarrow>
          if \<not> ha_ok res then Inl (ApiError 401 ''sso_token_exchange_failed'' ''Token endpoint rejected the code'')
          else (case ha_json res of
              Inl e \<Rightarrow> Inl e
            | Inr body \<Rightarrow>
                if nullish body then Inl (JsError ''TypeError'')
                else if \<not> truthy (get_prop body ''id_token'') then Inl (ApiError 401 ''sso_token_missing'' ''IdP did not return an id_token'')
                else (case get_prop body ''id_token'' of JStr t \<Rightarrow> Inr t | _ \<Rightarrow> Inl (JsError ''TypeError''))))"

definition claims_email :: "jv \<Rightarrow> string res" where
  "claims_email claims =
     (case get_prop claims ''email'' of
        JStr email \<Rightarrow>
          if CHR ''@'' \<notin> set email then Inl (ApiError 403 ''sso_email_missing'' ''The IdP did not provide an email claim'')
          else if get_prop claims ''email_verified'' = JBool False
          then Inl (ApiError 403 ''sso_email_unverified'' ''Verify your email with the identity provider first'')
          else Inr email
      | _ \<Rightarrow> Inl (ApiError 403 ''sso_email_missing'' ''The IdP did not provide an email claim''))"

definition sso_login :: "oidc_env \<Rightarrow> string \<Rightarrow> string \<Rightarrow> string \<Rightarrow> string \<Rightarrow> ms \<Rightarrow> (db, sso_answer) act" where
  "sso_login env base email random token now =
     bind_act (findOrCreateOidcUser email random now) (\<lambda>u.
     then_act (guard_act (u_disabled u = None) (ApiError 403 ''sso_user_disabled'' ''This account has been suspended''))
     (bind_act (createSession (oe_api env) token (u_id u) (oe_ttl env) now) (\<lambda>session.
      return_act (SsoSession (base @ ''/'') [sessionCookie (oe_production env) (oe_cookie_date env) session, CLEAR_STATE_COOKIE]))))"

definition verified_email :: "oidc_env \<Rightarrow> sso_request \<Rightarrow> string \<Rightarrow> jv \<Rightarrow> ms \<Rightarrow> db \<Rightarrow> string res" where
  "verified_email env req grant nonce now d =
     (case getOidcConfig env d of None \<Rightarrow> Inl sso_not_configured | Some config \<Rightarrow>
     (case discover env (cfg_text config ''issuer'') of Inl e \<Rightarrow> Inl e | Inr disc \<Rightarrow>
     (case exchange_code env disc config (redirectUriFor env req config) grant of Inl e \<Rightarrow> Inl e | Inr idToken \<Rightarrow>
     (case verifyIdToken env idToken disc (cfg_text config ''client_id'') (cfg_text config ''client_secret'') (Some nonce) now of Inl e \<Rightarrow> Inl e | Inr claims \<Rightarrow>
      claims_email claims))))"

definition oidcCallbackCore :: "oidc_env \<Rightarrow> resolved \<Rightarrow> sso_request \<Rightarrow> string \<Rightarrow> string \<Rightarrow> ms \<Rightarrow> (db, sso_answer) act" where
  "oidcCallbackCore env r req random token now =
     bind_act (lift_res (requireFeature r ''sso'')) (\<lambda>_.
     then_act (guard_act (callback_query_ok req) ZodError)
     (if (case query_param req ''error'' of None \<Rightarrow> False | Some e \<Rightarrow> e \<noteq> []) then return_act (SsoFail 401 ''sso_provider_error'')
      else case (query_param req ''code'', query_param req ''state'') of
         (Some grant, Some st) \<Rightarrow>
            (case state_cookie (sr_cookie req) of
               None \<Rightarrow> return_act (SsoFail 401 ''sso_state_mismatch'')
             | Some cookieState \<Rightarrow>
                 if cookieState \<noteq> st then return_act (SsoFail 401 ''sso_state_mismatch'')
                 else bind_act (lift_res (readState env (Some cookieState) now)) (\<lambda>parsed. case parsed of
                     None \<Rightarrow> return_act (SsoFail 401 ''sso_state_expired'')
                   | Some nonce \<Rightarrow>
                       bind_act (gets_act (verified_email env req grant nonce now)) (\<lambda>res.
                       bind_act (lift_res res) (\<lambda>email.
                       sso_login env (redirectBase env req) email random token now))))
       | _ \<Rightarrow> return_act (SsoFail 400 ''sso_missing_params'')))"

definition getOidcStatus :: "oidc_env \<Rightarrow> db \<Rightarrow> jv" where
  "getOidcStatus env d =
     (case getOidcConfig env d of
        None \<Rightarrow> JObj [(''enabled'', JBool False), (''client_secret_set'', JBool False)]
      | Some c \<Rightarrow> JObj [(''enabled'', JBool True), (''issuer'', get_prop c ''issuer''), (''client_id'', get_prop c ''client_id''),
          (''scopes'', get_prop c ''scopes''), (''redirect_uri'', coalesce (get_prop c ''redirect_uri'') JNull), (''client_secret_set'', JBool True)])"

definition saveOidcSettings :: "oidc_env \<Rightarrow> resolved \<Rightarrow> jv \<Rightarrow> (db, jv) act" where
  "saveOidcSettings env r body =
     bind_act (lift_res (requireFeature r ''sso'')) (\<lambda>_.
     case OidcConfigSchema (oe_schema env) body of
       None \<Rightarrow> throw ZodError
     | Some v \<Rightarrow> then_act (saveOidcConfig v) (gets_act (getOidcStatus env)))"

section \<open>State and ID tokens\<close>

lemma last_index_split: "last_index_of_char c s = Some i \<Longrightarrow> s = take i s @ c # drop (i + 1) s \<and> c \<notin> set (drop (i + 1) s)"
proof (induction s arbitrary: i)
  case (Cons x s)
  then show ?case by (cases i) (auto simp: last_index_of_char_None split: option.splits if_splits)
qed simp

lemma readState_SomeD:
  assumes "readState env (Some s) now = Inr (Some n)"
  obtains p parsed where "s = p @ ''.'' @ hmac_b64u (oe_api env) (oe_master env) p" and "parseJson (oe_api env) (unb64u (oe_api env) p) = Some parsed"
    and "n = get_prop parsed ''n''" and "\<not> too_old now (to_number (get_prop parsed ''iat''))" and "truthy n"
proof -
  obtain i where i: "last_index_of_char (CHR ''.'') s = Some i"
    using assms by (auto simp: readState_def split: option.splits)
  from last_index_split [OF i] have s: "s = take i s @ ''.'' @ drop (i + 1) s" by simp
  have "drop (i + 1) s = hmac_b64u (oe_api env) (oe_master env) (take i s)"
    "\<exists>parsed. parseJson (oe_api env) (unb64u (oe_api env) (take i s)) = Some parsed \<and> n = get_prop parsed ''n''
       \<and> \<not> too_old now (to_number (get_prop parsed ''iat'')) \<and> truthy n"
    using assms i by (auto simp: readState_def Let_def split: nat.splits if_splits option.splits)
  with s that show thesis by metis
qed

text \<open>The state of a single sign-on round trip is accepted, with its nonce, exactly for ten minutes, and nothing is accepted
  that does not carry the MAC of its payload under the master key.\<close>

theorem readState_issueState:
  assumes codec: "parseJson (oe_api env) (unb64u (oe_api env) (b64u (oe_api env) (stringify (oe_api env) (state_payload nonce now)))) = Some (state_payload nonce now)"
    and nodot: "\<And>k x. CHR ''.'' \<notin> set (hmac_b64u (oe_api env) k x)" and full: "b64u (oe_api env) (stringify (oe_api env) (state_payload nonce now)) \<noteq> []"
    and "nonce \<noteq> []" and "now \<noteq> 0"
  shows "readState env (Some (issueState env nonce now)) later = Inr (if later - now \<le> STATE_TTL then Some (JStr nonce) else None)
    \<and> (readState env (Some s) later = Inr (Some n) \<longrightarrow> (\<exists>p. s = p @ ''.'' @ hmac_b64u (oe_api env) (oe_master env) p))"
proof -
  let ?p = "b64u (oe_api env) (stringify (oe_api env) (state_payload nonce now))"
  let ?m = "hmac_b64u (oe_api env) (oe_master env) ?p"
  have i: "last_index_of_char (CHR ''.'') (?p @ ''.'' @ ?m) = Some (length ?p)"
    using last_index_of_char_append [OF nodot] by simp
  obtain k where k: "length ?p = Suc k" using full by (cases ?p) auto
  have old: "too_old later (Fin (rat_of_int now)) \<longleftrightarrow> \<not> later - now \<le> STATE_TTL"
    using of_int_less_iff [of STATE_TTL "later - now", where 'a = rat] by (simp add: too_old_def not_le)
  have pr: "get_prop (state_payload nonce now) ''n'' = JStr nonce" "get_prop (state_payload nonce now) ''iat'' = JNum (Fin (rat_of_int now))"
    "\<not> nullish (state_payload nonce now)" by (simp_all add: state_payload_def)
  have "readState env (Some (issueState env nonce now)) later = Inr (if later - now \<le> STATE_TTL then Some (JStr nonce) else None)"
    using assms(4,5) by (simp add: readState_def issueState_def Let_def i [simplified] k [symmetric] codec pr old split: nat.split) (simp add: full)
  then show ?thesis by (metis readState_SomeD)
qed

lemma verifyIdToken_InrE:
  assumes "verifyIdToken env t disc cid sec nonce now = Inr claims"
  obtains p0 p1 p2 header where "js_split (CHR ''.'') t = [p0, p1, p2]" and "parseJson (oe_api env) (unb64u (oe_api env) p0) = Some header"
    and "parseJson (oe_api env) (unb64u (oe_api env) p1) = Some claims"
    and "signature_valid env disc sec header (p0 @ ''.'' @ p1) (unb64u (oe_api env) p2) = Inr True"
    and "\<not> reached (now div 1000) (exp_grace env (get_prop claims ''exp''))"
    and "strip_slash (issuer disc) = strip_slash (js_string env (coalesce (get_prop claims ''iss'') (JStr [])))"
    and "JStr cid \<in> set (audiences (get_prop claims ''aud''))" and "case nonce of None \<Rightarrow> True | Some n \<Rightarrow> strict_eq (get_prop claims ''nonce'') n"
proof -
  obtain p0 p1 p2 where sp: "js_split (CHR ''.'') t = [p0, p1, p2]"
    using assms by (auto simp: verifyIdToken_def split: list.splits)
  obtain header cl where ph: "parseJson (oe_api env) (unb64u (oe_api env) p0) = Some header" "parseJson (oe_api env) (unb64u (oe_api env) p1) = Some cl"
    using assms by (auto simp: verifyIdToken_def sp split: option.splits)
  show thesis
    using assms that [OF sp ph(1)] ph(2)
    by (auto simp: verifyIdToken_def sp ph split: sum.splits if_splits option.splits)
qed

lemma three_parts:
  assumes "js_split d (p0 @ [d] @ p1 @ [d] @ p2) = [a0, a1, a2]"
  shows "a0 = p0 \<and> a1 = p1 \<and> a2 = p2"
proof -
  have "count_list (p0 @ [d] @ p1 @ [d] @ p2) d = 2" using length_js_split [of d "p0 @ [d] @ p1 @ [d] @ p2"] assms by simp
  then have "d \<notin> set p0" "d \<notin> set p1" "d \<notin> set p2" by (auto simp: count_list_0_iff)
  then show ?thesis using assms by (simp add: js_split_append js_split_single)
qed

lemma oidcCallbackCore_sessionE:
  assumes "oidcCallbackCore env r req random token now d = (Inr (SsoSession loc cookies), d')"
  obtains grant st nonce email where "hasFeature r ''sso''" and "query_param req ''state'' = Some st" and "state_cookie (sr_cookie req) = Some st"
    and "readState env (Some st) now = Inr (Some nonce)" and "query_param req ''code'' = Some grant" and "verified_email env req grant nonce now d = Inr email"
    and "sso_login env (redirectBase env req) email random token now d = (Inr (SsoSession loc cookies), d')"
  using assms
  by (auto simp: oidcCallbackCore_def requireFeature_def bind_lift then_guard return_act_apply bind_gets
      split: if_splits option.splits sum.splits)

lemma verified_email_InrE:
  assumes "verified_email env req grant nonce now d = Inr email"
  obtains config disc t claims where "getOidcConfig env d = Some config" and "discover env (cfg_text config ''issuer'') = Inr disc"
    and "exchange_code env disc config (redirectUriFor env req config) grant = Inr t"
    and "verifyIdToken env t disc (cfg_text config ''client_id'') (cfg_text config ''client_secret'') (Some nonce) now = Inr claims"
    and "get_prop claims ''email'' = JStr email" and "get_prop claims ''email_verified'' \<noteq> JBool False"
  using assms by (auto simp: verified_email_def claims_email_def split: option.splits sum.splits jv.splits if_splits)

lemma sso_login_InrE:
  assumes "sso_login env base email random token now d = (Inr ans, d')"
  obtains u where "u \<in> set (users d')" and "toLowerCase (u_email u) = toLowerCase email" and "u_disabled u = None"
    and "sessions d' = sessions d @ [\<lparr>se_user = u_id u, se_hash = sha256 (oe_api env) token, se_expires = now + \<lfloor>session_ttl (oe_ttl env) * 86400000\<rfloor>\<rparr>]"
proof -
  obtain u t where f: "findOrCreateOidcUser email random now d = (Inr u, t)" and en: "u_disabled u = None"
    and cs: "bind_act (createSession (oe_api env) token (u_id u) (oe_ttl env) now) (\<lambda>session.
      return_act (SsoSession (base @ ''/'') [sessionCookie (oe_production env) (oe_cookie_date env) session, CLEAR_STATE_COOKIE])) t = (Inr ans, d')"
    using assms by (auto simp: sso_login_def then_guard elim!: bind_act_InrE split: if_splits)
  have d': "d' = t\<lparr>sessions := sessions t @ [\<lparr>se_user = u_id u, se_hash = sha256 (oe_api env) token, se_expires = now + \<lfloor>session_ttl (oe_ttl env) * 86400000\<rfloor>\<rparr>]\<rparr>"
    using cs by (auto simp: createSession_def Let_def act_defs split: if_splits)
  have "u \<in> set (users t) \<and> toLowerCase (u_email u) = toLowerCase email \<and> sessions t = sessions d"
  proof (cases "find (same_email email) (users d)")
    case None
    then show ?thesis using f by (auto simp: findOrCreateOidcUser_def bind_gets bind_fresh_id then_modify return_act_apply Let_def)
  next
    case (Some v)
    then have "v \<in> set (users d)" "same_email email v" using find_Some_set by fastforce+
    then show ?thesis
      using f Some by (auto simp: findOrCreateOidcUser_def bind_gets then_modify return_act_apply set_update_where same_email_def split: if_splits)
  qed
  with en that [of u] show thesis by (simp add: d')
qed


text \<open>The nonce of the signed state never reaches the identity provider, since the authorization request has no such parameter, and yet the callback
  refuses every ID token without it: a provider that answers exactly what it was asked never logs anybody in.\<close>

theorem nonce_never_sent:
  assumes "parseJson (oe_api env) (unb64u (oe_api env) p1) = Some claims" and "get_prop claims ''nonce'' = JUndef" and "truthy nonce"
  shows "''nonce'' \<notin> set (map fst (auth_params config uri st))
    \<and> (\<exists>e. verifyIdToken env (p0 @ ''.'' @ p1 @ ''.'' @ p2) disc cid sec (Some nonce) now = Inl e)"
proof -
  have "\<nexists>c. verifyIdToken env (p0 @ ''.'' @ p1 @ ''.'' @ p2) disc cid sec (Some nonce) now = Inr c"
  proof
    assume "\<exists>c. verifyIdToken env (p0 @ ''.'' @ p1 @ ''.'' @ p2) disc cid sec (Some nonce) now = Inr c"
    then obtain c where v: "verifyIdToken env (p0 @ ''.'' @ p1 @ ''.'' @ p2) disc cid sec (Some nonce) now = Inr c" by blast
    obtain a0 a1 a2 where sp: "js_split (CHR ''.'') (p0 @ ''.'' @ p1 @ ''.'' @ p2) = [a0, a1, a2]"
      and pc: "parseJson (oe_api env) (unb64u (oe_api env) a1) = Some c" and nc: "strict_eq (get_prop c ''nonce'') nonce"
      by (rule verifyIdToken_InrE [OF v]) simp
    have nodots: "a0 = p0 \<and> a1 = p1 \<and> a2 = p2" using three_parts [OF sp] by blast
    then show False using nc assms pc by (cases nonce) auto
  qed
  then show ?thesis by (auto simp: auth_params_def split: sum.splits) (metis sum.exhaust)
qed

section \<open>Witnesses\<close>

definition demo_claims :: jv where
  "demo_claims = JObj [(''exp'', JNum (Fin 100)), (''iss'', JStr ''i''), (''aud'', JStr ''c''), (''nonce'', JStr ''n''), (''email'', JStr ''a@b'')]"

definition demo_codec :: crypto_api where
  "demo_codec = demo_api\<lparr>b64u := id, unb64u := id, stringify := (\<lambda>_. ''s''),
     parseJson := (\<lambda>t. if t = ''s'' then Some (state_payload ''n'' 1) else if t = ''h'' then Some (JObj [(''alg'', JStr ''HS256'')])
       else if t = ''c'' then Some demo_claims else if t = ''d'' then Some (JObj []) else None)\<rparr>"

definition demo_oidc :: oidc_env where
  "demo_oidc = \<lparr>oe_api = demo_codec, oe_schema = demo_schema ''h'', oe_master = ''k'',
     oe_get = (\<lambda>_. Inr \<lparr>ha_ok = True, ha_status = 200, ha_json = Inr (JObj [(''authorization_endpoint'', JStr ''a''), (''token_endpoint'', JStr ''t''),
       (''jwks_uri'', JStr ''j'')])\<rparr>),
     oe_post = (\<lambda>_ _. Inr \<lparr>ha_ok = True, ha_status = 200, ha_json = Inr (JObj [(''id_token'', JStr ''h.c.g'')])\<rparr>),
     oe_rsa = (\<lambda>_ _ _ _. None), oe_hmac = (\<lambda>_ _. ''g''), oe_url = (\<lambda>u _. Inr u), oe_text = (\<lambda>_. []), oe_cookie_date = (\<lambda>_. []),
     oe_production = True, oe_ttl = NaN, oe_dashboard = None\<rparr>"

definition demo_sso_db :: db where
  "demo_sso_db = empty_db\<lparr>settings := [(''oidc'', JObj [(''issuer'', JStr ''i''), (''client_id'', JStr ''c''), (''client_secret'', JStr ''s'')])]\<rparr>"

definition demo_callback :: sso_request where
  "demo_callback = \<lparr>sr_query = [(''code'', ''x''), (''state'', ''s.m'')], sr_cookie = Some ''papi_oidc_state=s.m'', sr_origin = ''o'', sr_override = None\<rparr>"

theorem readState_issueState_witness:
  "readState demo_oidc (Some (issueState demo_oidc ''n'' 1)) 600001 = Inr (Some (JStr ''n''))
   \<and> readState demo_oidc (Some (issueState demo_oidc ''n'' 1)) 600002 = Inr None"
proof -
  have "parseJson (oe_api demo_oidc) (unb64u (oe_api demo_oidc) (b64u (oe_api demo_oidc) (stringify (oe_api demo_oidc) (state_payload ''n'' 1)))) = Some (state_payload ''n'' 1)"
    "\<And>k x. CHR ''.'' \<notin> set (hmac_b64u (oe_api demo_oidc) k x)"
    "b64u (oe_api demo_oidc) (stringify (oe_api demo_oidc) (state_payload ''n'' 1)) \<noteq> []"
    by (simp_all add: demo_oidc_def demo_codec_def demo_api_def)
  note r = readState_issueState [of demo_oidc "''n''" 1, OF this]
  show ?thesis using r [of 600001] r [of 600002] by (auto simp: STATE_TTL_def)
qed

theorem nonce_never_sent_witness:
  "\<exists>e. verifyIdToken demo_oidc ''h.d.g'' \<lparr>authorization_endpoint = ''a'', token_endpoint = ''t'', jwks_uri = ''j'', issuer = ''i''\<rparr> ''c'' ''s'' (Some (JStr ''n'')) 1 = Inl e"
  using nonce_never_sent [of demo_oidc "''d''" "JObj []" "JStr ''n''" JNull "[]" "[]" "''h''" "''g''"
      "\<lparr>authorization_endpoint = ''a'', token_endpoint = ''t'', jwks_uri = ''j'', issuer = ''i''\<rparr>" "''c''" "''s''" 1]
  by (simp add: demo_oidc_def demo_codec_def demo_api_def)

lemma demo_config: "getOidcConfig demo_oidc demo_sso_db = Some (JObj [(''issuer'', JStr ''i''), (''client_id'', JStr ''c''), (''client_secret'', JStr ''s''),
     (''scopes'', JArr [JStr ''openid'', JStr ''email'', JStr ''profile''])])"
  by (simp add: getOidcConfig_def setting_def demo_sso_db_def OidcConfigSchema_def z_object_def z_url_def z_default_def z_optional_def
      demo_oidc_def demo_schema_def)

lemma demo_discovery: "discover demo_oidc ''i'' = Inr \<lparr>authorization_endpoint = ''a'', token_endpoint = ''t'', jwks_uri = ''j'', issuer = ''i''\<rparr>"
  by (simp add: discover_def demo_oidc_def missing_endpoint_def cfg_text_def js_string_def coalesce_def strip_slash_def)

lemma demo_token: "verifyIdToken demo_oidc ''h.c.g'' \<lparr>authorization_endpoint = ''a'', token_endpoint = ''t'', jwks_uri = ''j'', issuer = ''i''\<rparr> ''c'' ''s'' (Some (JStr ''n'')) 2 = Inr demo_claims"
  by (simp add: verifyIdToken_def signature_valid_def Let_def js_string_def RSA_HASH_def inherited_def demo_oidc_def demo_codec_def demo_api_def demo_claims_def
      exp_grace_def reached_def coalesce_def strip_slash_def audiences_def)

lemma demo_verified: "verified_email demo_oidc demo_callback ''x'' (JStr ''n'') 2 demo_sso_db = Inr ''a@b''"
proof -
  have "exchange_code demo_oidc disc config uri ''x'' = Inr ''h.c.g''" for disc config uri
    by (simp add: exchange_code_def demo_oidc_def)
  moreover have "claims_email demo_claims = Inr ''a@b''" by (simp add: claims_email_def demo_claims_def)
  ultimately show ?thesis
    by (simp add: verified_email_def demo_config cfg_text_def demo_discovery demo_token)
qed

lemma demo_state: "readState demo_oidc (Some ''s.m'') 2 = Inr (Some (JStr ''n''))"
  by (simp add: readState_def demo_oidc_def demo_codec_def demo_api_def state_payload_def too_old_def STATE_TTL_def)


end
