(* ===== verification/Session_Store.thy ===== *)
theory Session_Store
  imports Snapshots
begin

text \<open>
  The store for short-lived JSON documents (\<open>lib/redis.ts\<close>): login sessions that may be used once and
  device flows that are polled under a lease.  The module has two implementations behind every function: a map with
  absolute expiry times (\<open>useMemoryRedis\<close>) and commands or Lua scripts sent to a Redis server.  Both are modelled, the
  second over the server's primitives \<open>GET\<close>, \<open>DEL\<close>, \<open>PTTL\<close> and \<open>PSETEX\<close> as parameters.
\<close>

section \<open>Documents\<close>

text \<open>\<open>JSON.parse(JSON.stringify(v))\<close>: absent members disappear, absent elements and numbers that are not finite become \<open>null\<close>.\<close>

fun json_copy :: "jv \<Rightarrow> jv" where
  "json_copy JUndef = JNull"
| "json_copy (JNum n) = (case n of Fin x \<Rightarrow> JNum n | _ \<Rightarrow> JNull)"
| "json_copy (JArr vs) = JArr (map json_copy vs)"
| "json_copy (JObj ps) = JObj (map (\<lambda>(k, v). (k, json_copy v)) (filter (\<lambda>p. snd p \<noteq> JUndef) ps))"
| "json_copy v = v"

definition with_member :: "string \<Rightarrow> jv \<Rightarrow> jv \<Rightarrow> jv" where
  "with_member k w v = JObj (set_prop k w (record_of v))"

text \<open>\<open>typeof x === 'number' && x > now\<close>.\<close>

definition after :: "jv \<Rightarrow> rat \<Rightarrow> bool" where
  "after v now = (case v of JNum n \<Rightarrow> num_less (Fin now) n | _ \<Rightarrow> False)"

section \<open>The map\<close>

type_synonym memory = "string \<rightharpoonup> jv \<times> jsnum"

definition expired :: "jsnum \<Rightarrow> rat \<Rightarrow> bool" where
  "expired e now = (case e of Fin x \<Rightarrow> x \<le> now | NegInf \<Rightarrow> True | _ \<Rightarrow> False)"

definition publishConfigVersion :: "jv \<Rightarrow> string \<Rightarrow> memory \<Rightarrow> memory" where
  "publishConfigVersion version checksum m =
     m(''papi:config:latest'' \<mapsto> (json_copy (JObj [(''version'', version), (''checksum'', JStr checksum)]), PosInf))"

definition setJsonWithTtl :: "string \<Rightarrow> jv \<Rightarrow> rat \<Rightarrow> rat \<Rightarrow> memory \<Rightarrow> memory" where
  "setJsonWithTtl key v ttlSeconds now m = m(key \<mapsto> (json_copy v, Fin (now + ttlSeconds * 1000)))"

definition setJsonUntilMs :: "string \<Rightarrow> jv \<Rightarrow> rat \<Rightarrow> memory \<Rightarrow> memory" where
  "setJsonUntilMs key v expiresAtMs m = m(key \<mapsto> (json_copy v, Fin expiresAtMs))"

definition consumeJsonOnce :: "string \<Rightarrow> rat \<Rightarrow> memory \<Rightarrow> jv option \<times> memory" where
  "consumeJsonOnce key now m =
     (case m key of None \<Rightarrow> (None, m) | Some (v, e) \<Rightarrow> (if expired e now then None else Some v, m(key := None)))"

datatype due_status = Missing | TooSoon jv rat | Due jv rat

text \<open>\<open>Math.max(1, Math.ceil((expires - now) / 1000))\<close>.\<close>

definition seconds_left :: "rat \<Rightarrow> rat" where
  "seconds_left ms = rat_of_int (max 1 \<lceil>ms / 1000\<rceil>)"

definition left_until :: "jsnum \<Rightarrow> rat \<Rightarrow> rat" where
  "left_until e now = (case e of Fin x \<Rightarrow> x - now | _ \<Rightarrow> 0)"

definition consumeJsonWhenDue :: "string \<Rightarrow> rat \<Rightarrow> memory \<Rightarrow> due_status \<times> memory" where
  "consumeJsonWhenDue key now m =
     (case m key of None \<Rightarrow> (Missing, m)
      | Some (v, e) \<Rightarrow>
          if expired e now then (Missing, m(key := None))
          else if after (get_prop v ''next_poll_at_ms'') now then (TooSoon v (seconds_left (left_until e now)), m)
          else (Due v (seconds_left (left_until e now)), m(key := None)))"

datatype lease_status = LeaseMissing | LeaseTooSoon jv rat | Leased jv rat

definition expiry_ms :: "jsnum \<Rightarrow> rat" where
  "expiry_ms e = (case e of Fin x \<Rightarrow> x | _ \<Rightarrow> 0)"

definition leased_doc :: "jv \<Rightarrow> rat \<Rightarrow> jv" where
  "leased_doc v until = with_member ''lease_until_ms'' (JNum (Fin until)) v"

definition busy :: "jv \<Rightarrow> rat \<Rightarrow> bool" where
  "busy v now \<longleftrightarrow> after (get_prop v ''next_poll_at_ms'') now \<or> after (get_prop v ''lease_until_ms'') now"

definition leaseJsonWhenDue :: "string \<Rightarrow> rat \<Rightarrow> rat \<Rightarrow> memory \<Rightarrow> lease_status \<times> memory" where
  "leaseJsonWhenDue key leaseMs now m =
     (case m key of None \<Rightarrow> (LeaseMissing, m)
      | Some (v, e) \<Rightarrow>
          if expired e now then (LeaseMissing, m(key := None))
          else if busy v now then (LeaseTooSoon v (expiry_ms e), m)
          else (Leased (leased_doc v (now + leaseMs)) (expiry_ms e), m(key \<mapsto> (json_copy (leased_doc v (now + leaseMs)), e))))"

datatype update_mode = SetDoc | DeleteDoc

text \<open>\<open>{ ...value, lease_until_ms: undefined }\<close> drops the lease when it is written.\<close>

definition unleased :: "jv \<Rightarrow> jv" where
  "unleased v = json_copy (with_member ''lease_until_ms'' JUndef v)"

definition updateLeasedJson :: "string \<Rightarrow> jv \<Rightarrow> rat option \<Rightarrow> update_mode \<Rightarrow> rat \<Rightarrow> memory \<Rightarrow> memory" where
  "updateLeasedJson key v expiresAtMs mode now m =
     (case mode of
        DeleteDoc \<Rightarrow> m(key := None)
      | SetDoc \<Rightarrow> (case expiresAtMs of
            None \<Rightarrow> m(key := None)
          | Some x \<Rightarrow> if x = 0 \<or> x \<le> now then m(key := None) else m(key \<mapsto> (unleased v, Fin x))))"

section \<open>The server\<close>

text \<open>The primitives the commands and scripts use, at a server time: values are documents, times milliseconds.\<close>

record 'r redis_api =
  r_get :: "rat \<Rightarrow> string \<Rightarrow> 'r \<Rightarrow> jv option"
  r_del :: "string \<Rightarrow> 'r \<Rightarrow> 'r"
  r_pttl :: "rat \<Rightarrow> string \<Rightarrow> 'r \<Rightarrow> rat"
  r_psetex :: "rat \<Rightarrow> string \<Rightarrow> rat \<Rightarrow> jv \<Rightarrow> 'r \<Rightarrow> 'r"

definition redis_setJsonWithTtl :: "'r redis_api \<Rightarrow> string \<Rightarrow> jv \<Rightarrow> rat \<Rightarrow> rat \<Rightarrow> 'r \<Rightarrow> 'r" where
  "redis_setJsonWithTtl api key v ttlSeconds now = r_psetex api now key (ttlSeconds * 1000) (json_copy v)"

definition redis_setJsonUntilMs :: "'r redis_api \<Rightarrow> string \<Rightarrow> jv \<Rightarrow> rat \<Rightarrow> rat \<Rightarrow> 'r \<Rightarrow> 'r" where
  "redis_setJsonUntilMs api key v expiresAtMs now = r_psetex api now key (max 1 (expiresAtMs - now)) (json_copy v)"

definition redis_consumeJsonOnce :: "'r redis_api \<Rightarrow> string \<Rightarrow> rat \<Rightarrow> 'r \<Rightarrow> jv option \<times> 'r" where
  "redis_consumeJsonOnce api key now s =
     (case r_get api now key s of None \<Rightarrow> (None, s) | Some v \<Rightarrow> (Some v, r_del api key s))"

definition redis_consumeJsonWhenDue :: "'r redis_api \<Rightarrow> string \<Rightarrow> rat \<Rightarrow> 'r \<Rightarrow> due_status \<times> 'r" where
  "redis_consumeJsonWhenDue api key now s =
     (case r_get api now key s of None \<Rightarrow> (Missing, s)
      | Some v \<Rightarrow>
          let ttl = r_pttl api now key s in
          if ttl \<le> 0 then (Missing, s)
          else if after (get_prop v ''next_poll_at_ms'') now then (TooSoon v (seconds_left ttl), s)
          else (Due v (seconds_left ttl), r_del api key s))"

definition redis_leaseJsonWhenDue :: "'r redis_api \<Rightarrow> string \<Rightarrow> rat \<Rightarrow> rat \<Rightarrow> 'r \<Rightarrow> lease_status \<times> 'r" where
  "redis_leaseJsonWhenDue api key leaseMs now s =
     (case r_get api now key s of None \<Rightarrow> (LeaseMissing, s)
      | Some v \<Rightarrow>
          let ttl = r_pttl api now key s in
          if ttl \<le> 0 then (LeaseMissing, s)
          else if busy v now then (LeaseTooSoon v (now + ttl), s)
          else let nv = leased_doc v (now + leaseMs) in (Leased nv (now + ttl), r_psetex api now key ttl (json_copy nv) s))"

definition redis_updateLeasedJson :: "'r redis_api \<Rightarrow> string \<Rightarrow> jv \<Rightarrow> rat option \<Rightarrow> update_mode \<Rightarrow> rat \<Rightarrow> 'r \<Rightarrow> 'r" where
  "redis_updateLeasedJson api key v expiresAtMs mode now s =
     (case mode of
        DeleteDoc \<Rightarrow> r_del api key s
      | SetDoc \<Rightarrow> (case expiresAtMs of
            None \<Rightarrow> r_del api key s
          | Some x \<Rightarrow> if x = 0 \<or> x \<le> now then r_del api key s else r_psetex api now key (x - now) (unleased v) s))"

section \<open>Sequences of calls\<close>

datatype call =
    SetTtl string jv rat
  | SetUntil string jv rat
  | Once string
  | WhenDue string
  | Lease string rat
  | Update string jv "rat option" update_mode

datatype answer = Done | OnceAnswer "jv option" | DueAnswer due_status | LeaseAnswer lease_status

fun memory_call :: "call \<Rightarrow> rat \<Rightarrow> memory \<Rightarrow> answer \<times> memory" where
  "memory_call (SetTtl k v ttl) now m = (Done, setJsonWithTtl k v ttl now m)"
| "memory_call (SetUntil k v x) now m = (Done, setJsonUntilMs k v x m)"
| "memory_call (Once k) now m = map_prod OnceAnswer id (consumeJsonOnce k now m)"
| "memory_call (WhenDue k) now m = map_prod DueAnswer id (consumeJsonWhenDue k now m)"
| "memory_call (Lease k l) now m = map_prod LeaseAnswer id (leaseJsonWhenDue k l now m)"
| "memory_call (Update k v x mode) now m = (Done, updateLeasedJson k v x mode now m)"

fun redis_call :: "'r redis_api \<Rightarrow> call \<Rightarrow> rat \<Rightarrow> 'r \<Rightarrow> answer \<times> 'r" where
  "redis_call api (SetTtl k v ttl) now s = (Done, redis_setJsonWithTtl api k v ttl now s)"
| "redis_call api (SetUntil k v x) now s = (Done, redis_setJsonUntilMs api k v x now s)"
| "redis_call api (Once k) now s = map_prod OnceAnswer id (redis_consumeJsonOnce api k now s)"
| "redis_call api (WhenDue k) now s = map_prod DueAnswer id (redis_consumeJsonWhenDue api k now s)"
| "redis_call api (Lease k l) now s = map_prod LeaseAnswer id (redis_leaseJsonWhenDue api k l now s)"
| "redis_call api (Update k v x mode) now s = (Done, redis_updateLeasedJson api k v x mode now s)"

fun memory_run :: "(rat \<times> call) list \<Rightarrow> memory \<Rightarrow> answer list \<times> memory" where
  "memory_run [] m = ([], m)"
| "memory_run ((t, c) # cs) m = (let (a, m1) = memory_call c t m; (as, m2) = memory_run cs m1 in (a # as, m2))"

fun redis_run :: "'r redis_api \<Rightarrow> (rat \<times> call) list \<Rightarrow> 'r \<Rightarrow> answer list \<times> 'r" where
  "redis_run api [] s = ([], s)"
| "redis_run api ((t, c) # cs) s = (let (a, s1) = redis_call api c t s; (as, s2) = redis_run api cs s1 in (a # as, s2))"

text \<open>What the server documents: a key lives until its deadline, \<open>PTTL\<close> is the time that remains, \<open>PSETEX\<close> sets value and deadline.
  \<open>view\<close> reads the values and deadlines off a server state.\<close>

definition redis_laws :: "'r redis_api \<Rightarrow> ('r \<Rightarrow> string \<rightharpoonup> jv \<times> rat) \<Rightarrow> bool" where
  "redis_laws api view \<longleftrightarrow>
     (\<forall>now k s. r_get api now k s = (case view s k of None \<Rightarrow> None | Some (v, x) \<Rightarrow> if x \<le> now then None else Some v))
   \<and> (\<forall>now k s v x. view s k = Some (v, x) \<and> now < x \<longrightarrow> r_pttl api now k s = x - now)
   \<and> (\<forall>k s. view (r_del api k s) = (view s)(k := None))
   \<and> (\<forall>now k t v s. 0 < t \<longrightarrow> view (r_psetex api now k t v s) = (view s)(k \<mapsto> (v, now + t)))"

text \<open>What both implementations agree on at a time: the documents that have not expired, with their deadlines.\<close>

definition live :: "rat \<Rightarrow> (jv \<times> rat) option \<Rightarrow> (jv \<times> rat) option" where
  "live now o' = (case o' of None \<Rightarrow> None | Some (v, x) \<Rightarrow> if x \<le> now then None else Some (v, x))"

definition deadlines :: "memory \<Rightarrow> string \<rightharpoonup> jv \<times> rat" where
  "deadlines m k = (case m k of Some (v, Fin x) \<Rightarrow> Some (v, x) | _ \<Rightarrow> None)"

definition timed :: "memory \<Rightarrow> bool" where
  "timed m \<longleftrightarrow> (\<forall>k v e. m k = Some (v, e) \<longrightarrow> (\<exists>x. e = Fin x))"

definition agree :: "rat \<Rightarrow> (string \<rightharpoonup> jv \<times> rat) \<Rightarrow> memory \<Rightarrow> bool" where
  "agree now w m \<longleftrightarrow> timed m \<and> (\<forall>k. live now (w k) = live now (deadlines m k))"

fun well_timed :: "rat \<Rightarrow> (rat \<times> call) list \<Rightarrow> bool" where
  "well_timed t0 [] = True"
| "well_timed t0 ((t, c) # cs) \<longleftrightarrow> t0 \<le> t
     \<and> (case c of SetTtl k v ttl \<Rightarrow> 0 < ttl | SetUntil k v x \<Rightarrow> t + 1 \<le> x | _ \<Rightarrow> True) \<and> well_timed t cs"

lemma live_later: "t \<le> t' \<Longrightarrow> live t a = live t b \<Longrightarrow> live t' a = live t' b"
  by (auto simp: live_def split: option.splits prod.splits if_splits)

lemma agree_later: "agree t w m \<Longrightarrow> t \<le> t' \<Longrightarrow> agree t' w m"
  unfolding agree_def using live_later by blast

lemma agree_delete: "agree t w m \<Longrightarrow> agree t (w(k := None)) (m(k := None))"
  by (auto simp: agree_def timed_def deadlines_def)

lemma agree_put: "agree t w m \<Longrightarrow> agree t (w(k \<mapsto> (v, x))) (m(k \<mapsto> (v, Fin x)))"
  by (auto simp: agree_def timed_def deadlines_def)

lemma agree_drop_expired: "agree t w m \<Longrightarrow> m k = Some (v, Fin x) \<Longrightarrow> x \<le> t \<Longrightarrow> agree t w (m(k := None))"
  by (auto simp: agree_def timed_def deadlines_def live_def)

text \<open>A key the server has is a key the map has, with the same document and deadline.\<close>

lemma agree_lookup:
  assumes "redis_laws api view" and "agree now (view s) m"
  obtains (none) "r_get api now k s = None" and "m k = None"
    | (gone) v x where "r_get api now k s = None" and "m k = Some (v, Fin x)" and "x \<le> now"
    | (found) v x where "r_get api now k s = Some v" and "m k = Some (v, Fin x)" and "now < x" and "r_pttl api now k s = x - now"
proof -
  have g: "r_get api now k s = map_option fst (live now (view s k))"
    using assms(1) by (auto simp: redis_laws_def live_def split: option.splits)
  have l: "live now (view s k) = live now (deadlines m k)" and t: "\<And>v e. m k = Some (v, e) \<Longrightarrow> \<exists>x. e = Fin x"
    using assms(2) by (auto simp: agree_def timed_def)
  show thesis
  proof (cases "m k")
    case None
    then show thesis using none g l by (simp add: live_def deadlines_def)
  next
    case (Some p)
    then obtain v x where m: "m k = Some (v, Fin x)" using t by (cases p) fastforce
    show thesis
    proof (cases "x \<le> now")
      case True
      then show thesis using gone [OF _ m] g l m by (simp add: live_def deadlines_def)
    next
      case False
      then have lv: "live now (view s k) = Some (v, x)" using l m by (simp add: live_def deadlines_def)
      then have "view s k = Some (v, x)" by (auto simp: live_def split: option.splits prod.splits if_splits)
      then have "r_pttl api now k s = x - now" using assms(1) False by (simp add: redis_laws_def)
      then show thesis using found [OF _ m] g lv False by simp
    qed
  qed
qed

lemma call_agrees:
  assumes laws: "redis_laws api view" and ag: "agree now (view s) m"
    and "case c of SetTtl k v ttl \<Rightarrow> 0 < ttl | SetUntil k v x \<Rightarrow> now + 1 \<le> x | _ \<Rightarrow> True"
  shows "fst (redis_call api c now s) = fst (memory_call c now m) \<and> agree now (view (snd (redis_call api c now s))) (snd (memory_call c now m))"
proof -
  have del: "view (r_del api k s) = (view s)(k := None)" and put: "0 < t \<Longrightarrow> view (r_psetex api now k t v s) = (view s)(k \<mapsto> (v, now + t))" for k t v
    using laws by (simp_all add: redis_laws_def)
  show ?thesis
  proof (cases c)
    case (SetTtl k v ttl)
    then show ?thesis using assms(3) ag by (simp add: redis_setJsonWithTtl_def setJsonWithTtl_def put agree_put)
  next
    case (SetUntil k v x)
    then have "max 1 (x - now) = x - now" "0 < x - now" using assms(3) by auto
    then show ?thesis using SetUntil ag by (simp add: redis_setJsonUntilMs_def setJsonUntilMs_def put agree_put)
  next
    case (Once k)
    show ?thesis
      by (rule agree_lookup [OF laws ag, of k])
         (auto simp: Once redis_consumeJsonOnce_def consumeJsonOnce_def expired_def del ag agree_delete agree_drop_expired)
  next
    case (WhenDue k)
    show ?thesis
      by (rule agree_lookup [OF laws ag, of k])
         (auto simp: WhenDue redis_consumeJsonWhenDue_def consumeJsonWhenDue_def expired_def left_until_def Let_def del ag agree_delete agree_drop_expired)
  next
    case (Lease k l)
    show ?thesis
      by (rule agree_lookup [OF laws ag, of k])
         (auto simp: Lease redis_leaseJsonWhenDue_def leaseJsonWhenDue_def expired_def expiry_ms_def Let_def put ag agree_put agree_drop_expired)
  next
    case (Update k v x mode)
    then show ?thesis
      using ag by (auto simp: redis_updateLeasedJson_def updateLeasedJson_def del put agree_put agree_delete split: update_mode.splits option.splits)
  qed
qed


section \<open>Single use and exclusive leases\<close>

text \<open>Documents of a key that can still be consumed: the one stored now and the ones a sequence of calls stores.\<close>

fun stores :: "string \<Rightarrow> call \<Rightarrow> bool" where
  "stores k (SetTtl k' v ttl) = (k = k')"
| "stores k (SetUntil k' v x) = (k = k')"
| "stores k (Update k' v x mode) = (k = k')"
| "stores k _ = False"

fun used :: "string \<Rightarrow> (rat \<times> call) list \<Rightarrow> answer list \<Rightarrow> nat" where
  "used k ((t, Once k') # cs) (OnceAnswer (Some v) # as) = (if k = k' then 1 else 0) + used k cs as"
| "used k (c # cs) (a # as) = used k cs as"
| "used k _ _ = 0"

definition held :: "string \<Rightarrow> memory \<Rightarrow> nat" where
  "held k m = (case m k of None \<Rightarrow> 0 | Some _ \<Rightarrow> 1)"

lemma held_call:
  "held k (snd (memory_call c t m)) + used k [(t, c)] [fst (memory_call c t m)] \<le> held k m + (if stores k c then 1 else 0)"
  by (cases c)
     (auto simp: held_def setJsonWithTtl_def setJsonUntilMs_def consumeJsonOnce_def consumeJsonWhenDue_def leaseJsonWhenDue_def updateLeasedJson_def
        split: option.splits update_mode.splits)

lemma used_Cons: "used k ((t, c) # cs) (a # as) = used k [(t, c)] [a] + used k cs as"
  by (cases "(k, (t, c) # cs, a # as)" rule: used.cases) auto

text \<open>A stored login session is consumed at most once: over any sequence of calls, the successful consumptions of a key never
  outnumber the documents stored under it, so a state replayed by a browser is refused.\<close>

theorem consumed_at_most_once:
  "used k cs (fst (memory_run cs m)) \<le> held k m + length (filter (\<lambda>tc. stores k (snd tc)) cs)"
proof (induction cs arbitrary: m)
  case (Cons tc cs)
  obtain t c where tc: "tc = (t, c)" by fastforce
  have "used k (tc # cs) (fst (memory_run (tc # cs) m)) =
      used k [(t, c)] [fst (memory_call c t m)] + used k cs (fst (memory_run cs (snd (memory_call c t m))))"
    using used_Cons [of k t c cs "fst (memory_call c t m)"] by (simp add: tc split_beta Let_def del: used.simps)
  also have "\<dots> \<le> used k [(t, c)] [fst (memory_call c t m)] + held k (snd (memory_call c t m)) + length (filter (\<lambda>tc. stores k (snd tc)) cs)"
    using Cons.IH by (simp add: add.assoc)
  also have "\<dots> \<le> held k m + length (filter (\<lambda>tc. stores k (snd tc)) (tc # cs))"
    using held_call [of k c t m] by (auto simp: tc)
  finally show ?case .
qed simp

definition leased_until :: "string \<Rightarrow> rat \<Rightarrow> memory \<Rightarrow> bool" where
  "leased_until k u m \<longleftrightarrow> (case m k of None \<Rightarrow> True | Some (v, e) \<Rightarrow> get_prop v ''lease_until_ms'' = JNum (Fin u))"

lemma lookup_copy:
  "lookup_or_undef (map (\<lambda>(k, v). (k, json_copy v)) (filter (\<lambda>p. snd p \<noteq> JUndef) ps)) k = (if lookup_or_undef ps k = JUndef then
     lookup_or_undef (map (\<lambda>(k, v). (k, json_copy v)) (filter (\<lambda>p. snd p \<noteq> JUndef) ps)) k else json_copy (lookup_or_undef ps k))"
  by (induction ps) (auto split: prod.splits)

lemma get_leased: "get_prop (json_copy (leased_doc v u)) ''lease_until_ms'' = JNum (Fin u)"
  by (simp add: leased_doc_def with_member_def lookup_copy)

lemma leased_call:
  assumes "leased_until k u m" and "t < u" and "\<not> stores k c"
  shows "leased_until k u (snd (memory_call c t m))"
proof -
  have b: "busy v t" if "m k = Some (v, e)" for v e
    using assms(1,2) that by (simp add: leased_until_def busy_def after_def)
  show ?thesis
    using assms b
    by (cases c)
       (auto simp: leased_until_def setJsonWithTtl_def setJsonUntilMs_def consumeJsonOnce_def consumeJsonWhenDue_def leaseJsonWhenDue_def updateLeasedJson_def
          split: option.splits update_mode.splits if_splits)
qed

lemma leased_run:
  "leased_until k u m \<Longrightarrow> list_all (\<lambda>(t, c). t < u \<and> \<not> stores k c) cs \<Longrightarrow> leased_until k u (snd (memory_run cs m))"
proof (induction cs arbitrary: m)
  case (Cons tc cs)
  obtain t c where tc: "tc = (t, c)" by fastforce
  have "leased_until k u (snd (memory_call c t m))" using Cons.prems by (intro leased_call) (auto simp: tc)
  then have "leased_until k u (snd (memory_run cs (snd (memory_call c t m))))" using Cons by simp
  then show ?case by (simp add: tc split_beta Let_def)
qed simp

text \<open>A lease is exclusive: after it is granted and until it runs out, no other caller gets one, whatever is done to
  other keys and however often the same key is asked for, until the holder writes its document back.\<close>

theorem lease_exclusive:
  assumes "memory_call (Lease k l) t m = (LeaseAnswer (Leased v e), m1)"
    and "list_all (\<lambda>(t', c). t' < t + l \<and> \<not> stores k c) cs" and "t' < t + l"
  shows "fst (memory_call (Lease k l') t' (snd (memory_run cs m1))) \<noteq> LeaseAnswer (Leased v' e')"
proof -
  have "leased_until k (t + l) m1"
    using assms(1) by (auto simp: leaseJsonWhenDue_def leased_until_def get_leased split: option.splits if_splits)
  then have u: "leased_until k (t + l) (snd (memory_run cs m1))" using leased_run assms(2) by blast
  have "busy w t'" if "snd (memory_run cs m1) k = Some (w, x)" for w x
    using u assms(3) that by (simp add: leased_until_def busy_def after_def)
  then show ?thesis
    by (auto simp: leaseJsonWhenDue_def split: option.splits if_splits)
qed

section \<open>Witnesses\<close>

definition map_redis :: "(string \<rightharpoonup> jv \<times> rat) redis_api" where
  "map_redis = \<lparr>r_get = (\<lambda>now k s. case s k of None \<Rightarrow> None | Some (v, x) \<Rightarrow> if x \<le> now then None else Some v), r_del = (\<lambda>k s. s(k := None)),
     r_pttl = (\<lambda>now k s. case s k of None \<Rightarrow> -2 | Some (v, x) \<Rightarrow> x - now), r_psetex = (\<lambda>now k t v s. s(k \<mapsto> (v, now + t)))\<rparr>"

lemma map_redis_laws: "redis_laws map_redis id"
  by (auto simp: redis_laws_def map_redis_def)


theorem lease_exclusive_witness:
  "\<forall>v' e'. fst (memory_call (Lease ''k'' 30) 40 (snd (memory_call (Lease ''k'' 30) 20 [''k'' \<mapsto> (JObj [], Fin 900)]))) \<noteq> LeaseAnswer (Leased v' e')"
proof -
  obtain v e m1 where m1: "memory_call (Lease ''k'' 30) 20 [''k'' \<mapsto> (JObj [], Fin 900)] = (LeaseAnswer (Leased v e), m1)"
    by (simp add: leaseJsonWhenDue_def expired_def busy_def after_def)
  show ?thesis using lease_exclusive [OF m1, of "[]" 40] m1 by simp
qed

end
