(* ===== verification/Codex_Tokens.thy ===== *)
theory Codex_Tokens
  imports Oidc
begin

text \<open>
  OpenAI tokens (\<open>lib/codex/jwt.ts\<close>, \<open>lib/codex/constants.ts\<close>, \<open>lib/codex/auth-file.ts\<close>, \<open>lib/codex/accounts.ts\<close>): the origins
  the module talks to, verification of ID and access tokens against the cached key set, and the import of
  authentication files with refresh of expired tokens.  The state of these handlers is the key cache; the
  network, RSA verification, dates and base64/JSON codecs are fields of a parameter record.
\<close>

record codex_env =
  cx_api :: crypto_api
  cx_test :: bool
  cx_auth_override :: "string option"
  cx_chatgpt_override :: "string option"
  cx_get :: "string \<Rightarrow> nat \<Rightarrow> http_answer res"
  cx_post :: "string \<Rightarrow> (string \<times> string) list \<Rightarrow> http_answer res"
  cx_post_json :: "string \<Rightarrow> jv \<Rightarrow> http_answer res"
  cx_rsa :: "string \<Rightarrow> jv \<Rightarrow> string \<Rightarrow> bool res"
  cx_email :: "string \<Rightarrow> bool"
  cx_date :: "string \<Rightarrow> rat option"
  cx_iso :: "rat \<Rightarrow> string res"

definition the_default :: "'a \<Rightarrow> 'a option \<Rightarrow> 'a" where
  "the_default d o' = (case o' of None \<Rightarrow> d | Some x \<Rightarrow> x)"

section \<open>Origins\<close>

definition CODEX_CLIENT_ID :: string where
  "CODEX_CLIENT_ID = ''app_EMoamEEZ73f0CkXaXp7hrann''"

definition CODEX_REDIRECT_URI :: string where
  "CODEX_REDIRECT_URI = ''http://localhost:1455/auth/callback''"

definition origin_for :: "bool \<Rightarrow> string option \<Rightarrow> string \<Rightarrow> string res" where
  "origin_for test override live =
     (case override of
        None \<Rightarrow> Inr live
      | Some u \<Rightarrow> if u = [] then Inr live
          else if \<not> test then Inl (JsError ''Codex origin overrides require CODEX_TEST_MODE=true'')
          else Inr (strip_slash u))"

definition codexAuthOrigin :: "codex_env \<Rightarrow> string res" where
  "codexAuthOrigin env = origin_for (cx_test env) (cx_auth_override env) ''https://auth.openai.com''"

definition codexChatGPTOrigin :: "codex_env \<Rightarrow> string res" where
  "codexChatGPTOrigin env = origin_for (cx_test env) (cx_chatgpt_override env) ''https://chatgpt.com''"

definition codexUrl :: "codex_env \<Rightarrow> string \<Rightarrow> string res" where
  "codexUrl env path = (case codexAuthOrigin env of Inl e \<Rightarrow> Inl e | Inr auth \<Rightarrow> Inr (auth @ path))"

abbreviation authorize_path :: string where "authorize_path \<equiv> ''/oauth/authorize''"
abbreviation token_path :: string where "token_path \<equiv> ''/oauth/token''"
abbreviation jwks_path :: string where "jwks_path \<equiv> ''/.well-known/jwks.json''"
abbreviation device_code_path :: string where "device_code_path \<equiv> ''/api/accounts/deviceauth/usercode''"
abbreviation device_token_path :: string where "device_token_path \<equiv> ''/api/accounts/deviceauth/token''"
abbreviation device_page :: string where "device_page \<equiv> ''/codex/device''"

section \<open>Tokens\<close>

record codex_identity =
  ci_sub :: string
  ci_account :: string
  ci_user :: "string option"
  ci_email :: "string option"
  ci_plan :: "string option"
  ci_exp :: jsnum

type_synonym jwks_cache = "(rat \<times> jv list) option"

definition parsePart :: "codex_env \<Rightarrow> string \<Rightarrow> jv res" where
  "parsePart env part = (case parseJson (cx_api env) (unb64u (cx_api env) part) of None \<Rightarrow> Inl (JsError ''SyntaxError'') | Some v \<Rightarrow> Inr v)"

definition unsafeReadJwtExp :: "codex_env \<Rightarrow> string \<Rightarrow> jsnum option" where
  "unsafeReadJwtExp env token =
     (case js_split (CHR ''.'') token of
        [p0, p1, p2] \<Rightarrow> (case parsePart env p1 of Inl e \<Rightarrow> None | Inr payload \<Rightarrow> (case get_prop payload ''exp'' of JNum n \<Rightarrow> Some n | _ \<Rightarrow> None))
      | _ \<Rightarrow> None)"

definition loadJwks :: "codex_env \<Rightarrow> bool \<Rightarrow> rat \<Rightarrow> (jwks_cache, jv list) act" where
  "loadJwks env force now = (\<lambda>cache.
     case (if force then None else case cache of Some (x, ks) \<Rightarrow> if now < x then Some ks else None | None \<Rightarrow> None) of
       Some ks \<Rightarrow> (Inr ks, cache)
     | None \<Rightarrow>
        (case codexUrl env jwks_path of Inl e \<Rightarrow> (Inl e, cache) | Inr url \<Rightarrow>
        (case cx_get env url (if force then 1 else 0) of Inl e \<Rightarrow> (Inl e, cache) | Inr res \<Rightarrow>
          if \<not> ha_ok res then (Inl (JsError ''jwks_fetch_failed''), cache)
          else (case ha_json res of Inl e \<Rightarrow> (Inl e, cache) | Inr body \<Rightarrow>
            if nullish body then (Inl (JsError ''TypeError''), cache)
            else let ks = (case get_prop body ''keys'' of JArr ks \<Rightarrow> ks | _ \<Rightarrow> []) in (Inr ks, Some (now + 3600000, ks))))))"

text \<open>\<open>keys.find(k => k.kid === header.kid)\<close> raises on a \<open>null\<close> element before the match.\<close>

fun find_kid :: "jv \<Rightarrow> jv list \<Rightarrow> jv option res" where
  "find_kid kid [] = Inr None"
| "find_kid kid (k # ks) =
     (if nullish k then Inl (JsError ''TypeError'') else if strict_eq (get_prop k ''kid'') kid then Inr (Some k) else find_kid kid ks)"

definition key_for :: "codex_env \<Rightarrow> jv \<Rightarrow> rat \<Rightarrow> (jwks_cache, jv) act" where
  "key_for env kid now =
     bind_act (loadJwks env False now) (\<lambda>ks.
     bind_act (lift_res (find_kid kid ks)) (\<lambda>hit. case hit of
       Some k \<Rightarrow> return_act k
     | None \<Rightarrow>
        bind_act (loadJwks env True now) (\<lambda>ks.
        bind_act (lift_res (find_kid kid ks)) (\<lambda>hit. case hit of
          Some k \<Rightarrow> return_act k
        | None \<Rightarrow> throw (JsError ''unknown_jwks_kid'')))))"

definition aud_ok :: "string list \<Rightarrow> jv \<Rightarrow> bool" where
  "aud_ok auds v = (case v of JStr a \<Rightarrow> a \<in> set auds | JArr vs \<Rightarrow> list_ex (\<lambda>w. case w of JStr a \<Rightarrow> a \<in> set auds | _ \<Rightarrow> False) vs | _ \<Rightarrow> False)"

definition opt_text :: "jv \<Rightarrow> string option" where
  "opt_text v = (case v of JStr s \<Rightarrow> Some s | _ \<Rightarrow> None)"

definition check_claims :: "string \<Rightarrow> string list \<Rightarrow> jv option \<Rightarrow> rat \<Rightarrow> jv \<Rightarrow> codex_identity res" where
  "check_claims origin auds nonce now payload =
     (if nullish payload then Inl (JsError ''TypeError'')
      else if get_prop payload ''iss'' \<noteq> JStr origin then Inl (JsError ''invalid_id_token_issuer'')
      else if \<not> aud_ok auds (get_prop payload ''aud'') then Inl (JsError ''invalid_id_token_audience'')
      else case get_prop payload ''exp'' of
        JNum n \<Rightarrow>
          if reached \<lfloor>now / 1000\<rfloor> n then Inl (JsError ''expired_id_token'')
          else if (case nonce of None \<Rightarrow> False | Some w \<Rightarrow> \<not> strict_eq (get_prop payload ''nonce'') w) then Inl (JsError ''invalid_id_token_nonce'')
          else let auth = get_prop payload ''https://api.openai.com/auth'' in
            if \<not> is_record auth then Inl (JsError ''missing_openai_auth_claim'')
            else (case opt_text (get_prop auth ''chatgpt_account_id'') of
                Some acc \<Rightarrow>
                  if acc = [] then Inl (JsError ''missing_chatgpt_account_id'')
                  else let user = opt_text (get_prop auth ''chatgpt_user_id'') in
                    Inr \<lparr>ci_sub = (case user of Some u \<Rightarrow> u | None \<Rightarrow> acc), ci_account = acc, ci_user = user, ci_email = opt_text (get_prop auth ''email''),
                      ci_plan = opt_text (get_prop auth ''chatgpt_plan_type''), ci_exp = n\<rparr>
              | None \<Rightarrow> Inl (JsError ''missing_chatgpt_account_id''))
      | _ \<Rightarrow> Inl (JsError ''expired_id_token''))"

definition verifyOpenAIToken :: "codex_env \<Rightarrow> string \<Rightarrow> string list \<Rightarrow> jv option \<Rightarrow> rat \<Rightarrow> (jwks_cache, codex_identity) act" where
  "verifyOpenAIToken env token auds nonce now =
     (case js_split (CHR ''.'') token of
        [p0, p1, p2] \<Rightarrow>
          bind_act (lift_res (parsePart env p0)) (\<lambda>header.
          bind_act (lift_res (parsePart env p1)) (\<lambda>payload.
          then_act (guard_act (\<not> nullish header) (JsError ''TypeError''))
         (then_act (guard_act (get_prop header ''alg'' = JStr ''RS256'' \<and> truthy (get_prop header ''kid'')) (JsError ''unsupported_id_token_alg''))
         (bind_act (key_for env (get_prop header ''kid'') now) (\<lambda>jwk.
          bind_act (lift_res (cx_rsa env (p0 @ ''.'' @ p1) jwk (unb64u (cx_api env) p2))) (\<lambda>ok.
          then_act (guard_act ok (JsError ''invalid_id_token_signature''))
         (bind_act (lift_res (codexAuthOrigin env)) (\<lambda>origin.
          lift_res (check_claims origin auds nonce now payload)))))))))
      | _ \<Rightarrow> throw (JsError ''invalid_id_token''))"

definition verifyOpenAIIDToken :: "codex_env \<Rightarrow> string \<Rightarrow> jv option \<Rightarrow> rat \<Rightarrow> (jwks_cache, codex_identity) act" where
  "verifyOpenAIIDToken env token nonce now = verifyOpenAIToken env token [CODEX_CLIENT_ID] nonce now"

definition verifyOpenAIAccessToken :: "codex_env \<Rightarrow> string \<Rightarrow> rat \<Rightarrow> (jwks_cache, codex_identity) act" where
  "verifyOpenAIAccessToken env token now = verifyOpenAIToken env token [''https://api.openai.com/v1''] None now"

section \<open>Authentication files\<close>

record codex_credential =
  cr_access :: string
  cr_refresh :: "string option"
  cr_id :: "string option"
  cr_expires :: string
  cr_client :: string
  cr_account :: string
  cr_email :: "string option"
  cr_plan :: "string option"
  cr_method :: string

text \<open>\<open>z.object(...).strict()\<close>: a member outside the shape is an issue.\<close>

definition z_strict :: "(string \<times> schema) list \<Rightarrow> schema" where
  "z_strict shape v = (if fst ` set (record_of v) \<subseteq> fst ` set shape then z_object shape v else None)"

definition token_shape :: "(string \<times> schema) list" where
  "token_shape = [(''access_token'', z_optional z_filled), (''refresh_token'', z_optional z_filled), (''id_token'', z_optional z_filled),
     (''account_id'', z_optional z_filled), (''expires_at'', z_optional z_string), (''expiresAt'', z_optional z_string)]"

definition TokenSchema :: schema where
  "TokenSchema = z_strict token_shape"

definition hint_shape :: "codex_env \<Rightarrow> (string \<times> schema) list" where
  "hint_shape env = [(''client_id'', z_optional z_string), (''account_id'', z_optional z_string), (''chatgpt_account_id'', z_optional z_string),
     (''email'', z_optional (z_refine (\<lambda>w. case w of JStr s \<Rightarrow> cx_email env s | _ \<Rightarrow> False) z_string)), (''plan_type'', z_optional z_string)]"

text \<open>\<open>TokenSchema.merge(HintSchema)\<close>: the hints win for the shared member \<open>account_id\<close>.\<close>

definition FlatAuthSchema :: "codex_env \<Rightarrow> schema" where
  "FlatAuthSchema env = z_strict (filter (\<lambda>f. fst f \<noteq> ''account_id'') token_shape @ hint_shape env)"

definition NestedAuthSchema :: "codex_env \<Rightarrow> schema" where
  "NestedAuthSchema env =
     z_strict (hint_shape env @ [(''OPENAI_API_KEY'', z_optional z_null), (''last_refresh'', z_optional z_string), (''tokens'', TokenSchema)])"

definition CurrentAuthSchema :: schema where
  "CurrentAuthSchema =
     z_strict [(''auth_mode'', z_filled), (''openai_api_key'', z_optional z_null), (''tokens'', TokenSchema), (''last_refresh'', z_optional z_string),
       (''agent_identity'', z_optional z_null), (''personal_access_token'', z_optional z_null), (''bedrock_api_key'', z_optional z_null),
       (''_meta'', z_optional (z_record z_any))]"

record auth_data =
  ad_access :: "string option"
  ad_refresh :: "string option"
  ad_id :: "string option"
  ad_expires :: "string option"
  ad_client :: "string option"
  ad_hint :: "string option"

definition first_text :: "string option \<Rightarrow> string option \<Rightarrow> string option" where
  "first_text a b = (case a of Some s \<Rightarrow> Some s | None \<Rightarrow> b)"

definition filled :: "string option \<Rightarrow> bool" where
  "filled o' \<longleftrightarrow> (case o' of None \<Rightarrow> False | Some s \<Rightarrow> s \<noteq> [])"

text \<open>The members \<open>normalize\<close> reads: \<open>expiry\<close> is \<open>expires_at ?? expiresAt\<close>, \<open>hintId\<close> is \<open>chatgpt_account_id ?? account_id\<close>.\<close>

definition auth_data_of :: "jv \<Rightarrow> auth_data" where
  "auth_data_of v =
     \<lparr>ad_access = opt_text (get_prop v ''access_token''), ad_refresh = opt_text (get_prop v ''refresh_token''), ad_id = opt_text (get_prop v ''id_token''),
      ad_expires = first_text (opt_text (get_prop v ''expires_at'')) (opt_text (get_prop v ''expiresAt'')), ad_client = opt_text (get_prop v ''client_id''),
      ad_hint = first_text (opt_text (get_prop v ''chatgpt_account_id'')) (opt_text (get_prop v ''account_id''))\<rparr>"

definition isExpired :: "codex_env \<Rightarrow> rat \<Rightarrow> string option \<Rightarrow> bool" where
  "isExpired env now iso' = (case iso' of None \<Rightarrow> True | Some s \<Rightarrow> s = [] \<or> (case cx_date env s of None \<Rightarrow> True | Some t \<Rightarrow> t \<le> now))"

definition applyIdentity :: "auth_data \<Rightarrow> codex_identity \<Rightarrow> codex_identity res" where
  "applyIdentity data i =
     (if filled (ad_hint data) \<and> ad_hint data \<noteq> Some (ci_account i) then Inl (JsError ''auth_file_identity_mismatch'') else Inr i)"

definition idTokenExpired :: "codex_env \<Rightarrow> rat \<Rightarrow> string option \<Rightarrow> bool" where
  "idTokenExpired env now t =
     (case t of None \<Rightarrow> True
      | Some s \<Rightarrow> s = [] \<or> (case unsafeReadJwtExp env s of None \<Rightarrow> True | Some n \<Rightarrow> reached \<lfloor>now / 1000\<rfloor> n))"

definition idIdentity :: "codex_env \<Rightarrow> auth_data \<Rightarrow> jv option \<Rightarrow> rat \<Rightarrow> (jwks_cache, codex_identity option) act" where
  "idIdentity env data nonce now =
     bind_act (verifyOpenAIIDToken env (the_default [] (ad_id data)) nonce now) (\<lambda>i.
     bind_act (lift_res (applyIdentity data i)) (\<lambda>j. return_act (Some j)))"

definition accessIdentity :: "codex_env \<Rightarrow> auth_data \<Rightarrow> rat \<Rightarrow> (jwks_cache, codex_identity option) act" where
  "accessIdentity env data now =
     (if \<not> filled (ad_access data) then return_act None
      else catch_act
        (bind_act (verifyOpenAIAccessToken env (the_default [] (ad_access data)) now) (\<lambda>i.
         bind_act (lift_res (applyIdentity data i)) (\<lambda>j. return_act (Some j))))
        (\<lambda>_. return_act None))"

definition refreshOAuthCredential :: "codex_env \<Rightarrow> string \<Rightarrow> string \<Rightarrow> jv res" where
  "refreshOAuthCredential env refreshToken clientId =
     (case codexUrl env token_path of Inl e \<Rightarrow> Inl e | Inr url \<Rightarrow>
     (case cx_post env url [(''grant_type'', ''refresh_token''), (''client_id'', clientId), (''refresh_token'', refreshToken)] of Inl e \<Rightarrow> Inl e | Inr res \<Rightarrow>
        if \<not> ha_ok res then Inl (JsError ''codex_refresh_failed'') else ha_json res))"

text \<open>The expiry that stands in the file, or the one the access token carries.\<close>

definition read_expiry :: "codex_env \<Rightarrow> auth_data \<Rightarrow> auth_data res" where
  "read_expiry env data =
     (if filled (ad_expires data) \<or> \<not> filled (ad_access data) then Inr data
      else case unsafeReadJwtExp env (the_default [] (ad_access data)) of
        Some (Fin x) \<Rightarrow> (case cx_iso env (x * 1000) of Inl e \<Rightarrow> Inl e | Inr t \<Rightarrow> Inr (data\<lparr>ad_expires := Some t\<rparr>))
      | Some _ \<Rightarrow> Inl (JsError ''RangeError'')
      | None \<Rightarrow> Inr data)"

definition expiry_text :: "codex_env \<Rightarrow> rat \<Rightarrow> jv \<Rightarrow> string res" where
  "expiry_text env now v =
     (case v of JNum (Fin x) \<Rightarrow> cx_iso env (now + x * 1000) | JNum _ \<Rightarrow> Inl (JsError ''RangeError'') | _ \<Rightarrow> cx_iso env (now + 3600000))"

definition refresh_data :: "codex_env \<Rightarrow> auth_data \<Rightarrow> rat \<Rightarrow> auth_data res" where
  "refresh_data env data now =
     (case ad_refresh data of None \<Rightarrow> Inl (JsError ''auth_file_expired_without_refresh_token'') | Some rt \<Rightarrow>
     (case refreshOAuthCredential env rt (the_default CODEX_CLIENT_ID (ad_client data)) of Inl e \<Rightarrow> Inl e | Inr fresh \<Rightarrow>
      if nullish fresh then Inl (JsError ''TypeError'')
      else case expiry_text env now (get_prop fresh ''expires_in'') of Inl e \<Rightarrow> Inl e | Inr t \<Rightarrow>
        Inr (data\<lparr>ad_access := Some (the_default [] (opt_text (get_prop fresh ''access_token''))),
          ad_refresh := Some (the_default rt (opt_text (get_prop fresh ''refresh_token''))),
          ad_id := first_text (opt_text (get_prop fresh ''id_token'')) (ad_id data), ad_expires := Some t\<rparr>)))"

definition find_identity :: "codex_env \<Rightarrow> auth_data \<Rightarrow> jv option \<Rightarrow> rat \<Rightarrow> codex_identity option \<Rightarrow> (jwks_cache, codex_identity option) act" where
  "find_identity env data nonce now old =
     (if filled (ad_id data) \<and> \<not> idTokenExpired env now (ad_id data) then idIdentity env data nonce now
      else if \<not> isExpired env now (ad_expires data) then accessIdentity env data now
      else return_act old)"

definition finish_credential :: "auth_data \<Rightarrow> codex_identity option \<Rightarrow> codex_credential res" where
  "finish_credential data i =
     (if \<not> filled (ad_access data) then Inl (JsError ''auth_file_missing_access_token'')
      else case i of None \<Rightarrow> Inl (JsError ''auth_file_missing_verified_identity'')
      | Some j \<Rightarrow> Inr \<lparr>cr_access = the_default [] (ad_access data), cr_refresh = ad_refresh data, cr_id = ad_id data, cr_expires = the_default [] (ad_expires data),
          cr_client = the_default CODEX_CLIENT_ID (ad_client data), cr_account = ci_account j, cr_email = ci_email j, cr_plan = ci_plan j, cr_method = ''auth_file''\<rparr>)"

definition normalize :: "codex_env \<Rightarrow> auth_data \<Rightarrow> jv option \<Rightarrow> rat \<Rightarrow> (jwks_cache, codex_credential) act" where
  "normalize env data0 nonce now =
     then_act (guard_act (filled (ad_access data0) \<or> filled (ad_refresh data0) \<or> filled (ad_id data0)) (JsError ''auth_file_missing_oauth_tokens''))
    (bind_act (lift_res (read_expiry env data0)) (\<lambda>data.
     bind_act (find_identity env data nonce now None) (\<lambda>identity.
     if isExpired env now (ad_expires data) \<or> identity = None
     then bind_act (lift_res (refresh_data env data now)) (\<lambda>data2.
          bind_act (find_identity env data2 nonce now identity) (\<lambda>identity2.
          lift_res (finish_credential data2 identity2)))
     else lift_res (finish_credential data identity))))"

definition api_key_only :: "string \<Rightarrow> jv \<Rightarrow> bool" where
  "api_key_only k v \<longleftrightarrow> k \<in> fst ` set (record_of v) \<and> get_prop v k \<noteq> JNull"

definition overlay :: "jv \<Rightarrow> jv \<Rightarrow> jv" where
  "overlay a b = JObj (fold (\<lambda>(k, v). set_prop k v) (record_of b) (record_of a))"

definition parseCodexAuthFile :: "codex_env \<Rightarrow> string \<Rightarrow> jv option \<Rightarrow> rat \<Rightarrow> (jwks_cache, codex_credential) act" where
  "parseCodexAuthFile env raw nonce now =
     (case parseJson (cx_api env) raw of
        None \<Rightarrow> throw (JsError ''auth_file_malformed_json'')
      | Some v \<Rightarrow>
          if api_key_only ''OPENAI_API_KEY'' v \<or> api_key_only ''openai_api_key'' v then throw (JsError ''auth_file_api_key_only_unsupported'')
          else case CurrentAuthSchema v of
            Some w \<Rightarrow> normalize env (auth_data_of (get_prop w ''tokens'')) nonce now
          | None \<Rightarrow> (case NestedAuthSchema env v of
              Some w \<Rightarrow> normalize env (auth_data_of (overlay w (get_prop w ''tokens''))) nonce now
            | None \<Rightarrow> (case FlatAuthSchema env v of
                Some w \<Rightarrow> normalize env (auth_data_of w) nonce now
              | None \<Rightarrow> throw (JsError ''auth_file_unknown_or_invalid_fields''))))"

section \<open>Redaction and runtime credentials\<close>

definition SECRET_KEYS :: "string list" where
  "SECRET_KEYS = [''access_token'', ''refresh_token'', ''id_token'', ''authorization'', ''api_key'', ''code'', ''code_verifier'']"

fun redactCodexSecrets :: "jv \<Rightarrow> jv" where
  "redactCodexSecrets (JArr vs) = JArr (map redactCodexSecrets vs)"
| "redactCodexSecrets (JObj ps) = JObj (map (\<lambda>(k, v). (k, if toLowerCase k \<in> set SECRET_KEYS then JStr ''[REDACTED]'' else redactCodexSecrets v)) ps)"
| "redactCodexSecrets v = v"

definition opt_json :: "string option \<Rightarrow> jv" where
  "opt_json o' = (case o' of None \<Rightarrow> JUndef | Some s \<Rightarrow> JStr s)"

definition toCodexRuntimeCredential :: "codex_credential \<Rightarrow> int \<Rightarrow> jv" where
  "toCodexRuntimeCredential c revision =
     JObj [(''kind'', JStr ''oauth''), (''access_token'', JStr (cr_access c)), (''refresh_token'', opt_json (cr_refresh c)), (''id_token'', opt_json (cr_id c)),
       (''expires_at'', JStr (cr_expires c)), (''client_id'', JStr (cr_client c)), (''chatgpt_account_id'', JStr (cr_account c)),
       (''revision'', int_json revision)]"

section \<open>Soundness of verification\<close>

lemma find_kid_Some: "find_kid kid ks = Inr (Some k) \<Longrightarrow> k \<in> set ks \<and> strict_eq (get_prop k ''kid'') kid"
  by (induction ks) (auto split: if_splits)

lemma loadJwks_Inr: "loadJwks env force now c = (Inr ks, c') \<Longrightarrow> \<exists>x. c' = Some (x, ks) \<and> now < x"
  by (cases c; cases force)
     (auto simp: loadJwks_def Let_def split: sum.splits if_splits option.splits)

lemma key_for_Inr:
  assumes "key_for env kid now c = (Inr k, c')"
  shows "strict_eq (get_prop k ''kid'') kid \<and> (\<exists>x ks. c' = Some (x, ks) \<and> now < x \<and> k \<in> set ks)"
proof -
  obtain ks c1 where l: "loadJwks env False now c = (Inr ks, c1)"
    and rest: "bind_act (lift_res (find_kid kid ks)) (\<lambda>hit. case hit of Some k \<Rightarrow> return_act k
       | None \<Rightarrow> bind_act (loadJwks env True now) (\<lambda>ks. bind_act (lift_res (find_kid kid ks)) (\<lambda>hit. case hit of
          Some k \<Rightarrow> return_act k | None \<Rightarrow> throw (JsError ''unknown_jwks_kid'')))) c1 = (Inr k, c')"
    using assms unfolding key_for_def by (rule bind_act_InrE)
  obtain hit where hit: "find_kid kid ks = Inr hit" using rest by (cases "find_kid kid ks") (auto simp: bind_lift)
  show ?thesis
  proof (cases hit)
    case (Some j)
    then show ?thesis using rest hit loadJwks_Inr [OF l] find_kid_Some by (auto simp: bind_lift return_act_apply)
  next
    case None
    have "bind_act (loadJwks env True now) (\<lambda>ks. bind_act (lift_res (find_kid kid ks)) (\<lambda>hit. case hit of
          Some k \<Rightarrow> return_act k | None \<Rightarrow> throw (JsError ''unknown_jwks_kid''))) c1 = (Inr k, c')"
      using rest hit None by (simp add: bind_lift)
    then obtain ks2 c2 where l2: "loadJwks env True now c1 = (Inr ks2, c2)"
      and r2: "bind_act (lift_res (find_kid kid ks2)) (\<lambda>hit. case hit of Some k \<Rightarrow> return_act k | None \<Rightarrow> throw (JsError ''unknown_jwks_kid'')) c2 = (Inr k, c')"
      by (rule bind_act_InrE)
    then show ?thesis
      using loadJwks_Inr [OF l2] find_kid_Some [of kid ks2]
      by (auto simp: bind_lift return_act_apply throw_apply split: sum.splits option.splits)
  qed
qed

lemma opt_text_Some [simp]: "opt_text v = Some t \<longleftrightarrow> v = JStr t"
  by (cases v) (simp_all add: opt_text_def)

lemma opt_text_JStr [simp]: "opt_text (JStr t) = Some t"
  by (simp add: opt_text_def)

lemma check_claims_Inr:
  assumes "check_claims origin auds nonce now payload = Inr i"
  shows "get_prop payload ''iss'' = JStr origin \<and> aud_ok auds (get_prop payload ''aud'')
     \<and> get_prop payload ''exp'' = JNum (ci_exp i) \<and> \<not> reached \<lfloor>now / 1000\<rfloor> (ci_exp i)
     \<and> (case nonce of None \<Rightarrow> True | Some w \<Rightarrow> strict_eq (get_prop payload ''nonce'') w)
     \<and> get_prop (get_prop payload ''https://api.openai.com/auth'') ''chatgpt_account_id'' = JStr (ci_account i)"
proof -
  obtain n where n: "get_prop payload ''exp'' = JNum n"
    using assms by (cases "get_prop payload ''exp''") (simp_all add: check_claims_def split: if_splits)
  obtain acc where acc: "opt_text (get_prop (get_prop payload ''https://api.openai.com/auth'') ''chatgpt_account_id'') = Some acc"
    using assms n by (cases "opt_text (get_prop (get_prop payload ''https://api.openai.com/auth'') ''chatgpt_account_id'')")
      (simp_all add: check_claims_def Let_def split: if_splits)
  show ?thesis
    using assms n acc by (cases nonce) (auto simp: check_claims_def Let_def split: if_splits)
qed

text \<open>An identity is accepted from an OpenAI token only when a key of the current key set with the key id of the token verifies its signature
  and the signed claims name the configured issuer, an admitted audience, a later expiry, the expected nonce and the account.\<close>

theorem verifyOpenAIToken_sound:
  assumes "verifyOpenAIToken env token auds nonce now c = (Inr i, c')"
  shows "\<exists>p0 p1 p2 header payload k x ks origin.
     js_split (CHR ''.'') token = [p0, p1, p2] \<and> parsePart env p0 = Inr header \<and> parsePart env p1 = Inr payload
     \<and> get_prop header ''alg'' = JStr ''RS256'' \<and> c' = Some (x, ks) \<and> now < x \<and> k \<in> set ks
     \<and> strict_eq (get_prop k ''kid'') (get_prop header ''kid'')
     \<and> cx_rsa env (p0 @ ''.'' @ p1) k (unb64u (cx_api env) p2) = Inr True
     \<and> codexAuthOrigin env = Inr origin \<and> get_prop payload ''iss'' = JStr origin \<and> aud_ok auds (get_prop payload ''aud'')
     \<and> get_prop payload ''exp'' = JNum (ci_exp i) \<and> \<not> reached \<lfloor>now / 1000\<rfloor> (ci_exp i)
     \<and> (case nonce of None \<Rightarrow> True | Some w \<Rightarrow> strict_eq (get_prop payload ''nonce'') w)
     \<and> get_prop (get_prop payload ''https://api.openai.com/auth'') ''chatgpt_account_id'' = JStr (ci_account i)"
proof -
  obtain p0 p1 p2 where sp: "js_split (CHR ''.'') token = [p0, p1, p2]"
    using assms by (auto simp: verifyOpenAIToken_def throw_apply split: list.splits)
  obtain header payload where pp: "parsePart env p0 = Inr header" "parsePart env p1 = Inr payload"
    and alg: "get_prop header ''alg'' = JStr ''RS256''"
    and rest: "bind_act (key_for env (get_prop header ''kid'') now) (\<lambda>jwk.
          bind_act (lift_res (cx_rsa env (p0 @ ''.'' @ p1) jwk (unb64u (cx_api env) p2))) (\<lambda>ok.
          then_act (guard_act ok (JsError ''invalid_id_token_signature''))
         (bind_act (lift_res (codexAuthOrigin env)) (\<lambda>origin.
          lift_res (check_claims origin auds nonce now payload))))) c = (Inr i, c')"
    using assms by (auto simp: verifyOpenAIToken_def sp bind_lift then_guard split: sum.splits if_splits)
  obtain k c1 where k: "key_for env (get_prop header ''kid'') now c = (Inr k, c1)"
    and r2: "bind_act (lift_res (cx_rsa env (p0 @ ''.'' @ p1) k (unb64u (cx_api env) p2))) (\<lambda>ok.
          then_act (guard_act ok (JsError ''invalid_id_token_signature''))
         (bind_act (lift_res (codexAuthOrigin env)) (\<lambda>origin. lift_res (check_claims origin auds nonce now payload)))) c1 = (Inr i, c')"
    using rest by (rule bind_act_InrE)
  obtain origin where o: "codexAuthOrigin env = Inr origin" "cx_rsa env (p0 @ ''.'' @ p1) k (unb64u (cx_api env) p2) = Inr True" "c1 = c'"
    and cc: "check_claims origin auds nonce now payload = Inr i"
    using r2 by (auto simp: bind_lift then_guard lift_res_apply split: sum.splits if_splits)
  note claims = check_claims_Inr [OF cc]
  obtain x ks where "strict_eq (get_prop k ''kid'') (get_prop header ''kid'')" "c' = Some (x, ks)" "now < x" "k \<in> set ks"
    using key_for_Inr [OF k] o(3) by blast
  then show ?thesis
    using sp pp alg o(1,2) claims by blast
qed

text \<open>An identity that a token of the file proved, in agreement with the account id the file names.\<close>

definition proved :: "codex_env \<Rightarrow> jv option \<Rightarrow> rat \<Rightarrow> string option \<Rightarrow> codex_identity \<Rightarrow> bool" where
  "proved env nonce now hint i \<longleftrightarrow>
     (\<exists>t c c'. verifyOpenAIIDToken env t nonce now c = (Inr i, c') \<or> verifyOpenAIAccessToken env t now c = (Inr i, c'))
     \<and> (filled hint \<longrightarrow> hint = Some (ci_account i))"

lemma applied_identity:
  assumes "bind_act m (\<lambda>i. bind_act (lift_res (applyIdentity data i)) (\<lambda>j. return_act (Some j))) c = (Inr (Some i), c')"
  shows "\<exists>c1. m c = (Inr i, c1) \<and> (filled (ad_hint data) \<longrightarrow> ad_hint data = Some (ci_account i))"
proof -
  obtain j c1 where "m c = (Inr j, c1)" "bind_act (lift_res (applyIdentity data j)) (\<lambda>j. return_act (Some j)) c1 = (Inr (Some i), c')"
    using assms by (rule bind_act_InrE)
  then show ?thesis by (auto simp: applyIdentity_def bind_lift return_act_apply split: if_splits)
qed

lemma find_identity_proved:
  assumes "find_identity env data nonce now old c = (Inr (Some i), c')" and "\<And>j. old = Some j \<Longrightarrow> proved env nonce now (ad_hint data) j"
  shows "proved env nonce now (ad_hint data) i"
proof (cases "filled (ad_id data) \<and> \<not> idTokenExpired env now (ad_id data)")
  case True
  then have "idIdentity env data nonce now c = (Inr (Some i), c')" using assms(1) by (simp add: find_identity_def)
  then show ?thesis unfolding idIdentity_def proved_def by (blast dest: applied_identity)
next
  case False
  show ?thesis
  proof (cases "isExpired env now (ad_expires data)")
    case True
    then show ?thesis using False assms by (auto simp: find_identity_def return_act_apply)
  next
    case fresh: False
    then have "accessIdentity env data now c = (Inr (Some i), c')" using False assms(1) by (auto simp: find_identity_def split: if_splits)
    then obtain t where "bind_act (verifyOpenAIAccessToken env t now) (\<lambda>i. bind_act (lift_res (applyIdentity data i)) (\<lambda>j. return_act (Some j))) c = (Inr (Some i), c')"
      by (auto simp: accessIdentity_def catch_act_def return_act_apply split: if_splits prod.splits sum.splits)
    then show ?thesis unfolding proved_def by (blast dest: applied_identity)
  qed
qed

lemma read_expiry_hint: "read_expiry env data = Inr data' \<Longrightarrow> ad_hint data' = ad_hint data"
  by (auto simp: read_expiry_def split: if_splits option.splits jsnum.splits sum.splits)

lemma refresh_data_hint: "refresh_data env data now = Inr data' \<Longrightarrow> ad_hint data' = ad_hint data"
  by (auto simp: refresh_data_def split: if_splits option.splits sum.splits)

lemma finish_credential_Inr: "finish_credential data i = Inr cr \<Longrightarrow> cr_access cr \<noteq> [] \<and> (\<exists>j. i = Some j \<and> cr_account cr = ci_account j)"
  by (auto simp: finish_credential_def filled_def the_default_def split: if_splits option.splits)

lemma normalize_proved:
  assumes "normalize env data0 nonce now c = (Inr cr, c')"
  shows "cr_access cr \<noteq> [] \<and> (\<exists>i. proved env nonce now (ad_hint data0) i \<and> cr_account cr = ci_account i)"
proof -
  obtain data where d: "read_expiry env data0 = Inr data"
    and r: "bind_act (find_identity env data nonce now None) (\<lambda>identity.
     if isExpired env now (ad_expires data) \<or> identity = None
     then bind_act (lift_res (refresh_data env data now)) (\<lambda>data2.
          bind_act (find_identity env data2 nonce now identity) (\<lambda>identity2. lift_res (finish_credential data2 identity2)))
     else lift_res (finish_credential data identity)) c = (Inr cr, c')"
    using assms by (auto simp: normalize_def then_guard bind_lift split: if_splits sum.splits)
  obtain old c1 where f1: "find_identity env data nonce now None c = (Inr old, c1)"
    and r1: "(if isExpired env now (ad_expires data) \<or> old = None
     then bind_act (lift_res (refresh_data env data now)) (\<lambda>data2.
          bind_act (find_identity env data2 nonce now old) (\<lambda>identity2. lift_res (finish_credential data2 identity2)))
     else lift_res (finish_credential data old)) c1 = (Inr cr, c')"
    using r by (rule bind_act_InrE)
  have hint: "ad_hint data = ad_hint data0" using d by (rule read_expiry_hint)
  have old: "proved env nonce now (ad_hint data0) j" if "old = Some j" for j
    using find_identity_proved [of env data nonce now None c j c1] f1 that hint by simp
  show ?thesis
  proof (cases "isExpired env now (ad_expires data) \<or> old = None")
    case True
    then obtain data2 where d2: "refresh_data env data now = Inr data2"
      and r2: "bind_act (find_identity env data2 nonce now old) (\<lambda>identity2. lift_res (finish_credential data2 identity2)) c1 = (Inr cr, c')"
      using r1 by (auto simp: bind_lift split: sum.splits)
    obtain i2 c2 where f2: "find_identity env data2 nonce now old c1 = (Inr i2, c2)" and fin: "finish_credential data2 i2 = Inr cr"
      using r2 by (auto simp: lift_res_apply elim!: bind_act_InrE)
    have h2: "ad_hint data2 = ad_hint data0" using refresh_data_hint [OF d2] hint by simp
    obtain j where j: "cr_access cr \<noteq> []" "i2 = Some j" "cr_account cr = ci_account j" using finish_credential_Inr [OF fin] by blast
    have "proved env nonce now (ad_hint data2) j"
      by (rule find_identity_proved [OF f2 [unfolded j(2)]]) (simp add: h2 old)
    then show ?thesis using j h2 by auto
  next
    case False
    then have fin: "finish_credential data old = Inr cr" using r1 by (auto simp: lift_res_apply split: if_splits)
    obtain j where "cr_access cr \<noteq> []" "old = Some j" "cr_account cr = ci_account j" using finish_credential_Inr [OF fin] by blast
    then show ?thesis using old by auto
  qed
qed


section \<open>Witnesses\<close>

definition demo_payload :: jv where
  "demo_payload = JObj [(''iss'', JStr ''https://auth.openai.com''), (''aud'', JStr ''https://api.openai.com/v1''), (''exp'', JNum (Fin 100)),
     (''https://api.openai.com/auth'', JObj [(''chatgpt_account_id'', JStr ''acc'')])]"

definition demo_codex :: codex_env where
  "demo_codex = \<lparr>cx_api = demo_api\<lparr>b64u := id, unb64u := id, stringify := (\<lambda>_. []),
       parseJson := (\<lambda>t. if t = ''h'' then Some (JObj [(''alg'', JStr ''RS256''), (''kid'', JStr ''k'')]) else if t = ''p'' then Some demo_payload
         else if t = ''file'' then Some (JObj [(''access_token'', JStr ''h.p.s''), (''chatgpt_account_id'', JStr ''acc'')]) else None)\<rparr>,
     cx_test = False, cx_auth_override = None, cx_chatgpt_override = None,
     cx_get = (\<lambda>_ _. Inr \<lparr>ha_ok = True, ha_status = 200, ha_json = Inr (JObj [(''keys'', JArr [JObj [(''kid'', JStr ''k'')]])])\<rparr>),
     cx_post = (\<lambda>_ _. Inl (JsError ''offline'')), cx_post_json = (\<lambda>_ _. Inl (JsError ''offline'')), cx_rsa = (\<lambda>_ _ _. Inr True), cx_email = (\<lambda>_. True),
     cx_date = (\<lambda>_. Some 100000), cx_iso = (\<lambda>_. Inr ''t'')\<rparr>"

definition demo_identity :: codex_identity where
  "demo_identity = \<lparr>ci_sub = ''acc'', ci_account = ''acc'', ci_user = None, ci_email = None, ci_plan = None, ci_exp = Fin 100\<rparr>"

lemma demo_token_verified: "verifyOpenAIToken demo_codex ''h.p.s'' [''https://api.openai.com/v1''] None 1000 None = (Inr demo_identity, Some (3601000, [JObj [(''kid'', JStr ''k'')]]))"
proof -
  have o: "codexAuthOrigin demo_codex = Inr ''https://auth.openai.com''" by (simp add: codexAuthOrigin_def origin_for_def demo_codex_def)
  have ks: "key_for demo_codex (JStr ''k'') 1000 None = (Inr (JObj [(''kid'', JStr ''k'')]), Some (3601000, [JObj [(''kid'', JStr ''k'')]]))"
    by (simp add: key_for_def loadJwks_def codexUrl_def o bind_act_def lift_res_apply return_act_apply) (simp add: demo_codex_def Let_def return_act_apply)
  have pp: "parsePart demo_codex ''h'' = Inr (JObj [(''alg'', JStr ''RS256''), (''kid'', JStr ''k'')])" "parsePart demo_codex ''p'' = Inr demo_payload"
    "cx_rsa demo_codex = (\<lambda>_ _ _. Inr True)" by (simp_all add: parsePart_def demo_codex_def demo_api_def)
  have "check_claims ''https://auth.openai.com'' [''https://api.openai.com/v1''] None 1000 demo_payload = Inr demo_identity"
    by (simp add: check_claims_def demo_payload_def demo_identity_def aud_ok_def reached_def opt_text_def)
  then show ?thesis
    by (simp add: verifyOpenAIToken_def pp bind_lift then_guard bind_act_Inr [where m = "key_for _ _ _", OF ks] o lift_res_apply)
qed

theorem verifyOpenAIToken_sound_witness:
  "\<exists>i c'. verifyOpenAIToken demo_codex ''h.p.s'' [''https://api.openai.com/v1''] None 1000 None = (Inr i, c') \<and> ci_account i = ''acc''"
  using demo_token_verified verifyOpenAIToken_sound [OF demo_token_verified] by (simp add: demo_identity_def)

lemma demo_file:
  "parseCodexAuthFile demo_codex ''file'' None 1000 None = (Inr \<lparr>cr_access = ''h.p.s'', cr_refresh = None, cr_id = None, cr_expires = ''t'',
     cr_client = CODEX_CLIENT_ID, cr_account = ''acc'', cr_email = None, cr_plan = None, cr_method = ''auth_file''\<rparr>, Some (3601000, [JObj [(''kid'', JStr ''k'')]]))"
proof -
  let ?v = "JObj [(''access_token'', JStr ''h.p.s''), (''chatgpt_account_id'', JStr ''acc'')]"
  let ?d = "\<lparr>ad_access = Some ''h.p.s'', ad_refresh = None, ad_id = None, ad_expires = None, ad_client = None, ad_hint = Some ''acc''\<rparr>"
  have p: "parseJson (cx_api demo_codex) ''file'' = Some ?v" by (simp add: demo_codex_def)
  have s: "CurrentAuthSchema ?v = None" "NestedAuthSchema demo_codex ?v = None" "FlatAuthSchema demo_codex ?v = Some ?v"
    by (simp_all add: CurrentAuthSchema_def NestedAuthSchema_def FlatAuthSchema_def z_strict_def token_shape_def hint_shape_def z_object_def z_optional_def)
  have e: "read_expiry demo_codex ?d = Inr (?d\<lparr>ad_expires := Some ''t''\<rparr>)"
    by (simp add: read_expiry_def filled_def the_default_def unsafeReadJwtExp_def parsePart_def demo_codex_def demo_payload_def)
  have x: "\<not> isExpired demo_codex 1000 (Some ''t'')" by (simp add: isExpired_def demo_codex_def)
  have f: "find_identity demo_codex (?d\<lparr>ad_expires := Some ''t''\<rparr>) None 1000 None None = (Inr (Some demo_identity), Some (3601000, [JObj [(''kid'', JStr ''k'')]]))"
    by (simp add: find_identity_def filled_def x accessIdentity_def verifyOpenAIAccessToken_def the_default_def catch_act_def
        bind_act_Inr [where m = "verifyOpenAIToken _ _ _ _ _", OF demo_token_verified] applyIdentity_def bind_lift return_act_apply)
       (simp add: demo_identity_def)
  have "normalize demo_codex ?d None 1000 None = (Inr \<lparr>cr_access = ''h.p.s'', cr_refresh = None, cr_id = None, cr_expires = ''t'',
     cr_client = CODEX_CLIENT_ID, cr_account = ''acc'', cr_email = None, cr_plan = None, cr_method = ''auth_file''\<rparr>, Some (3601000, [JObj [(''kid'', JStr ''k'')]]))"
    using f by (simp add: normalize_def then_guard filled_def bind_lift e bind_act_Inr [where m = "find_identity _ _ _ _ _"] x lift_res_apply finish_credential_def
        the_default_def demo_identity_def)
  moreover have "auth_data_of ?v = ?d" by (simp add: auth_data_of_def opt_text_def first_text_def)
  ultimately show ?thesis by (simp add: parseCodexAuthFile_def p s api_key_only_def)
qed


end
