(* ===== verification/Codex_Accounts.thy ===== *)
theory Codex_Accounts
  imports Codex_Tokens Resources
begin

text \<open>
  Accounts made from browser, device and file logins (\<open>lib/codex/create-account.ts\<close>, \<open>lib/claude/create-account.ts\<close>): the name
  of the account, the search for the account the login belongs to, the upsert with the new secret and the removal of the old one.
\<close>

section \<open>Names\<close>

text \<open>\<open>replace(/[^a-z0-9]+/g, '-')\<close>: every run of other characters becomes one dash.\<close>

fun dash_runs :: "bool \<Rightarrow> string \<Rightarrow> string" where
  "dash_runs inside [] = []"
| "dash_runs inside (c # cs) =
     (if is_lower c \<or> is_digit c then c # dash_runs False cs
      else if inside then dash_runs True cs else CHR ''-'' # dash_runs True cs)"

definition strip_dashes :: "string \<Rightarrow> string" where
  "strip_dashes s = rev (dropWhile (\<lambda>c. c = CHR ''-'') (rev (dropWhile (\<lambda>c. c = CHR ''-'') s)))"

definition safeNamePart :: "string \<Rightarrow> string" where
  "safeNamePart v = take 80 (strip_dashes (dash_runs False (toLowerCase (js_trim v))))"

section \<open>Codex accounts\<close>

record codex_input =
  in_name :: "string option"
  in_account :: "uuid option"
  in_method :: string
  in_credential :: codex_credential
  in_enabled :: "bool option"
  in_max :: "int option"
  in_provider :: "uuid option"

definition name_part :: "string option \<Rightarrow> string" where
  "name_part o' = (case o' of None \<Rightarrow> [] | Some s \<Rightarrow> if s = [] then [] else safeNamePart s)"

definition accountName :: "string \<Rightarrow> codex_input \<Rightarrow> string" where
  "accountName random inp =
     (if filled (in_name inp) then the_default [] (in_name inp)
      else if name_part (cr_email (in_credential inp)) \<noteq> [] then ''codex-'' @ name_part (cr_email (in_credential inp))
      else if name_part (Some (cr_account (in_credential inp))) \<noteq> [] then ''codex-'' @ name_part (Some (cr_account (in_credential inp)))
      else ''codex-'' @ random)"

definition credential_doc :: "codex_credential \<Rightarrow> jv" where
  "credential_doc c =
     JObj (filter (\<lambda>p. snd p \<noteq> JUndef)
       [(''kind'', JStr ''oauth''), (''access_token'', JStr (cr_access c)), (''refresh_token'', opt_json (cr_refresh c)), (''id_token'', opt_json (cr_id c)),
        (''expires_at'', JStr (cr_expires c)), (''client_id'', JStr (cr_client c)), (''chatgpt_account_id'', JStr (cr_account c)),
        (''email'', opt_json (cr_email c)), (''plan_type'', opt_json (cr_plan c)), (''auth_method'', JStr (cr_method c))])"

definition codex_provider :: "codex_input \<Rightarrow> db \<Rightarrow> provider_row option" where
  "codex_provider inp d =
     (case in_provider inp of Some p \<Rightarrow> find_provider p d | None \<Rightarrow> find (\<lambda>p. p_slug p = ''openai-codex'') (providers d))"

definition existing_account :: "codex_input \<Rightarrow> uuid \<Rightarrow> db \<Rightarrow> account_row option" where
  "existing_account inp p d =
     (case in_account inp of
        Some i \<Rightarrow> find (\<lambda>a. a_id a = i \<and> a_provider a = p) (accounts d)
      | None \<Rightarrow> if cr_account (in_credential inp) = [] then None
          else find (\<lambda>a. a_provider a = p \<and> a_external a = Some (cr_account (in_credential inp))) (accounts d))"

definition target_account :: "codex_input \<Rightarrow> uuid \<Rightarrow> string \<Rightarrow> db \<Rightarrow> account_row option" where
  "target_account inp p name d =
     (case existing_account inp p d of Some a \<Rightarrow> Some a | None \<Rightarrow> find (\<lambda>a. a_provider a = p \<and> a_name a = name) (accounts d))"

definition CODEX_BASE_URL :: string where
  "CODEX_BASE_URL = ''https://chatgpt.com/backend-api/codex''"

definition display_of :: "codex_input \<Rightarrow> string \<Rightarrow> string" where
  "display_of inp name = (case cr_email (in_credential inp) of Some e \<Rightarrow> if e = [] then name else ''Codex '' @ e | None \<Rightarrow> name)"

definition codex_metadata :: "codex_input \<Rightarrow> jv" where
  "codex_metadata inp = JObj [(''provider'', JStr ''openai-codex''), (''auth_method'', JStr (in_method inp))]"

text \<open>The columns both statements set.\<close>

definition linked :: "codex_input \<Rightarrow> string \<Rightarrow> uuid \<Rightarrow> account_row \<Rightarrow> account_row" where
  "linked inp name sid a =
     a\<lparr>a_secret := Some sid, a_display := display_of inp name, a_base_url := CODEX_BASE_URL, a_enabled := the_default True (in_enabled inp),
       a_max_concurrency := the_default 1 (in_max inp), a_external := Some (cr_account (in_credential inp)), a_email := cr_email (in_credential inp),
       a_plan := cr_plan (in_credential inp), a_expires := Some (cr_expires (in_credential inp)), a_persistence := ''persisted'',
       a_revision := a_revision a + 1, a_metadata := codex_metadata inp\<rparr>"

definition new_account :: "codex_input \<Rightarrow> uuid \<Rightarrow> string \<Rightarrow> uuid \<Rightarrow> uuid \<Rightarrow> account_row" where
  "new_account inp p name sid i =
     linked inp name sid \<lparr>a_id = i, a_provider = p, a_secret = None, a_name = name, a_display = [], a_base_url = [], a_enabled = True, a_priority = 1,
       a_weight = 1, a_max_concurrency = 1, a_cost = 0, a_metadata = JNull, a_revision = 0, a_external = None, a_email = None, a_plan = None,
       a_expires = None, a_persistence = []\<rparr>"

text \<open>The \<open>UPDATE\<close> of the target; or the \<open>INSERT\<close>, whose name may be taken by an account of another provider.\<close>

definition upsert_account :: "codex_input \<Rightarrow> uuid \<Rightarrow> string \<Rightarrow> uuid \<Rightarrow> account_row option \<Rightarrow> (db, account_row) act" where
  "upsert_account inp p name sid target =
     (case target of
        Some a \<Rightarrow> then_act (modify_act (\<lambda>d. d\<lparr>accounts := update_where (\<lambda>r. a_id r = a_id a) (linked inp name sid) (accounts d)\<rparr>))
                 (return_act (linked inp name sid a))
      | None \<Rightarrow>
          bind_act (gets_act (\<lambda>d. find (\<lambda>r. a_name r = name) (accounts d))) (\<lambda>taken. case taken of
            Some _ \<Rightarrow> throw (JsError ''codex_account_upsert_failed'')
          | None \<Rightarrow> bind_act fresh_id (\<lambda>i.
              then_act (modify_act (\<lambda>d. d\<lparr>accounts := accounts d @ [new_account inp p name sid i]\<rparr>)) (return_act (new_account inp p name sid i)))))"

definition drop_old_secret :: "account_row option \<Rightarrow> uuid \<Rightarrow> (db, unit) act" where
  "drop_old_secret target sid =
     (case target of None \<Rightarrow> return_act () | Some a \<Rightarrow> if a_secret a = Some sid then return_act () else delete_secret (a_secret a))"

definition createCodexAccount :: "sn_env \<Rightarrow> string \<Rightarrow> codex_input \<Rightarrow> (db, uuid \<times> int) act" where
  "createCodexAccount env random inp =
     bind_act (gets_act (codex_provider inp)) (\<lambda>prov. case prov of
       None \<Rightarrow> throw (JsError ''codex_provider_missing'')
     | Some p \<Rightarrow>
        let name = accountName random inp in
        bind_act (gets_act (existing_account inp (p_id p))) (\<lambda>existing.
        then_act (guard_act (in_account inp = None \<or> existing \<noteq> None) (JsError ''codex_account_missing''))
       (bind_act (gets_act (target_account inp (p_id p) name)) (\<lambda>target.
        bind_act (insertSecret ''codex-oauth'' (credential_doc (in_credential inp))) (\<lambda>sid.
        bind_act (upsert_account inp (p_id p) name sid target) (\<lambda>row.
        then_act (drop_old_secret target sid)
       (then_act (storeDraft env)
       (then_act (audit ''codex_account_upsert'' ''account'' (Some (show_nat (a_id row)))
          (JObj [(''account_id'', id_json (a_id row)), (''method'', JStr (in_method inp)),
            (''plan'', case cr_plan (in_credential inp) of None \<Rightarrow> JNull | Some s \<Rightarrow> JStr s), (''revision'', int_json (a_revision row))]))
       (return_act (a_id row, a_revision row))))))))))"

section \<open>Claude accounts\<close>

record claude_token =
  ck_access :: string
  ck_refresh :: "string option"
  ck_expires :: string
  ck_email :: "string option"
  ck_uuid :: "string option"

record claude_input =
  cl_token :: claude_token
  cl_display :: "string option"
  cl_priority :: "int option"
  cl_max :: "int option"

definition ANTHROPIC_BASE_URL :: string where
  "ANTHROPIC_BASE_URL = ''https://api.anthropic.com''"

definition claudeNamePart :: "string \<Rightarrow> string" where
  "claudeNamePart v = (let s = take 48 (strip_dashes (dash_runs False (toLowerCase v))) in if s = [] then ''account'' else s)"

definition ensureAnthropicProvider :: "(db, uuid) act" where
  "ensureAnthropicProvider =
     bind_act (gets_act (\<lambda>d. find (\<lambda>p. p_adapter p = ''anthropic'' \<and> p_base_url p = ANTHROPIC_BASE_URL) (providers d))) (\<lambda>existing. case existing of
       Some p \<Rightarrow> return_act (p_id p)
     | None \<Rightarrow>
        bind_act (gets_act (\<lambda>d. list_ex (\<lambda>p. p_slug p = ''anthropic'') (providers d))) (\<lambda>taken.
        then_act (guard_act (\<not> taken) (DbError ''providers_slug_key''))
       (bind_act fresh_id (\<lambda>i.
        then_act (modify_act (\<lambda>d. d\<lparr>providers := providers d @ [\<lparr>p_id = i, p_slug = ''anthropic'', p_name = ''Anthropic'', p_adapter = ''anthropic'',
            p_base_url = ANTHROPIC_BASE_URL, p_enabled = True, p_metadata = JObj []\<rparr>]\<rparr>))
       (return_act i)))))"

definition claudeAccountName :: "string \<Rightarrow> claude_token \<Rightarrow> string" where
  "claudeAccountName random t =
     ''claude-'' @ (if filled (ck_uuid t) then claudeNamePart (the_default [] (ck_uuid t))
       else if filled (ck_email t) then claudeNamePart (the_default [] (ck_email t)) else random)"

definition claudeDisplayName :: "claude_input \<Rightarrow> string" where
  "claudeDisplayName inp =
     (let given = js_trim (the_default [] (cl_display inp)) in
      if given \<noteq> [] then given
      else if filled (ck_email (cl_token inp)) then ''Claude '' @ the_default [] (ck_email (cl_token inp)) else ''Claude account'')"

definition claude_credential :: "claude_token \<Rightarrow> jv" where
  "claude_credential t =
     JObj (filter (\<lambda>p. snd p \<noteq> JUndef)
       [(''kind'', JStr ''oauth''), (''access_token'', JStr (ck_access t)), (''refresh_token'', opt_json (ck_refresh t)), (''expires_at'', JStr (ck_expires t)),
        (''client_id'', JStr ''9d1c250a-e61b-44d9-88ed-5944d1962f5e''), (''revision'', int_json 1)])"

definition claude_metadata :: jv where
  "claude_metadata = JObj [(''provider'', JStr ''anthropic''), (''auth_method'', JStr ''browser'')]"

text \<open>\<open>ON CONFLICT (name) DO UPDATE\<close> without a condition on the provider.\<close>

definition claude_relinked :: "claude_input \<Rightarrow> uuid \<Rightarrow> account_row \<Rightarrow> account_row" where
  "claude_relinked inp sid a =
     a\<lparr>a_secret := Some sid, a_display := claudeDisplayName inp, a_enabled := True, a_expires := Some (ck_expires (cl_token inp)),
       a_persistence := ''persisted'', a_revision := a_revision a + 1, a_metadata := claude_metadata\<rparr>"

definition claude_account :: "claude_input \<Rightarrow> uuid \<Rightarrow> string \<Rightarrow> uuid \<Rightarrow> uuid \<Rightarrow> account_row" where
  "claude_account inp p name sid i =
     \<lparr>a_id = i, a_provider = p, a_secret = Some sid, a_name = name, a_display = claudeDisplayName inp, a_base_url = ANTHROPIC_BASE_URL, a_enabled = True,
      a_priority = the_default 1 (cl_priority inp), a_weight = 1, a_max_concurrency = the_default 1 (cl_max inp), a_cost = 0, a_metadata = claude_metadata,
      a_revision = 1, a_external = ck_uuid (cl_token inp), a_email = ck_email (cl_token inp), a_plan = None, a_expires = Some (ck_expires (cl_token inp)),
      a_persistence = ''persisted''\<rparr>"

definition upsert_claude :: "claude_input \<Rightarrow> uuid \<Rightarrow> string \<Rightarrow> uuid \<Rightarrow> (db, account_row) act" where
  "upsert_claude inp p name sid =
     bind_act (gets_act (\<lambda>d. find (\<lambda>r. a_name r = name) (accounts d))) (\<lambda>taken. case taken of
       Some a \<Rightarrow> then_act (modify_act (\<lambda>d. d\<lparr>accounts := update_where (\<lambda>r. a_name r = name) (claude_relinked inp sid) (accounts d)\<rparr>))
                (return_act (claude_relinked inp sid a))
     | None \<Rightarrow> bind_act fresh_id (\<lambda>i.
         then_act (modify_act (\<lambda>d. d\<lparr>accounts := accounts d @ [claude_account inp p name sid i]\<rparr>)) (return_act (claude_account inp p name sid i))))"

definition createClaudeOAuthAccount :: "sn_env \<Rightarrow> string \<Rightarrow> claude_input \<Rightarrow> (db, uuid \<times> int) act" where
  "createClaudeOAuthAccount env random inp =
     bind_act ensureAnthropicProvider (\<lambda>p.
     bind_act (insertSecret ''claude-oauth'' (claude_credential (cl_token inp))) (\<lambda>sid.
     bind_act (upsert_claude inp p (claudeAccountName random (cl_token inp)) sid) (\<lambda>row.
     then_act (storeDraft env)
    (then_act (audit ''claude_account_upsert'' ''account'' (Some (show_nat (a_id row)))
       (JObj [(''method'', JStr ''browser''), (''email'', case ck_email (cl_token inp) of None \<Rightarrow> JNull | Some s \<Rightarrow> JStr s), (''revision'', int_json (a_revision row))]))
    (return_act (a_id row, a_revision row))))))"

section \<open>What a login changes\<close>

definition with_secret :: "string \<Rightarrow> jv \<Rightarrow> db \<Rightarrow> db" where
  "with_secret purpose v d = d\<lparr>next_id := Suc (next_id d), secrets := secrets d @ [\<lparr>s_id = next_id d, s_purpose = purpose, s_sealed = v\<rparr>]\<rparr>"

lemma with_secret_simps [simp]:
  "accounts (with_secret purpose v d) = accounts d" "next_id (with_secret purpose v d) = Suc (next_id d)"
  "secrets (with_secret purpose v d) = secrets d @ [\<lparr>s_id = next_id d, s_purpose = purpose, s_sealed = v\<rparr>]"
  "providers (with_secret purpose v d) = providers d"
  by (simp_all add: with_secret_def)

lemma createCodexAccount_InrE:
  assumes "createCodexAccount env random inp d = (Inr (i, r), d')"
  obtains p row t u where "codex_provider inp d = Some p"
    and "upsert_account inp (p_id p) (accountName random inp) (next_id d) (target_account inp (p_id p) (accountName random inp) d)
           (with_secret ''codex-oauth'' (credential_doc (in_credential inp)) d) = (Inr row, t)"
    and "drop_old_secret (target_account inp (p_id p) (accountName random inp) d) (next_id d) t = (Inr (), u)"
    and "accounts d' = accounts u" and "secrets d' = secrets u" and "i = a_id row" and "r = a_revision row"
proof -
  obtain p where p: "codex_provider inp d = Some p"
    using assms by (auto simp: createCodexAccount_def bind_gets throw_apply split: option.splits)
  let ?t = "target_account inp (p_id p) (accountName random inp) d"
  obtain row t where up: "upsert_account inp (p_id p) (accountName random inp) (next_id d) ?t
           (with_secret ''codex-oauth'' (credential_doc (in_credential inp)) d) = (Inr row, t)"
    and r1: "then_act (drop_old_secret ?t (next_id d))
       (then_act (storeDraft env)
       (then_act (audit ''codex_account_upsert'' ''account'' (Some (show_nat (a_id row)))
          (JObj [(''account_id'', id_json (a_id row)), (''method'', JStr (in_method inp)),
            (''plan'', case cr_plan (in_credential inp) of None \<Rightarrow> JNull | Some s \<Rightarrow> JStr s), (''revision'', int_json (a_revision row))]))
       (return_act (a_id row, a_revision row)))) t = (Inr (i, r), d')"
    using assms
    by (auto simp: createCodexAccount_def bind_gets p Let_def then_guard bind_insertSecret with_secret_def split: if_splits elim!: bind_act_InrE)
  obtain x u where dr: "drop_old_secret ?t (next_id d) t = (Inr x, u)"
    and r2: "then_act (storeDraft env)
       (then_act (audit ''codex_account_upsert'' ''account'' (Some (show_nat (a_id row)))
          (JObj [(''account_id'', id_json (a_id row)), (''method'', JStr (in_method inp)),
            (''plan'', case cr_plan (in_credential inp) of None \<Rightarrow> JNull | Some s \<Rightarrow> JStr s), (''revision'', int_json (a_revision row))]))
       (return_act (a_id row, a_revision row))) u = (Inr (i, r), d')"
    using r1 by (rule then_act_InrE)
  have fin: "accounts d' = accounts u" "secrets d' = secrets u" "i = a_id row" "r = a_revision row"
    using r2 by (auto simp: then_storeDraft bind_audit return_act_apply with_draft_def split: sum.splits)
  show thesis using that [OF p up _ fin] dr by simp
qed

lemma drop_old_secret_Inr:
  assumes "drop_old_secret target sid t = (Inr (), u)"
  shows "accounts u = accounts t \<and> (\<exists>old. secrets u = delete_where (\<lambda>r. Some (s_id r) = old) (secrets t) \<and> old \<noteq> Some sid
     \<and> (\<forall>a. target = Some a \<and> a_secret a \<noteq> Some sid \<longrightarrow> old = a_secret a))"
proof (cases target)
  case None
  then show ?thesis using assms by (auto simp: drop_old_secret_def return_act_apply delete_where_def intro!: exI [of _ None])
next
  case (Some a)
  show ?thesis
  proof (cases "a_secret a = Some sid \<or> a_secret a = None")
    case True
    then have "u = t" using assms Some by (auto simp: drop_old_secret_def delete_secret_def return_act_apply split: if_splits)
    then show ?thesis using True Some by (auto simp: delete_where_def intro!: exI [of _ None])
  next
    case False
    then obtain s where s: "a_secret a = Some s" "s \<noteq> sid" by auto
    have "secrets u = delete_where (\<lambda>r. s_id r = s) (secrets t) \<and> accounts u = accounts t"
      using assms Some s by (auto simp: drop_old_secret_def delete_secret_def bind_gets then_guard modify_act_apply split: if_splits)
    then show ?thesis using s Some by (intro conjI exI [of _ "Some s"]) auto
  qed
qed

definition ids_ok :: "db \<Rightarrow> bool" where
  "ids_ok d \<longleftrightarrow> distinct (map a_id (accounts d)) \<and> (\<forall>a\<in>set (accounts d). a_id a < next_id d \<and> (\<forall>s. a_secret a = Some s \<longrightarrow> s < next_id d))
     \<and> (\<forall>s\<in>set (secrets d). s_id s < next_id d)"

definition same_identity :: "uuid \<Rightarrow> string \<Rightarrow> account_row \<Rightarrow> bool" where
  "same_identity p ext a \<longleftrightarrow> a_provider a = p \<and> a_external a = Some ext"

lemma linked_fields [simp]:
  "a_id (linked inp name sid a) = a_id a" "a_provider (linked inp name sid a) = a_provider a" "a_secret (linked inp name sid a) = Some sid"
  "a_external (linked inp name sid a) = Some (cr_account (in_credential inp))" "a_revision (linked inp name sid a) = a_revision a + 1"
  "a_name (linked inp name sid a) = a_name a"
  by (simp_all add: linked_def)

lemma target_account_SomeD:
  assumes "target_account inp p name d = Some a" and "in_account inp = None" and "cr_account (in_credential inp) \<noteq> []"
  shows "a \<in> set (accounts d)" and "a_provider a = p"
    and "same_identity p (cr_account (in_credential inp)) a \<or> (\<forall>b\<in>set (accounts d). \<not> same_identity p (cr_account (in_credential inp)) b)"
  using assms
  by (auto simp: target_account_def existing_account_def same_identity_def find_None_set split: option.splits dest!: find_Some_set)

lemma target_account_NoneD:
  "target_account inp p name d = None \<Longrightarrow> in_account inp = None \<Longrightarrow> cr_account (in_credential inp) \<noteq> [] \<Longrightarrow>
   \<forall>b\<in>set (accounts d). \<not> same_identity p (cr_account (in_credential inp)) b"
  by (auto simp: target_account_def existing_account_def same_identity_def find_None_set split: option.splits)

text \<open>Relinking one row of a table whose identities are unique leaves that row as the only one of the identity.\<close>

lemma update_unique:
  assumes "distinct (map key rs)" and "r \<in> set rs"
  obtains ys zs where "rs = ys @ r # zs" and "\<forall>x\<in>set ys \<union> set zs. key x \<noteq> key r"
    and "update_where (\<lambda>x. key x = key r) f rs = ys @ f r # zs"
proof -
  obtain ys zs where rs: "rs = ys @ r # zs" using assms(2) by (meson split_list)
  then have ne: "\<forall>x\<in>set ys \<union> set zs. key x \<noteq> key r" using assms(1) by (auto simp: image_iff)
  then have "update_where (\<lambda>x. key x = key r) f ys = ys" "update_where (\<lambda>x. key x = key r) f zs = zs"
    by (simp_all add: update_where_none)
  then show thesis using that [OF rs ne] rs by simp
qed

lemma relink_unique:
  assumes "distinct (map a_id as)" and "a \<in> set as" and "\<forall>b\<in>set as. P b \<longrightarrow> b = a" and "P (f a)" and "\<And>b. a_id (f b) = a_id b"
  shows "filter P (update_where (\<lambda>r. a_id r = a_id a) f as) = [f a]
    \<and> filter (\<lambda>b. a_id b \<noteq> a_id a) (update_where (\<lambda>r. a_id r = a_id a) f as) = filter (\<lambda>b. a_id b \<noteq> a_id a) as"
proof -
  obtain ys zs where as: "as = ys @ a # zs" and ne: "\<forall>x\<in>set ys \<union> set zs. a_id x \<noteq> a_id a"
    and up: "update_where (\<lambda>r. a_id r = a_id a) f as = ys @ f a # zs"
    using assms(1,2) by (rule update_unique)
  have "filter P ys = []" "filter P zs = []" using assms(3) ne by (auto simp: as filter_empty_conv)
  moreover have "filter (\<lambda>b. a_id b \<noteq> a_id a) ys = ys" "filter (\<lambda>b. a_id b \<noteq> a_id a) zs = zs" using ne by (auto simp: filter_id_conv)
  ultimately show ?thesis using assms(4,5) by (simp add: up) (simp add: as)
qed

text \<open>A login that is not tied to an account is stored on exactly one account of its identity: afterwards the provider has a single account with that
  external id, it holds the new credential and its revision is one more than before, the credential it had before is
  gone, and no other account has changed.\<close>

theorem createCodexAccount_upsert:
  assumes run: "createCodexAccount env random inp d = (Inr (i, r), d')" and free: "in_account inp = None" and ext: "cr_account (in_credential inp) \<noteq> []"
    and ok: "ids_ok d" and prov: "codex_provider inp d = Some p"
    and uniq: "\<forall>a\<in>set (accounts d). \<forall>b\<in>set (accounts d). same_identity (p_id p) (cr_account (in_credential inp)) a \<and> same_identity (p_id p) (cr_account (in_credential inp)) b \<longrightarrow> a = b"
  shows "\<exists>row sec. filter (same_identity (p_id p) (cr_account (in_credential inp))) (accounts d') = [row] \<and> a_id row = i \<and> a_revision row = r
     \<and> sec \<in> set (secrets d') \<and> a_secret row = Some (s_id sec) \<and> s_sealed sec = credential_doc (in_credential inp)
     \<and> filter (\<lambda>a. a_id a \<noteq> i) (accounts d') = filter (\<lambda>a. a_id a \<noteq> i) (accounts d)
     \<and> (\<forall>a\<in>set (accounts d). a_id a = i \<longrightarrow> r = a_revision a + 1 \<and> (\<forall>s\<in>set (secrets d'). a_secret a \<noteq> Some (s_id s)))"
proof -
  let ?n = "accountName random inp" and ?S = "same_identity (p_id p) (cr_account (in_credential inp))"
  let ?t = "target_account inp (p_id p) ?n d" and ?d = "with_secret ''codex-oauth'' (credential_doc (in_credential inp)) d"
  let ?sec = "\<lparr>s_id = next_id d, s_purpose = ''codex-oauth'', s_sealed = credential_doc (in_credential inp)\<rparr>"
  obtain p' row t u where p': "codex_provider inp d = Some p'"
    and up: "upsert_account inp (p_id p') ?n (next_id d) (target_account inp (p_id p') ?n d) ?d = (Inr row, t)"
    and dr: "drop_old_secret (target_account inp (p_id p') ?n d) (next_id d) t = (Inr (), u)"
    and fin: "accounts d' = accounts u" "secrets d' = secrets u" "i = a_id row" "r = a_revision row"
    by (rule createCodexAccount_InrE [OF run])
  have [simp]: "p' = p" using p' prov by simp
  obtain old where acc: "accounts u = accounts t" and sec: "secrets u = delete_where (\<lambda>r. Some (s_id r) = old) (secrets t)" and old: "old \<noteq> Some (next_id d)"
      "\<And>a. ?t = Some a \<Longrightarrow> a_secret a \<noteq> Some (next_id d) \<Longrightarrow> old = a_secret a"
    using drop_old_secret_Inr [OF dr] by auto
  have dist: "distinct (map a_id (accounts d))" and fresh: "\<And>a. a \<in> set (accounts d) \<Longrightarrow> a_id a < next_id d \<and> a_secret a \<noteq> Some (next_id d)"
    using ok by (auto simp: ids_ok_def)
  show ?thesis
  proof (cases ?t)
    case None
    then have none: "\<forall>b\<in>set (accounts d). \<not> ?S b" using free ext by (rule target_account_NoneD)
    have t: "accounts t = accounts d @ [row]" "secrets t = secrets d @ [?sec]" and row: "row = new_account inp (p_id p) ?n (next_id d) (Suc (next_id d))"
      using up None by (auto simp: upsert_account_def bind_gets throw_apply bind_fresh_id then_modify return_act_apply split: option.splits)
    have "?S row" "a_id row = Suc (next_id d)" "a_secret row = Some (next_id d)" by (simp_all add: row new_account_def same_identity_def)
    moreover have "filter ?S (accounts d) = []" using none by (simp add: filter_empty_conv)
    moreover have "\<forall>a\<in>set (accounts d). a_id a \<noteq> Suc (next_id d)" using fresh by fastforce
    ultimately show ?thesis
      using fin acc sec t old(1) by (intro exI [of _ row] exI [of _ ?sec]) (auto simp: filter_id_conv)
  next
    case (Some a)
    note a = target_account_SomeD [OF Some free ext]
    have t: "accounts t = update_where (\<lambda>r. a_id r = a_id a) (linked inp ?n (next_id d)) (accounts d)" "secrets t = secrets d @ [?sec]"
      and row: "row = linked inp ?n (next_id d) a"
      using up Some by (auto simp: upsert_account_def then_modify return_act_apply)
    have "\<forall>b\<in>set (accounts d). ?S b \<longrightarrow> b = a" using a uniq by blast
    moreover have "?S (linked inp ?n (next_id d) a)" using a(2) by (simp add: same_identity_def)
    ultimately have rl: "filter ?S (accounts t) = [row]" "filter (\<lambda>b. a_id b \<noteq> a_id a) (accounts t) = filter (\<lambda>b. a_id b \<noteq> a_id a) (accounts d)"
      using relink_unique [OF dist a(1), of ?S "linked inp ?n (next_id d)"] by (simp_all add: t row)
    have old_a: "old = a_secret a" using old(2) [OF Some] fresh [OF a(1)] by blast
    have gone: "\<forall>b\<in>set (accounts d). a_id b = a_id a \<longrightarrow> a_revision row = a_revision b + 1 \<and> (\<forall>s\<in>set (secrets u). a_secret b \<noteq> Some (s_id s))"
    proof (intro ballI impI)
      fix b assume "b \<in> set (accounts d)" "a_id b = a_id a"
      then have "b = a" using unique_key_eq [OF dist] a(1) by blast
      then show "a_revision row = a_revision b + 1 \<and> (\<forall>s\<in>set (secrets u). a_secret b \<noteq> Some (s_id s))"
        using old_a by (auto simp: sec row)
    qed
    have "?sec \<in> set (secrets u)" using old(1) by (simp add: sec t(2))
    then show ?thesis
      using fin acc rl gone by (intro exI [of _ row] exI [of _ ?sec]) (simp add: row)
  qed
qed

text \<open>A Claude login whose account name is already taken replaces the credential of the account of that name whatever its provider: the account keeps its
  provider and its address and is left with the Anthropic tokens.\<close>

theorem claude_login_takes_foreign_account:
  assumes "createClaudeOAuthAccount env random inp d = (Inr (i, r), d')" and "distinct (map a_name (accounts d))" and "a \<in> set (accounts d)"
    and "a_name a = claudeAccountName random (cl_token inp)"
  shows "\<exists>b\<in>set (accounts d'). a_id b = a_id a \<and> a_provider b = a_provider a \<and> a_base_url b = a_base_url a
     \<and> (\<exists>sec\<in>set (secrets d'). a_secret b = Some (s_id sec) \<and> s_sealed sec = claude_credential (cl_token inp))"
proof -
  let ?n = "claudeAccountName random (cl_token inp)"
  obtain p d1 where p: "ensureAnthropicProvider d = (Inr p, d1)" and same: "accounts d1 = accounts d"
    and rest: "bind_act (upsert_claude inp p ?n (next_id d1)) (\<lambda>row.
     then_act (storeDraft env)
    (then_act (audit ''claude_account_upsert'' ''account'' (Some (show_nat (a_id row)))
       (JObj [(''method'', JStr ''browser''), (''email'', case ck_email (cl_token inp) of None \<Rightarrow> JNull | Some s \<Rightarrow> JStr s), (''revision'', int_json (a_revision row))]))
    (return_act (a_id row, a_revision row)))) (with_secret ''claude-oauth'' (claude_credential (cl_token inp)) d1) = (Inr (i, r), d')"
  proof (rule bind_act_InrE [OF assms(1) [unfolded createClaudeOAuthAccount_def]])
    fix p d1 assume p: "ensureAnthropicProvider d = (Inr p, d1)"
      and r: "bind_act (insertSecret ''claude-oauth'' (claude_credential (cl_token inp))) (\<lambda>sid.
        bind_act (upsert_claude inp p ?n sid) (\<lambda>row.
        then_act (storeDraft env)
        (then_act (audit ''claude_account_upsert'' ''account'' (Some (show_nat (a_id row)))
       (JObj [(''method'', JStr ''browser''), (''email'', case ck_email (cl_token inp) of None \<Rightarrow> JNull | Some s \<Rightarrow> JStr s), (''revision'', int_json (a_revision row))]))
        (return_act (a_id row, a_revision row))))) d1 = (Inr (i, r), d')"
    have "accounts d1 = accounts d"
      using p by (auto simp: ensureAnthropicProvider_def bind_gets return_act_apply then_guard bind_fresh_id then_modify split: option.splits if_splits)
    then show thesis using that [OF p] r by (simp add: bind_insertSecret with_secret_def)
  qed
  have f: "find (\<lambda>r. a_name r = ?n) (accounts d) = Some a" using find_unique_key [OF assms(2,3)] assms(4) by simp
  let ?b = "claude_relinked inp (next_id d1) a"
  have mem: "?b \<in> set (update_where (\<lambda>r. a_name r = ?n) (claude_relinked inp (next_id d1)) (accounts d))"
    using assms(3,4) by (force simp: set_update_where)
  have up: "upsert_claude inp p ?n (next_id d1) (with_secret ''claude-oauth'' (claude_credential (cl_token inp)) d1) =
      (Inr ?b, (with_secret ''claude-oauth'' (claude_credential (cl_token inp)) d1)\<lparr>accounts := update_where (\<lambda>r. a_name r = ?n) (claude_relinked inp (next_id d1)) (accounts d)\<rparr>)"
    by (simp add: upsert_claude_def bind_gets same f then_modify return_act_apply)
  have "accounts d' = update_where (\<lambda>r. a_name r = ?n) (claude_relinked inp (next_id d1)) (accounts d)
      \<and> secrets d' = secrets d1 @ [\<lparr>s_id = next_id d1, s_purpose = ''claude-oauth'', s_sealed = claude_credential (cl_token inp)\<rparr>]"
    using rest by (auto simp: bind_act_Inr [where m = "upsert_claude _ _ _ _", OF up] then_storeDraft bind_audit return_act_apply split: sum.splits)
  with mem show ?thesis by (intro bexI [of _ ?b]) (auto simp: claude_relinked_def)
qed

section \<open>Witnesses\<close>

definition demo_link_db :: db where
  "demo_link_db = empty_db\<lparr>providers := [sample_provider 1 ''openai-codex''], vkeys := [demo_key 4 []], next_id := 9\<rparr>"

definition demo_login :: codex_input where
  "demo_login = \<lparr>in_name = Some ''n'', in_account = None, in_method = ''import'', in_credential = \<lparr>cr_access = ''t'', cr_refresh = None, cr_id = None, cr_expires = ''e'',
     cr_client = ''c'', cr_account = ''acc'', cr_email = None, cr_plan = None, cr_method = ''auth_file''\<rparr>, in_enabled = None, in_max = None, in_provider = None\<rparr>"

lemma demo_login_runs: "\<exists>i r d'. createCodexAccount demo_sn ''r'' demo_login demo_link_db = (Inr (i, r), d')"
proof -
  let ?p = "sample_provider 1 ''openai-codex''"
  have p: "codex_provider demo_login demo_link_db = Some ?p"
    by (simp add: codex_provider_def demo_login_def demo_link_db_def sample_provider_def)
  have e: "existing_account demo_login i demo_link_db = None" "target_account demo_login i n demo_link_db = None" for i n
    by (simp_all add: existing_account_def target_account_def demo_login_def demo_link_db_def empty_db_def)
  have nd: "in_account demo_login = None" by (simp add: demo_login_def)
  let ?d = "demo_link_db\<lparr>next_id := Suc (next_id demo_link_db), secrets := secrets demo_link_db @
     [\<lparr>s_id = next_id demo_link_db, s_purpose = ''codex-oauth'', s_sealed = credential_doc (in_credential demo_login)\<rparr>]\<rparr>"
  obtain row t where up: "upsert_account demo_login (p_id ?p) (accountName ''r'' demo_login) (next_id demo_link_db) None ?d = (Inr row, t)"
    and same: "aliases t = [] \<and> enabled_keys t \<noteq> [] \<and> routing t = None \<and> settings t = []"
    by (simp add: upsert_account_def bind_gets bind_fresh_id then_modify return_act_apply demo_link_db_def empty_db_def)
       (simp add: enabled_keys_def demo_key_def)
  obtain c where c: "compileDeclarativeSnapshot demo_sn t = Inr c"
    using no_models_compile [of t demo_sn] same by auto
  show ?thesis
    by (simp add: createCodexAccount_def bind_gets p e nd Let_def then_guard bind_insertSecret bind_act_Inr [where m = "upsert_account _ _ _ _ _", OF up [simplified]]
        drop_old_secret_def then_return then_storeDraft c bind_audit return_act_apply)
qed

theorem createCodexAccount_upsert_witness:
  "\<exists>i r d' row. createCodexAccount demo_sn ''r'' demo_login demo_link_db = (Inr (i, r), d') \<and> filter (same_identity 1 ''acc'') (accounts d') = [row]"
proof -
  obtain i r d' where run: "createCodexAccount demo_sn ''r'' demo_login demo_link_db = (Inr (i, r), d')" using demo_login_runs by blast
  have "in_account demo_login = None" "cr_account (in_credential demo_login) \<noteq> []" "ids_ok demo_link_db"
      "codex_provider demo_login demo_link_db = Some (sample_provider 1 ''openai-codex'')"
    by (simp_all add: demo_login_def ids_ok_def demo_link_db_def empty_db_def codex_provider_def sample_provider_def)
  note up = createCodexAccount_upsert [OF run this]
  have "accounts demo_link_db = []" by (simp add: demo_link_db_def empty_db_def)
  with up obtain row where "filter (same_identity (p_id (sample_provider 1 ''openai-codex'')) (cr_account (in_credential demo_login))) (accounts d') = [row]"
    by auto
  then show ?thesis using run by (auto simp: sample_provider_def demo_login_def)
qed

definition demo_claude :: claude_input where
  "demo_claude = \<lparr>cl_token = \<lparr>ck_access = ''t'', ck_refresh = None, ck_expires = ''e'', ck_email = None, ck_uuid = None\<rparr>, cl_display = None, cl_priority = None, cl_max = None\<rparr>"

definition demo_claude_db :: db where
  "demo_claude_db = empty_db\<lparr>providers := [(sample_provider 1 ''anthropic'')\<lparr>p_base_url := ANTHROPIC_BASE_URL\<rparr>], accounts := [sample_account 2 7 ''claude-r''],
     vkeys := [demo_key 4 []], next_id := 9\<rparr>"

lemma demo_claude_runs: "\<exists>i r d'. createClaudeOAuthAccount demo_sn ''r'' demo_claude demo_claude_db = (Inr (i, r), d')"
proof -
  have n: "claudeAccountName ''r'' (cl_token demo_claude) = ''claude-r''" by (simp add: claudeAccountName_def demo_claude_def filled_def)
  have p: "ensureAnthropicProvider demo_claude_db = (Inr 1, demo_claude_db)"
    by (simp add: ensureAnthropicProvider_def bind_gets demo_claude_db_def sample_provider_def return_act_apply)
  let ?d = "demo_claude_db\<lparr>next_id := Suc (next_id demo_claude_db), secrets := secrets demo_claude_db @
     [\<lparr>s_id = next_id demo_claude_db, s_purpose = ''claude-oauth'', s_sealed = claude_credential (cl_token demo_claude)\<rparr>]\<rparr>"
  obtain row t where up: "upsert_claude demo_claude 1 ''claude-r'' (next_id demo_claude_db) ?d = (Inr row, t)"
    and same: "aliases t = [] \<and> enabled_keys t \<noteq> [] \<and> routing t = None \<and> settings t = []"
    by (simp add: upsert_claude_def bind_gets bind_fresh_id then_modify return_act_apply demo_claude_db_def empty_db_def sample_account_def)
       (simp add: enabled_keys_def demo_key_def)
  obtain c where c: "compileDeclarativeSnapshot demo_sn t = Inr c"
    using no_models_compile [of t demo_sn] same by auto
  show ?thesis
    by (simp add: createClaudeOAuthAccount_def bind_act_Inr [where m = ensureAnthropicProvider, OF p] bind_insertSecret n
        bind_act_Inr [where m = "upsert_claude _ _ _ _", OF up [simplified]] then_storeDraft c bind_audit return_act_apply)
qed

theorem claude_login_takes_foreign_account_witness:
  "\<exists>i r d'. createClaudeOAuthAccount demo_sn ''r'' demo_claude demo_claude_db = (Inr (i, r), d')
     \<and> (\<exists>b\<in>set (accounts d'). a_id b = 2 \<and> a_provider b = 7)"
proof -
  obtain i r d' where run: "createClaudeOAuthAccount demo_sn ''r'' demo_claude demo_claude_db = (Inr (i, r), d')" using demo_claude_runs by blast
  have "distinct (map a_name (accounts demo_claude_db))" "sample_account 2 7 ''claude-r'' \<in> set (accounts demo_claude_db)"
    "a_name (sample_account 2 7 ''claude-r'') = claudeAccountName ''r'' (cl_token demo_claude)"
    by (simp_all add: demo_claude_db_def sample_account_def claudeAccountName_def demo_claude_def filled_def)
  from claude_login_takes_foreign_account [OF run this] obtain b where "b \<in> set (accounts d')" "a_id b = 2" "a_provider b = 7"
    by (auto simp: sample_account_def)
  then show ?thesis using run by blast
qed

end
