(* ===== verification/Login_Flows.thy ===== *)
theory Login_Flows
  imports Codex_Accounts Session_Store
begin

text \<open>
  The login flows of the dashboard: browser logins with a one-time state (\<open>lib/codex/oauth.ts\<close>, \<open>lib/claude/oauth.ts\<close>), the device flow with its
  polling lease (\<open>lib/codex/device.ts\<close>) and their routes (\<open>lib/codex/routes.ts\<close>, \<open>lib/claude/routes.ts\<close>).  A handler works on the session store, the
  key cache and the database; random values, the clock, URL construction and \<open>String(x)\<close> on values that are not strings are parameters.
\<close>

record flow_state =
  fs_store :: memory
  fs_keys :: jwks_cache
  fs_db :: db

record flow_env =
  fl_codex :: codex_env
  fl_sn :: sn_env
  fl_challenge :: "string \<Rightarrow> string"
  fl_url :: "string \<Rightarrow> (string \<times> string) list \<Rightarrow> string res"
  fl_form :: "(string \<times> string) list \<Rightarrow> string"
  fl_encode :: "string \<Rightarrow> string"
  fl_text :: "jv \<Rightarrow> string"
  fl_iso :: "rat \<Rightarrow> string"
  fl_dashboard :: string
  fl_trusted :: bool

definition on_store :: "(memory \<Rightarrow> 'a \<times> memory) \<Rightarrow> (flow_state, 'a) act" where
  "on_store f = (\<lambda>s. let (x, m) = f (fs_store s) in (Inr x, s\<lparr>fs_store := m\<rparr>))"

definition on_keys :: "(jwks_cache, 'a) act \<Rightarrow> (flow_state, 'a) act" where
  "on_keys m = (\<lambda>s. let (r, c) = m (fs_keys s) in (r, s\<lparr>fs_keys := c\<rparr>))"

definition on_tables :: "(db, 'a) act \<Rightarrow> (flow_state, 'a) act" where
  "on_tables m = (\<lambda>s. let (r, d) = m (fs_db s) in (r, s\<lparr>fs_db := d\<rparr>))"

definition flow_text :: "flow_env \<Rightarrow> jv \<Rightarrow> string" where
  "flow_text env v = (case v of JStr s \<Rightarrow> s | _ \<Rightarrow> fl_text env v)"

section \<open>Browser login at OpenAI\<close>

definition sessionKey :: "string \<Rightarrow> string" where
  "sessionKey st = ''codex:oauth:'' @ st"

record oauth_options =
  oo_name :: "string option"
  oo_account :: "uuid option"

definition oauth_session :: "flow_env \<Rightarrow> oauth_options \<Rightarrow> string \<Rightarrow> string \<Rightarrow> string \<Rightarrow> rat \<Rightarrow> jv" where
  "oauth_session env opts st nonce verifier now =
     JObj [(''accountName'', opt_json (oo_name opts)), (''accountId'', case oo_account opts of None \<Rightarrow> JUndef | Some i \<Rightarrow> JStr (show_nat i)),
       (''state'', JStr st), (''nonce'', JStr nonce), (''verifier'', JStr verifier), (''created_at'', JStr (fl_iso env now))]"

definition startOAuthSession :: "flow_env \<Rightarrow> oauth_options \<Rightarrow> string \<Rightarrow> string \<Rightarrow> string \<Rightarrow> rat \<Rightarrow> (flow_state, string \<times> string) act" where
  "startOAuthSession env opts st nonce verifier now =
     then_act (on_store (\<lambda>m. ((), setJsonWithTtl (sessionKey st) (oauth_session env opts st nonce verifier now) 600 now m)))
    (bind_act (lift_res (codexUrl (fl_codex env) authorize_path)) (\<lambda>base.
     bind_act (lift_res (fl_url env base [(''client_id'', CODEX_CLIENT_ID), (''redirect_uri'', CODEX_REDIRECT_URI), (''response_type'', ''code''),
        (''scope'', ''openid profile email offline_access''), (''state'', st), (''nonce'', nonce), (''code_challenge'', fl_challenge env verifier),
        (''code_challenge_method'', ''S256'')])) (\<lambda>url.
     return_act (st, url))))"

definition consumeOAuthSession :: "string \<Rightarrow> rat \<Rightarrow> (flow_state, jv option) act" where
  "consumeOAuthSession st now = on_store (consumeJsonOnce (sessionKey st) now)"

definition exchangeAuthorizationCode :: "flow_env \<Rightarrow> string \<Rightarrow> jv \<Rightarrow> rat \<Rightarrow> (jwks_cache, codex_credential) act" where
  "exchangeAuthorizationCode env grant session now =
     bind_act (lift_res (codexUrl (fl_codex env) token_path)) (\<lambda>url.
     bind_act (lift_res (cx_post (fl_codex env) url [(''grant_type'', ''authorization_code''), (''client_id'', CODEX_CLIENT_ID), (''code'', grant),
        (''redirect_uri'', CODEX_REDIRECT_URI), (''code_verifier'', flow_text env (get_prop session ''verifier''))])) (\<lambda>res.
     then_act (guard_act (ha_ok res) (JsError ''codex_token_exchange_failed''))
    (bind_act (lift_res (ha_json res)) (\<lambda>token.
     then_act (guard_act (\<not> nullish token) (JsError ''TypeError''))
    (case opt_text (get_prop token ''id_token'') of
       None \<Rightarrow> throw (JsError ''missing_id_token'')
     | Some t \<Rightarrow>
        then_act (guard_act (t \<noteq> []) (JsError ''missing_id_token''))
       (bind_act (verifyOpenAIIDToken (fl_codex env) t (if get_prop session ''nonce'' = JUndef then None else Some (get_prop session ''nonce'')) now) (\<lambda>i.
        then_act (guard_act (filled (opt_text (get_prop token ''access_token''))) (JsError ''missing_access_token''))
       (bind_act (lift_res (expiry_text (fl_codex env) now (get_prop token ''expires_in''))) (\<lambda>expires.
        return_act \<lparr>cr_access = the_default [] (opt_text (get_prop token ''access_token'')), cr_refresh = opt_text (get_prop token ''refresh_token''), cr_id = Some t,
          cr_expires = expires, cr_client = CODEX_CLIENT_ID, cr_account = ci_account i, cr_email = ci_email i, cr_plan = ci_plan i, cr_method = ''browser''\<rparr>)))))))))"

section \<open>Routes of the OpenAI login\<close>

record route_request =
  rr_host :: "string option"
  rr_url_host :: string
  rr_forwarded :: "string option"
  rr_query :: "(string \<times> string) list"

definition LOOPBACK_HOSTS :: "string list" where
  "LOOPBACK_HOSTS = [''localhost:1455'', ''127.0.0.1:1455'']"

definition host_allowed :: "string list \<Rightarrow> bool \<Rightarrow> route_request \<Rightarrow> bool" where
  "host_allowed loopback trusted req \<longleftrightarrow>
     (case rr_host req of Some h \<Rightarrow> if h = [] then rr_url_host req else h | None \<Rightarrow> rr_url_host req) \<in> set loopback
     \<and> (trusted \<longrightarrow> (case rr_forwarded req of None \<Rightarrow> True | Some f \<Rightarrow> f = [] \<or> f \<in> set loopback))"

definition hostAllowed :: "flow_env \<Rightarrow> route_request \<Rightarrow> bool" where
  "hostAllowed env req = host_allowed LOOPBACK_HOSTS (fl_trusted env) req"

text \<open>\<open>searchParams.get(k) || ''\<close>: the first value of the parameter.\<close>

definition search_param :: "route_request \<Rightarrow> string \<Rightarrow> string" where
  "search_param req k = the_default [] (map_of (rr_query req) k)"

definition has_param :: "route_request \<Rightarrow> string \<Rightarrow> bool" where
  "has_param req k \<longleftrightarrow> map_of (rr_query req) k \<noteq> None"

datatype redirect = Redirect string "uuid option"

definition codex_input_of :: "oauth_options \<Rightarrow> string \<Rightarrow> codex_credential \<Rightarrow> codex_input" where
  "codex_input_of opts method c =
     \<lparr>in_name = oo_name opts, in_account = oo_account opts, in_method = method, in_credential = c, in_enabled = None, in_max = None, in_provider = None\<rparr>"

definition session_options :: "jv \<Rightarrow> oauth_options" where
  "session_options v =
     \<lparr>oo_name = opt_text (get_prop v ''accountName''),
      oo_account = (case get_prop v ''accountId'' of JStr s \<Rightarrow> if s = [] then None else Some (dec_val s) | _ \<Rightarrow> None)\<rparr>"

definition createAccount :: "flow_env \<Rightarrow> string \<Rightarrow> codex_input \<Rightarrow> (flow_state, uuid \<times> int) act" where
  "createAccount env random inp = on_tables (txOn (createCodexAccount (fl_sn env) random inp))"

definition codexOAuthStartCore :: "flow_env \<Rightarrow> jv \<Rightarrow> string \<Rightarrow> string \<Rightarrow> string \<Rightarrow> rat \<Rightarrow> (flow_state, string) act" where
  "codexOAuthStartCore env body st nonce verifier now =
     bind_act (startOAuthSession env \<lparr>oo_name = opt_text (get_prop body ''name''), oo_account = None\<rparr> st nonce verifier now) (\<lambda>r. return_act (snd r))"

definition codexReauthorizeCore :: "flow_env \<Rightarrow> uuid \<Rightarrow> string \<Rightarrow> string \<Rightarrow> string \<Rightarrow> rat \<Rightarrow> (flow_state, string) act" where
  "codexReauthorizeCore env i st nonce verifier now =
     bind_act (startOAuthSession env \<lparr>oo_name = None, oo_account = Some i\<rparr> st nonce verifier now) (\<lambda>r. return_act (snd r))"

definition connect_account :: "flow_env \<Rightarrow> route_request \<Rightarrow> string \<Rightarrow> rat \<Rightarrow> jv \<Rightarrow> (flow_state, redirect) act" where
  "connect_account env req random now v =
     catch_act
       (bind_act (on_keys (exchangeAuthorizationCode env (search_param req ''code'') v now)) (\<lambda>c.
        bind_act (createAccount env random (codex_input_of (session_options v) ''browser'' c)) (\<lambda>acc.
        return_act (Redirect ''connected'' (Some (fst acc))))))
       (\<lambda>_. return_act (Redirect ''error'' None))"

definition codexCallbackCore :: "flow_env \<Rightarrow> route_request \<Rightarrow> string \<Rightarrow> rat \<Rightarrow> (flow_state, redirect) act" where
  "codexCallbackCore env req random now =
     (if \<not> hostAllowed env req then return_act (Redirect ''invalid_host'' None)
      else if search_param req ''state'' = []
      then return_act (Redirect (if has_param req ''error'' then ''error'' else ''invalid_request'') None)
      else bind_act (consumeOAuthSession (search_param req ''state'') now) (\<lambda>session. case session of
          None \<Rightarrow> return_act (Redirect ''invalid_state'' None)
        | Some v \<Rightarrow>
            if has_param req ''error'' then return_act (Redirect ''error'' None)
            else if search_param req ''code'' = [] then return_act (Redirect ''invalid_request'' None)
            else connect_account env req random now v))"

definition MAX_IMPORT_BYTES :: nat where
  "MAX_IMPORT_BYTES = 1024 * 1024"

fun read_bounded :: "nat \<Rightarrow> string list \<Rightarrow> string option" where
  "read_bounded size' [] = Some []"
| "read_bounded size' (c # cs) =
     (if MAX_IMPORT_BYTES < size' + length c then None else map_option (\<lambda>r. c @ r) (read_bounded (size' + length c) cs))"

definition boundedText :: "string option \<Rightarrow> string list \<Rightarrow> string option" where
  "boundedText contentLength chunks =
     (if (case contentLength of None \<Rightarrow> False | Some l \<Rightarrow> l \<noteq> [] \<and> num_less (Fin (rat_of_nat MAX_IMPORT_BYTES)) (js_number l)) then None
      else read_bounded 0 chunks)"

datatype import_answer = TooLarge | ImportError error | Imported uuid int

definition codexImportAuthCore :: "flow_env \<Rightarrow> string option \<Rightarrow> string list \<Rightarrow> string \<Rightarrow> rat \<Rightarrow> (flow_state, import_answer) act" where
  "codexImportAuthCore env contentLength chunks random now =
     (case boundedText contentLength chunks of
        None \<Rightarrow> return_act TooLarge
      | Some body \<Rightarrow>
          catch_act
            (bind_act (on_keys (parseCodexAuthFile (fl_codex env) body None now)) (\<lambda>c.
             bind_act (createAccount env random (codex_input_of \<lparr>oo_name = None, oo_account = None\<rparr> ''import'' c)) (\<lambda>acc.
             return_act (Imported (fst acc) (snd acc)))))
            (\<lambda>e. return_act (ImportError e)))"

record import_entry =
  ie_name :: "string option"
  ie_raw :: string

record import_batch =
  ib_provider :: "uuid option"
  ib_entries :: "import_entry list"
  ib_max :: int

definition bare_token :: "flow_env \<Rightarrow> string \<Rightarrow> string" where
  "bare_token env raw = (if starts_with raw ''{'' then raw else stringify (cx_api (fl_codex env)) (JObj [(''access_token'', JStr raw)]))"

definition entry_name :: "import_entry \<Rightarrow> string option" where
  "entry_name e = (case ie_name e of None \<Rightarrow> None | Some n \<Rightarrow> if js_trim n = [] then None else Some (js_trim n))"

fun import_batch_entries :: "flow_env \<Rightarrow> import_batch \<Rightarrow> string \<Rightarrow> rat \<Rightarrow> import_entry list \<Rightarrow> (flow_state, (uuid \<times> int) list) act" where
  "import_batch_entries env b random now [] = return_act []"
| "import_batch_entries env b random now (e # es) =
     bind_act (on_keys (parseCodexAuthFile (fl_codex env) (bare_token env (js_trim (ie_raw e))) None now)) (\<lambda>c.
     bind_act (createAccount env random \<lparr>in_name = entry_name e, in_account = None, in_method = ''import'', in_credential = c, in_enabled = Some True,
        in_max = Some (ib_max b), in_provider = ib_provider b\<rparr>) (\<lambda>acc.
     bind_act (import_batch_entries env b random now es) (\<lambda>rest. return_act (acc # rest))))"

definition codexImportAuthBatchCore :: "flow_env \<Rightarrow> import_batch \<Rightarrow> string \<Rightarrow> rat \<Rightarrow> (flow_state, (uuid \<times> int) list) act" where
  "codexImportAuthBatchCore env b random now = import_batch_entries env b random now (ib_entries b)"

section \<open>Device flow\<close>

definition deviceKey :: "string \<Rightarrow> string" where
  "deviceKey i = ''codex:device:'' @ i"

record device_start =
  ds_session :: string
  ds_user_code :: string
  ds_uri :: string
  ds_expires :: rat
  ds_interval :: rat

definition finite_number :: "jsnum \<Rightarrow> rat option" where
  "finite_number n = (case n of Fin x \<Rightarrow> Some x | _ \<Rightarrow> None)"

definition device_doc :: "flow_env \<Rightarrow> string \<Rightarrow> string \<Rightarrow> rat \<Rightarrow> rat \<Rightarrow> rat \<Rightarrow> jv" where
  "device_doc env nonce dcode interval now expiresAtMs =
     JObj [(''nonce'', JStr nonce), (''device_code'', JStr dcode), (''interval'', JNum (Fin interval)), (''next_poll_at_ms'', JNum (Fin now)),
       (''expires_at_ms'', JNum (Fin expiresAtMs)), (''created_at'', JStr (fl_iso env now))]"

definition startDeviceFlow :: "flow_env \<Rightarrow> string \<Rightarrow> string \<Rightarrow> rat \<Rightarrow> (flow_state, device_start) act" where
  "startDeviceFlow env nonce session now =
     bind_act (lift_res (codexUrl (fl_codex env) device_code_path)) (\<lambda>url.
     bind_act (lift_res (cx_post_json (fl_codex env) url (JObj [(''client_id'', JStr CODEX_CLIENT_ID), (''nonce'', JStr nonce)]))) (\<lambda>res.
     then_act (guard_act (ha_ok res) (JsError ''device_flow_start_failed''))
    (bind_act (lift_res (ha_json res)) (\<lambda>body.
     then_act (guard_act (\<not> nullish body) (JsError ''TypeError''))
    (let dcode = flow_text env (coalesce (get_prop body ''device_code'') (JStr [])) in
     then_act (guard_act (dcode \<noteq> []) (JsError ''device_flow_missing_code''))
    (case finite_number (to_number (coalesce (get_prop body ''expires_in'') (JNum (Fin 900)))) of
       None \<Rightarrow> throw (JsError ''device_flow_invalid_expiry'')
     | Some expiresIn \<Rightarrow>
        then_act (guard_act (0 < expiresIn) (JsError ''device_flow_invalid_expiry''))
       (case finite_number (to_number (coalesce (get_prop body ''interval'') (JNum (Fin 5)))) of
          None \<Rightarrow> throw (JsError ''device_flow_invalid_interval'')
        | Some interval \<Rightarrow>
           then_act (guard_act (0 \<le> interval) (JsError ''device_flow_invalid_interval''))
          (then_act (on_store (\<lambda>m. ((), setJsonUntilMs (deviceKey session) (device_doc env nonce dcode interval now (now + expiresIn * 1000)) (now + expiresIn * 1000) m)))
          (bind_act (lift_res (codexUrl (fl_codex env) device_page)) (\<lambda>page.
           return_act \<lparr>ds_session = session, ds_user_code = flow_text env (coalesce (get_prop body ''user_code'') (JStr [])),
             ds_uri = flow_text env (coalesce (get_prop body ''verification_uri'') (JStr page)), ds_expires = expiresIn, ds_interval = interval\<rparr>))))))))))"

datatype device_state = Waiting | SlowDown | FlowExpired | Denied | FlowFailed | Complete

record device_answer =
  da_state :: device_state
  da_credential :: "codex_credential option"
  da_interval :: jv

definition plain_answer :: "device_state \<Rightarrow> device_answer" where
  "plain_answer st = \<lparr>da_state = st, da_credential = None, da_interval = JUndef\<rparr>"

text \<open>\<open>Date.now() + interval * 1000\<close>; an interval that is no number gives \<open>NaN\<close>, stored as \<open>null\<close>.\<close>

definition next_poll :: "jv \<Rightarrow> rat \<Rightarrow> jv" where
  "next_poll interval now = (case to_number interval of Fin x \<Rightarrow> JNum (Fin (now + x * 1000)) | n \<Rightarrow> JNum n)"

definition reschedule :: "jv \<Rightarrow> jv \<Rightarrow> rat \<Rightarrow> jv" where
  "reschedule doc interval now = with_member ''next_poll_at_ms'' (next_poll interval now) (with_member ''interval'' interval doc)"

definition postpone :: "jv \<Rightarrow> rat \<Rightarrow> jv" where
  "postpone doc now = with_member ''next_poll_at_ms'' (next_poll (get_prop doc ''interval'') now) doc"

definition flow_deadline :: "jv \<Rightarrow> rat \<Rightarrow> rat option" where
  "flow_deadline doc storeExpiry = (case get_prop doc ''expires_at_ms'' of JNum (Fin x) \<Rightarrow> Some (min x storeExpiry) | _ \<Rightarrow> None)"

definition put_back :: "string \<Rightarrow> jv \<Rightarrow> rat option \<Rightarrow> update_mode \<Rightarrow> rat \<Rightarrow> (flow_state, unit) act" where
  "put_back session doc deadline mode now = on_store (\<lambda>m. ((), updateLeasedJson (deviceKey session) doc deadline mode now m))"

definition retry_later :: "string \<Rightarrow> jv \<Rightarrow> rat option \<Rightarrow> rat \<Rightarrow> (flow_state, device_answer) act" where
  "retry_later session doc deadline now =
     then_act (put_back session (postpone doc now) deadline SetDoc now) (return_act (plain_answer FlowFailed))"

definition five_more :: "jv \<Rightarrow> jv" where
  "five_more v = (case v of JNum (Fin x) \<Rightarrow> JNum (Fin (x + 5)) | _ \<Rightarrow> JNum NaN)"

definition refused_poll :: "flow_env \<Rightarrow> string \<Rightarrow> jv \<Rightarrow> rat option \<Rightarrow> jv \<Rightarrow> rat \<Rightarrow> (flow_state, device_answer) act" where
  "refused_poll env session doc deadline body now =
     (let err = flow_text env (coalesce (get_prop body ''error'') (JStr ''authorization_pending'')) in
      if err = ''authorization_pending''
      then then_act (put_back session (reschedule doc (get_prop doc ''interval'') now) deadline SetDoc now)
          (return_act \<lparr>da_state = Waiting, da_credential = None, da_interval = get_prop doc ''interval''\<rparr>)
      else if err = ''slow_down''
      then let interval = JNum (to_number (coalesce (get_prop body ''interval'') (five_more (get_prop doc ''interval'')))) in
           then_act (put_back session (reschedule doc interval now) deadline SetDoc now)
          (return_act \<lparr>da_state = SlowDown, da_credential = None, da_interval = interval\<rparr>)
      else if err = ''expired_token'' then then_act (put_back session doc deadline DeleteDoc now) (return_act (plain_answer FlowExpired))
      else if err = ''access_denied'' then then_act (put_back session doc deadline DeleteDoc now) (return_act (plain_answer Denied))
      else retry_later session doc deadline now)"

definition finish_poll :: "flow_env \<Rightarrow> string \<Rightarrow> jv \<Rightarrow> rat option \<Rightarrow> jv \<Rightarrow> rat \<Rightarrow> string \<Rightarrow> codex_identity option \<Rightarrow> (flow_state, device_answer) act" where
  "finish_poll env session doc deadline body now t identity =
     (case identity of
        None \<Rightarrow> retry_later session doc deadline now
      | Some i \<Rightarrow>
         if \<not> filled (opt_text (get_prop body ''access_token'')) then retry_later session doc deadline now
         else then_act (put_back session doc deadline DeleteDoc now)
             (bind_act (lift_res (expiry_text (fl_codex env) now (JNum (to_number (coalesce (get_prop body ''expires_in'') (JNum (Fin 3600))))))) (\<lambda>expires.
              return_act \<lparr>da_state = Complete, da_credential = Some \<lparr>cr_access = the_default [] (opt_text (get_prop body ''access_token'')),
                 cr_refresh = opt_text (get_prop body ''refresh_token''), cr_id = Some t, cr_expires = expires, cr_client = CODEX_CLIENT_ID,
                 cr_account = ci_account i, cr_email = ci_email i, cr_plan = ci_plan i, cr_method = ''device''\<rparr>, da_interval = JUndef\<rparr>)))"

definition try_identity :: "flow_env \<Rightarrow> string \<Rightarrow> jv \<Rightarrow> rat \<Rightarrow> (flow_state, codex_identity option) act" where
  "try_identity env t nonce now =
     catch_act (bind_act (on_keys (verifyOpenAIIDToken (fl_codex env) t (Some nonce) now)) (\<lambda>i. return_act (Some i))) (\<lambda>_. return_act None)"

definition granted_poll :: "flow_env \<Rightarrow> string \<Rightarrow> jv \<Rightarrow> rat option \<Rightarrow> jv \<Rightarrow> rat \<Rightarrow> (flow_state, device_answer) act" where
  "granted_poll env session doc deadline body now =
     (case opt_text (get_prop body ''id_token'') of
        None \<Rightarrow> retry_later session doc deadline now
      | Some t \<Rightarrow>
         if t = [] then retry_later session doc deadline now
         else bind_act (try_identity env t (get_prop doc ''nonce'') now) (finish_poll env session doc deadline body now t))"

definition device_answer_of :: "flow_env \<Rightarrow> jv \<Rightarrow> http_answer res" where
  "device_answer_of env doc =
     (case codexUrl (fl_codex env) device_token_path of Inl e \<Rightarrow> Inl e | Inr url \<Rightarrow>
        cx_post (fl_codex env) url [(''grant_type'', ''urn:ietf:params:oauth:grant-type:device_code''), (''client_id'', CODEX_CLIENT_ID),
          (''device_code'', flow_text env (get_prop doc ''device_code''))])"

definition pollDeviceFlow :: "flow_env \<Rightarrow> string \<Rightarrow> rat \<Rightarrow> rat \<Rightarrow> (flow_state, device_answer) act" where
  "pollDeviceFlow env session leasedAt now =
     bind_act (on_store (leaseJsonWhenDue (deviceKey session) 30000 leasedAt)) (\<lambda>due. case due of
       LeaseMissing \<Rightarrow> return_act (plain_answer FlowExpired)
     | LeaseTooSoon v e \<Rightarrow> return_act \<lparr>da_state = SlowDown, da_credential = None, da_interval = get_prop v ''interval''\<rparr>
     | Leased doc e \<Rightarrow>
         (case device_answer_of env doc of
            Inl _ \<Rightarrow> retry_later session doc (flow_deadline doc e) now
          | Inr res \<Rightarrow>
             (let body = (case ha_json res of Inl _ \<Rightarrow> JObj [] | Inr b \<Rightarrow> b) in
              if nullish body then throw (JsError ''TypeError'')
              else if \<not> ha_ok res then refused_poll env session doc (flow_deadline doc e) body now
              else granted_poll env session doc (flow_deadline doc e) body now)))"

datatype device_status = StatusComplete uuid | StatusOther device_state jv

definition codexDeviceStatusCore :: "flow_env \<Rightarrow> string \<Rightarrow> string \<Rightarrow> rat \<Rightarrow> rat \<Rightarrow> (flow_state, device_status) act" where
  "codexDeviceStatusCore env session random leasedAt now =
     bind_act (pollDeviceFlow env session leasedAt now) (\<lambda>a.
     case da_credential a of
       Some c \<Rightarrow> bind_act (createAccount env random (codex_input_of \<lparr>oo_name = None, oo_account = None\<rparr> ''device'' c)) (\<lambda>acc. return_act (StatusComplete (fst acc)))
     | None \<Rightarrow> return_act (StatusOther (da_state a) (da_interval a)))"

section \<open>Browser login at Anthropic\<close>

definition CLAUDE_CLIENT_ID :: string where
  "CLAUDE_CLIENT_ID = ''9d1c250a-e61b-44d9-88ed-5944d1962f5e''"

definition CLAUDE_TOKEN_URL :: string where
  "CLAUDE_TOKEN_URL = ''https://api.anthropic.com/v1/oauth/token''"

definition CLAUDE_REDIRECT_URI :: string where
  "CLAUDE_REDIRECT_URI = ''http://localhost:54545/callback''"

definition CLAUDE_SCOPES :: "string list" where
  "CLAUDE_SCOPES = [''org:create_api_key'', ''user:profile'', ''user:inference'']"

fun plain_colons :: "string \<Rightarrow> string" where
  "plain_colons (a # b # c # cs) = (if a = CHR ''%'' \<and> b = CHR ''3'' \<and> (c = CHR ''A'' \<or> c = CHR ''a'') then CHR '':'' # plain_colons cs else a # plain_colons (b # c # cs))"
| "plain_colons s = s"

definition claudeAuthorizeUrl :: "flow_env \<Rightarrow> string \<Rightarrow> string \<Rightarrow> string" where
  "claudeAuthorizeUrl env st challenge =
     ''https://claude.ai/oauth/authorize?'' @
     fl_form env [(''code'', ''true''), (''client_id'', CLAUDE_CLIENT_ID), (''response_type'', ''code''), (''redirect_uri'', CLAUDE_REDIRECT_URI),
       (''code_challenge'', challenge), (''code_challenge_method'', ''S256''), (''state'', st)] @
     ''&scope='' @ js_join ''+'' (map (\<lambda>v. plain_colons (fl_encode env v)) CLAUDE_SCOPES)"

definition claudeSessionKey :: "string \<Rightarrow> string" where
  "claudeSessionKey st = ''claude:oauth:'' @ st"

definition startClaudeOAuthSession :: "flow_env \<Rightarrow> string \<Rightarrow> string \<Rightarrow> rat \<Rightarrow> (flow_state, string) act" where
  "startClaudeOAuthSession env st verifier now =
     then_act (on_store (\<lambda>m. ((), setJsonWithTtl (claudeSessionKey st)
        (JObj [(''state'', JStr st), (''verifier'', JStr verifier), (''created_at'', JStr (fl_iso env now))]) 600 now m)))
    (return_act (claudeAuthorizeUrl env st (fl_challenge env verifier)))"

definition consumeClaudeOAuthSession :: "string \<Rightarrow> rat \<Rightarrow> (flow_state, jv option) act" where
  "consumeClaudeOAuthSession st now = on_store (consumeJsonOnce (claudeSessionKey st) now)"

definition claude_token_of :: "codex_env \<Rightarrow> rat \<Rightarrow> string \<Rightarrow> http_answer \<Rightarrow> jv \<Rightarrow> claude_token res" where
  "claude_token_of env now failure res account =
     (if \<not> ha_ok res then Inl (JsError (failure @ show_nat (ha_status res)))
      else case ha_json res of Inl e \<Rightarrow> Inl e | Inr data \<Rightarrow>
        if nullish data then Inl (JsError ''TypeError'')
        else if \<not> filled (opt_text (get_prop data ''access_token'')) then Inl (JsError ''claude_missing_access_token'')
        else (case expiry_text env now (get_prop data ''expires_in'') of Inl e \<Rightarrow> Inl e | Inr t \<Rightarrow>
          Inr \<lparr>ck_access = the_default [] (opt_text (get_prop data ''access_token'')), ck_refresh = opt_text (get_prop data ''refresh_token''), ck_expires = t,
            ck_email = opt_text (get_prop account ''email_address''), ck_uuid = opt_text (get_prop account ''uuid'')\<rparr>))"

definition exchangeClaudeCode :: "flow_env \<Rightarrow> string \<Rightarrow> string \<Rightarrow> jv \<Rightarrow> rat \<Rightarrow> claude_token res" where
  "exchangeClaudeCode env grant st session now =
     (case cx_post_json (fl_codex env) CLAUDE_TOKEN_URL (JObj [(''code'', JStr grant), (''grant_type'', JStr ''authorization_code''),
        (''client_id'', JStr CLAUDE_CLIENT_ID), (''redirect_uri'', JStr CLAUDE_REDIRECT_URI), (''code_verifier'', get_prop session ''verifier''), (''state'', JStr st)]) of
        Inl e \<Rightarrow> Inl e
      | Inr res \<Rightarrow> claude_token_of (fl_codex env) now ''claude_token_exchange_failed_'' res
          (case ha_json res of Inl _ \<Rightarrow> JUndef | Inr data \<Rightarrow> get_prop data ''account''))"

definition refreshClaudeToken :: "flow_env \<Rightarrow> string \<Rightarrow> rat \<Rightarrow> claude_token res" where
  "refreshClaudeToken env refreshToken now =
     (case cx_post_json (fl_codex env) CLAUDE_TOKEN_URL (JObj [(''client_id'', JStr CLAUDE_CLIENT_ID), (''grant_type'', JStr ''refresh_token''),
        (''refresh_token'', JStr refreshToken)]) of
        Inl e \<Rightarrow> Inl e
      | Inr res \<Rightarrow> claude_token_of (fl_codex env) now ''claude_token_refresh_failed_'' res JUndef)"

definition CLAUDE_LOOPBACK_HOSTS :: "string list" where
  "CLAUDE_LOOPBACK_HOSTS = [''localhost:54545'', ''127.0.0.1:54545'']"

datatype claude_answer = ClaudeForbidden | ClaudeRedirect string "uuid option"

definition claudeCallbackCore :: "flow_env \<Rightarrow> route_request \<Rightarrow> string \<Rightarrow> rat \<Rightarrow> (flow_state, claude_answer) act" where
  "claudeCallbackCore env req random now =
     (if \<not> host_allowed CLAUDE_LOOPBACK_HOSTS (fl_trusted env) req then return_act ClaudeForbidden
      else if search_param req ''code'' = [] \<or> search_param req ''state'' = [] then return_act (ClaudeRedirect ''error'' None)
      else bind_act (consumeClaudeOAuthSession (search_param req ''state'') now) (\<lambda>session. case session of
          None \<Rightarrow> return_act (ClaudeRedirect ''error'' None)
        | Some v \<Rightarrow>
           catch_act
             (bind_act (lift_res (exchangeClaudeCode env (search_param req ''code'') (search_param req ''state'') v now)) (\<lambda>t.
              bind_act (on_tables (txOn (createClaudeOAuthAccount (fl_sn env) random \<lparr>cl_token = t, cl_display = None, cl_priority = None, cl_max = None\<rparr>))) (\<lambda>acc.
              return_act (ClaudeRedirect ''connected'' (Some (fst acc))))))
             (\<lambda>_. return_act (ClaudeRedirect ''error'' None))))"

section \<open>A state is used once\<close>

lemma on_store_apply: "on_store f s = (Inr (fst (f (fs_store s))), s\<lparr>fs_store := snd (f (fs_store s))\<rparr>)"
  by (simp add: on_store_def split_beta)

lemma bind_on_store: "bind_act (on_store f) k s = k (fst (f (fs_store s))) (s\<lparr>fs_store := snd (f (fs_store s))\<rparr>)"
  by (simp add: bind_act_def on_store_apply)

lemma then_on_store: "then_act (on_store f) k s = k (s\<lparr>fs_store := snd (f (fs_store s))\<rparr>)"
  by (simp add: then_act_def bind_on_store)

lemma store_kept [preserves_intros]:
  "preserves (\<lambda>s. fs_store s = M) (on_keys k)" "preserves (\<lambda>s. fs_store s = M) (on_tables t)"
  by (simp_all add: preserves_def on_keys_def on_tables_def split_beta)

lemma connect_keeps_store: "preserves (\<lambda>s. fs_store s = M) (connect_account env req random now v)"
  unfolding connect_account_def createAccount_def by (intro preserves_intros)

lemma codexCallbackCore_apply:
  assumes "hostAllowed env req" and "search_param req ''state'' \<noteq> []"
  shows "codexCallbackCore env req random now s =
     (case fst (consumeJsonOnce (sessionKey (search_param req ''state'')) now (fs_store s)) of
        None \<Rightarrow> return_act (Redirect ''invalid_state'' None)
      | Some v \<Rightarrow>
          if has_param req ''error'' then return_act (Redirect ''error'' None)
          else if search_param req ''code'' = [] then return_act (Redirect ''invalid_request'' None)
          else connect_account env req random now v)
     (s\<lparr>fs_store := snd (consumeJsonOnce (sessionKey (search_param req ''state'')) now (fs_store s))\<rparr>)"
  using assms by (simp add: codexCallbackCore_def consumeOAuthSession_def bind_on_store)

lemma consumed_gone: "snd (consumeJsonOnce k now m) k = None"
  by (simp add: consumeJsonOnce_def split: option.split)

lemma consume_none: "m k = None \<Longrightarrow> consumeJsonOnce k now m = (None, m)"
  by (simp add: consumeJsonOnce_def)

lemma callback_store:
  assumes "hostAllowed env req" and "search_param req ''state'' \<noteq> []"
  shows "fs_store (snd (codexCallbackCore env req random now s)) (sessionKey (search_param req ''state'')) = None"
proof -
  let ?k = "sessionKey (search_param req ''state'')"
  let ?s = "s\<lparr>fs_store := snd (consumeJsonOnce ?k now (fs_store s))\<rparr>"
  have "preserves (\<lambda>s. fs_store s = snd (consumeJsonOnce ?k now M)) (case x of
        None \<Rightarrow> return_act (Redirect ''invalid_state'' None)
      | Some v \<Rightarrow>
          if has_param req ''error'' then return_act (Redirect ''error'' None)
          else if search_param req ''code'' = [] then return_act (Redirect ''invalid_request'' None)
          else connect_account env req random now v)" for x M
    by (intro preserves_intros connect_keeps_store)
  then have "fs_store (snd (codexCallbackCore env req random now s)) = snd (consumeJsonOnce ?k now (fs_store s))"
    unfolding codexCallbackCore_apply [OF assms] preserves_def by simp
  then show ?thesis by (simp add: consumed_gone)
qed

lemma exchange_verified:
  assumes "exchangeAuthorizationCode env grant v now c = (Inr cr, c')"
  shows "\<exists>t i. verifyOpenAIIDToken (fl_codex env) t (if get_prop v ''nonce'' = JUndef then None else Some (get_prop v ''nonce'')) now c = (Inr i, c')
     \<and> cr_account cr = ci_account i"
  using assms
  by (auto simp: exchangeAuthorizationCode_def bind_lift then_guard throw_apply return_act_apply
      split: sum.splits if_splits option.splits elim!: bind_act_InrE) blast+


section \<open>The device flow\<close>

lemma put_back_apply: "then_act (put_back session doc deadline mode now) k s =
   k (s\<lparr>fs_store := updateLeasedJson (deviceKey session) doc deadline mode now (fs_store s)\<rparr>)"
  by (simp add: put_back_def then_on_store)

lemma deleted [simp]: "updateLeasedJson k doc x DeleteDoc now m k = None"
  by (simp add: updateLeasedJson_def)

text \<open>An answer ends the flow exactly when it removed the session.\<close>

lemma refused_poll_ends:
  "refused_poll env session doc deadline body now s = (Inr a, s1) \<Longrightarrow>
   da_credential a = None \<and> (da_state a \<in> {FlowExpired, Denied} \<longrightarrow> fs_store s1 (deviceKey session) = None) \<and> da_state a \<noteq> Complete"
  by (auto simp: refused_poll_def retry_later_def Let_def put_back_apply return_act_apply plain_answer_def split: if_splits)

lemma granted_poll_ends:
  assumes "granted_poll env session doc deadline body now s = (Inr a, s1)"
  shows "(da_state a = Complete \<or> da_credential a \<noteq> None \<longrightarrow> fs_store s1 (deviceKey session) = None
      \<and> (\<exists>t i cr c c'. verifyOpenAIIDToken (fl_codex env) t (Some (get_prop doc ''nonce'')) now c = (Inr i, c')
           \<and> da_credential a = Some cr \<and> cr_account cr = ci_account i))
    \<and> da_state a \<in> {Complete, FlowFailed}"
proof (cases "\<exists>t. opt_text (get_prop body ''id_token'') = Some t \<and> t \<noteq> []")
  case False
  then show ?thesis
    using assms by (auto simp: granted_poll_def retry_later_def put_back_apply return_act_apply plain_answer_def split: option.splits if_splits)
next
  case True
  then obtain t where t: "opt_text (get_prop body ''id_token'') = Some t" "t \<noteq> []" by blast
  obtain r s2 where tr: "try_identity env t (get_prop doc ''nonce'') now s = (r, s2)" by fastforce
  obtain identity where id: "r = Inr identity"
    using tr by (auto simp: try_identity_def catch_act_def return_act_apply split: prod.splits sum.splits)
  have ver: "\<exists>c c'. verifyOpenAIIDToken (fl_codex env) t (Some (get_prop doc ''nonce'')) now c = (Inr i, c')" if "identity = Some i" for i
    using tr id that
    by (auto simp: try_identity_def catch_act_def bind_act_def on_keys_def return_act_apply split: prod.splits sum.splits)
  have "finish_poll env session doc deadline body now t identity s2 = (Inr a, s1)"
    using assms t by (simp add: granted_poll_def bind_act_Inr [where m = "try_identity _ _ _ _", OF tr [unfolded id]])
  then show ?thesis
    using ver
    by (cases identity) (auto simp: finish_poll_def retry_later_def put_back_apply bind_lift return_act_apply plain_answer_def split: if_splits sum.splits, blast+)
qed

lemma poll_missing:
  "fs_store s (deviceKey session) = None \<Longrightarrow> pollDeviceFlow env session t1 t2 s = (Inr (plain_answer FlowExpired), s)"
  by (simp add: pollDeviceFlow_def bind_on_store leaseJsonWhenDue_def return_act_apply)

lemma pollDeviceFlow_cases:
  assumes "pollDeviceFlow env session t1 t2 s = (Inr a, s1)"
  obtains (missing) "a = plain_answer FlowExpired" "fs_store s1 (deviceKey session) = None"
    | (soon) v where "a = \<lparr>da_state = SlowDown, da_credential = None, da_interval = get_prop v ''interval''\<rparr>" "s1 = s"
    | (failed) doc e s2 where "retry_later session doc (flow_deadline doc e) t2 s2 = (Inr a, s1)"
    | (refused) doc e body s2 where "refused_poll env session doc (flow_deadline doc e) body t2 s2 = (Inr a, s1)"
    | (granted) v e doc body s2 where "fs_store s (deviceKey session) = Some (v, e)" "\<not> busy v t1" "doc = leased_doc v (t1 + 30000)"
        "granted_poll env session doc (flow_deadline doc (expiry_ms e)) body t2 s2 = (Inr a, s1)"
proof (cases "fs_store s (deviceKey session)")
  case None
  then show thesis using missing poll_missing [OF None] assms by auto
next
  case (Some ve)
  obtain v e where ve: "fs_store s (deviceKey session) = Some (v, e)" using Some by (cases ve) simp
  show thesis
  proof (cases "expired e t1")
    case True
    then show thesis using missing assms ve by (auto simp: pollDeviceFlow_def bind_on_store leaseJsonWhenDue_def return_act_apply)
  next
    case alive: False
    show thesis
    proof (cases "busy v t1")
      case True
      then show thesis using soon assms ve alive by (auto simp: pollDeviceFlow_def bind_on_store leaseJsonWhenDue_def return_act_apply)
    next
      case False
      let ?doc = "leased_doc v (t1 + 30000)" and ?s = "s\<lparr>fs_store := (fs_store s)(deviceKey session \<mapsto> (json_copy (leased_doc v (t1 + 30000)), e))\<rparr>"
      have eq: "pollDeviceFlow env session t1 t2 s =
         (case device_answer_of env ?doc of
            Inl _ \<Rightarrow> retry_later session ?doc (flow_deadline ?doc (expiry_ms e)) t2
          | Inr res \<Rightarrow>
             (let body = (case ha_json res of Inl _ \<Rightarrow> JObj [] | Inr b \<Rightarrow> b) in
              if nullish body then throw (JsError ''TypeError'')
              else if \<not> ha_ok res then refused_poll env session ?doc (flow_deadline ?doc (expiry_ms e)) body t2
              else granted_poll env session ?doc (flow_deadline ?doc (expiry_ms e)) body t2)) ?s"
        using ve alive False by (simp add: pollDeviceFlow_def bind_on_store leaseJsonWhenDue_def)
      show thesis
      proof (cases "device_answer_of env ?doc")
        case (Inl x)
        then show thesis using failed assms eq by simp
      next
        case (Inr res)
        define body where "body = (case ha_json res of Inl _ \<Rightarrow> JObj [] | Inr b \<Rightarrow> b)"
        have "(if nullish body then throw (JsError ''TypeError'')
              else if \<not> ha_ok res then refused_poll env session ?doc (flow_deadline ?doc (expiry_ms e)) body t2
              else granted_poll env session ?doc (flow_deadline ?doc (expiry_ms e)) body t2) ?s = (Inr a, s1)"
          using assms eq Inr by (simp add: body_def [symmetric] Let_def)
        then show thesis using refused granted [OF ve False refl] by (auto simp: throw_apply split: if_splits)
      qed
    qed
  qed
qed


section \<open>Witnesses\<close>

definition demo_flow :: flow_env where
  "demo_flow = \<lparr>fl_codex = demo_codex, fl_sn = demo_sn, fl_challenge = id, fl_url = (\<lambda>u _. Inr u), fl_form = (\<lambda>_. []), fl_encode = id, fl_text = (\<lambda>_. []),
     fl_iso = (\<lambda>_. []), fl_dashboard = [], fl_trusted = False\<rparr>"

definition demo_return :: route_request where
  "demo_return = \<lparr>rr_host = Some ''localhost:1455'', rr_url_host = [], rr_forwarded = None, rr_query = [(''state'', ''s''), (''code'', ''x'')]\<rparr>"

definition demo_sessions :: flow_state where
  "demo_sessions = \<lparr>fs_store = [''codex:oauth:s'' \<mapsto> (JObj [(''nonce'', JStr ''n'')], Fin 900)], fs_keys = None, fs_db = empty_db\<rparr>"



end
