(* ===== verification/Admin.thy ===== *)
theory Admin
  imports Resources Oidc
begin

text \<open>
  The writing half of the control API: the \<open>POST\<close>, \<open>PATCH\<close> and \<open>DELETE\<close> handlers of
  \<open>app/api/control/v1/[[...resource]]/route.ts\<close>.  Every handler parses its body with a schema of \<open>lib/control.ts\<close>,
  changes the tables, writes an audit row and stores a new draft of the configuration, all in one transaction.  The
  unique indexes, foreign keys and column ranges of the migrations appear as guards that raise \<open>DbError\<close>.  The text
  of a key of the model is its decimal numeral.
\<close>

record admin_env =
  ad_sn :: sn_env
  ad_schema :: schema_env
  ad_licence :: resolved
  ad_crypto :: crypto_api
  ad_oidc :: oidc_env
  ad_gateway_secret :: string

datatype admin_answer =
    ProviderRow provider_row
  | AccountRow account_row
  | ModelRow alias_row
  | OrgRow org_row
  | TeamRow team_row
  | McpRow mcp_row
  | KeyRow key_row "string option"
  | NoRow
  | Value jv
  | Removed string

section \<open>Columns of a parsed body\<close>

text \<open>\<open>COALESCE($n, column)\<close>: the member of the body when there is one, otherwise the old value.\<close>

definition or_text :: "jv \<Rightarrow> string \<Rightarrow> string \<Rightarrow> string" where
  "or_text v k old = (case get_prop v k of JStr s \<Rightarrow> s | _ \<Rightarrow> old)"

definition or_bool :: "jv \<Rightarrow> string \<Rightarrow> bool \<Rightarrow> bool" where
  "or_bool v k old = (case get_prop v k of JBool b \<Rightarrow> b | _ \<Rightarrow> old)"

definition or_rat :: "jv \<Rightarrow> string \<Rightarrow> rat \<Rightarrow> rat" where
  "or_rat v k old = (case get_prop v k of JNum (Fin x) \<Rightarrow> x | _ \<Rightarrow> old)"

definition or_int :: "jv \<Rightarrow> string \<Rightarrow> int \<Rightarrow> int" where
  "or_int v k old = (case get_prop v k of JNum (Fin x) \<Rightarrow> \<lfloor>x\<rfloor> | _ \<Rightarrow> old)"

definition or_money :: "jv \<Rightarrow> string \<Rightarrow> rat \<Rightarrow> rat" where
  "or_money v k old = (case get_prop v k of JNum (Fin x) \<Rightarrow> numeric6 x | _ \<Rightarrow> old)"

definition or_texts :: "jv \<Rightarrow> string \<Rightarrow> string list \<Rightarrow> string list" where
  "or_texts v k old = (case get_prop v k of JArr xs \<Rightarrow> List.map_filter as_str xs | _ \<Rightarrow> old)"

definition or_json :: "jv \<Rightarrow> string \<Rightarrow> jv \<Rightarrow> jv" where
  "or_json v k old = (case get_prop v k of JObj ps \<Rightarrow> JObj ps | _ \<Rightarrow> old)"

text \<open>\<open>v.key ?? null\<close> of a key column.\<close>

definition uuid_at :: "jv \<Rightarrow> string \<Rightarrow> uuid option" where
  "uuid_at v k = map_option dec_val (as_str (get_prop v k))"

definition uuids_at :: "jv \<Rightarrow> string \<Rightarrow> uuid list" where
  "uuids_at v k = map dec_val (or_texts v k [])"

text \<open>\<open>integer\<close> and \<open>numeric(12,6)\<close> columns refuse values outside of their range; \<open>organizations.budget_usd\<close> is
  a \<open>numeric(12,2)\<close>.\<close>

definition int4_ok :: "rat \<Rightarrow> bool" where
  "int4_ok x \<longleftrightarrow> - 2147483648 \<le> x \<and> x < 2147483648"

definition in_range :: "string list \<Rightarrow> string list \<Rightarrow> jv \<Rightarrow> bool" where
  "in_range ints nums v \<longleftrightarrow> list_all (\<lambda>k. int4_ok (or_rat v k 0)) ints \<and> list_all (\<lambda>k. \<bar>or_money v k 0\<bar> < 1000000) nums"

definition range_act :: "string list \<Rightarrow> string list \<Rightarrow> jv \<Rightarrow> (db, unit) act" where
  "range_act ints nums v = guard_act (in_range ints nums v) (DbError ''numeric_value_out_of_range'')"

definition numeric2 :: "rat \<Rightarrow> rat" where
  "numeric2 x = rat_of_int \<lfloor>x * 100 + 1 / 2\<rfloor> / 100"

definition or_budget2 :: "jv \<Rightarrow> string \<Rightarrow> rat \<Rightarrow> rat" where
  "or_budget2 v k old = (case get_prop v k of JNum (Fin x) \<Rightarrow> numeric2 x | _ \<Rightarrow> old)"

section \<open>Shared steps\<close>

definition parse_body :: "schema \<Rightarrow> jv \<Rightarrow> (db, jv) act" where
  "parse_body s body = lift_res (case s body of None \<Rightarrow> Inl ZodError | Some v \<Rightarrow> Inr v)"

definition draftAfter :: "admin_env \<Rightarrow> string \<Rightarrow> string \<Rightarrow> string \<Rightarrow> jv \<Rightarrow> (db, version_row) act" where
  "draftAfter env action typ resource payload = then_act (audit action typ (Some resource) payload) (storeDraft (ad_sn env))"

text \<open>The key in the path is not validated before it reaches the database.\<close>

definition path_uuid :: "string \<Rightarrow> (db, uuid) act" where
  "path_uuid s = lift_res (if s \<noteq> [] \<and> list_all is_digit s then Inr (dec_val s) else Inl (DbError ''invalid_text_representation''))"

definition save_setting :: "string \<Rightarrow> jv \<Rightarrow> (db, unit) act" where
  "save_setting k v = modify_act (\<lambda>d. d\<lparr>settings := set_prop k v (settings d)\<rparr>)"

text \<open>\<open>{ ...v, key: shown ? '[redacted]' : undefined }\<close> as it is serialised.\<close>

definition redact_member :: "string \<Rightarrow> bool \<Rightarrow> (string \<times> jv) list \<Rightarrow> (string \<times> jv) list" where
  "redact_member k shown ps = (if shown then set_prop k (JStr ''[redacted]'') ps else filter (\<lambda>p. fst p \<noteq> k) ps)"

text \<open>A unique index on the values of \<open>key\<close>: no row but the one with the key column \<open>self\<close> may hold the value.\<close>

definition unique_act :: "(db \<Rightarrow> bool) \<Rightarrow> string \<Rightarrow> (db, unit) act" where
  "unique_act taken index = bind_act (gets_act taken) (\<lambda>t. guard_act (\<not> t) (DbError index))"

section \<open>POST\<close>

definition providers_POST :: "admin_env \<Rightarrow> jv \<Rightarrow> (db, admin_answer) act" where
  "providers_POST env body =
     bind_act (parse_body (ProviderSchema (ad_schema env)) body) (\<lambda>v.
     then_act (unique_act (\<lambda>d. list_ex (\<lambda>p. p_slug p = or_text v ''slug'' []) (providers d)) ''providers_slug_key'')
    (bind_act fresh_id (\<lambda>i.
     let row = \<lparr>p_id = i, p_slug = or_text v ''slug'' [], p_name = or_text v ''name'' [], p_adapter = or_text v ''adapter'' [],
                p_base_url = or_text v ''base_url'' [], p_enabled = or_bool v ''enabled'' True, p_metadata = or_json v ''metadata'' (JObj [])\<rparr>
     in then_act (modify_act (\<lambda>d. d\<lparr>providers := providers d @ [row]\<rparr>))
       (then_act (draftAfter env ''create'' ''provider'' (show_nat i) v)
       (return_act (ProviderRow row))))))"

definition credential_secret :: "jv \<Rightarrow> (db, uuid option) act" where
  "credential_secret v =
     (if truthy (get_prop v ''credential'')
      then bind_act (insertSecret ''account_credential'' (get_prop v ''credential'')) (\<lambda>s. return_act (Some s))
      else return_act None)"

definition created_account :: "jv \<Rightarrow> uuid \<Rightarrow> uuid option \<Rightarrow> account_row" where
  "created_account v i sid =
     \<lparr>a_id = i, a_provider = dec_val (or_text v ''provider_id'' []), a_secret = sid, a_name = or_text v ''name'' [],
      a_display = or_text v ''display_name'' [], a_base_url = or_text v ''base_url'' [], a_enabled = or_bool v ''enabled'' True,
      a_priority = or_int v ''priority'' 1, a_weight = or_int v ''weight'' 1, a_max_concurrency = or_int v ''max_concurrency'' 100,
      a_cost = or_money v ''cost'' 0,
      a_metadata = JObj (if get_prop v ''proxy'' = JUndef then record_of (get_prop v ''metadata'')
                         else set_prop ''proxy'' (get_prop v ''proxy'') (record_of (get_prop v ''metadata''))),
      a_revision = 1, a_external = None, a_email = None, a_plan = None, a_expires = None, a_persistence = ''persisted''\<rparr>"

definition accounts_POST :: "admin_env \<Rightarrow> jv \<Rightarrow> (db, admin_answer) act" where
  "accounts_POST env body =
     bind_act (parse_body (AccountSchema (ad_schema env)) body) (\<lambda>v.
     bind_act (credential_secret v) (\<lambda>sid.
     then_act (range_act [''priority'', ''weight'', ''max_concurrency''] [''cost''] v)
    (then_act (unique_act (\<lambda>d. list_ex (\<lambda>a. a_name a = or_text v ''name'' []) (accounts d)) ''accounts_name_key'')
    (bind_act (gets_act (\<lambda>d. list_ex (\<lambda>p. Some (p_id p) = uuid_at v ''provider_id'') (providers d))) (\<lambda>known.
     then_act (guard_act known (DbError ''accounts_provider_id_fkey''))
    (bind_act fresh_id (\<lambda>i.
     let row = created_account v i sid
     in then_act (modify_act (\<lambda>d. d\<lparr>accounts := accounts d @ [row]\<rparr>))
       (then_act (draftAfter env ''create'' ''account'' (show_nat i)
           (JObj (redact_member ''proxy'' (truthy (get_prop v ''proxy'')) (redact_member ''credential'' (truthy (get_prop v ''credential'')) (record_of v)))))
       (return_act (AccountRow row))))))))))"

definition created_model :: "jv \<Rightarrow> uuid \<Rightarrow> alias_row" where
  "created_model v i =
     \<lparr>m_id = i, m_alias = or_text v ''alias'' [], m_upstream = or_text v ''upstream_model'' [], m_provider = uuid_at v ''provider_id'',
      m_strategy = or_text v ''routing_strategy'' [], m_enabled = or_bool v ''enabled'' True, m_fallbacks = or_texts v ''fallbacks'' [],
      m_cache = Some (or_text v ''cache'' []), m_cache_ttl = Some (or_text v ''cache_ttl'' []),
      m_threshold = (case get_prop v ''cache_similar_threshold'' of JNum (Fin x) \<Rightarrow> Some x | _ \<Rightarrow> None)\<rparr>"

definition map_accounts :: "uuid \<Rightarrow> uuid list \<Rightarrow> (db, unit) act" where
  "map_accounts m ids =
     bind_act (gets_act (\<lambda>d. list_all (\<lambda>i. list_ex (\<lambda>a. a_id a = i) (accounts d)) ids)) (\<lambda>known.
     then_act (guard_act known (DbError ''model_account_mappings_account_id_fkey''))
    (insert_mappings m ids))"

definition models_POST :: "admin_env \<Rightarrow> jv \<Rightarrow> (db, admin_answer) act" where
  "models_POST env body =
     bind_act (parse_body (ModelSchema (ad_schema env)) body) (\<lambda>v.
     then_act (unique_act (\<lambda>d. list_ex (\<lambda>m. toLowerCase (m_alias m) = toLowerCase (or_text v ''alias'' [])) (aliases d)) ''model_aliases_alias_folded_uq'')
    (then_act (guard_act (or_text v ''routing_strategy'' [] \<in> set db_strategies) (DbError ''model_aliases_routing_strategy_check''))
    (bind_act (gets_act (\<lambda>d. uuid_at v ''provider_id'' = None \<or> list_ex (\<lambda>p. Some (p_id p) = uuid_at v ''provider_id'') (providers d))) (\<lambda>known.
     then_act (guard_act known (DbError ''model_aliases_provider_id_fkey''))
    (then_act (range_act [] [''input_per_mtok'', ''output_per_mtok''] v)
    (bind_act fresh_id (\<lambda>i.
     let row = created_model v i
     in then_act (modify_act (\<lambda>d. d\<lparr>aliases := aliases d @ [row],
            pricing := pricing d @ [\<lparr>pc_model = i, pc_input = or_money v ''input_per_mtok'' 0, pc_output = or_money v ''output_per_mtok'' 0\<rparr>]\<rparr>))
       (then_act (map_accounts i (uuids_at v ''accounts''))
       (then_act (draftAfter env ''create'' ''model_alias'' (show_nat i) v)
       (return_act (ModelRow row)))))))))))"

text \<open>\<open>mode ? { mode } : {}\<close> and \<open>squoze === true ? { squoze } : {}\<close>.\<close>

definition stored_optimization :: "jv \<Rightarrow> jv" where
  "stored_optimization o' =
     JObj (map (\<lambda>k. (k, get_prop o' k)) [''rtk_compression'', ''caveman'', ''headroom'', ''headroom_reserve'', ''headroom_keep'']
       @ concat (map (\<lambda>k. member_if (truthy (get_prop o' k)) k (get_prop o' k)) [''rtk_mode'', ''caveman_mode'', ''headroom_profile''])
       @ member_if (get_prop o' ''squoze'' = JBool True) ''squoze'' (JBool True))"

definition routing_row :: "jv \<Rightarrow> jv" where
  "routing_row v = JObj (map (\<lambda>k. (k, get_prop v k)) [''strategy'', ''sticky_ttl'', ''max_attempts'', ''resilience''])"

definition routing_POST :: "admin_env \<Rightarrow> jv \<Rightarrow> (db, admin_answer) act" where
  "routing_POST env body =
     bind_act (parse_body RoutingSchema body) (\<lambda>v.
     then_act (range_act [''max_attempts''] [] v)
    (then_act (modify_act (\<lambda>d. d\<lparr>routing := Some (routing_row v)\<rparr>))
    (then_act (save_setting ''optimization'' (stored_optimization (get_prop v ''optimization'')))
    (then_act (draftAfter env ''update'' ''routing_settings'' ''singleton'' v)
    (return_act (Value (routing_row v)))))))"

definition owner_known :: "uuid option \<Rightarrow> db \<Rightarrow> bool" where
  "owner_known u d \<longleftrightarrow> (case u of None \<Rightarrow> True | Some i \<Rightarrow> list_ex (\<lambda>x. u_id x = i) (users d))"

definition org_known :: "uuid option \<Rightarrow> db \<Rightarrow> bool" where
  "org_known oo d \<longleftrightarrow> (case oo of None \<Rightarrow> True | Some i \<Rightarrow> list_ex (\<lambda>x. o_id x = i) (orgs d))"

definition team_known :: "uuid option \<Rightarrow> db \<Rightarrow> bool" where
  "team_known t d \<longleftrightarrow> (case t of None \<Rightarrow> True | Some i \<Rightarrow> list_ex (\<lambda>x. t_id x = i) (teams d))"

definition known_act :: "(db \<Rightarrow> bool) \<Rightarrow> string \<Rightarrow> (db, unit) act" where
  "known_act holds fkey = bind_act (gets_act holds) (\<lambda>k. guard_act k (DbError fkey))"

definition org_range :: "jv \<Rightarrow> (db, unit) act" where
  "org_range v = guard_act (\<bar>or_budget2 v ''budget_usd'' 0\<bar> < 10000000000) (DbError ''numeric_value_out_of_range'')"

text \<open>A violation of the unique index, code \<open>23505\<close>, is answered with 409.\<close>

definition organizations_POST :: "admin_env \<Rightarrow> jv \<Rightarrow> (db, admin_answer) act" where
  "organizations_POST env body =
     bind_act (lift_res (requireFeature (ad_licence env) ''orgs'')) (\<lambda>_.
     bind_act (parse_body (OrganizationSchema (ad_schema env)) body) (\<lambda>v.
     then_act (org_range v)
    (bind_act (gets_act (\<lambda>d. list_ex (\<lambda>x. toLowerCase (o_name x) = toLowerCase (or_text v ''name'' [])) (orgs d))) (\<lambda>dup.
     then_act (guard_act (\<not> dup) (ApiError 409 ''organization_exists'' ''An organization with this name already exists''))
    (then_act (known_act (owner_known (uuid_at v ''owner_user_id'')) ''organizations_owner_user_id_fkey'')
    (bind_act fresh_id (\<lambda>i.
     let row = \<lparr>o_id = i, o_name = or_text v ''name'' [], o_owner = uuid_at v ''owner_user_id'', o_budget = or_budget2 v ''budget_usd'' 0\<rparr>
     in then_act (modify_act (\<lambda>d. d\<lparr>orgs := orgs d @ [row]\<rparr>))
       (then_act (draftAfter env ''create'' ''organization'' (show_nat i) v)
       (return_act (OrgRow row))))))))))"

definition teams_POST :: "admin_env \<Rightarrow> jv \<Rightarrow> (db, admin_answer) act" where
  "teams_POST env body =
     bind_act (parse_body (TeamSchema (ad_schema env)) body) (\<lambda>v.
     then_act (range_act [] [''budget_usd''] v)
    (then_act (unique_act (\<lambda>d. list_ex (\<lambda>t. toLowerCase (t_name t) = toLowerCase (or_text v ''name'' [])) (teams d)) ''teams_name_folded_uq'')
    (then_act (known_act (org_known (uuid_at v ''org_id'')) ''teams_org_id_fkey'')
    (bind_act fresh_id (\<lambda>i.
     let row = \<lparr>t_id = i, t_name = or_text v ''name'' [], t_enabled = or_bool v ''enabled'' True, t_budget = or_money v ''budget_usd'' 0,
                t_balance = 0, t_org = uuid_at v ''org_id''\<rparr>
     in then_act (modify_act (\<lambda>d. d\<lparr>teams := teams d @ [row]\<rparr>))
       (then_act (draftAfter env ''create'' ''team'' (show_nat i) v)
       (return_act (TeamRow row))))))))"

definition headers_secret :: "jv \<Rightarrow> (db, uuid option) act" where
  "headers_secret v =
     (if record_of (get_prop v ''headers'') \<noteq> []
      then bind_act (insertSecret ''mcp_headers'' (get_prop v ''headers'')) (\<lambda>s. return_act (Some s))
      else return_act None)"

definition mcp_servers_POST :: "admin_env \<Rightarrow> jv \<Rightarrow> (db, admin_answer) act" where
  "mcp_servers_POST env body =
     bind_act (parse_body (McpServerSchema (ad_schema env)) body) (\<lambda>v.
     bind_act (headers_secret v) (\<lambda>sid.
     bind_act (gets_act (\<lambda>d. list_ex (\<lambda>m. toLowerCase (mc_name m) = toLowerCase (or_text v ''name'' [])) (mcps d))) (\<lambda>dup.
     then_act (guard_act (\<not> dup) (ApiError 409 ''mcp_server_exists'' ''An MCP server with this name already exists''))
    (bind_act fresh_id (\<lambda>i.
     let row = \<lparr>mc_id = i, mc_name = or_text v ''name'' [], mc_url = or_text v ''url'' [], mc_enabled = or_bool v ''enabled'' True, mc_headers = sid\<rparr>
     in then_act (modify_act (\<lambda>d. d\<lparr>mcps := mcps d @ [row]\<rparr>))
       (then_act (draftAfter env ''create'' ''mcp_server'' (show_nat i)
           (JObj (redact_member ''headers'' (record_of (get_prop v ''headers'') \<noteq> []) (record_of v))))
       (return_act (McpRow row))))))))"

definition webhook_POST :: "admin_env \<Rightarrow> jv \<Rightarrow> (db, admin_answer) act" where
  "webhook_POST env body =
     bind_act (parse_body (WebhookSchema (ad_schema env)) body) (\<lambda>v.
     then_act (save_setting ''webhook'' v)
    (then_act (draftAfter env ''update'' ''webhook'' ''singleton'' v)
    (return_act (Value v))))"

definition ipacl_POST :: "admin_env \<Rightarrow> jv \<Rightarrow> (db, admin_answer) act" where
  "ipacl_POST env body =
     bind_act (lift_res (requireFeature (ad_licence env) ''ipacl'')) (\<lambda>_.
     bind_act (lift_res (parseCidrs (get_prop body ''cidrs''))) (\<lambda>cidrs.
     let v = JObj [(''cidrs'', JArr (map JStr cidrs))]
     in then_act (save_setting ''ipacl'' v)
       (then_act (draftAfter env ''update'' ''ipacl'' ''singleton'' v)
       (return_act (Value v)))))"

definition proxy_error :: "proxy_line_error \<Rightarrow> string" where
  "proxy_error e = ''line '' @ show_nat (err_line e) @ '': '' @ err_text e @ '' - '' @ err_reason e"

definition saveProxyPool :: "admin_env \<Rightarrow> jv \<Rightarrow> (db, admin_answer) act" where
  "saveProxyPool env body =
     (let raw = or_text body ''raw'' []
      in bind_act (lift_res (parseProxyList (sn_web (ad_sn env)) raw)) (\<lambda>acc.
         then_act (guard_act (errors acc = []) (ApiError 400 ''invalid_proxy_pool'' (js_join ''; '' (map proxy_error (errors acc)))))
        (then_act (save_setting ''proxy_pool'' (JObj [(''raw'', JStr raw)]))
        (then_act (draftAfter env ''update'' ''proxy_pool'' ''global'' (JObj [(''proxy_count'', int_json (int (length (entries acc))))]))
        (return_act (Value (JObj [(''raw'', JStr raw), (''proxy_count'', int_json (int (length (entries acc))))])))))))"

text \<open>The key is the text of the request or a fresh random one; only its keyed hash and its first ten characters are
  stored.\<close>

definition virtual_keys_POST :: "admin_env \<Rightarrow> string \<Rightarrow> jv \<Rightarrow> (db, admin_answer) act" where
  "virtual_keys_POST env random body =
     bind_act (parse_body (VirtualKeySchema (ad_schema env)) body) (\<lambda>v.
     let plaintext = (case get_prop v ''plaintext_key'' of JStr s \<Rightarrow> s | _ \<Rightarrow> ''sk-cp-'' @ random)
     in then_act (range_act [''rpm'', ''tpm'', ''max_concurrency''] [''budget_usd''] v)
       (then_act (unique_act (\<lambda>d. list_ex (\<lambda>k. k_name k = or_text v ''name'' []) (vkeys d)) ''virtual_keys_name_key'')
       (then_act (known_act (team_known (uuid_at v ''team_id'')) ''virtual_keys_team_id_fkey'')
       (bind_act fresh_id (\<lambda>i.
        let row = \<lparr>k_id = i, k_name = or_text v ''name'' [], k_hash = hmac_hex (ad_crypto env) (ad_gateway_secret env) plaintext,
                   k_prefix = take 10 plaintext, k_enabled = or_bool v ''enabled'' True, k_models = or_texts v ''models'' [],
                   k_rpm = or_int v ''rpm'' 60, k_tpm = or_int v ''tpm'' 0, k_max_concurrency = or_int v ''max_concurrency'' 0,
                   k_budget = or_money v ''budget_usd'' 0, k_duration = or_text v ''budget_duration'' ''day'', k_team = uuid_at v ''team_id''\<rparr>
        in then_act (modify_act (\<lambda>d. d\<lparr>vkeys := vkeys d @ [row]\<rparr>))
          (then_act (draftAfter env ''create'' ''virtual_key'' (show_nat i) (JObj (redact_member ''plaintext_key'' True (record_of v))))
          (return_act (KeyRow row (Some plaintext)))))))))"

section \<open>PATCH\<close>

text \<open>A parameter is read as an integer in any case, while the range of a \<open>numeric\<close> column, a unique index and a
  foreign key matter only when a row is written.\<close>

definition range_update :: "bool \<Rightarrow> string list \<Rightarrow> string list \<Rightarrow> jv \<Rightarrow> (db, unit) act" where
  "range_update written ints nums v =
     guard_act (in_range ints [] v \<and> (written \<longrightarrow> in_range [] nums v)) (DbError ''numeric_value_out_of_range'')"

definition the_row :: "('r \<Rightarrow> admin_answer) \<Rightarrow> 'r option \<Rightarrow> admin_answer" where
  "the_row con r = (case r of None \<Rightarrow> NoRow | Some x \<Rightarrow> con x)"

definition patched_provider :: "jv \<Rightarrow> provider_row \<Rightarrow> provider_row" where
  "patched_provider v p = p\<lparr>p_name := or_text v ''name'' (p_name p), p_adapter := or_text v ''adapter'' (p_adapter p),
     p_base_url := or_text v ''base_url'' (p_base_url p), p_enabled := or_bool v ''enabled'' (p_enabled p),
     p_metadata := or_json v ''metadata'' (p_metadata p)\<rparr>"

definition providers_PATCH :: "admin_env \<Rightarrow> string \<Rightarrow> jv \<Rightarrow> (db, admin_answer) act" where
  "providers_PATCH env key body =
     bind_act (parse_body (ProviderPatchSchema (ad_schema env)) body) (\<lambda>v.
     bind_act (path_uuid key) (\<lambda>i.
     then_act (modify_act (\<lambda>d. d\<lparr>providers := update_where (\<lambda>p. p_id p = i) (patched_provider v) (providers d)\<rparr>))
    (bind_act (gets_act (find_provider i)) (\<lambda>row.
     then_act (draftAfter env ''update'' ''provider'' key v)
    (return_act (the_row ProviderRow row))))))"

definition patched_account :: "jv \<Rightarrow> uuid option \<Rightarrow> jv option \<Rightarrow> account_row \<Rightarrow> account_row" where
  "patched_account v sid metadata a = a\<lparr>a_secret := (if sid = None then a_secret a else sid), a_display := or_text v ''display_name'' (a_display a),
     a_base_url := or_text v ''base_url'' (a_base_url a), a_enabled := or_bool v ''enabled'' (a_enabled a),
     a_priority := or_int v ''priority'' (a_priority a), a_weight := or_int v ''weight'' (a_weight a),
     a_max_concurrency := or_int v ''max_concurrency'' (a_max_concurrency a), a_cost := or_money v ''cost'' (a_cost a),
     a_metadata := (case metadata of None \<Rightarrow> a_metadata a | Some m \<Rightarrow> m)\<rparr>"

text \<open>With a proxy in the request the stored metadata are the old ones with the proxy; the metadata of the request are
  not used then.\<close>

definition patch_metadata :: "jv \<Rightarrow> account_row option \<Rightarrow> jv option" where
  "patch_metadata v current =
     (if get_prop v ''proxy'' \<noteq> JUndef
      then Some (JObj (set_prop ''proxy'' (get_prop v ''proxy'') (case current of None \<Rightarrow> [] | Some a \<Rightarrow> record_of (a_metadata a))))
      else if get_prop v ''metadata'' = JUndef then None else Some (get_prop v ''metadata''))"

definition update_account :: "admin_env \<Rightarrow> string \<Rightarrow> jv \<Rightarrow> uuid option \<Rightarrow> (db, admin_answer) act" where
  "update_account env key v sid =
     bind_act (path_uuid key) (\<lambda>i.
     bind_act (gets_act (find_account i)) (\<lambda>current.
     then_act (range_update (current \<noteq> None) [''priority'', ''weight'', ''max_concurrency''] [''cost''] v)
    (then_act (modify_act (\<lambda>d. d\<lparr>accounts := update_where (\<lambda>a. a_id a = i) (patched_account v sid (patch_metadata v current)) (accounts d)\<rparr>))
    (bind_act (gets_act (find_account i)) (\<lambda>row.
     then_act (draftAfter env ''update'' ''account'' key
        (JObj (redact_member ''proxy'' (get_prop v ''proxy'' \<noteq> JUndef) (redact_member ''credential'' (truthy (get_prop v ''credential'')) (record_of v)))))
    (return_act (the_row AccountRow row)))))))"

definition accounts_PATCH :: "admin_env \<Rightarrow> string \<Rightarrow> jv \<Rightarrow> (db, admin_answer) act" where
  "accounts_PATCH env key body =
     bind_act (parse_body (AccountPatchSchema (ad_schema env)) body) (\<lambda>v.
     bind_act (credential_secret v) (\<lambda>sid. update_account env key v sid))"

definition or_threshold :: "jv \<Rightarrow> rat option \<Rightarrow> rat option" where
  "or_threshold v old = (case get_prop v ''cache_similar_threshold'' of JNull \<Rightarrow> None | JNum (Fin x) \<Rightarrow> Some x | _ \<Rightarrow> old)"

definition or_some_text :: "jv \<Rightarrow> string \<Rightarrow> string option \<Rightarrow> string option" where
  "or_some_text v k old = (case get_prop v k of JStr s \<Rightarrow> Some s | _ \<Rightarrow> old)"

definition patched_model :: "jv \<Rightarrow> alias_row \<Rightarrow> alias_row" where
  "patched_model v m = m\<lparr>m_alias := or_text v ''alias'' (m_alias m), m_upstream := or_text v ''upstream_model'' (m_upstream m),
     m_enabled := or_bool v ''enabled'' (m_enabled m), m_fallbacks := or_texts v ''fallbacks'' (m_fallbacks m),
     m_cache := or_some_text v ''cache'' (m_cache m), m_cache_ttl := or_some_text v ''cache_ttl'' (m_cache_ttl m),
     m_threshold := or_threshold v (m_threshold m)\<rparr>"

definition patch_pricing :: "uuid \<Rightarrow> jv \<Rightarrow> db \<Rightarrow> db" where
  "patch_pricing i v d =
     (if get_prop v ''input_per_mtok'' = JUndef \<and> get_prop v ''output_per_mtok'' = JUndef then d
      else let current = find (\<lambda>r. pc_model r = i) (pricing d);
               row = \<lparr>pc_model = i, pc_input = or_money v ''input_per_mtok'' (case current of None \<Rightarrow> 0 | Some r \<Rightarrow> pc_input r),
                      pc_output = or_money v ''output_per_mtok'' (case current of None \<Rightarrow> 0 | Some r \<Rightarrow> pc_output r)\<rparr>
           in d\<lparr>pricing := upsert_where (\<lambda>r. pc_model r = i) (\<lambda>r. row) row (pricing d)\<rparr>)"

definition patch_mappings :: "uuid \<Rightarrow> jv \<Rightarrow> (db, unit) act" where
  "patch_mappings i v =
     (if get_prop v ''accounts'' = JUndef then return_act ()
      else then_act (modify_act (\<lambda>d. d\<lparr>mappings := delete_where (\<lambda>r. mm_model r = i) (mappings d)\<rparr>))
          (map_accounts i (uuids_at v ''accounts'')))"

definition alias_taken :: "uuid \<Rightarrow> jv \<Rightarrow> db \<Rightarrow> bool" where
  "alias_taken i v d \<longleftrightarrow> get_prop v ''alias'' \<noteq> JUndef
     \<and> list_ex (\<lambda>m. m_id m \<noteq> i \<and> toLowerCase (m_alias m) = toLowerCase (or_text v ''alias'' [])) (aliases d)"

definition update_model :: "admin_env \<Rightarrow> string \<Rightarrow> uuid \<Rightarrow> jv \<Rightarrow> (db, admin_answer) act" where
  "update_model env key i v =
     bind_act (gets_act (\<lambda>d. list_ex (\<lambda>m. m_id m = i) (aliases d))) (\<lambda>present.
     then_act (guard_act present (ApiError 404 ''not_found'' ''Model not found''))
    (then_act (unique_act (alias_taken i v) ''model_aliases_alias_folded_uq'')
    (then_act (modify_act (\<lambda>d. d\<lparr>aliases := update_where (\<lambda>m. m_id m = i) (patched_model v) (aliases d)\<rparr>))
    (then_act (range_act [] [''input_per_mtok'', ''output_per_mtok''] v)
    (then_act (modify_act (patch_pricing i v))
    (then_act (patch_mappings i v)
    (bind_act (gets_act (\<lambda>d. find (\<lambda>m. m_id m = i) (aliases d))) (\<lambda>row.
     then_act (draftAfter env ''update'' ''model_alias'' key v)
    (return_act (the_row ModelRow row))))))))))"

definition models_PATCH :: "admin_env \<Rightarrow> string \<Rightarrow> jv \<Rightarrow> (db, admin_answer) act" where
  "models_PATCH env key body =
     bind_act (parse_body (ModelPatchSchema (ad_schema env)) body) (\<lambda>v.
     bind_act (path_uuid key) (\<lambda>i.
     case get_prop v ''routing_strategy'' of
       JStr s \<Rightarrow> then_act (updateProviderModelStrategy (ad_sn env) i s)
          (bind_act (gets_act (\<lambda>d. find (\<lambda>m. m_id m = i) (aliases d))) (\<lambda>row. return_act (the_row ModelRow row)))
     | _ \<Rightarrow> update_model env key i v))"

text \<open>\<open>owner_user_id=$3\<close>: the owner is set also when the request does not name one.\<close>

definition patched_org :: "jv \<Rightarrow> org_row \<Rightarrow> org_row" where
  "patched_org v r = r\<lparr>o_name := or_text v ''name'' (o_name r), o_owner := uuid_at v ''owner_user_id'',
     o_budget := or_budget2 v ''budget_usd'' (o_budget r)\<rparr>"

definition organizations_PATCH :: "admin_env \<Rightarrow> string \<Rightarrow> jv \<Rightarrow> (db, admin_answer) act" where
  "organizations_PATCH env key body =
     bind_act (lift_res (requireFeature (ad_licence env) ''orgs'')) (\<lambda>_.
     bind_act (parse_body (OrganizationPatchSchema (ad_schema env)) body) (\<lambda>v.
     bind_act (path_uuid key) (\<lambda>i.
     bind_act (gets_act (\<lambda>d. list_ex (\<lambda>r. o_id r = i) (orgs d))) (\<lambda>present.
     then_act (guard_act present (ApiError 404 ''not_found'' ''Organization not found''))
    (then_act (org_range v)
    (then_act (unique_act (\<lambda>d. get_prop v ''name'' \<noteq> JUndef
          \<and> list_ex (\<lambda>r. o_id r \<noteq> i \<and> toLowerCase (o_name r) = toLowerCase (or_text v ''name'' [])) (orgs d)) ''organizations_name_folded_uq'')
    (then_act (known_act (owner_known (uuid_at v ''owner_user_id'')) ''organizations_owner_user_id_fkey'')
    (then_act (modify_act (\<lambda>d. d\<lparr>orgs := update_where (\<lambda>r. o_id r = i) (patched_org v) (orgs d)\<rparr>))
    (bind_act (gets_act (\<lambda>d. find (\<lambda>r. o_id r = i) (orgs d))) (\<lambda>row.
     then_act (draftAfter env ''update'' ''organization'' key v)
    (return_act (the_row OrgRow row))))))))))))"

definition patched_team :: "jv \<Rightarrow> team_row \<Rightarrow> team_row" where
  "patched_team v t = t\<lparr>t_name := or_text v ''name'' (t_name t), t_enabled := or_bool v ''enabled'' (t_enabled t),
     t_budget := or_money v ''budget_usd'' (t_budget t),
     t_org := (if get_prop v ''org_id'' = JUndef then t_org t else uuid_at v ''org_id'')\<rparr>"

definition teams_PATCH :: "admin_env \<Rightarrow> string \<Rightarrow> jv \<Rightarrow> (db, admin_answer) act" where
  "teams_PATCH env key body =
     bind_act (parse_body (TeamPatchSchema (ad_schema env)) body) (\<lambda>v.
     bind_act (path_uuid key) (\<lambda>i.
     bind_act (gets_act (\<lambda>d. list_ex (\<lambda>t. t_id t = i) (teams d))) (\<lambda>present.
     then_act (guard_act present (ApiError 404 ''not_found'' ''Team not found''))
    (then_act (range_act [] [''budget_usd''] v)
    (then_act (unique_act (\<lambda>d. get_prop v ''name'' \<noteq> JUndef
          \<and> list_ex (\<lambda>t. t_id t \<noteq> i \<and> toLowerCase (t_name t) = toLowerCase (or_text v ''name'' [])) (teams d)) ''teams_name_folded_uq'')
    (then_act (known_act (org_known (uuid_at v ''org_id'')) ''teams_org_id_fkey'')
    (then_act (modify_act (\<lambda>d. d\<lparr>teams := update_where (\<lambda>t. t_id t = i) (patched_team v) (teams d)\<rparr>))
    (bind_act (gets_act (\<lambda>d. find (\<lambda>t. t_id t = i) (teams d))) (\<lambda>row.
     then_act (draftAfter env ''update'' ''team'' key v)
    (return_act (the_row TeamRow row)))))))))))"

definition patched_mcp :: "jv \<Rightarrow> uuid option \<Rightarrow> mcp_row \<Rightarrow> mcp_row" where
  "patched_mcp v sid m = m\<lparr>mc_name := or_text v ''name'' (mc_name m), mc_url := or_text v ''url'' (mc_url m),
     mc_enabled := or_bool v ''enabled'' (mc_enabled m), mc_headers := (if sid = None then mc_headers m else sid)\<rparr>"

definition mcp_servers_PATCH :: "admin_env \<Rightarrow> string \<Rightarrow> jv \<Rightarrow> (db, admin_answer) act" where
  "mcp_servers_PATCH env key body =
     bind_act (parse_body (McpServerPatchSchema (ad_schema env)) body) (\<lambda>v.
     bind_act (headers_secret v) (\<lambda>sid.
     bind_act (path_uuid key) (\<lambda>i.
     bind_act (gets_act (\<lambda>d. list_ex (\<lambda>m. mc_id m = i) (mcps d))) (\<lambda>present.
     then_act (guard_act present (ApiError 404 ''not_found'' ''MCP server not found''))
    (then_act (unique_act (\<lambda>d. get_prop v ''name'' \<noteq> JUndef
          \<and> list_ex (\<lambda>m. mc_id m \<noteq> i \<and> toLowerCase (mc_name m) = toLowerCase (or_text v ''name'' [])) (mcps d)) ''mcp_servers_name_folded_uq'')
    (then_act (modify_act (\<lambda>d. d\<lparr>mcps := update_where (\<lambda>m. mc_id m = i) (patched_mcp v sid) (mcps d)\<rparr>))
    (bind_act (gets_act (\<lambda>d. find (\<lambda>m. mc_id m = i) (mcps d))) (\<lambda>row.
     then_act (draftAfter env ''update'' ''mcp_server'' key
        (JObj (redact_member ''headers'' (get_prop v ''headers'' \<noteq> JUndef) (record_of v))))
    (return_act (the_row McpRow row))))))))))"

definition patched_key :: "jv \<Rightarrow> key_row \<Rightarrow> key_row" where
  "patched_key v k = k\<lparr>k_name := or_text v ''name'' (k_name k), k_enabled := or_bool v ''enabled'' (k_enabled k),
     k_models := or_texts v ''models'' (k_models k), k_rpm := or_int v ''rpm'' (k_rpm k), k_tpm := or_int v ''tpm'' (k_tpm k),
     k_max_concurrency := or_int v ''max_concurrency'' (k_max_concurrency k), k_budget := or_money v ''budget_usd'' (k_budget k),
     k_duration := or_text v ''budget_duration'' (k_duration k),
     k_team := (if get_prop v ''team_id'' = JUndef then k_team k else uuid_at v ''team_id'')\<rparr>"

definition virtual_keys_PATCH :: "admin_env \<Rightarrow> string \<Rightarrow> jv \<Rightarrow> (db, admin_answer) act" where
  "virtual_keys_PATCH env key body =
     bind_act (parse_body (VirtualKeyPatchSchema (ad_schema env)) body) (\<lambda>v.
     bind_act (path_uuid key) (\<lambda>i.
     then_act (guard_act (in_range [''rpm'', ''tpm'', ''max_concurrency''] [] v) (DbError ''numeric_value_out_of_range''))
    (bind_act (gets_act (\<lambda>d. list_ex (\<lambda>k. k_id k = i) (vkeys d))) (\<lambda>present.
     then_act (guard_act present (ApiError 404 ''not_found'' ''Virtual key not found''))
    (then_act (range_act [] [''budget_usd''] v)
    (then_act (unique_act (\<lambda>d. get_prop v ''name'' \<noteq> JUndef
          \<and> list_ex (\<lambda>k. k_id k \<noteq> i \<and> k_name k = or_text v ''name'' []) (vkeys d)) ''virtual_keys_name_key'')
    (then_act (known_act (team_known (uuid_at v ''team_id'')) ''virtual_keys_team_id_fkey'')
    (then_act (modify_act (\<lambda>d. d\<lparr>vkeys := update_where (\<lambda>k. k_id k = i) (patched_key v) (vkeys d)\<rparr>))
    (bind_act (gets_act (\<lambda>d. find (\<lambda>k. k_id k = i) (vkeys d))) (\<lambda>row.
     then_act (draftAfter env ''update'' ''virtual_key'' key v)
    (return_act (the_row (\<lambda>k. KeyRow k None) row))))))))))))"

section \<open>DELETE\<close>

definition mcp_servers_DELETE :: "admin_env \<Rightarrow> string \<Rightarrow> (db, admin_answer) act" where
  "mcp_servers_DELETE env key =
     bind_act (path_uuid key) (\<lambda>i.
     bind_act (gets_act (\<lambda>d. list_ex (\<lambda>m. mc_id m = i) (mcps d))) (\<lambda>present.
     then_act (guard_act present (ApiError 404 ''not_found'' ''MCP server not found''))
    (then_act (modify_act (\<lambda>d. d\<lparr>mcps := delete_where (\<lambda>m. mc_id m = i) (mcps d)\<rparr>))
    (then_act (draftAfter env ''delete'' ''mcp_server'' key (JObj []))
    (return_act (Removed key))))))"

text \<open>\<open>teams.org_id\<close> is set to null with the organisation.\<close>

definition organizations_DELETE :: "admin_env \<Rightarrow> string \<Rightarrow> (db, admin_answer) act" where
  "organizations_DELETE env key =
     bind_act (lift_res (requireFeature (ad_licence env) ''orgs'')) (\<lambda>_.
     bind_act (path_uuid key) (\<lambda>i.
     bind_act (gets_act (\<lambda>d. list_ex (\<lambda>r. o_id r = i) (orgs d))) (\<lambda>present.
     then_act (guard_act present (ApiError 404 ''not_found'' ''Organization not found''))
    (then_act (modify_act (\<lambda>d. d\<lparr>orgs := delete_where (\<lambda>r. o_id r = i) (orgs d),
        teams := update_where (\<lambda>t. t_org t = Some i) (\<lambda>t. t\<lparr>t_org := None\<rparr>) (teams d)\<rparr>))
    (then_act (draftAfter env ''delete'' ''organization'' key (JObj []))
    (return_act (Removed key)))))))"

definition accounts_DELETE :: "admin_env \<Rightarrow> string \<Rightarrow> (db, admin_answer) act" where
  "accounts_DELETE env key =
     bind_act (path_uuid key) (\<lambda>i.
     then_act (deleteAccountResource i)
    (then_act (draftAfter env ''delete'' ''account'' key (JObj []))
    (return_act (Removed key))))"

definition providers_DELETE :: "admin_env \<Rightarrow> string \<Rightarrow> (db, admin_answer) act" where
  "providers_DELETE env key =
     bind_act (path_uuid key) (\<lambda>i.
     bind_act (deleteProviderResource i) (\<lambda>n.
     then_act (draftAfter env ''delete'' ''provider'' key (JObj [(''deleted_accounts'', int_json (int n))]))
    (return_act (Removed key))))"

definition models_DELETE :: "admin_env \<Rightarrow> string \<Rightarrow> (db, admin_answer) act" where
  "models_DELETE env key =
     bind_act (path_uuid key) (\<lambda>i. then_act (deleteModelRoute (ad_sn env) i) (return_act (Removed key)))"

text \<open>Virtual keys and teams are disabled, not deleted.\<close>

definition disable_resource :: "admin_env \<Rightarrow> string \<Rightarrow> (uuid \<Rightarrow> db \<Rightarrow> db) \<Rightarrow> string \<Rightarrow> (db, admin_answer) act" where
  "disable_resource env typ disable key =
     bind_act (path_uuid key) (\<lambda>i.
     then_act (modify_act (disable i))
    (then_act (draftAfter env ''disable'' typ key (JObj []))
    (return_act (Removed key))))"

definition disable_key :: "uuid \<Rightarrow> db \<Rightarrow> db" where
  "disable_key i d = d\<lparr>vkeys := update_where (\<lambda>k. k_id k = i) (\<lambda>k. k\<lparr>k_enabled := False\<rparr>) (vkeys d)\<rparr>"

definition disable_team :: "uuid \<Rightarrow> db \<Rightarrow> db" where
  "disable_team i d = d\<lparr>teams := update_where (\<lambda>t. t_id t = i) (\<lambda>t. t\<lparr>t_enabled := False\<rparr>) (teams d)\<rparr>"

section \<open>Changes that are recorded and drafted\<close>

text \<open>
  A statement is \<^emph>\<open>quiet\<close> when it leaves the configuration versions, the gateways and their acknowledgements and
  the audit log alone.  A handler is \<^emph>\<open>drafting\<close> when a successful run consists of quiet statements, one audit row and
  the draft compiled from the state it leaves.
\<close>

definition unversioned :: "db \<Rightarrow> db \<Rightarrow> bool" where
  "unversioned d d' \<longleftrightarrow> versions d' = versions d \<and> gateways d' = gateways d \<and> acks d' = acks d \<and> next_id d \<le> next_id d'"

definition quiet :: "(db, 'a) act \<Rightarrow> bool" where
  "quiet m \<longleftrightarrow> (\<forall>d x d'. m d = (Inr x, d') \<longrightarrow> unversioned d d' \<and> audits d' = audits d)"

definition drafting :: "sn_env \<Rightarrow> (db, 'a) act \<Rightarrow> bool" where
  "drafting env m \<longleftrightarrow> (\<forall>d x d'. m d = (Inr x, d') \<longrightarrow>
     (\<exists>d1 c a. unversioned d d1 \<and> audits d1 = audits d @ [a] \<and> au_actor a = ''local-admin'' \<and> compileDeclarativeSnapshot env d1 = Inr c
        \<and> d' = with_draft c d1))"

named_theorems quiet_intros "statements that touch no version and no audit row"

lemma quiet_bind [quiet_intros]: "quiet m \<Longrightarrow> (\<And>x. quiet (f x)) \<Longrightarrow> quiet (bind_act m f)"
  unfolding quiet_def unversioned_def by (fastforce elim!: bind_act_InrE)

lemma quiet_then [quiet_intros]: "quiet m \<Longrightarrow> quiet n \<Longrightarrow> quiet (then_act m n)"
  unfolding then_act_def by (rule quiet_bind)

lemma quiet_pure [quiet_intros]:
  "quiet (return_act x)" "quiet (throw e)" "quiet (gets_act g)" "quiet (lift_res r)" "quiet (guard_act b e)" "quiet fresh_id"
  by (simp_all add: quiet_def unversioned_def act_defs fresh_id_def)

lemma quiet_modify [quiet_intros]:
  "(\<And>d. unversioned d (f d) \<and> audits (f d) = audits d) \<Longrightarrow> quiet (modify_act f)"
  by (simp add: quiet_def act_defs)

lemma quiet_insertSecret [quiet_intros]: "quiet (insertSecret purpose v)"
  by (simp add: quiet_def unversioned_def act_simps)

lemma quiet_for [quiet_intros]: "(\<And>x. quiet (body x)) \<Longrightarrow> quiet (for_act xs body)"
  by (induction xs) (auto intro: quiet_intros)

lemma quiet_if [quiet_intros]: "quiet m \<Longrightarrow> quiet n \<Longrightarrow> quiet (if b then m else n)"
  by simp

lemma quiet_option [quiet_intros]: "quiet m \<Longrightarrow> (\<And>y. quiet (f y)) \<Longrightarrow> quiet (case x of None \<Rightarrow> m | Some y \<Rightarrow> f y)"
  by (cases x) simp_all

lemma drafting_bind: "quiet m \<Longrightarrow> (\<And>x. drafting env (f x)) \<Longrightarrow> drafting env (bind_act m f)"
  unfolding quiet_def drafting_def unversioned_def by (fastforce elim!: bind_act_InrE)

lemma drafting_then: "quiet m \<Longrightarrow> drafting env n \<Longrightarrow> drafting env (then_act m n)"
  unfolding then_act_def by (rule drafting_bind)

lemma drafting_audited:
  "drafting env (then_act (audit action typ resource payload) (then_act (storeDraft env) (return_act x)))"
  unfolding drafting_def
proof (intro allI impI)
  fix d :: db and y d'
  let ?row = "\<lparr>au_actor = ''local-admin'', au_action = action, au_type = typ, au_resource = resource, au_payload = payload\<rparr>"
  let ?d1 = "d\<lparr>audits := audits d @ [?row]\<rparr>"
  assume "then_act (audit action typ resource payload) (then_act (storeDraft env) (return_act x)) d = (Inr y, d')"
  then obtain c where "compileDeclarativeSnapshot env ?d1 = Inr c" "d' = with_draft c ?d1"
    by (auto simp: bind_audit then_storeDraft return_act_apply split: sum.splits)
  then show "\<exists>d1 c a. unversioned d d1 \<and> audits d1 = audits d @ [a] \<and> au_actor a = ''local-admin''
      \<and> compileDeclarativeSnapshot env d1 = Inr c \<and> d' = with_draft c d1"
    by (intro exI [of _ ?d1] exI [of _ c] exI [of _ ?row]) (simp add: unversioned_def)
qed

lemma then_assoc: "then_act (then_act m n) k = then_act m (then_act n k)"
  by (rule ext) (simp add: then_act_def bind_act_def split: prod.split sum.split)

lemma drafting_draftAfter: "drafting (ad_sn env) (then_act (draftAfter env action typ key payload) (return_act x))"
  unfolding draftAfter_def then_assoc by (rule drafting_audited)

text \<open>Reading a row back after the draft changes nothing.\<close>

lemma drafting_read: "drafting env m \<Longrightarrow> drafting env (then_act m (bind_act (gets_act g) (\<lambda>y. return_act (h y))))"
  and drafting_return: "drafting env m \<Longrightarrow> drafting env (then_act m (return_act x))"
  unfolding drafting_def by (auto elim!: then_act_InrE simp: act_simps)

lemma drafting_cases: "drafting env n \<Longrightarrow> (\<And>s. drafting env (f s)) \<Longrightarrow> drafting env (case v of JStr s \<Rightarrow> f s | _ \<Rightarrow> n)"
  and drafting_throw: "drafting env (throw e)"
  and drafting_option: "drafting env m \<Longrightarrow> (\<And>y. drafting env (g y)) \<Longrightarrow> drafting env (case x of None \<Rightarrow> m | Some y \<Rightarrow> g y)"
  by (simp_all add: drafting_def throw_apply split: jv.split option.split)

subsection \<open>The contract of a change\<close>

lemma compile_with_draft: "compileDeclarativeSnapshot env (with_draft c d) = compileDeclarativeSnapshot env d"
  by (rule compile_cong) simp_all

definition drafted_row :: "compiled \<Rightarrow> db \<Rightarrow> version_row" where
  "drafted_row c d = \<lparr>cv_version = next_id d, cv_status = Draft, cv_checksum = cs_checksum c, cv_config_checksum = Some (cs_checksum c),
     cv_schema = cs_schema c, cv_snapshot = cs_snapshot c, cv_errors = [], cv_published_at = None, cv_source = None\<rparr>"

lemma sort_key_last:
  assumes "\<forall>y\<in>set xs. f y < f x" shows "sort_key f (xs @ [x]) = sort_key f xs @ [x]"
proof (rule properties_for_sort_key)
  show "sorted (map f (sort_key f xs @ [x]))" using assms by (auto simp: sorted_append)
  show "filter (\<lambda>y. f k = f y) (sort_key f xs @ [x]) = filter (\<lambda>y. f k = f y) (xs @ [x])" for k
    using sort_key_stable [where f = f] by (simp add: eq_commute [of "f k"])
qed simp

lemma fold_max_less: "(\<forall>x\<in>set xs. x < n) \<Longrightarrow> a < n \<Longrightarrow> fold max xs a < (n::nat)"
  by (induction xs arbitrary: a) simp_all

lemma newest_with_draft:
  assumes "\<forall>r\<in>set (versions d). cv_version r < next_id d" and "0 < next_id d"
  shows "newest_draft (with_draft c d) = Some (drafted_row c d)"
proof -
  let ?r = "drafted_row c d"
  have r: "cv_status ?r = Draft" "cv_version ?r = next_id d" by (simp_all add: drafted_row_def)
  have vs: "versions (with_draft c d) = versions d @ [?r]" by (simp add: with_draft_def drafted_row_def)
  have mp: "max_published (with_draft c d) = max_published d"
    unfolding max_published_def vs by (simp add: r)
  have "max_published d < next_id d"
    unfolding max_published_def using assms by (intro fold_max_less) auto
  then show ?thesis
    using assms(1) by (simp add: newest_draft_def mp vs r sort_key_last)
qed

text \<open>
  The contract every changing handler keeps, and what follows from it for the configuration: a failed request
  leaves no trace, a successful one leaves the draft of exactly the new state as the newest version, ready for
  publication.
\<close>

locale configuration_change =
  fixes env :: sn_env and run :: "(db, 'a) act"
  assumes drafts: "drafting env run"
begin

lemma failed: "txOn run d = (Inl e, d') \<Longrightarrow> d' = d"
  by (rule txOn_Inl)

lemma recorded:
  assumes "txOn run d = (Inr x, d')"
  obtains d1 c a where "unversioned d d1" "audits d' = audits d @ [a]" "compileDeclarativeSnapshot env d' = Inr c" "d' = with_draft c d1"
  using assms drafts unfolding drafting_def txOn_Inr_iff by (metis compile_with_draft with_draft_simps(16))

lemma keeps_control_ok:
  assumes "control_ok d" shows "control_ok (snd (txOn run d))"
proof (rule tx_preserves [where I = control_ok, OF assms])
  fix x d' assume "run d = (Inr x, d')"
  then obtain d1 c where u: "unversioned d d1" and d': "d' = with_draft c d1"
    using recorded [of d x d'] by (metis txOn_Inr_iff)
  have "control_ok d1" using assms u unfolding control_ok_def unversioned_def by (metis order_less_le_trans)
  then show "control_ok d'" unfolding d' with_draft_def by (rule control_ok_new_version) simp_all
qed

lemma newest:
  assumes "control_ok d" and "0 < next_id d" and "txOn run d = (Inr x, d')"
  obtains r c where "newest_draft d' = Some r" "compileDeclarativeSnapshot env d' = Inr c" "cv_snapshot r = cs_snapshot c"
    "cv_checksum r = cs_checksum c" "cv_schema r = cs_schema c" "r \<in> set (versions d')" "\<forall>q\<in>set (versions d). cv_version q < cv_version r"
proof -
  obtain d1 c where u: "unversioned d d1" and comp: "compileDeclarativeSnapshot env d' = Inr c" and d': "d' = with_draft c d1"
    using recorded [OF assms(3)] by metis
  have "newest_draft d' = Some (drafted_row c d1)"
    unfolding d' using assms(1,2) u by (intro newest_with_draft) (auto simp: control_ok_def unversioned_def)
  moreover have "\<forall>q\<in>set (versions d). cv_version q < next_id d1"
    using assms(1) u by (auto simp: control_ok_def unversioned_def intro: less_le_trans)
  ultimately show thesis
    using that [of "drafted_row c d1" c] comp by (simp add: drafted_row_def d' with_draft_def)
qed

lemma published:
  assumes "control_ok d" and "0 < next_id d" and "txOn run d = (Inr x, d')" and "publishLatest env now d' = (Inr (v, h), d'')"
  shows "\<exists>c. compileDeclarativeSnapshot env d'' = Inr c \<and> h = cs_checksum c
     \<and> (\<exists>r\<in>set (versions d''). cv_version r = v \<and> cv_status r = Published \<and> cv_snapshot r = cs_snapshot c)"
proof -
  obtain r c where n: "newest_draft d' = Some r" and c: "compileDeclarativeSnapshot env d' = Inr c" "cv_snapshot r = cs_snapshot c"
      "cv_checksum r = cs_checksum c" "r \<in> set (versions d')"
    using newest [OF assms(1-3)] by metis
  have "publish_row env now r d' = (Inr (v, h), d'')"
    using assms(4) n by (simp add: publishLatest_def act_simps)
  then obtain au where "v = cv_version r" "h = cv_checksum r"
      and d'': "d'' = d'\<lparr>versions := mark_published now (cv_version r) (versions d'), audits := au\<rparr>"
    by (elim publish_row_InrE)
  moreover have "compileDeclarativeSnapshot env d'' = compileDeclarativeSnapshot env d'"
    by (rule compile_cong) (simp_all add: d'')
  moreover have "r\<lparr>cv_status := Published, cv_published_at := Some now\<rparr> \<in> set (versions d'')"
    using c(4) by (force simp: d'' mark_published_def set_update_where)
  ultimately show ?thesis
    using c by (intro exI [of _ c] conjI bexI [of _ "r\<lparr>cv_status := Published, cv_published_at := Some now\<rparr>"]) simp_all
qed

end

subsection \<open>The handlers keep the contract\<close>

lemma quiet_update: "versions (f d) = versions d \<Longrightarrow> gateways (f d) = gateways d \<Longrightarrow> acks (f d) = acks d \<Longrightarrow> next_id (f d) = next_id d
  \<Longrightarrow> audits (f d) = audits d \<Longrightarrow> unversioned d (f d) \<and> audits (f d) = audits d"
  by (simp add: unversioned_def)

lemma quiet_steps [quiet_intros]:
  "quiet (parse_body s body)" "quiet (path_uuid key)" "quiet (unique_act p index)" "quiet (known_act p fkey)"
  "quiet (range_act ints nums v)" "quiet (range_update b ints nums v)" "quiet (org_range v)" "quiet (save_setting k v)"
  unfolding parse_body_def path_uuid_def unique_act_def known_act_def range_act_def range_update_def org_range_def save_setting_def
  by (intro quiet_intros quiet_update; simp)+

lemma quiet_secrets [quiet_intros]: "quiet (credential_secret v)" "quiet (headers_secret v)" "quiet (delete_secret sid)"
  unfolding credential_secret_def headers_secret_def delete_secret_def
  by (intro quiet_intros quiet_update; simp)+

lemma quiet_mappings [quiet_intros]: "quiet (insert_mappings m ids)" "quiet (map_accounts m ids)" "quiet (patch_mappings i v)"
  unfolding insert_mappings_def map_accounts_def patch_mappings_def
  by (intro quiet_intros quiet_update; simp)+

lemma quiet_deletion [quiet_intros]: "quiet (deleteAccountResource i)"
  unfolding deleteAccountResource_def
  by (intro quiet_intros quiet_update; simp add: drop_account_def disable_unmapped_def disable_unoffered_def)

lemma quiet_provider_deletion [quiet_intros]: "quiet (deleteProviderResource p)"
  unfolding deleteProviderResource_def by (intro quiet_intros quiet_update; simp)

lemmas drafting_rules = drafting_draftAfter drafting_audited drafting_bind drafting_then quiet_intros drafting_cases drafting_throw drafting_option

lemma POST_drafts:
  "drafting (ad_sn env) (providers_POST env body)" "drafting (ad_sn env) (accounts_POST env body)" "drafting (ad_sn env) (models_POST env body)"
  "drafting (ad_sn env) (routing_POST env body)" "drafting (ad_sn env) (organizations_POST env body)" "drafting (ad_sn env) (teams_POST env body)"
  "drafting (ad_sn env) (mcp_servers_POST env body)" "drafting (ad_sn env) (webhook_POST env body)" "drafting (ad_sn env) (ipacl_POST env body)"
  "drafting (ad_sn env) (saveProxyPool env body)" "drafting (ad_sn env) (virtual_keys_POST env random body)"
  unfolding providers_POST_def accounts_POST_def models_POST_def routing_POST_def organizations_POST_def teams_POST_def mcp_servers_POST_def
    webhook_POST_def ipacl_POST_def saveProxyPool_def virtual_keys_POST_def Let_def
  by (rule drafting_rules | simp add: unversioned_def)+

lemma routes_draft: "drafting env (deleteModelRoute env i)" "drafting env (updateProviderModelStrategy env i strategy)"
  unfolding deleteModelRoute_def updateProviderModelStrategy_def
  by (rule drafting_rules | simp add: unversioned_def drop_model_def)+

lemma PATCH_drafts:
  "drafting (ad_sn env) (providers_PATCH env key body)" "drafting (ad_sn env) (accounts_PATCH env key body)"
  "drafting (ad_sn env) (update_model env key i v)" "drafting (ad_sn env) (organizations_PATCH env key body)"
  "drafting (ad_sn env) (teams_PATCH env key body)" "drafting (ad_sn env) (mcp_servers_PATCH env key body)"
  "drafting (ad_sn env) (virtual_keys_PATCH env key body)"
  unfolding providers_PATCH_def accounts_PATCH_def update_account_def update_model_def organizations_PATCH_def teams_PATCH_def mcp_servers_PATCH_def
    virtual_keys_PATCH_def
  by (rule drafting_rules | simp add: unversioned_def patch_pricing_def Let_def)+

lemma models_PATCH_drafts: "drafting (ad_sn env) (models_PATCH env key body)"
  unfolding models_PATCH_def
  by (intro drafting_bind drafting_cases drafting_read routes_draft PATCH_drafts quiet_intros)

lemma DELETE_drafts:
  "drafting (ad_sn env) (mcp_servers_DELETE env key)" "drafting (ad_sn env) (organizations_DELETE env key)"
  "drafting (ad_sn env) (accounts_DELETE env key)" "drafting (ad_sn env) (providers_DELETE env key)"
  "drafting (ad_sn env) (disable_resource env typ disable_key key)" "drafting (ad_sn env) (disable_resource env typ disable_team key)"
  unfolding mcp_servers_DELETE_def organizations_DELETE_def accounts_DELETE_def providers_DELETE_def disable_resource_def
  by (rule drafting_rules | simp add: unversioned_def disable_key_def disable_team_def)+

lemma models_DELETE_drafts: "drafting (ad_sn env) (models_DELETE env key)"
  unfolding models_DELETE_def by (intro drafting_bind drafting_return routes_draft quiet_intros)

end
