(* ===== verification/Snapshot_Transfer.thy ===== *)
theory Snapshot_Transfer
  imports Admin
begin

text \<open>
  The import of a configuration export (\<open>importSnapshot\<close> of \<open>lib/snapshot-transfer.ts\<close>): inside one transaction the
  declarative tables are emptied, with everything that cascades from them, and filled from the document.  The text the
  driver sends for a parameter that is neither a string nor null and the text of a number are parameters; an amount that
  is not a number is refused, and the syntax of a time is not checked.
\<close>

record transfer_env =
  tr_sn :: sn_env
  tr_text :: "jv \<Rightarrow> string"
  tr_number :: "jsnum \<Rightarrow> string"

section \<open>Values of the document\<close>

text \<open>\<open>String(x)\<close>.\<close>

fun js_String :: "(jsnum \<Rightarrow> string) \<Rightarrow> jv \<Rightarrow> string" where
  "js_String numtext (JStr s) = s"
| "js_String numtext JUndef = ''undefined''"
| "js_String numtext JNull = ''null''"
| "js_String numtext (JBool b) = (if b then ''true'' else ''false'')"
| "js_String numtext (JNum n) = numtext n"
| "js_String numtext (JObj ps) = ''[object Object]''"
| "js_String numtext (JArr vs) = js_join '','' (map (\<lambda>v. if nullish v then [] else js_String numtext v) vs)"

definition doc_rows :: "jv \<Rightarrow> string \<Rightarrow> jv list" where
  "doc_rows data k = arr_of (get_prop data k)"

definition text_param :: "transfer_env \<Rightarrow> jv \<Rightarrow> string" where
  "text_param env v = (case v of JStr s \<Rightarrow> s | _ \<Rightarrow> tr_text env v)"

definition opt_param :: "transfer_env \<Rightarrow> jv \<Rightarrow> string option" where
  "opt_param env v = (if nullish v then None else Some (text_param env v))"

definition int_param :: "jv \<Rightarrow> int res" where
  "int_param v = (case to_number v of
     Fin x \<Rightarrow> if is_integer (Fin x) \<and> int4_ok x then Inr \<lfloor>x\<rfloor> else Inl (DbError ''invalid_text_representation'')
   | _ \<Rightarrow> Inl (DbError ''invalid_text_representation''))"

definition money_param :: "jv \<Rightarrow> rat res" where
  "money_param v = (case to_number v of
     Fin x \<Rightarrow> if \<bar>numeric6 x\<bar> < 1000000 then Inr (numeric6 x) else Inl (DbError ''numeric_value_out_of_range'')
   | _ \<Rightarrow> Inl (DbError ''numeric_value_out_of_range''))"

text \<open>\<open>x !== false\<close>.\<close>

definition unless_false :: "jv \<Rightarrow> bool" where
  "unless_false v \<longleftrightarrow> v \<noteq> JBool False"

definition texts_param :: "transfer_env \<Rightarrow> jv \<Rightarrow> string list" where
  "texts_param env v = map (text_param env) (arr_of v)"

section \<open>Emptying the tables\<close>

text \<open>Deleting the teams takes the ledger and the memberships with them, deleting the keys the daily spend; events lose
  their key and tool servers their headers.\<close>

definition wipe :: "db \<Rightarrow> db" where
  "wipe d = d\<lparr>operations := [], pstates := [], discovered := [], mappings := [], pricing := [], aliases := [], accounts := [],
     secrets := [], mcps := map (\<lambda>m. m\<lparr>mc_headers := None\<rparr>) (mcps d),
     vkeys := [], spend := [], events := map (\<lambda>e. e\<lparr>e_key := None\<rparr>) (events d),
     teams := [], credits := [], members := [], providers := []\<rparr>"

section \<open>Filling them\<close>

definition malformed :: "string \<Rightarrow> error" where
  "malformed what = JsError (''invalid_snapshot: '' @ what)"

definition import_provider :: "transfer_env \<Rightarrow> jv \<Rightarrow> (db, string \<times> uuid) act" where
  "import_provider env v =
     then_act (guard_act (is_record v \<and> is_str (get_prop v ''slug'') \<and> is_str (get_prop v ''name'') \<and> is_str (get_prop v ''base_url''))
        (malformed ''malformed provider''))
    (then_act (unique_act (\<lambda>d. list_ex (\<lambda>p. p_slug p = text_of (get_prop v ''slug'')) (providers d)) ''providers_slug_key'')
    (bind_act fresh_id (\<lambda>i.
     then_act (modify_act (\<lambda>d. d\<lparr>providers := providers d @
        [\<lparr>p_id = i, p_slug = text_of (get_prop v ''slug''), p_name = text_of (get_prop v ''name''),
          p_adapter = text_param env (coalesce (get_prop v ''adapter'') (JStr ''openai-compatible'')), p_base_url = text_of (get_prop v ''base_url''),
          p_enabled = unless_false (get_prop v ''enabled''), p_metadata = coalesce (get_prop v ''metadata'') (JObj [])\<rparr>]\<rparr>))
    (return_act (text_of (get_prop v ''slug''), i)))))"

definition import_team :: "transfer_env \<Rightarrow> jv \<Rightarrow> (db, string \<times> uuid) act" where
  "import_team env v =
     then_act (guard_act (is_record v \<and> is_str (get_prop v ''name'')) (malformed ''malformed team''))
    (bind_act (lift_res (money_param (coalesce (get_prop v ''budget_usd'') (JNum (Fin 0))))) (\<lambda>budget.
     then_act (unique_act (\<lambda>d. list_ex (\<lambda>t. toLowerCase (t_name t) = toLowerCase (text_of (get_prop v ''name''))) (teams d)) ''teams_name_folded_uq'')
    (bind_act fresh_id (\<lambda>i.
     then_act (modify_act (\<lambda>d. d\<lparr>teams := teams d @ [\<lparr>t_id = i, t_name = text_of (get_prop v ''name''),
         t_enabled = unless_false (get_prop v ''enabled''), t_budget = budget, t_balance = 0, t_org = None\<rparr>]\<rparr>))
    (return_act (js_String (tr_number env) (get_prop v ''id''), i))))))"

definition import_secret :: "jv \<Rightarrow> (db, uuid option) act" where
  "import_secret v =
     (if is_record (get_prop v ''credential'')
      then bind_act (insertSecret ''account_credential'' (get_prop v ''credential'')) (\<lambda>s. return_act (Some s))
      else return_act None)"

definition insert_account :: "transfer_env \<Rightarrow> jv \<Rightarrow> uuid option \<Rightarrow> uuid \<Rightarrow> (db, string \<times> uuid) act" where
  "insert_account env v sid p =
     bind_act (lift_res (int_param (coalesce (get_prop v ''priority'') (JNum (Fin 1))))) (\<lambda>priority.
     bind_act (lift_res (int_param (coalesce (get_prop v ''weight'') (JNum (Fin 1))))) (\<lambda>weight.
     bind_act (lift_res (int_param (coalesce (get_prop v ''max_concurrency'') (JNum (Fin 100))))) (\<lambda>maxc.
     bind_act (lift_res (money_param (coalesce (get_prop v ''cost'') (JNum (Fin 0))))) (\<lambda>cost.
     then_act (guard_act (0 < weight \<and> 0 < maxc) (DbError ''accounts_check''))
    (then_act (unique_act (\<lambda>d. list_ex (\<lambda>a. a_name a = text_of (get_prop v ''name'')) (accounts d)) ''accounts_name_key'')
    (bind_act fresh_id (\<lambda>i.
     then_act (modify_act (\<lambda>d. d\<lparr>accounts := accounts d @
       [\<lparr>a_id = i, a_provider = p, a_secret = sid, a_name = text_of (get_prop v ''name''),
         a_display = text_param env (coalesce (get_prop v ''display_name'') (get_prop v ''name'')), a_base_url = text_of (get_prop v ''base_url''),
         a_enabled = unless_false (get_prop v ''enabled''), a_priority = priority, a_weight = weight, a_max_concurrency = maxc, a_cost = cost,
         a_metadata = coalesce (get_prop v ''metadata'') (JObj []), a_revision = 1, a_external = opt_param env (get_prop v ''external_account_id''),
         a_email = opt_param env (get_prop v ''account_email''), a_plan = opt_param env (get_prop v ''plan_type''),
         a_expires = opt_param env (get_prop v ''token_expires_at''), a_persistence = ''persisted''\<rparr>]\<rparr>))
    (return_act (js_String (tr_number env) (get_prop v ''id''), i)))))))))"

definition import_account :: "transfer_env \<Rightarrow> (string \<times> uuid) list \<Rightarrow> jv \<Rightarrow> (db, string \<times> uuid) act" where
  "import_account env slugs v =
     then_act (guard_act (is_record v \<and> is_str (get_prop v ''name'') \<and> is_str (get_prop v ''base_url'')) (malformed ''malformed account''))
    (bind_act (import_secret v) (\<lambda>sid.
     case (case get_prop v ''provider_slug'' of JStr s \<Rightarrow> map_of slugs s | _ \<Rightarrow> None) of
       None \<Rightarrow> throw (malformed (''account '' @ text_of (get_prop v ''name'') @ '' has no resolvable provider''))
     | Some p \<Rightarrow> insert_account env v sid p))"

text \<open>A model of a provider pool is skipped; the others keep no provider.\<close>

definition import_model :: "transfer_env \<Rightarrow> jv \<Rightarrow> (db, (string \<times> uuid) list) act" where
  "import_model env v =
     then_act (guard_act (is_record v \<and> is_str (get_prop v ''alias'') \<and> is_str (get_prop v ''upstream_model'')) (malformed ''malformed model''))
    (if truthy (get_prop v ''provider_slug'') then return_act []
     else then_act (guard_act (opt_param env (get_prop v ''routing_strategy'') \<in> Some ` set db_strategies) (DbError ''model_aliases_routing_strategy_check''))
         (then_act (unique_act (\<lambda>d. list_ex (\<lambda>m. toLowerCase (m_alias m) = toLowerCase (text_of (get_prop v ''alias''))) (aliases d)) ''model_aliases_alias_folded_uq'')
         (bind_act (lift_res (money_param (coalesce (get_prop v ''input_per_mtok'') (JNum (Fin 0))))) (\<lambda>inp.
          bind_act (lift_res (money_param (coalesce (get_prop v ''output_per_mtok'') (JNum (Fin 0))))) (\<lambda>out.
          bind_act fresh_id (\<lambda>i.
          then_act (modify_act (\<lambda>d. d\<lparr>aliases := aliases d @ [\<lparr>m_id = i, m_alias = text_of (get_prop v ''alias''),
               m_upstream = text_of (get_prop v ''upstream_model''), m_provider = None,
               m_strategy = text_param env (get_prop v ''routing_strategy''), m_enabled = unless_false (get_prop v ''enabled''),
               m_fallbacks = texts_param env (get_prop v ''fallbacks''), m_cache = Some [], m_cache_ttl = Some [], m_threshold = None\<rparr>],
             pricing := pricing d @ [\<lparr>pc_model = i, pc_input = inp, pc_output = out\<rparr>]\<rparr>))
         (return_act [(js_String (tr_number env) (get_prop v ''id''), i)])))))))"

text \<open>\<open>new Map\<close> filled in order: a later entry of a key wins.\<close>

definition latest :: "(string \<times> uuid) list \<Rightarrow> string \<Rightarrow> uuid option" where
  "latest ps k = map_of (rev ps) k"

definition insert_mapping :: "jv \<Rightarrow> uuid \<Rightarrow> uuid \<Rightarrow> (db, nat) act" where
  "insert_mapping v m a =
     bind_act (lift_res (int_param (coalesce (get_prop v ''tier'') (JNum (Fin 1))))) (\<lambda>tier.
     bind_act (lift_res (int_param (coalesce (get_prop v ''position'') (JNum (Fin 0))))) (\<lambda>position.
     then_act (unique_act (\<lambda>d. list_ex (\<lambda>r. mm_model r = m \<and> mm_account r = a) (mappings d)) ''model_account_mappings_pkey'')
    (then_act (modify_act (\<lambda>d. d\<lparr>mappings := mappings d @ [(mapping_of m (0, a))\<lparr>mm_enabled := unless_false (get_prop v ''enabled''),
        mm_tier := tier, mm_position := position\<rparr>]\<rparr>))
    (return_act 1))))"

definition import_mapping :: "transfer_env \<Rightarrow> (string \<times> uuid) list \<Rightarrow> (string \<times> uuid) list \<Rightarrow> jv \<Rightarrow> (db, nat) act" where
  "import_mapping env modelById accountById v =
     (if is_record v
      then (case (latest modelById (js_String (tr_number env) (get_prop v ''model_alias_id'')),
                  latest accountById (js_String (tr_number env) (get_prop v ''account_id''))) of
              (Some m, Some a) \<Rightarrow> insert_mapping v m a
            | _ \<Rightarrow> return_act 0)
      else return_act 0)"

definition import_key :: "transfer_env \<Rightarrow> (string \<times> uuid) list \<Rightarrow> jv \<Rightarrow> (db, unit) act" where
  "import_key env teamById v =
     then_act (guard_act (is_record v \<and> is_str (get_prop v ''name'') \<and> is_str (get_prop v ''key_hash'')) (malformed ''malformed virtual key''))
    (bind_act (lift_res (int_param (coalesce (get_prop v ''rpm'') (JNum (Fin 60))))) (\<lambda>rpm.
     bind_act (lift_res (int_param (coalesce (get_prop v ''tpm'') (JNum (Fin 0))))) (\<lambda>tpm.
     bind_act (lift_res (int_param (coalesce (get_prop v ''max_concurrency'') (JNum (Fin 0))))) (\<lambda>maxc.
     bind_act (lift_res (money_param (coalesce (get_prop v ''budget_usd'') (JNum (Fin 0))))) (\<lambda>budget.
     then_act (unique_act (\<lambda>d. list_ex (\<lambda>k. k_name k = text_of (get_prop v ''name'')) (vkeys d)) ''virtual_keys_name_key'')
    (bind_act fresh_id (\<lambda>i.
     modify_act (\<lambda>d. d\<lparr>vkeys := vkeys d @ [\<lparr>k_id = i, k_name = text_of (get_prop v ''name''), k_hash = text_of (get_prop v ''key_hash''),
         k_prefix = take 10 (text_of (get_prop v ''key_hash'')), k_enabled = unless_false (get_prop v ''enabled''),
         k_models = texts_param env (get_prop v ''models''), k_rpm = rpm, k_tpm = tpm, k_max_concurrency = maxc, k_budget = budget, k_duration = ''day'',
         k_team = (if truthy (get_prop v ''team_id'') then latest teamById (js_String (tr_number env) (get_prop v ''team_id'')) else None)\<rparr>]\<rparr>))))))))"

definition import_routing :: "transfer_env \<Rightarrow> jv \<Rightarrow> (db, unit) act" where
  "import_routing env v =
     (if is_record v
      then bind_act (lift_res (int_param (coalesce (get_prop v ''max_attempts'') (JNum (Fin 2))))) (\<lambda>attempts.
           then_act (guard_act (0 < attempts) (DbError ''routing_settings_max_attempts_check''))
          (modify_act (\<lambda>d. d\<lparr>routing := Some (JObj [(''strategy'', JStr (text_param env (coalesce (get_prop v ''strategy'') (JStr ''balanced'')))),
             (''sticky_ttl'', JStr (text_param env (coalesce (get_prop v ''sticky_ttl'') (JStr ''1h'')))), (''max_attempts'', int_json attempts),
             (''resilience'', coalesce (get_prop v ''resilience'') (JObj []))])\<rparr>)))
      else return_act ())"

definition import_setting :: "jv \<Rightarrow> (db, unit) act" where
  "import_setting v =
     (case get_prop v ''key'' of
        JStr k \<Rightarrow> then_act (guard_act (get_prop v ''value'' \<noteq> JUndef) (DbError ''system_settings_value_not_null''))
                  (save_setting k (get_prop v ''value''))
      | _ \<Rightarrow> return_act ())"

text \<open>\<open>for (const x of xs)\<close> collecting a value per element.\<close>

fun collect_act :: "('x \<Rightarrow> (db, 'y) act) \<Rightarrow> 'x list \<Rightarrow> (db, 'y list) act" where
  "collect_act body [] = return_act []"
| "collect_act body (x # xs) = bind_act (body x) (\<lambda>y. bind_act (collect_act body xs) (\<lambda>ys. return_act (y # ys)))"

definition import_models_keys :: "transfer_env \<Rightarrow> jv \<Rightarrow> (string \<times> uuid) list \<Rightarrow> (string \<times> uuid) list \<Rightarrow> (db, unit) act" where
  "import_models_keys env data teamById accountById =
     bind_act (collect_act (import_model env) (doc_rows data ''models'')) (\<lambda>modelById.
     bind_act (collect_act (import_mapping env (concat modelById) accountById) (doc_rows data ''mappings'')) (\<lambda>counts.
     then_act (guard_act (sum_list counts \<noteq> 0) (malformed ''no model-account mappings''))
    (then_act (for_act (doc_rows data ''virtual_keys'') (import_key env teamById))
    (then_act (import_routing env (get_prop data ''routing''))
    (for_act (doc_rows data ''system_settings'') import_setting)))))"

definition import_tables :: "transfer_env \<Rightarrow> jv \<Rightarrow> (db, unit) act" where
  "import_tables env data =
     bind_act (collect_act (import_provider env) (doc_rows data ''providers'')) (\<lambda>slugs.
     bind_act (collect_act (import_team env) (doc_rows data ''teams'')) (\<lambda>teamById.
     bind_act (collect_act (import_account env (rev slugs)) (doc_rows data ''accounts'')) (\<lambda>accountById.
     import_models_keys env data teamById accountById)))"

definition importSnapshot :: "transfer_env \<Rightarrow> jv \<Rightarrow> (db, nat \<times> nat \<times> nat) act" where
  "importSnapshot env data =
     (let n = (\<lambda>k. length (doc_rows data k)) in
     then_act (guard_act (is_record data \<and> get_prop data ''version'' = JNum (Fin 2)) (malformed ''expected version 2 export''))
    (then_act (guard_act (doc_rows data ''accounts'' \<noteq> []) (malformed ''no accounts''))
    (then_act (guard_act (doc_rows data ''virtual_keys'' \<noteq> []) (malformed ''at least one virtual key required''))
    (then_act (modify_act wipe)
    (then_act (import_tables env data)
    (then_act (storeDraft (tr_sn env))
    (then_act (audit ''snapshot_import'' ''database'' None
        (JObj [(''accounts'', int_json (int (n ''accounts''))), (''models'', int_json (int (n ''models''))), (''keys'', int_json (int (n ''virtual_keys'')))]))
    (return_act (n ''accounts'', n ''models'', n ''virtual_keys'')))))))))"

section \<open>What an import leaves\<close>

lemma collect_preserves [preserves_intros]: "(\<And>x. preserves I (body x)) \<Longrightarrow> preserves I (collect_act body xs)"
  by (induction xs) (auto intro!: preserves_intros)

lemma quiet_collect [quiet_intros]: "(\<And>x. quiet (body x)) \<Longrightarrow> quiet (collect_act body xs)"
  by (induction xs) (auto intro!: quiet_intros)

lemmas import_defs = import_provider_def import_team_def import_secret_def import_account_def import_model_def import_mapping_def import_key_def
  import_routing_def import_setting_def

lemma quiet_imports [quiet_intros]:
  "quiet (import_provider env v)" "quiet (import_team env v)" "quiet (import_secret v)"
  "quiet (import_model env v)" "quiet (import_key env ts v)" "quiet (import_routing env v)"
  unfolding import_defs by (rule quiet_intros | simp add: unversioned_def)+

lemma quiet_import_account [quiet_intros]: "quiet (import_account env slugs v)"
  unfolding import_account_def insert_account_def by (rule quiet_intros | simp add: unversioned_def)+

lemma quiet_insert_mapping [quiet_intros]: "quiet (insert_mapping v m a)"
  unfolding insert_mapping_def by (rule quiet_intros | simp add: unversioned_def)+

lemma quiet_import_mapping [quiet_intros]: "quiet (import_mapping env ms as v)"
  unfolding import_mapping_def by (simp add: quiet_insert_mapping quiet_pure split: option.split)

lemma quiet_import_setting [quiet_intros]: "quiet (import_setting v)"
  unfolding import_setting_def by (simp split: jv.split) (intro conjI allI impI quiet_intros)

lemma quiet_import_tables [quiet_intros]: "quiet (import_tables env data)"
  unfolding import_tables_def import_models_keys_def by (intro quiet_intros)

text \<open>Recording after the draft is the same as before it, since the compiler does not read the audit log.\<close>

lemma drafting_audited_after:
  "drafting env (then_act (storeDraft env) (then_act (audit action typ resource payload) (return_act x)))"
  unfolding drafting_def
proof (intro allI impI)
  fix d :: db and y d'
  let ?row = "\<lparr>au_actor = ''local-admin'', au_action = action, au_type = typ, au_resource = resource, au_payload = payload\<rparr>"
  let ?d1 = "d\<lparr>audits := audits d @ [?row]\<rparr>"
  assume "then_act (storeDraft env) (then_act (audit action typ resource payload) (return_act x)) d = (Inr y, d')"
  then obtain c where "compileDeclarativeSnapshot env d = Inr c" "d' = with_draft c ?d1"
    by (auto simp: bind_audit then_storeDraft return_act_apply with_draft_def split: sum.splits)
  moreover have "compileDeclarativeSnapshot env ?d1 = compileDeclarativeSnapshot env d" by (rule compile_cong) simp_all
  ultimately show "\<exists>d1 c a. unversioned d d1 \<and> audits d1 = audits d @ [a] \<and> au_actor a = ''local-admin''
      \<and> compileDeclarativeSnapshot env d1 = Inr c \<and> d' = with_draft c d1"
    by (intro exI [of _ ?d1] exI [of _ c] exI [of _ ?row]) (simp add: unversioned_def)
qed

lemma import_drafts: "drafting (tr_sn env) (importSnapshot env data)"
  unfolding importSnapshot_def Let_def
  by (rule drafting_audited_after drafting_then quiet_intros | simp add: wipe_def unversioned_def)+

interpretation import: configuration_change "tr_sn env" "importSnapshot env data" for env data
  by unfold_locales (rule import_drafts)

subsection \<open>Money and memberships\<close>

text \<open>The state no table of the document fills again.\<close>

definition forgotten :: "db \<Rightarrow> bool" where
  "forgotten d \<longleftrightarrow> credits d = [] \<and> members d = [] \<and> spend d = [] \<and> (\<forall>t\<in>set (teams d). t_balance t = 0)
     \<and> (\<forall>m\<in>set (mcps d). mc_headers m = None) \<and> (\<forall>m\<in>set (aliases d). m_provider m = None)"

lemma forgotten_steps [preserves_intros]:
  "preserves forgotten fresh_id" "preserves forgotten (insertSecret purpose v)" "preserves forgotten (unique_act p index)"
  "preserves forgotten (save_setting k v)" "preserves forgotten (storeDraft env)" "preserves forgotten (audit ac ty rs pl)"
  by (auto simp: preserves_def forgotten_def unique_act_def save_setting_def act_simps storeDraft_apply Let_def guard_act_def split: sum.split)

lemma forgotten_imports [preserves_intros]:
  "preserves forgotten (import_provider env v)" "preserves forgotten (import_team env v)" "preserves forgotten (import_secret v)"
  "preserves forgotten (import_model env v)" "preserves forgotten (import_key env ts v)" "preserves forgotten (import_routing env v)"
  "preserves forgotten (insert_mapping v m a)"
  unfolding import_defs insert_mapping_def by (rule preserves_intros | simp add: forgotten_def)+

lemma forgotten_import_account [preserves_intros]: "preserves forgotten (import_account env slugs v)"
  unfolding import_account_def insert_account_def by (rule preserves_intros | simp add: forgotten_def)+

lemma forgotten_rest [preserves_intros]: "preserves forgotten (import_mapping env ms as v)" "preserves forgotten (import_setting v)"
  unfolding import_mapping_def import_setting_def
  by (auto intro!: preserves_intros split: option.split jv.split)

lemma forgotten_import_tables: "preserves forgotten (import_tables env data)"
  unfolding import_tables_def import_models_keys_def by (intro preserves_intros)

text \<open>Importing a document erases what it does not carry, whatever it contains: the credit ledger, the memberships, the daily spend
  and the headers of the tool servers are gone, every team starts with a zero balance and no model routes over a provider pool.\<close>

theorem importSnapshot_forgets:
  assumes "txOn (importSnapshot env data) d = (Inr n, d')"
  shows "credits d' = [] \<and> members d' = [] \<and> spend d' = [] \<and> (\<forall>t\<in>set (teams d'). t_balance t = 0)
     \<and> (\<forall>m\<in>set (mcps d'). mc_headers m = None) \<and> (\<forall>m\<in>set (aliases d'). m_provider m = None)"
proof -
  have w: "forgotten (wipe d)" by (auto simp: forgotten_def wipe_def)
  have "preserves forgotten (then_act (import_tables env data) (then_act (storeDraft (tr_sn env)) (then_act (audit ac ty rs pl) (return_act x))))" for ac ty rs pl x
    by (intro preserves_intros forgotten_import_tables)
  from preservesD [OF this w]
  have "forgotten d'"
    using assms unfolding txOn_Inr_iff importSnapshot_def Let_def then_guard then_modify by (auto split: if_splits)
  then show ?thesis unfolding forgotten_def .
qed

subsection \<open>Accounts and credentials\<close>

text \<open>The row an account of the document becomes: its name and, sealed again, its credential.\<close>

definition account_of_doc :: "secret_row set \<Rightarrow> jv \<Rightarrow> account_row \<Rightarrow> bool" where
  "account_of_doc S v a \<longleftrightarrow> JStr (a_name a) = get_prop v ''name'' \<and> JStr (a_base_url a) = get_prop v ''base_url'' \<and> a_enabled a = unless_false (get_prop v ''enabled'')
     \<and> (if is_record (get_prop v ''credential'')
        then \<exists>i. a_secret a = Some i \<and> \<lparr>s_id = i, s_purpose = ''account_credential'', s_sealed = get_prop v ''credential''\<rparr> \<in> S
        else a_secret a = None)"

lemma account_of_doc_mono: "account_of_doc S v a \<Longrightarrow> S \<subseteq> T \<Longrightarrow> account_of_doc T v a"
  by (auto simp: account_of_doc_def split: if_splits)

lemma import_secret_Inr:
  assumes "import_secret v d = (Inr sid, d')"
  shows "accounts d' = accounts d \<and> set (secrets d) \<subseteq> set (secrets d') \<and>
     (if is_record (get_prop v ''credential'')
      then \<exists>i. sid = Some i \<and> \<lparr>s_id = i, s_purpose = ''account_credential'', s_sealed = get_prop v ''credential''\<rparr> \<in> set (secrets d')
      else sid = None)"
  using assms by (auto simp: import_secret_def act_simps split: if_splits)

lemma is_str_text: "is_str v \<Longrightarrow> JStr (text_of v) = v"
  by (cases v) simp_all

lemma then_unique: "then_act (unique_act p index) n d = (if p d then (Inl (DbError index), d) else n d)"
  by (simp add: unique_act_def act_defs)

lemma insert_account_Inr:
  assumes "insert_account env v sid p d = (Inr x, d')"
  shows "\<exists>a. accounts d' = accounts d @ [a] \<and> secrets d' = secrets d \<and> a_secret a = sid
     \<and> a_name a = text_of (get_prop v ''name'') \<and> a_base_url a = text_of (get_prop v ''base_url'') \<and> a_enabled a = unless_false (get_prop v ''enabled'')"
  using assms unfolding insert_account_def
  by (elim bind_act_InrE) (auto simp: lift_res_apply then_guard then_unique bind_fresh_id then_modify return_act_apply split: if_splits)

lemma import_account_Inr:
  assumes "import_account env slugs v d = (Inr x, d')"
  shows "\<exists>a. accounts d' = accounts d @ [a] \<and> set (secrets d) \<subseteq> set (secrets d') \<and> account_of_doc (set (secrets d')) v a"
proof -
  have ok: "is_str (get_prop v ''name'')" "is_str (get_prop v ''base_url'')"
    using assms by (auto simp: import_account_def then_guard split: if_splits)
  obtain sid d1 where s: "import_secret v d = (Inr sid, d1)"
    using assms by (auto simp: import_account_def then_guard split: if_splits elim!: bind_act_InrE)
  from assms s obtain p where "insert_account env v sid p d1 = (Inr x, d')"
    by (auto simp: import_account_def then_guard bind_act_Inr throw_apply split: if_splits option.splits)
  then obtain a where "accounts d' = accounts d1 @ [a]" "secrets d' = secrets d1" "a_secret a = sid"
      "a_name a = text_of (get_prop v ''name'')" "a_base_url a = text_of (get_prop v ''base_url'')" "a_enabled a = unless_false (get_prop v ''enabled'')"
    using insert_account_Inr by blast
  then show ?thesis
    using import_secret_Inr [OF s] ok by (auto simp: account_of_doc_def is_str_text intro!: exI [of _ a])
qed

lemma collect_accounts:
  assumes "collect_act (import_account env slugs) vs d = (Inr ids, d')"
  shows "\<exists>as. accounts d' = accounts d @ as \<and> set (secrets d) \<subseteq> set (secrets d') \<and> list_all2 (account_of_doc (set (secrets d'))) vs as"
  using assms
proof (induction vs arbitrary: ids d)
  case Nil
  then show ?case by (simp add: return_act_apply)
next
  case (Cons v vs)
  then obtain x d1 ys where 1: "import_account env slugs v d = (Inr x, d1)" and 2: "collect_act (import_account env slugs) vs d1 = (Inr ys, d')"
    by (auto elim!: bind_act_InrE simp: return_act_apply)
  obtain a where a: "accounts d1 = accounts d @ [a]" "set (secrets d) \<subseteq> set (secrets d1)" "account_of_doc (set (secrets d1)) v a"
    using import_account_Inr [OF 1] by blast
  obtain as where "accounts d' = accounts d1 @ as" "set (secrets d1) \<subseteq> set (secrets d')" "list_all2 (account_of_doc (set (secrets d'))) vs as"
    using Cons.IH [OF 2] by blast
  then show ?case using a account_of_doc_mono by (intro exI [of _ "a # as"]) (auto 0 3)
qed

text \<open>The steps around the accounts leave accounts and secrets alone.\<close>

definition vault :: "account_row list \<Rightarrow> secret_row list \<Rightarrow> db \<Rightarrow> bool" where
  "vault as ss d \<longleftrightarrow> accounts d = as \<and> secrets d = ss"

lemma vault_steps [preserves_intros]:
  "preserves (vault as ss) fresh_id" "preserves (vault as ss) (unique_act p index)"
  "preserves (vault as ss) (save_setting k v)" "preserves (vault as ss) (storeDraft env)" "preserves (vault as ss) (audit ac ty rs pl)"
  by (auto simp: preserves_def vault_def unique_act_def save_setting_def act_simps storeDraft_apply Let_def guard_act_def split: sum.split)

lemma vault_imports [preserves_intros]:
  "preserves (vault as ss) (import_provider env v)" "preserves (vault as ss) (import_team env v)"
  "preserves (vault as ss) (import_model env v)" "preserves (vault as ss) (import_key env ts v)" "preserves (vault as ss) (import_routing env v)"
  "preserves (vault as ss) (insert_mapping v m a)"
  unfolding import_defs insert_mapping_def by (rule preserves_intros | simp add: vault_def)+

lemma vault_rest [preserves_intros]: "preserves (vault as ss) (import_mapping env ms bs v)" "preserves (vault as ss) (import_setting v)"
  unfolding import_mapping_def import_setting_def
  by (auto intro!: preserves_intros split: option.split jv.split)

lemma import_tables_vault:
  assumes "import_tables env data d = (Inr x, d')" and "vault [] [] d"
  shows "list_all2 (account_of_doc (set (secrets d'))) (doc_rows data ''accounts'') (accounts d')"
proof -
  obtain slugs ts ids d1 d2 d3 where 1: "collect_act (import_provider env) (doc_rows data ''providers'') d = (Inr slugs, d1)"
    and 2: "collect_act (import_team env) (doc_rows data ''teams'') d1 = (Inr ts, d2)"
    and 3: "collect_act (import_account env (rev slugs)) (doc_rows data ''accounts'') d2 = (Inr ids, d3)"
    and 4: "import_models_keys env data ts ids d3 = (Inr x, d')"
    using assms(1) unfolding import_tables_def by (elim bind_act_InrE) (rule that)
  have p: "preserves (vault [] []) (collect_act (import_provider env) (doc_rows data ''providers''))"
    and q: "preserves (vault [] []) (collect_act (import_team env) (doc_rows data ''teams''))"
    by (intro preserves_intros)+
  from p assms(2) 1 have "vault [] [] d1" by (rule preservesD)
  with q have "vault [] [] d2" using 2 by (rule preservesD)
  moreover have "vault (accounts d3) (secrets d3) d'"
  proof -
    have "preserves (vault (accounts d3) (secrets d3)) (import_models_keys env data ts ids)"
      unfolding import_models_keys_def by (intro preserves_intros)
    moreover have "vault (accounts d3) (secrets d3) d3" by (simp add: vault_def)
    ultimately show ?thesis using 4 by (rule preservesD)
  qed
  ultimately show ?thesis using collect_accounts [OF 3] by (auto simp: vault_def)
qed

text \<open>A successful import leaves exactly the accounts of the document, in order, each with its name, address and state
  and with the credential of the document in a secret record of its own; and the draft compiled from that state is
  the newest one.\<close>

theorem importSnapshot_accounts:
  assumes "txOn (importSnapshot env data) d = (Inr n, d')" and "control_ok d" and "0 < next_id d"
  shows "list_all2 (account_of_doc (set (secrets d'))) (doc_rows data ''accounts'') (accounts d')
     \<and> (\<exists>r c. newest_draft d' = Some r \<and> compileDeclarativeSnapshot (tr_sn env) d' = Inr c \<and> cv_snapshot r = cs_snapshot c)"
proof
  obtain d1 x where t: "import_tables env data (wipe d) = (Inr x, d1)" and v: "vault (accounts d1) (secrets d1) d'"
  proof -
    obtain ac ty pl y where run: "then_act (import_tables env data) (then_act (storeDraft (tr_sn env)) (then_act (audit ac ty None pl) (return_act y))) (wipe d) = (Inr n, d')"
      using assms(1) unfolding txOn_Inr_iff importSnapshot_def Let_def then_guard then_modify by (auto split: if_splits)
    then obtain x d1 where 1: "import_tables env data (wipe d) = (Inr x, d1)"
      and 2: "then_act (storeDraft (tr_sn env)) (then_act (audit ac ty None pl) (return_act y)) d1 = (Inr n, d')"
      by (rule then_act_InrE)
    have "vault (accounts d1) (secrets d1) d'"
    proof -
      have "preserves (vault (accounts d1) (secrets d1)) (then_act (storeDraft (tr_sn env)) (then_act (audit ac ty None pl) (return_act y)))"
        by (intro preserves_intros)
      moreover have "vault (accounts d1) (secrets d1) d1" by (simp add: vault_def)
      ultimately show ?thesis using 2 by (rule preservesD)
    qed
    with 1 show thesis by (rule that)
  qed
  show "list_all2 (account_of_doc (set (secrets d'))) (doc_rows data ''accounts'') (accounts d')"
    using import_tables_vault [OF t] v by (simp add: vault_def wipe_def)
  show "\<exists>r c. newest_draft d' = Some r \<and> compileDeclarativeSnapshot (tr_sn env) d' = Inr c \<and> cv_snapshot r = cs_snapshot c"
    using import.newest [OF assms(2,3,1)] by metis
qed

section \<open>Witnesses\<close>

definition demo_transfer :: transfer_env where
  "demo_transfer = \<lparr>tr_sn = demo_sn, tr_text = (\<lambda>_. []), tr_number = (\<lambda>_. [])\<rparr>"

definition demo_export :: jv where
  "demo_export = JObj [(''version'', num 2),
     (''providers'', JArr [JObj [(''slug'', JStr ''s''), (''name'', JStr ''p''), (''base_url'', JStr ''u'')]]),
     (''accounts'', JArr [JObj [(''id'', JStr ''1''), (''name'', JStr ''a''), (''base_url'', JStr ''u''), (''provider_slug'', JStr ''s''), (''credential'', JObj [(''api_key'', JStr ''k'')])]]),
     (''models'', JArr [JObj [(''id'', JStr ''2''), (''alias'', JStr ''m''), (''upstream_model'', JStr ''x''), (''routing_strategy'', JStr ''manual''), (''enabled'', JBool False)]]),
     (''mappings'', JArr [JObj [(''model_alias_id'', JStr ''2''), (''account_id'', JStr ''1'')]]),
     (''teams'', JArr [JObj [(''id'', JStr ''3''), (''name'', JStr ''t'')]]),
     (''virtual_keys'', JArr [JObj [(''name'', JStr ''key''), (''key_hash'', JStr ''h''), (''team_id'', JStr ''3'')]])]"

definition demo_money_db :: db where
  "demo_money_db = empty_db\<lparr>teams := [\<lparr>t_id = 1, t_name = ''t'', t_enabled = True, t_budget = 0, t_balance = 5, t_org = None\<rparr>],
     credits := [\<lparr>ct_team = 1, ct_delta = 5, ct_kind = ''topup'', ct_source = ''paddle'', ct_external = ''x''\<rparr>], next_id := 2\<rparr>"

lemma demo_numbers:
  "int_param (num 1) = Inr 1" "int_param (num 100) = Inr 100" "int_param (num 0) = Inr 0" "int_param (num 60) = Inr 60" "money_param (num 0) = Inr 0"
proof -
  have "numeric6 0 = 0" by (simp add: numeric6_def floor_eq_iff)
  then show "money_param (num 0) = Inr 0" by (simp add: money_param_def)
qed (simp_all add: int_param_def is_integer_def int4_ok_def)

lemma demo_tables:
  "\<exists>t. import_tables demo_transfer demo_export (wipe demo_money_db) = (Inr (), t) \<and> routing t = None \<and> settings t = []
     \<and> filter m_enabled (aliases t) = [] \<and> enabled_keys t \<noteq> []"
  by (simp add: import_tables_def import_models_keys_def doc_rows_def demo_export_def arr_of_def import_defs insert_account_def insert_mapping_def
      act_defs fresh_id_def insertSecret_def unique_act_def coalesce_def demo_numbers wipe_def demo_money_db_def empty_db_def latest_def
      opt_param_def text_param_def db_strategies_def unless_false_def enabled_keys_def)

lemma import_succeeds:
  assumes t: "import_tables env data (wipe d) = (Inr (), t)"
    and same: "routing t = None" "settings t = []" "filter m_enabled (aliases t) = []" "enabled_keys t \<noteq> []"
    and shape: "is_record data" "get_prop data ''version'' = num 2" "doc_rows data ''accounts'' \<noteq> []" "doc_rows data ''virtual_keys'' \<noteq> []"
  shows "\<exists>d'. txOn (importSnapshot env data) d =
     (Inr (length (doc_rows data ''accounts''), length (doc_rows data ''models''), length (doc_rows data ''virtual_keys'')), d')"
proof -
  obtain c where c: "compileDeclarativeSnapshot (tr_sn env) t = Inr c"
    using compile_total [of t "[]" "()" "()" "tr_sn env"] same by (auto simp: compile_models_def validateFallbackChains_def)
  have "then_act (import_tables env data) k (wipe d) = k t" for k :: "(db, nat \<times> nat \<times> nat) act"
    using t by (simp add: then_act_def bind_act_def)
  then show ?thesis
    unfolding txOn_Inr_iff importSnapshot_def Let_def
    by (simp add: shape then_guard then_modify then_storeDraft c bind_audit return_act_apply)
qed

lemma demo_import_runs: "\<exists>d'. txOn (importSnapshot demo_transfer demo_export) demo_money_db = (Inr (1, 1, 1), d')"
proof -
  obtain t where t: "import_tables demo_transfer demo_export (wipe demo_money_db) = (Inr (), t)"
    and same: "routing t = None" "settings t = []" "filter m_enabled (aliases t) = []" "enabled_keys t \<noteq> []"
    using demo_tables by blast
  have shape: "is_record demo_export" "get_prop demo_export ''version'' = num 2" "length (doc_rows demo_export ''accounts'') = 1"
      "length (doc_rows demo_export ''models'') = 1" "length (doc_rows demo_export ''virtual_keys'') = 1"
    by (simp_all add: demo_export_def doc_rows_def arr_of_def)
  then have "doc_rows demo_export ''accounts'' \<noteq> []" "doc_rows demo_export ''virtual_keys'' \<noteq> []" by auto
  from import_succeeds [OF t same shape(1,2) this] shape(3-5) show ?thesis by simp
qed

theorem importSnapshot_forgets_witness:
  "credits demo_money_db \<noteq> [] \<and> (\<exists>d'. txOn (importSnapshot demo_transfer demo_export) demo_money_db = (Inr (1, 1, 1), d') \<and> credits d' = [])"
proof -
  obtain d' where run: "txOn (importSnapshot demo_transfer demo_export) demo_money_db = (Inr (1, 1, 1), d')" using demo_import_runs by blast
  moreover have "credits demo_money_db \<noteq> []" by (simp add: demo_money_db_def)
  ultimately show ?thesis using importSnapshot_forgets [OF run] by blast
qed

theorem importSnapshot_accounts_witness:
  "\<exists>d'. txOn (importSnapshot demo_transfer demo_export) demo_money_db = (Inr (1, 1, 1), d') \<and> map a_name (accounts d') = [''a'']"
proof -
  obtain d' where run: "txOn (importSnapshot demo_transfer demo_export) demo_money_db = (Inr (1, 1, 1), d')" using demo_import_runs by blast
  have "control_ok demo_money_db" "0 < next_id demo_money_db" by (simp_all add: demo_money_db_def empty_db_def control_ok_def)
  note importSnapshot_accounts [OF run this]
  then have "list_all2 (account_of_doc (set (secrets d'))) (doc_rows demo_export ''accounts'') (accounts d')" by blast
  moreover obtain v where v: "doc_rows demo_export ''accounts'' = [v]" "get_prop v ''name'' = JStr ''a''"
    by (simp add: demo_export_def doc_rows_def arr_of_def)
  ultimately obtain a where "accounts d' = [a]" "account_of_doc (set (secrets d')) v a" by (auto simp: list_all2_Cons1)
  then have "map a_name (accounts d') = [''a'']" using v(2) by (simp add: account_of_doc_def)
  with run show ?thesis by (intro exI [of _ d'] conjI)
qed

end
