(* ===== verification/Control_Api.thy ===== *)
theory Control_Api
  imports Snapshot_Transfer Billing
begin

text \<open>
  The control route as a whole: the gate in front of it, the dispatch of \<open>POST\<close>, \<open>PATCH\<close> and \<open>DELETE\<close> over the
  resource named in the path, and what holds for every request that goes through it.  The message that tells gateways of
  a publication is sent after the transaction and is not part of the state.
\<close>

record control_request =
  cq_auth :: request_auth
  cq_forwarded :: "string option"
  cq_path :: "string list"
  cq_body :: jv
  cq_random :: string
  cq_now :: ms

record route_env =
  rt_admin :: admin_env
  rt_transfer :: transfer_env
  rt_master :: string

section \<open>The gate\<close>

text \<open>\<open>assertIpacl\<close>, then \<open>requireOperator\<close> unless the edition is the open-source one.\<close>

definition admin_gate :: "route_env \<Rightarrow> control_request \<Rightarrow> (db, unit) act" where
  "admin_gate env req =
     (let lic = ad_licence (rt_admin env)
      in bind_act (gets_act (\<lambda>d. assertIpacl (hasFeature lic ''ipacl'') (cq_forwarded req) (setting ''ipacl'' d))) (\<lambda>allowed.
         bind_act (lift_res allowed) (\<lambda>_.
         if rs_edition lic = Oss then return_act ()
         else then_act (requireOperator (ad_crypto (rt_admin env)) lic (rt_master env) (cq_auth req) (cq_now req)) (return_act ()))))"

section \<open>Dispatch\<close>

definition not_found :: "string \<Rightarrow> error" where
  "not_found r = ApiError 404 ''not_found'' (''Unknown resource '' @ r)"

definition resource :: "control_request \<Rightarrow> string" where
  "resource req = (case cq_path req of [] \<Rightarrow> ''overview'' | r # _ \<Rightarrow> r)"

definition sub_path :: "control_request \<Rightarrow> string" where
  "sub_path req = (case cq_path req of _ # s # _ \<Rightarrow> s | _ \<Rightarrow> [])"

text \<open>The resources whose creation or change is one recorded and drafted transaction.\<close>

definition POST_change :: "admin_env \<Rightarrow> string \<Rightarrow> string \<Rightarrow> jv \<Rightarrow> (db, admin_answer) act" where
  "POST_change env r random body =
     (if r = ''providers'' then providers_POST env body
      else if r = ''accounts'' then accounts_POST env body
      else if r = ''models'' then models_POST env body
      else if r = ''routing'' then routing_POST env body
      else if r = ''organizations'' then organizations_POST env body
      else if r = ''teams'' then teams_POST env body
      else if r = ''mcp-servers'' then mcp_servers_POST env body
      else if r = ''webhook'' then webhook_POST env body
      else if r = ''ipacl'' then ipacl_POST env body
      else if r = ''proxy-pool'' then saveProxyPool env body
      else if r = ''virtual-keys'' then virtual_keys_POST env random body
      else throw (not_found r))"

definition PATCH_change :: "admin_env \<Rightarrow> string \<Rightarrow> string \<Rightarrow> jv \<Rightarrow> (db, admin_answer) act" where
  "PATCH_change env r key body =
     (if r = ''providers'' then providers_PATCH env key body
      else if r = ''accounts'' then accounts_PATCH env key body
      else if r = ''models'' then models_PATCH env key body
      else if r = ''organizations'' then organizations_PATCH env key body
      else if r = ''teams'' then teams_PATCH env key body
      else if r = ''mcp-servers'' then mcp_servers_PATCH env key body
      else if r = ''virtual-keys'' then virtual_keys_PATCH env key body
      else throw (not_found r))"

text \<open>\<open>table[r]\<close> also finds the members every object inherits; the statement built from one is not SQL.\<close>

definition DELETE_change :: "admin_env \<Rightarrow> string \<Rightarrow> string \<Rightarrow> (db, admin_answer) act" where
  "DELETE_change env r key =
     (if r = ''mcp-servers'' then mcp_servers_DELETE env key
      else if r = ''organizations'' then organizations_DELETE env key
      else if r = ''accounts'' then accounts_DELETE env key
      else if r = ''providers'' then providers_DELETE env key
      else if r = ''models'' then models_DELETE env key
      else if r = ''virtual-keys'' then disable_resource env r disable_key key
      else if r = ''teams'' then disable_resource env r disable_team key
      else if r \<in> set inherited then throw (DbError ''syntax_error'')
      else throw (not_found r))"

definition billing_adjust :: "admin_env \<Rightarrow> jv \<Rightarrow> (db, admin_answer) act" where
  "billing_adjust env body =
     (case (z_uuid (ad_schema env) (get_prop body ''team_id''), z_number (\<lambda>_. True) (get_prop body ''delta_usd''),
            z_text 0 (Some 300) (coalesce (get_prop body ''note'') (JStr []))) of
        (Some (JStr t), Some (JNum (Fin x)), Some (JStr n)) \<Rightarrow>
           bind_act (billingAdjust (dec_val t) x n) (\<lambda>b. return_act (Value (JObj [(''team_id'', JStr t), (''balance_usd'', num b)])))
      | _ \<Rightarrow> throw ZodError)"

definition import_POST :: "transfer_env \<Rightarrow> jv \<Rightarrow> (db, admin_answer) act" where
  "import_POST env body =
     (let doc = (if ''snapshot'' \<in> fst ` set (record_of body) then get_prop body ''snapshot'' else body)
      in bind_act (txOn (importSnapshot env doc)) (\<lambda>(a, m, k).
         return_act (Value (JObj [(''accounts'', int_json (int a)), (''models'', int_json (int m)), (''keys'', int_json (int k))]))))"

definition version_json :: "nat \<times> string \<Rightarrow> jv" where
  "version_json v = JObj [(''version'', int_json (int (fst v))), (''checksum'', JStr (snd v))]"

definition publish_POST :: "admin_env \<Rightarrow> ms \<Rightarrow> (db, admin_answer) act" where
  "publish_POST env now = bind_act (txOn (publishLatest (ad_sn env) now)) (\<lambda>v. return_act (Value (version_json v)))"

text \<open>\<open>Number(body.version)\<close>: a text that is not an integer is refused by the column type, a negative version does not exist.\<close>

definition rollback_POST :: "admin_env \<Rightarrow> jv \<Rightarrow> (db, admin_answer) act" where
  "rollback_POST env body =
     (case to_number (get_prop body ''version'') of
        Fin x \<Rightarrow> if \<not> is_integer (Fin x) then throw (DbError ''invalid_text_representation'')
                 else if x < 0 then throw (ApiError 404 ''not_found'' ''Source version not found'')
                 else bind_act (rollback (ad_sn env) (nat \<lfloor>x\<rfloor>)) (\<lambda>v. return_act (Value (version_json v)))
      | _ \<Rightarrow> throw (DbError ''invalid_text_representation''))"

definition POST :: "route_env \<Rightarrow> control_request \<Rightarrow> (db, admin_answer) act" where
  "POST env req =
     then_act (admin_gate env req)
    (let r = resource req; body = cq_body req; adm = rt_admin env
     in if r = ''billing'' \<and> sub_path req = ''adjust'' then billing_adjust adm body
        else if r = ''oidc'' then bind_act (saveOidcSettings (ad_oidc adm) (ad_licence adm) body) (\<lambda>v. return_act (Value v))
        else if r = ''import'' then import_POST (rt_transfer env) body
        else if r = ''config-versions'' \<and> sub_path req = ''publish'' then publish_POST adm (cq_now req)
        else if r = ''config-versions'' \<and> sub_path req = ''rollback'' then rollback_POST adm body
        else txOn (POST_change adm r (cq_random req) body))"

definition missing_id :: error where
  "missing_id = ApiError 400 ''missing_id'' ''Resource id is required''"

definition PATCH :: "route_env \<Rightarrow> control_request \<Rightarrow> (db, admin_answer) act" where
  "PATCH env req =
     then_act (admin_gate env req)
    (then_act (guard_act (sub_path req \<noteq> []) missing_id)
    (txOn (PATCH_change (rt_admin env) (resource req) (sub_path req) (cq_body req))))"

definition DELETE :: "route_env \<Rightarrow> control_request \<Rightarrow> (db, admin_answer) act" where
  "DELETE env req =
     then_act (admin_gate env req)
    (then_act (guard_act (sub_path req \<noteq> []) missing_id)
    (txOn (DELETE_change (rt_admin env) (resource req) (sub_path req))))"

section \<open>Every change is recorded and drafted\<close>

lemma drafting_if: "drafting env m \<Longrightarrow> drafting env n \<Longrightarrow> drafting env (if b then m else n)"
  by simp

lemma changes_draft:
  "drafting (ad_sn env) (POST_change env r random body)" "drafting (ad_sn env) (PATCH_change env r key body)" "drafting (ad_sn env) (DELETE_change env r key)"
  unfolding POST_change_def PATCH_change_def DELETE_change_def
  by (intro drafting_if POST_drafts PATCH_drafts models_PATCH_drafts DELETE_drafts models_DELETE_drafts drafting_throw)+

interpretation post: configuration_change "ad_sn env" "POST_change env r random body" for env r random body
  by unfold_locales (rule changes_draft)

interpretation patch: configuration_change "ad_sn env" "PATCH_change env r key body" for env r key body
  by unfold_locales (rule changes_draft)

interpretation delete: configuration_change "ad_sn env" "DELETE_change env r key" for env r key
  by unfold_locales (rule changes_draft)

lemma change_contract:
  "m \<in> {POST_change env r random body, PATCH_change env r key body, DELETE_change env r key} \<Longrightarrow> configuration_change (ad_sn env) m"
  using post.configuration_change_axioms patch.configuration_change_axioms delete.configuration_change_axioms by blast

text \<open>C19: whatever resource a request creates, changes or removes: when it fails the database is as before; when it succeeds exactly
  one audit row is added, and if the configuration is published next, the version that becomes published is the
  configuration compiled from the state the request left, under its checksum.\<close>

theorem control_change_published:
  assumes "m \<in> {POST_change env r random body, PATCH_change env r key body, DELETE_change env r key}"
    and "control_ok d" and "0 < next_id d" and "txOn m d = (res, d')"
  shows "case res of
      Inl e \<Rightarrow> d' = d
    | Inr x \<Rightarrow> (\<exists>a. audits d' = audits d @ [a]) \<and>
        (\<forall>now v h d''. publishLatest (ad_sn env) now d' = (Inr (v, h), d'') \<longrightarrow>
          (\<exists>c. compileDeclarativeSnapshot (ad_sn env) d'' = Inr c \<and> h = cs_checksum c
             \<and> (\<exists>q\<in>set (versions d''). cv_version q = v \<and> cv_status q = Published \<and> cv_snapshot q = cs_snapshot c)))"
proof (cases res)
  case (Inl e)
  then show ?thesis using txOn_Inl [of m d e d'] assms(4) by simp
next
  case (Inr x)
  with assms(4) have run: "txOn m d = (Inr x, d')" by simp
  note contract = change_contract [OF assms(1)]
  have "\<exists>a. audits d' = audits d @ [a]"
    using configuration_change.recorded [OF contract run] by metis
  with configuration_change.published [OF contract assms(2,3) run] show ?thesis by (simp add: Inr)
qed

section \<open>Nothing changes without an operator\<close>

definition only_sessions :: "db \<Rightarrow> db \<Rightarrow> bool" where
  "only_sessions d d' \<longleftrightarrow> d' = d\<lparr>sessions := sessions d'\<rparr>"

lemma resolveSession_state: "resolveSession api tok now d = (res, d') \<Longrightarrow> only_sessions d d'"
  by (auto simp: resolveSession_def only_sessions_def act_simps split: option.splits if_splits)

lemma requireOperator_state:
  assumes "requireOperator api r master req now d = (res, d')" shows "only_sessions d d'"
proof -
  obtain user d1 where s: "resolveSession api (cookie_token (rq_cookie req)) now d = (Inr user, d1)"
    using resolveSession_total by blast
  note f = resolveSession_state [OF s]
  show ?thesis
    using assms f s unfolding requireOperator_def
    by (auto simp: bind_lift bind_act_Inr [where m = "resolveSession _ _ _", OF s] only_sessions_def act_simps split: if_splits option.splits sum.splits)
qed

lemma admin_gate_apply:
  "admin_gate env req d =
     (let adm = rt_admin env
      in case assertIpacl (hasFeature (ad_licence adm) ''ipacl'') (cq_forwarded req) (setting ''ipacl'' d) of
           Inl e \<Rightarrow> (Inl e, d)
         | Inr _ \<Rightarrow> if rs_edition (ad_licence adm) = Oss then (Inr (), d)
             else (case requireOperator (ad_crypto adm) (ad_licence adm) (rt_master env) (cq_auth req) (cq_now req) d of
                     (Inl e, t) \<Rightarrow> (Inl e, t) | (Inr p, t) \<Rightarrow> (Inr (), t)))"
  unfolding admin_gate_def Let_def bind_gets bind_lift
  by (auto simp: then_act_def bind_act_def return_act_apply split: sum.split prod.split)

lemma admin_gate_state: "admin_gate env req d = (res, d') \<Longrightarrow> only_sessions d d'"
  using requireOperator_state
  by (auto simp: admin_gate_apply Let_def only_sessions_def split: sum.splits if_splits prod.splits)

lemma admin_gate_Inr:
  assumes "admin_gate env req d = (Inr u, d')"
  shows "assertIpacl (hasFeature (ad_licence (rt_admin env)) ''ipacl'') (cq_forwarded req) (setting ''ipacl'' d) = Inr ()"
    and "rs_edition (ad_licence (rt_admin env)) \<noteq> Oss \<Longrightarrow>
       \<exists>p. requireOperator (ad_crypto (rt_admin env)) (ad_licence (rt_admin env)) (rt_master env) (cq_auth req) (cq_now req) d = (Inr p, d')"
  using assms by (auto simp: admin_gate_apply Let_def split: sum.splits if_splits prod.splits)


section \<open>A patch changes what it names\<close>

lemma z_object_absent:
  assumes "z_object shape v = Some w" and "list_all (\<lambda>(k, s). keeps_absent s) shape" and "get_prop v k = JUndef"
  shows "get_prop w k = JUndef"
proof (rule ccontr)
  assume ne: "get_prop w k \<noteq> JUndef"
  obtain ws where ws: "map (\<lambda>(k, s). map_option (Pair k) (s (get_prop v k))) shape = map Some ws"
    and w: "w = JObj (filter (\<lambda>p. snd p \<noteq> JUndef) ws)"
    using assms(1) by (auto simp: z_object_def all_some_Some split: if_splits)
  have "(k, get_prop w k) \<in> set ws" using lookup_or_undef_in [of "filter (\<lambda>p. snd p \<noteq> JUndef) ws" k] ne by (auto simp: w)
  then have "Some (k, get_prop w k) \<in> set (map (\<lambda>(k, s). map_option (Pair k) (s (get_prop v k))) shape)" unfolding ws by simp
  then obtain s where "(k, s) \<in> set shape" "s (get_prop v k) = Some (get_prop w k)" by (auto simp: eq_commute [of "Some _"])
  then show False using assms(2,3) ne by (auto simp: list_all_iff keeps_absent_def)
qed

lemma patch_absent:
  assumes "s \<in> {TeamPatchSchema env, ProviderPatchSchema env, AccountPatchSchema env, VirtualKeyPatchSchema env, OrganizationPatchSchema env}"
    and "s body = Some v" and "get_prop body k = JUndef"
  shows "get_prop v k = JUndef"
proof -
  have "\<exists>shape. s = z_object shape \<and> list_all (\<lambda>(k, s). keeps_absent s) shape"
    using assms(1)
    by (elim insertE emptyE; simp only: patch_schema_defs)
       (intro exI conjI, rule refl, simp add: proxyField_def keeps_absent_intros)+
  then show ?thesis using z_object_absent assms(2,3) by blast
qed

lemma then_draftAfter:
  "then_act (draftAfter env ac ty key pl) n d = (Inr x, d') \<Longrightarrow> \<exists>c. n (with_draft c (d\<lparr>audits := audits d @
     [\<lparr>au_actor = ''local-admin'', au_action = ac, au_type = ty, au_resource = Some key, au_payload = pl\<rparr>]\<rparr>)) = (Inr x, d')"
  unfolding draftAfter_def then_assoc bind_audit then_storeDraft by (auto split: sum.splits)

lemma parse_body_Inr: "parse_body s body d = (Inr v, d') \<longleftrightarrow> s body = Some v \<and> d' = d"
  by (auto simp: parse_body_def lift_res_apply split: option.splits)

lemma path_uuid_Inr: "path_uuid key d = (Inr i, d') \<longleftrightarrow> key \<noteq> [] \<and> list_all is_digit key \<and> i = dec_val key \<and> d' = d"
  by (auto simp: path_uuid_def lift_res_apply)

lemma known_then: "then_act (known_act p fkey) n d = (if p d then n d else (Inl (DbError fkey), d))"
  by (simp add: known_act_def act_defs)

lemma range_then: "then_act (range_act ints nums v) n d = (if in_range ints nums v then n d else (Inl (DbError ''numeric_value_out_of_range''), d))"
  "then_act (range_update b ints nums v) n d = (if in_range ints [] v \<and> (b \<longrightarrow> in_range [] nums v) then n d else (Inl (DbError ''numeric_value_out_of_range''), d))"
  by (simp_all add: range_act_def range_update_def then_guard)

lemmas handler_simps = gets_act_apply bind_gets then_guard then_modify then_unique known_then range_then return_act_apply

lemma virtual_keys_PATCH_Inr:
  assumes "virtual_keys_PATCH env key body d = (Inr x, d')"
  shows "\<exists>v. VirtualKeyPatchSchema (ad_schema env) body = Some v \<and> vkeys d' = update_where (\<lambda>k. k_id k = dec_val key) (patched_key v) (vkeys d)"
  using assms unfolding virtual_keys_PATCH_def
  by (elim bind_act_InrE) (auto simp: parse_body_Inr path_uuid_Inr handler_simps split: if_splits dest!: then_draftAfter)

lemma teams_PATCH_Inr:
  assumes "teams_PATCH env key body d = (Inr x, d')"
  shows "\<exists>v. TeamPatchSchema (ad_schema env) body = Some v \<and> teams d' = update_where (\<lambda>t. t_id t = dec_val key) (patched_team v) (teams d)"
  using assms unfolding teams_PATCH_def
  by (elim bind_act_InrE) (auto simp: parse_body_Inr path_uuid_Inr handler_simps split: if_splits dest!: then_draftAfter)

lemma providers_PATCH_Inr:
  assumes "providers_PATCH env key body d = (Inr x, d')"
  shows "\<exists>v. ProviderPatchSchema (ad_schema env) body = Some v \<and> providers d' = update_where (\<lambda>p. p_id p = dec_val key) (patched_provider v) (providers d)"
  using assms unfolding providers_PATCH_def
  by (elim bind_act_InrE) (auto simp: parse_body_Inr path_uuid_Inr handler_simps split: if_splits dest!: then_draftAfter)

text \<open>\<open>credential_secret\<close> adds at most one secret.\<close>

lemma credential_secret_Inr:
  assumes "credential_secret v d = (Inr sid, d')"
  shows "accounts d' = accounts d \<and> (get_prop v ''credential'' = JUndef \<longrightarrow> sid = None)"
  using assms by (auto simp: credential_secret_def act_simps split: if_splits)

lemma update_account_Inr:
  assumes "update_account env key v sid d = (Inr x, d')"
  shows "accounts d' = update_where (\<lambda>a. a_id a = dec_val key) (patched_account v sid (patch_metadata v (find (\<lambda>a. a_id a = dec_val key) (accounts d)))) (accounts d)"
  using assms unfolding update_account_def
  by (elim bind_act_InrE) (auto simp: path_uuid_Inr handler_simps find_account_def split: if_splits dest!: then_draftAfter)

lemma accounts_PATCH_Inr:
  assumes "accounts_PATCH env key body d = (Inr x, d')"
  shows "\<exists>v sid. AccountPatchSchema (ad_schema env) body = Some v \<and> (get_prop v ''credential'' = JUndef \<longrightarrow> sid = None) \<and>
     accounts d' = update_where (\<lambda>a. a_id a = dec_val key) (patched_account v sid (patch_metadata v (find (\<lambda>a. a_id a = dec_val key) (accounts d)))) (accounts d)"
proof -
  obtain v sid d1 where "AccountPatchSchema (ad_schema env) body = Some v" and s: "credential_secret v d = (Inr sid, d1)"
    and "update_account env key v sid d1 = (Inr x, d')"
    using assms unfolding accounts_PATCH_def by (auto simp: parse_body_Inr elim!: bind_act_InrE)
  with credential_secret_Inr [OF s] update_account_Inr show ?thesis by fastforce
qed

text \<open>The columns a patch may change, each with the member of the body that names it.\<close>

definition key_columns :: "(string \<times> (key_row \<Rightarrow> key_row \<Rightarrow> bool)) list" where
  "key_columns = [(''name'', \<lambda>r r'. k_name r' = k_name r), (''enabled'', \<lambda>r r'. k_enabled r' = k_enabled r), (''models'', \<lambda>r r'. k_models r' = k_models r),
     (''rpm'', \<lambda>r r'. k_rpm r' = k_rpm r), (''tpm'', \<lambda>r r'. k_tpm r' = k_tpm r), (''max_concurrency'', \<lambda>r r'. k_max_concurrency r' = k_max_concurrency r),
     (''budget_usd'', \<lambda>r r'. k_budget r' = k_budget r), (''budget_duration'', \<lambda>r r'. k_duration r' = k_duration r), (''team_id'', \<lambda>r r'. k_team r' = k_team r)]"

definition team_columns :: "(string \<times> (team_row \<Rightarrow> team_row \<Rightarrow> bool)) list" where
  "team_columns = [(''name'', \<lambda>r r'. t_name r' = t_name r), (''enabled'', \<lambda>r r'. t_enabled r' = t_enabled r),
     (''budget_usd'', \<lambda>r r'. t_budget r' = t_budget r), (''org_id'', \<lambda>r r'. t_org r' = t_org r)]"

definition provider_columns :: "(string \<times> (provider_row \<Rightarrow> provider_row \<Rightarrow> bool)) list" where
  "provider_columns = [(''name'', \<lambda>r r'. p_name r' = p_name r), (''adapter'', \<lambda>r r'. p_adapter r' = p_adapter r),
     (''base_url'', \<lambda>r r'. p_base_url r' = p_base_url r), (''enabled'', \<lambda>r r'. p_enabled r' = p_enabled r), (''metadata'', \<lambda>r r'. p_metadata r' = p_metadata r)]"

definition account_columns :: "(string \<times> (account_row \<Rightarrow> account_row \<Rightarrow> bool)) list" where
  "account_columns = [(''credential'', \<lambda>r r'. a_secret r' = a_secret r), (''display_name'', \<lambda>r r'. a_display r' = a_display r),
     (''base_url'', \<lambda>r r'. a_base_url r' = a_base_url r), (''enabled'', \<lambda>r r'. a_enabled r' = a_enabled r), (''priority'', \<lambda>r r'. a_priority r' = a_priority r),
     (''weight'', \<lambda>r r'. a_weight r' = a_weight r), (''max_concurrency'', \<lambda>r r'. a_max_concurrency r' = a_max_concurrency r), (''cost'', \<lambda>r r'. a_cost r' = a_cost r)]"

definition kept :: "(string \<times> ('r \<Rightarrow> 'r \<Rightarrow> bool)) list \<Rightarrow> jv \<Rightarrow> 'r \<Rightarrow> 'r \<Rightarrow> bool" where
  "kept columns body r r' \<longleftrightarrow> list_all (\<lambda>(c, same). get_prop body c = JUndef \<longrightarrow> same r r') columns"

text \<open>The rows of a table after a patch of the row \<open>i\<close>: the others as they were, that one with its omitted columns.\<close>

definition patched_rows :: "('r \<Rightarrow> uuid) \<Rightarrow> (string \<times> ('r \<Rightarrow> 'r \<Rightarrow> bool)) list \<Rightarrow> jv \<Rightarrow> uuid \<Rightarrow> 'r list \<Rightarrow> 'r list \<Rightarrow> bool" where
  "patched_rows key columns body i = list_all2 (\<lambda>r r'. if key r = i then key r' = i \<and> kept columns body r r' else r' = r)"

lemma patched_rows_update:
  assumes "\<And>r. key (f r) = key r" and "\<And>r. kept columns body r (f r)"
  shows "patched_rows key columns body i rs (update_where (\<lambda>r. key r = i) f rs)"
  unfolding patched_rows_def by (induction rs) (auto simp: assms)

lemmas column_simps = kept_def or_text_def or_bool_def or_int_def or_money_def or_texts_def or_json_def

lemma patched_kept:
  "(\<And>k. get_prop body k = JUndef \<Longrightarrow> get_prop v k = JUndef) \<Longrightarrow> kept key_columns body r (patched_key v r)"
  "(\<And>k. get_prop body k = JUndef \<Longrightarrow> get_prop v k = JUndef) \<Longrightarrow> kept team_columns body t (patched_team v t)"
  "(\<And>k. get_prop body k = JUndef \<Longrightarrow> get_prop v k = JUndef) \<Longrightarrow> kept provider_columns body p (patched_provider v p)"
  "(\<And>k. get_prop body k = JUndef \<Longrightarrow> get_prop v k = JUndef) \<Longrightarrow> (get_prop v ''credential'' = JUndef \<longrightarrow> sid = None)
     \<Longrightarrow> kept account_columns body a (patched_account v sid meta a)"
  by (simp_all add: column_simps key_columns_def team_columns_def provider_columns_def account_columns_def
      patched_key_def patched_team_def patched_provider_def patched_account_def)

lemma virtual_keys_PATCH_rows:
  assumes "txOn (virtual_keys_PATCH env key body) d = (Inr x, d')"
  shows "patched_rows k_id key_columns body (dec_val key) (vkeys d) (vkeys d') \<and> map k_hash (vkeys d') = map k_hash (vkeys d) \<and> map k_prefix (vkeys d') = map k_prefix (vkeys d)"
proof -
  obtain v where v: "VirtualKeyPatchSchema (ad_schema env) body = Some v"
    and r: "vkeys d' = update_where (\<lambda>r. k_id r = dec_val key) (patched_key v) (vkeys d)"
    using assms virtual_keys_PATCH_Inr unfolding txOn_Inr_iff by blast
  show ?thesis
    unfolding r using patch_absent [of "VirtualKeyPatchSchema (ad_schema env)" "ad_schema env" body v] v
    by (auto intro!: patched_rows_update patched_kept map_update_where_same simp: patched_key_def)
qed

lemma teams_PATCH_rows:
  assumes "txOn (teams_PATCH env key body) d = (Inr x, d')"
  shows "patched_rows t_id team_columns body (dec_val key) (teams d) (teams d') \<and> map t_balance (teams d') = map t_balance (teams d)"
proof -
  obtain v where v: "TeamPatchSchema (ad_schema env) body = Some v"
    and r: "teams d' = update_where (\<lambda>r. t_id r = dec_val key) (patched_team v) (teams d)"
    using assms teams_PATCH_Inr unfolding txOn_Inr_iff by blast
  show ?thesis
    unfolding r using patch_absent [of "TeamPatchSchema (ad_schema env)" "ad_schema env" body v] v
    by (auto intro!: patched_rows_update patched_kept map_update_where_same simp: patched_team_def)
qed

lemma providers_PATCH_rows:
  assumes "txOn (providers_PATCH env key body) d = (Inr x, d')"
  shows "patched_rows p_id provider_columns body (dec_val key) (providers d) (providers d') \<and> map p_slug (providers d') = map p_slug (providers d)"
proof -
  obtain v where v: "ProviderPatchSchema (ad_schema env) body = Some v"
    and r: "providers d' = update_where (\<lambda>r. p_id r = dec_val key) (patched_provider v) (providers d)"
    using assms providers_PATCH_Inr unfolding txOn_Inr_iff by blast
  show ?thesis
    unfolding r using patch_absent [of "ProviderPatchSchema (ad_schema env)" "ad_schema env" body v] v
    by (auto intro!: patched_rows_update patched_kept map_update_where_same simp: patched_provider_def)
qed

lemma accounts_PATCH_rows:
  assumes "txOn (accounts_PATCH env key body) d = (Inr x, d')"
  shows "patched_rows a_id account_columns body (dec_val key) (accounts d) (accounts d') \<and> map a_name (accounts d') = map a_name (accounts d)"
proof -
  obtain v sid m where v: "AccountPatchSchema (ad_schema env) body = Some v" and s: "get_prop v ''credential'' = JUndef \<longrightarrow> sid = None"
    and r: "accounts d' = update_where (\<lambda>a. a_id a = dec_val key) (patched_account v sid m) (accounts d)"
    using assms accounts_PATCH_Inr unfolding txOn_Inr_iff by blast
  show ?thesis
    unfolding r using patch_absent [of "AccountPatchSchema (ad_schema env)" "ad_schema env" body v] v s
    by (auto intro!: patched_rows_update patched_kept map_update_where_same simp: patched_account_def)
qed

text \<open>A patch of a virtual key, team, provider or account changes no other row and no column whose member the request leaves
  out; in particular an account keeps its credential and a key its hash, its prefix and its team.\<close>

theorem patch_keeps_omitted_columns:
  "(txOn (virtual_keys_PATCH env key body) d = (Inr x, d') \<longrightarrow> patched_rows k_id key_columns body (dec_val key) (vkeys d) (vkeys d') \<and> map k_hash (vkeys d') = map k_hash (vkeys d) \<and> map k_prefix (vkeys d') = map k_prefix (vkeys d))
   \<and> (txOn (teams_PATCH env key body) d = (Inr x, d') \<longrightarrow> patched_rows t_id team_columns body (dec_val key) (teams d) (teams d') \<and> map t_balance (teams d') = map t_balance (teams d))
   \<and> (txOn (providers_PATCH env key body) d = (Inr x, d') \<longrightarrow> patched_rows p_id provider_columns body (dec_val key) (providers d) (providers d') \<and> map p_slug (providers d') = map p_slug (providers d))
   \<and> (txOn (accounts_PATCH env key body) d = (Inr x, d') \<longrightarrow> patched_rows a_id account_columns body (dec_val key) (accounts d) (accounts d') \<and> map a_name (accounts d') = map a_name (accounts d))"
  using virtual_keys_PATCH_rows [of env key body d x d'] teams_PATCH_rows [of env key body d x d']
    providers_PATCH_rows [of env key body d x d'] accounts_PATCH_rows [of env key body d x d'] by blast

section \<open>What the audit log says\<close>

definition hidden :: "string set \<Rightarrow> audit_row \<Rightarrow> bool" where
  "hidden ks a \<longleftrightarrow> (\<forall>k\<in>ks. get_prop (au_payload a) k \<in> {JUndef, JStr ''[redacted]''})"

lemma lookup_filter_other: "lookup_or_undef (filter (\<lambda>p. fst p \<noteq> k) ps) k' = (if k' = k then JUndef else lookup_or_undef ps k')"
  by (induction ps) auto

lemma lookup_redact [simp]:
  "lookup_or_undef (redact_member k b ps) k' = (if k' = k then if b then JStr ''[redacted]'' else JUndef else lookup_or_undef ps k')"
  by (simp add: redact_member_def lookup_filter_other)

lemma secret_audits:
  "credential_secret v d = (Inr sid, d') \<Longrightarrow> audits d' = audits d" "headers_secret v d = (Inr sid, d') \<Longrightarrow> audits d' = audits d"
  by (auto simp: credential_secret_def headers_secret_def act_simps split: if_splits)

lemmas audit_simps = parse_body_Inr path_uuid_Inr handler_simps bind_fresh_id fresh_id_apply hidden_def

lemma accounts_POST_audit:
  "accounts_POST env body d = (Inr x, d') \<Longrightarrow> \<exists>a. audits d' = audits d @ [a] \<and> hidden {''credential'', ''proxy''} a"
  unfolding accounts_POST_def Let_def
  by (elim bind_act_InrE) (auto simp: audit_simps secret_audits split: if_splits dest!: then_draftAfter)

lemma accounts_PATCH_audit:
  "accounts_PATCH env key body d = (Inr x, d') \<Longrightarrow> \<exists>a. audits d' = audits d @ [a] \<and> hidden {''credential'', ''proxy''} a"
  unfolding accounts_PATCH_def update_account_def
  by (elim bind_act_InrE) (auto simp: audit_simps secret_audits split: if_splits dest!: then_draftAfter)

lemma mcp_servers_POST_audit:
  "mcp_servers_POST env body d = (Inr x, d') \<Longrightarrow> \<exists>a. audits d' = audits d @ [a] \<and> hidden {''headers''} a"
  unfolding mcp_servers_POST_def Let_def
  by (elim bind_act_InrE) (auto simp: audit_simps secret_audits split: if_splits dest!: then_draftAfter)

lemma mcp_servers_PATCH_audit:
  "mcp_servers_PATCH env key body d = (Inr x, d') \<Longrightarrow> \<exists>a. audits d' = audits d @ [a] \<and> hidden {''headers''} a"
  unfolding mcp_servers_PATCH_def
  by (elim bind_act_InrE) (auto simp: audit_simps secret_audits split: if_splits dest!: then_draftAfter)

lemma virtual_keys_POST_audit:
  "virtual_keys_POST env random body d = (Inr x, d') \<Longrightarrow> \<exists>a. audits d' = audits d @ [a] \<and> hidden {''plaintext_key''} a"
  unfolding virtual_keys_POST_def Let_def
  by (elim bind_act_InrE) (auto simp: audit_simps split: if_splits dest!: then_draftAfter)


text \<open>Not so the secret of the webhook, which is recorded as it is.\<close>

theorem webhook_secret_audited:
  assumes "txOn (webhook_POST env body) d = (Inr x, d')"
  shows "\<exists>v a. WebhookSchema (ad_schema env) body = Some v \<and> audits d' = audits d @ [a] \<and> get_prop (au_payload a) ''secret'' = get_prop v ''secret''"
  using assms unfolding txOn_Inr_iff webhook_POST_def save_setting_def
  by (elim bind_act_InrE) (auto simp: audit_simps dest!: then_draftAfter)

section \<open>Patches that change more than they name\<close>

lemma organizations_PATCH_Inr:
  assumes "organizations_PATCH env key body d = (Inr x, d')"
  shows "\<exists>v. OrganizationPatchSchema (ad_schema env) body = Some v \<and> orgs d' = update_where (\<lambda>r. o_id r = dec_val key) (patched_org v) (orgs d)"
  using assms unfolding organizations_PATCH_def org_range_def
  by (elim bind_act_InrE) (auto simp: audit_simps lift_res_apply split: if_splits dest!: then_draftAfter)

text \<open>A patch of an organisation that does not mention its owner removes the owner.\<close>

theorem organizations_PATCH_clears_owner:
  assumes "txOn (organizations_PATCH env key body) d = (Inr x, d')" and "get_prop body ''owner_user_id'' = JUndef"
  shows "\<forall>r\<in>set (orgs d'). o_id r = dec_val key \<longrightarrow> o_owner r = None"
proof -
  obtain v where v: "OrganizationPatchSchema (ad_schema env) body = Some v"
    and r: "orgs d' = update_where (\<lambda>r. o_id r = dec_val key) (patched_org v) (orgs d)"
    using assms(1) organizations_PATCH_Inr unfolding txOn_Inr_iff by blast
  have "get_prop v ''owner_user_id'' = JUndef"
    using patch_absent [of "OrganizationPatchSchema (ad_schema env)" "ad_schema env" body v] v assms(2) by simp
  then show ?thesis by (auto simp: r set_update_where patched_org_def uuid_at_def)
qed

text \<open>A patch of an account with both a proxy and metadata keeps the old metadata: those of the request are lost.\<close>

theorem accounts_PATCH_drops_metadata:
  assumes "txOn (accounts_PATCH env key body) d = (Inr x, d')" and "find (\<lambda>a. a_id a = dec_val key) (accounts d) = Some old"
    and "AccountPatchSchema (ad_schema env) body = Some v" and "get_prop v ''proxy'' \<noteq> JUndef" and "new \<in> set (accounts d')" and "a_id new = dec_val key"
  shows "a_metadata new = JObj (set_prop ''proxy'' (get_prop v ''proxy'') (record_of (a_metadata old)))"
proof -
  obtain sid where "accounts d' = update_where (\<lambda>a. a_id a = dec_val key) (patched_account v sid (patch_metadata v (Some old))) (accounts d)"
    using accounts_PATCH_Inr [of env key body d x d'] assms(1-3) unfolding txOn_Inr_iff by force
  then show ?thesis using assms(4-6) by (auto simp: set_update_where patch_metadata_def patched_account_def)
qed

section \<open>Witnesses\<close>

definition demo_schema :: schema_env where
  "demo_schema = \<lparr>sv_web = sn_web demo_sn, sv_url = (\<lambda>_. True), sv_uuid = list_all is_digit, sv_private = True\<rparr>"

definition demo_admin :: admin_env where
  "demo_admin = \<lparr>ad_sn = demo_sn, ad_schema = demo_schema, ad_licence = \<lparr>rs_edition = Ent, rs_features = [''orgs'']\<rparr>, ad_crypto = demo_api,
     ad_oidc = demo_oidc, ad_gateway_secret = ''g''\<rparr>"

definition demo_tables_db :: db where
  "demo_tables_db = empty_db\<lparr>vkeys := [demo_key 4 []], orgs := [\<lparr>o_id = 5, o_name = ''org'', o_owner = Some 1, o_budget = 0\<rparr>], next_id := 9\<rparr>"

lemma demo_admin_simps [simp]: "ad_sn demo_admin = demo_sn" "ad_schema demo_admin = demo_schema" "rs_edition (ad_licence demo_admin) = Ent"
  "requireFeature (ad_licence demo_admin) ''orgs'' = Inr ()" "ad_crypto demo_admin = demo_api"
  by (simp_all add: demo_admin_def requireFeature_def hasFeature_def)

lemma demo_draftAfter:
  assumes "aliases d = []" "enabled_keys d \<noteq> []" "routing d = None" "settings d = []"
  shows "\<exists>d'. then_act (draftAfter demo_admin ac ty key pl) (return_act x) d = (Inr x, d')"
proof -
  let ?d = "d\<lparr>audits := audits d @ [\<lparr>au_actor = ''local-admin'', au_action = ac, au_type = ty, au_resource = Some key, au_payload = pl\<rparr>]\<rparr>"
  obtain c where "compileDeclarativeSnapshot demo_sn ?d = Inr c"
    using no_models_compile [of ?d demo_sn] assms by (auto simp: enabled_keys_def)
  then show ?thesis unfolding draftAfter_def then_assoc by (simp add: bind_audit then_storeDraft return_act_apply)
qed

lemma demo_rpm: "VirtualKeyPatchSchema demo_schema (JObj [(''rpm'', num 7)]) = Some (JObj [(''rpm'', num 7)])"
  by (simp add: VirtualKeyPatchSchema_def z_object_def z_optional_def z_number_def is_integer_def)

lemma demo_four: "dec_val ''4'' = 4" "dec_val ''5'' = 5" "is_digit CHR ''4''" "is_digit CHR ''5''"
  by (simp_all add: dec_val_def digit_val_def char_class_defs)

lemma demo_key_patch:
  assumes "vkeys d = [demo_key 4 []]" "aliases d = []" "routing d = None" "settings d = []"
  shows "\<exists>x d'. txOn (virtual_keys_PATCH demo_admin ''4'' (JObj [(''rpm'', num 7)])) d = (Inr x, d')"
proof -
  let ?d = "d\<lparr>vkeys := update_where (\<lambda>k. k_id k = 4) (patched_key (JObj [(''rpm'', num 7)])) (vkeys d)\<rparr>"
  have f: "aliases ?d = []" "enabled_keys ?d \<noteq> []" "routing ?d = None" "settings ?d = []"
    by (simp_all add: assms enabled_keys_def patched_key_def demo_key_def or_bool_def)
  have "list_ex (\<lambda>k. k_id k = 4) (vkeys d)" by (simp add: assms demo_key_def)
  then show ?thesis
    by (simp add: txOn_Inr_iff virtual_keys_PATCH_def parse_body_def demo_rpm path_uuid_def bind_lift handler_simps in_range_def int4_ok_def or_rat_def
        or_money_def uuid_at_def team_known_def demo_four) (rule exI, rule demo_draftAfter [OF f])
qed

lemma demo_tables_facts: "vkeys demo_tables_db = [demo_key 4 []]" "aliases demo_tables_db = []" "routing demo_tables_db = None" "settings demo_tables_db = []"
  "control_ok demo_tables_db" "0 < next_id demo_tables_db" "audits demo_tables_db = []"
  by (simp_all add: demo_tables_db_def empty_db_def control_ok_def)

theorem patch_keeps_omitted_columns_witness:
  "\<exists>x d'. txOn (virtual_keys_PATCH demo_admin ''4'' (JObj [(''rpm'', num 7)])) demo_tables_db = (Inr x, d') \<and> map k_hash (vkeys d') = [''h'']"
proof -
  obtain x d' where run: "txOn (virtual_keys_PATCH demo_admin ''4'' (JObj [(''rpm'', num 7)])) demo_tables_db = (Inr x, d')"
    using demo_key_patch [OF demo_tables_facts(1-4)] by blast
  then have "map k_hash (vkeys d') = map k_hash (vkeys demo_tables_db)"
    using patch_keeps_omitted_columns [of demo_admin "''4''" "JObj [(''rpm'', num 7)]" demo_tables_db x d'] by blast
  with run show ?thesis by (intro exI conjI) (auto simp: demo_tables_facts demo_key_def)
qed

theorem control_change_published_witness:
  "\<exists>x d' a. txOn (PATCH_change demo_admin ''virtual-keys'' ''4'' (JObj [(''rpm'', num 7)])) demo_tables_db = (Inr x, d') \<and> audits d' = [a]"
proof -
  let ?m = "PATCH_change demo_admin ''virtual-keys'' ''4'' (JObj [(''rpm'', num 7)])"
  obtain x d' where run: "txOn ?m demo_tables_db = (Inr x, d')"
    using demo_key_patch [OF demo_tables_facts(1-4)] by (auto simp: PATCH_change_def)
  have "\<exists>a. audits d' = audits demo_tables_db @ [a]"
    using control_change_published [of ?m demo_admin "''virtual-keys''" "[]" "JObj [(''rpm'', num 7)]" "''4''", OF _ demo_tables_facts(5,6) run] by simp
  with run show ?thesis by (auto simp: demo_tables_facts)
qed

definition demo_gate_db :: db where
  "demo_gate_db = demo_tables_db\<lparr>users := users operator_db, sessions := sessions operator_db\<rparr>"

definition demo_route :: route_env where
  "demo_route = \<lparr>rt_admin = demo_admin, rt_transfer = demo_transfer, rt_master = ''k''\<rparr>"

definition demo_request :: control_request where
  "demo_request = \<lparr>cq_auth = \<lparr>rq_authorization = None, rq_cookie = Some ''a=b; papi_session=tok''\<rparr>, cq_forwarded = None,
     cq_path = [''virtual-keys'', ''4''], cq_body = JObj [(''rpm'', num 7)], cq_random = [], cq_now = 5\<rparr>"

lemma demo_gate_passes: "\<exists>d1. admin_gate demo_route demo_request demo_gate_db = (Inr (), d1) \<and> only_sessions demo_gate_db d1"
proof -
  have "\<exists>u d'. requireOperator demo_api (ad_licence demo_admin) ''k'' (cq_auth demo_request) 5 demo_gate_db = (Inr u, d')"
    by (simp add: requireOperator_def bearerFrom_def cookie_token_def cookie_value_at_def starts_with_def demo_request_def
        resolveSession_def live_user_def demo_gate_db_def operator_db_def demo_tables_db_def empty_db_def demo_api_def act_defs char_class_defs)
  then obtain u d1 where r: "requireOperator demo_api (ad_licence demo_admin) ''k'' (cq_auth demo_request) 5 demo_gate_db = (Inr u, d1)" by blast
  have "assertIpacl (hasFeature (ad_licence demo_admin) ''ipacl'') (cq_forwarded demo_request) (setting ''ipacl'' demo_gate_db) = Inr ()"
    by (simp add: assertIpacl_def demo_request_def)
  then show ?thesis
    using requireOperator_state [OF r] r by (simp add: admin_gate_apply demo_route_def Let_def) (simp add: demo_request_def)
qed


lemma demo_new_key: "VirtualKeySchema demo_schema (JObj [(''name'', JStr ''n''), (''plaintext_key'', JStr ''12345678'')]) =
   Some (JObj [(''name'', JStr ''n''), (''plaintext_key'', JStr ''12345678''), (''enabled'', JBool True), (''models'', JArr []), (''rpm'', num 60), (''tpm'', num 0),
     (''max_concurrency'', num 0), (''budget_usd'', num 0)])"
  by (simp add: VirtualKeySchema_def z_object_def z_optional_def z_default_def)

lemma numeric6_zero: "numeric6 0 = 0"
  by (simp add: numeric6_def floor_eq_iff)


lemma demo_budget: "OrganizationPatchSchema demo_schema (JObj [(''budget_usd'', num 3)]) = Some (JObj [(''budget_usd'', num 3)])"
  by (simp add: OrganizationPatchSchema_def z_object_def z_optional_def z_number_def)

theorem organizations_PATCH_clears_owner_witness:
  "map o_owner (orgs demo_tables_db) = [Some 1] \<and>
   (\<exists>x d'. txOn (organizations_PATCH demo_admin ''5'' (JObj [(''budget_usd'', num 3)])) demo_tables_db = (Inr x, d')
     \<and> (\<forall>r\<in>set (orgs d'). o_id r = 5 \<longrightarrow> o_owner r = None))"
proof -
  let ?b = "JObj [(''budget_usd'', num 3)]"
  let ?d = "demo_tables_db\<lparr>orgs := update_where (\<lambda>r. o_id r = 5) (patched_org ?b) (orgs demo_tables_db)\<rparr>"
  have f: "aliases ?d = []" "enabled_keys ?d \<noteq> []" "routing ?d = None" "settings ?d = []"
    by (simp_all add: demo_tables_facts enabled_keys_def demo_key_def)
  have p: "list_ex (\<lambda>r. o_id r = 5) (orgs demo_tables_db)" by (simp add: demo_tables_db_def)
  have n: "\<bar>numeric2 3\<bar> < 10000000000" by (simp add: numeric2_def floor_less_iff)
  have "\<exists>x d'. txOn (organizations_PATCH demo_admin ''5'' ?b) demo_tables_db = (Inr x, d')"
    by (simp add: txOn_Inr_iff organizations_PATCH_def parse_body_def demo_budget path_uuid_def bind_lift bind_lift_Inr handler_simps org_range_def or_budget2_def
        uuid_at_def owner_known_def demo_four p n)
       (rule exI, rule demo_draftAfter [OF f])
  then obtain x d' where run: "txOn (organizations_PATCH demo_admin ''5'' ?b) demo_tables_db = (Inr x, d')" by blast
  from organizations_PATCH_clears_owner [OF run] have "\<forall>r\<in>set (orgs d'). o_id r = 5 \<longrightarrow> o_owner r = None"
    by (simp add: demo_four)
  with run show ?thesis by (intro conjI exI [of _ x] exI [of _ d']) (simp_all add: demo_tables_db_def)
qed

end
