(* ===== verification/Snapshot_Migration.thy ===== *)
theory Snapshot_Migration
  imports Snapshot_Transfer
begin

text \<open>
  The one-time cleaning of old configuration versions (\<open>lib/snapshot-migration.ts\<close>), run by
  \<open>scripts/migrate.ts\<close> after the schema migrations: a version whose document can be rebuilt from the current accounts
  without credentials is replaced, every other version becomes invalid.  The table of finished migrations is a second
  component of the state.  \<open>new URL\<close> is a parameter that returns the parsed address without fragment and query
  and its path, and the text of the address for another path.
\<close>

record migration_env =
  mg_transfer :: transfer_env
  mg_url :: "string \<Rightarrow> (string \<times> string) option"
  mg_href :: "string \<Rightarrow> string \<Rightarrow> string"

type_synonym migrations = "(string \<times> jv) list"

definition MIGRATION :: string where
  "MIGRATION = ''002_snapshot_security''"

section \<open>Checks on members\<close>

fun requiredString :: "jv \<Rightarrow> bool" where
  "requiredString (JStr s) = (s \<noteq> [])"
| "requiredString _ = False"

definition optionalString :: "jv \<Rightarrow> bool" where
  "optionalString v \<longleftrightarrow> v = JUndef \<or> requiredString v"

fun stringArray :: "jv \<Rightarrow> bool" where
  "stringArray (JArr vs) = list_all requiredString vs"
| "stringArray _ = False"

fun positiveInteger :: "jv \<Rightarrow> bool" where
  "positiveInteger (JNum n) = (is_integer n \<and> num_positive n)"
| "positiveInteger _ = False"

definition optionalPositiveInteger :: "jv \<Rightarrow> bool" where
  "optionalPositiveInteger v \<longleftrightarrow> v = JUndef \<or> positiveInteger v"

section \<open>The parts of a document that are kept\<close>

definition pickServer :: "jv \<Rightarrow> jv option" where
  "pickServer v =
     (if is_record v \<and> optionalString (get_prop v ''addr'') \<and> optionalString (get_prop v ''read_timeout'')
         \<and> optionalString (get_prop v ''write_timeout'')
      then Some (JObj [(''addr'', coalesce (get_prop v ''addr'') (JStr '':8080'')),
                       (''read_timeout'', coalesce (get_prop v ''read_timeout'') (JStr ''10s'')),
                       (''write_timeout'', coalesce (get_prop v ''write_timeout'') (JStr ''0s''))])
      else None)"

definition pickVirtualKey :: "jv \<Rightarrow> jv option" where
  "pickVirtualKey v =
     (if is_record v \<and> requiredString (get_prop v ''name'') \<and> requiredString (get_prop v ''key_hash'')
         \<and> stringArray (get_prop v ''models'') \<and> positiveInteger (get_prop v ''rpm'')
      then Some (JObj [(''name'', get_prop v ''name''), (''key_hash'', get_prop v ''key_hash''),
                       (''models'', get_prop v ''models''), (''rpm'', get_prop v ''rpm'')])
      else None)"

definition pickModel :: "jv \<Rightarrow> jv option" where
  "pickModel v =
     (if is_record v \<and> requiredString (get_prop v ''alias'') \<and> requiredString (get_prop v ''upstream_model'')
         \<and> stringArray (get_prop v ''accounts'') \<and> arr_of (get_prop v ''accounts'') \<noteq> []
      then Some (JObj [(''alias'', get_prop v ''alias''), (''upstream_model'', get_prop v ''upstream_model''),
                       (''accounts'', get_prop v ''accounts'')])
      else None)"

definition pickRouting :: "jv \<Rightarrow> jv option" where
  "pickRouting v =
     (if is_record v \<and> optionalString (get_prop v ''strategy'') \<and> optionalString (get_prop v ''sticky_ttl'')
         \<and> positiveInteger (get_prop v ''max_attempts'')
      then Some (JObj [(''strategy'', coalesce (get_prop v ''strategy'') (JStr ''balanced'')),
                       (''sticky_ttl'', coalesce (get_prop v ''sticky_ttl'') (JStr ''1h'')),
                       (''max_attempts'', get_prop v ''max_attempts'')])
      else None)"

definition pickResilience :: "jv \<Rightarrow> jv option" where
  "pickResilience v =
     (if is_record v \<and> optionalString (get_prop v ''cooldown'') \<and> optionalString (get_prop v ''circuit_reset'')
         \<and> optionalPositiveInteger (get_prop v ''circuit_failures'')
      then Some (JObj [(''cooldown'', coalesce (get_prop v ''cooldown'') (JStr ''30s'')),
                       (''circuit_failures'', coalesce (get_prop v ''circuit_failures'') (JNum (Fin 3))),
                       (''circuit_reset'', coalesce (get_prop v ''circuit_reset'') (JStr ''1m''))])
      else None)"

section \<open>Credential material\<close>

datatype path_step = Member string | Item nat

definition credential_members :: "string list" where
  "credential_members = [''secret'', ''api_key'', ''access_token'', ''refresh_token'', ''id_token'', ''authorization'', ''cookie'',
     ''session'', ''session_key'']"

text \<open>\<open>path[0] === table && typeof path[1] === 'number'\<close>.\<close>

fun under_item :: "string \<Rightarrow> path_step list \<Rightarrow> bool" where
  "under_item table (Member k # Item i # rest) = (k = table)"
| "under_item table _ = False"

definition unexpected_member :: "path_step list \<Rightarrow> string \<Rightarrow> bool" where
  "unexpected_member path key =
     (let normalized = toLowerCase key;
          permittedLegacySecret = (path = [] \<and> normalized = ''secret'') \<or> (under_item ''accounts'' path \<and> normalized = ''api_key'');
          plaintextVirtualKey = under_item ''virtual_keys'' path \<and> normalized = ''key''
      in (\<not> permittedLegacySecret \<and> normalized \<in> set credential_members) \<or> plaintextVirtualKey)"

fun containsUnexpectedCredentialMaterial :: "path_step list \<Rightarrow> jv \<Rightarrow> bool"
  and items_unexpected :: "path_step list \<Rightarrow> nat \<Rightarrow> jv list \<Rightarrow> bool"
  and members_unexpected :: "path_step list \<Rightarrow> (string \<times> jv) list \<Rightarrow> bool" where
  "containsUnexpectedCredentialMaterial path (JArr vs) = items_unexpected path 0 vs"
| "containsUnexpectedCredentialMaterial path (JObj ps) = members_unexpected path ps"
| "containsUnexpectedCredentialMaterial path _ = False"
| "items_unexpected path i [] = False"
| "items_unexpected path i (v # vs) =
     (containsUnexpectedCredentialMaterial (path @ [Item i]) v \<or> items_unexpected path (Suc i) vs)"
| "members_unexpected path [] = False"
| "members_unexpected path ((k, v) # ps) =
     (unexpected_member path k \<or> containsUnexpectedCredentialMaterial (path @ [Member k]) v \<or> members_unexpected path ps)"

definition FORBIDDEN_SNAPSHOT_PATTERN :: "string list" where
  "FORBIDDEN_SNAPSHOT_PATTERN = [''integration-secret'', ''dev-secret-change-me'', ''api_key'', ''access_token'', ''refresh_token'', ''id_token'',
     ''cookie'', ''session_key'']"

definition forbidden_text :: "string \<Rightarrow> bool" where
  "forbidden_text s \<longleftrightarrow> list_ex (js_includes (toLowerCase s)) FORBIDDEN_SNAPSHOT_PATTERN"

section \<open>Matching accounts\<close>

text \<open>\<open>value.replace(/\/+$/, '')\<close>.\<close>

definition strip_slashes :: "string \<Rightarrow> string" where
  "strip_slashes s = rev (dropWhile (\<lambda>c. c = CHR ''/'') (rev s))"

fun normalizeUrl :: "migration_env \<Rightarrow> jv \<Rightarrow> string option" where
  "normalizeUrl env (JStr s) =
     (if s = [] then None
      else Some (toLowerCase (strip_slashes
        (case mg_url env s of
           Some (u, pathname) \<Rightarrow> mg_href env u (strip_slashes pathname)
         | None \<Rightarrow> s))))"
| "normalizeUrl env _ = None"

definition legacyAccountMatches :: "migration_env \<Rightarrow> jv \<Rightarrow> provider_row \<times> account_row \<Rightarrow> bool" where
  "legacyAccountMatches env legacy row =
     (if truthy (get_prop legacy ''adapter'') \<and> get_prop legacy ''adapter'' \<noteq> JStr (p_adapter (fst row)) then False
      else case normalizeUrl env (get_prop legacy ''base_url'') of
        None \<Rightarrow> False
      | Some legacyUrl \<Rightarrow> legacyUrl \<noteq> [] \<and> (Some legacyUrl = normalizeUrl env (JStr (a_base_url (snd row)))
            \<or> Some legacyUrl = normalizeUrl env (JStr (p_base_url (fst row)))))"

definition legacy_account_json :: "provider_row \<Rightarrow> account_row \<Rightarrow> jv" where
  "legacy_account_json p a =
     JObj [(''id'', id_json (a_id a)), (''name'', JStr (a_name a)), (''adapter'', JStr (p_adapter p)),
           (''base_url'', JStr (a_base_url a)), (''credential_revision'', int_json (a_revision a)),
           (''enabled'', JBool (a_enabled a)), (''priority'', int_json (a_priority a)),
           (''weight'', int_json (a_weight a)), (''max_concurrency'', int_json (a_max_concurrency a)),
           (''cost'', rat_json (a_cost a))]"

definition named_accounts :: "string \<Rightarrow> db \<Rightarrow> (provider_row \<times> account_row) list" where
  "named_accounts name d =
     concat (map (\<lambda>a. case find_provider (a_provider a) d of None \<Rightarrow> [] | Some p \<Rightarrow> [(p, a)])
       (filter (\<lambda>a. a_name a = name) (accounts d)))"

definition reconstruct_account :: "migration_env \<Rightarrow> db \<Rightarrow> jv \<Rightarrow> jv option" where
  "reconstruct_account env d v =
     (if \<not> truthy (get_prop v ''name'') then None
      else case filter (legacyAccountMatches env v) (named_accounts (text_param (mg_transfer env) (get_prop v ''name'')) d) of
        [(p, a)] \<Rightarrow> Some (legacy_account_json p a)
      | _ \<Rightarrow> None)"

section \<open>Rebuilding and storing\<close>

definition is_array :: "jv \<Rightarrow> bool" where
  "is_array v \<longleftrightarrow> as_arr v \<noteq> None"

definition reconstruct :: "migration_env \<Rightarrow> db \<Rightarrow> jv \<Rightarrow> jv option" where
  "reconstruct env d legacy =
     (if \<not> (is_array (get_prop legacy ''accounts'') \<and> is_array (get_prop legacy ''models'') \<and> is_array (get_prop legacy ''virtual_keys''))
         \<or> containsUnexpectedCredentialMaterial [] legacy then None
      else case (all_some (map (reconstruct_account env d) (arr_of (get_prop legacy ''accounts''))), pickServer (get_prop legacy ''server''),
             all_some (map pickVirtualKey (arr_of (get_prop legacy ''virtual_keys''))), all_some (map pickModel (arr_of (get_prop legacy ''models''))),
             pickRouting (get_prop legacy ''routing''), pickResilience (get_prop legacy ''resilience'')) of
        (Some accts, Some server, Some virtualKeys, Some models, Some rt, Some resilience) \<Rightarrow>
          Some (JObj [(''version'', JNum (Fin 2)), (''metadata'', JObj []), (''server'', server), (''virtual_keys'', JArr virtualKeys),
            (''models'', JArr models), (''accounts'', JArr accts), (''routing'', rt), (''resilience'', resilience)])
      | _ \<Rightarrow> None)"

definition migration_digest :: "migration_env \<Rightarrow> digest_api" where
  "migration_digest env = sn_digest (tr_sn (mg_transfer env))"

definition snapshot_text :: "migration_env \<Rightarrow> jv \<Rightarrow> string" where
  "snapshot_text env v = json_stringify (num_text (migration_digest env)) v"

definition failure_note :: jv where
  "failure_note = JObj [(''code'', JStr ''snapshot_reconstruction_failed''), (''migration'', JStr MIGRATION)]"

definition sanitize_version :: "migration_env \<Rightarrow> db \<Rightarrow> version_row \<Rightarrow> (bool \<times> version_row) res" where
  "sanitize_version env d r =
     (case reconstruct env d (cv_snapshot r) of
        Some doc \<Rightarrow>
          if forbidden_text (snapshot_text env doc) then Inr (False, r\<lparr>cv_status := Invalid, cv_errors := cv_errors r @ [failure_note]\<rparr>)
          else (case sha256Canonical (migration_digest env) doc of
                  Inl e \<Rightarrow> Inl e
                | Inr h \<Rightarrow> Inr (True, r\<lparr>cv_snapshot := doc, cv_checksum := h, cv_config_checksum := Some h, cv_schema := 2\<rparr>))
      | None \<Rightarrow> Inr (False, r\<lparr>cv_status := Invalid, cv_errors := cv_errors r @ [failure_note]\<rparr>))"

definition sanitizeHistoricalConfigVersions :: "migration_env \<Rightarrow> (db \<times> migrations, (nat \<times> nat) option) act" where
  "sanitizeHistoricalConfigVersions env = (\<lambda>(d, finished).
     if map_of finished MIGRATION \<noteq> None then (Inr None, (d, finished))
     else (case all_or_error (map (sanitize_version env d) (versions d)) of
             Inl e \<Rightarrow> (Inl e, (d, finished))
           | Inr rs \<Rightarrow>
               (let reconstructed = length (filter fst rs); invalid = length (filter (\<lambda>r. \<not> fst r) rs)
                in (Inr (Some (reconstructed, invalid)),
                    (d\<lparr>versions := map snd rs\<rparr>,
                     finished @ [(MIGRATION, JObj [(''reconstructed'', int_json (int reconstructed)), (''invalid'', int_json (int invalid))])])))))"


section \<open>What the rebuilt documents contain\<close>

text \<open>No member, at any depth, is named like a credential.\<close>

fun credential_free :: "jv \<Rightarrow> bool" where
  "credential_free (JArr vs) = list_all credential_free vs"
| "credential_free (JObj ps) = list_all (\<lambda>(k, v). toLowerCase k \<notin> set credential_members \<and> credential_free v) ps"
| "credential_free v = True"

lemma all_some_elem: "all_some (map f vs) = Some xs \<Longrightarrow> x \<in> set xs \<Longrightarrow> \<exists>v\<in>set vs. f v = Some x"
proof -
  assume "all_some (map f vs) = Some xs" and x: "x \<in> set xs"
  then have "map f vs = map Some xs" by (simp only: all_some_Some)
  then have "f ` set vs = Some ` set xs" by (metis list.set_map)
  with x show ?thesis by (metis imageE imageI)
qed

lemma required_leaf: "requiredString v \<Longrightarrow> plain v \<and> credential_free v"
  by (cases v) auto

lemma coalesced_leaf: "optionalString v \<Longrightarrow> plain (coalesce v (JStr s)) \<and> credential_free (coalesce v (JStr s))"
  using required_leaf [of v] by (auto simp: optionalString_def coalesce_def)

lemma stringArray_leaf: "stringArray v \<Longrightarrow> plain v \<and> credential_free v"
  using required_leaf by (cases v) (auto simp: list_all_iff)

lemma positive_leaf: "positiveInteger v \<Longrightarrow> plain v \<and> credential_free v"
  by (cases v) (auto simp: is_integer_def is_finite_def split: jsnum.splits)

lemma coalesced_positive: "optionalPositiveInteger v \<Longrightarrow> plain (coalesce v (JNum (Fin 3))) \<and> credential_free (coalesce v (JNum (Fin 3)))"
  using positive_leaf [of v] by (auto simp: optionalPositiveInteger_def coalesce_def)

lemmas leaf_rules = required_leaf coalesced_leaf stringArray_leaf positive_leaf coalesced_positive
lemmas member_eval = credential_members_def toLowerCase_def char_class_defs

lemma picked_clean:
  "pickServer v = Some x \<Longrightarrow> plain x \<and> credential_free x"
  "pickVirtualKey v = Some x \<Longrightarrow> plain x \<and> credential_free x"
  "pickModel v = Some x \<Longrightarrow> plain x \<and> credential_free x"
  "pickRouting v = Some x \<Longrightarrow> plain x \<and> credential_free x"
  "pickResilience v = Some x \<Longrightarrow> plain x \<and> credential_free x"
  by (auto simp: pickServer_def pickVirtualKey_def pickModel_def pickRouting_def pickResilience_def member_eval leaf_rules split: if_splits)

lemma account_clean: "plain (legacy_account_json p a) \<and> credential_free (legacy_account_json p a)"
  by (simp add: legacy_account_json_def id_json_def int_json_def rat_json_def member_eval)

lemma reconstruct_account_Some:
  "reconstruct_account env d v = Some x \<Longrightarrow> \<exists>p a. (p, a) \<in> set (named_accounts (text_param (mg_transfer env) (get_prop v ''name'')) d)
     \<and> legacyAccountMatches env v (p, a) \<and> x = legacy_account_json p a"
proof -
  assume "reconstruct_account env d v = Some x"
  then obtain p a where pa: "filter (legacyAccountMatches env v) (named_accounts (text_param (mg_transfer env) (get_prop v ''name'')) d) = [(p, a)]"
    and x: "x = legacy_account_json p a"
    by (auto simp: reconstruct_account_def split: if_splits list.splits)
  from pa have "(p, a) \<in> set (filter (legacyAccountMatches env v) (named_accounts (text_param (mg_transfer env) (get_prop v ''name'')) d))" by simp
  with x show ?thesis by auto
qed


lemma named_accounts_mem: "(p, a) \<in> set (named_accounts name d) \<Longrightarrow> a \<in> set (accounts d) \<and> find_provider (a_provider a) d = Some p"
  by (auto simp: named_accounts_def split: option.splits)

lemma reconstruct_clean:
  assumes "reconstruct env d legacy = Some doc"
  shows "plain doc \<and> credential_free doc \<and> (\<forall>v\<in>set (arr_of (get_prop doc ''accounts'')).
     \<exists>p a. a \<in> set (accounts d) \<and> find_provider (a_provider a) d = Some p \<and> v = legacy_account_json p a)"
proof -
  obtain accts server ks ms rt rs where
      a: "all_some (map (reconstruct_account env d) (arr_of (get_prop legacy ''accounts''))) = Some accts"
    and s: "pickServer (get_prop legacy ''server'') = Some server" "pickRouting (get_prop legacy ''routing'') = Some rt"
      "pickResilience (get_prop legacy ''resilience'') = Some rs"
    and k: "all_some (map pickVirtualKey (arr_of (get_prop legacy ''virtual_keys''))) = Some ks"
    and m: "all_some (map pickModel (arr_of (get_prop legacy ''models''))) = Some ms"
    and doc: "doc = JObj [(''version'', JNum (Fin 2)), (''metadata'', JObj []), (''server'', server), (''virtual_keys'', JArr ks),
            (''models'', JArr ms), (''accounts'', JArr accts), (''routing'', rt), (''resilience'', rs)]"
    using assms by (auto simp: reconstruct_def split: if_splits option.splits)
  have acc: "\<exists>p a. a \<in> set (accounts d) \<and> find_provider (a_provider a) d = Some p \<and> x = legacy_account_json p a" if "x \<in> set accts" for x
    using all_some_elem [OF a that] named_accounts_mem reconstruct_account_Some by blast
  have "list_all (\<lambda>x. plain x \<and> credential_free x) accts" using acc account_clean by (fastforce simp: list_all_iff)
  moreover have "list_all (\<lambda>x. plain x \<and> credential_free x) ks" "list_all (\<lambda>x. plain x \<and> credential_free x) ms"
    using all_some_elem [OF k] all_some_elem [OF m] picked_clean by (fastforce simp: list_all_iff)+
  ultimately have "plain doc \<and> credential_free doc"
    using picked_clean(1) [OF s(1)] picked_clean(4) [OF s(2)] picked_clean(5) [OF s(3)]
    by (simp add: doc list_all_iff member_eval)
  moreover have "arr_of (get_prop doc ''accounts'') = accts" by (simp add: doc arr_of_def)
  ultimately show ?thesis using acc by simp
qed

section \<open>The cleaned history\<close>

text \<open>A version after the run: rebuilt from the current accounts without credentials, under its own checksum, or invalid.\<close>

definition rebuilt :: "migration_env \<Rightarrow> db \<Rightarrow> version_row \<Rightarrow> bool" where
  "rebuilt env d r \<longleftrightarrow> credential_free (cv_snapshot r) \<and> \<not> forbidden_text (snapshot_text env (cv_snapshot r))
     \<and> sha256Canonical (migration_digest env) (cv_snapshot r) = Inr (cv_checksum r) \<and> cv_config_checksum r = Some (cv_checksum r) \<and> cv_schema r = 2
     \<and> (\<forall>v\<in>set (arr_of (get_prop (cv_snapshot r) ''accounts'')).
          \<exists>p a. a \<in> set (accounts d) \<and> find_provider (a_provider a) d = Some p \<and> v = legacy_account_json p a)"

definition same_lineage :: "version_row \<Rightarrow> version_row \<Rightarrow> bool" where
  "same_lineage r r' \<longleftrightarrow> cv_version r' = cv_version r \<and> cv_published_at r' = cv_published_at r \<and> cv_source r' = cv_source r \<and> prefix (cv_errors r) (cv_errors r')"

lemma sanitize_version_total:
  "\<exists>b r'. sanitize_version env d r = Inr (b, r') \<and> same_lineage r r'
     \<and> (if b then cv_status r' = cv_status r \<and> rebuilt env d r' else cv_status r' = Invalid \<and> cv_snapshot r' = cv_snapshot r)"
proof (cases "reconstruct env d (cv_snapshot r)")
  case (Some doc)
  note clean = reconstruct_clean [OF Some]
  then obtain t where "canonicalJson (num_text (migration_digest env)) doc = Inr t" using canonicalJson_total by blast
  then have "sha256Canonical (migration_digest env) doc = Inr (hash_hex (migration_digest env) t)" by (simp add: sha256Canonical_def)
  with Some clean show ?thesis by (auto simp: sanitize_version_def same_lineage_def rebuilt_def)
qed (auto simp: sanitize_version_def same_lineage_def)

definition sanitized_versions :: "migration_env \<Rightarrow> db \<Rightarrow> (bool \<times> version_row) list \<Rightarrow> bool" where
  "sanitized_versions env d rs \<longleftrightarrow> list_all2 (\<lambda>r (b, r'). same_lineage r r'
     \<and> (if b then cv_status r' = cv_status r \<and> rebuilt env d r' else cv_status r' = Invalid \<and> cv_snapshot r' = cv_snapshot r)) (versions d) rs"

lemma sanitize_runs:
  assumes "map_of finished MIGRATION = None"
  shows "\<exists>rs. sanitized_versions env d rs
     \<and> sanitizeHistoricalConfigVersions env (d, finished) = (Inr (Some (length (filter fst rs), length (filter (\<lambda>r. \<not> fst r) rs))),
         (d\<lparr>versions := map snd rs\<rparr>, finished @ [(MIGRATION, JObj [(''reconstructed'', int_json (int (length (filter fst rs)))),
            (''invalid'', int_json (int (length (filter (\<lambda>r. \<not> fst r) rs))))])]))"
proof -
  have "list_all (\<lambda>r. \<exists>x. r = Inr x) (map (sanitize_version env d) (versions d))"
    using sanitize_version_total [of env d] by (fastforce simp: list_all_iff)
  then obtain rs where rs: "all_or_error (map (sanitize_version env d) (versions d)) = Inr rs" using all_or_error_total by blast
  then have step: "map (sanitize_version env d) (versions d) = map Inr rs" by (rule all_or_error_Inr)
  then have len: "length rs = length (versions d)" by (metis length_map)
  have "sanitized_versions env d rs"
    unfolding sanitized_versions_def list_all2_conv_all_nth
  proof (intro conjI allI impI)
    fix i assume "i < length (versions d)"
    then have "sanitize_version env d (versions d ! i) = Inr (rs ! i)" using step len by (metis nth_map)
    with sanitize_version_total [of env d "versions d ! i"] show "case rs ! i of (b, r') \<Rightarrow> same_lineage (versions d ! i) r'
       \<and> (if b then cv_status r' = cv_status (versions d ! i) \<and> rebuilt env d r' else cv_status r' = Invalid \<and> cv_snapshot r' = cv_snapshot (versions d ! i))"
      by auto
  qed (simp add: len)
  with rs assms show ?thesis by (intro exI [of _ rs]) (simp add: sanitizeHistoricalConfigVersions_def Let_def)
qed

text \<open>C24: the cleaning of the configuration history always ends: every version keeps its number, publication time, source and earlier errors,
  and is either rebuilt, with its status kept, under the checksum of a document without any credential member or forbidden text
  whose accounts are current ones, or invalid; nothing but the versions changes, and a second run changes nothing.\<close>

theorem sanitizeHistoricalConfigVersions_correct:
  assumes "map_of finished MIGRATION = None"
  shows "\<exists>n m vs finished'. sanitizeHistoricalConfigVersions env (d, finished) = (Inr (Some (n, m)), (d\<lparr>versions := vs\<rparr>, finished'))
     \<and> n + m = length (versions d)
     \<and> list_all2 (\<lambda>r r'. same_lineage r r' \<and> (cv_status r' = cv_status r \<and> rebuilt env d r' \<or> cv_status r' = Invalid)) (versions d) vs
     \<and> sanitizeHistoricalConfigVersions env (d\<lparr>versions := vs\<rparr>, finished') = (Inr None, (d\<lparr>versions := vs\<rparr>, finished'))"
proof -
  obtain rs where rs: "sanitized_versions env d rs" and run: "sanitizeHistoricalConfigVersions env (d, finished) =
       (Inr (Some (length (filter fst rs), length (filter (\<lambda>r. \<not> fst r) rs))),
         (d\<lparr>versions := map snd rs\<rparr>, finished @ [(MIGRATION, JObj [(''reconstructed'', int_json (int (length (filter fst rs)))),
            (''invalid'', int_json (int (length (filter (\<lambda>r. \<not> fst r) rs))))])]))"
    using sanitize_runs [OF assms] by blast
  have "list_all2 (\<lambda>r r'. same_lineage r r' \<and> (cv_status r' = cv_status r \<and> rebuilt env d r' \<or> cv_status r' = Invalid)) (versions d) (map snd rs)"
    using rs unfolding sanitized_versions_def list_all2_map2 by (rule list_all2_mono) (auto split: if_splits)
  moreover have "length (filter fst rs) + length (filter (\<lambda>r. \<not> fst r) rs) = length (versions d)"
    using rs sum_length_filter_compl [of fst rs] by (simp add: sanitized_versions_def list_all2_lengthD)
  ultimately show ?thesis
    using run by (intro exI [of _ "map snd rs"] exI conjI) (auto simp: sanitizeHistoricalConfigVersions_def)
qed

subsection \<open>Rollbacks\<close>

lemma credential_free_set_prop:
  assumes "credential_free (JObj ps)" and "toLowerCase k \<notin> set credential_members" and "credential_free v"
  shows "credential_free (JObj (set_prop k v ps))"
  using assms by (auto simp: set_prop_def list_all_iff split: if_splits)

lemma credential_free_members: "credential_free v \<Longrightarrow> credential_free (JObj (record_of v))"
  by (cases v) simp_all

lemma credential_free_get: "credential_free v \<Longrightarrow> credential_free (get_prop v k)"
proof (cases v)
  case (JObj ps)
  assume "credential_free v"
  then show ?thesis using lookup_or_undef_in [of ps k] by (cases "lookup_or_undef ps k = JUndef") (auto simp: JObj list_all_iff)
qed simp_all

lemma credential_free_items: "credential_free v \<Longrightarrow> x \<in> set (arr_of v) \<Longrightarrow> credential_free x"
  by (cases v) (auto simp: arr_of_def list_all_iff)

lemma credential_free_refresh: "credential_free v \<Longrightarrow> credential_free (refresh_revision d v)"
  using credential_free_set_prop [OF credential_free_members]
  by (auto simp: refresh_revision_def int_json_def member_eval split: option.split)


lemma rollback_draft:
  assumes "rollback env source d = (Inr (v, h), d')"
  shows "\<exists>r row. r \<in> set (versions d) \<and> cv_version r = source \<and> cv_status r \<noteq> Invalid \<and> versions d' = versions d @ [row] \<and> cv_version row = v
     \<and> cv_snapshot row = JObj (set_prop ''accounts'' (JArr (map (refresh_revision d) (arr_of (get_prop (cv_snapshot r) ''accounts''))))
          (record_of (cv_snapshot r)))"
proof -
  obtain r where r: "find (\<lambda>r. cv_version r = source) (versions d) = Some r" "cv_status r \<noteq> Invalid"
    using assms by (auto simp: rollback_def txOn_Inr_iff act_simps split: option.splits if_splits)
  then have "r \<in> set (versions d) \<and> cv_version r = source" by (auto dest: find_Some_set)
  with r assms show ?thesis
    by - (rule exI [of _ r], auto simp: rollback_def txOn_Inr_iff act_simps bind_fresh_id bind_audit Let_def lift_res_apply elim!: bind_act_InrE split: option.splits if_splits sum.splits)
qed


text \<open>A version that cannot be rebuilt keeps its document, credentials included: only its status and errors change.\<close>

theorem sanitize_keeps_unsafe_documents:
  assumes "sanitizeHistoricalConfigVersions env (d, finished) = (Inr (Some n), (d1, finished1))"
    and "r \<in> set (versions d)" and "containsUnexpectedCredentialMaterial [] (cv_snapshot r)"
  shows "\<exists>r'\<in>set (versions d1). cv_version r' = cv_version r \<and> cv_status r' = Invalid \<and> cv_snapshot r' = cv_snapshot r"
proof -
  have fresh: "map_of finished MIGRATION = None" using assms(1) by (auto simp: sanitizeHistoricalConfigVersions_def split: if_splits)
  from assms(1) fresh obtain rs where rs: "all_or_error (map (sanitize_version env d) (versions d)) = Inr rs" and d1: "versions d1 = map snd rs"
    by (auto simp: sanitizeHistoricalConfigVersions_def Let_def split: sum.splits)
  from rs have "Inr ` set rs = sanitize_version env d ` set (versions d)" by (metis all_or_error_Inr list.set_map)
  moreover have "reconstruct env d (cv_snapshot r) = None" using assms(3) by (simp add: reconstruct_def)
  then have "sanitize_version env d r = Inr (False, r\<lparr>cv_status := Invalid, cv_errors := cv_errors r @ [failure_note]\<rparr>)"
    by (simp add: sanitize_version_def)
  ultimately have "(False, r\<lparr>cv_status := Invalid, cv_errors := cv_errors r @ [failure_note]\<rparr>) \<in> set rs"
    using assms(2) by (metis (no_types, lifting) imageE imageI sum.inject(2))
  then show ?thesis unfolding d1 by force
qed


section \<open>Witnesses\<close>

definition demo_migration :: migration_env where
  "demo_migration = \<lparr>mg_transfer = demo_transfer, mg_url = (\<lambda>_. None), mg_href = (\<lambda>u p. [])\<rparr>"

definition demo_legacy :: jv where
  "demo_legacy = JObj [(''secret'', JStr ''x''), (''server'', JObj []), (''virtual_keys'', JArr []), (''models'', JArr []), (''accounts'', JArr []),
     (''routing'', JObj [(''max_attempts'', JNum (Fin 2))]), (''resilience'', JObj [])]"

definition demo_unsafe :: jv where
  "demo_unsafe = JObj [(''metadata'', JObj [(''access_token'', JStr ''t'')])]"

definition demo_old :: "nat \<Rightarrow> jv \<Rightarrow> version_row" where
  "demo_old n doc = \<lparr>cv_version = n, cv_status = Draft, cv_checksum = [], cv_config_checksum = None, cv_schema = 1, cv_snapshot = doc,
     cv_errors = [], cv_published_at = None, cv_source = None\<rparr>"

definition demo_history :: db where
  "demo_history = empty_db\<lparr>versions := [demo_old 1 demo_legacy, demo_old 2 demo_unsafe], next_id := 3\<rparr>"

theorem sanitizeHistoricalConfigVersions_correct_witness:
  "\<exists>n m vs finished'. sanitizeHistoricalConfigVersions demo_migration (demo_history, []) = (Inr (Some (n, m)), (demo_history\<lparr>versions := vs\<rparr>, finished'))
     \<and> n + m = 2"
  using sanitizeHistoricalConfigVersions_correct [of "[]" demo_migration demo_history] by (auto simp: demo_history_def empty_db_def)

lemma demo_unsafe_material: "containsUnexpectedCredentialMaterial [] demo_unsafe"
  by (simp add: demo_unsafe_def unexpected_member_def member_eval)

theorem sanitize_keeps_unsafe_documents_witness:
  "\<exists>n d1 finished1. sanitizeHistoricalConfigVersions demo_migration (demo_history, []) = (Inr (Some n), (d1, finished1))
     \<and> (\<exists>r\<in>set (versions d1). cv_version r = 2 \<and> \<not> credential_free (cv_snapshot r))"
proof -
  obtain n d1 f where run: "sanitizeHistoricalConfigVersions demo_migration (demo_history, []) = (Inr (Some n), (d1, f))"
    using sanitize_runs [of "[]" demo_migration demo_history] by auto
  have "demo_old 2 demo_unsafe \<in> set (versions demo_history)" by (simp add: demo_history_def)
  from sanitize_keeps_unsafe_documents [OF run this] demo_unsafe_material
  obtain r where "r \<in> set (versions d1)" "cv_version r = 2" "cv_snapshot r = demo_unsafe" by (auto simp: demo_old_def)
  moreover have "\<not> credential_free demo_unsafe" by (simp add: demo_unsafe_def member_eval)
  ultimately show ?thesis using run by (intro exI conjI) auto
qed

definition demo_clean :: jv where
  "demo_clean = JObj [(''version'', JNum (Fin 2)), (''metadata'', JObj []),
     (''server'', JObj [(''addr'', JStr '':8080''), (''read_timeout'', JStr ''10s''), (''write_timeout'', JStr ''0s'')]), (''virtual_keys'', JArr []),
     (''models'', JArr []), (''accounts'', JArr []), (''routing'', JObj [(''strategy'', JStr ''balanced''), (''sticky_ttl'', JStr ''1h''), (''max_attempts'', JNum (Fin 2))]),
     (''resilience'', JObj [(''cooldown'', JStr ''30s''), (''circuit_failures'', JNum (Fin 3)), (''circuit_reset'', JStr ''1m'')])]"

lemma demo_reconstruct: "reconstruct demo_migration demo_history demo_legacy = Some demo_clean"
proof -
  have "\<not> containsUnexpectedCredentialMaterial [] demo_legacy"
    by (simp add: demo_legacy_def unexpected_member_def member_eval)
  moreover have "is_integer (Fin 2)" by (simp add: is_integer_def)
  ultimately show ?thesis
    by (simp add: reconstruct_def demo_legacy_def is_array_def arr_of_def pickServer_def pickRouting_def pickResilience_def optionalString_def
        optionalPositiveInteger_def coalesce_def demo_clean_def)
qed


lemma demo_clean_text: "\<not> forbidden_text (json_stringify (\<lambda>_. ''1'') demo_clean)"
  by code_simp


lemma demo_migration_digest: "migration_digest demo_migration = \<lparr>num_text = (\<lambda>_. ''1''), hash_hex = id\<rparr>"
  by (simp add: migration_digest_def demo_migration_def demo_transfer_def demo_sn_def)


end
