(* ===== verification/Snapshot_Export.thy ===== *)
theory Snapshot_Export
  imports Snapshot_Transfer
begin

text \<open>
  The export of the configuration with its decrypted credentials (\<open>exportSnapshot\<close> of \<open>lib/snapshot-transfer.ts\<close>) and what an
  import of the export restores.  A row that is exported as it is has the columns the model keeps.  The text in which
  the driver returns a \<open>numeric\<close> column and the export time are parameters; the time at which a token expires is
  its text.
\<close>

section \<open>Rows of the document\<close>

definition text_or_null :: "string option \<Rightarrow> jv" where
  "text_or_null x = (case x of None \<Rightarrow> JNull | Some s \<Rightarrow> JStr s)"

definition id_or_null :: "uuid option \<Rightarrow> jv" where
  "id_or_null x = (case x of None \<Rightarrow> JNull | Some i \<Rightarrow> id_json i)"

text \<open>\<open>if (row.key) out.key = row.key\<close>.\<close>

definition filled_member :: "string \<Rightarrow> string option \<Rightarrow> (string \<times> jv) list" where
  "filled_member k x = (case x of None \<Rightarrow> [] | Some s \<Rightarrow> member_if (s \<noteq> []) k (JStr s))"

definition export_provider :: "provider_row \<Rightarrow> jv" where
  "export_provider p = JObj [(''id'', id_json (p_id p)), (''slug'', JStr (p_slug p)), (''name'', JStr (p_name p)), (''adapter'', JStr (p_adapter p)),
     (''base_url'', JStr (p_base_url p)), (''enabled'', JBool (p_enabled p)), (''metadata'', p_metadata p)]"

definition account_credential :: "db \<Rightarrow> account_row \<Rightarrow> jv" where
  "account_credential d a =
     (case a_secret a of None \<Rightarrow> JNull
      | Some i \<Rightarrow> (case find_secret i d of None \<Rightarrow> JNull | Some s \<Rightarrow> s_sealed s))"

definition export_account :: "db \<Rightarrow> provider_row \<Rightarrow> account_row \<Rightarrow> jv" where
  "export_account d p a =
     JObj ([(''id'', id_json (a_id a)), (''provider_id'', id_json (a_provider a)), (''provider_slug'', JStr (p_slug p)), (''name'', JStr (a_name a)),
            (''display_name'', JStr (a_display a)), (''base_url'', JStr (a_base_url a)), (''enabled'', JBool (a_enabled a)),
            (''priority'', int_json (a_priority a)), (''weight'', int_json (a_weight a)), (''max_concurrency'', int_json (a_max_concurrency a)),
            (''cost'', rat_json (a_cost a)), (''metadata'', a_metadata a)]
       @ member_if (truthy (account_credential d a)) ''credential'' (account_credential d a)
       @ filled_member ''external_account_id'' (a_external a) @ filled_member ''account_email'' (a_email a)
       @ filled_member ''plan_type'' (a_plan a) @ filled_member ''token_expires_at'' (a_expires a))"

definition export_accounts :: "db \<Rightarrow> jv list" where
  "export_accounts d =
     concat (map (\<lambda>a. case find_provider (a_provider a) d of None \<Rightarrow> [] | Some p \<Rightarrow> [export_account d p a]) (sort_key a_name (accounts d)))"

definition export_model :: "db \<Rightarrow> alias_row \<Rightarrow> jv" where
  "export_model d m =
     (let price = find (\<lambda>p. pc_model p = m_id m) (pricing d);
          prov = (case m_provider m of None \<Rightarrow> None | Some i \<Rightarrow> find_provider i d)
      in JObj [(''id'', id_json (m_id m)), (''alias'', JStr (m_alias m)), (''upstream_model'', JStr (m_upstream m)), (''provider_id'', id_or_null (m_provider m)),
           (''provider_slug'', text_or_null (map_option p_slug prov)), (''routing_strategy'', JStr (m_strategy m)), (''enabled'', JBool (m_enabled m)),
           (''fallbacks'', JArr (map JStr (m_fallbacks m))),
           (''input_per_mtok'', rat_json (case price of None \<Rightarrow> 0 | Some p \<Rightarrow> pc_input p)),
           (''output_per_mtok'', rat_json (case price of None \<Rightarrow> 0 | Some p \<Rightarrow> pc_output p))])"

text \<open>An override of 0 stands for none in the model.\<close>

definition numeric_or_null :: "(rat \<Rightarrow> string) \<Rightarrow> rat \<Rightarrow> jv" where
  "numeric_or_null numeric x = (if x = 0 then JNull else JStr (numeric x))"

definition export_mapping :: "(rat \<Rightarrow> string) \<Rightarrow> db \<Rightarrow> mapping_row \<Rightarrow> jv list" where
  "export_mapping numeric d r =
     (case (find (\<lambda>m. m_id m = mm_model r) (aliases d), find_account (mm_account r) d) of
        (Some m, Some a) \<Rightarrow> [JObj [(''model_alias_id'', id_json (mm_model r)), (''account_id'', id_json (mm_account r)), (''enabled'', JBool (mm_enabled r)),
           (''tier'', int_json (mm_tier r)), (''position'', int_json (mm_position r)), (''upstream_model_override'', JStr (case mm_override r of None \<Rightarrow> [] | Some s \<Rightarrow> s)),
           (''weight'', if mm_weight r = 0 then JNull else rat_json (mm_weight r)), (''input_cost_per_mtok'', numeric_or_null numeric (mm_input r)),
           (''output_cost_per_mtok'', numeric_or_null numeric (mm_output r)), (''alias'', JStr (m_alias m)), (''account_name'', JStr (a_name a))]]
      | _ \<Rightarrow> [])"

definition mapping_alias :: "db \<Rightarrow> mapping_row \<Rightarrow> string" where
  "mapping_alias d r = (case find (\<lambda>m. m_id m = mm_model r) (aliases d) of None \<Rightarrow> [] | Some m \<Rightarrow> m_alias m)"

definition export_team :: "(rat \<Rightarrow> string) \<Rightarrow> team_row \<Rightarrow> jv" where
  "export_team numeric t = JObj [(''id'', id_json (t_id t)), (''name'', JStr (t_name t)), (''enabled'', JBool (t_enabled t)),
     (''budget_usd'', JStr (numeric (t_budget t))), (''balance_usd'', JStr (numeric (t_balance t))), (''org_id'', id_or_null (t_org t))]"

definition export_key :: "db \<Rightarrow> key_row \<Rightarrow> jv" where
  "export_key d k =
     JObj [(''id'', id_json (k_id k)), (''name'', JStr (k_name k)), (''key_hash'', JStr (k_hash k)), (''enabled'', JBool (k_enabled k)),
       (''models'', JArr (map JStr (k_models k))), (''rpm'', int_json (k_rpm k)), (''tpm'', int_json (k_tpm k)),
       (''max_concurrency'', int_json (k_max_concurrency k)), (''budget_usd'', rat_json (k_budget k)), (''team_id'', id_or_null (k_team k)),
       (''team_budget_usd'', case find_team d (k_team k) of None \<Rightarrow> JUndef | Some t \<Rightarrow> rat_json (t_budget t))]"

definition export_settings :: "db \<Rightarrow> jv list" where
  "export_settings d = map (\<lambda>(k, v). JObj [(''key'', JStr k), (''value'', v)])
     (filter (\<lambda>(k, v). k = ''optimization'' \<or> k = ''webhook'') (settings d))"

definition exportSnapshot :: "(rat \<Rightarrow> string) \<Rightarrow> string \<Rightarrow> db \<Rightarrow> jv" where
  "exportSnapshot numeric now d =
     JObj [(''version'', JNum (Fin 2)), (''exported_at'', JStr now),
       (''providers'', JArr (map export_provider (sort_key p_slug (providers d)))),
       (''accounts'', JArr (export_accounts d)),
       (''models'', JArr (map (export_model d) (sort_key m_alias (aliases d)))),
       (''mappings'', JArr (concat (map (export_mapping numeric d)
          (sort_key (mapping_alias d) (sort_key mm_tier (sort_key mm_position (mappings d))))))),
       (''teams'', JArr (map (export_team numeric) (sort_key t_name (teams d)))),
       (''virtual_keys'', JArr (map (export_key d) (sort_key k_name (vkeys d)))),
       (''routing'', case routing d of None \<Rightarrow> JNull | Some r \<Rightarrow> r),
       (''system_settings'', JArr (export_settings d))]"

section \<open>Backups that are refused\<close>

lemma collect_act_elems:
  assumes "collect_act body vs s = (Inr ys, t)" and "\<And>v s y t. v \<in> set vs \<Longrightarrow> body v s = (Inr y, t) \<Longrightarrow> P y"
  shows "\<forall>y\<in>set ys. P y"
  using assms
proof (induction vs arbitrary: s ys)
  case (Cons v vs)
  then obtain y s1 zs where 1: "body v s = (Inr y, s1)" and 2: "collect_act body vs s1 = (Inr zs, t)" and "ys = y # zs"
    by (auto elim!: bind_act_InrE simp: return_act_apply)
  moreover have "\<forall>z\<in>set zs. P z" using Cons.IH [OF 2] Cons.prems(2) by (meson list.set_intros(2))
  ultimately show ?case using Cons.prems(2) [of v] by auto
qed (simp add: return_act_apply)

lemma import_pool_model: "truthy (get_prop v ''provider_slug'') \<Longrightarrow> import_model env v s = (Inr xs, t) \<Longrightarrow> xs = []"
  by (auto simp: import_model_def then_guard return_act_apply split: if_splits)

lemma unmapped: "import_mapping env [] as v s = (Inr n, t) \<Longrightarrow> n = 0"
  by (auto simp: import_mapping_def latest_def return_act_apply split: if_splits)

lemma import_needs_mapped_model:
  assumes "\<forall>v\<in>set (doc_rows data ''models''). truthy (get_prop v ''provider_slug'')"
  shows "import_models_keys env data teamById accountById s \<noteq> (Inr x, t)"
proof
  assume "import_models_keys env data teamById accountById s = (Inr x, t)"
  then obtain ms counts s1 s2 where m: "collect_act (import_model env) (doc_rows data ''models'') s = (Inr ms, s1)"
    and c: "collect_act (import_mapping env (concat ms) accountById) (doc_rows data ''mappings'') s1 = (Inr counts, s2)"
    and ok: "sum_list counts \<noteq> 0"
    unfolding import_models_keys_def by (elim bind_act_InrE) (auto simp: then_guard split: if_splits)
  have "\<forall>y\<in>set ms. y = []" by (rule collect_act_elems [OF m]) (use assms import_pool_model in blast)
  then have none: "concat ms = []" by simp
  have "\<forall>n\<in>set counts. n = 0" using c unfolding none by (rule collect_act_elems) (rule unmapped)
  with ok show False by (simp add: sum_list_eq_0_iff)
qed

text \<open>The backup of a configuration in which every model is served by a provider pool cannot be imported into any database:
  its models are skipped and the import ends with \<open>no model-account mappings\<close> at the latest, changing nothing.\<close>

theorem pool_backup_refused:
  assumes "\<forall>m\<in>set (aliases d). \<exists>i p. m_provider m = Some i \<and> find_provider i d = Some p \<and> p_slug p \<noteq> []"
  shows "\<exists>e. txOn (importSnapshot env (exportSnapshot numeric now d)) d0 = (Inl e, d0)"
proof -
  let ?doc = "exportSnapshot numeric now d"
  have "\<forall>v\<in>set (doc_rows ?doc ''models''). truthy (get_prop v ''provider_slug'')"
    using assms by (fastforce simp: doc_rows_def exportSnapshot_def arr_of_def export_model_def Let_def text_or_null_def)
  then have no: "import_tables env ?doc s \<noteq> (Inr x, t)" for s x t
    unfolding import_tables_def using import_needs_mapped_model by (auto elim!: bind_act_InrE)
  have "importSnapshot env ?doc d0 \<noteq> (Inr x, t)" for x t
    unfolding importSnapshot_def Let_def then_guard then_modify using no by (auto elim!: then_act_InrE split: if_splits)
  then show ?thesis by (metis txOn_cases)
qed

section \<open>Accounts and credentials survive\<close>

text \<open>Keys drawn during an import are new.\<close>

definition keyed :: "db \<Rightarrow> bool" where
  "keyed d \<longleftrightarrow> distinct (map s_id (secrets d)) \<and> (\<forall>s\<in>set (secrets d). s_id s < next_id d)
     \<and> distinct (map p_id (providers d)) \<and> (\<forall>p\<in>set (providers d). p_id p < next_id d)"

lemma keyed_steps [preserves_intros]:
  "preserves keyed fresh_id" "preserves keyed (insertSecret purpose v)" "preserves keyed (unique_act p index)"
  "preserves keyed (save_setting k v)" "preserves keyed (storeDraft env)" "preserves keyed (audit ac ty rs pl)"
  by (auto simp: preserves_def keyed_def unique_act_def save_setting_def act_simps storeDraft_apply Let_def guard_act_def less_Suc_eq split: sum.split)

lemma keyed_imports [preserves_intros]:
  "preserves keyed (import_team env v)" "preserves keyed (import_secret v)" "preserves keyed (import_model env v)" "preserves keyed (import_key env ts v)"
  "preserves keyed (import_routing env v)" "preserves keyed (insert_mapping v m a)"
  unfolding import_defs insert_mapping_def by (rule preserves_intros | simp add: keyed_def)+

lemma keyed_import_provider [preserves_intros]: "preserves keyed (import_provider env v)"
  by (auto simp: preserves_def import_provider_def then_guard then_unique bind_fresh_id then_modify return_act_apply keyed_def less_Suc_eq)

lemma keyed_import_account [preserves_intros]: "preserves keyed (import_account env slugs v)"
  unfolding import_account_def insert_account_def by (rule preserves_intros | simp add: keyed_def)+

lemma keyed_rest [preserves_intros]: "preserves keyed (import_mapping env ms as v)" "preserves keyed (import_setting v)"
  unfolding import_mapping_def import_setting_def by (auto intro!: preserves_intros split: option.split jv.split)

text \<open>The rows an exported account becomes.\<close>

definition same_columns :: "account_row \<Rightarrow> account_row \<Rightarrow> bool" where
  "same_columns a b \<longleftrightarrow>
     a_name b = a_name a \<and> a_display b = a_display a \<and> a_base_url b = a_base_url a \<and> a_enabled b = a_enabled a
     \<and> a_priority b = a_priority a \<and> a_weight b = a_weight a \<and> a_max_concurrency b = a_max_concurrency a \<and> a_cost b = a_cost a
     \<and> a_metadata b = a_metadata a \<and> a_external b = nonempty (a_external a) \<and> a_email b = nonempty (a_email a)
     \<and> a_plan b = nonempty (a_plan a) \<and> a_expires b = nonempty (a_expires a) \<and> a_revision b = 1"

definition restored :: "db \<Rightarrow> account_row \<Rightarrow> db \<Rightarrow> account_row \<Rightarrow> bool" where
  "restored d a d' b \<longleftrightarrow> same_columns a b
     \<and> map_option p_slug (find_provider (a_provider b) d') = map_option p_slug (find_provider (a_provider a) d)
     \<and> (if is_record (account_credential d a) then account_credential d' b = account_credential d a else a_secret b = None)"

text \<open>The same with the provider and the secret as members of the tables, which later steps only extend.\<close>

definition restored_in :: "db \<Rightarrow> account_row \<Rightarrow> provider_row set \<Rightarrow> secret_row set \<Rightarrow> account_row \<Rightarrow> bool" where
  "restored_in d a P S b \<longleftrightarrow> same_columns a b
     \<and> (\<exists>q\<in>P. p_id q = a_provider b \<and> Some (p_slug q) = map_option p_slug (find_provider (a_provider a) d))
     \<and> (if is_record (account_credential d a)
        then \<exists>i. a_secret b = Some i \<and> \<lparr>s_id = i, s_purpose = ''account_credential'', s_sealed = account_credential d a\<rparr> \<in> S
        else a_secret b = None)"

lemma restored_in_mono: "restored_in d a P S b \<Longrightarrow> S \<subseteq> T \<Longrightarrow> restored_in d a P T b"
  by (auto simp: restored_in_def split: if_splits)

lemma restored_in_keyed:
  assumes "restored_in d a (set (providers d')) (set (secrets d')) b" and "keyed d'"
  shows "restored d a d' b"
proof -
  obtain q where q: "q \<in> set (providers d')" "p_id q = a_provider b" "Some (p_slug q) = map_option p_slug (find_provider (a_provider a) d)"
    using assms(1) by (auto simp: restored_in_def)
  then have "find_provider (a_provider b) d' = Some q"
    using assms(2) find_unique_key [of p_id "providers d'" q] by (simp add: keyed_def find_provider_def)
  moreover have "account_credential d' b = account_credential d a" if "is_record (account_credential d a)"
  proof -
    from that assms(1) obtain i where i: "a_secret b = Some i" "\<lparr>s_id = i, s_purpose = ''account_credential'', s_sealed = account_credential d a\<rparr> \<in> set (secrets d')"
      by (auto simp: restored_in_def)
    then have "find_secret i d' = Some \<lparr>s_id = i, s_purpose = ''account_credential'', s_sealed = account_credential d a\<rparr>"
      using assms(2) find_unique_key [OF _ i(2), of s_id] by (simp add: keyed_def find_secret_def)
    with i(1) show ?thesis by (simp add: account_credential_def [of d' b])
  qed
  ultimately show ?thesis using assms(1) q(3) by (auto simp: restored_def restored_in_def)
qed

lemma int_param_json: "int_param (int_json n) = Inr m \<Longrightarrow> m = n"
  by (auto simp: int_param_def int_json_def split: if_splits)

lemma money_param_json: "money_param (rat_json x) = Inr y \<Longrightarrow> y = numeric6 x"
  by (auto simp: money_param_def rat_json_def split: if_splits)

lemma filled_lookup:
  "lookup_or_undef (filled_member k x @ rest) k = (case nonempty x of None \<Rightarrow> lookup_or_undef rest k | Some s \<Rightarrow> JStr s)"
  by (cases x) (auto simp: filled_member_def member_if_def nonempty_def)

lemma filled_skip: "k \<noteq> k' \<Longrightarrow> lookup_or_undef (filled_member k' x @ rest) k = lookup_or_undef rest k"
  by (auto simp: filled_member_def member_if_def split: option.split)

lemma member_if_skip: "k \<noteq> k' \<Longrightarrow> lookup_or_undef (member_if b k' v @ rest) k = lookup_or_undef rest k"
  by (simp add: member_if_def)

lemmas filled_last = filled_lookup [of k x "[]" for k x, simplified] filled_skip [of k k' x "[]" for k k' x, simplified]

lemma export_account_texts:
  "opt_param env (get_prop (export_account d p a) ''external_account_id'') = nonempty (a_external a)"
  "opt_param env (get_prop (export_account d p a) ''account_email'') = nonempty (a_email a)"
  "opt_param env (get_prop (export_account d p a) ''plan_type'') = nonempty (a_plan a)"
  "opt_param env (get_prop (export_account d p a) ''token_expires_at'') = nonempty (a_expires a)"
  by (simp_all add: export_account_def filled_skip member_if_skip filled_lookup filled_last opt_param_def text_param_def split: option.split)


lemma insert_account_row:
  assumes "insert_account env v sid p d = (Inr x, d')"
  shows "\<exists>b. accounts d' = accounts d @ [b] \<and> secrets d' = secrets d \<and> providers d' = providers d \<and> a_provider b = p \<and> a_secret b = sid
     \<and> a_name b = text_of (get_prop v ''name'') \<and> a_display b = text_param env (coalesce (get_prop v ''display_name'') (get_prop v ''name''))
     \<and> a_base_url b = text_of (get_prop v ''base_url'') \<and> a_enabled b = unless_false (get_prop v ''enabled'')
     \<and> int_param (coalesce (get_prop v ''priority'') (JNum (Fin 1))) = Inr (a_priority b)
     \<and> int_param (coalesce (get_prop v ''weight'') (JNum (Fin 1))) = Inr (a_weight b)
     \<and> int_param (coalesce (get_prop v ''max_concurrency'') (JNum (Fin 100))) = Inr (a_max_concurrency b)
     \<and> money_param (coalesce (get_prop v ''cost'') (JNum (Fin 0))) = Inr (a_cost b)
     \<and> a_metadata b = coalesce (get_prop v ''metadata'') (JObj []) \<and> a_revision b = 1
     \<and> a_external b = opt_param env (get_prop v ''external_account_id'') \<and> a_email b = opt_param env (get_prop v ''account_email'')
     \<and> a_plan b = opt_param env (get_prop v ''plan_type'') \<and> a_expires b = opt_param env (get_prop v ''token_expires_at'')"
  using assms unfolding insert_account_def
  by (elim bind_act_InrE) (auto simp: lift_res_apply then_guard then_unique bind_fresh_id then_modify return_act_apply split: if_splits)

lemma export_account_props:
  "get_prop (export_account d p a) ''name'' = JStr (a_name a)" "get_prop (export_account d p a) ''display_name'' = JStr (a_display a)"
  "get_prop (export_account d p a) ''base_url'' = JStr (a_base_url a)" "get_prop (export_account d p a) ''enabled'' = JBool (a_enabled a)"
  "get_prop (export_account d p a) ''priority'' = int_json (a_priority a)" "get_prop (export_account d p a) ''weight'' = int_json (a_weight a)"
  "get_prop (export_account d p a) ''max_concurrency'' = int_json (a_max_concurrency a)" "get_prop (export_account d p a) ''cost'' = rat_json (a_cost a)"
  "get_prop (export_account d p a) ''metadata'' = a_metadata a" "get_prop (export_account d p a) ''provider_slug'' = JStr (p_slug p)"
  by (simp_all add: export_account_def)

lemma coalesce_json [simp]: "coalesce (int_json n) v = int_json n" "coalesce (rat_json x) v = rat_json x" "coalesce (JStr s) v = JStr s"
  by (simp_all add: coalesce_def int_json_def rat_json_def)

lemma export_account_credential:
  "get_prop (export_account d p a) ''credential'' = (if truthy (account_credential d a) then account_credential d a else JUndef)"
  by (simp add: export_account_def member_if_def filled_member_def split: option.split)


text \<open>What an export needs of a stored account: a provider, a cost in the precision of its column and metadata that are not null.\<close>

definition exportable :: "db \<Rightarrow> account_row \<Rightarrow> bool" where
  "exportable d a \<longleftrightarrow> find_provider (a_provider a) d \<noteq> None \<and> numeric6 (a_cost a) = a_cost a \<and> \<not> nullish (a_metadata a)"

definition offers :: "(string \<times> uuid) list \<Rightarrow> db \<Rightarrow> bool" where
  "offers slugs d \<longleftrightarrow> (\<forall>(slug, i)\<in>set slugs. \<exists>q\<in>set (providers d). p_id q = i \<and> p_slug q = slug)"

lemma import_exported_account:
  assumes run: "import_account env slugs (export_account d p a) s = (Inr x, s')" and p: "find_provider (a_provider a) d = Some p"
    and ok: "exportable d a" and slugs: "offers slugs s"
  shows "\<exists>b. accounts s' = accounts s @ [b] \<and> providers s' = providers s \<and> set (secrets s) \<subseteq> set (secrets s')
     \<and> restored_in d a (set (providers s')) (set (secrets s')) b"
proof -
  let ?v = "export_account d p a"
  obtain sid s1 where sec: "import_secret ?v s = (Inr sid, s1)"
    using run by (auto simp: import_account_def then_guard split: if_splits elim!: bind_act_InrE)
  have prov: "providers s1 = providers s" using sec by (auto simp: import_secret_def act_simps split: if_splits)
  from run sec obtain i where i: "map_of slugs (p_slug p) = Some i" and ins: "insert_account env ?v sid i s1 = (Inr x, s')"
    by (auto simp: import_account_def then_guard bind_act_Inr throw_apply export_account_props split: if_splits option.splits)
  obtain b where b: "accounts s' = accounts s1 @ [b]" "secrets s' = secrets s1" "providers s' = providers s1" "a_provider b = i" "a_secret b = sid"
    and cols: "same_columns a b"
    using insert_account_row [OF ins] ok
    by (auto simp: export_account_props export_account_texts exportable_def same_columns_def text_param_def unless_false_def coalesce_def [of "a_metadata a"]
        dest!: int_param_json money_param_json)
  obtain q where q: "q \<in> set (providers s)" "p_id q = i" "p_slug q = p_slug p"
    using map_of_SomeD [OF i] slugs by (auto simp: offers_def)
  have "if is_record (account_credential d a)
      then \<exists>j. sid = Some j \<and> \<lparr>s_id = j, s_purpose = ''account_credential'', s_sealed = account_credential d a\<rparr> \<in> set (secrets s1) else sid = None"
    using import_secret_Inr [OF sec] by (cases "account_credential d a") (auto simp: export_account_credential split: if_splits)
  with b q p prov cols import_secret_Inr [OF sec] show ?thesis
    by (intro exI [of _ b]) (auto simp: restored_in_def)
qed

lemma collect_exported_accounts:
  assumes "collect_act (import_account env slugs) (concat (map (\<lambda>a. case find_provider (a_provider a) d of None \<Rightarrow> [] | Some p \<Rightarrow> [export_account d p a]) as)) s = (Inr ids, s')"
    and "\<forall>a\<in>set as. exportable d a" and "offers slugs s"
  shows "\<exists>bs. accounts s' = accounts s @ bs \<and> providers s' = providers s \<and> set (secrets s) \<subseteq> set (secrets s')
     \<and> list_all2 (\<lambda>a. restored_in d a (set (providers s')) (set (secrets s'))) as bs"
  using assms
proof (induction as arbitrary: ids s)
  case Nil
  then show ?case by (simp add: return_act_apply)
next
  case (Cons a as)
  obtain p where p: "find_provider (a_provider a) d = Some p" using Cons.prems(2) by (auto simp: exportable_def)
  obtain x s1 ys where 1: "import_account env slugs (export_account d p a) s = (Inr x, s1)"
    and 2: "collect_act (import_account env slugs) (concat (map (\<lambda>a. case find_provider (a_provider a) d of None \<Rightarrow> [] | Some p \<Rightarrow> [export_account d p a]) as)) s1 = (Inr ys, s')"
    using Cons.prems(1) p by (auto elim!: bind_act_InrE simp: return_act_apply)
  obtain b where b: "accounts s1 = accounts s @ [b]" "providers s1 = providers s" "set (secrets s) \<subseteq> set (secrets s1)"
      "restored_in d a (set (providers s1)) (set (secrets s1)) b"
    using import_exported_account [OF 1 p] Cons.prems(2,3) by auto
  moreover have "offers slugs s1" using Cons.prems(3) b(2) by (simp add: offers_def)
  ultimately obtain bs where "accounts s' = accounts s1 @ bs" "providers s' = providers s1" "set (secrets s1) \<subseteq> set (secrets s')"
      "list_all2 (\<lambda>a. restored_in d a (set (providers s')) (set (secrets s'))) as bs"
    using Cons.IH [OF 2] Cons.prems(2) by auto
  with b show ?case by (intro exI [of _ "b # bs"]) (auto intro: restored_in_mono)
qed


text \<open>The steps besides the providers and the accounts leave providers, accounts and secrets alone.\<close>

definition depot :: "provider_row list \<Rightarrow> account_row list \<Rightarrow> secret_row list \<Rightarrow> db \<Rightarrow> bool" where
  "depot ps as ss d \<longleftrightarrow> providers d = ps \<and> accounts d = as \<and> secrets d = ss"

lemma depot_steps [preserves_intros]:
  "preserves (depot ps as ss) fresh_id" "preserves (depot ps as ss) (unique_act p index)"
  "preserves (depot ps as ss) (save_setting k v)" "preserves (depot ps as ss) (storeDraft env)" "preserves (depot ps as ss) (audit ac ty rs pl)"
  by (auto simp: preserves_def depot_def unique_act_def save_setting_def act_simps storeDraft_apply Let_def guard_act_def split: sum.split)

lemma depot_imports [preserves_intros]:
  "preserves (depot ps as ss) (import_team env v)" "preserves (depot ps as ss) (import_model env v)" "preserves (depot ps as ss) (import_key env ts v)"
  "preserves (depot ps as ss) (import_routing env v)" "preserves (depot ps as ss) (insert_mapping v m a)"
  unfolding import_defs insert_mapping_def by (rule preserves_intros | simp add: depot_def)+

lemma depot_rest [preserves_intros]: "preserves (depot ps as ss) (import_mapping env ms bs v)" "preserves (depot ps as ss) (import_setting v)"
  unfolding import_mapping_def import_setting_def by (auto intro!: preserves_intros split: option.split jv.split)

lemma depotD: "preserves (depot (providers d) (accounts d) (secrets d)) m \<Longrightarrow> m d = (r, d') \<Longrightarrow>
    providers d' = providers d \<and> accounts d' = accounts d \<and> secrets d' = secrets d"
  using preservesD [of "depot (providers d) (accounts d) (secrets d)" m d r d'] by (simp add: depot_def)

lemma import_provider_row:
  "import_provider env v d = (Inr (slug, i), d') \<Longrightarrow> \<exists>q. providers d' = providers d @ [q] \<and> p_id q = i \<and> p_slug q = slug \<and> accounts d' = accounts d \<and> secrets d' = secrets d"
  by (auto simp: import_provider_def then_guard then_unique bind_fresh_id then_modify return_act_apply split: if_splits)

lemma collect_providers:
  assumes "collect_act (import_provider env) vs d = (Inr slugs, d')"
  shows "offers slugs d' \<and> accounts d' = accounts d \<and> secrets d' = secrets d \<and> set (providers d) \<subseteq> set (providers d')"
  using assms
proof (induction vs arbitrary: slugs d)
  case (Cons v vs)
  then obtain slug i d1 rest where 1: "import_provider env v d = (Inr (slug, i), d1)" and 2: "collect_act (import_provider env) vs d1 = (Inr rest, d')"
    and slugs: "slugs = (slug, i) # rest"
    by (auto elim!: bind_act_InrE simp: return_act_apply)
  with Cons.IH [OF 2] import_provider_row [OF 1] show ?case by (auto simp: offers_def)
qed (simp add: return_act_apply offers_def)

lemma export_tables_restored:
  assumes run: "import_tables env (exportSnapshot numeric now d) s = (Inr x, t)" and "accounts s = []" and ok: "\<forall>a\<in>set (accounts d). exportable d a"
  shows "list_all2 (\<lambda>a. restored_in d a (set (providers t)) (set (secrets t))) (sort_key a_name (accounts d)) (accounts t)"
proof -
  let ?doc = "exportSnapshot numeric now d"
  obtain slugs ts ids s1 s2 s3 where 1: "collect_act (import_provider env) (doc_rows ?doc ''providers'') s = (Inr slugs, s1)"
    and 2: "collect_act (import_team env) (doc_rows ?doc ''teams'') s1 = (Inr ts, s2)"
    and 3: "collect_act (import_account env (rev slugs)) (doc_rows ?doc ''accounts'') s2 = (Inr ids, s3)"
    and 4: "import_models_keys env ?doc ts ids s3 = (Inr x, t)"
    using run unfolding import_tables_def by (elim bind_act_InrE) (rule that)
  note p1 = collect_providers [OF 1]
  have p2: "providers s2 = providers s1 \<and> accounts s2 = accounts s1 \<and> secrets s2 = secrets s1"
    using 2 by (rule depotD [rotated]) (intro preserves_intros)
  have p4: "providers t = providers s3 \<and> accounts t = accounts s3 \<and> secrets t = secrets s3"
    using 4 by (rule depotD [rotated]) (unfold import_models_keys_def, intro preserves_intros)
  have rows: "doc_rows ?doc ''accounts'' = export_accounts d" by (simp add: doc_rows_def exportSnapshot_def arr_of_def)
  have "offers (rev slugs) s2" using p1 p2 by (simp add: offers_def)
  moreover have "\<forall>a\<in>set (sort_key a_name (accounts d)). exportable d a" using ok by simp
  ultimately show ?thesis
    using collect_exported_accounts [of env "rev slugs" d "sort_key a_name (accounts d)" s2 ids s3] 3 p1 p2 p4 assms(2)
    unfolding rows export_accounts_def by auto
qed



section \<open>Witnesses\<close>

definition demo_pool_db :: db where
  "demo_pool_db = empty_db\<lparr>providers := [sample_provider 1 ''openai-codex''],
     aliases := [\<lparr>m_id = 2, m_alias = ''m'', m_upstream = ''x'', m_provider = Some 1, m_strategy = ''round_robin'', m_enabled = True, m_fallbacks = [],
       m_cache = None, m_cache_ttl = None, m_threshold = None\<rparr>], next_id := 3\<rparr>"

theorem pool_backup_refused_witness:
  "\<exists>e. txOn (importSnapshot demo_transfer (exportSnapshot (\<lambda>_. ''0'') ''now'' demo_pool_db)) empty_db = (Inl e, empty_db)"
  using pool_backup_refused [of demo_pool_db demo_transfer "\<lambda>_. ''0''" "''now''" empty_db]
  by (simp add: demo_pool_db_def find_provider_def sample_provider_def)

definition demo_backup_db :: db where
  "demo_backup_db = empty_db\<lparr>providers := [sample_provider 1 ''openai-compatible''],
     accounts := [(sample_account 2 1 ''a'')\<lparr>a_secret := Some 3, a_plan := Some ''plus''\<rparr>],
     secrets := [\<lparr>s_id = 3, s_purpose = ''account_credential'', s_sealed = JObj [(''api_key'', JStr ''k'')]\<rparr>],
     aliases := [\<lparr>m_id = 4, m_alias = ''m'', m_upstream = ''x'', m_provider = None, m_strategy = ''manual'', m_enabled = False, m_fallbacks = [],
       m_cache = None, m_cache_ttl = None, m_threshold = None\<rparr>],
     mappings := [mapping_of 4 (0, 2)],
     vkeys := [\<lparr>k_id = 5, k_name = ''key'', k_hash = ''h'', k_prefix = ''h'', k_enabled = True, k_models = [], k_rpm = 60, k_tpm = 0, k_max_concurrency = 0,
       k_budget = 0, k_duration = ''day'', k_team = None\<rparr>], next_id := 6\<rparr>"

lemma demo_backup:
  "exportSnapshot (\<lambda>_. ''0'') ''now'' demo_backup_db = JObj [(''version'', num 2), (''exported_at'', JStr ''now''),
     (''providers'', JArr [export_provider (sample_provider 1 ''openai-compatible'')]),
     (''accounts'', JArr [export_account demo_backup_db (sample_provider 1 ''openai-compatible'') ((sample_account 2 1 ''a'')\<lparr>a_secret := Some 3, a_plan := Some ''plus''\<rparr>)]),
     (''models'', JArr [export_model demo_backup_db (hd (aliases demo_backup_db))]),
     (''mappings'', JArr (export_mapping (\<lambda>_. ''0'') demo_backup_db (mapping_of 4 (0, 2)))),
     (''teams'', JArr []), (''virtual_keys'', JArr [export_key demo_backup_db (hd (vkeys demo_backup_db))]), (''routing'', JNull), (''system_settings'', JArr [])]"
  by (simp add: exportSnapshot_def demo_backup_db_def empty_db_def export_accounts_def find_provider_def sample_provider_def sample_account_def export_settings_def)


lemma demo_backup_tables:
  "\<exists>t. import_tables demo_transfer (exportSnapshot (\<lambda>_. ''0'') ''now'' demo_backup_db) (wipe empty_db) = (Inr (), t) \<and> routing t = None \<and> settings t = []
     \<and> filter m_enabled (aliases t) = [] \<and> enabled_keys t \<noteq> []"
  unfolding demo_backup
  by (simp add: import_tables_def import_models_keys_def doc_rows_def arr_of_def import_defs insert_account_def insert_mapping_def
      act_defs fresh_id_def insertSecret_def unique_act_def demo_numbers wipe_def empty_db_def latest_def
      opt_param_def text_param_def db_strategies_def unless_false_def enabled_keys_def export_provider_def export_account_def export_model_def export_mapping_def
      export_key_def sample_provider_def sample_account_def demo_backup_db_def mapping_of_def find_account_def find_secret_def account_credential_def
      id_json_def int_json_def rat_json_def id_or_null_def text_or_null_def member_if_def filled_member_def show_eval coalesce_def)


end
