(* ===== verification/Gateway_Api.thy ===== *)
theory Gateway_Api
  imports Credentials Request_Events Schemas
begin

text \<open>
  The routes the gateways call (\<open>app/api/internal\<close>): the snapshot in its two forms, acknowledgements, heartbeats and request
  reports.  Each first compares the service token and then reads a bounded body.  The bodies of acknowledgements and
  heartbeats are not validated by a schema; a member of another type than the declared one is read as absent.
  The syntax and value of a time and the syntax of a UUID are parameters.
\<close>

record internal_env =
  in_sn :: sn_env
  in_api :: crypto_api
  in_token :: string
  in_time :: "string \<Rightarrow> ms option"
  in_uuid :: "string \<Rightarrow> bool"

record internal_request =
  ir_auth :: "string option"
  ir_gateway :: gateway_request
  ir_version :: "nat option"
  ir_length :: "string option"
  ir_chunks :: "string list"

definition internal_gate :: "internal_env \<Rightarrow> internal_request \<Rightarrow> (db, 'a) act \<Rightarrow> (db, 'a) act" where
  "internal_gate env rq handler = then_act (lift_res (requireInternal (in_api env) (ir_auth rq) (in_token env))) handler"

definition internal_body :: "internal_env \<Rightarrow> internal_request \<Rightarrow> nat \<Rightarrow> (db, jv) act" where
  "internal_body env rq limit = lift_res (readJsonBounded (in_api env) (ir_length rq) (ir_chunks rq) limit)"

section \<open>Snapshots\<close>

definition missing_snapshot :: error where
  "missing_snapshot = ApiError 404 ''not_found'' ''Snapshot not found''"

definition snapshot_GET :: "internal_env \<Rightarrow> internal_request \<Rightarrow> ms \<Rightarrow> (db, envelope) act" where
  "snapshot_GET env rq now =
     internal_gate env rq (bind_act (snapshotEnvelope (in_sn env) (ir_gateway rq) now) (\<lambda>row. case row of
       None \<Rightarrow> throw missing_snapshot | Some e \<Rightarrow> return_act e))"

definition snapshots_GET :: "internal_env \<Rightarrow> internal_request \<Rightarrow> (db, nat \<times> string \<times> jv) act" where
  "snapshots_GET env rq =
     internal_gate env rq (bind_act (\<lambda>d. (runtimeSnapshotFromPublishedRow (in_sn env) (ir_version rq) d, d)) (\<lambda>row. case row of
       None \<Rightarrow> throw missing_snapshot | Some e \<Rightarrow> return_act e))"

section \<open>Acknowledgements\<close>

definition nat_at :: "jv \<Rightarrow> string \<Rightarrow> nat option" where
  "nat_at v k = (case get_prop v k of JNum (Fin x) \<Rightarrow> if is_integer (Fin x) \<and> 0 \<le> x then Some (nat \<lfloor>x\<rfloor>) else None | _ \<Rightarrow> None)"

definition text_at :: "jv \<Rightarrow> string \<Rightarrow> string option" where
  "text_at v k = as_str (get_prop v k)"

text \<open>\<open>a ?? b\<close> and \<open>!a\<close> on optional members.\<close>

definition or_else :: "'x option \<Rightarrow> 'x option \<Rightarrow> 'x option" where
  "or_else a b = (if a = None then b else a)"

definition given_text :: "string option \<Rightarrow> bool" where
  "given_text a \<longleftrightarrow> a \<noteq> None \<and> a \<noteq> Some []"

definition given_nat :: "nat option \<Rightarrow> bool" where
  "given_nat a \<longleftrightarrow> a \<noteq> None \<and> a \<noteq> Some 0"

definition ack_status :: "jv \<Rightarrow> string option" where
  "ack_status body = or_else (text_at body ''status'')
     (case get_prop body ''success'' of JBool b \<Rightarrow> Some (if b then ''adopted'' else ''rejected'') | _ \<Rightarrow> None)"

definition ack_of_body :: "jv \<Rightarrow> ack_input res" where
  "ack_of_body body =
     (let gw = text_at body ''gateway_id''; version = or_else (nat_at body ''config_version'') (nat_at body ''version'');
          status = ack_status body; checksum = or_else (text_at body ''runtime_checksum'') (text_at body ''checksum'');
          v2 = 2 \<le> (case nat_at body ''envelope_version'' of None \<Rightarrow> 1 | Some n \<Rightarrow> n)
      in if \<not> (given_text gw \<and> given_nat version \<and> given_text checksum \<and> given_text status)
         then Inl (ApiError 400 ''validation_failed'' ''gateway_id, version, checksum and success are required'')
         else if v2 \<and> \<not> (given_nat (nat_at body ''schema_version'') \<and> given_text (text_at body ''config_checksum'')
                 \<and> given_text (text_at body ''credential_digest'') \<and> given_text (text_at body ''runtime_checksum''))
         then Inl (ApiError 400 ''validation_failed'' ''v2 acknowledgement identity is incomplete'')
         else Inr \<lparr>ai_gateway = the gw, ai_version = the version, ai_checksum = the checksum, ai_status = the status,
                   ai_error = text_at body ''error'', ai_schema = nat_at body ''schema_version'',
                   ai_config = or_else (text_at body ''config_checksum'') (text_at body ''checksum''),
                   ai_credential = text_at body ''credential_digest'', ai_runtime = text_at body ''runtime_checksum'',
                   ai_envelope = nat_at body ''envelope_version''\<rparr>)"

text \<open>The check constraint of the table on the status.\<close>

definition status_ok :: "string \<Rightarrow> bool" where
  "status_ok s \<longleftrightarrow> s = ''adopted'' \<or> s = ''rejected''"

definition persist_status :: "sn_env \<Rightarrow> ack_input \<Rightarrow> ms \<Rightarrow> (db, unit) act" where
  "persist_status env i now =
     (if status_ok (ai_status i) then persistGatewayAck env i now
      else then_act (\<lambda>d. (check_ack env i d, d)) (throw (DbError ''gateway_config_acks_status_check'')))"

definition gateway_acks_POST :: "internal_env \<Rightarrow> internal_request \<Rightarrow> ms \<Rightarrow> (db, unit) act" where
  "gateway_acks_POST env rq now =
     internal_gate env rq (bind_act (internal_body env rq (64 * 1024)) (\<lambda>body.
       bind_act (lift_res (ack_of_body body)) (\<lambda>i. persist_status (in_sn env) i now)))"

text \<open>The older route inserts without a conflict clause; the columns it leaves out have the defaults of migration 002.\<close>

definition legacy_ack_row :: "string \<Rightarrow> nat \<Rightarrow> string \<Rightarrow> string \<Rightarrow> string option \<Rightarrow> ms \<Rightarrow> ack_row" where
  "legacy_ack_row gw version checksum status err now =
     \<lparr>ak_gateway = gw, ak_version = version, ak_checksum = checksum, ak_status = status, ak_error = err, ak_schema = 1,
      ak_config_checksum = checksum, ak_credential_digest = None, ak_runtime_checksum = checksum, ak_envelope = 1, ak_at = now\<rparr>"

definition insert_legacy_ack :: "ack_row \<Rightarrow> (db, unit) act" where
  "insert_legacy_ack a =
     then_act (guard_act (status_ok (ak_status a)) (DbError ''gateway_config_acks_status_check''))
    (then_act (\<lambda>d. (if list_ex (\<lambda>b. ack_key b = ack_key a) (acks d) then Inl (DbError ''gateway_config_acks_identity_uq'') else Inr (), d))
    (then_act (\<lambda>d. (if list_ex (\<lambda>r. cv_version r = ak_version a) (versions d) then Inr () else Inl (DbError ''gateway_config_acks_version_fkey''), d))
    (modify_act (\<lambda>d. d\<lparr>acks := acks d @ [a]\<rparr>))))"

definition snapshots_POST :: "internal_env \<Rightarrow> internal_request \<Rightarrow> ms \<Rightarrow> (db, unit) act" where
  "snapshots_POST env rq now =
     internal_gate env rq (bind_act (internal_body env rq (64 * 1024)) (\<lambda>body.
       then_act (guard_act (given_text (text_at body ''gateway_id'') \<and> given_nat (nat_at body ''version'') \<and> given_text (text_at body ''checksum'')
            \<and> given_text (text_at body ''status'')) (ApiError 400 ''validation_failed'' ''gateway_id, version, checksum and status are required''))
      (insert_legacy_ack (legacy_ack_row (the (text_at body ''gateway_id'')) (the (nat_at body ''version'')) (the (text_at body ''checksum''))
            (the (text_at body ''status'')) (text_at body ''error'') now))))"

section \<open>Heartbeats\<close>

fun int_value :: "jv \<Rightarrow> int option" where
  "int_value (JNum n) = (case n of Fin x \<Rightarrow> if is_integer (Fin x) then Some \<lfloor>x\<rfloor> else None | _ \<Rightarrow> None)"
| "int_value _ = None"

definition gateway_heartbeats_POST :: "internal_env \<Rightarrow> internal_request \<Rightarrow> ms \<Rightarrow> (db, unit) act" where
  "gateway_heartbeats_POST env rq now =
     internal_gate env rq (bind_act (internal_body env rq (16 * 1024)) (\<lambda>body.
       case (text_at body ''gateway_id'', map_option (\<lambda>vs. all_some (map int_value vs)) (as_arr (get_prop body ''supported_schemas'')),
             int_value (get_prop body ''envelope_version'')) of
         (Some gw, Some (Some schemas), Some e) \<Rightarrow>
            if gw = [] then throw (ApiError 400 ''validation_failed'' ''gateway_id, supported_schemas and envelope_version are required'')
            else upsertGatewayHeartbeat gw schemas e now
       | _ \<Rightarrow> throw (ApiError 400 ''validation_failed'' ''gateway_id, supported_schemas and envelope_version are required'')))"

section \<open>Request reports\<close>

text \<open>\<open>z.object(\<dots>).strict()\<close>.\<close>

definition strict_object :: "(string \<times> schema) list \<Rightarrow> schema" where
  "strict_object shape v = (if list_all (\<lambda>p. fst p \<in> fst ` set shape) (record_of v) then z_object shape v else None)"

definition z_range :: "nat \<Rightarrow> schema" where
  "z_range hi = z_number (\<lambda>x. is_integer (Fin x) \<and> 0 \<le> x \<and> x \<le> rat_of_nat hi)"

definition attempt_shape :: "(string \<times> schema) list" where
  "attempt_shape = [(''account'', z_text 1 (Some 200)), (''adapter'', z_text 1 (Some 100)), (''alias'', z_default (JStr []) (z_text 0 (Some 200))),
     (''status'', z_range 599), (''outcome'', z_enum [''success'', ''rate_limited'', ''upstream_error'', ''saturated'', ''canceled'', ''rejected'',
        ''budget_exceeded'', ''concurrency_limited'']), (''latency_ms'', z_nat), (''cooldown_ms'', z_default (num 0) z_nat)]"

definition nat_of :: "jv \<Rightarrow> string \<Rightarrow> nat" where
  "nat_of v k = (case nat_at v k of None \<Rightarrow> 0 | Some n \<Rightarrow> n)"

definition parse_attempt :: "jv \<Rightarrow> request_attempt option" where
  "parse_attempt v = map_option (\<lambda>w. \<lparr>ra_account = text_of (get_prop w ''account''), ra_adapter = text_of (get_prop w ''adapter''),
      ra_alias = text_of (get_prop w ''alias''), ra_status = nat_of w ''status'', ra_outcome = text_of (get_prop w ''outcome''),
      ra_latency = nat_of w ''latency_ms'', ra_cooldown = nat_of w ''cooldown_ms''\<rparr>) (strict_object attempt_shape v)"

definition z_hex32 :: schema where
  "z_hex32 v = (case v of JStr s \<Rightarrow> if length s = 32 \<and> list_all is_hex s then Some v else None | _ \<Rightarrow> None)"

definition z_past :: "internal_env \<Rightarrow> ms \<Rightarrow> schema" where
  "z_past env now v = (case v of JStr s \<Rightarrow> (case in_time env s of None \<Rightarrow> None | Some t \<Rightarrow> if t \<le> now + 5 * 60 * 1000 then Some v else None) | _ \<Rightarrow> None)"

definition z_key_id :: "internal_env \<Rightarrow> schema" where
  "z_key_id env v = (case v of JStr s \<Rightarrow> if s = [] \<or> in_uuid env s then Some v else None | _ \<Rightarrow> None)"

definition event_shape :: "internal_env \<Rightarrow> ms \<Rightarrow> (string \<times> schema) list" where
  "event_shape env now = [(''request_id'', z_hex32), (''occurred_at'', z_past env now), (''endpoint'', z_enum [''/v1/chat/completions'', ''/v1/responses'']),
     (''public_model'', z_text 1 (Some 300)), (''upstream_model'', z_default (JStr []) (z_text 0 (Some 300))),
     (''virtual_key'', z_default (JStr []) (z_text 0 (Some 200))), (''virtual_key_id'', z_default (JStr []) (z_key_id env)),
     (''cost_usd'', z_default (num 0) z_nonneg), (''streaming'', z_default (JBool False) z_bool), (''config_version'', z_default (num 0) z_nat),
     (''final_status'', z_range 599), (''success'', z_bool), (''total_latency_ms'', z_nat), (''input_tokens'', z_default (num 0) z_nat),
     (''output_tokens'', z_default (num 0) z_nat), (''total_tokens'', z_default (num 0) z_nat), (''attempts'', z_any)]"

definition event_of_json :: "internal_env \<Rightarrow> jv \<Rightarrow> request_attempt list \<Rightarrow> request_event" where
  "event_of_json env w atts =
     \<lparr>re_request = text_of (get_prop w ''request_id''), re_occurred = (case in_time env (text_of (get_prop w ''occurred_at'')) of None \<Rightarrow> 0 | Some t \<Rightarrow> t),
      re_endpoint = text_of (get_prop w ''endpoint''), re_model = text_of (get_prop w ''public_model''), re_upstream = text_of (get_prop w ''upstream_model''),
      re_vkey = text_of (get_prop w ''virtual_key''),
      re_key = (if text_of (get_prop w ''virtual_key_id'') = [] then None else Some (dec_val (text_of (get_prop w ''virtual_key_id'')))),
      re_cost = (case get_prop w ''cost_usd'' of JNum (Fin x) \<Rightarrow> x | _ \<Rightarrow> 0), re_streaming = truthy (get_prop w ''streaming''),
      re_config = nat_of w ''config_version'', re_status = nat_of w ''final_status'', re_success = truthy (get_prop w ''success''),
      re_latency = nat_of w ''total_latency_ms'', re_input = nat_of w ''input_tokens'', re_output = nat_of w ''output_tokens'',
      re_total = nat_of w ''total_tokens'', re_attempts = atts\<rparr>"

definition parse_event :: "internal_env \<Rightarrow> ms \<Rightarrow> jv \<Rightarrow> request_event option" where
  "parse_event env now v =
     (case (strict_object (event_shape env now) v, map_option (\<lambda>vs. (length vs, all_some (map parse_attempt vs))) (as_arr (get_prop v ''attempts''))) of
        (Some w, Some (n, Some as)) \<Rightarrow>
          (let e = event_of_json env w as
           in if n \<le> 32 \<and> re_success e = (200 \<le> re_status e \<and> re_status e < 300) \<and> re_total e = re_input e + re_output e then Some e else None)
      | _ \<Rightarrow> None)"

definition parse_batch :: "internal_env \<Rightarrow> ms \<Rightarrow> jv \<Rightarrow> (string \<times> request_event list) option" where
  "parse_batch env now v =
     (if list_all (\<lambda>p. fst p \<in> set [''gateway_id'', ''events'']) (record_of v)
      then (case (text_at v ''gateway_id'', map_option (\<lambda>vs. (length vs, all_some (map (parse_event env now) vs))) (as_arr (get_prop v ''events''))) of
              (Some gw, Some (n, Some evs)) \<Rightarrow> if gateway_id_ok gw \<and> 1 \<le> n \<and> n \<le> 10 then Some (gw, evs) else None
            | _ \<Rightarrow> None)
      else None)"

definition request_events_POST :: "internal_env \<Rightarrow> internal_request \<Rightarrow> ms \<Rightarrow> (db, nat) act" where
  "request_events_POST env rq now =
     internal_gate env rq (bind_act (internal_body env rq (256 * 1024)) (\<lambda>raw.
       case parse_batch env now raw of
         None \<Rightarrow> throw ZodError
       | Some (claimed, evs) \<Rightarrow>
           bind_act (lift_res (requireGatewayIdentity (gr_id (ir_gateway rq)) claimed)) (\<lambda>gatewayId. storeRequestEvents now gatewayId evs)))"

section \<open>Parsed reports satisfy the schema of the events\<close>

lemma strict_object_get: "strict_object shape v = Some w \<Longrightarrow> distinct (map fst shape) \<Longrightarrow> (k, s) \<in> set shape \<Longrightarrow> s (get_prop v k) = Some (get_prop w k)"
  using z_object_get by (auto simp: strict_object_def split: if_splits)

lemma z_textD: "z_text lo (Some hi) v = Some w \<Longrightarrow> lo \<le> length (text_of w) \<and> length (text_of w) \<le> hi"
  by (cases v) (auto split: if_splits)

lemma z_default_textD: "z_default (JStr []) (z_text 0 (Some hi)) v = Some w \<Longrightarrow> length (text_of w) \<le> hi"
  by (auto simp: z_default_def split: if_splits dest: z_textD)

lemma z_rangeD: "z_range hi (get_prop v k) = Some (get_prop w k) \<Longrightarrow> nat_of w k \<le> hi"
  by (auto simp: z_range_def z_number_def nat_of_def nat_at_def is_integer_def split: jv.splits jsnum.splits if_splits)

lemma z_enumD: "z_enum xs v = Some w \<Longrightarrow> text_of w \<in> set xs"
  by (auto simp: z_enum_def split: if_splits)


lemma parse_attempt_ok:
  assumes "parse_attempt v = Some a" shows "RequestAttemptSchema a"
proof -
  obtain w where w: "strict_object attempt_shape v = Some w" and a: "ra_account a = text_of (get_prop w ''account'')" "ra_adapter a = text_of (get_prop w ''adapter'')"
      "ra_alias a = text_of (get_prop w ''alias'')" "ra_status a = nat_of w ''status''" "ra_outcome a = text_of (get_prop w ''outcome'')"
    using assms by (auto simp: parse_attempt_def)
  have d: "distinct (map fst attempt_shape)" by (simp add: attempt_shape_def)
  note get = strict_object_get [OF w d]
  have "z_text 1 (Some 200) (get_prop v ''account'') = Some (get_prop w ''account'')" "z_text 1 (Some 100) (get_prop v ''adapter'') = Some (get_prop w ''adapter'')"
    "z_default (JStr []) (z_text 0 (Some 200)) (get_prop v ''alias'') = Some (get_prop w ''alias'')" "z_range 599 (get_prop v ''status'') = Some (get_prop w ''status'')"
    "z_enum [''success'', ''rate_limited'', ''upstream_error'', ''saturated'', ''canceled'', ''rejected'', ''budget_exceeded'', ''concurrency_limited'']
       (get_prop v ''outcome'') = Some (get_prop w ''outcome'')"
    by (rule get, simp add: attempt_shape_def)+
  then show ?thesis
    unfolding RequestAttemptSchema_def a by (intro conjI) (auto dest: z_textD z_default_textD z_rangeD z_enumD)
qed

lemma z_hex32D: "z_hex32 v = Some w \<Longrightarrow> length (text_of w) = 32 \<and> list_all is_hex (text_of w)"
  by (auto simp: z_hex32_def split: jv.splits if_splits)

lemma z_pastD: "z_past env now v = Some w \<Longrightarrow> \<exists>t. in_time env (text_of w) = Some t \<and> t \<le> now + 5 * 60 * 1000"
  by (auto simp: z_past_def split: jv.splits if_splits option.splits)

lemma z_costD: "z_default (num 0) z_nonneg v = Some w \<Longrightarrow> 0 \<le> (case w of JNum (Fin x) \<Rightarrow> x | _ \<Rightarrow> 0)"
  by (auto simp: z_default_def z_number_def split: jv.splits jsnum.splits if_splits)

lemma parse_event_ok:
  assumes "parse_event env now v = Some e" shows "RequestEventSchema now e"
proof -
  obtain w vs as where w: "strict_object (event_shape env now) v = Some w" and vs: "all_some (map parse_attempt vs) = Some as" "length vs \<le> 32"
    and e: "e = event_of_json env w as" and c: "re_success e = (200 \<le> re_status e \<and> re_status e < 300)" "re_total e = re_input e + re_output e"
    using assms by (auto simp: parse_event_def Let_def split: option.splits if_splits)
  have d: "distinct (map fst (event_shape env now))" by (simp add: event_shape_def)
  note get = strict_object_get [OF w d]
  have att: "map parse_attempt vs = map Some as" using vs(1) by (simp only: all_some_Some)
  then have "length as \<le> 32" using vs(2) by (metis length_map)
  moreover have "list_all RequestAttemptSchema as"
  proof (unfold list_all_iff, rule ballI)
    fix a assume "a \<in> set as"
    then have "Some a \<in> set (map parse_attempt vs)" unfolding att by simp
    then show "RequestAttemptSchema a" using parse_attempt_ok by (metis (no_types, lifting) imageE list.set_map)
  qed
  moreover have "z_hex32 (get_prop v ''request_id'') = Some (get_prop w ''request_id'')" "z_past env now (get_prop v ''occurred_at'') = Some (get_prop w ''occurred_at'')"
    "z_enum [''/v1/chat/completions'', ''/v1/responses''] (get_prop v ''endpoint'') = Some (get_prop w ''endpoint'')"
    "z_text 1 (Some 300) (get_prop v ''public_model'') = Some (get_prop w ''public_model'')"
    "z_default (JStr []) (z_text 0 (Some 300)) (get_prop v ''upstream_model'') = Some (get_prop w ''upstream_model'')"
    "z_default (JStr []) (z_text 0 (Some 200)) (get_prop v ''virtual_key'') = Some (get_prop w ''virtual_key'')"
    "z_default (num 0) z_nonneg (get_prop v ''cost_usd'') = Some (get_prop w ''cost_usd'')"
    "z_range 599 (get_prop v ''final_status'') = Some (get_prop w ''final_status'')"
    by (rule get, simp add: event_shape_def)+
  ultimately show ?thesis
    using c unfolding RequestEventSchema_def e event_of_json_def
    by (auto dest!: z_hex32D z_pastD z_enumD z_textD z_default_textD z_costD z_rangeD)
qed

lemma parse_batch_ok:
  assumes "parse_batch env now v = Some (gw, evs)" shows "RequestEventBatchSchema now gw evs"
proof -
  obtain vs where vs: "all_some (map (parse_event env now) vs) = Some evs" and n: "gateway_id_ok gw" "1 \<le> length vs" "length vs \<le> 10"
    using assms by (auto simp: parse_batch_def split: option.splits if_splits)
  have eq: "map (parse_event env now) vs = map Some evs" using vs by (simp only: all_some_Some)
  then have "length evs = length vs" by (metis length_map)
  moreover have "list_all (RequestEventSchema now) evs"
  proof (unfold list_all_iff, rule ballI)
    fix e assume "e \<in> set evs"
    then have "Some e \<in> set (map (parse_event env now) vs)" unfolding eq by simp
    then show "RequestEventSchema now e" using parse_event_ok by (metis (no_types, lifting) imageE list.set_map)
  qed
  ultimately show ?thesis using n by (simp add: RequestEventBatchSchema_def)
qed

section \<open>Every route needs the service token\<close>

lemma internal_gate_Inr:
  "internal_gate env rq h d = (Inr x, d') \<longleftrightarrow> requireInternal (in_api env) (ir_auth rq) (in_token env) = Inr () \<and> h d = (Inr x, d')"
  by (auto simp: internal_gate_def then_act_def bind_act_def lift_res_def split: sum.splits)

lemma internal_gate_denied:
  "requireInternal (in_api env) (ir_auth rq) (in_token env) = Inl e \<Longrightarrow> internal_gate env rq h d = (Inl e, d)"
  by (simp add: internal_gate_def then_act_def bind_act_def lift_res_def)


section \<open>Acknowledgements and publication\<close>

lemma latest_ack_unique:
  assumes "a \<in> set (acks d)" and "ak_gateway a = gw" and "\<forall>b\<in>set (acks d). ak_gateway b = gw \<longrightarrow> b = a \<or> ak_at b < ak_at a"
  shows "latest_ack gw d = Some a"
proof -
  let ?f = "\<lambda>a. - ak_at a" and ?xs = "rev (filter (\<lambda>a. ak_gateway a = gw) (acks d))"
  let ?ys = "sort_key ?f ?xs"
  have mem: "a \<in> set ?ys" using assms(1,2) by simp
  then obtain y ys where ys: "?ys = y # ys" by (cases ?ys) auto
  have "sorted (map ?f ?ys)" by (rule sorted_sort_key)
  then have "\<forall>b\<in>set ?ys. ?f y \<le> ?f b" unfolding ys by auto
  with mem have "ak_at a \<le> ak_at y" by fastforce
  moreover have "y \<in> set ?ys" unfolding ys by simp
  then have "y \<in> set (acks d) \<and> ak_gateway y = gw" by simp
  ultimately have "y = a" using assms(3) by force
  then show ?thesis unfolding latest_ack_def ys by simp
qed


lemma all_or_error_Inl: "Inl e \<in> set rs \<Longrightarrow> \<exists>e'. all_or_error rs = Inl e'"
  by (induction rs) (auto split: sum.splits)

lemma gate_closed:
  assumes "g \<in> set (active_gateways env now d)" and "latest_ack (gi_id g) d = Some a" and "ak_envelope a < 2" and "2 \<le> cv_schema row"
  shows "\<exists>e. publish_row env now row d = (Inl e, d)"
proof -
  have "\<exists>e. adopted_v2 d g = Inl e" using assms(2,3) by (simp add: adopted_v2_def)
  then obtain e where "Inl e \<in> set (map (adopted_v2 d) (active_gateways env now d))" using assms(1) by force
  then obtain e' where "all_or_error (map (adopted_v2 d) (active_gateways env now d)) = Inl e'" using all_or_error_Inl by blast
  then have "\<exists>e. assertSchemaV2Publishable env now d = Inl e" by (simp add: assertSchemaV2Publishable_def Let_def)
  with assms(4) show ?thesis by (auto simp: publish_row_def requiresSchemaV2_def then_act_def bind_act_def)
qed

lemma snapshots_POST_row:
  assumes "snapshots_POST env rq now d = (Inr (), d')"
  shows "\<exists>a. d' = d\<lparr>acks := acks d @ [a]\<rparr> \<and> ak_envelope a = 1 \<and> ak_at a = now \<and> \<not> list_ex (\<lambda>b. ack_key b = ack_key a) (acks d)
     \<and> status_ok (ak_status a) \<and> (\<forall>now'. snapshots_POST env rq now' = internal_gate env rq (insert_legacy_ack (a\<lparr>ak_at := now'\<rparr>)))"
proof -
  obtain body where b: "readJsonBounded (in_api env) (ir_length rq) (ir_chunks rq) (64 * 1024) = Inr body"
    using assms unfolding snapshots_POST_def internal_gate_Inr internal_body_def by (auto elim!: bind_act_InrE simp: lift_res_apply)
  let ?ok = "given_text (text_at body ''gateway_id'') \<and> given_nat (nat_at body ''version'') \<and> given_text (text_at body ''checksum'')
            \<and> given_text (text_at body ''status'')"
  let ?row = "\<lambda>t. legacy_ack_row (the (text_at body ''gateway_id'')) (the (nat_at body ''version'')) (the (text_at body ''checksum''))
            (the (text_at body ''status'')) (text_at body ''error'') t"
  have run: "snapshots_POST env rq t = internal_gate env rq (then_act (guard_act ?ok
      (ApiError 400 ''validation_failed'' ''gateway_id, version, checksum and status are required'')) (insert_legacy_ack (?row t)))" for t
    using b by (simp add: snapshots_POST_def internal_body_def bind_act_def lift_res_def)
  have ok: ?ok and ins: "insert_legacy_ack (?row now) d = (Inr (), d')"
    using assms by (auto simp: run internal_gate_Inr then_guard split: if_splits)
  have "then_act (guard_act ?ok e) m = m" for e and m :: "(db, unit) act" using ok by (intro ext) (simp add: then_guard)
  then have "snapshots_POST env rq t = internal_gate env rq (insert_legacy_ack ((?row now)\<lparr>ak_at := t\<rparr>))" for t
    unfolding run by (simp add: legacy_ack_row_def)
  moreover have "d' = d\<lparr>acks := acks d @ [?row now]\<rparr> \<and> \<not> list_ex (\<lambda>b. ack_key b = ack_key (?row now)) (acks d) \<and> status_ok (ak_status (?row now))"
    using ins by (auto simp: insert_legacy_ack_def act_defs split: if_splits)
  ultimately show ?thesis by (intro exI [of _ "?row now"]) (simp add: legacy_ack_row_def)
qed

text \<open>An acknowledgement through the older route blocks publication: while the gateway that sent it counts as active and has sent nothing newer, no
  version of schema 2 can be published; and sending the same acknowledgement again is an error of the
  database instead of an update.\<close>

theorem legacy_acknowledgement_blocks:
  assumes "snapshots_POST env rq now d = (Inr (), d')" and "\<forall>b\<in>set (acks d). ak_at b < now"
  shows "\<exists>gw. (\<forall>g\<in>set (active_gateways (in_sn env) later d'). gi_id g = gw \<longrightarrow>
            (\<forall>row. 2 \<le> cv_schema row \<longrightarrow> (\<exists>e. publish_row (in_sn env) later row d' = (Inl e, d'))))
     \<and> ak_gateway (last (acks d')) = gw \<and> snapshots_POST env rq now' d' = (Inl (DbError ''gateway_config_acks_identity_uq''), d')"
proof -
  obtain a where d': "d' = d\<lparr>acks := acks d @ [a]\<rparr>" and a: "ak_envelope a = 1" "ak_at a = now" "status_ok (ak_status a)"
    and again: "\<And>t. snapshots_POST env rq t = internal_gate env rq (insert_legacy_ack (a\<lparr>ak_at := t\<rparr>))"
    using snapshots_POST_row [OF assms(1)] by blast
  have "latest_ack (ak_gateway a) d' = Some a"
    using assms(2) a(2) by (intro latest_ack_unique) (auto simp: d')
  then have "\<exists>e. publish_row (in_sn env) later row d' = (Inl e, d')"
    if "g \<in> set (active_gateways (in_sn env) later d')" "gi_id g = ak_gateway a" "2 \<le> cv_schema row" for g row
    using gate_closed that a(1) by fastforce
  moreover have "snapshots_POST env rq now' d' = (Inl (DbError ''gateway_config_acks_identity_uq''), d')"
  proof -
    have "requireInternal (in_api env) (ir_auth rq) (in_token env) = Inr ()" using assms(1) by (simp add: snapshots_POST_def internal_gate_Inr)
    moreover have "ack_key (a\<lparr>ak_at := now'\<rparr>) = ack_key a" by (simp add: ack_key_def)
    ultimately show ?thesis using a(3) unfolding again internal_gate_def by (simp add: act_defs insert_legacy_ack_def d')
  qed
  ultimately show ?thesis by (intro exI [of _ "ak_gateway a"]) (auto simp: d')
qed


subsection \<open>From the envelope to an adopted version\<close>

text \<open>The acknowledgement a gateway sends for an envelope it adopted.\<close>

definition ack_json :: "string \<Rightarrow> envelope \<Rightarrow> jv" where
  "ack_json gw e = (case e of
     EnvelopeV2 v sch cc cd rc s \<Rightarrow> JObj [(''gateway_id'', JStr gw), (''config_version'', num (rat_of_nat v)), (''schema_version'', num (rat_of_nat sch)),
       (''config_checksum'', JStr cc), (''credential_digest'', JStr cd), (''runtime_checksum'', JStr rc), (''envelope_version'', num 2), (''success'', JBool True)]
   | LegacyEnvelope v h s \<Rightarrow> JObj [(''gateway_id'', JStr gw), (''config_version'', num (rat_of_nat v)), (''schema_version'', num 1),
       (''config_checksum'', JStr h), (''runtime_checksum'', JStr h), (''envelope_version'', num 1), (''success'', JBool True)])"

lemma ack_of_json:
  assumes "gw \<noteq> []" "0 < v" "0 < sch" "cc \<noteq> []" "cd \<noteq> []" "rc \<noteq> []"
  shows "ack_of_body (ack_json gw (EnvelopeV2 v sch cc cd rc s)) = Inr \<lparr>ai_gateway = gw, ai_version = v, ai_checksum = rc, ai_status = ''adopted'', ai_error = None,
     ai_schema = Some sch, ai_config = Some cc, ai_credential = Some cd, ai_runtime = Some rc, ai_envelope = Some 2\<rparr>"
proof -
  have "is_integer (Fin 2)" by (simp add: is_integer_def)
  with assms show ?thesis
    by (simp add: ack_of_body_def ack_json_def text_at_def nat_at_def ack_status_def or_else_def given_text_def given_nat_def)
qed

lemma persisted_is_latest:
  assumes "persistGatewayAck env i now d = (Inr (), d')" and "control_ok d" and "\<forall>b\<in>set (acks d). ak_at b < now"
  shows "\<exists>a. latest_ack (ai_gateway i) d' = Some a \<and> ack_key a = ack_key (ack_row_of i now)"
  using assms(1)
proof (cases rule: persistGatewayAck_InrE)
  case 1
  let ?new = "ack_row_of i now"
  let ?p = "\<lambda>a. ack_key a = ack_key ?new" and ?f = "\<lambda>a. a\<lparr>ak_error := ai_error i, ak_at := now\<rparr>"
  have gw: "ack_key a = ack_key ?new \<Longrightarrow> ak_gateway a = ai_gateway i" for a by (simp add: ack_key_def ack_row_of_def)
  show ?thesis
  proof (cases "\<exists>x\<in>set (acks d). ?p x")
    case True
    then obtain x where x: "x \<in> set (acks d)" "?p x" by blast
    have acks: "acks d' = update_where ?p ?f (acks d)" using True 1(3) by (simp add: upsert_where_def)
    have only: "y = x" if "y \<in> set (acks d)" "?p y" for y
      using that x assms(2) by (auto simp: control_ok_def distinct_map inj_on_def)
    have "latest_ack (ai_gateway i) d' = Some (?f x)"
    proof (rule latest_ack_unique)
      show "?f x \<in> set (acks d')" unfolding acks update_where_def using x by (auto simp: image_iff intro!: bexI [of _ x])
      show "ak_gateway (?f x) = ai_gateway i" using gw [OF x(2)] by simp
      show "\<forall>b\<in>set (acks d'). ak_gateway b = ai_gateway i \<longrightarrow> b = ?f x \<or> ak_at b < ak_at (?f x)"
      proof (intro ballI impI)
        fix b assume "b \<in> set (acks d')"
        then obtain y where y: "y \<in> set (acks d)" "b = (if ?p y then ?f y else y)" unfolding acks update_where_def by auto
        then show "b = ?f x \<or> ak_at b < ak_at (?f x)" using only [OF y(1)] assms(3) by (cases "?p y") simp_all
      qed
    qed
    moreover have "ack_key (?f x) = ack_key ?new" using x(2) by (simp add: ack_key_def)
    ultimately show ?thesis by blast
  next
    case False
    then have "acks d' = acks d @ [?new]" using 1(3) by (simp add: upsert_where_def)
    then have "latest_ack (ai_gateway i) d' = Some ?new"
      using assms(3) by (intro latest_ack_unique) (auto simp: ack_row_of_def)
    then show ?thesis by blast
  qed
qed


text \<open>C14: the cycle of a gateway works end to end: when it downloads the published configuration in the version 2 envelope and sends the acknowledgement for it
  through the route, the acknowledgement is accepted, the newest of this gateway, and satisfies the check of the gate in front of
  the next publication.\<close>

theorem gateway_cycle:
  assumes "control_ok d" and "distinct (map a_id (accounts d))" and "published_row d = Some r" and "cv_schema r = 2" and "0 < cv_version r"
    and "distinct (map (\<lambda>a. get_prop a ''id'') (arr_of (get_prop (cv_snapshot r) ''accounts'')))"
    and "snapshot_GET env rq now d = (Inr (EnvelopeV2 v sch cc cd rc s), d1)" and "cc \<noteq> []" "cd \<noteq> []" "rc \<noteq> []"
    and "gr_id (ir_gateway rq) = Some gw" and "requireInternal (in_api env) (ir_auth rq2) (in_token env) = Inr ()"
    and "readJsonBounded (in_api env) (ir_length rq2) (ir_chunks rq2) (64 * 1024) = Inr (ack_json gw (EnvelopeV2 v sch cc cd rc s))"
    and "\<forall>b\<in>set (acks d). ak_at b < later"
  shows "\<exists>d2. gateway_acks_POST env rq2 later d1 = (Inr (), d2) \<and> (\<forall>g\<in>set (gateways d2). gi_id g = gw \<longrightarrow> adopted_v2 d2 g = Inr ())"
proof -
  have env: "snapshotEnvelope (in_sn env) (ir_gateway rq) now d = (Inr (Some (EnvelopeV2 v sch cc cd rc s)), d1)"
    using assms(7) unfolding snapshot_GET_def internal_gate_Inr by (auto elim!: bind_act_InrE simp: throw_apply return_act_apply split: option.splits)
  let ?i = "\<lparr>ai_gateway = gw, ai_version = v, ai_checksum = rc, ai_status = ''adopted'', ai_error = None, ai_schema = Some sch, ai_config = Some cc,
      ai_credential = Some cd, ai_runtime = Some rc, ai_envelope = Some 2\<rparr>"
  obtain d2 where p: "persistGatewayAck (in_sn env) ?i later d1 = (Inr (), d2)"
    using envelope_can_be_acknowledged [OF assms(1,2) env assms(3,4,6), of rc "''adopted''" None later] assms(11) by auto
  obtain gs where d1: "d1 = d\<lparr>gateways := gs\<rparr>" and cap: "v2_capable (Some gw) d1" and ne: "gw \<noteq> []"
    and be: "build_envelope (in_sn env) True r d1 = Inr (EnvelopeV2 v sch cc cd rc s)"
    using snapshotEnvelope_v2E [OF env] assms(3,11) by (metis option.inject)
  have ids: "v = cv_version r" "sch = 2"
    using be assms(4) by (auto simp: build_envelope_def split: sum.splits if_splits)
  have ok1: "control_ok d1"
    using snapshotEnvelope_state [of "in_sn env" "ir_gateway rq" now d] heartbeat_control_ok [OF assms(1)] assms(1) env by (metis snd_conv)
  have "ack_of_body (ack_json gw (EnvelopeV2 v sch cc cd rc s)) = Inr ?i"
    using assms(5,8,9,10) ids ne by (intro ack_of_json) simp_all
  then have "gateway_acks_POST env rq2 later d1 = (Inr (), d2)"
    using p assms(12,13) unfolding gateway_acks_POST_def internal_gate_Inr internal_body_def
    by (simp add: bind_act_def lift_res_def persist_status_def status_ok_def)
  moreover have "adopted_v2 d2 g = Inr ()" if "g \<in> set (gateways d2)" "gi_id g = gw" for g
  proof -
    have "gateways d2 = gateways d1" using p by (cases rule: persistGatewayAck_InrE) simp
    with that ok1 have "find (\<lambda>h. gi_id h = gw) (gateways d1) = Some g"
      using find_unique_key [of gi_id "gateways d1" g] by (simp add: control_ok_def)
    then have g: "2 \<le> gi_envelope g" "2 \<in> set (gi_schemas g)" using cap by (simp_all add: v2_capable_def)
    have "\<forall>b\<in>set (acks d1). ak_at b < later" using assms(14) d1 by simp
    then obtain a where "latest_ack gw d2 = Some a" "ack_key a = ack_key (ack_row_of ?i later)"
      using persisted_is_latest [OF p ok1] by auto
    then show ?thesis using g that(2) ids by (auto simp: adopted_v2_def ack_key_def ack_row_of_def)
  qed
  ultimately show ?thesis by blast
qed


section \<open>Witnesses\<close>

definition demo_internal :: "jv \<Rightarrow> internal_env" where
  "demo_internal body = \<lparr>in_sn = demo_sn, in_api = demo_api\<lparr>parseJson := (\<lambda>_. Some body)\<rparr>, in_token = ''t'', in_time = (\<lambda>_. Some 0), in_uuid = (\<lambda>_. True)\<rparr>"

definition demo_call :: "string \<Rightarrow> internal_request" where
  "demo_call token = \<lparr>ir_auth = Some token, ir_gateway = \<lparr>gr_id = Some ''gw'', gr_schemas = None, gr_envelope = None\<rparr>, ir_version = None, ir_length = None,
     ir_chunks = [''x'']\<rparr>"

lemma demo_admission: "requireInternal (in_api (demo_internal body)) (ir_auth (demo_call ''t'')) (in_token (demo_internal body)) = Inr ()"
  and demo_denial: "\<exists>e. requireInternal (in_api (demo_internal body)) (ir_auth (demo_call ''s'')) (in_token (demo_internal body)) = Inl e"
  by (simp_all add: requireInternal_def demo_internal_def demo_call_def demo_api_def strip_bearer_def toLowerCase_def char_class_defs)

lemma demo_read: "0 < m \<Longrightarrow> readJsonBounded (in_api (demo_internal body)) (ir_length (demo_call t)) (ir_chunks (demo_call t)) m = Inr body"
  by (simp add: readJsonBounded_def demo_call_def length_guard_def demo_internal_def)

definition demo_report :: jv where
  "demo_report = JObj [(''gateway_id'', JStr ''gw''), (''events'', JArr [JObj [(''request_id'', JStr ''00000000000000000000000000000000''), (''occurred_at'', JStr ''now''),
     (''endpoint'', JStr ''/v1/responses''), (''public_model'', JStr ''m''), (''final_status'', num 500), (''success'', JBool False), (''total_latency_ms'', num 1),
     (''attempts'', JArr [])]])]"

definition demo_event :: request_event where
  "demo_event = \<lparr>re_request = ''00000000000000000000000000000000'', re_occurred = 0, re_endpoint = ''/v1/responses'', re_model = ''m'', re_upstream = [], re_vkey = [],
     re_key = None, re_cost = 0, re_streaming = False, re_config = 0, re_status = 500, re_success = False, re_latency = 1, re_input = 0, re_output = 0,
     re_total = 0, re_attempts = []\<rparr>"

lemma demo_integers: "is_integer (Fin 500)" "is_integer (Fin 1)" "is_integer (Fin 0)"
  by (simp_all add: is_integer_def)

lemma demo_batch: "parse_batch (demo_internal demo_report) 9 demo_report = Some (''gw'', [demo_event])"
  by (simp add: parse_batch_def parse_event_def demo_report_def strict_object_def event_shape_def z_object_def z_hex32_def z_past_def z_enum_def z_default_def z_range_def
      z_number_def z_any_def text_at_def demo_internal_def event_of_json_def nat_of_def nat_at_def demo_integers gateway_id_ok_def demo_event_def is_hex_def
      char_class_defs)

lemma demo_report_stored: "\<exists>d'. request_events_POST (demo_internal demo_report) (demo_call ''t'') 9 empty_db = (Inr 1, d')"
proof -
  have "\<exists>d'. storeRequestEvents 9 ''gw'' [demo_event] empty_db = (Inr 1, d')"
    by (simp add: storeRequestEvents_def store_body_def insert_event_def demo_event_def empty_db_def drop_old_events_def act_defs fresh_id_def txOn_def)
  moreover have "requireGatewayIdentity (gr_id (ir_gateway (demo_call ''t''))) ''gw'' = Inr ''gw''"
    by (simp add: requireGatewayIdentity_def demo_call_def gateway_header_ok_def char_class_defs)
  ultimately show ?thesis
    unfolding request_events_POST_def internal_gate_Inr internal_body_def
    by (simp add: demo_admission demo_read demo_batch bind_act_def lift_res_def)
qed



definition demo_old_ack :: jv where
  "demo_old_ack = JObj [(''gateway_id'', JStr ''gw''), (''version'', num 1), (''checksum'', JStr ''c''), (''status'', JStr ''adopted'')]"

lemma demo_old_ack_stored: "\<exists>d'. snapshots_POST (demo_internal demo_old_ack) (demo_call ''t'') 9 (demo_fleet\<lparr>acks := []\<rparr>) = (Inr (), d')"
  unfolding snapshots_POST_def internal_gate_Inr internal_body_def
  by (simp add: demo_admission demo_read bind_act_def lift_res_def then_guard insert_legacy_ack_def act_defs)
     (simp add: demo_old_ack_def text_at_def nat_at_def given_text_def given_nat_def demo_integers legacy_ack_row_def status_ok_def demo_fleet_def demo_version_def)

theorem legacy_acknowledgement_blocks_witness:
  "\<exists>d'. snapshots_POST (demo_internal demo_old_ack) (demo_call ''t'') 9 (demo_fleet\<lparr>acks := []\<rparr>) = (Inr (), d')
     \<and> snapshots_POST (demo_internal demo_old_ack) (demo_call ''t'') 10 d' = (Inl (DbError ''gateway_config_acks_identity_uq''), d')"
proof -
  obtain d' where run: "snapshots_POST (demo_internal demo_old_ack) (demo_call ''t'') 9 (demo_fleet\<lparr>acks := []\<rparr>) = (Inr (), d')"
    using demo_old_ack_stored by blast
  have "\<forall>b\<in>set (acks (demo_fleet\<lparr>acks := []\<rparr>)). ak_at b < 9" by simp
  from legacy_acknowledgement_blocks [OF run this, of 10 10] run show ?thesis by blast
qed

lemma canonical_nonempty: "canonicalJson (\<lambda>_. ''1'') v = Inr t \<Longrightarrow> t \<noteq> []"
  by (cases v) (auto simp: json_string_def split: sum.splits jsnum.splits if_splits)

theorem gateway_cycle_witness:
  "\<exists>body cd rc s d1 d2. snapshot_GET (demo_internal body) (demo_call ''t'') 5 demo_fleet = (Inr (EnvelopeV2 1 2 ''c'' cd rc s), d1)
     \<and> gateway_acks_POST (demo_internal body) (demo_call ''t'') 6 d1 = (Inr (), d2)
     \<and> (\<forall>g\<in>set (gateways d2). gi_id g = ''gw'' \<longrightarrow> adopted_v2 d2 g = Inr ())"
proof -
  obtain cd rc s d1 where e: "snapshotEnvelope demo_sn \<lparr>gr_id = Some ''gw'', gr_schemas = None, gr_envelope = None\<rparr> 5 demo_fleet
     = (Inr (Some (EnvelopeV2 1 2 ''c'' cd rc s)), d1)"
    using demo_envelope by blast
  let ?body = "ack_json ''gw'' (EnvelopeV2 1 2 ''c'' cd rc s)"
  have get: "snapshot_GET (demo_internal ?body) (demo_call ''t'') 5 demo_fleet = (Inr (EnvelopeV2 1 2 ''c'' cd rc s), d1)"
    unfolding snapshot_GET_def internal_gate_Inr using e demo_admission
    by (simp add: bind_act_def demo_call_def demo_internal_def return_act_apply)
  have p: "published_row demo_fleet = Some (demo_version 1 Published)" "cv_schema (demo_version 1 Published) = 2" "0 < cv_version (demo_version 1 Published)"
      "distinct (map (\<lambda>a. get_prop a ''id'') (arr_of (get_prop (cv_snapshot (demo_version 1 Published)) ''accounts'')))" "distinct (map a_id (accounts demo_fleet))"
    by (simp_all add: published_row_def demo_fleet_def demo_version_def empty_db_def arr_of_def)
  have ne: "cd \<noteq> []" "rc \<noteq> []"
  proof -
    obtain r where "build_envelope demo_sn True r d1 = Inr (EnvelopeV2 1 2 ''c'' cd rc s)" using snapshotEnvelope_v2E [OF e] by blast
    then have "sha256Canonical (sn_digest demo_sn) s = Inr rc" "credentialDigestFromDeclarative demo_sn s = Inr cd"
      by (auto simp: build_envelope_def split: sum.splits if_splits)
    then show "cd \<noteq> []" "rc \<noteq> []"
      using canonical_nonempty by (auto simp: credentialDigestFromDeclarative_def sha256Canonical_def demo_sn_def simp del: canonicalJson.simps split: sum.splits)
  qed
  have "\<forall>b\<in>set (acks demo_fleet). ak_at b < 6" by (simp add: demo_fleet_def demo_ack_def)
  moreover have "gr_id (ir_gateway (demo_call ''t'')) = Some ''gw''" by (simp add: demo_call_def)
  ultimately obtain d2 where "gateway_acks_POST (demo_internal ?body) (demo_call ''t'') 6 d1 = (Inr (), d2)"
      "\<forall>g\<in>set (gateways d2). gi_id g = ''gw'' \<longrightarrow> adopted_v2 d2 g = Inr ()"
    using gateway_cycle [OF demo_fleet_ok p(5) p(1) p(2) p(3) p(4) get _ ne _ demo_admission demo_read, where later = 6] by auto
  with get show ?thesis by blast
qed

end
