(* ===== verification/Background.thy ===== *)
theory Background
  imports Discovery Quota_Reset Billing
begin

text \<open>
  What the server does on its own: the probe of every account's credentials (\<open>lib/credential-prober.ts\<close>) and the timers that start it, the model
  discovery and the reconciliation of balances (\<open>lib/credential-prober-scheduler.ts\<close>, \<open>lib/discovery-scheduler.ts\<close>,
  \<open>lib/balance.ts\<close>, \<open>instrumentation.ts\<close>).  A timer loop is a state machine whose events are a timer that fires, a run that
  ends and a call of \<open>stop\<close>; a run is in flight between the event that started it and the one that ends it,
  and the events of the loop interleave in any order.
\<close>

section \<open>The credential probe\<close>

record probe_result =
  pb_account :: uuid
  pb_name :: string
  pb_error :: "string option"

fun raw_message :: "error \<Rightarrow> string" where
  "raw_message (ApiError st c m) = m"
| "raw_message (JsError m) = m"
| "raw_message (DbError m) = m"
| "raw_message ZodError = []"

definition probe_message :: "error \<Rightarrow> string" where
  "probe_message e = take 512 (strip_ctrl (raw_message e))"

text \<open>\<open>INSERT INTO account_provider_state \<dots> ON CONFLICT (account_id) DO UPDATE\<close>.\<close>

definition noted :: "uuid \<Rightarrow> (string \<times> string) option \<Rightarrow> pstate_row list \<Rightarrow> pstate_row list" where
  "noted i failure =
     (let note = (\<lambda>p. p\<lparr>ps_last_operation := Some ''credential.probe'', ps_error_code := map_option fst failure, ps_error_message := map_option snd failure\<rparr>)
      in upsert_where (\<lambda>p. ps_account p = i) note (note (no_pstate i)))"

definition note_probe :: "uuid \<Rightarrow> (string \<times> string) option \<Rightarrow> (db, unit) act" where
  "note_probe i failure = modify_act (\<lambda>d. d\<lparr>pstates := noted i failure (pstates d)\<rparr>)"

definition probeAccountCredentials :: "(uuid \<Rightarrow> db \<Rightarrow> jv res) \<Rightarrow> uuid \<Rightarrow> (db, probe_result) act" where
  "probeAccountCredentials dispatch i =
     bind_act (gets_act (\<lambda>d. find (\<lambda>a. a_id a = i \<and> a_enabled a) (accounts d))) (\<lambda>account. case account of
       None \<Rightarrow> throw (ApiError 404 ''account_not_found'' ''Enabled account not found'')
     | Some a \<Rightarrow>
        bind_act (gets_act (dispatch i)) (\<lambda>answer. case answer of
          Inr _ \<Rightarrow>
            then_act (note_probe i None)
           (then_act (audit ''credential.probe'' ''account'' (Some (show_nat i)) (JObj [(''status'', JStr ''succeeded'')]))
           (return_act \<lparr>pb_account = i, pb_name = a_name a, pb_error = None\<rparr>))
        | Inl e \<Rightarrow>
            then_act (note_probe i (Some (safeError e, probe_message e)))
           (then_act (audit ''credential.probe'' ''account'' (Some (show_nat i))
              (JObj [(''status'', JStr ''failed''), (''error_code'', JStr (safeError e))]))
           (return_act \<lparr>pb_account = i, pb_name = a_name a, pb_error = Some (safeError e)\<rparr>))))"

fun probe_each :: "(uuid \<Rightarrow> db \<Rightarrow> jv res) \<Rightarrow> uuid list \<Rightarrow> (db, probe_result list) act" where
  "probe_each dispatch [] = return_act []"
| "probe_each dispatch (i # is) =
     bind_act (probeAccountCredentials dispatch i) (\<lambda>r. bind_act (probe_each dispatch is) (\<lambda>rs. return_act (r # rs)))"

definition enabled_by_name :: "db \<Rightarrow> account_row list" where
  "enabled_by_name d = sort_key a_name (filter a_enabled (accounts d))"

definition probeAllAccounts :: "(uuid \<Rightarrow> db \<Rightarrow> jv res) \<Rightarrow> (db, probe_result list) act" where
  "probeAllAccounts dispatch =
     bind_act (gets_act (\<lambda>d. map a_id (enabled_by_name d))) (probe_each dispatch)"

text \<open>The default \<open>dispatch\<close>, with the time of each call.\<close>

definition probe_dispatch :: "gateway_api \<Rightarrow> (uuid \<Rightarrow> ms) \<Rightarrow> uuid \<Rightarrow> db \<Rightarrow> jv res" where
  "probe_dispatch gw now i d = dispatchProviderOperation gw i ValidateCredentials (JObj [])
     (''credential-probe:'' @ show_nat i @ '':'' @ show_nat (nat (now i))) d"

section \<open>Timers\<close>

text \<open>\<open>setTimeout\<close> and \<open>setInterval\<close> use a delay of 1 for one that is smaller than 1, greater than 2147483647 or not a number, and drop fractions.\<close>

definition timer_delay :: "jsnum \<Rightarrow> ms" where
  "timer_delay n = (case n of Fin x \<Rightarrow> if 1 \<le> x \<and> x \<le> 2147483647 then \<lfloor>x\<rfloor> else 1 | _ \<Rightarrow> 1)"

datatype timer = NoTimer | Initial ms | Every ms

record ticker =
  tk_timer :: timer
  tk_running :: bool
  tk_stopped :: bool
  tk_started :: nat
  tk_log :: "string list"

datatype 'r tick_event = Fire | Finish "error + 'r" ms | Stop

definition tick :: "ticker \<Rightarrow> ticker" where
  "tick s = (if tk_running s \<or> tk_stopped s then s else s\<lparr>tk_running := True, tk_started := Suc (tk_started s)\<rparr>)"

text \<open>An event that cannot happen in a state has no successor.  Times are those of the next call.\<close>

fun tick_step :: "('r \<Rightarrow> ms \<Rightarrow> string) \<Rightarrow> string \<Rightarrow> ms \<Rightarrow> 'r tick_event \<Rightarrow> ticker \<Rightarrow> ticker option" where
  "tick_step report failed interval Fire s =
     (case tk_timer s of
        NoTimer \<Rightarrow> None
      | Initial t \<Rightarrow> Some (tick (s\<lparr>tk_timer := Every (t + interval)\<rparr>))
      | Every t \<Rightarrow> Some (tick (s\<lparr>tk_timer := Every (t + interval)\<rparr>)))"
| "tick_step report failed interval (Finish outcome elapsed) s =
     (if tk_running s
      then Some (s\<lparr>tk_running := False, tk_log := tk_log s @
        [case outcome of Inr r \<Rightarrow> report r elapsed | Inl e \<Rightarrow> failed @ take 300 (strip_ctrl (raw_message e))]\<rparr>)
      else None)"
| "tick_step report failed interval Stop s = Some (s\<lparr>tk_stopped := True, tk_timer := NoTimer\<rparr>)"

definition start_ticker :: "ms \<Rightarrow> jsnum \<Rightarrow> ticker" where
  "start_ticker now delay = \<lparr>tk_timer = Initial (now + timer_delay delay), tk_running = False, tk_stopped = False, tk_started = 0, tk_log = []\<rparr>"

definition or_given :: "jsnum option \<Rightarrow> rat \<Rightarrow> jsnum" where
  "or_given v x = (case v of None \<Rightarrow> Fin x | Some n \<Rightarrow> n)"

definition probe_report :: "probe_result list \<Rightarrow> ms \<Rightarrow> string" where
  "probe_report rs elapsed = ''credential probe: '' @ show_nat (length rs) @ '' accounts, ''
     @ show_nat (length (filter (\<lambda>r. pb_error r \<noteq> None) rs)) @ '' failed, '' @ show_nat (nat elapsed) @ ''ms''"

definition discovery_report :: "discovery_result list \<Rightarrow> ms \<Rightarrow> string" where
  "discovery_report rs elapsed = ''auto-discovery: '' @ show_nat (length rs) @ '' accounts, ''
     @ show_nat (length (filter succeeded rs)) @ '' ok, '' @ show_nat (nat elapsed) @ ''ms''"

definition startCredentialProber :: "jsnum option \<Rightarrow> ms \<Rightarrow> ticker" where
  "startCredentialProber initialDelay now = start_ticker now (or_given initialDelay (90 * 1000))"

definition prober_step :: "jsnum option \<Rightarrow> probe_result list tick_event \<Rightarrow> ticker \<Rightarrow> ticker option" where
  "prober_step interval = tick_step probe_report ''credential probe failed: '' (timer_delay (or_given interval (6 * 60 * 60 * 1000)))"

definition startDiscoveryScheduler :: "jsnum option \<Rightarrow> ms \<Rightarrow> ticker" where
  "startDiscoveryScheduler initialDelay now = start_ticker now (or_given initialDelay (60 * 1000))"

definition discovery_step :: "jsnum option \<Rightarrow> discovery_result list tick_event \<Rightarrow> ticker \<Rightarrow> ticker option" where
  "discovery_step interval = tick_step discovery_report ''auto-discovery failed: '' (timer_delay (or_given interval (6 * 60 * 60 * 1000)))"

subsection \<open>The reconciler of balances\<close>

text \<open>It starts at once and sets the next timer when a run has ended; an interval that is not positive disables it.\<close>

record reconciler =
  rc_due :: "ms option"
  rc_running :: bool
  rc_stopped :: bool
  rc_started :: nat
  rc_finished :: nat

datatype reconciler_event = Due | Done ms | StopReconciler

fun reconciler_step :: "jsnum \<Rightarrow> reconciler_event \<Rightarrow> reconciler \<Rightarrow> reconciler option" where
  "reconciler_step interval Due s =
     (if rc_due s \<noteq> None
      then Some (if rc_stopped s then s\<lparr>rc_due := None\<rparr> else s\<lparr>rc_due := None, rc_running := True, rc_started := Suc (rc_started s)\<rparr>)
      else None)"
| "reconciler_step interval (Done now) s =
     (if rc_running s
      then Some (s\<lparr>rc_running := False, rc_due := (if rc_stopped s then None else Some (now + timer_delay interval)), rc_finished := Suc (rc_finished s)\<rparr>)
      else None)"
| "reconciler_step interval StopReconciler s = Some (s\<lparr>rc_stopped := True, rc_due := None\<rparr>)"

definition startBalanceReconciler :: "jsnum \<Rightarrow> reconciler option" where
  "startBalanceReconciler intervalMs =
     (if is_finite intervalMs \<and> num_positive intervalMs
      then Some \<lparr>rc_due = None, rc_running = True, rc_stopped = False, rc_started = 1, rc_finished = 0\<rparr>
      else None)"

subsection \<open>Wiring\<close>

text \<open>\<open>Number(process.env.X ?? 0) || undefined\<close>; the balances read their interval without a default of 0.\<close>

definition env_interval :: "string option \<Rightarrow> jsnum option" where
  "env_interval v = (let n = (case v of None \<Rightarrow> Fin 0 | Some s \<Rightarrow> js_number s) in if n = NaN \<or> n = Fin 0 then None else Some n)"

definition balance_interval :: "string option \<Rightarrow> jsnum" where
  "balance_interval v = (case v of None \<Rightarrow> Fin (24 * 3600000) | Some s \<Rightarrow> js_number s)"

record jobs =
  jb_discovery :: "ticker option"
  jb_prober :: "ticker option"
  jb_reconciler :: "reconciler option"

definition register :: "(string \<Rightarrow> string option) \<Rightarrow> ms \<Rightarrow> jobs" where
  "register env now =
     (if env ''NEXT_RUNTIME'' \<noteq> Some ''nodejs'' then \<lparr>jb_discovery = None, jb_prober = None, jb_reconciler = None\<rparr>
      else \<lparr>jb_discovery = Some (startDiscoveryScheduler (env_interval (env ''MODEL_DISCOVERY_INITIAL_DELAY_MS'')) now),
            jb_prober = (if env ''CREDENTIAL_PROBE_DISABLED'' = Some ''1'' then None
              else Some (startCredentialProber (env_interval (env ''CREDENTIAL_PROBE_INITIAL_DELAY_MS'')) now)),
            jb_reconciler = startBalanceReconciler (balance_interval (env ''BALANCE_RECONCILE_INTERVAL_MS''))\<rparr>)"

section \<open>What every job promises\<close>

inductive job_run :: "('e \<Rightarrow> 's \<Rightarrow> 's option) \<Rightarrow> 's \<Rightarrow> 's \<Rightarrow> bool" for step where
  job_refl: "job_run step s s"
| job_next: "job_run step s t \<Longrightarrow> step e t = Some u \<Longrightarrow> job_run step s u"

locale background_job =
  fixes step :: "'e \<Rightarrow> 's \<Rightarrow> 's option" and inv :: "'s \<Rightarrow> bool" and running :: "'s \<Rightarrow> bool" and stopped :: "'s \<Rightarrow> bool"
    and started :: "'s \<Rightarrow> nat" and finished :: "'s \<Rightarrow> nat"
  assumes keeps_inv: "step e s = Some t \<Longrightarrow> inv s \<Longrightarrow> inv t"
    and accounted: "inv s \<Longrightarrow> started s = finished s + of_bool (running s)"
    and stays_stopped: "step e s = Some t \<Longrightarrow> inv s \<Longrightarrow> stopped s \<Longrightarrow> stopped t \<and> started t = started s"
    and starts_when_idle: "step e s = Some t \<Longrightarrow> inv s \<Longrightarrow> started t \<noteq> started s \<Longrightarrow> started t = Suc (started s) \<and> \<not> running s \<and> \<not> stopped s"
begin

lemma reachable_inv: "job_run step s t \<Longrightarrow> inv s \<Longrightarrow> inv t"
  by (induction rule: job_run.induct) (auto intro: keeps_inv)

lemma one_run: "job_run step s t \<Longrightarrow> inv s \<Longrightarrow> started t = finished t + of_bool (running t)"
  using reachable_inv accounted by blast

lemma quiet_after_stop:
  assumes "job_run step s t" and "inv s" and "stopped s"
  shows "stopped t \<and> started t = started s"
  using assms
proof (induction rule: job_run.induct)
  case (job_next s t e u)
  then show ?case using stays_stopped [of e t u] reachable_inv by metis
qed simp

lemma runs_between: "job_run step s t \<Longrightarrow> inv s \<Longrightarrow> started s \<le> started t"
proof (induction rule: job_run.induct)
  case (job_next s t e u)
  then show ?case using starts_when_idle [of e t u] reachable_inv by (cases "started u = started t") fastforce+
qed simp

end

definition ticker_ok :: "ticker \<Rightarrow> bool" where
  "ticker_ok s \<longleftrightarrow> tk_started s = length (tk_log s) + of_bool (tk_running s) \<and> (tk_stopped s \<longrightarrow> tk_timer s = NoTimer)"

lemma tick_step_laws:
  assumes "tick_step report failed interval e s = Some t" and "ticker_ok s"
  shows "ticker_ok t" and "tk_stopped s \<Longrightarrow> tk_stopped t \<and> tk_started t = tk_started s"
    and "tk_started t \<noteq> tk_started s \<Longrightarrow> tk_started t = Suc (tk_started s) \<and> \<not> tk_running s \<and> \<not> tk_stopped s"
  using assms by (cases e; auto simp: ticker_ok_def tick_def split: timer.splits if_splits)+

lemma ticker_job: "background_job (tick_step report failed interval) ticker_ok tk_running tk_stopped tk_started (\<lambda>s. length (tk_log s))"
proof
  fix s :: ticker and e t
  assume run: "tick_step report failed interval e s = Some t" "ticker_ok s"
  show "ticker_ok t" using run by (rule tick_step_laws(1))
  show "tk_stopped s \<Longrightarrow> tk_stopped t \<and> tk_started t = tk_started s" using run by (rule tick_step_laws(2))
  show "tk_started t \<noteq> tk_started s \<Longrightarrow> tk_started t = Suc (tk_started s) \<and> \<not> tk_running s \<and> \<not> tk_stopped s" using run by (rule tick_step_laws(3))
qed (simp add: ticker_ok_def)

interpretation prober: background_job "prober_step interval" ticker_ok tk_running tk_stopped tk_started "\<lambda>s. length (tk_log s)" for interval
  unfolding prober_step_def by (rule ticker_job)

interpretation discovery: background_job "discovery_step interval" ticker_ok tk_running tk_stopped tk_started "\<lambda>s. length (tk_log s)" for interval
  unfolding discovery_step_def by (rule ticker_job)

definition reconciler_ok :: "reconciler \<Rightarrow> bool" where
  "reconciler_ok s \<longleftrightarrow> rc_started s = rc_finished s + of_bool (rc_running s) \<and> (rc_running s \<or> rc_stopped s \<longrightarrow> rc_due s = None)"

interpretation reconciler: background_job "reconciler_step interval" reconciler_ok rc_running rc_stopped rc_started rc_finished for interval
proof
  fix e s t assume "reconciler_step interval e s = Some t" "reconciler_ok s"
  then show "reconciler_ok t" "rc_stopped s \<Longrightarrow> rc_stopped t \<and> rc_started t = rc_started s"
    "rc_started t \<noteq> rc_started s \<Longrightarrow> rc_started t = Suc (rc_started s) \<and> \<not> rc_running s \<and> \<not> rc_stopped s"
    by (cases e; auto simp: reconciler_ok_def split: if_splits)+
qed (simp add: reconciler_ok_def)

text \<open>C39: the background jobs never overlap themselves: whatever the order in which timers fire, runs end and jobs are stopped, each of the discovery, the
  credential probe and the reconciliation has at most one run in flight, every ended run of the first two has left one line
  in the log, and no run starts after a stop.\<close>

theorem background_jobs_single:
  "(job_run (discovery_step interval) (startDiscoveryScheduler delay now) s \<longrightarrow>
      tk_started s = length (tk_log s) + of_bool (tk_running s)
      \<and> (\<forall>t. tk_stopped s \<longrightarrow> job_run (discovery_step interval) s t \<longrightarrow> tk_started t = tk_started s))
   \<and> (job_run (prober_step interval) (startCredentialProber delay now) s \<longrightarrow>
      tk_started s = length (tk_log s) + of_bool (tk_running s)
      \<and> (\<forall>t. tk_stopped s \<longrightarrow> job_run (prober_step interval) s t \<longrightarrow> tk_started t = tk_started s))
   \<and> (startBalanceReconciler n = Some r \<longrightarrow> job_run (reconciler_step n) r u \<longrightarrow>
      rc_started u = rc_finished u + of_bool (rc_running u)
      \<and> (\<forall>v. rc_stopped u \<longrightarrow> job_run (reconciler_step n) u v \<longrightarrow> rc_started v = rc_started u))"
proof -
  have d: "ticker_ok (startDiscoveryScheduler delay now)" and p: "ticker_ok (startCredentialProber delay now)"
    by (simp_all add: ticker_ok_def startDiscoveryScheduler_def startCredentialProber_def start_ticker_def)
  have r: "startBalanceReconciler n = Some r \<Longrightarrow> reconciler_ok r"
    by (auto simp: startBalanceReconciler_def reconciler_ok_def split: if_splits)
  show ?thesis
    using discovery.one_run [OF _ d] discovery.quiet_after_stop [OF _ discovery.reachable_inv [OF _ d]]
      prober.one_run [OF _ p] prober.quiet_after_stop [OF _ prober.reachable_inv [OF _ p]]
      reconciler.one_run [OF _ r] reconciler.quiet_after_stop [OF _ reconciler.reachable_inv [OF _ r]]
    by blast
qed


text \<open>A job that is not stopped always gets another run, also after failed ones.\<close>

lemma ticker_resumes:
  assumes "ticker_ok s" and "tk_timer s \<noteq> NoTimer" and "\<not> tk_stopped s"
  shows "\<exists>t. job_run (tick_step report failed interval) s t \<and> tk_started t = Suc (tk_started s) \<and> tk_running t"
proof -
  let ?idle = "if tk_running s then the (tick_step report failed interval (Finish (Inl ZodError) 0) s) else s"
  have idle: "job_run (tick_step report failed interval) s ?idle"
  proof (cases "tk_running s")
    case True
    then have "tick_step report failed interval (Finish (Inl ZodError) 0) s = Some ?idle" by simp
    then show ?thesis by (rule job_next [OF job_refl])
  qed (simp add: job_refl)
  have "tk_timer ?idle = tk_timer s" "\<not> tk_running ?idle" "\<not> tk_stopped ?idle" "tk_started ?idle = tk_started s" using assms by auto
  then obtain t where "tick_step report failed interval Fire ?idle = Some t" "tk_started t = Suc (tk_started s)" "tk_running t"
    using assms(2) by (cases "tk_timer s") (auto simp: tick_def)
  then show ?thesis using job_next [OF idle] by blast
qed

section \<open>What a probe of all accounts records\<close>

definition probe_outcome :: "jv res \<Rightarrow> (string \<times> string) option" where
  "probe_outcome r = (case r of Inr _ \<Rightarrow> None | Inl e \<Rightarrow> Some (safeError e, probe_message e))"

definition probed :: "pstate_row option \<Rightarrow> uuid \<Rightarrow> (string \<times> string) option \<Rightarrow> pstate_row" where
  "probed old i failure = (case old of None \<Rightarrow> no_pstate i | Some p \<Rightarrow> p)
     \<lparr>ps_last_operation := Some ''credential.probe'', ps_error_code := map_option fst failure, ps_error_message := map_option snd failure\<rparr>"

definition pstate_of :: "uuid \<Rightarrow> db \<Rightarrow> pstate_row option" where
  "pstate_of i d = find (\<lambda>p. ps_account p = i) (pstates d)"

definition probe_audit :: "uuid \<Rightarrow> (string \<times> string) option \<Rightarrow> audit_row" where
  "probe_audit i failure = \<lparr>au_actor = ''local-admin'', au_action = ''credential.probe'', au_type = ''account'', au_resource = Some (show_nat i),
     au_payload = (case failure of None \<Rightarrow> JObj [(''status'', JStr ''succeeded'')]
       | Some (c, m) \<Rightarrow> JObj [(''status'', JStr ''failed''), (''error_code'', JStr c)])\<rparr>"

lemma find_upsert_key:
  assumes "\<And>r. key (f r) = key r" and "key new = j"
  shows "find (\<lambda>r. key r = i) (upsert_where (\<lambda>r. key r = j) f new rs) =
    (if i = j then Some (case find (\<lambda>r. key r = j) rs of None \<Rightarrow> new | Some r \<Rightarrow> f r) else find (\<lambda>r. key r = i) rs)"
proof (cases "\<exists>x\<in>set rs. key x = j")
  case True
  then have "find (\<lambda>r. key r = j) rs \<noteq> None" by (auto simp: find_None_iff)
  with True show ?thesis by (auto simp: upsert_where_def find_update_key [of key f, OF assms(1)] map_option_case split: option.split)
next
  case False
  then have "find (\<lambda>r. key r = j) rs = None" by (auto simp: find_None_iff)
  with False show ?thesis using assms(2) by (auto simp: upsert_where_def find_append split: option.split)
qed

lemma probe_one:
  assumes "find (\<lambda>a. a_id a = i \<and> a_enabled a) (accounts d) = Some a"
  shows "\<exists>d'. probeAccountCredentials dispatch i d = (Inr \<lparr>pb_account = i, pb_name = a_name a, pb_error = map_option fst (probe_outcome (dispatch i d))\<rparr>, d')
     \<and> d' = d\<lparr>pstates := pstates d', audits := audits d @ [probe_audit i (probe_outcome (dispatch i d))]\<rparr>
     \<and> (\<forall>j. pstate_of j d' = (if j = i then Some (probed (pstate_of i d) i (probe_outcome (dispatch i d))) else pstate_of j d))"
proof -
  have up: "find (\<lambda>p. ps_account p = j) (noted i failure (pstates d)) = (if j = i then Some (probed (pstate_of i d) i failure) else pstate_of j d)" for j failure
    unfolding noted_def Let_def by (subst find_upsert_key) (auto simp: no_pstate_def probed_def pstate_of_def split: option.split)
  show ?thesis
    using assms by (cases "dispatch i d")
      (simp_all add: probeAccountCredentials_def bind_gets note_probe_def then_modify bind_audit return_act_apply probe_outcome_def probe_audit_def pstate_of_def [of _ "d\<lparr>pstates := x, audits := y\<rparr>" for x y] up)
qed


text \<open>A dispatch that reads only the configuration of accounts.\<close>

definition reads_accounts :: "(uuid \<Rightarrow> db \<Rightarrow> jv res) \<Rightarrow> bool" where
  "reads_accounts dispatch \<longleftrightarrow> (\<forall>i d ps au. dispatch i (d\<lparr>pstates := ps, audits := au\<rparr>) = dispatch i d)"

lemma probe_dispatch_reads: "reads_accounts (probe_dispatch gw now)"
  by (simp add: reads_accounts_def probe_dispatch_def dispatchProviderOperation_def loadRuntimeAccount_def find_account_def find_provider_def find_secret_def
      split: option.split)

lemma probe_each_exact:
  assumes "\<forall>a\<in>set as. find (\<lambda>b. a_id b = a_id a \<and> a_enabled b) (accounts d) = Some a" and "distinct (map a_id as)" and "reads_accounts dispatch"
  shows "\<exists>d'. probe_each dispatch (map a_id as) d =
       (Inr (map (\<lambda>a. \<lparr>pb_account = a_id a, pb_name = a_name a, pb_error = map_option fst (probe_outcome (dispatch (a_id a) d))\<rparr>) as), d')
     \<and> d' = d\<lparr>pstates := pstates d', audits := audits d @ map (\<lambda>a. probe_audit (a_id a) (probe_outcome (dispatch (a_id a) d))) as\<rparr>
     \<and> (\<forall>j. pstate_of j d' = (if j \<in> a_id ` set as then Some (probed (pstate_of j d) j (probe_outcome (dispatch j d))) else pstate_of j d))"
  using assms(1,2)
proof (induction as arbitrary: d)
  case Nil
  then show ?case by (simp add: return_act_apply)
next
  case (Cons a as)
  obtain d1 where p: "probeAccountCredentials dispatch (a_id a) d =
      (Inr \<lparr>pb_account = a_id a, pb_name = a_name a, pb_error = map_option fst (probe_outcome (dispatch (a_id a) d))\<rparr>, d1)"
    and d1: "d1 = d\<lparr>pstates := pstates d1, audits := audits d @ [probe_audit (a_id a) (probe_outcome (dispatch (a_id a) d))]\<rparr>"
    and s1: "\<And>j. pstate_of j d1 = (if j = a_id a then Some (probed (pstate_of j d) j (probe_outcome (dispatch j d))) else pstate_of j d)"
    using probe_one [of "a_id a" d a dispatch] Cons.prems(1) by auto
  have same: "dispatch j d1 = dispatch j d" for j using assms(3) d1 unfolding reads_accounts_def by metis
  have acc: "accounts d1 = accounts d" by (subst d1) simp
  obtain d2 where "probe_each dispatch (map a_id as) d1 =
       (Inr (map (\<lambda>a. \<lparr>pb_account = a_id a, pb_name = a_name a, pb_error = map_option fst (probe_outcome (dispatch (a_id a) d1))\<rparr>) as), d2)"
    and d2: "d2 = d1\<lparr>pstates := pstates d2, audits := audits d1 @ map (\<lambda>a. probe_audit (a_id a) (probe_outcome (dispatch (a_id a) d1))) as\<rparr>"
    and s2: "\<And>j. pstate_of j d2 = (if j \<in> a_id ` set as then Some (probed (pstate_of j d1) j (probe_outcome (dispatch j d1))) else pstate_of j d1)"
    using Cons.IH [of d1] Cons.prems acc by auto
  then have "probe_each dispatch (map a_id (a # as)) d =
       (Inr (map (\<lambda>a. \<lparr>pb_account = a_id a, pb_name = a_name a, pb_error = map_option fst (probe_outcome (dispatch (a_id a) d))\<rparr>) (a # as)), d2)"
    by (simp add: bind_act_def p same return_act_apply)
  moreover have "d2 = d\<lparr>pstates := pstates d2, audits := audits d @ map (\<lambda>a. probe_audit (a_id a) (probe_outcome (dispatch (a_id a) d))) (a # as)\<rparr>"
  proof -
    have "audits d1 = audits d @ [probe_audit (a_id a) (probe_outcome (dispatch (a_id a) d))]" by (subst d1) simp
    moreover have "d1\<lparr>pstates := x, audits := y\<rparr> = d\<lparr>pstates := x, audits := y\<rparr>" for x y by (subst d1) simp
    ultimately show ?thesis using d2 by (simp add: same)
  qed
  moreover have "pstate_of j d2 = (if j \<in> a_id ` set (a # as) then Some (probed (pstate_of j d) j (probe_outcome (dispatch j d))) else pstate_of j d)" for j
    using Cons.prems(2) s1 [of j] s2 [of j] same by auto
  ultimately show ?case by blast
qed

text \<open>The probe of all accounts always completes and records exactly what the provider answered: one result and one audit row per enabled account, by name; the
  state of each such account tells the code and the bounded, printable message of its failure or none, the states of all
  other accounts and the rest of the database stay as they were.\<close>

theorem probeAllAccounts_exact:
  assumes "distinct (map a_id (accounts d))"
  shows "\<exists>d'. probeAllAccounts (probe_dispatch gw now) d =
       (Inr (map (\<lambda>a. \<lparr>pb_account = a_id a, pb_name = a_name a, pb_error = map_option fst (probe_outcome (probe_dispatch gw now (a_id a) d))\<rparr>) (enabled_by_name d)), d')
     \<and> d' = d\<lparr>pstates := pstates d', audits := audits d @ map (\<lambda>a. probe_audit (a_id a) (probe_outcome (probe_dispatch gw now (a_id a) d))) (enabled_by_name d)\<rparr>
     \<and> (\<forall>j. pstate_of j d' = (if j \<in> a_id ` set (enabled_by_name d) then Some (probed (pstate_of j d) j (probe_outcome (probe_dispatch gw now j d))) else pstate_of j d))
     \<and> (\<forall>j c m. probe_outcome (probe_dispatch gw now j d) = Some (c, m) \<longrightarrow> length m \<le> 512 \<and> list_all (\<lambda>x. \<not> is_ctrl x) m)"
proof -
  let ?as = "enabled_by_name d" and ?outcome = "\<lambda>i. probe_outcome (probe_dispatch gw now i d)"
  have "find (\<lambda>b. a_id b = a_id a \<and> a_enabled b) (accounts d) = Some a" if "a \<in> set ?as" for a
  proof -
    from that have "a \<in> set (accounts d)" "a_enabled a" by (simp_all add: enabled_by_name_def)
    then show ?thesis using assms(1) by (induction "accounts d") (auto simp: image_iff find_Some_iff in_set_conv_nth distinct_conv_nth)
  qed
  moreover have "distinct (map a_id ?as)" using assms(1) by (simp add: enabled_by_name_def distinct_map inj_on_def)
  ultimately obtain d' where "probe_each (probe_dispatch gw now) (map a_id ?as) d =
       (Inr (map (\<lambda>a. \<lparr>pb_account = a_id a, pb_name = a_name a, pb_error = map_option fst (?outcome (a_id a))\<rparr>) ?as), d')"
     "d' = d\<lparr>pstates := pstates d', audits := audits d @ map (\<lambda>a. probe_audit (a_id a) (?outcome (a_id a))) ?as\<rparr>"
     "\<forall>j. pstate_of j d' = (if j \<in> a_id ` set ?as then Some (probed (pstate_of j d) j (?outcome j)) else pstate_of j d)"
    using probe_each_exact [OF _ _ probe_dispatch_reads, of ?as d gw now] by blast
  moreover have "length m \<le> 512 \<and> list_all (\<lambda>x. \<not> is_ctrl x) m" if "?outcome j = Some (c, m)" for j c m
    using that by (auto simp: probe_outcome_def probe_message_def strip_ctrl_def list_all_iff dest: in_set_takeD split: sum.splits)
  ultimately show ?thesis by (intro exI [of _ d'] conjI allI impI) (auto simp: probeAllAccounts_def bind_gets enabled_by_name_def)
qed


text \<open>An interval above the range of the timers is not a long one: a reconciliation interval of more than 2147483647 milliseconds, about 24 days, makes
  the next run due one millisecond after the last.\<close>

theorem long_interval_runs_at_once:
  assumes "2147483647 < x"
  shows "\<exists>r s. startBalanceReconciler (Fin x) = Some r \<and> reconciler_step (Fin x) (Done now) r = Some s \<and> rc_due s = Some (now + 1)"
  using assms by (simp add: startBalanceReconciler_def is_finite_def timer_delay_def)

section \<open>Witnesses\<close>

theorem long_interval_runs_at_once_witness:
  "\<exists>r s. startBalanceReconciler (Fin 2592000000) = Some r \<and> reconciler_step (Fin 2592000000) (Done 0) r = Some s \<and> rc_due s = Some 1"
  using long_interval_runs_at_once [of 2592000000 0] by simp

theorem background_jobs_single_witness:
  "\<exists>s. job_run (discovery_step None) (startDiscoveryScheduler None 0) s \<and> tk_stopped s \<and> tk_running s \<and> tk_started s = 1
     \<and> (\<forall>t. job_run (discovery_step None) s t \<longrightarrow> tk_started t = 1)"
proof -
  let ?a = "startDiscoveryScheduler None 0"
  obtain b where b: "discovery_step None Fire ?a = Some b" "tk_running b" "\<not> tk_stopped b" "tk_started b = 1"
    by (simp add: discovery_step_def startDiscoveryScheduler_def start_ticker_def tick_def)
  obtain c where c: "discovery_step None Stop b = Some c" "tk_running c" "tk_stopped c" "tk_started c = 1"
    using b by (simp add: discovery_step_def)
  have "job_run (discovery_step None) ?a b" using job_refl b(1) by (rule job_next)
  then have run: "job_run (discovery_step None) ?a c" using c(1) by (rule job_next)
  with background_jobs_single [of None None 0 c "Fin 0"] c have "\<forall>t. job_run (discovery_step None) c t \<longrightarrow> tk_started t = 1" by metis
  with run c show ?thesis by blast
qed

definition probe_db :: db where
  "probe_db = empty_db\<lparr>accounts := [sample_account 7 1 ''a''], next_id := 9\<rparr>"

definition silent_gateway :: gateway_api where
  "silent_gateway = \<lparr>gw_fetch = (\<lambda>_ _. None), gw_parse = (\<lambda>_. None)\<rparr>"

theorem probeAllAccounts_exact_witness:
  "\<exists>d'. probeAllAccounts (probe_dispatch silent_gateway (\<lambda>_. 0)) probe_db =
     (Inr [\<lparr>pb_account = 7, pb_name = ''a'', pb_error = Some ''account_not_found''\<rparr>], d')
     \<and> map_option ps_error_code (pstate_of 7 d') = Some (Some ''account_not_found'')"
proof -
  have as: "enabled_by_name probe_db = [sample_account 7 1 ''a'']"
    by (simp add: enabled_by_name_def probe_db_def sample_account_def)
  have out: "map_option fst (probe_outcome (probe_dispatch silent_gateway (\<lambda>_. 0) 7 probe_db)) = Some ''account_not_found''"
    by (simp add: probe_outcome_def probe_dispatch_def dispatchProviderOperation_def loadRuntimeAccount_def find_account_def probe_db_def sample_account_def
        safeError_def Option.bind_def split: option.split)
  have "distinct (map a_id (accounts probe_db))" by (simp add: probe_db_def)
  from probeAllAccounts_exact [OF this, of silent_gateway "\<lambda>_. 0"] obtain d' where
      "probeAllAccounts (probe_dispatch silent_gateway (\<lambda>_. 0)) probe_db =
        (Inr [\<lparr>pb_account = 7, pb_name = ''a'', pb_error = Some ''account_not_found''\<rparr>], d')"
      "pstate_of 7 d' = Some (probed (pstate_of 7 probe_db) 7 (probe_outcome (probe_dispatch silent_gateway (\<lambda>_. 0) 7 probe_db)))"
    unfolding as using out by (auto simp: sample_account_def)
  then show ?thesis using out by (auto simp: probed_def)
qed

end
