(* ===== verification/Read_Models.thy ===== *)
theory Read_Models
  imports Control_Api Discovery Snapshot_Export
begin

text \<open>
  The reading half of the control route (\<open>GET\<close> of \<open>app/api/control/v1/[[...resource]]/route.ts\<close>) and the usage summary
  of \<open>lib/quota.ts\<close>.  Each query is a function of the database, each answer a record of the columns the query
  selects.  Audit rows carry no time of their own in the Store, so the time of the row at a position is a parameter.
\<close>

section \<open>Usage summary\<close>

definition FAMILY :: "(string \<times> string) list" where
  "FAMILY = [(''openai-codex'', ''codex''), (''openai-compatible'', ''openai''), (''anthropic'', ''claude''), (''claudeai'', ''claude''),
     (''gemini'', ''gemini''), (''deepseek'', ''deepseek''), (''cursor'', ''cursor''), (''copilot'', ''copilot''), (''kimi'', ''kimi''),
     (''opencode'', ''free''), (''felo'', ''free''), (''qoder'', ''free''), (''free'', ''free'')]"

text \<open>The members every object inherits are not texts: \<open>FAMILY['constructor']\<close> is a function, which the JSON of the answer leaves out.\<close>

definition familyFor :: "string \<Rightarrow> string option" where
  "familyFor adapter =
     (let key = toLowerCase adapter
      in case map_of FAMILY key of
           Some f \<Rightarrow> Some f
         | None \<Rightarrow> if key \<in> set inherited then None else Some (if key = [] then ''unknown'' else key))"

definition kindFor :: "string \<Rightarrow> string" where
  "kindFor adapter =
     (let key = toLowerCase adapter
      in if key \<in> {''opencode'', ''felo'', ''qoder'', ''free''} then ''free''
         else if key \<in> {''anthropic'', ''claudeai''} then ''oauth''
         else if key \<in> {''openai-codex'', ''cursor'', ''copilot'', ''kimi''} then ''oauth''
         else ''api_key'')"

record provider_quota =
  pq_account :: string
  pq_kind :: string
  pq_family :: "string option"
  pq_adapter :: string
  pq_used :: nat
  pq_status :: string
  pq_enabled :: bool

record usage_view =
  qv_used :: nat
  qv_active :: nat
  qv_providers :: "provider_quota list"

definition routed_rows :: "ms \<Rightarrow> db \<Rightarrow> (string \<times> event_row) list" where
  "routed_rows since d =
     concat (map (\<lambda>e. map (\<lambda>a. (at_account a, e)) (filter (\<lambda>a. at_event a = e_id e \<and> at_position a = 0) (attempts d)))
       (filter (\<lambda>e. since \<le> e_occurred e) (events d)))"

definition usage_rows :: "ms \<Rightarrow> db \<Rightarrow> (string \<times> nat \<times> nat) list" where
  "usage_rows since d =
     (let rows = routed_rows since d
      in map (\<lambda>n. let es = map snd (filter (\<lambda>r. fst r = n) rows)
                  in (n, length (remdups (map e_id es)), sum_list (map (\<lambda>e. e_input e + e_output e) es)))
           (remdups (map fst rows)))"

definition quota_accounts :: "db \<Rightarrow> (account_row \<times> provider_row) list" where
  "quota_accounts d =
     concat (map (\<lambda>a. case find_provider (a_provider a) d of None \<Rightarrow> [] | Some p \<Rightarrow> [(a, p)])
       (sort_key (\<lambda>a. \<not> a_enabled a) (sort_key a_priority (sort_key a_name (accounts d)))))"

definition provider_quota_of :: "(string \<rightharpoonup> nat \<times> nat) \<Rightarrow> account_row \<times> provider_row \<Rightarrow> provider_quota" where
  "provider_quota_of usage x =
     (let (a, p) = x; (requests, tokens) = (case usage (a_name a) of None \<Rightarrow> (0, 0) | Some u \<Rightarrow> u)
      in \<lparr>pq_account = a_name a, pq_kind = kindFor (p_adapter p), pq_family = familyFor (p_adapter p), pq_adapter = p_adapter p,
          pq_used = tokens, pq_status = (if a_enabled a then (if 0 < requests then ''active'' else ''unknown'') else ''disabled''),
          pq_enabled = a_enabled a\<rparr>)"

definition summarizeQuota :: "ms \<Rightarrow> db \<Rightarrow> usage_view" where
  "summarizeQuota now d =
     (let ps = map (provider_quota_of (map_of (usage_rows (now - 24 * 60 * 60 * 1000) d))) (quota_accounts d)
      in \<lparr>qv_used = sum_list (map pq_used ps), qv_active = length (filter pq_enabled ps), qv_providers = ps\<rparr>)"

section \<open>Rows of the views\<close>

record overview_view =
  ov_providers :: nat
  ov_accounts :: nat
  ov_models :: nat
  ov_keys :: nat
  ov_published :: "nat option"
  ov_metrics :: metrics

definition overview_data :: "ms \<Rightarrow> db \<Rightarrow> overview_view" where
  "overview_data now d =
     (let published = map cv_version (filter (\<lambda>v. cv_status v = Published) (versions d))
      in \<lparr>ov_providers = length (providers d), ov_accounts = length (accounts d), ov_models = length (aliases d), ov_keys = length (vkeys d),
          ov_published = (if published = [] then None else Some (Max (set published))), ov_metrics = requestMetrics None now d\<rparr>)"

record account_view =
  av_account :: account_row
  av_secret_present :: bool
  av_state :: "(string option \<times> string option \<times> string option) option"

definition account_data :: "db \<Rightarrow> account_row \<Rightarrow> account_view" where
  "account_data d a =
     \<lparr>av_account = a, av_secret_present = (case a_secret a of None \<Rightarrow> False | Some s \<Rightarrow> find_secret s d \<noteq> None),
      av_state = map_option (\<lambda>p. (ps_error_code p, ps_error_message p, ps_last_operation p)) (find (\<lambda>p. ps_account p = a_id a) (pstates d))\<rparr>"

record model_view =
  mv_model :: alias_row
  mv_provider :: "provider_row option"
  mv_input :: rat
  mv_output :: rat
  mv_accounts :: "uuid list"
  mv_metadata :: "model_metadata option"
  mv_plan_incompatible :: bool
  mv_available :: nat
  mv_eligible :: "uuid list"

definition live_discovered :: "db \<Rightarrow> discovered_row list" where
  "live_discovered d =
     map snd (sort_key (\<lambda>(a, r). a_priority a) (sort_key (\<lambda>(a, r). a_name a)
       (concat (map (\<lambda>r. case find_account (d_account r) d of None \<Rightarrow> []
                         | Some a \<Rightarrow> if d_available r \<and> a_enabled a then [(a, r)] else []) (discovered d)))))"

definition plan_of :: "db \<Rightarrow> uuid \<Rightarrow> jv option" where
  "plan_of d i = map_option (\<lambda>a. case a_plan a of None \<Rightarrow> JNull | Some s \<Rightarrow> JStr s) (find_account i d)"

definition model_data :: "(string \<Rightarrow> int option) \<Rightarrow> (ms \<Rightarrow> string) \<Rightarrow> db \<Rightarrow> alias_row \<Rightarrow> model_view" where
  "model_data parse iso_text d m =
     (let mapped = sort (remdups (map mm_account (filter (\<lambda>x. mm_model x = m_id m) (mappings d))));
          price = find (\<lambda>x. pc_model x = m_id m) (pricing d);
          row = \<lparr>mv_model = m, mv_provider = Option.bind (m_provider m) (\<lambda>i. find_provider i d),
                 mv_input = (case price of None \<Rightarrow> 0 | Some x \<Rightarrow> pc_input x), mv_output = (case price of None \<Rightarrow> 0 | Some x \<Rightarrow> pc_output x),
                 mv_accounts = mapped, mv_metadata = None, mv_plan_incompatible = False, mv_available = length mapped, mv_eligible = mapped\<rparr>
      in case m_provider m of
           None \<Rightarrow> row
         | Some i \<Rightarrow>
             let rows = filter (\<lambda>r. d_provider r = i \<and> d_upstream r = m_upstream m) (live_discovered d);
                 metadata = mergeModelMetadata parse (map (\<lambda>r. normalizeModelMetadata (metadata_input iso_text r)) rows)
             in row\<lparr>mv_metadata := Some metadata, mv_plan_incompatible := planIncompatibility (Some metadata) mapped (plan_of d),
                    mv_available := length rows, mv_eligible := map d_account rows\<rparr>)"

record key_view =
  kv_key :: key_row
  kv_team_name :: "string option"
  kv_spend :: rat
  kv_tokens :: nat
  kv_requests :: nat

definition key_data :: "ms \<Rightarrow> db \<Rightarrow> key_row \<Rightarrow> key_view" where
  "key_data now d k =
     (let today = find (\<lambda>s. sd_key s = k_id k \<and> sd_day s = day_of now) (spend d)
      in \<lparr>kv_key = k, kv_team_name = Option.bind (k_team k) (\<lambda>i. map_option t_name (find (\<lambda>t. t_id t = i) (teams d))),
          kv_spend = (case today of None \<Rightarrow> 0 | Some s \<Rightarrow> sd_cost s), kv_tokens = (case today of None \<Rightarrow> 0 | Some s \<Rightarrow> sd_tokens_in s),
          kv_requests = (case today of None \<Rightarrow> 0 | Some s \<Rightarrow> sd_requests s)\<rparr>)"

record team_view =
  tv_team :: team_row
  tv_keys :: nat
  tv_spend :: rat
  tv_share :: rat

text \<open>\<open>LEFT JOIN virtual_keys \<dots> LEFT JOIN key_spend_daily\<close>: one joined row per key and day with spend, one without a day for a key that has none.\<close>

definition spend_join :: "db \<Rightarrow> key_row \<Rightarrow> spend_row option list" where
  "spend_join d k = (let rows = filter (\<lambda>s. sd_key s = k_id k) (spend d) in if rows = [] then [None] else map Some rows)"

definition team_join :: "db \<Rightarrow> team_row \<Rightarrow> spend_row option list" where
  "team_join d t = concat (map (spend_join d) (filter (\<lambda>k. k_enabled k \<and> k_team k = Some (t_id t)) (vkeys d)))"

definition team_data :: "ms \<Rightarrow> db \<Rightarrow> team_row \<Rightarrow> team_view" where
  "team_data now d t =
     (let rows = team_join d t; n = length rows
      in \<lparr>tv_team = t, tv_keys = n,
          tv_spend = sum_list (map (\<lambda>r. case r of None \<Rightarrow> 0 | Some s \<Rightarrow> if sd_day s = day_of now then sd_cost s else 0) rows),
          tv_share = (if 0 < n \<and> 0 < t_budget t then round6 (t_budget t / rat_of_nat n) else 0)\<rparr>)"

record org_view =
  gv_org :: org_row
  gv_teams :: nat
  gv_team_budgets :: rat
  gv_remaining :: rat

definition org_data :: "db \<Rightarrow> org_row \<Rightarrow> org_view" where
  "org_data d g =
     (let ts = filter (\<lambda>t. t_org t = Some (o_id g)) (teams d); budgets = sum_list (map t_budget (filter (\<lambda>t. 0 < t_budget t) ts))
      in \<lparr>gv_org = g, gv_teams = length ts, gv_team_budgets = budgets,
          gv_remaining = (if 0 < o_budget g then max (o_budget g - budgets) 0 else 0)\<rparr>)"

record balance_view =
  bv_team :: team_row
  bv_count :: nat
  bv_credited :: rat
  bv_debited :: rat

definition balance_data :: "db \<Rightarrow> team_row \<Rightarrow> balance_view" where
  "balance_data d t =
     (let ds = map ct_delta (filter (\<lambda>c. ct_team c = t_id t) (credits d))
      in \<lparr>bv_team = t, bv_count = length ds, bv_credited = sum_list (filter (\<lambda>x. 0 < x) ds), bv_debited = - sum_list (filter (\<lambda>x. x < 0) ds)\<rparr>)"

definition recent_transactions :: "db \<Rightarrow> (credit_row \<times> team_row) list" where
  "recent_transactions d =
     take 50 (concat (map (\<lambda>c. case find (\<lambda>t. t_id t = ct_team c) (teams d) of None \<Rightarrow> [] | Some t \<Rightarrow> [(c, t)]) (rev (credits d))))"

record trend_row =
  tr_day :: int
  tr_requests :: nat
  tr_tokens :: nat
  tr_success_rate :: rat

definition request_trends :: "ms \<Rightarrow> nat \<Rightarrow> db \<Rightarrow> trend_row list" where
  "request_trends now days d =
     (let rows = filter (\<lambda>e. now - int days * 86400000 < e_occurred e) (events d)
      in map (\<lambda>day. let es = filter (\<lambda>e. day_of (e_occurred e) = day) rows; n = length es; good = length (filter e_success es)
                    in \<lparr>tr_day = day, tr_requests = n, tr_tokens = sum_list (map e_total es),
                        tr_success_rate = rat_of_int \<lfloor>100 * rat_of_nat good / rat_of_nat n * 10 + 1 / 2\<rfloor> / 10\<rparr>)
           (sort (remdups (map (day_of \<circ> e_occurred) rows))))"

section \<open>Routing and settings\<close>

definition or_default :: "jv \<Rightarrow> string \<Rightarrow> jv \<Rightarrow> jv" where
  "or_default v k x = coalesce (get_prop v k) x"

definition routing_resilience :: "jv \<Rightarrow> jv" where
  "routing_resilience v =
     JObj [(''cooldown'', or_default v ''cooldown'' (JStr ''30s'')), (''circuit_failures'', JNum (to_number (or_default v ''circuit_failures'' (int_json 3)))),
       (''circuit_reset'', or_default v ''circuit_reset'' (JStr ''1m'')), (''lockout_failures'', JNum (to_number (or_default v ''lockout_failures'' (int_json 10)))),
       (''lockout_duration'', or_default v ''lockout_duration'' (JStr ''15m''))]"

definition optimization_json :: "oidc_env \<Rightarrow> jv \<Rightarrow> jv" where
  "optimization_json env v =
     JObj (map (\<lambda>k. (k, JBool (truthy (get_prop v k)))) [''rtk_compression'', ''caveman'', ''headroom'']
       @ [(''headroom_reserve'', JNum (num_or (to_number (get_prop v ''headroom_reserve'')) (Fin 120000))),
          (''headroom_keep'', JNum (num_or (to_number (get_prop v ''headroom_keep'')) (Fin 8)))]
       @ concat (map (\<lambda>k. member_if (truthy (get_prop v k)) k (JStr (js_string env (get_prop v k)))) [''rtk_mode'', ''caveman_mode'', ''headroom_profile''])
       @ member_if (get_prop v ''squoze'' = JBool True) ''squoze'' (JBool True))"

definition routing_data :: "oidc_env \<Rightarrow> db \<Rightarrow> jv res" where
  "routing_data env d =
     (case routing d of
        None \<Rightarrow> Inl (ApiError 404 ''not_found'' ''Routing settings not found'')
      | Some row \<Rightarrow> Inr (JObj (set_prop ''optimization'' (optimization_json env (setting ''optimization'' d))
          (set_prop ''resilience'' (routing_resilience (get_prop row ''resilience'')) (record_of row)))))"

definition text_member :: "jv \<Rightarrow> string \<Rightarrow> string" where
  "text_member v k = (case get_prop v k of JStr s \<Rightarrow> s | _ \<Rightarrow> [])"

definition webhook_view :: "jv \<Rightarrow> jv" where
  "webhook_view v = JObj [(''enabled'', JBool (truthy (get_prop v ''enabled''))), (''url'', JStr (text_member v ''url'')), (''secret'', JStr (text_member v ''secret''))]"

section \<open>The route\<close>

record read_env =
  re_route :: route_env
  re_numeric :: "rat \<Rightarrow> string"
  re_iso :: "ms \<Rightarrow> string"
  re_date :: "string \<Rightarrow> int option"
  re_timestamp :: "string \<Rightarrow> ms option"
  re_audited :: "nat \<Rightarrow> ms"
  re_checkout :: "string option"
  re_paddle :: "string option"

record read_request =
  rr_control :: control_request
  rr_query :: "(string \<times> string) list"

datatype view =
    Overview overview_view
  | AuditExport "(nat \<times> audit_row) list"
  | RequestEvents "(event_row \<times> attempt_row list) list"
  | RequestMetrics metrics
  | Quota usage_view
  | Providers "provider_row list"
  | Accounts "account_view list"
  | Models "model_view list"
  | GatewayAcks "(string \<times> nat \<times> string \<times> string \<times> string option \<times> ms) list"
  | Document jv
  | VirtualKeys "key_view list"
  | Teams "team_view list"
  | Organizations "org_view list"
  | McpServers "(uuid \<times> string \<times> string \<times> bool \<times> bool) list"
  | BillingView string bool "balance_view list" "(credit_row \<times> team_row) list"
  | SettingRows "(string \<times> jv) list"
  | Trends "trend_row list"
  | AuditEvents "(nat \<times> audit_row) list"
  | ConfigVersions "(nat \<times> version_status \<times> string \<times> jv list \<times> ms option \<times> nat option) list"

text \<open>The first value of a repeated parameter counts.\<close>

definition param :: "read_request \<Rightarrow> string \<Rightarrow> string option" where
  "param req k = map_of (rr_query req) k"

text \<open>\<open>Math.min(Math.max(Number.isFinite(n) ? n : fallback, 1), hi)\<close> as an integer parameter of a statement; the driver sends a fraction as text, which the
  column type refuses.\<close>

definition bounded_param :: "read_request \<Rightarrow> string \<Rightarrow> rat \<Rightarrow> rat \<Rightarrow> nat res" where
  "bounded_param req k fallback hi =
     (let n = (case param req k of None \<Rightarrow> Fin fallback | Some s \<Rightarrow> js_number s);
          x = min (max (case n of Fin x \<Rightarrow> x | _ \<Rightarrow> fallback) 1) hi
      in if is_integer (Fin x) then Inr (nat \<lfloor>x\<rfloor>) else Inl (DbError ''invalid_text_representation''))"

definition numbered :: "'a list \<Rightarrow> (nat \<times> 'a) list" where
  "numbered xs = zip [1..<Suc (length xs)] xs"

definition time_bound :: "read_env \<Rightarrow> string option \<Rightarrow> ms option res" where
  "time_bound env v =
     (case v of None \<Rightarrow> Inr None
      | Some s \<Rightarrow> if s = [] then Inr None else case re_timestamp env s of None \<Rightarrow> Inl (DbError ''invalid_datetime_format'') | Some t \<Rightarrow> Inr (Some t))"

definition audit_export :: "read_env \<Rightarrow> read_request \<Rightarrow> db \<Rightarrow> view res" where
  "audit_export env req d =
     (case (time_bound env (param req ''from''), time_bound env (param req ''to'')) of
        (Inr from, Inr to) \<Rightarrow>
          Inr (AuditExport (take 10000 (filter (\<lambda>(i, r). (case from of None \<Rightarrow> True | Some t \<Rightarrow> t \<le> re_audited env i)
            \<and> (case to of None \<Rightarrow> True | Some t \<Rightarrow> re_audited env i \<le> t)) (numbered (audits d)))))
      | (Inl e, _) \<Rightarrow> Inl e
      | (_, Inl e) \<Rightarrow> Inl e)"

definition ack_rows :: "db \<Rightarrow> (string \<times> nat \<times> string \<times> string \<times> string option \<times> ms) list" where
  "ack_rows d = map (\<lambda>a. (ak_gateway a, ak_version a, ak_checksum a, ak_status a, ak_error a, ak_at a)) (take 200 (sort_key (\<lambda>a. - ak_at a) (acks d)))"

definition version_rows :: "db \<Rightarrow> (nat \<times> version_status \<times> string \<times> jv list \<times> ms option \<times> nat option) list" where
  "version_rows d = map (\<lambda>v. (cv_version v, cv_status v, cv_checksum v, cv_errors v, cv_published_at v, cv_source v))
     (take 100 (sort_key (\<lambda>v. - int (cv_version v)) (versions d)))"

definition when_ok :: "unit res \<Rightarrow> 'a res \<Rightarrow> 'a res" where
  "when_ok c r = (case c of Inl e \<Rightarrow> Inl e | Inr _ \<Rightarrow> r)"

definition GET_view :: "read_env \<Rightarrow> read_request \<Rightarrow> db \<Rightarrow> view res" where
  "GET_view env req d =
     (let r = resource (rr_control req); now = cq_now (rr_control req); adm = rt_admin (re_route env); feature = requireFeature (ad_licence adm)
      in if r = ''overview'' then Inr (Overview (overview_data now d))
         else if r = ''audit-export'' then when_ok (feature ''audit_export'') (audit_export env req d)
         else if r = ''request-events'' then map_sum id (\<lambda>n. RequestEvents (listRequestEvents (Some (int n)) d)) (bounded_param req ''limit'' 100 200)
         else if r = ''request-metrics'' then Inr (RequestMetrics (requestMetrics None now d))
         else if r = ''quota'' then Inr (Quota (summarizeQuota now d))
         else if r = ''providers'' then Inr (Providers (sort_key p_name (providers d)))
         else if r = ''accounts'' then Inr (Accounts (map (account_data d) (sort_key a_name (accounts d))))
         else if r = ''models'' then Inr (Models (map (model_data (re_date env) (re_iso env) d) (sort_key m_alias (aliases d))))
         else if r = ''gateway-acks'' then Inr (GatewayAcks (ack_rows d))
         else if r = ''routing'' then map_sum id Document (routing_data (ad_oidc adm) d)
         else if r = ''virtual-keys'' then Inr (VirtualKeys (map (key_data now d) (sort_key k_name (vkeys d))))
         else if r = ''teams'' then Inr (Teams (map (team_data now d) (sort_key t_name (teams d))))
         else if r = ''organizations'' then when_ok (feature ''orgs'') (Inr (Organizations (map (org_data d) (sort_key o_name (orgs d)))))
         else if r = ''mcp-servers'' then Inr (McpServers (map (\<lambda>m. (mc_id m, mc_name m, mc_url m, mc_enabled m, mc_headers m \<noteq> None)) (sort_key mc_name (mcps d))))
         else if r = ''billing'' then Inr (BillingView (case re_checkout env of None \<Rightarrow> [] | Some u \<Rightarrow> u)
           (case re_paddle env of None \<Rightarrow> False | Some s \<Rightarrow> s \<noteq> []) (map (balance_data d) (sort_key t_name (teams d))) (recent_transactions d))
         else if r = ''oidc'' then when_ok (feature ''sso'') (Inr (Document (getOidcStatus (ad_oidc adm) d)))
         else if r = ''settings'' then Inr (SettingRows (sort_key fst (settings d)))
         else if r = ''proxy-pool'' then Inr (Document (JObj [(''raw'', JStr (text_member (setting ''proxy_pool'' d) ''raw''))]))
         else if r = ''export'' then Inr (Document (exportSnapshot (re_numeric env) (re_iso env now) d))
         else if r = ''request-trends'' then map_sum id (\<lambda>n. Trends (request_trends now n d)) (bounded_param req ''days'' 14 90)
         else if r = ''webhook'' then Inr (Document (webhook_view (setting ''webhook'' d)))
         else if r = ''ipacl'' then Inr (Document (JObj [(''cidrs'', JArr (arr_of (get_prop (setting ''ipacl'' d) ''cidrs'')))]))
         else if r = ''audit-events'' then Inr (AuditEvents (take 200 (rev (numbered (audits d)))))
         else if r = ''config-versions'' then Inr (ConfigVersions (version_rows d))
         else Inl (not_found r))"

definition GET :: "read_env \<Rightarrow> read_request \<Rightarrow> (db, view) act" where
  "GET env req =
     then_act (admin_gate (re_route env) (rr_control req))
    (bind_act (gets_act (GET_view env req)) lift_res)"

section \<open>The usage summary is the account usage\<close>

lemma routed_rows_name: "map snd (filter (\<lambda>r. fst r = n) (routed_rows since d)) =
    concat (map (\<lambda>r. map (\<lambda>_. r) (first_attempt_by n d r)) (filter (\<lambda>r. since \<le> e_occurred r) (events d)))"
proof -
  have "map snd (filter (\<lambda>r. fst r = n) (concat (map (\<lambda>e. map (\<lambda>a. (at_account a, e)) (filter (\<lambda>a. at_event a = e_id e \<and> at_position a = 0) as)) es)))
      = concat (map (\<lambda>r. map (\<lambda>_. r) (filter (\<lambda>a. at_event a = e_id r \<and> at_position a = 0 \<and> at_account a = n) as)) es)" for as es
    by (induction es) (simp_all add: filter_map comp_def conj_commute conj_left_commute)
  then show ?thesis by (simp add: routed_rows_def first_attempt_by_def)
qed

lemma map_of_group: "map_of (map (\<lambda>n. (n, f n)) ns) k = (if k \<in> set ns then Some (f k) else None)"
  by (induction ns) auto

lemma usage_of_name:
  "(case map_of (usage_rows since d) n of None \<Rightarrow> (0, 0) | Some u \<Rightarrow> u) = prod.swap (accountUsageSince n since d)"
proof -
  have none: "n \<notin> set (map fst (routed_rows since d)) \<Longrightarrow> map snd (filter (\<lambda>r. fst r = n) (routed_rows since d)) = []"
    by (auto simp: filter_empty_conv image_iff)
  then show ?thesis
    unfolding usage_rows_def accountUsageSince_def Let_def map_of_group routed_rows_name by auto
qed

lemma provider_quota_used:
  "provider_quota_of (map_of (usage_rows since d)) (a, p) =
     \<lparr>pq_account = a_name a, pq_kind = kindFor (p_adapter p), pq_family = familyFor (p_adapter p), pq_adapter = p_adapter p,
      pq_used = fst (accountUsageSince (a_name a) since d),
      pq_status = (if a_enabled a then (if 0 < snd (accountUsageSince (a_name a) since d) then ''active'' else ''unknown'') else ''disabled''),
      pq_enabled = a_enabled a\<rparr>"
  by (simp add: provider_quota_of_def usage_of_name split_beta)

lemma quota_accounts_all:
  assumes "\<forall>a\<in>set (accounts d). find_provider (a_provider a) d \<noteq> None"
  shows "map fst (quota_accounts d) = sort_key (\<lambda>a. \<not> a_enabled a) (sort_key a_priority (sort_key a_name (accounts d)))"
proof -
  have "(\<forall>a\<in>set as. find_provider (a_provider a) d \<noteq> None) \<Longrightarrow>
      map fst (concat (map (\<lambda>a. case find_provider (a_provider a) d of None \<Rightarrow> [] | Some p \<Rightarrow> [(a, p)]) as)) = as" for as
    by (induction as) auto
  from this [of "sort_key (\<lambda>a. \<not> a_enabled a) (sort_key a_priority (sort_key a_name (accounts d)))"] show ?thesis
    using assms by (simp add: quota_accounts_def)
qed

lemma sum_sort_key: "sum_list (map f (sort_key k xs)) = sum_list (map (f :: _ \<Rightarrow> 'b :: comm_monoid_add) xs)"
  by (metis mset_map mset_sort sum_mset_sum_list)

lemma length_filter_sort_key: "length (filter P (sort_key k xs)) = length (filter P xs)"
  by (metis mset_filter mset_sort size_mset)

text \<open>C29: the usage summary of the dashboard agrees with the usage that is counted per account: every account appears once, with the
  tokens of the last day's requests whose first attempt it served and with the state that usage implies; the totals are the sum over all accounts and the number
  of enabled ones.\<close>

theorem summarizeQuota_is_usage:
  assumes "\<forall>a\<in>set (accounts d). find_provider (a_provider a) d \<noteq> None"
  shows "mset (map (\<lambda>p. (pq_account p, pq_used p, pq_status p)) (qv_providers (summarizeQuota now d))) =
      mset (map (\<lambda>a. let (tokens, requests) = accountUsageSince (a_name a) (now - 24 * 60 * 60 * 1000) d
        in (a_name a, tokens, if a_enabled a then (if 0 < requests then ''active'' else ''unknown'') else ''disabled'')) (accounts d))
    \<and> qv_used (summarizeQuota now d) = sum_list (map (\<lambda>a. fst (accountUsageSince (a_name a) (now - 24 * 60 * 60 * 1000) d)) (accounts d))
    \<and> qv_active (summarizeQuota now d) = length (filter a_enabled (accounts d))"
proof -
  let ?since = "now - 24 * 60 * 60 * 1000" and ?as = "sort_key (\<lambda>a. \<not> a_enabled a) (sort_key a_priority (sort_key a_name (accounts d)))"
  let ?q = "provider_quota_of (map_of (usage_rows ?since d))"
  have over: "map (g \<circ> ?q) (quota_accounts d) = map h ?as" if "\<And>a p. g (?q (a, p)) = h a" for g :: "provider_quota \<Rightarrow> 'x" and h
    unfolding quota_accounts_all [OF assms, symmetric] using that by auto
  have "length (filter pq_enabled (map ?q (quota_accounts d))) = length (filter (\<lambda>b. b) (map (pq_enabled \<circ> ?q) (quota_accounts d)))"
    by (simp add: filter_map comp_def)
  also have "\<dots> = length (filter (\<lambda>b. b) (map a_enabled ?as))" using over [of pq_enabled a_enabled] by (simp add: provider_quota_used)
  finally have act: "length (filter pq_enabled (map ?q (quota_accounts d))) = length (filter a_enabled (accounts d))"
    by (simp add: filter_map comp_def length_filter_sort_key)
  have used: "map (pq_used \<circ> ?q) (quota_accounts d) = map (\<lambda>a. fst (accountUsageSince (a_name a) ?since d)) ?as"
    by (rule over) (simp add: provider_quota_used)
  have "map ((\<lambda>p. (pq_account p, pq_used p, pq_status p)) \<circ> ?q) (quota_accounts d) = map (\<lambda>a. let (tokens, requests) = accountUsageSince (a_name a) ?since d
        in (a_name a, tokens, if a_enabled a then (if 0 < requests then ''active'' else ''unknown'') else ''disabled'')) ?as"
    by (rule over) (simp add: provider_quota_used split_beta)
  with act used show ?thesis
    by (simp add: summarizeQuota_def Let_def sum_sort_key)
qed

section \<open>Keys and teams\<close>

lemma find_spend:
  assumes "distinct (map spend_key ss)"
  shows "(case find (\<lambda>s. sd_key s = k \<and> sd_day s = day) ss of None \<Rightarrow> 0 | Some s \<Rightarrow> sd_cost s) = spent (k, day) ss"
  using assms
proof (induction ss)
  case (Cons s ss)
  have "spent (k, day) ss = 0" if "spend_key s = (k, day)"
  proof -
    have "filter (\<lambda>s. spend_key s = (k, day)) ss = []" using that Cons.prems by (force simp: filter_empty_conv image_iff)
    then show ?thesis by (simp add: spent_def)
  qed
  with Cons show ?case by (auto simp: spent_def spend_key_def)
qed (simp add: spent_def)

lemma spend_join_today:
  "sum_list (map (\<lambda>r. case r of None \<Rightarrow> 0 | Some s \<Rightarrow> if sd_day s = day then sd_cost s else 0) (spend_join d k)) = spent (k_id k, day) (spend d)"
proof -
  have "sum_list (map (\<lambda>s. if sd_day s = day then sd_cost s else 0) (filter (\<lambda>s. sd_key s = k_id k) ss)) = spent (k_id k, day) ss" for ss
    by (induction ss) (auto simp: spent_def spend_key_def)
  from this [of "spend d"] show ?thesis by (cases "filter (\<lambda>s. sd_key s = k_id k) (spend d)") (simp_all add: spend_join_def Let_def comp_def)
qed


lemma sum_list_concat_map: "sum_list (map f (concat xss)) = sum_list (map (\<lambda>xs. sum_list (map (f :: _ \<Rightarrow> 'b :: comm_monoid_add) xs)) xss)"
  by (induction xss) simp_all

text \<open>The two views of today's spend agree: a team's spend is the sum over its enabled keys of the spend the key view
  shows, which is what the daily table holds for the key and the day of the request.\<close>

theorem team_spend_is_key_spend:
  assumes "distinct (map spend_key (spend d))"
  shows "kv_spend (key_data now d k) = spent (k_id k, day_of now) (spend d)
    \<and> tv_spend (team_data now d t) = sum_list (map (\<lambda>k. kv_spend (key_data now d k)) (filter (\<lambda>k. k_enabled k \<and> k_team k = Some (t_id t)) (vkeys d)))"
proof -
  have "kv_spend (key_data now d k) = spent (k_id k, day_of now) (spend d)" for k
    using find_spend [OF assms] by (simp add: key_data_def Let_def)
  then show ?thesis by (simp add: team_data_def Let_def team_join_def sum_list_concat_map comp_def spend_join_today)
qed

lemma length_spend_join: "length (spend_join d k) = max 1 (length (filter (\<lambda>s. sd_key s = k_id k) (spend d)))"
  by (cases "filter (\<lambda>s. sd_key s = k_id k) (spend d)") (simp_all add: spend_join_def)

lemma length_le_sum: "(\<And>x. x \<in> set xs \<Longrightarrow> 1 \<le> f x) \<Longrightarrow> length xs \<le> sum_list (map f xs)"
  by (induction xs) fastforce+

lemma length_less_sum: "(\<And>x. x \<in> set xs \<Longrightarrow> 1 \<le> f x) \<Longrightarrow> k \<in> set xs \<Longrightarrow> 1 < f k \<Longrightarrow> length xs < sum_list (map f xs)"
proof (induction xs)
  case (Cons x xs)
  then show ?case using length_le_sum [of xs f] by (cases "x = k") fastforce+
qed simp

lemma smaller_share: "0 < m \<Longrightarrow> m < n \<Longrightarrow> 0 < b \<Longrightarrow> b / rat_of_nat n < b / rat_of_nat m"
  by (simp add: divide_strict_left_mono)

text \<open>The team view counts the days on which keys were used, not the keys: as soon as one enabled key of a team has spend on two days, the
  view shows more keys than the compiler of the configuration counts, and for a positive budget a smaller share is computed from it.\<close>

theorem team_view_counts_days:
  assumes "k \<in> set (vkeys d)" and "k_enabled k" and "k_team k = Some (t_id t)"
    and "2 \<le> length (filter (\<lambda>s. sd_key s = k_id k) (spend d))"
  shows "team_key_count d (t_id t) < tv_keys (team_data now d t)
    \<and> (0 < t_budget t \<longrightarrow> tv_share (team_data now d t) = round6 (t_budget t / rat_of_nat (tv_keys (team_data now d t)))
        \<and> t_budget t / rat_of_nat (tv_keys (team_data now d t)) < t_budget t / rat_of_nat (team_key_count d (t_id t)))"
proof -
  let ?ks = "filter (\<lambda>k. k_enabled k \<and> k_team k = Some (t_id t)) (vkeys d)"
  let ?n = "\<lambda>k. length (spend_join d k)"
  have n: "tv_keys (team_data now d t) = sum_list (map ?n ?ks)"
    by (simp add: team_data_def Let_def team_join_def length_concat comp_def)
  have in_ks: "k \<in> set ?ks" using assms by simp
  have lt: "length ?ks < sum_list (map ?n ?ks)"
    using length_less_sum [OF _ in_ks, of ?n] assms(4) by (simp add: length_spend_join)
  moreover have "0 < length ?ks" using in_ks by (rule length_pos_if_in_set)
  ultimately have "t_budget t / rat_of_nat (sum_list (map ?n ?ks)) < t_budget t / rat_of_nat (length ?ks)" if "0 < t_budget t"
    using that by (intro smaller_share)
  moreover have "tv_share (team_data now d t) = (if 0 < tv_keys (team_data now d t) \<and> 0 < t_budget t then round6 (t_budget t / rat_of_nat (tv_keys (team_data now d t))) else 0)"
    by (simp add: team_data_def Let_def)
  ultimately show ?thesis using lt unfolding n team_key_count_def by simp
qed

section \<open>Budgets and balances\<close>

lemma split_signs: "sum_list xs = sum_list (filter (\<lambda>x. 0 < x) xs) + sum_list (filter (\<lambda>x. x < 0) (xs :: rat list))"
  by (induction xs) auto

lemma sum_filter_bounds:
  "0 \<le> sum_list (filter (\<lambda>x. 0 < x) (xs :: rat list))" "sum_list (filter (\<lambda>x. x < 0) (xs :: rat list)) \<le> 0"
  by (induction xs) auto

text \<open>The billing view adds up: credits and debits are not negative, their difference is the sum of the ledger, and after a
  reconciliation the shown balance is this difference less the recorded spend, or zero.\<close>

theorem billing_view_adds_up:
  assumes "ledger_inv d" and "t \<in> set (teams d)"
  shows "0 \<le> bv_credited (balance_data d t) \<and> 0 \<le> bv_debited (balance_data d t)
    \<and> bv_credited (balance_data d t) - bv_debited (balance_data d t) = ledger_sum (t_id t) d
    \<and> (\<exists>b\<in>set (map (balance_data (snd (reconcileTeamBalances d))) (teams (snd (reconcileTeamBalances d)))).
         t_id (bv_team b) = t_id t \<and> t_balance (bv_team b) = max (bv_credited b - bv_debited b - team_spend (t_id t) d) 0)"
proof -
  have parts: "bv_credited (balance_data d' t') - bv_debited (balance_data d' t') = ledger_sum (t_id t') d'" for d' t'
    using split_signs [of "map ct_delta (filter (\<lambda>c. ct_team c = t_id t') (credits d'))"]
    by (simp add: balance_data_def ledger_sum_def Let_def)
  have dist: "distinct (map t_id (teams d))" using assms(1) by (simp add: ledger_inv_def)
  let ?t = "t\<lparr>t_balance := max (computed_balance d (t_id t)) 0\<rparr>"
  have "?t \<in> set (teams (snd (reconcileTeamBalances d)))"
    using assms(2) by (simp add: reconcileTeamBalances_apply [OF dist])
  moreover have "credits (snd (reconcileTeamBalances d)) = credits d" by (simp add: reconcileTeamBalances_apply [OF dist])
  moreover have "bv_team (balance_data d' x) = x" for d' x by (simp add: balance_data_def Let_def)
  ultimately have "\<exists>b\<in>set (map (balance_data (snd (reconcileTeamBalances d))) (teams (snd (reconcileTeamBalances d)))).
         t_id (bv_team b) = t_id t \<and> t_balance (bv_team b) = max (bv_credited b - bv_debited b - team_spend (t_id t) d) 0"
    by (intro bexI [of _ "balance_data (snd (reconcileTeamBalances d)) ?t"]) (simp_all add: parts ledger_sum_def computed_balance_def)
  with parts [of d t] show ?thesis
    using sum_filter_bounds [of "map ct_delta (filter (\<lambda>c. ct_team c = t_id t) (credits d))"] by (simp add: balance_data_def Let_def)
qed

text \<open>What an organisation has left is never negative and never more than its budget, and unless the teams were
  promised more than the budget, it and the teams' budgets add up to the budget.\<close>

theorem org_remaining_bounds:
  assumes "0 < o_budget g"
  shows "0 \<le> gv_remaining (org_data d g) \<and> gv_remaining (org_data d g) \<le> o_budget g
    \<and> (gv_team_budgets (org_data d g) \<le> o_budget g \<longrightarrow> gv_remaining (org_data d g) + gv_team_budgets (org_data d g) = o_budget g)"
proof -
  have "0 \<le> sum_list (map t_budget (filter (\<lambda>t. 0 < t_budget t) ts))" for ts by (induction ts) auto
  from this [of "filter (\<lambda>t. t_org t = Some (o_id g)) (teams d)"] show ?thesis using assms by (simp add: org_data_def Let_def max_def)
qed


section \<open>Trends\<close>

lemma bounded_param_range:
  assumes "bounded_param req k fallback hi = Inr n" and "1 \<le> hi"
  shows "1 \<le> n \<and> rat_of_nat n \<le> hi"
proof -
  let ?x = "min (max (case (case param req k of None \<Rightarrow> Fin fallback | Some s \<Rightarrow> js_number s) of Fin x \<Rightarrow> x | _ \<Rightarrow> fallback) 1) hi"
  have x: "rat_of_int \<lfloor>?x\<rfloor> = ?x" "n = nat \<lfloor>?x\<rfloor>"
    using assms(1) by (auto simp: bounded_param_def Let_def is_integer_def split: if_splits)
  have "1 \<le> ?x" "?x \<le> hi" using assms(2) by auto
  then show ?thesis using x by (smt (verit, best) le_floor_iff of_int_1 nat_le_iff of_int_le_iff of_nat_nat one_le_floor zero_le_one nat_mono nat_one_as_int of_int_of_nat_eq)
qed

lemma partition_length:
  "distinct ks \<Longrightarrow> f ` set xs \<subseteq> set ks \<Longrightarrow> sum_list (map (\<lambda>k. length (filter (\<lambda>x. f x = k) xs)) ks) = length xs"
proof (induction xs)
  case (Cons x xs)
  have "sum_list (map (\<lambda>k. length (filter (\<lambda>y. f y = k) (x # xs))) ks)
      = sum_list (map (\<lambda>k. (if k = f x then 1 else 0) + length (filter (\<lambda>y. f y = k) xs)) ks)"
    by (intro arg_cong [where f = sum_list] map_cong) auto
  also have "\<dots> = sum_list (map (\<lambda>k. if k = f x then 1 else 0) ks) + length xs" using Cons by (simp add: sum_list_addf)
  also have "sum_list (map (\<lambda>k. if k = f x then 1 else 0 :: nat) ks) = 1"
    using Cons.prems by (simp add: sum_list_distinct_conv_sum_set sum.delta)
  finally show ?case by simp
qed simp

lemma rate_bounds:
  assumes "n \<noteq> 0" and "good \<le> n"
  shows "0 \<le> rat_of_int \<lfloor>100 * rat_of_nat good / rat_of_nat n * 10 + 1 / 2\<rfloor> / 10 \<and> rat_of_int \<lfloor>100 * rat_of_nat good / rat_of_nat n * 10 + 1 / 2\<rfloor> / 10 \<le> 100"
proof -
  have "rat_of_nat good / rat_of_nat n \<le> 1" "0 \<le> rat_of_nat good / rat_of_nat n" using assms by simp_all
  then have "0 \<le> \<lfloor>100 * rat_of_nat good / rat_of_nat n * 10 + 1 / 2\<rfloor>" "\<lfloor>100 * rat_of_nat good / rat_of_nat n * 10 + 1 / 2\<rfloor> < 1001"
    by (simp_all add: floor_less_iff)
  then have "rat_of_int \<lfloor>100 * rat_of_nat good / rat_of_nat n * 10 + 1 / 2\<rfloor> \<le> rat_of_int 1000" by (simp only: of_int_le_iff)
  with \<open>0 \<le> \<lfloor>_\<rfloor>\<close> show ?thesis by simp
qed

text \<open>The daily trend partitions the requests of its window: the days are in order without repetition, each has at least one request and a success rate between
  0 and 100, and all days together have as many requests as the window; the window has between 1 and 90 days.\<close>

theorem request_trends_partition:
  assumes "bounded_param req ''days'' 14 90 = Inr n"
  shows "1 \<le> n \<and> n \<le> 90
    \<and> sorted (map tr_day (request_trends now n d)) \<and> distinct (map tr_day (request_trends now n d))
    \<and> (\<forall>r\<in>set (request_trends now n d). 1 \<le> tr_requests r \<and> 0 \<le> tr_success_rate r \<and> tr_success_rate r \<le> 100)
    \<and> sum_list (map tr_requests (request_trends now n d)) = length (filter (\<lambda>e. now - int n * 86400000 < e_occurred e) (events d))"
proof -
  let ?rows = "filter (\<lambda>e. now - int n * 86400000 < e_occurred e) (events d)"
  let ?days = "sort (remdups (map (day_of \<circ> e_occurred) ?rows))"
  have "sum_list (map (\<lambda>k. length (filter (\<lambda>e. (day_of \<circ> e_occurred) e = k) ?rows)) ?days) = length ?rows"
    by (rule partition_length) auto
  moreover have days: "map tr_day (request_trends now n d) = ?days" by (simp add: request_trends_def Let_def comp_def)
  moreover have "1 \<le> tr_requests r \<and> 0 \<le> tr_success_rate r \<and> tr_success_rate r \<le> 100" if r: "r \<in> set (request_trends now n d)" for r
  proof -
    obtain e :: event_row and es where es: "e \<in> set es" "tr_requests r = length es"
      "tr_success_rate r = rat_of_int \<lfloor>100 * rat_of_nat (length (filter e_success es)) / rat_of_nat (length es) * 10 + 1 / 2\<rfloor> / 10"
    proof -
      obtain e where e: "e \<in> set ?rows" and r': "r = (let es = filter (\<lambda>x. day_of (e_occurred x) = day_of (e_occurred e)) ?rows; n = length es; good = length (filter e_success es)
          in \<lparr>tr_day = day_of (e_occurred e), tr_requests = n, tr_tokens = sum_list (map e_total es),
              tr_success_rate = rat_of_int \<lfloor>100 * rat_of_nat good / rat_of_nat n * 10 + 1 / 2\<rfloor> / 10\<rparr>)"
        using r unfolding request_trends_def Let_def by (auto simp del: filter_filter)
      show ?thesis
        by (rule that [of e "filter (\<lambda>x. day_of (e_occurred x) = day_of (e_occurred e)) ?rows"]) (use e in \<open>simp_all add: r' Let_def del: filter_filter\<close>)
    qed
    have "length es \<noteq> 0" using es(1) by auto
    with rate_bounds [OF this length_filter_le, of e_success] es(2,3) show ?thesis by presburger
  qed
  moreover have "sorted ?days" "distinct ?days" by simp_all
  ultimately show ?thesis
    using bounded_param_range [OF assms] by (simp add: request_trends_def Let_def comp_def)
qed


section \<open>What reading can disclose\<close>

text \<open>The database with other documents in its secret records.\<close>

definition resealed :: "(secret_row \<Rightarrow> jv) \<Rightarrow> db \<Rightarrow> db" where
  "resealed f d = d\<lparr>secrets := map (\<lambda>s. s\<lparr>s_sealed := f s\<rparr>) (secrets d)\<rparr>"

lemma resealed_tables [simp]:
  "providers (resealed f d) = providers d" "accounts (resealed f d) = accounts d" "aliases (resealed f d) = aliases d" "pricing (resealed f d) = pricing d"
  "mappings (resealed f d) = mappings d" "discovered (resealed f d) = discovered d" "vkeys (resealed f d) = vkeys d" "teams (resealed f d) = teams d"
  "orgs (resealed f d) = orgs d" "credits (resealed f d) = credits d" "events (resealed f d) = events d" "attempts (resealed f d) = attempts d"
  "spend (resealed f d) = spend d" "versions (resealed f d) = versions d" "acks (resealed f d) = acks d" "pstates (resealed f d) = pstates d"
  "audits (resealed f d) = audits d" "settings (resealed f d) = settings d" "routing (resealed f d) = routing d" "mcps (resealed f d) = mcps d"
  "setting k (resealed f d) = setting k d" "find_provider i (resealed f d) = find_provider i d" "find_account i (resealed f d) = find_account i d"
  by (simp_all add: resealed_def setting_def find_provider_def find_account_def)

lemma find_resealed: "(find_secret i (resealed f d) = None) = (find_secret i d = None)"
  by (auto simp: find_secret_def resealed_def find_None_iff)

lemma plan_of_resealed: "plan_of (resealed f d) = plan_of d"
  by (rule ext) (simp add: plan_of_def)

lemma spend_join_resealed: "spend_join (resealed f d) = spend_join d"
  by (rule ext) (simp only: spend_join_def resealed_tables)

lemma rows_resealed:
  "live_discovered (resealed f d) = live_discovered d" "team_join (resealed f d) = team_join d" "usage_rows s (resealed f d) = usage_rows s d"
  "quota_accounts (resealed f d) = quota_accounts d"
  by (simp_all only: fun_eq_iff live_discovered_def team_join_def spend_join_resealed usage_rows_def routed_rows_def quota_accounts_def resealed_tables simp_thms)

lemma per_row_resealed:
  "account_data (resealed f d) = account_data d" "model_data p i (resealed f d) = model_data p i d" "key_data now (resealed f d) = key_data now d"
  "team_data now (resealed f d) = team_data now d" "org_data (resealed f d) = org_data d" "balance_data (resealed f d) = balance_data d"
  by (simp_all only: fun_eq_iff account_data_def model_data_def key_data_def team_data_def org_data_def balance_data_def rows_resealed plan_of_resealed
      find_resealed resealed_tables simp_thms)

lemma tables_resealed:
  "overview_data now (resealed f d) = overview_data now d" "recent_transactions (resealed f d) = recent_transactions d"
  "request_trends now n (resealed f d) = request_trends now n d" "summarizeQuota now (resealed f d) = summarizeQuota now d"
  "requestMetrics s now (resealed f d) = requestMetrics s now d" "listRequestEvents l (resealed f d) = listRequestEvents l d"
  "ack_rows (resealed f d) = ack_rows d" "version_rows (resealed f d) = version_rows d"
  "routing_data oe (resealed f d) = routing_data oe d" "audit_export env req (resealed f d) = audit_export env req d" "getOidcStatus oe (resealed f d) = getOidcStatus oe d"
  by (simp_all only: overview_data_def recent_transactions_def request_trends_def summarizeQuota_def requestMetrics_def listRequestEvents_def ack_rows_def
      version_rows_def routing_data_def audit_export_def getOidcStatus_def getOidcConfig_def rows_resealed resealed_tables)

lemmas views_resealed = per_row_resealed tables_resealed



lemma set_prop_in: "(k, v) \<in> set (set_prop k v ps)"
  by (force simp: set_prop_def)

text \<open>The list of settings discloses what the single sign-on view hides: after saving the single sign-on settings the answer and the view of
  that resource carry no client secret, but the view of all settings contains it as it was sent.\<close>

theorem settings_disclose_client_secret:
  assumes "saveOidcSettings (ad_oidc (rt_admin (re_route env))) lic body d = (Inr v, d')"
    and "resource (rr_control req) = ''settings''"
  shows "get_prop v ''client_secret'' = JUndef
    \<and> (\<exists>rows c. GET_view env req d' = Inr (SettingRows rows) \<and> (''oidc'', c) \<in> set rows \<and> get_prop c ''client_secret'' = get_prop body ''client_secret'')"
proof -
  let ?oe = "ad_oidc (rt_admin (re_route env))"
  obtain c where c: "OidcConfigSchema (oe_schema ?oe) body = Some c" and d': "d' = d\<lparr>settings := set_prop ''oidc'' c (settings d)\<rparr>" and v: "v = getOidcStatus ?oe d'"
    using assms(1) by (auto simp: saveOidcSettings_def bind_lift saveOidcConfig_def then_modify gets_act_def act_simps split: sum.splits option.splits)
  have "z_filled (get_prop body ''client_secret'') = Some (get_prop c ''client_secret'')"
    by (rule z_object_get [OF c [unfolded OidcConfigSchema_def]]) simp_all
  then have "get_prop c ''client_secret'' = get_prop body ''client_secret''"
    by (cases "get_prop body ''client_secret''") (auto split: if_splits)
  moreover have "get_prop v ''client_secret'' = JUndef" by (simp add: v getOidcStatus_def split: option.split)
  ultimately show ?thesis using assms(2) set_prop_in [of "''oidc''" c "settings d"] by (auto simp: GET_view_def Let_def d')
qed

section \<open>Witnesses\<close>

definition read_demo :: read_env where
  "read_demo = \<lparr>re_route = demo_route, re_numeric = (\<lambda>_. ''0''), re_iso = (\<lambda>_. []), re_date = (\<lambda>_. None), re_timestamp = (\<lambda>_. None), re_audited = (\<lambda>_. 0),
     re_checkout = None, re_paddle = None\<rparr>"

definition read_of :: "string \<Rightarrow> read_request" where
  "read_of r = \<lparr>rr_control = demo_request\<lparr>cq_path := [r]\<rparr>, rr_query = []\<rparr>"

lemma gate_path: "admin_gate env (req\<lparr>cq_path := p\<rparr>) = admin_gate env req"
  by (simp add: admin_gate_def cong: if_cong)


definition busy_db :: db where
  "busy_db = empty_db\<lparr>teams := [sample_team 1 10\<lparr>t_budget := 12\<rparr>], vkeys := [sample_key 4 (Some 1)],
     spend := [\<lparr>sd_key = 4, sd_day = 0, sd_cost = 2, sd_tokens_in = 5, sd_tokens_out = 6, sd_requests = 1\<rparr>,
       \<lparr>sd_key = 4, sd_day = 1, sd_cost = 3, sd_tokens_in = 5, sd_tokens_out = 6, sd_requests = 1\<rparr>]\<rparr>"

theorem team_spend_is_key_spend_witness:
  "kv_spend (key_data 0 busy_db (sample_key 4 (Some 1))) = 2 \<and> tv_spend (team_data 0 busy_db (sample_team 1 10)) = 2"
proof -
  have "distinct (map spend_key (spend busy_db))" by (simp add: busy_db_def spend_key_def)
  from team_spend_is_key_spend [OF this, of 0 "sample_key 4 (Some 1)" "sample_team 1 10"] show ?thesis
    by (simp add: spent_def busy_db_def spend_key_def sample_key_def sample_team_def day_of_def key_data_def)
qed

theorem team_view_counts_days_witness:
  "tv_keys (team_data 0 busy_db (sample_team 1 10\<lparr>t_budget := 12\<rparr>)) = 2 \<and> team_key_count busy_db 1 < tv_keys (team_data 0 busy_db (sample_team 1 10\<lparr>t_budget := 12\<rparr>))
   \<and> tv_share (team_data 0 busy_db (sample_team 1 10\<lparr>t_budget := 12\<rparr>)) = 6"
proof -
  have n: "tv_keys (team_data 0 busy_db (sample_team 1 10\<lparr>t_budget := 12\<rparr>)) = 2"
    by (simp add: team_data_def Let_def team_join_def spend_join_def busy_db_def sample_key_def sample_team_def)
  have "round6 6 = 6" by (simp add: round6_def floor_eq_iff)
  then show ?thesis
    using n team_view_counts_days [of "sample_key 4 (Some 1)" busy_db "sample_team 1 10\<lparr>t_budget := 12\<rparr>" 0]
    by (simp add: busy_db_def sample_key_def sample_team_def)
qed


theorem billing_view_adds_up_witness:
  "bv_credited (balance_data paid_db (sample_team 1 10)) - bv_debited (balance_data paid_db (sample_team 1 10)) = 10"
proof -
  have "sample_team 1 10 \<in> set (teams paid_db)" by (simp add: paid_db_def team_eval)
  from billing_view_adds_up [OF paid_inv this] show ?thesis
    by (simp add: ledger_sum_def paid_db_def team_eval)
qed

theorem org_remaining_bounds_witness:
  "gv_remaining (org_data (empty_db\<lparr>teams := [sample_team 1 10\<lparr>t_budget := 12, t_org := Some 2\<rparr>]\<rparr>) \<lparr>o_id = 2, o_name = ''o'', o_owner = None, o_budget = 20\<rparr>) = 8"
  using org_remaining_bounds [of "\<lparr>o_id = 2, o_name = ''o'', o_owner = None, o_budget = 20\<rparr>" "empty_db\<lparr>teams := [sample_team 1 10\<lparr>t_budget := 12, t_org := Some 2\<rparr>]\<rparr>"]
  by (simp add: org_data_def sample_team_def)

theorem request_trends_partition_witness:
  "map tr_requests (request_trends 0 14 (empty_db\<lparr>events := [event_of 3 ''g'' 0 (sample_event ''r1'' 2 ''success'')]\<rparr>)) = [1]
   \<and> sum_list (map tr_requests (request_trends 0 14 (empty_db\<lparr>events := [event_of 3 ''g'' 0 (sample_event ''r1'' 2 ''success'')]\<rparr>))) = 1"
proof -
  have "bounded_param (read_of ''request-trends'') ''days'' 14 90 = Inr 14"
    by (simp add: bounded_param_def param_def read_of_def is_integer_def)
  from request_trends_partition [OF this, of 0 "empty_db\<lparr>events := [event_of 3 ''g'' 0 (sample_event ''r1'' 2 ''success'')]\<rparr>"]
  show ?thesis by (simp add: event_of_def sample_event_def request_trends_def)
qed

theorem summarizeQuota_is_usage_witness:
  "qv_used (summarizeQuota 0 (empty_db\<lparr>providers := [\<lparr>p_id = 1, p_slug = ''p'', p_name = ''p'', p_adapter = ''kimi'', p_base_url = [], p_enabled = True, p_metadata = JNull\<rparr>],
     accounts := [sample_account 7 1 ''a'']\<rparr>)) = 0
   \<and> qv_active (summarizeQuota 0 (empty_db\<lparr>providers := [\<lparr>p_id = 1, p_slug = ''p'', p_name = ''p'', p_adapter = ''kimi'', p_base_url = [], p_enabled = True, p_metadata = JNull\<rparr>],
     accounts := [sample_account 7 1 ''a'']\<rparr>)) = 1"
  using summarizeQuota_is_usage [of "empty_db\<lparr>providers := [\<lparr>p_id = 1, p_slug = ''p'', p_name = ''p'', p_adapter = ''kimi'', p_base_url = [], p_enabled = True, p_metadata = JNull\<rparr>],
     accounts := [sample_account 7 1 ''a'']\<rparr>" 0]
  by (simp add: find_provider_def sample_account_def accountUsageSince_def empty_db_def)

theorem settings_disclose_client_secret_witness:
  "\<exists>v d' rows c. saveOidcSettings demo_oidc \<lparr>rs_edition = Ent, rs_features = [''sso'']\<rparr> (setting ''oidc'' demo_sso_db) empty_db = (Inr v, d')
     \<and> GET_view read_demo (read_of ''settings'') d' = Inr (SettingRows rows)
     \<and> (''oidc'', c) \<in> set rows \<and> get_prop c ''client_secret'' = JStr ''s''"
proof -
  have oe: "ad_oidc (rt_admin (re_route read_demo)) = demo_oidc" by (simp add: read_demo_def demo_route_def demo_admin_def)
  have "OidcConfigSchema (oe_schema demo_oidc) (setting ''oidc'' demo_sso_db) \<noteq> None"
    using demo_config by (auto simp: getOidcConfig_def split: if_splits)
  then obtain v d' where run: "saveOidcSettings demo_oidc \<lparr>rs_edition = Ent, rs_features = [''sso'']\<rparr> (setting ''oidc'' demo_sso_db) empty_db = (Inr v, d')"
    by (auto simp: saveOidcSettings_def requireFeature_def hasFeature_def bind_lift saveOidcConfig_def then_modify gets_act_def)
  have "resource (rr_control (read_of ''settings'')) = ''settings''" by (simp add: read_of_def resource_def)
  from settings_disclose_client_secret [of read_demo, unfolded oe, OF run this] run show ?thesis
    by (auto simp: setting_def demo_sso_db_def)
qed

end
