(* ===== verification/Operations_Api.thy ===== *)
theory Operations_Api
  imports Read_Models Background Credentials
begin

text \<open>
  The control API as a whole: the handlers that have a route file of their own below \<open>app/api/control/v1\<close> (batch imports, the import of
  a discovered model, renaming, discovery, Codex quota) and the choice between them and the general route of theories
  \<open>Control_Api\<close> and \<open>Read_Models\<close>, as the framework makes it: a more specific path wins, and a method its file does not
  export is refused.  The login routes below \<open>codex\<close>, \<open>claude\<close> and \<open>reauthorize\<close> are those of \<open>Login_Flows\<close>.  The
  state is the database beside that of the provider.
\<close>

section \<open>Requests\<close>

datatype http_method = Get | Post | Patch | Delete

record api_request =
  ap_method :: http_method
  ap_control :: control_request
  ap_query :: "(string \<times> string) list"
  ap_key :: "string option"
  ap_length :: "string option"
  ap_chunks :: "string list"
  ap_upstream :: string
  ap_later :: ms
  ap_last :: ms

record 'u api_env =
  ae_read :: read_env
  ae_dispatch :: "'u dispatch"
  ae_discover :: "account_row \<Rightarrow> db \<Rightarrow> jv res"

datatype api_answer =
    AccountsImported "(uuid \<times> string) list"
  | ModelsImported "(string \<times> string) list" "string list"
  | ModelAlias alias_row
  | DiscoveryRun "discovery_result list"
  | DiscoveredGroups "(model_group \<times> model_metadata) list"
  | QuotaState pstate_row
  | QuotaView quota_view
  | ResetOperation op_row
  | MethodNotAllowed
  | Changed admin_answer
  | Read view

abbreviation ae_admin :: "'u api_env \<Rightarrow> admin_env" where
  "ae_admin env \<equiv> rt_admin (re_route (ae_read env))"

section \<open>Batch imports\<close>

definition z_upto :: "nat \<Rightarrow> schema \<Rightarrow> schema" where
  "z_upto hi = z_refine (\<lambda>w. length (arr_of w) \<le> hi)"

definition AccountBatchSchema :: "schema_env \<Rightarrow> schema" where
  "AccountBatchSchema env =
     z_object [(''provider_id'', z_uuid env), (''kind'', z_default (JStr ''api_key'') (z_enum [''api_key'', ''cookie'', ''oauth''])),
       (''entries'', z_upto 500 (z_array 1 (z_object [(''name'', z_optional (z_text 1 (Some 120))), (''secret'', z_text 1 (Some 4096))]))),
       (''priority'', z_default (num 1) z_int), (''max_concurrency'', z_default (num 100) z_positive_int)]"

definition account_batch_of :: "jv \<Rightarrow> account_batch" where
  "account_batch_of v =
     \<lparr>ab_provider = (case uuid_at v ''provider_id'' of None \<Rightarrow> 0 | Some i \<Rightarrow> i),
      ab_kind = (if get_prop v ''kind'' = JStr ''cookie'' then Cookie else if get_prop v ''kind'' = JStr ''oauth'' then OAuth else ApiKey),
      ab_entries = map (\<lambda>e. \<lparr>be_name = as_str (get_prop e ''name''), be_secret = text_of (get_prop e ''secret'')\<rparr>) (arr_of (get_prop v ''entries'')),
      ab_priority = or_int v ''priority'' 1, ab_max_concurrency = or_int v ''max_concurrency'' 100\<rparr>"

definition ModelBatchSchema :: "schema_env \<Rightarrow> schema" where
  "ModelBatchSchema env =
     z_object [(''lines'', z_upto 200 (z_array 1 (z_text 1 (Some 500)))), (''accounts'', z_optional (z_array 0 (z_uuid env))),
       (''fallbacks'', z_default (JArr []) (z_array 0 z_string)), (''input_per_mtok'', z_default (num 0) z_nonneg),
       (''output_per_mtok'', z_default (num 0) z_nonneg)]"

definition model_batch_of :: "jv \<Rightarrow> model_batch" where
  "model_batch_of v =
     \<lparr>mb_lines = or_texts v ''lines'' [], mb_accounts = (if get_prop v ''accounts'' = JUndef then None else Some (uuids_at v ''accounts'')),
      mb_fallbacks = or_texts v ''fallbacks'' [], mb_input = or_money v ''input_per_mtok'' 0, mb_output = or_money v ''output_per_mtok'' 0\<rparr>"

text \<open>\<open>catch\<close> of both routes: the first line of the message under one code.\<close>

definition batch_problem :: "error \<Rightarrow> error" where
  "batch_problem e = ApiError 400 ''batch_import_failed'' (takeWhile (\<lambda>c. c \<noteq> CHR 0x0A) (raw_message e))"

definition batch_route :: "(db, 'a) act \<Rightarrow> (db, 'a) act" where
  "batch_route m = catch_act m (\<lambda>e. throw (batch_problem e))"

definition accounts_batch_route :: "admin_env \<Rightarrow> jv \<Rightarrow> (db, api_answer) act" where
  "accounts_batch_route env body =
     batch_route (bind_act (parse_body (AccountBatchSchema (ad_schema env)) body) (\<lambda>v.
       then_act (range_act [''priority'', ''max_concurrency''] [] v)
      (bind_act (accounts_batch_POST (ad_sn env) (account_batch_of v)) (\<lambda>created. return_act (AccountsImported created)))))"

definition models_batch_route :: "admin_env \<Rightarrow> jv \<Rightarrow> (db, api_answer) act" where
  "models_batch_route env body =
     batch_route (bind_act (parse_body (ModelBatchSchema (ad_schema env)) body) (\<lambda>v.
       then_act (range_act [] [''input_per_mtok'', ''output_per_mtok''] v)
      (bind_act (models_batch_POST (ad_sn env) (model_batch_of v)) (\<lambda>(created, skipped). return_act (ModelsImported created skipped)))))"

section \<open>Discovered models\<close>

definition SelectionSchema :: "schema_env \<Rightarrow> schema" where
  "SelectionSchema env =
     z_object [(''alias'', z_string), (''provider_id'', z_uuid env), (''upstream_model'', z_filled),
       (''routing_strategy'', z_default (JStr ''round_robin'') (z_enum [''round_robin'', ''quota_failover''])), (''enabled'', z_optional z_bool)]"

definition selection_of :: "jv \<Rightarrow> selection_input" where
  "selection_of v =
     \<lparr>si_alias = text_of (get_prop v ''alias''), si_provider = (case uuid_at v ''provider_id'' of None \<Rightarrow> 0 | Some i \<Rightarrow> i),
      si_upstream = text_of (get_prop v ''upstream_model''), si_strategy = text_of (get_prop v ''routing_strategy''), si_enabled = as_bool (get_prop v ''enabled'')\<rparr>"

definition selection_change :: "admin_env \<Rightarrow> jv \<Rightarrow> (db, alias_row) act" where
  "selection_change env body =
     bind_act (parse_body (SelectionSchema (ad_schema env)) body) (\<lambda>v. importSelection (ad_sn env) (selection_of v))"

definition import_selection_route :: "admin_env \<Rightarrow> jv \<Rightarrow> (db, api_answer) act" where
  "import_selection_route env body = bind_act (txOn (selection_change env body)) (\<lambda>m. return_act (ModelAlias m))"

definition rename_change :: "admin_env \<Rightarrow> string \<Rightarrow> jv \<Rightarrow> (db, alias_row) act" where
  "rename_change env key body =
     bind_act (parse_body (z_object [(''alias'', z_string)]) body) (\<lambda>v.
     then_act (lift_res (validatePublicAlias (text_of (get_prop v ''alias''))))
    (bind_act (path_uuid key) (\<lambda>i. renameModelAlias (ad_sn env) i (text_of (get_prop v ''alias'')))))"

definition rename_route :: "admin_env \<Rightarrow> string \<Rightarrow> jv \<Rightarrow> (db, api_answer) act" where
  "rename_route env key body = bind_act (txOn (rename_change env key body)) (\<lambda>m. return_act (ModelAlias m))"

definition scope_of :: "schema_env \<Rightarrow> jv \<Rightarrow> discovery_scope res" where
  "scope_of env body =
     (if get_prop body ''scope'' = JStr ''all'' then Inr AllAccounts
      else if get_prop body ''scope'' = JStr ''provider_id''
      then (case z_uuid env (get_prop body ''provider_id'') of Some (JStr s) \<Rightarrow> Inr (OfProvider (dec_val s)) | _ \<Rightarrow> Inl ZodError)
      else if get_prop body ''scope'' = JStr ''account_id''
      then (case z_uuid env (get_prop body ''account_id'') of Some (JStr s) \<Rightarrow> Inr (OfAccount (dec_val s)) | _ \<Rightarrow> Inl ZodError)
      else Inl ZodError)"

definition discovery_route :: "'u api_env \<Rightarrow> ms \<Rightarrow> jv \<Rightarrow> (db, api_answer) act" where
  "discovery_route env now body =
     bind_act (lift_res (scope_of (ad_schema (ae_admin env)) body)) (\<lambda>sc.
     bind_act (discoverModelsForScope (ae_discover env) (re_numeric (ae_read env)) now sc) (\<lambda>rs. return_act (DiscoveryRun rs)))"

definition discovered_route :: "'u api_env \<Rightarrow> (db, api_answer) act" where
  "discovered_route env = gets_act (\<lambda>d. DiscoveredGroups (groupedDiscoveredModels (re_date (ae_read env)) (re_iso (ae_read env)) d))"

section \<open>Quota\<close>

text \<open>A path segment that is not a key is refused by the first statement that uses it; \<open>checks\<close> is what the handler tests before.\<close>

definition with_ids :: "(db \<times> 'u, unit) act \<Rightarrow> string list \<Rightarrow> (uuid list \<Rightarrow> (db \<times> 'u, 'a) act) \<Rightarrow> (db \<times> 'u, 'a) act" where
  "with_ids checks keys m =
     (if list_all (\<lambda>k. k \<noteq> [] \<and> list_all is_digit k) keys then m (map dec_val keys)
      else then_act checks (throw (DbError ''invalid_text_representation'')))"

definition quota_route :: "string \<Rightarrow> ms \<Rightarrow> (db \<times> 'u, api_answer) act" where
  "quota_route key now = with_ids (return_act ()) [key] (\<lambda>ids. bind_act (on_db (getCodexQuota (hd ids) now)) (\<lambda>q. return_act (QuotaView q)))"

definition refresh_route :: "'u api_env \<Rightarrow> string \<Rightarrow> ms \<Rightarrow> (db \<times> 'u, api_answer) act" where
  "refresh_route env key now =
     with_ids (return_act ()) [key] (\<lambda>ids. bind_act (refreshCodexQuota (ae_dispatch env) (re_date (ae_read env)) (hd ids) now) (\<lambda>p. return_act (QuotaState p)))"

definition bounded_body :: "'u api_env \<Rightarrow> api_request \<Rightarrow> (db \<times> 'u, jv) act" where
  "bounded_body env req =
     bind_act (lift_res (readJsonBounded (ad_crypto (ae_admin env)) (ap_length req) (ap_chunks req) (16 * 1024))) (\<lambda>body.
     then_act (guard_act (\<not> nullish body) (JsError ''TypeError'')) (return_act body))"

definition reset_route :: "'u api_env \<Rightarrow> string \<Rightarrow> api_request \<Rightarrow> (db \<times> 'u, api_answer) act" where
  "reset_route env key req =
     bind_act (bounded_body env req) (\<lambda>body.
     let confirmed = (get_prop body ''confirmed'' = JBool True); idem = (case ap_key req of None \<Rightarrow> [] | Some k \<Rightarrow> k)
     in with_ids (then_act (guard_act confirmed (ApiError 400 ''quota_reset_confirmation_required'' ''Reset confirmation is required''))
                           (lift_res (validateIdempotencyKey idem))) [key]
          (\<lambda>ids. bind_act (resetCodexQuota (ae_dispatch env) (re_date (ae_read env)) True (hd ids) idem confirmed (ap_upstream req)
                   (cq_now (ap_control req)) (ap_later req) (ap_last req)) (\<lambda>r. return_act (ResetOperation r))))"

definition reconcile_route :: "'u api_env \<Rightarrow> string \<Rightarrow> string \<Rightarrow> api_request \<Rightarrow> (db \<times> 'u, api_answer) act" where
  "reconcile_route env key oper req =
     with_ids (return_act ()) [key, oper] (\<lambda>ids.
       bind_act (reconcileCodexQuotaReset (ae_dispatch env) (ids ! 0) (ids ! 1) (cq_now (ap_control req)) (ap_later req)) (\<lambda>r. return_act (ResetOperation r)))"

definition resolve_route :: "'u api_env \<Rightarrow> string \<Rightarrow> string \<Rightarrow> api_request \<Rightarrow> (db \<times> 'u, api_answer) act" where
  "resolve_route env key oper req =
     bind_act (bounded_body env req) (\<lambda>body.
     let resolution = (if get_prop body ''resolution'' \<in> {JStr ''succeeded'', JStr ''failed''} then text_of (get_prop body ''resolution'') else []);
         note = (case get_prop body ''note'' of JStr s \<Rightarrow> s | _ \<Rightarrow> [])
     in with_ids (then_act (guard_act (resolution \<noteq> []) (ApiError 400 ''resolution_invalid'' ''Resolution must be succeeded or failed''))
                           (guard_act (10 \<le> length (js_trim note) \<and> length (js_trim note) \<le> 1000)
                             (ApiError 400 ''resolution_note_required'' ''A resolution note of 10 to 1000 characters is required''))) [key, oper]
          (\<lambda>ids. bind_act (on_db (resolveCodexQuotaReset (ids ! 0) (ids ! 1) resolution note (cq_now (ap_control req)))) (\<lambda>r. return_act (ResetOperation r))))"

section \<open>Which route a request takes\<close>

definition only :: "http_method \<Rightarrow> api_request \<Rightarrow> ('s, api_answer) act \<Rightarrow> ('s, api_answer) act" where
  "only m req act = (if ap_method req = m then act else return_act MethodNotAllowed)"

definition specific_route :: "'u api_env \<Rightarrow> api_request \<Rightarrow> (db \<times> 'u, api_answer) act option" where
  "specific_route env req =
     (let body = cq_body (ap_control req); now = cq_now (ap_control req); adm = ae_admin env
      in case cq_path (ap_control req) of
           [a] \<Rightarrow> if a = ''model-discovery'' then Some (only Post req (on_db (discovery_route env now body)))
                  else if a = ''discovered-models'' then Some (only Get req (on_db (discovered_route env))) else None
         | [a, b] \<Rightarrow> if a = ''accounts'' \<and> b = ''batch'' then Some (only Post req (on_db (accounts_batch_route adm body)))
                  else if a = ''models'' \<and> b = ''batch'' then Some (only Post req (on_db (models_batch_route adm body)))
                  else if a = ''models'' \<and> b = ''import-selection'' then Some (only Post req (on_db (import_selection_route adm body))) else None
         | [a, b, c] \<Rightarrow> if a = ''models'' \<and> c = ''rename'' then Some (only Post req (on_db (rename_route adm b body)))
                  else if a = ''accounts'' \<and> c = ''quota'' then Some (only Get req (quota_route b now)) else None
         | [a, b, c, e] \<Rightarrow> if a = ''accounts'' \<and> c = ''quota'' \<and> e = ''refresh'' then Some (only Post req (refresh_route env b now))
                  else if a = ''accounts'' \<and> c = ''quota'' \<and> e = ''reset'' then Some (only Post req (reset_route env b req)) else None
         | [a, b, c, e, f, g] \<Rightarrow> if a = ''accounts'' \<and> c = ''quota'' \<and> e = ''reset'' \<and> g = ''reconcile'' then Some (only Post req (reconcile_route env b f req))
                  else if a = ''accounts'' \<and> c = ''quota'' \<and> e = ''reset'' \<and> g = ''resolve'' then Some (only Post req (resolve_route env b f req)) else None
         | _ \<Rightarrow> None)"

definition general_route :: "'u api_env \<Rightarrow> api_request \<Rightarrow> (db, api_answer) act" where
  "general_route env req =
     (let change = (\<lambda>m. bind_act m (\<lambda>x. return_act (Changed x))); route = re_route (ae_read env); ctl = ap_control req
      in case ap_method req of
           Get \<Rightarrow> bind_act (GET (ae_read env) \<lparr>rr_control = ctl, rr_query = ap_query req\<rparr>) (\<lambda>v. return_act (Read v))
         | Post \<Rightarrow> change (POST route ctl)
         | Patch \<Rightarrow> change (PATCH route ctl)
         | Delete \<Rightarrow> change (DELETE route ctl))"

definition control_v1 :: "'u api_env \<Rightarrow> api_request \<Rightarrow> (db \<times> 'u, api_answer) act" where
  "control_v1 env req = (case specific_route env req of Some act \<Rightarrow> act | None \<Rightarrow> on_db (general_route env req))"

section \<open>Every change is recorded and drafted\<close>

text \<open>The batch imports store the draft before the audit row; the draft does not depend on the log.\<close>

lemma drafting_drafted:
  "drafting env (then_act (storeDraft env) (then_act (audit action typ res payload) (return_act x)))"
  unfolding drafting_def
proof (intro allI impI)
  fix d :: db and y d'
  let ?row = "\<lparr>au_actor = ''local-admin'', au_action = action, au_type = typ, au_resource = res, au_payload = payload\<rparr>"
  let ?d1 = "d\<lparr>audits := audits d @ [?row]\<rparr>"
  assume "then_act (storeDraft env) (then_act (audit action typ res payload) (return_act x)) d = (Inr y, d')"
  then obtain c where c: "compileDeclarativeSnapshot env d = Inr c" and d': "d' = (with_draft c d)\<lparr>audits := audits d @ [?row]\<rparr>"
    by (auto simp: bind_audit then_storeDraft return_act_apply split: sum.splits)
  have "compileDeclarativeSnapshot env ?d1 = Inr c" unfolding c [symmetric] by (rule compile_cong) simp_all
  moreover have "d' = with_draft c ?d1" by (simp add: d' with_draft_def)
  ultimately show "\<exists>d1 c a. unversioned d d1 \<and> audits d1 = audits d @ [a] \<and> au_actor a = ''local-admin''
      \<and> compileDeclarativeSnapshot env d1 = Inr c \<and> d' = with_draft c d1"
    by (intro exI [of _ ?d1] exI [of _ c] exI [of _ ?row]) (simp add: unversioned_def)
qed

lemma quiet_available [quiet_intros]: "quiet (assertAliasAvailable al)"
  unfolding assertAliasAvailable_def by (intro quiet_intros)

lemma selection_drafts: "drafting (ad_sn env) (selection_change env body)"
  unfolding selection_change_def importSelection_def
  by (rule quiet_available drafting_rules | simp add: unversioned_def)+

lemma rename_drafts: "drafting (ad_sn env) (rename_change env key body)"
  unfolding rename_change_def renameModelAlias_def
  by (rule quiet_available drafting_rules | simp add: unversioned_def)+

lemma quiet_import_entries [quiet_intros]: "quiet (import_entries b p used created es)"
  by (induction es arbitrary: used created) (auto simp: Let_def unversioned_def intro!: quiet_intros)

lemma quiet_import_lines [quiet_intros]: "quiet (import_lines b accs allowed taken created skipped ls)"
  by (induction ls arbitrary: taken created skipped) (auto simp: Let_def unversioned_def split: option.split intro!: quiet_intros)

lemma batch_drafts: "drafting env (accounts_batch_change env b)" "drafting env (models_batch_change env c)"
  unfolding accounts_batch_change_def models_batch_change_def Let_def split_beta
  by (rule drafting_drafted quiet_import_entries quiet_import_lines drafting_rules)+

interpretation selection: configuration_change "ad_sn env" "selection_change env body" for env body
  by unfold_locales (rule selection_drafts)

interpretation renaming: configuration_change "ad_sn env" "rename_change env key body" for env key body
  by unfold_locales (rule rename_drafts)

interpretation accounts_batch: configuration_change env "accounts_batch_change env b" for env b
  by unfold_locales (rule batch_drafts)

interpretation models_batch: configuration_change env "models_batch_change env b" for env b
  by unfold_locales (rule batch_drafts)

text \<open>What the general route promises of a change, for a change of its own route.\<close>

definition change_published :: "sn_env \<Rightarrow> (db, 'a) act \<Rightarrow> db \<Rightarrow> bool" where
  "change_published env m d \<longleftrightarrow>
     (case txOn m d of
        (Inl e, d') \<Rightarrow> d' = d
      | (Inr x, d') \<Rightarrow> (\<exists>a. audits d' = audits d @ [a]) \<and>
          (\<forall>now v h d''. publishLatest env now d' = (Inr (v, h), d'') \<longrightarrow>
            (\<exists>c. compileDeclarativeSnapshot env d'' = Inr c \<and> h = cs_checksum c
               \<and> (\<exists>q\<in>set (versions d''). cv_version q = v \<and> cv_status q = Published \<and> cv_snapshot q = cs_snapshot c))))"

lemma contract_published:
  assumes "configuration_change env m" and "control_ok d" and "0 < next_id d"
  shows "change_published env m d"
proof (cases "fst (txOn m d)")
  case (Inl e)
  then obtain d' where run: "txOn m d = (Inl e, d')" by (metis prod.collapse)
  then show ?thesis using txOn_Inl [OF run] by (simp add: change_published_def)
next
  case (Inr x)
  then obtain d' where run: "txOn m d = (Inr x, d')" by (metis prod.collapse)
  have "\<exists>a. audits d' = audits d @ [a]" using configuration_change.recorded [OF assms(1) run] by metis
  with configuration_change.published [OF assms run] show ?thesis by (simp add: change_published_def run)
qed

text \<open>The imports and the renaming that have routes of their own keep the contract of the general route: a failed one leaves the database as it
  was, a successful one adds one audit row, and what is published next is the configuration compiled from the state it left.\<close>

theorem specific_changes_published:
  assumes "control_ok d" and "0 < next_id d"
  shows "change_published (ad_sn env) (selection_change env body) d \<and> change_published (ad_sn env) (rename_change env key body) d
    \<and> change_published sn (accounts_batch_change sn ab) d \<and> change_published sn (models_batch_change sn mb) d"
  using contract_published [OF selection.configuration_change_axioms assms] contract_published [OF renaming.configuration_change_axioms assms]
    contract_published [OF accounts_batch.configuration_change_axioms assms] contract_published [OF models_batch.configuration_change_axioms assms]
  by simp

section \<open>The versions stay in order\<close>

lemma preserves_dispatch [preserves_intros]: "preserves (\<lambda>s. I (fst s)) (call_dispatch f a k i key)"
  by (auto simp: preserves_def call_dispatch_def split_beta)

lemma preserves_sum [preserves_intros]:
  "(\<And>e. preserves I (f e)) \<Longrightarrow> (\<And>y. preserves I (g y)) \<Longrightarrow> preserves I (case x of Inl e \<Rightarrow> f e | Inr y \<Rightarrow> g y)"
  by (cases x) simp_all

lemma preserves_txI: "(\<And>d x d'. m d = (Inr x, d') \<Longrightarrow> I d \<Longrightarrow> I d') \<Longrightarrow> preserves I (txOn m)"
  by (rule preservesI) (metis tx_preserves)

lemma preserves_contract: "configuration_change env m \<Longrightarrow> preserves control_ok (txOn m)"
  by (rule preservesI) (rule configuration_change.keeps_control_ok)

text \<open>Statements on tables the versions do not mention.\<close>

lemma control_ok_tables [simp]:
  "control_ok (d\<lparr>operations := os\<rparr>) = control_ok d" "control_ok (d\<lparr>pstates := ps\<rparr>) = control_ok d" "control_ok (d\<lparr>discovered := ds\<rparr>) = control_ok d"
  "control_ok (d\<lparr>settings := st\<rparr>) = control_ok d" "control_ok (d\<lparr>credits := cs\<rparr>) = control_ok d" "control_ok (d\<lparr>teams := ts\<rparr>) = control_ok d"
  "control_ok (d\<lparr>sessions := se\<rparr>) = control_ok d"
  by (simp_all add: control_ok_def)

lemma preserves_fresh [preserves_intros]: "preserves control_ok fresh_id"
  by (auto simp: preserves_def fresh_id_def control_ok_def intro: less_SucI)

lemma preserves_statements [preserves_intros]:
  "preserves control_ok (audit ac ty re pl)" "preserves control_ok (update_ops f)" "preserves control_ok (upsert_pstate a g)"
  "preserves control_ok (insert_credit c)" "preserves control_ok (persistAccountModels a' now ms)" "preserves control_ok (saveOidcConfig v)"
  "preserves control_ok (modify_act (add_balance t x))"
  unfolding audit_def update_ops_def upsert_pstate_def insert_credit_def persistAccountModels_def saveOidcConfig_def
  by (rule preserves_intros | simp add: add_balance_def)+

lemma quota_steps_preserve [preserves_intros]:
  "preserves control_ok (prepareReset a key pf up now)" "preserves control_ok (updateResetAfterDispatch i st sm w now)"
  "preserves control_ok (reconcileBegin a i now)" "preserves control_ok (reconcileFinish a i b q cr now)" "preserves control_ok (savedResetOperation a key now)"
  "preserves control_ok (getCodexQuota a now)" "preserves control_ok (resolveCodexQuotaReset a i re note now)"
  unfolding prepareReset_def updateResetAfterDispatch_def reconcileBegin_def reconcileFinish_def savedResetOperation_def getCodexQuota_def
    resolveCodexQuotaReset_def expirePendingReset_def Let_def
  by (rule preserves_intros | simp)+

lemma refresh_preserves [preserves_intros]: "preserves (\<lambda>s. control_ok (fst s)) (refreshCodexQuota f p a now)"
  unfolding refreshCodexQuota_def Let_def by (rule preserves_intros)+

lemma reset_preserves [preserves_intros]:
  "preserves (\<lambda>s. control_ok (fst s)) (resetCodexQuota f p b a key cf up n0 n1 n2)" "preserves (\<lambda>s. control_ok (fst s)) (reconcileCodexQuotaReset f a i n0 n1)"
  unfolding resetCodexQuota_def reconcileCodexQuotaReset_def finishReset_def refreshAfterReset_def Let_def split_beta
  by (rule preserves_intros)+

lemma gate_preserves [preserves_intros]: "preserves control_ok (admin_gate env req)"
proof (rule preservesI)
  fix d assume ok: "control_ok d"
  have "only_sessions d (snd (admin_gate env req d))" by (rule admin_gate_state [OF surjective_pairing])
  then show "control_ok (snd (admin_gate env req d))" using ok unfolding only_sessions_def by (metis control_ok_tables(7))
qed

lemma rollback_preserves [preserves_intros]: "preserves control_ok (rollback sn v)"
proof (rule preservesI)
  fix d assume ok: "control_ok d"
  show "control_ok (snd (rollback sn v d))"
  proof (cases "fst (rollback sn v d)")
    case (Inl e)
    then have "rollback sn v d = (Inl e, snd (rollback sn v d))" by (metis prod.collapse)
    then have "snd (rollback sn v d) = d" unfolding rollback_def by (rule txOn_Inl)
    then show ?thesis using ok by simp
  next
    case (Inr x)
    then have "rollback sn v d = (Inr x, snd (rollback sn v d))" by (metis prod.collapse)
    then show ?thesis using ok by (rule rollback_control_ok)
  qed
qed

lemma tx_rules [preserves_intros]:
  "preserves control_ok (txOn (publishLatest sn now))" "preserves control_ok (txOn (importSnapshot tr doc))"
  "preserves control_ok (txOn (POST_change env r random body))" "preserves control_ok (txOn (PATCH_change env r key body))"
  "preserves control_ok (txOn (DELETE_change env r key))" "preserves control_ok (txOn (selection_change env body))"
  "preserves control_ok (txOn (rename_change env key body))" "preserves control_ok (accounts_batch_POST sn ab)" "preserves control_ok (models_batch_POST sn mb)"
  unfolding accounts_batch_POST_def models_batch_POST_def
  using publishLatest_control_ok
  by (blast intro: preserves_txI preserves_contract import.configuration_change_axioms post.configuration_change_axioms patch.configuration_change_axioms
      delete.configuration_change_axioms selection.configuration_change_axioms renaming.configuration_change_axioms
      accounts_batch.configuration_change_axioms models_batch.configuration_change_axioms)+


lemma general_handlers_preserve [preserves_intros]:
  "preserves control_ok (billing_adjust env body)" "preserves control_ok (saveOidcSettings oe lic body)" "preserves control_ok (rollback_POST env body)"
  unfolding billing_adjust_def saveOidcSettings_def rollback_POST_def billingAdjust_def
  by (auto split: option.split jv.split jsnum.split intro!: preserves_intros)

lemma general_route_preserves: "preserves control_ok (general_route env req)"
  unfolding general_route_def GET_def POST_def PATCH_def DELETE_def import_POST_def publish_POST_def Let_def split_beta
  by (cases "ap_method req"; simp only: http_method.case; (rule preserves_intros)+)

lemma with_ids_preserves [preserves_intros]:
  "preserves I checks \<Longrightarrow> (\<And>ids. preserves I (m ids)) \<Longrightarrow> preserves I (with_ids checks keys m)"
  unfolding with_ids_def by (intro preserves_intros)

lemma preserves_reading [preserves_intros]: "preserves I (\<lambda>d. (g d, d))"
  by (simp add: preserves_def)

lemma discovery_preserves [preserves_intros]: "preserves control_ok (discover_all f g now as)"
  by (induction as) (auto simp: discover_account_def intro!: preserves_intros)

lemma only_preserves [preserves_intros]: "preserves I m \<Longrightarrow> preserves I (only h req m)"
  unfolding only_def by (intro preserves_intros)

lemma specific_handlers_preserve [preserves_intros]:
  "preserves control_ok (accounts_batch_route adm body)" "preserves control_ok (models_batch_route adm body)"
  "preserves control_ok (import_selection_route adm body)" "preserves control_ok (rename_route adm key body)"
  "preserves control_ok (discovery_route env now body)" "preserves control_ok (discovered_route env)"
  unfolding accounts_batch_route_def models_batch_route_def import_selection_route_def rename_route_def discovery_route_def discovered_route_def
    batch_route_def parse_body_def range_act_def discoverModelsForScope_def split_beta
  by (rule preserves_intros)+

lemma quota_handlers_preserve [preserves_intros]:
  "preserves (\<lambda>s. control_ok (fst s)) (quota_route key now)" "preserves (\<lambda>s. control_ok (fst s)) (refresh_route env key now)"
  "preserves (\<lambda>s. control_ok (fst s)) (reset_route env key req)" "preserves (\<lambda>s. control_ok (fst s)) (reconcile_route env key oper req)"
  "preserves (\<lambda>s. control_ok (fst s)) (resolve_route env key oper req)"
  unfolding quota_route_def refresh_route_def reset_route_def reconcile_route_def resolve_route_def bounded_body_def Let_def
  by (rule preserves_intros)+

lemma specific_route_preserves: "specific_route env req = Some m \<Longrightarrow> preserves (\<lambda>s. control_ok (fst s)) m"
  unfolding specific_route_def Let_def by (auto split: list.splits if_splits intro!: preserves_intros)

lemma control_v1_preserves: "preserves (\<lambda>s. control_ok (fst s)) (control_v1 env req)"
  unfolding control_v1_def using specific_route_preserves by (auto split: option.split intro!: preserves_intros general_route_preserves)


section \<open>Who may call\<close>

lemma stranger_refused:
  assumes "rs_edition (ad_licence (rt_admin env)) \<noteq> Oss" and "cq_auth req = \<lparr>rq_authorization = None, rq_cookie = None\<rparr>"
  shows "\<exists>e. admin_gate env req d = (Inl e, d)"
proof -
  have "\<exists>e. requireOperator (ad_crypto (rt_admin env)) (ad_licence (rt_admin env)) (rt_master env) (cq_auth req) (cq_now req) d = (Inl e, d)"
    using assms by (simp add: requireOperator_def bearerFrom_def cookie_token_def resolveSession_def act_defs)
  then show ?thesis using assms(1) by (auto simp: admin_gate_apply Let_def split: sum.split)
qed

lemma request_fields:
  "ap_control (any\<lparr>ap_control := c\<rparr>) = c" "ap_method (any\<lparr>ap_control := c\<rparr>) = ap_method any" "ap_key (any\<lparr>ap_control := c\<rparr>) = ap_key any"
  "ap_upstream (any\<lparr>ap_control := c\<rparr>) = ap_upstream any" "ap_later (any\<lparr>ap_control := c\<rparr>) = ap_later any" "ap_last (any\<lparr>ap_control := c\<rparr>) = ap_last any"
  "cq_body (q\<lparr>cq_auth := auth, cq_forwarded := addr\<rparr>) = cq_body q" "cq_path (q\<lparr>cq_auth := auth, cq_forwarded := addr\<rparr>) = cq_path q"
  "cq_now (q\<lparr>cq_auth := auth, cq_forwarded := addr\<rparr>) = cq_now q"
  by simp_all

lemma handlers_ignore:
  "only h (any\<lparr>ap_control := c\<rparr>) m = only h any m" "bounded_body env (any\<lparr>ap_control := c\<rparr>) = bounded_body env any"
  by (simp_all add: only_def bounded_body_def)

lemma quota_handlers_ignore:
  assumes "cq_now c = cq_now (ap_control any)"
  shows "reset_route env key (any\<lparr>ap_control := c\<rparr>) = reset_route env key any" "reconcile_route env key oper (any\<lparr>ap_control := c\<rparr>) = reconcile_route env key oper any"
    "resolve_route env key oper (any\<lparr>ap_control := c\<rparr>) = resolve_route env key oper any"
  unfolding reset_route_def reconcile_route_def resolve_route_def handlers_ignore Let_def by (simp_all only: request_fields assms)

lemma specific_route_ignores:
  "specific_route env (any\<lparr>ap_control := (ap_control any)\<lparr>cq_auth := auth, cq_forwarded := addr\<rparr>\<rparr>) = specific_route env any"
  unfolding specific_route_def Let_def by (simp only: handlers_ignore quota_handlers_ignore request_fields)

text \<open>C21: on a hosted edition the routes of their own are open to everyone: no handler among them looks at the session, the token or the address of
  the caller, so a request without any of them, which the general route refuses, renames a model, rewrites the keys that
  name it, leaves an audit row of the local administrator and a draft of the new configuration.\<close>

theorem specific_routes_open:
  assumes "rs_edition (ad_licence (ae_admin env)) \<noteq> Oss" and "cq_auth (ap_control req) = \<lparr>rq_authorization = None, rq_cookie = None\<rparr>"
    and "cq_path (ap_control req) = [''models'', key, ''rename'']" and "ap_method req = Post"
    and "txOn (rename_change (ae_admin env) key (cq_body (ap_control req))) d = (Inr m, d')"
  shows "(\<exists>e. admin_gate (re_route (ae_read env)) (ap_control req) d = (Inl e, d))
    \<and> control_v1 env req (d, u) = (Inr (ModelAlias m), (d', u))
    \<and> (\<exists>a. audits d' = audits d @ [a] \<and> au_actor a = ''local-admin'')
    \<and> (\<forall>any auth addr. specific_route env (any\<lparr>ap_control := (ap_control any)\<lparr>cq_auth := auth, cq_forwarded := addr\<rparr>\<rparr>) = specific_route env any)"
proof -
  have "\<exists>a. audits d' = audits d @ [a] \<and> au_actor a = ''local-admin''"
    using assms(5) renaming.drafts unfolding drafting_def txOn_Inr_iff by (metis with_draft_simps(16))
  moreover have "control_v1 env req (d, u) = (Inr (ModelAlias m), (d', u))"
    using assms(3-5) by (simp add: control_v1_def specific_route_def only_def on_db_apply rename_route_def bind_act_Inr [where m = "txOn _"] return_act_apply)
  ultimately show ?thesis using specific_route_ignores stranger_refused [OF assms(1,2)] by blast
qed

section \<open>Witnesses\<close>

definition api_demo :: "unit api_env" where
  "api_demo = \<lparr>ae_read = read_demo, ae_dispatch = (\<lambda>_ _ _ _ s. (Inl (JsError []), snd s)), ae_discover = (\<lambda>_ _. Inl (JsError []))\<rparr>"

definition rename_request :: api_request where
  "rename_request = \<lparr>ap_method = Post, ap_control = \<lparr>cq_auth = \<lparr>rq_authorization = None, rq_cookie = None\<rparr>, cq_forwarded = None,
     cq_path = [''models'', ''3'', ''rename''], cq_body = JObj [(''alias'', JStr ''b'')], cq_random = [], cq_now = 5\<rparr>, ap_query = [], ap_key = None, ap_length = None,
     ap_chunks = [], ap_upstream = [], ap_later = 5, ap_last = 5\<rparr>"

lemma demo_rename_runs: "\<exists>m d'. txOn (rename_change demo_admin ''3'' (JObj [(''alias'', JStr ''b'')])) demo_catalog = (Inr m, d')"
proof -
  obtain x d' where run: "renameModelAlias demo_sn 3 ''b'' demo_catalog = (Inr x, d')" using demo_renamed by blast
  have "rename_change demo_admin ''3'' (JObj [(''alias'', JStr ''b'')]) demo_catalog = (Inr x, d')"
    using run by (simp add: rename_change_def parse_body_def z_object_def bind_lift then_act_def path_uuid_def validatePublicAlias_def alias_ok_def dec_val_def digit_val_def char_class_defs)
  then show ?thesis by (auto simp: txOn_Inr_iff)
qed

theorem specific_routes_open_witness:
  "\<exists>m d' a e. control_v1 api_demo rename_request (demo_catalog, ()) = (Inr (ModelAlias m), (d', ())) \<and> audits d' = audits demo_catalog @ [a]
     \<and> admin_gate demo_route (ap_control rename_request) demo_catalog = (Inl e, demo_catalog)"
proof -
  obtain m d' where run: "txOn (rename_change demo_admin ''3'' (JObj [(''alias'', JStr ''b'')])) demo_catalog = (Inr m, d')"
    using demo_rename_runs by blast
  have env: "ae_admin api_demo = demo_admin" "re_route (ae_read api_demo) = demo_route" by (simp_all add: api_demo_def read_demo_def demo_route_def)
  have "rs_edition (ad_licence (ae_admin api_demo)) \<noteq> Oss" "cq_auth (ap_control rename_request) = \<lparr>rq_authorization = None, rq_cookie = None\<rparr>"
    "cq_path (ap_control rename_request) = [''models'', ''3'', ''rename'']" "ap_method rename_request = Post"
    "txOn (rename_change (ae_admin api_demo) ''3'' (cq_body (ap_control rename_request))) demo_catalog = (Inr m, d')"
    using run env by (simp_all add: rename_request_def demo_admin_def)
  from specific_routes_open [OF this, of "()"] env show ?thesis by metis
qed


theorem specific_changes_published_witness:
  "change_published demo_sn (rename_change demo_admin ''3'' (JObj [(''alias'', JStr ''b'')])) demo_tables_db"
  using specific_changes_published [OF demo_tables_facts(5,6), where env = demo_admin and key = "''3''" and body = "JObj [(''alias'', JStr ''b'')]"] by simp

end
