(* ===== verification/Worker_Pool.thy ===== *)
theory Worker_Pool
  imports Discovery "HOL-Library.Multiset"
begin
text \<open>
  \<open>mapLimit\<close> of \<open>lib/codex/operations.ts\<close>: workers that share an index take the items of a list one after the other and wait for the job of
  each.  Jobs end in any order, so a run is a sequence of completions chosen freely.  It is shown that every run ends, with each item
  done once, and that the discovery of models leaves the same rows whatever the order; the sequential definition \<open>discover_all\<close> of
  \<open>Discovery\<close> therefore speaks about every interleaving.
\<close>

section \<open>Workers\<close>

datatype worker = Fetching nat | Finished

record ('s, 'r) pool =
  wp_next :: nat
  wp_out :: "'r option list"
  wp_workers :: "worker list"
  wp_state :: 's

text \<open>\<open>while (next < items.length) { const index = next++; \<dots> }\<close> up to the next wait.\<close>

definition claim :: "nat \<Rightarrow> nat \<Rightarrow> worker \<times> nat" where
  "claim n k = (if k < n then (Fetching k, Suc k) else (Finished, k))"

text \<open>\<open>Array.from\<close> runs every new worker up to its first wait.\<close>

fun spawn :: "nat \<Rightarrow> nat \<Rightarrow> nat \<Rightarrow> worker list \<times> nat" where
  "spawn n 0 k = ([], k)"
| "spawn n (Suc m) k = (let (w, k1) = claim n k; (ws, k2) = spawn n m k1 in (w # ws, k2))"

definition start_pool :: "nat \<Rightarrow> 'a list \<Rightarrow> 's \<Rightarrow> ('s, 'r) pool" where
  "start_pool limit items s =
     (let n = length items; (ws, k) = spawn n (min limit n) 0
      in \<lparr>wp_next = k, wp_out = replicate n None, wp_workers = ws, wp_state = s\<rparr>)"

text \<open>The job of a worker ends: it takes effect on the shared state, its result is stored, and the worker goes on.\<close>

definition finish_job :: "('a \<Rightarrow> 's \<Rightarrow> 'r \<times> 's) \<Rightarrow> 'a list \<Rightarrow> nat \<Rightarrow> nat \<Rightarrow> ('s, 'r) pool \<Rightarrow> ('s, 'r) pool" where
  "finish_job job items w i p =
     (let (r, s) = job (items ! i) (wp_state p); (next_job, k) = claim (length items) (wp_next p)
      in \<lparr>wp_next = k, wp_out = (wp_out p)[i := Some r], wp_workers = (wp_workers p)[w := next_job], wp_state = s\<rparr>)"

inductive pool_step :: "('a \<Rightarrow> 's \<Rightarrow> 'r \<times> 's) \<Rightarrow> 'a list \<Rightarrow> ('s, 'r) pool \<Rightarrow> ('s, 'r) pool \<Rightarrow> bool" for job items where
  Completed: "w < length (wp_workers p) \<Longrightarrow> wp_workers p ! w = Fetching i \<Longrightarrow> pool_step job items p (finish_job job items w i p)"

inductive_cases pool_stepE: "pool_step job items p p'"

text \<open>\<open>Promise.all(workers)\<close> has resolved.\<close>

definition settled :: "('s, 'r) pool \<Rightarrow> bool" where
  "settled p \<longleftrightarrow> list_all (\<lambda>w. w = Finished) (wp_workers p)"

fun job_of :: "worker \<Rightarrow> nat list" where
  "job_of (Fetching i) = [i]"
| "job_of Finished = []"

definition flying :: "('s, 'r) pool \<Rightarrow> nat list" where
  "flying p = concat (map job_of (wp_workers p))"

section \<open>Every run ends with each item done once\<close>

lemma spawn_first: "k + m \<le> n \<Longrightarrow> spawn n m k = (map Fetching [k..<k + m], k + m)"
  by (induction m arbitrary: k) (simp_all add: claim_def upt_conv_Cons)

lemma start_pool_apply:
  "start_pool limit items s = \<lparr>wp_next = min limit (length items), wp_out = replicate (length items) None,
     wp_workers = map Fetching [0..<min limit (length items)], wp_state = s\<rparr>"
  by (simp add: start_pool_def spawn_first Let_def)

lemma flying_start: "flying (start_pool limit items s) = [0..<min limit (length items)]"
  by (simp add: flying_def start_pool_apply comp_def)

text \<open>What holds after the jobs \<open>ds\<close> have ended in this order.\<close>

definition pool_after :: "('a \<Rightarrow> 's \<Rightarrow> 'r \<times> 's) \<Rightarrow> 'a list \<Rightarrow> 's \<Rightarrow> nat list \<Rightarrow> ('s, 'r) pool \<Rightarrow> bool" where
  "pool_after job items s0 ds p \<longleftrightarrow>
     mset ds + mset (flying p) = mset [0..<wp_next p] \<and> wp_next p \<le> length items \<and> (Finished \<in> set (wp_workers p) \<longrightarrow> wp_next p = length items)
     \<and> wp_state p = fold (\<lambda>i s. snd (job (items ! i) s)) ds s0 \<and> length (wp_out p) = length items
     \<and> (\<forall>i\<in>set ds. \<exists>s. wp_out p ! i = Some (fst (job (items ! i) s)))"

lemma flying_update:
  assumes "w < length ws" and "ws ! w = Fetching i"
  shows "mset (concat (map job_of (ws[w := x]))) + {#i#} = mset (concat (map job_of ws)) + mset (job_of x)"
proof -
  have split: "ws = take w ws @ Fetching i # drop (Suc w) ws" using id_take_nth_drop [OF assms(1)] assms(2) by simp
  have "mset (concat (map job_of ws)) = mset (concat (map job_of (take w ws))) + {#i#} + mset (concat (map job_of (drop (Suc w) ws)))"
    by (subst split) simp
  moreover have "ws[w := x] = take w ws @ x # drop (Suc w) ws" using assms(1) by (rule upd_conv_take_nth_drop)
  ultimately show ?thesis by simp
qed

lemma pool_after_start: "pool_after job items s0 [] (start_pool limit items s0)"
  by (auto simp: pool_after_def flying_start) (auto simp: start_pool_apply)

lemma finish_job_fields:
  assumes "claim (length items) (wp_next p) = (x, k)"
  shows "wp_next (finish_job job items w i p) = k" "wp_workers (finish_job job items w i p) = (wp_workers p)[w := x]"
    "wp_out (finish_job job items w i p) = (wp_out p)[i := Some (fst (job (items ! i) (wp_state p)))]"
    "wp_state (finish_job job items w i p) = snd (job (items ! i) (wp_state p))"
  using assms by (simp_all add: finish_job_def split_beta Let_def)

lemma pool_after_step:
  assumes ok: "pool_after job items s0 ds p" and w: "w < length (wp_workers p)" "wp_workers p ! w = Fetching i"
  shows "pool_after job items s0 (ds @ [i]) (finish_job job items w i p)"
proof -
  obtain x k where c: "claim (length items) (wp_next p) = (x, k)" by fastforce
  note f = finish_job_fields [OF c, of job w i]
  have fly: "mset (flying (finish_job job items w i p)) + {#i#} = mset (flying p) + mset (job_of x)"
    unfolding flying_def f by (rule flying_update [OF w])
  have k: "mset [0..<wp_next p] + mset (job_of x) = mset [0..<k]" "k \<le> length items" "x = Finished \<longrightarrow> k = length items" "wp_next p \<le> k"
    using ok c by (auto simp: claim_def pool_after_def simp del: mset_upt split: if_splits)
  have ms: "mset ds + mset (flying p) = mset [0..<wp_next p]" using ok by (simp add: pool_after_def)
  then have "set ds \<union> set (flying p) = {0..<wp_next p}" by (metis set_mset_mset set_mset_union set_upt)
  moreover have "i \<in> set (flying p)" using w nth_mem [OF w(1)] by (force simp: flying_def)
  ultimately have "i < wp_next p" by auto
  then have i: "i < length items" using ok by (simp add: pool_after_def)
  have "mset (ds @ [i]) + mset (flying (finish_job job items w i p)) = mset [0..<k]"
    using fly ms k(1) by (simp add: ac_simps) (metis add_mset_add_single union_commute union_assoc)
  moreover have "Finished \<in> set ((wp_workers p)[w := x]) \<longrightarrow> k = length items"
    using ok k set_update_subset_insert [of "wp_workers p" w x] by (auto simp: pool_after_def)
  ultimately show ?thesis using ok k(2) i by (auto simp: pool_after_def f nth_list_update)
qed

text \<open>The number of jobs that have not ended.\<close>

definition jobs_left :: "'a list \<Rightarrow> ('s, 'r) pool \<Rightarrow> nat" where
  "jobs_left items p = length (flying p) + (length items - wp_next p)"

lemma jobs_left_step:
  assumes "w < length (wp_workers p)" "wp_workers p ! w = Fetching i"
  shows "Suc (jobs_left items (finish_job job items w i p)) = jobs_left items p"
proof -
  obtain x k where c: "claim (length items) (wp_next p) = (x, k)" by fastforce
  have "mset (flying (finish_job job items w i p)) + {#i#} = mset (flying p) + mset (job_of x)"
    unfolding flying_def finish_job_fields [OF c] by (rule flying_update [OF assms])
  then have "Suc (length (flying (finish_job job items w i p))) = length (flying p) + length (job_of x)"
    by (metis add.commute plus_1_eq_Suc size_mset size_union size_single)
  then show ?thesis using c by (auto simp: jobs_left_def finish_job_fields [OF c] claim_def split: if_splits)
qed

lemma pool_runs:
  assumes "(pool_step job items ^^ k) (start_pool limit items s0) p"
  shows "\<exists>ds. pool_after job items s0 ds p \<and> length ds = k \<and> k + jobs_left items p = length items \<and> length (wp_workers p) = min limit (length items)"
  using assms
proof (induction k arbitrary: p)
  case 0
  then have p: "p = start_pool limit items s0" by simp
  have "length (flying p) = min limit (length items)" unfolding p flying_start by simp
  then show ?case using pool_after_start [of job items s0 limit] unfolding p by (auto simp: jobs_left_def) (simp_all add: start_pool_apply)
next
  case (Suc k)
  then obtain q where q: "(pool_step job items ^^ k) (start_pool limit items s0) q" "pool_step job items q p" by auto
  from q(2) obtain w i where w: "w < length (wp_workers q)" "wp_workers q ! w = Fetching i" and p: "p = finish_job job items w i q" by (rule pool_stepE)
  from Suc.IH [OF q(1)] obtain ds where ds: "pool_after job items s0 ds q" "length ds = k" "k + jobs_left items q = length items"
    "length (wp_workers q) = min limit (length items)" by blast
  have "length (wp_workers p) = length (wp_workers q)" unfolding p by (simp add: finish_job_def Let_def split_beta)
  then show ?case using pool_after_step [OF ds(1) w] jobs_left_step [OF w, of items job] ds unfolding p by (intro exI [of _ "ds @ [i]"]) auto
qed

text \<open>In every interleaving at most \<open>limit\<close> jobs are in flight, and as long as not every worker has finished some job can end;
  after exactly as many completions as there are items every worker has finished, the results stand in the order of the items, and the shared state is the one the
  jobs leave when they run one after the other in the order in which they ended.\<close>

lemma mapLimit_runs:
  assumes "0 < limit" and "\<And>a s. fst (job a s) = res a" and "(pool_step job items ^^ k) (start_pool limit items s0) p"
  shows "length (flying p) \<le> limit \<and> k \<le> length items \<and> (settled p \<longleftrightarrow> k = length items) \<and> (settled p \<or> (\<exists>p'. pool_step job items p p'))
    \<and> (settled p \<longrightarrow> wp_out p = map (Some \<circ> res) items \<and> (\<exists>as. mset as = mset items \<and> wp_state p = fold (\<lambda>a s. snd (job a s)) as s0))"
proof -
  obtain ds where ok: "pool_after job items s0 ds p" and k: "k + jobs_left items p = length items" and ws: "length (wp_workers p) = min limit (length items)"
    using pool_runs [OF assms(3)] by blast
  have "length (concat (map job_of xs)) \<le> length xs" for xs
  proof (induction xs)
    case (Cons x xs)
    then show ?case by (cases x) simp_all
  qed simp
  then have few: "length (flying p) \<le> limit" using ws by (metis flying_def min.bounded_iff order_refl)
  have stop: "settled p \<longleftrightarrow> flying p = []" unfolding settled_def flying_def list_all_iff concat_eq_Nil_conv
    by (auto elim: job_of.elims)
  have done_all: "wp_next p = length items" if "settled p"
  proof (cases "items = []")
    case True
    then show ?thesis using ok by (simp add: pool_after_def)
  next
    case False
    then obtain w where "w \<in> set (wp_workers p)" using ws assms(1) by (metis length_greater_0_conv min_less_iff_conj list.set_intros(1) neq_Nil_conv)
    then show ?thesis using ok that by (auto simp: pool_after_def settled_def list_all_iff)
  qed
  have "settled p \<longleftrightarrow> k = length items" using k stop done_all by (auto simp: jobs_left_def)
  moreover have "\<exists>p'. pool_step job items p p'" if "\<not> settled p"
    using that unfolding settled_def list_all_length by (metis pool_step.Completed worker.exhaust)
  moreover have "wp_out p = map (Some \<circ> res) items \<and> (\<exists>as. mset as = mset items \<and> wp_state p = fold (\<lambda>a s. snd (job a s)) as s0)" if "settled p"
  proof -
    have ds: "mset ds = mset [0..<length items]" using ok done_all [OF that] stop that by (simp add: pool_after_def)
    have "mset (map ((!) items) ds) = mset items" by (metis ds map_nth mset_map)
    moreover have "wp_state p = fold (\<lambda>a s. snd (job a s)) (map ((!) items) ds) s0" using ok by (simp add: pool_after_def fold_map comp_def)
    moreover have "set ds = {0..<length items}" by (metis ds set_mset_mset set_upt)
    then have "wp_out p = map (Some \<circ> res) items" using ok assms(2) by (intro nth_equalityI) (auto simp: pool_after_def)
    ultimately show ?thesis by blast
  qed
  ultimately show ?thesis using few k by auto
qed

section \<open>Updates of rows with different owners commute\<close>

text \<open>An update of a table on behalf of an owner: it touches only that owner's rows, and the order of the rows does not matter.\<close>

locale owned_updates =
  fixes owner_of :: "'r \<Rightarrow> 'k" and owner :: "'a \<Rightarrow> 'k" and upd :: "'a \<Rightarrow> 'r list \<Rightarrow> 'r list"
  assumes own_rows: "filter (\<lambda>r. owner_of r = owner a) (upd a rows) = upd a (filter (\<lambda>r. owner_of r = owner a) rows)"
    and other_rows: "filter (\<lambda>r. owner_of r \<noteq> owner a) (upd a rows) = filter (\<lambda>r. owner_of r \<noteq> owner a) rows"
    and row_order: "mset rows = mset rows' \<Longrightarrow> mset (upd a rows) = mset (upd a rows')"
begin

lemma upd_split: "mset (upd a rows) = mset (upd a (filter (\<lambda>r. owner_of r = owner a) rows)) + mset (filter (\<lambda>r. owner_of r \<noteq> owner a) rows)"
  by (metis own_rows other_rows mset_filter multiset_partition)

lemma upd_other:
  assumes "owner a \<noteq> owner b"
  shows "filter (\<lambda>r. owner_of r = owner a) (upd b rows) = filter (\<lambda>r. owner_of r = owner a) rows"
proof -
  have "filter (\<lambda>r. owner_of r = owner a) xs = filter (\<lambda>r. owner_of r = owner a) (filter (\<lambda>r. owner_of r \<noteq> owner b) xs)" for xs
    using assms by (induction xs) auto
  from this [of "upd b rows"] this [of rows] show ?thesis by (simp only: other_rows)
qed

lemma upd_split_two:
  assumes "owner a \<noteq> owner b"
  shows "mset (upd a (upd b rows)) = mset (upd a (filter (\<lambda>r. owner_of r = owner a) rows)) + mset (upd b (filter (\<lambda>r. owner_of r = owner b) rows))
    + mset (filter (\<lambda>r. owner_of r \<noteq> owner a \<and> owner_of r \<noteq> owner b) rows)"
proof -
  have "filter (\<lambda>r. owner_of r \<noteq> owner a) (filter (\<lambda>r. owner_of r = owner b) xs) = filter (\<lambda>r. owner_of r = owner b) xs" for xs
    using assms by (induction xs) auto
  then have "filter (\<lambda>r. owner_of r \<noteq> owner a) (upd b (filter (\<lambda>r. owner_of r = owner b) rows)) = upd b (filter (\<lambda>r. owner_of r = owner b) rows)"
    by (simp only: own_rows [symmetric])
  moreover have "filter (\<lambda>r. owner_of r \<noteq> owner a) (filter (\<lambda>r. owner_of r \<noteq> owner b) rows) = filter (\<lambda>r. owner_of r \<noteq> owner a \<and> owner_of r \<noteq> owner b) rows"
    by (induction rows) auto
  moreover have "mset (filter P (upd b rows)) = mset (filter P (upd b (filter (\<lambda>r. owner_of r = owner b) rows))) + mset (filter P (filter (\<lambda>r. owner_of r \<noteq> owner b) rows))" for P
    using arg_cong [OF upd_split [of b rows], of "filter_mset P"] by (simp only: mset_filter filter_union_mset)
  ultimately have "mset (filter (\<lambda>r. owner_of r \<noteq> owner a) (upd b rows)) = mset (upd b (filter (\<lambda>r. owner_of r = owner b) rows))
      + mset (filter (\<lambda>r. owner_of r \<noteq> owner a \<and> owner_of r \<noteq> owner b) rows)" by presburger
  then show ?thesis unfolding upd_split [of a "upd b rows"] upd_other [OF assms] by (simp only: union_assoc)
qed

lemma upd_commute:
  assumes "owner a \<noteq> owner b"
  shows "mset (upd a (upd b rows)) = mset (upd b (upd a rows))"
proof -
  have "filter (\<lambda>r. owner_of r \<noteq> owner b \<and> owner_of r \<noteq> owner a) rows = filter (\<lambda>r. owner_of r \<noteq> owner a \<and> owner_of r \<noteq> owner b) rows"
    by (rule filter_cong) auto
  then have "mset (upd b (upd a rows)) = mset (upd b (filter (\<lambda>r. owner_of r = owner b) rows)) + mset (upd a (filter (\<lambda>r. owner_of r = owner a) rows))
      + mset (filter (\<lambda>r. owner_of r \<noteq> owner a \<and> owner_of r \<noteq> owner b) rows)"
    using upd_split_two [OF assms [symmetric], of rows] by (simp only:)
  also have "\<dots> = mset (upd a (upd b rows))"
    unfolding upd_split_two [OF assms, of rows] union_commute [of "mset (upd a (filter (\<lambda>r. owner_of r = owner a) rows))"] by (rule refl)
  finally show ?thesis by (rule sym)
qed

lemma fold_order: "mset rows = mset rows' \<Longrightarrow> mset (fold upd as rows) = mset (fold upd as rows')"
proof (induction as arbitrary: rows rows')
  case (Cons a as)
  show ?case unfolding fold_Cons comp_apply by (rule Cons.IH, rule row_order, rule Cons.prems)
qed simp

lemma fold_front:
  assumes "owner a \<notin> owner ` set us"
  shows "mset (fold upd (us @ a # vs) rows) = mset (fold upd (a # us @ vs) rows)"
  using assms
proof (induction us arbitrary: rows)
  case (Cons u us)
  have "mset (fold upd ((u # us) @ a # vs) rows) = mset (fold upd (us @ a # vs) (upd u rows))" by simp
  also have "\<dots> = mset (fold upd (a # us @ vs) (upd u rows))" by (rule Cons.IH) (use Cons.prems in auto)
  also have "\<dots> = mset (fold upd (us @ vs) (upd a (upd u rows)))" by simp
  also have "\<dots> = mset (fold upd (us @ vs) (upd u (upd a rows)))" by (rule fold_order, rule upd_commute) (use Cons.prems in auto)
  finally show ?case by simp
qed simp

lemma fold_permuted:
  assumes "mset as = mset bs" and "distinct (map owner as)"
  shows "mset (fold upd as rows) = mset (fold upd bs rows)"
  using assms
proof (induction as arbitrary: bs rows)
  case (Cons a as)
  then have "a \<in> set bs" by (metis list.set_intros(1) mset_eq_setD)
  then obtain us vs where bs: "bs = us @ a # vs" by (auto simp: in_set_conv_decomp)
  with Cons.prems have m: "mset as = mset (us @ vs)" by simp
  then have "set us \<subseteq> set as" by (metis mset_eq_setD set_append sup_ge1)
  with Cons.prems have "owner a \<notin> owner ` set us" by auto
  then have "mset (fold upd bs rows) = mset (fold upd (us @ vs) (upd a rows))" using fold_front [of a us vs rows] by (simp add: bs)
  then show ?case using Cons.IH [OF m] Cons.prems(2) by simp
qed simp

end

section \<open>The discovery of models\<close>

definition CONCURRENCY :: nat where
  "CONCURRENCY = 4"

text \<open>The job of one account; the definition of \<open>Discovery\<close> never fails.\<close>

definition discover_job :: "(account_row \<Rightarrow> db \<Rightarrow> jv res) \<Rightarrow> (rat \<Rightarrow> string) \<Rightarrow> ms \<Rightarrow> account_row \<Rightarrow> db \<Rightarrow> discovery_result \<times> db" where
  "discover_job op num now a d =
     (case discover_account op num now a d of
        (Inr r, t) \<Rightarrow> (r, t)
      | (Inl e, t) \<Rightarrow> (DiscoveryFailed (a_id a) (a_name a) (safeError e), t))"

text \<open>What the gateway's answer \<open>ans a\<close> means for the result and for the rows.\<close>

definition answered_models :: "(account_row \<Rightarrow> jv res) \<Rightarrow> (rat \<Rightarrow> string) \<Rightarrow> account_row \<Rightarrow> parsed_model list res" where
  "answered_models ans num a = (case ans a of Inl e \<Rightarrow> Inl e | Inr v \<Rightarrow> parseModels num (get_prop v ''data''))"

definition discover_rows :: "(account_row \<Rightarrow> jv res) \<Rightarrow> (rat \<Rightarrow> string) \<Rightarrow> ms \<Rightarrow> account_row \<Rightarrow> discovered_row list \<Rightarrow> discovered_row list" where
  "discover_rows ans num now a rows = (case answered_models ans num a of Inl e \<Rightarrow> rows | Inr ms \<Rightarrow> persist_rows a now ms rows)"

definition discover_result :: "(account_row \<Rightarrow> jv res) \<Rightarrow> (rat \<Rightarrow> string) \<Rightarrow> account_row \<Rightarrow> discovery_result" where
  "discover_result ans num a =
     (case answered_models ans num a of
        Inl e \<Rightarrow> DiscoveryFailed (a_id a) (a_name a) (safeError e)
      | Inr ms \<Rightarrow> Discovered (a_id a) (a_name a) (length ms) (coalesce (get_prop (projr (ans a)) ''warning_code'') JNull))"

lemma discover_account_effect:
  "discover_account (\<lambda>a d. ans a) num now a d = (Inr (discover_result ans num a), d\<lparr>discovered := discover_rows ans num now a (discovered d)\<rparr>)"
  by (simp add: discover_account_def discover_rows_def discover_result_def answered_models_def persistAccountModels_def act_defs split: sum.split)

lemma discover_job_effect:
  "discover_job (\<lambda>a d. ans a) num now a d = (discover_result ans num a, d\<lparr>discovered := discover_rows ans num now a (discovered d)\<rparr>)"
  by (simp add: discover_job_def discover_account_effect)

lemma discover_all_effect:
  "discover_all (\<lambda>a d. ans a) num now as d = (Inr (map (discover_result ans num) as), d\<lparr>discovered := fold (discover_rows ans num now) as (discovered d)\<rparr>)"
  by (induction as arbitrary: d) (simp_all add: discover_account_effect act_defs)

lemma fold_discover_job:
  "fold (\<lambda>a s. snd (discover_job (\<lambda>a d. ans a) num now a s)) as d = d\<lparr>discovered := fold (discover_rows ans num now) as (discovered d)\<rparr>"
  by (induction as arbitrary: d) (simp_all add: discover_job_effect)

subsection \<open>Rows of different accounts\<close>

lemma mset_update_where: "mset (update_where P f rows) = image_mset (\<lambda>r. if P r then f r else r) (mset rows)"
  by (simp add: update_where_def)

lemma filter_update_owned:
  assumes "\<And>r. d_account (f r) = d_account r"
  shows "filter (\<lambda>r. d_account r = i) (update_where P f rows) = update_where P f (filter (\<lambda>r. d_account r = i) rows)"
  by (induction rows) (auto simp: update_where_def assms)

lemma upsert_model_owned:
  "filter (\<lambda>r. d_account r = a_id a) (upsert_model a now m rows) = upsert_model a now m (filter (\<lambda>r. d_account r = a_id a) rows)"
  unfolding upsert_model_def upsert_where_def by (auto simp: filter_update_owned discovered_of_def)

lemma upsert_model_order: "mset rows = mset rows' \<Longrightarrow> mset (upsert_model a now m rows) = mset (upsert_model a now m rows')"
  unfolding upsert_model_def upsert_where_def by (auto simp: mset_update_where dest: mset_eq_setD)

lemma fold_upsert_model_owned:
  "filter (\<lambda>r. d_account r = a_id a) (fold (upsert_model a now) ms rows) = fold (upsert_model a now) ms (filter (\<lambda>r. d_account r = a_id a) rows)"
  by (induction ms arbitrary: rows) (simp_all add: upsert_model_owned)

lemma fold_upsert_model_order: "mset rows = mset rows' \<Longrightarrow> mset (fold (upsert_model a now) ms rows) = mset (fold (upsert_model a now) ms rows')"
proof (induction ms arbitrary: rows rows')
  case (Cons m ms)
  show ?case unfolding fold_Cons comp_apply by (rule Cons.IH, rule upsert_model_order, rule Cons.prems)
qed simp

interpretation discovery: owned_updates d_account a_id "discover_rows ans num now" for ans num now
proof
  fix a and rows rows' :: "discovered_row list"
  show "filter (\<lambda>r. d_account r = a_id a) (discover_rows ans num now a rows) = discover_rows ans num now a (filter (\<lambda>r. d_account r = a_id a) rows)"
    by (simp add: discover_rows_def persist_rows_def filter_update_owned fold_upsert_model_owned split: sum.split)
  show "filter (\<lambda>r. d_account r \<noteq> a_id a) (discover_rows ans num now a rows) = filter (\<lambda>r. d_account r \<noteq> a_id a) rows"
    using persist_rows_exact by (simp add: discover_rows_def split: sum.split)
  show "mset (discover_rows ans num now a rows) = mset (discover_rows ans num now a rows')" if "mset rows = mset rows'"
    using that by (auto simp: discover_rows_def persist_rows_def mset_update_where fold_upsert_model_order [OF that] split: sum.split)
qed

text \<open>C38: the discovery with its four workers ends after as many completions as there are accounts, never has more than four accounts in flight, and then reports and stores,
  in every interleaving, what the accounts one after the other would give: the same results in the order of the accounts, the same discovered rows, and every other table
  as it was.\<close>

theorem discovery_order_irrelevant:
  assumes "distinct (map a_id as)"
    and "(pool_step (discover_job (\<lambda>a d. ans a) num now) as ^^ k) (start_pool CONCURRENCY as d) p"
  shows "length (flying p) \<le> 4 \<and> k \<le> length as \<and> (settled p \<longleftrightarrow> k = length as)
    \<and> (settled p \<longrightarrow> (\<exists>rs t. discover_all (\<lambda>a d. ans a) num now as d = (Inr rs, t) \<and> wp_out p = map Some rs
         \<and> mset (discovered (wp_state p)) = mset (discovered t) \<and> wp_state p = t\<lparr>discovered := discovered (wp_state p)\<rparr>))"
proof -
  have run: "length (flying p) \<le> CONCURRENCY \<and> k \<le> length as \<and> (settled p \<longleftrightarrow> k = length as)"
    and done_all: "settled p \<Longrightarrow> wp_out p = map (Some \<circ> discover_result ans num) as
      \<and> (\<exists>bs. mset bs = mset as \<and> wp_state p = fold (\<lambda>a s. snd (discover_job (\<lambda>a d. ans a) num now a s)) bs d)"
    using mapLimit_runs [OF _ _ assms(2), of "discover_result ans num"] by (auto simp: CONCURRENCY_def discover_job_effect)
  have "\<exists>rs t. discover_all (\<lambda>a d. ans a) num now as d = (Inr rs, t) \<and> wp_out p = map Some rs
      \<and> mset (discovered (wp_state p)) = mset (discovered t) \<and> wp_state p = t\<lparr>discovered := discovered (wp_state p)\<rparr>" if "settled p"
  proof -
    note fin = done_all [OF that]
    obtain bs where "mset bs = mset as" and s: "wp_state p = d\<lparr>discovered := fold (discover_rows ans num now) bs (discovered d)\<rparr>"
      using fin by (auto simp: fold_discover_job)
    then have "mset (fold (discover_rows ans num now) as (discovered d)) = mset (fold (discover_rows ans num now) bs (discovered d))"
      by (intro discovery.fold_permuted) (use assms(1) in auto)
    then show ?thesis using fin by (simp add: discover_all_effect s)
  qed
  then show ?thesis using run by (simp add: CONCURRENCY_def)
qed

theorem discovery_order_irrelevant_witness:
  "\<exists>p. (pool_step (discover_job (\<lambda>a d. Inl (JsError ''down'')) (\<lambda>_. []) 0) [sample_account 1 9 ''n'', sample_account 2 9 ''n''] ^^ 2)
       (start_pool CONCURRENCY [sample_account 1 9 ''n'', sample_account 2 9 ''n''] empty_db) p \<and> settled p
     \<and> (\<exists>rs t. discover_all (\<lambda>a d. Inl (JsError ''down'')) (\<lambda>_. []) 0 [sample_account 1 9 ''n'', sample_account 2 9 ''n''] empty_db = (Inr rs, t) \<and> wp_out p = map Some rs)"
proof -
  let ?as = "[sample_account 1 9 ''n'', sample_account 2 9 ''n'']" and ?job = "discover_job (\<lambda>a d. Inl (JsError ''down'')) (\<lambda>_. []) 0"
  define p0 where "p0 = (start_pool CONCURRENCY ?as empty_db :: (db, discovery_result) pool)"
  define p1 where "p1 = finish_job ?job ?as 1 1 p0"
  define p2 where "p2 = finish_job ?job ?as 0 0 p1"
  have p0: "wp_workers p0 = [Fetching 0, Fetching 1]" "wp_next p0 = 2" by (simp_all add: p0_def start_pool_apply CONCURRENCY_def upt_rec numeral_eq_Suc)
  then have p1: "wp_workers p1 = [Fetching 0, Finished]" by (simp add: p1_def finish_job_def claim_def Let_def split_beta)
  have "pool_step ?job ?as p0 p1" unfolding p1_def by (rule Completed) (simp_all add: p0)
  moreover have "pool_step ?job ?as p1 p2" unfolding p2_def by (rule Completed) (simp_all add: p1)
  ultimately have run: "(pool_step ?job ?as ^^ 2) p0 p2" by (auto simp: numeral_2_eq_2)
  have "distinct (map a_id ?as)" by (simp add: sample_account_def)
  from discovery_order_irrelevant [OF this run [unfolded p0_def]] run show ?thesis by (auto simp: p0_def)
qed

end
