(* ===== verification/Dashboard_Basics.thy ===== *)
theory Dashboard_Basics
  imports Discovery
begin

text \<open>
  The pure helpers of the dashboard, under \<open>app/\<close>: the pages and their addresses (\<open>view-router.ts\<close>) with the navigation
  of \<open>dashboard-client.tsx\<close> over the browser's history, the choice of a language and the filling of message texts
  (\<open>i18n.ts\<close>; the texts themselves are arguments), the alias check and the quota figures of \<open>codex-client.ts\<close>.
\<close>

section \<open>Pages and their addresses\<close>

datatype page = OverviewPage | RequestsPage | AccountsPage | ModelsPage | KeysPage | TeamsPage | BillingPage | McpPage | AuditPage | SettingsPage

fun VIEW_PATHS :: "page \<Rightarrow> string" where
  "VIEW_PATHS OverviewPage = ''/''"
| "VIEW_PATHS RequestsPage = ''/requests''"
| "VIEW_PATHS AccountsPage = ''/accounts''"
| "VIEW_PATHS ModelsPage = ''/models''"
| "VIEW_PATHS KeysPage = ''/keys''"
| "VIEW_PATHS TeamsPage = ''/teams''"
| "VIEW_PATHS BillingPage = ''/billing''"
| "VIEW_PATHS McpPage = ''/mcp''"
| "VIEW_PATHS AuditPage = ''/audit''"
| "VIEW_PATHS SettingsPage = ''/settings''"

definition ALL_VIEWS :: "page list" where
  "ALL_VIEWS = [OverviewPage, RequestsPage, AccountsPage, ModelsPage, KeysPage, TeamsPage, BillingPage, McpPage, AuditPage, SettingsPage]"

text \<open>\<open>replace(/\\/+$/, '') || '/'\<close>.\<close>

definition drop_slashes :: "string \<Rightarrow> string" where
  "drop_slashes s = rev (dropWhile (\<lambda>c. c = CHR ''/'') (rev s))"

definition normalized_path :: "string \<Rightarrow> string" where
  "normalized_path p =
     (let n = drop_slashes (hd (js_split (CHR ''#'') (hd (js_split (CHR ''?'') p)))) in if n = [] then ''/'' else n)"

definition viewFromPath :: "string \<Rightarrow> page" where
  "viewFromPath p = (case find (\<lambda>v. VIEW_PATHS v = normalized_path p) ALL_VIEWS of Some v \<Rightarrow> v | None \<Rightarrow> OverviewPage)"

definition pathForView :: "page \<Rightarrow> string" where
  "pathForView v = VIEW_PATHS v"

section \<open>Navigation\<close>

text \<open>The page shown, beside the browser's own session history: the path names of its entries and the current one.\<close>

record browser =
  br_view :: page
  br_entries :: "string list"
  br_pos :: nat

definition br_path :: "browser \<Rightarrow> string" where
  "br_path b = br_entries b ! br_pos b"

text \<open>\<open>useState\<close> of the page when the dashboard is mounted.\<close>

definition opened :: "string list \<Rightarrow> nat \<Rightarrow> browser" where
  "opened ps i = \<lparr>br_view = viewFromPath (ps ! i), br_entries = ps, br_pos = i\<rparr>"

text \<open>\<open>navigate\<close>; \<open>pushState\<close> drops the entries ahead of the current one.\<close>

definition navigate :: "page \<Rightarrow> browser \<Rightarrow> browser" where
  "navigate v b =
     (let b' = b\<lparr>br_view := v\<rparr>; p = pathForView v
      in if br_path b \<noteq> p then b'\<lparr>br_entries := take (Suc (br_pos b)) (br_entries b) @ [p], br_pos := Suc (br_pos b)\<rparr> else b')"

text \<open>The browser moves to another entry and fires \<open>popstate\<close>, which \<open>onPop\<close> handles.\<close>

definition onPop :: "browser \<Rightarrow> browser" where
  "onPop b = b\<lparr>br_view := viewFromPath (br_path b)\<rparr>"

definition traverse_to :: "nat \<Rightarrow> browser \<Rightarrow> browser" where
  "traverse_to i b = onPop (b\<lparr>br_pos := i\<rparr>)"

inductive nav_step :: "browser \<Rightarrow> browser \<Rightarrow> bool" where
  Navigate: "nav_step b (navigate v b)"
| Traverse: "i < length (br_entries b) \<Longrightarrow> nav_step b (traverse_to i b)"
| Reload: "nav_step b (opened (br_entries b) (br_pos b))"

inductive_cases nav_stepE: "nav_step b b'"

inductive nav_reach :: "browser \<Rightarrow> browser \<Rightarrow> bool" where
  Start: "nav_reach b b"
| Step: "nav_reach b c \<Longrightarrow> nav_step c e \<Longrightarrow> nav_reach b e"

section \<open>Languages\<close>

datatype locale_code = En | Ru

definition isLocale :: "string option \<Rightarrow> bool" where
  "isLocale v \<longleftrightarrow> v = Some ''en'' \<or> v = Some ''ru''"

text \<open>\<open>Number.parseFloat\<close>: the longest prefix that is a decimal literal.\<close>

definition parseFloat :: "string \<Rightarrow> jsnum" where
  "parseFloat s =
     (let t = dropWhile is_space s; neg = starts_with t ''-''; body = (if neg \<or> starts_with t ''+'' then tl t else t)
      in if starts_with body ''Infinity'' then (if neg then NegInf else PosInf)
         else case find (\<lambda>n. parse_decimal (take n body) \<noteq> None) (rev [1..<Suc (length body)]) of
             None \<Rightarrow> NaN
           | Some n \<Rightarrow> (case parse_decimal (take n body) of None \<Rightarrow> NaN | Some x \<Rightarrow> mk_num (if neg then - x else x)))"

record language_range =
  lr_tag :: string
  lr_quality :: rat

definition language_range_of :: "string \<Rightarrow> language_range" where
  "language_range_of part =
     (let fields = js_split (CHR '';'') (toLowerCase (js_trim part));
          quality = (case find (\<lambda>p. starts_with (js_trim p) ''q='') (tl fields) of None \<Rightarrow> Fin 1 | Some p \<Rightarrow> parseFloat (drop 2 (js_trim p)))
      in \<lparr>lr_tag = hd fields, lr_quality = (case quality of Fin q \<Rightarrow> q | _ \<Rightarrow> 0)\<rparr>)"

definition lr_language :: "language_range \<Rightarrow> string" where
  "lr_language r = hd (js_split (CHR ''-'') (lr_tag r))"

fun first_supported :: "language_range list \<Rightarrow> locale_code" where
  "first_supported [] = En"
| "first_supported (r # rs) =
     (if lr_quality r \<le> 0 then first_supported rs
      else if lr_language r = ''ru'' then Ru
      else if lr_language r = ''en'' then En
      else first_supported rs)"

text \<open>The comparison by descending quality, then by position, is a stable sort by descending quality.\<close>

definition localeFromAcceptLanguage :: "string option \<Rightarrow> locale_code" where
  "localeFromAcceptLanguage header =
     (case header of
        None \<Rightarrow> En
      | Some h \<Rightarrow> if h = [] then En
                  else first_supported (sort_key (\<lambda>r. - lr_quality r) (map language_range_of (js_split (CHR '','') h))))"

definition resolveLocale :: "string option \<Rightarrow> string option \<Rightarrow> locale_code" where
  "resolveLocale stored acceptLanguage =
     (if isLocale stored then (if stored = Some ''ru'' then Ru else En) else localeFromAcceptLanguage acceptLanguage)"

section \<open>Message texts\<close>

text \<open>\<open>replace(/\\{(\\w+)\\}/g, ...)\<close>: a placeholder without a value stays as it is.\<close>

definition is_word :: "char \<Rightarrow> bool" where
  "is_word c \<longleftrightarrow> is_alnum c \<or> c = CHR ''_''"

function translate :: "(string \<times> string) list \<Rightarrow> string \<Rightarrow> string" where
  "translate vs [] = []"
| "translate vs (c # cs) =
     (let name = takeWhile is_word cs; rest = dropWhile is_word cs
      in if c = CHR ''{'' \<and> name \<noteq> [] \<and> rest \<noteq> [] \<and> hd rest = CHR ''}''
         then (case map_of vs name of Some v \<Rightarrow> v | None \<Rightarrow> CHR ''{'' # name @ ''}'') @ translate vs (tl rest)
         else c # translate vs cs)"
  by pat_completeness auto

termination
proof (relation "measure (\<lambda>(vs, s). length s)", goal_cases)
  case (2 vs c cs name rest)
  then have "length (tl rest) < Suc (length cs)" by (simp add: le_imp_less_Suc length_dropWhile_le le_diff_conv le_SucI)
  then show ?case by simp
qed simp_all

section \<open>Aliases and quota figures\<close>

definition isValidPublicAlias :: "string \<Rightarrow> bool" where
  "isValidPublicAlias s \<longleftrightarrow>
     (s \<noteq> [] \<and> is_alnum (hd s) \<and> length (tl s) \<le> 127 \<and> list_all (\<lambda>c. is_alnum c \<or> c \<in> set ''._:/-'') (tl s))
     \<and> \<not> (s \<noteq> [] \<and> last s \<in> set ''._:/-'') \<and> \<not> list_ex (\<lambda>c. is_space c \<or> code c \<le> 31 \<or> code c = 127) s"

definition clampQuotaPercent :: "jv \<Rightarrow> rat" where
  "clampQuotaPercent v = min 100 (max 0 (case v of JNum (Fin x) \<Rightarrow> x | _ \<Rightarrow> 0))"

record remaining =
  rm_hours :: int
  rm_minutes :: int
  rm_seconds :: int

definition splitRemaining :: "rat \<Rightarrow> remaining" where
  "splitRemaining ms =
     (let total = max 0 \<lfloor>ms / 1000\<rfloor>
      in \<lparr>rm_hours = total div 3600, rm_minutes = total mod 3600 div 60, rm_seconds = total mod 60\<rparr>)"

text \<open>The message and its figures.\<close>

definition formatRemaining :: "rat \<Rightarrow> string \<times> int list" where
  "formatRemaining ms =
     (let r = splitRemaining ms
      in if 0 < rm_hours r then (''codex.quota.timeHoursMinutes'', [rm_hours r, rm_minutes r])
         else if 0 < rm_minutes r then (''codex.quota.timeMinutesSeconds'', [rm_minutes r, rm_seconds r])
         else (''codex.quota.timeSeconds'', [rm_seconds r]))"


section \<open>The page shown is the page of the address\<close>

lemma drop_slashes_append:
  assumes "s \<noteq> []" and "last s \<noteq> CHR ''/''"
  shows "drop_slashes (s @ replicate n (CHR ''/'')) = s"
proof -
  have "dropWhile (\<lambda>c. c = CHR ''/'') (replicate n (CHR ''/'') @ rev s) = rev s"
    using assms by (induction n) (auto simp: dropWhile_eq_self_iff hd_rev)
  then show ?thesis by (simp add: drop_slashes_def)
qed

lemma drop_slashes_all: "drop_slashes (replicate n (CHR ''/'')) = []"
  by (simp add: drop_slashes_def)

lemma hd_js_split: "c \<notin> set s \<Longrightarrow> t = [] \<or> hd t = c \<Longrightarrow> hd (js_split c (s @ t)) = s"
  by (cases t) (auto simp: js_split_append js_split_no_sep js_split_single)

lemma path_chars: "CHR ''?'' \<notin> set (VIEW_PATHS v) \<and> CHR ''#'' \<notin> set (VIEW_PATHS v)"
  by (cases v) simp_all

lemma path_normal: "normalized_path (VIEW_PATHS v @ replicate n (CHR ''/'')) = VIEW_PATHS v"
proof -
  let ?p = "VIEW_PATHS v @ replicate n (CHR ''/'')"
  have "hd (js_split (CHR ''?'') ?p) = ?p" "hd (js_split (CHR ''#'') ?p) = ?p"
    using hd_js_split [of _ ?p "[]"] path_chars [of v] by (auto simp: set_replicate_conv_if)
  moreover have "drop_slashes ?p = (if v = OverviewPage then [] else VIEW_PATHS v)"
  proof (cases "v = OverviewPage")
    case True
    then show ?thesis using drop_slashes_all [of "Suc n"] by simp
  next
    case False
    then have "VIEW_PATHS v \<noteq> [] \<and> last (VIEW_PATHS v) \<noteq> CHR ''/''" by (cases v) simp_all
    with False show ?thesis by (simp add: drop_slashes_append)
  qed
  ultimately show ?thesis by (cases v) (simp_all add: normalized_path_def Let_def)
qed

lemma normalized_cut:
  assumes "CHR ''?'' \<notin> set p" and "CHR ''#'' \<notin> set p" and "rest = [] \<or> hd rest \<in> set ''?#''"
  shows "normalized_path (p @ rest) = normalized_path p"
proof -
  obtain q where q: "hd (js_split (CHR ''?'') (p @ rest)) = p @ q" "q = [] \<or> hd q = CHR ''#''"
  proof (cases "rest = [] \<or> hd rest = CHR ''?''")
    case True
    then show thesis using hd_js_split [of "CHR ''?''" p rest] assms(1) that [of "[]"] by auto
  next
    case False
    let ?u = "takeWhile (\<lambda>c. c \<noteq> CHR ''?'') rest" and ?w = "dropWhile (\<lambda>c. c \<noteq> CHR ''?'') rest"
    have r: "rest = ?u @ ?w" "CHR ''?'' \<notin> set ?u" by (simp, auto dest: set_takeWhileD)
    have "?w = [] \<or> hd ?w = CHR ''?''" using hd_dropWhile [of "\<lambda>c. c \<noteq> CHR ''?''" rest] by auto
    then have "hd (js_split (CHR ''?'') ((p @ ?u) @ ?w)) = p @ ?u" by (intro hd_js_split) (use assms(1) r(2) in auto)
    then have "hd (js_split (CHR ''?'') (p @ rest)) = p @ ?u" by (simp add: r(1) [symmetric])
    moreover have "hd ?u = CHR ''#''" using False assms(3) by (cases rest) auto
    ultimately show thesis using that by blast
  qed
  have "hd (js_split (CHR ''#'') (p @ q)) = p" "hd (js_split (CHR ''#'') (p @ [])) = p" "hd (js_split (CHR ''?'') (p @ [])) = p"
    using assms(1,2) q(2) by (auto intro!: hd_js_split simp del: append_Nil2)
  then show ?thesis by (simp add: normalized_path_def q(1))
qed

lemma path_inj: "VIEW_PATHS v = VIEW_PATHS w \<longleftrightarrow> v = w"
  by (cases v; cases w; simp)

lemma viewFromPath_path: "normalized_path p = VIEW_PATHS v \<Longrightarrow> viewFromPath p = v"
  by (cases v) (simp_all add: viewFromPath_def path_inj ALL_VIEWS_def)

text \<open>A page is found again from its address, with any number of slashes after it and with any query or fragment.\<close>

theorem view_address_roundtrip:
  assumes "rest = [] \<or> hd rest \<in> set ''?#''"
  shows "viewFromPath (pathForView v @ replicate n (CHR ''/'') @ rest) = v"
proof (rule viewFromPath_path)
  have "normalized_path ((VIEW_PATHS v @ replicate n (CHR ''/'')) @ rest) = VIEW_PATHS v"
    by (subst normalized_cut) (use assms path_chars [of v] path_normal in auto)
  then show "normalized_path (pathForView v @ replicate n (CHR ''/'') @ rest) = VIEW_PATHS v" by (simp add: pathForView_def)
qed

theorem view_address_roundtrip_witness: "viewFromPath ''/models/?tab=a#x'' = ModelsPage"
  using view_address_roundtrip [of "''?tab=a#x''" ModelsPage 1] by (simp add: pathForView_def)

definition nav_ok :: "browser \<Rightarrow> bool" where
  "nav_ok b \<longleftrightarrow> br_pos b < length (br_entries b) \<and> br_view b = viewFromPath (br_path b)"

lemma viewFromPath_pathForView: "viewFromPath (pathForView v) = v"
  using path_normal [of v 0] by (intro viewFromPath_path) (simp add: pathForView_def)

lemma nav_step_ok: "nav_ok b \<Longrightarrow> nav_step b b' \<Longrightarrow> nav_ok b'"
  by (erule nav_stepE)
     (auto simp: nav_ok_def navigate_def traverse_to_def onPop_def opened_def br_path_def Let_def nth_append viewFromPath_pathForView)

lemma nav_reach_ok: "nav_reach b b' \<Longrightarrow> nav_ok b \<Longrightarrow> nav_ok b'"
  by (induction rule: nav_reach.induct) (auto intro: nav_step_ok)

text \<open>Whatever pages the operator opens and however the browser moves through its history, the page shown is the page of the
  address, and going back after opening a page shows the page that was shown before.\<close>

theorem shown_page_follows_address:
  assumes "i < length ps" and "nav_reach (opened ps i) b"
  shows "br_view b = viewFromPath (br_path b)
    \<and> (\<forall>v. br_pos (navigate v b) \<noteq> br_pos b \<longrightarrow> br_view (traverse_to (br_pos b) (navigate v b)) = br_view b)"
proof -
  have ok: "nav_ok b" using nav_reach_ok [OF assms(2)] assms(1) by (simp add: nav_ok_def opened_def br_path_def)
  then have "br_path ((navigate v b)\<lparr>br_pos := br_pos b\<rparr>) = br_path b" for v
    by (simp add: nav_ok_def navigate_def br_path_def Let_def nth_append)
  then show ?thesis using ok by (simp add: nav_ok_def traverse_to_def onPop_def)
qed

theorem shown_page_follows_address_witness:
  "br_view (traverse_to 0 (navigate KeysPage (opened [''/teams/''] 0))) = TeamsPage"
proof -
  let ?b = "opened [''/teams/''] 0"
  have "br_view ?b = TeamsPage" by code_simp
  moreover have "br_pos (navigate KeysPage ?b) \<noteq> br_pos ?b" by code_simp
  moreover have "br_pos ?b = 0" by (simp add: opened_def)
  ultimately show ?thesis using shown_page_follows_address [of 0 "[''/teams/'']" ?b] by (simp add: nav_reach.Start)
qed


section \<open>The language of a visitor\<close>

text \<open>A range decides for Russian when it is a Russian one that no English range beats: not one before it of the same quality, and none of a
  higher one.\<close>

definition prefers_russian :: "language_range list \<Rightarrow> bool" where
  "prefers_russian rs \<longleftrightarrow>
     (\<exists>as r bs. rs = as @ r # bs \<and> lr_language r = ''ru'' \<and> 0 < lr_quality r
        \<and> (\<forall>e\<in>set as. lr_language e = ''en'' \<longrightarrow> lr_quality e < lr_quality r)
        \<and> (\<forall>e\<in>set bs. lr_language e = ''en'' \<longrightarrow> lr_quality e \<le> lr_quality r))"

definition decides :: "language_range \<Rightarrow> bool" where
  "decides r \<longleftrightarrow> 0 < lr_quality r \<and> (lr_language r = ''ru'' \<or> lr_language r = ''en'')"

lemma first_supported_filter:
  "first_supported rs = (case filter decides rs of [] \<Rightarrow> En | r # _ \<Rightarrow> if lr_language r = ''ru'' then Ru else En)"
  by (induction rs) (auto simp: decides_def)

lemma hd_sort_key_Cons:
  "hd (sort_key f (x # xs)) = (if xs = [] \<or> f x \<le> f (hd (sort_key f xs)) then x else hd (sort_key f xs))"
proof (cases "sort_key f xs")
  case Nil
  then have "xs = []" using length_sort [of f xs] by simp
  then show ?thesis by simp
next
  case (Cons y ys)
  then have "xs \<noteq> []" by auto
  with Cons show ?thesis by simp
qed

lemma hd_sort_key_first:
  assumes "xs \<noteq> []"
  shows "\<exists>as bs. xs = as @ hd (sort_key f xs) # bs
    \<and> (\<forall>e\<in>set as. f (hd (sort_key f xs)) < f e) \<and> (\<forall>e\<in>set bs. f (hd (sort_key f xs)) \<le> f e)"
  using assms
proof (induction xs)
  case (Cons x xs)
  show ?case
  proof (cases "xs = []")
    case False
    let ?h = "hd (sort_key f xs)"
    obtain as bs where s: "xs = as @ ?h # bs" "\<forall>e\<in>set as. f ?h < f e" "\<forall>e\<in>set bs. f ?h \<le> f e" using Cons.IH [OF False] by blast
    have "set xs = insert ?h (set as \<union> set bs)" using arg_cong [OF s(1), of set] by simp
    with s(2,3) have all: "f ?h \<le> f e" if "e \<in> set xs" for e using that by (auto dest: bspec)
    show ?thesis
    proof (cases "f x \<le> f ?h")
      case True
      then have "hd (sort_key f (x # xs)) = x" by (simp only: hd_sort_key_Cons) simp
      moreover have "f x \<le> f e" if "e \<in> set xs" for e using all [OF that] True by simp
      ultimately show ?thesis by (intro exI [of _ "[]"] exI [of _ xs]) auto
    next
      case less: False
      with False have "hd (sort_key f (x # xs)) = ?h" by (simp only: hd_sort_key_Cons) simp
      then show ?thesis using s less by (intro exI [of _ "x # as"] exI [of _ bs]) auto
    qed
  qed (auto intro: exI [of _ "[]"])
qed simp

lemma filter_split: "filter P xs = as @ r # bs \<Longrightarrow> \<exists>us vs. xs = us @ r # vs \<and> filter P us = as \<and> filter P vs = bs"
proof (induction as arbitrary: xs)
  case Nil
  then obtain us vs where "xs = us @ r # vs" "\<forall>u\<in>set us. \<not> P u" "P r" "bs = filter P vs" by (auto simp: filter_eq_Cons_iff)
  then show ?case by (intro exI [of _ us] exI [of _ vs]) (simp add: filter_False)
next
  case (Cons a as)
  then obtain us vs where u: "xs = us @ a # vs" "\<forall>u\<in>set us. \<not> P u" "P a" "as @ r # bs = filter P vs" by (auto simp: filter_eq_Cons_iff)
  with Cons.IH [of vs] obtain us' vs' where "vs = us' @ r # vs'" "filter P us' = as" "filter P vs' = bs" by metis
  with u show ?case by (intro exI [of _ "us @ a # us'"] exI [of _ vs']) (simp add: filter_False)
qed

lemma filter_sort_key: "filter P (sort_key f xs) = sort_key f (filter P xs)"
  by (induction xs) (auto simp: filter_insort filter_insort_triv)

lemma sorted_head:
  assumes "first_supported (sort_key (\<lambda>r. - lr_quality r) rs) = Ru"
  shows "prefers_russian rs"
proof -
  let ?f = "\<lambda>r. - lr_quality r" and ?ds = "filter decides rs"
  define r where "r = hd (sort_key ?f ?ds)"
  have ne: "?ds \<noteq> []" and ru: "lr_language r = ''ru''"
    using assms by (auto simp: first_supported_filter filter_sort_key r_def split: list.splits if_splits)
  obtain as bs where s: "?ds = as @ r # bs" "\<forall>e\<in>set as. ?f r < ?f e" "\<forall>e\<in>set bs. ?f r \<le> ?f e"
    using hd_sort_key_first [OF ne, of ?f] unfolding r_def by blast
  obtain us vs where u: "rs = us @ r # vs" "filter decides us = as" "filter decides vs = bs" using filter_split [OF s(1)] by blast
  have "r \<in> set ?ds" by (simp add: s(1))
  then have pos: "0 < lr_quality r" by (simp add: decides_def)
  have "lr_quality e < lr_quality r" if "e \<in> set us" "lr_language e = ''en''" for e
    using s(2) u(2) that pos by (cases "decides e") (force, simp add: decides_def)
  moreover have "lr_quality e \<le> lr_quality r" if "e \<in> set vs" "lr_language e = ''en''" for e
    using s(3) u(3) that pos by (cases "decides e") (force, simp add: decides_def)
  ultimately show ?thesis using ru u(1) pos unfolding prefers_russian_def by blast
qed

lemma two_places:
  assumes "as @ r # bs = ks @ x # ls" and "x \<noteq> r"
  shows "(x \<in> set as \<and> r \<in> set ls) \<or> (x \<in> set bs \<and> r \<in> set ks)"
  using assms by (auto simp: append_eq_append_conv2 Cons_eq_append_conv append_eq_Cons_conv)

lemma preferred_head:
  assumes "prefers_russian rs"
  shows "first_supported (sort_key (\<lambda>r. - lr_quality r) rs) = Ru"
proof -
  let ?f = "\<lambda>r. - lr_quality r" and ?ds = "filter decides rs"
  obtain as r bs where p: "rs = as @ r # bs" "lr_language r = ''ru''" "0 < lr_quality r"
    "\<forall>e\<in>set as. lr_language e = ''en'' \<longrightarrow> lr_quality e < lr_quality r" "\<forall>e\<in>set bs. lr_language e = ''en'' \<longrightarrow> lr_quality e \<le> lr_quality r"
    using assms unfolding prefers_russian_def by blast
  then have r: "decides r" by (simp add: decides_def)
  then have ne: "?ds \<noteq> []" by (simp add: p(1))
  define x where "x = hd (sort_key ?f ?ds)"
  obtain us vs where s: "?ds = us @ x # vs" "\<forall>e\<in>set us. ?f x < ?f e" "\<forall>e\<in>set vs. ?f x \<le> ?f e"
    using hd_sort_key_first [OF ne, of ?f] unfolding x_def by blast
  obtain ks ls where k: "rs = ks @ x # ls" "filter decides ks = us" "filter decides ls = vs" using filter_split [OF s(1)] by blast
  have "x \<in> set ?ds" by (simp add: s(1))
  then have x: "decides x" by simp
  have "lr_language x \<noteq> ''en''"
  proof
    assume en: "lr_language x = ''en''"
    then have "x \<noteq> r" using p(2) by auto
    then consider "x \<in> set as" "r \<in> set ls" | "x \<in> set bs" "r \<in> set ks" using two_places [of as r bs ks x ls] p(1) k(1) by auto
    then show False
    proof cases
      case 1
      then have "lr_quality x < lr_quality r" "r \<in> set vs" using p(4) en k(3) r by auto
      then show False using s(3) by force
    next
      case 2
      then have "lr_quality x \<le> lr_quality r" "r \<in> set us" using p(5) en k(2) r by auto
      then show False using s(2) by force
    qed
  qed
  then have "lr_language x = ''ru''" using x by (auto simp: decides_def)
  moreover have "sort_key ?f ?ds \<noteq> []" using ne length_sort [of ?f ?ds] by fastforce
  ultimately show ?thesis by (auto simp: first_supported_filter filter_sort_key x_def split: list.split)
qed

text \<open>A visitor gets Russian exactly when the header holds a Russian range of positive quality that no English range beats, whatever
  the number and the order of the ranges and however their qualities are written.\<close>

theorem accept_language_exact:
  "localeFromAcceptLanguage header = Ru \<longleftrightarrow>
     (\<exists>h. header = Some h \<and> h \<noteq> [] \<and> prefers_russian (map language_range_of (js_split (CHR '','') h)))"
  using sorted_head preferred_head by (auto simp: localeFromAcceptLanguage_def split: option.splits)

section \<open>Texts, aliases and figures\<close>

datatype message_part = Literal string | Placeholder string

fun print_part :: "message_part \<Rightarrow> string" where
  "print_part (Literal s) = s"
| "print_part (Placeholder k) = CHR ''{'' # k @ ''}''"

fun fill_part :: "(string \<times> string) list \<Rightarrow> message_part \<Rightarrow> string" where
  "fill_part vs (Literal s) = s"
| "fill_part vs (Placeholder k) = (case map_of vs k of Some v \<Rightarrow> v | None \<Rightarrow> CHR ''{'' # k @ ''}'')"

fun part_ok :: "message_part \<Rightarrow> bool" where
  "part_ok (Literal s) = (CHR ''{'' \<notin> set s)"
| "part_ok (Placeholder k) = (k \<noteq> [] \<and> list_all is_word k)"

lemma translate_literal: "CHR ''{'' \<notin> set s \<Longrightarrow> translate vs (s @ t) = s @ translate vs t"
  by (induction s) (auto simp: Let_def)

lemma word_prefix:
  assumes "list_all is_word k"
  shows "takeWhile is_word (k @ CHR ''}'' # t) = k" "dropWhile is_word (k @ CHR ''}'' # t) = CHR ''}'' # t"
proof -
  have "\<not> is_word (CHR ''}'')" by (simp add: is_word_def char_class_defs)
  then show "takeWhile is_word (k @ CHR ''}'' # t) = k" "dropWhile is_word (k @ CHR ''}'' # t) = CHR ''}'' # t"
    using assms by (auto simp: takeWhile_append dropWhile_append list_all_iff)
qed

text \<open>Every placeholder of a message is replaced by its value, one without a value stays as it is written, and the text between and the
  values put in are not looked at again.\<close>

theorem translate_fills:
  assumes "list_all part_ok ps"
  shows "translate vs (concat (map print_part ps)) = concat (map (fill_part vs) ps)"
  using assms
proof (induction ps)
  case (Cons p ps)
  show ?case
  proof (cases p)
    case (Literal s)
    with Cons show ?thesis by (simp add: translate_literal)
  next
    case (Placeholder k)
    with Cons have "list_all is_word k" "k \<noteq> []" by auto
    with Cons Placeholder show ?thesis by (simp add: word_prefix Let_def)
  qed
qed simp

theorem translate_fills_witness: "translate [(''n'', ''{m}'')] ''{n} of {m}'' = ''{m} of {m}''"
  using translate_fills [of "[Placeholder ''n'', Literal '' of '', Placeholder ''m'']" "[(''n'', ''{m}'')]"]
  by (simp add: is_word_def char_class_defs)

text \<open>The dashboard offers to import under exactly the aliases that the control plane accepts.\<close>

lemma alias_check: "isValidPublicAlias s \<longleftrightarrow> validatePublicAlias s = Inr s"
  by (cases s) (auto simp: isValidPublicAlias_def validatePublicAlias_def alias_ok_def is_ctrl_def list_ex_iff)

text \<open>The countdown loses nothing but the fraction of a second, its minutes and seconds stay below sixty, a time that has passed counts
  as none, and a percentage is shown between 0 and 100 whatever the provider answered.\<close>

theorem countdown_exact:
  "(let r = splitRemaining ms in
      0 \<le> rm_hours r \<and> rm_minutes r \<in> {0..<60} \<and> rm_seconds r \<in> {0..<60}
      \<and> 3600 * rm_hours r + 60 * rm_minutes r + rm_seconds r = max 0 \<lfloor>ms / 1000\<rfloor>)
   \<and> clampQuotaPercent v \<in> {0..100}"
proof -
  have "3600 * (t div 3600) + 60 * (t mod 3600 div 60) + t mod 60 = t" "t mod 3600 div 60 < 60" "0 \<le> t mod 3600 div 60" for t :: int
  proof -
    have "60 * (t mod 3600 div 60) + t mod 3600 mod 60 = t mod 3600" by simp
    moreover have "t mod 3600 mod 60 = t mod 60" by (simp add: mod_mod_cancel)
    moreover have "3600 * (t div 3600) + t mod 3600 = t" by simp
    ultimately show "3600 * (t div 3600) + 60 * (t mod 3600 div 60) + t mod 60 = t" by linarith
    show "t mod 3600 div 60 < 60" "0 \<le> t mod 3600 div 60" by (simp_all add: div_less_iff_less_mult pos_imp_zdiv_nonneg_iff)
  qed
  moreover have "0 \<le> max 0 \<lfloor>ms / 1000\<rfloor>" by simp
  ultimately show ?thesis by (simp add: splitRemaining_def clampQuotaPercent_def Let_def pos_imp_zdiv_nonneg_iff)
qed

end
