(* ===== verification/Dashboard_Client.thy ===== *)
theory Dashboard_Client
  imports Operations_Api Dashboard_Basics
begin

text \<open>
  The calls the dashboard makes to the control API and what it makes of the answers: \<open>ok\<close> and \<open>problem\<close> of \<open>lib/api.ts\<close> on
  the one side, \<open>api\<close> of \<open>dashboard-client.tsx\<close>, \<open>codexRequest\<close> of \<open>codex-client.ts\<close> and \<open>claudeRequest\<close> of
  \<open>claude-account-modal.tsx\<close> on the other; the calls of \<open>codex-client.ts\<close>; loading of the tables shown and \<open>mutate\<close>.
  A call is a value; the routes it reaches are those of \<open>Operations_Api\<close>.
\<close>

section \<open>Calls\<close>

text \<open>What the other side parses of \<open>JSON.stringify\<close>: undefined members are left out, numbers that are not finite become null.\<close>

fun wire :: "jv \<Rightarrow> jv" where
  "wire JUndef = JNull"
| "wire (JNum n) = (if is_finite n then JNum n else JNull)"
| "wire (JArr vs) = JArr (map wire vs)"
| "wire (JObj ps) = JObj (map (\<lambda>p. (fst p, wire (snd p))) (filter (\<lambda>p. snd p \<noteq> JUndef) ps))"
| "wire v = v"

record client_call =
  cl_method :: http_method
  cl_path :: string
  cl_body :: "jv option"
  cl_key :: "string option"

definition get_call :: "string \<Rightarrow> client_call" where
  "get_call path = \<lparr>cl_method = Get, cl_path = path, cl_body = None, cl_key = None\<rparr>"

definition body_call :: "http_method \<Rightarrow> string \<Rightarrow> (string \<times> jv) list \<Rightarrow> client_call" where
  "body_call m path ps = \<lparr>cl_method = m, cl_path = path, cl_body = Some (wire (JObj ps)), cl_key = None\<rparr>"

text \<open>The request a call becomes at the server: the path below \<open>/api/control/v1/\<close>, split at its slashes.\<close>

definition sends :: "client_call \<Rightarrow> api_request \<Rightarrow> bool" where
  "sends c req \<longleftrightarrow> ap_method req = cl_method c \<and> cq_path (ap_control req) = js_split (CHR ''/'') (cl_path c)
     \<and> (case cl_body c of None \<Rightarrow> True | Some b \<Rightarrow> cq_body (ap_control req) = b) \<and> ap_key req = cl_key c"

section \<open>Answers\<close>

text \<open>\<open>ok\<close> and \<open>problem\<close>: the status and the document of the response.  \<open>issues\<close> is the validator's report.\<close>

definition ok_response :: "nat \<Rightarrow> jv \<Rightarrow> nat \<times> jv" where
  "ok_response status v = (status, wire (JObj [(''data'', v)]))"

fun problem :: "jv \<Rightarrow> error \<Rightarrow> nat \<times> jv" where
  "problem issues ZodError = (400, JObj [(''error'', JObj [(''code'', JStr ''validation_failed''), (''message'', JStr ''Request validation failed''), (''issues'', issues)])])"
| "problem issues (ApiError st c m) = (st, JObj [(''error'', JObj [(''code'', JStr c), (''message'', JStr m)])])"
| "problem issues (JsError m) = (500, JObj [(''error'', JObj [(''code'', JStr ''internal_error''), (''message'', JStr ''Internal server error'')])])"
| "problem issues (DbError m) = (500, JObj [(''error'', JObj [(''code'', JStr ''internal_error''), (''message'', JStr ''Internal server error'')])])"

datatype client_error =
    ClientError string string nat
  | RequestFailed string
  | BadJson
  | NotAnObject

definition response_ok :: "nat \<Rightarrow> bool" where
  "response_ok st \<longleftrightarrow> 200 \<le> st \<and> st \<le> 299"

fun is_object :: "jv \<Rightarrow> bool" where
  "is_object (JArr vs) = True"
| "is_object (JObj ps) = True"
| "is_object _ = False"

text \<open>\<open>codexRequest\<close> and \<open>claudeRequest\<close>, which differ in the class of the error and in \<open>fallback\<close>; a body that is not JSON counts
  as an empty object.  \<open>text\<close> is \<open>String(value)\<close>.\<close>

definition codexRequest :: "(jv \<Rightarrow> string) \<Rightarrow> string \<Rightarrow> nat \<Rightarrow> jv option \<Rightarrow> client_error + jv" where
  "codexRequest text fallback st document =
     (let payload = (case document of None \<Rightarrow> JObj [] | Some v \<Rightarrow> v)
      in if nullish payload then Inl NotAnObject
         else if \<not> response_ok st
         then let e = get_prop payload ''error''; structured = (if is_object e then e else JUndef);
                  code = text (coalesce (coalesce (get_prop structured ''code'') e) (JStr fallback))
              in Inl (ClientError code (text (coalesce (get_prop structured ''message'') (JStr code))) st)
         else Inr (case payload of JObj ps \<Rightarrow> if ''data'' \<in> fst ` set ps then get_prop payload ''data'' else payload | _ \<Rightarrow> payload))"

definition api :: "(jv \<Rightarrow> string) \<Rightarrow> nat \<Rightarrow> jv option \<Rightarrow> client_error + jv" where
  "api text st document =
     (case document of
        None \<Rightarrow> Inl BadJson
      | Some payload \<Rightarrow>
          if \<not> response_ok st then Inl (RequestFailed (text (coalesce (get_prop (get_prop payload ''error'') ''message'') (JStr []))))
          else if nullish payload then Inl NotAnObject
          else Inr (get_prop payload ''data''))"

text \<open>\<open>uiError\<close>: the text shown beside the fallback message; the browser's own errors carry a text of their own.\<close>

fun uiError :: "(client_error \<Rightarrow> string) \<Rightarrow> client_error \<Rightarrow> string \<Rightarrow> string \<times> string" where
  "uiError own (ClientError c m st) fallback = (m, fallback)"
| "uiError own (RequestFailed m) fallback = (m, fallback)"
| "uiError own e fallback = (own e, fallback)"

section \<open>The calls of codex-client.ts\<close>

text \<open>\<open>encodeURIComponent\<close> on characters below 256.\<close>

definition percent_digit :: "nat \<Rightarrow> char" where
  "percent_digit n = (if n < 10 then char_of (48 + n) else char_of (55 + n))"

definition percent :: "nat \<Rightarrow> string" where
  "percent b = [CHR ''%'', percent_digit (b div 16), percent_digit (b mod 16)]"

definition encodeURIComponent :: "string \<Rightarrow> string" where
  "encodeURIComponent s =
     concat (map (\<lambda>c. if is_alnum c \<or> c \<in> set [CHR ''-'', CHR ''_'', CHR ''.'', CHR ''!'', CHR ''~'', CHR ''*'', CHR 0x27, CHR ''('', CHR '')''] then [c]
        else if code c < 128 then percent (code c) else percent (192 + code c div 64) @ percent (128 + code c mod 64)) s)"

definition startCodexBrowser :: "string option \<Rightarrow> client_call" where
  "startCodexBrowser name = body_call Post ''codex/oauth/start'' [(''name'', case name of Some n \<Rightarrow> if n = [] then JUndef else JStr n | None \<Rightarrow> JUndef)]"

definition reauthorizeCodexAccount :: "string \<Rightarrow> client_call" where
  "reauthorizeCodexAccount a = body_call Post (''accounts/'' @ a @ ''/reauthorize'') []"

definition startCodexDevice :: client_call where
  "startCodexDevice = body_call Post ''codex/device/start'' []"

definition getCodexDeviceStatus :: "string \<Rightarrow> client_call" where
  "getCodexDeviceStatus session = get_call (''codex/device/'' @ encodeURIComponent session @ ''/status'')"

text \<open>The contents of the file are the body as they are; \<open>parsed\<close> is what the server reads in them.\<close>

definition importCodexAuth :: "jv \<Rightarrow> client_call" where
  "importCodexAuth parsed = \<lparr>cl_method = Post, cl_path = ''codex/import-auth'', cl_body = Some parsed, cl_key = None\<rparr>"

definition patchAccount :: "string \<Rightarrow> (string \<times> jv) list \<Rightarrow> client_call" where
  "patchAccount a changes = body_call Patch (''accounts/'' @ a) changes"

datatype client_scope = ScopeAll | ScopeProvider jv | ScopeAccount jv

fun scope_body :: "client_scope \<Rightarrow> (string \<times> jv) list" where
  "scope_body ScopeAll = [(''scope'', JStr ''all'')]"
| "scope_body (ScopeProvider p) = [(''scope'', JStr ''provider_id''), (''provider_id'', p)]"
| "scope_body (ScopeAccount a) = [(''scope'', JStr ''account_id''), (''account_id'', a)]"

definition discoverCodexModels :: "client_scope \<Rightarrow> client_call" where
  "discoverCodexModels sc = body_call Post ''model-discovery'' (scope_body sc)"

definition getDiscoveredModels :: client_call where
  "getDiscoveredModels = get_call ''discovered-models''"

definition importDiscoveredModel :: "string \<Rightarrow> string \<Rightarrow> string \<Rightarrow> string \<Rightarrow> client_call" where
  "importDiscoveredModel al provider upstream strategy =
     body_call Post ''models/import-selection''
       [(''alias'', JStr al), (''provider_id'', JStr provider), (''upstream_model'', JStr upstream), (''routing_strategy'', JStr strategy)]"

definition getCodexQuota_call :: "string \<Rightarrow> client_call" where
  "getCodexQuota_call a = get_call (''accounts/'' @ a @ ''/quota'')"

definition refreshCodexQuota_call :: "string \<Rightarrow> client_call" where
  "refreshCodexQuota_call a = body_call Post (''accounts/'' @ a @ ''/quota/refresh'') []"

definition resetCodexQuota_call :: "string \<Rightarrow> string \<Rightarrow> client_call" where
  "resetCodexQuota_call a key = (body_call Post (''accounts/'' @ a @ ''/quota/reset'') [(''confirmed'', JBool True)])\<lparr>cl_key := Some key\<rparr>"

definition reconcileCodexQuotaReset_call :: "string \<Rightarrow> string \<Rightarrow> client_call" where
  "reconcileCodexQuotaReset_call a oper = body_call Post (''accounts/'' @ a @ ''/quota/reset/'' @ oper @ ''/reconcile'') []"

definition resolveCodexQuotaReset_call :: "string \<Rightarrow> string \<Rightarrow> string \<Rightarrow> string \<Rightarrow> client_call" where
  "resolveCodexQuotaReset_call a oper resolution note =
     body_call Post (''accounts/'' @ a @ ''/quota/reset/'' @ oper @ ''/resolve'') [(''resolution'', JStr resolution), (''note'', JStr note)]"

section \<open>The scope of a discovery\<close>

text \<open>The value of the select, and \<open>toScope\<close> of \<open>model-discovery-modal.tsx\<close>: \<open>scope.split(':')\<close> keeps the first two fields.\<close>

definition toScope :: "string \<Rightarrow> client_scope" where
  "toScope scope =
     (if scope = ''all'' then ScopeAll
      else let fields = js_split (CHR '':'') scope; ident = (case fields of _ # i # _ \<Rightarrow> JStr i | _ \<Rightarrow> JUndef)
           in if hd fields = ''provider'' then ScopeProvider ident else ScopeAccount ident)"

section \<open>What the dashboard shows\<close>

record dash =
  ds_data :: "(string \<times> jv) list"
  ds_error :: "(string \<times> string) option"
  ds_modal :: "string option"
  ds_loading :: bool

definition FULL_PATHS :: "(string \<times> string) list" where
  "FULL_PATHS = [(''overview'', ''overview''), (''providers'', ''providers''), (''accounts'', ''accounts''), (''models'', ''models''),
     (''keys'', ''virtual-keys''), (''teams'', ''teams''), (''versions'', ''config-versions''), (''audit'', ''audit-events''),
     (''requests'', ''request-events?limit=100''), (''routing'', ''routing''), (''webhook'', ''webhook''), (''trends'', ''request-trends?days=14''),
     (''proxyPool'', ''proxy-pool''), (''billing'', ''billing''), (''mcpServers'', ''mcp-servers'')]"

definition LIVE_PATHS :: "(string \<times> string) list" where
  "LIVE_PATHS = [(''overview'', ''overview''), (''accounts'', ''accounts''), (''models'', ''models''), (''requests'', ''request-events?limit=100''),
     (''teams'', ''teams''), (''billing'', ''billing''), (''mcpServers'', ''mcp-servers'')]"

text \<open>\<open>Promise.all\<close>: every answer, or the first failure.\<close>

fun promise_all :: "(string \<times> (client_error + jv)) list \<Rightarrow> client_error + (string \<times> jv) list" where
  "promise_all [] = Inr []"
| "promise_all ((k, r) # rs) = (case r of Inl e \<Rightarrow> Inl e | Inr v \<Rightarrow> (case promise_all rs of Inl e \<Rightarrow> Inl e | Inr ps \<Rightarrow> Inr ((k, v) # ps)))"

text \<open>\<open>load\<close>; \<open>answer\<close> gives what \<open>api\<close> makes of the path.\<close>

definition load :: "(client_error \<Rightarrow> string) \<Rightarrow> (string \<Rightarrow> client_error + jv) \<Rightarrow> bool \<Rightarrow> dash \<Rightarrow> dash" where
  "load own answer silent s =
     (let s0 = s\<lparr>ds_error := None, ds_loading := (if silent then ds_loading s else True)\<rparr>;
          s1 = (case promise_all (map (\<lambda>p. (fst p, answer (snd p))) (if silent then LIVE_PATHS else FULL_PATHS)) of
             Inl e \<Rightarrow> s0\<lparr>ds_error := Some (uiError own e ''error.controlUnavailable'')\<rparr>
           | Inr ps \<Rightarrow> s0\<lparr>ds_data := (if silent then fold (\<lambda>(k, v) d. set_prop k v d) ps (ds_data s0) else ps)\<rparr>)
      in if silent then s1 else s1\<lparr>ds_loading := False\<rparr>)"

text \<open>\<open>mutate\<close>: \<open>work\<close> is the outcome of the calls, \<open>after\<close> answers the reload.\<close>

definition mutate :: "(client_error \<Rightarrow> string) \<Rightarrow> (string \<Rightarrow> client_error + jv) \<Rightarrow> client_error + jv \<Rightarrow> dash \<Rightarrow> dash" where
  "mutate own after work s =
     (let s0 = s\<lparr>ds_error := None\<rparr>
      in case work of
           Inl e \<Rightarrow> s0\<lparr>ds_error := Some (uiError own e ''error.actionFailed'')\<rparr>
         | Inr _ \<Rightarrow> load own after False (s0\<lparr>ds_modal := None\<rparr>))"

section \<open>The client reads what the server answered\<close>

definition heard :: "(jv \<Rightarrow> string) \<Rightarrow> string \<Rightarrow> nat \<times> jv \<Rightarrow> (client_error + jv) \<times> (client_error + jv)" where
  "heard text fallback r = (codexRequest text fallback (fst r) (Some (snd r)), api text (fst r) (Some (snd r)))"

text \<open>The dashboard's clients read back what the server's helpers write: of a result the result, of a refusal its code, message and
  status, of a validation failure the fixed message, and of any other exception only that something failed, so that the text of a
  database error does not reach the browser.\<close>

theorem client_reads_answers:
  assumes "\<And>s. text (JStr s) = s" and "\<not> response_ok st" and "response_ok good" and "v \<noteq> JUndef"
  shows "heard text fb (problem issues (ApiError st c m)) = (Inl (ClientError c m st), Inl (RequestFailed m))
    \<and> heard text fb (problem issues ZodError)
        = (Inl (ClientError ''validation_failed'' ''Request validation failed'' 400), Inl (RequestFailed ''Request validation failed''))
    \<and> (\<forall>e\<in>{JsError m, DbError m}. heard text fb (problem issues e)
        = (Inl (ClientError ''internal_error'' ''Internal server error'' 500), Inl (RequestFailed ''Internal server error'')))
    \<and> heard text fb (ok_response good v) = (Inr (wire v), Inr (wire v))"
  using assms by (simp add: heard_def codexRequest_def api_def Let_def coalesce_def ok_response_def response_ok_def)

theorem client_reads_answers_witness:
  "heard (\<lambda>v. case v of JStr s \<Rightarrow> s | _ \<Rightarrow> []) ''f'' (problem JNull (ApiError 404 ''not_found'' ''gone'')) = (Inl (ClientError ''not_found'' ''gone'' 404), Inl (RequestFailed ''gone''))"
  using client_reads_answers [of "\<lambda>v. case v of JStr s \<Rightarrow> s | _ \<Rightarrow> []" 404 200 JNull "''f''" JNull "''not_found''" "''gone''"]
  by (simp add: response_ok_def)

section \<open>The calls reach their handlers\<close>

lemma split_at: "CHR ''/'' \<notin> set a \<Longrightarrow> js_split (CHR ''/'') (a @ CHR ''/'' # t) = a # js_split (CHR ''/'') t"
  by (rule js_split_append)

lemma split_last: "CHR ''/'' \<notin> set a \<Longrightarrow> js_split (CHR ''/'') a = [a]"
  by (rule js_split_single)

lemmas sends_defs = sends_def body_call_def get_call_def split_at split_last

text \<open>Every call of the Codex client about quotas, discovery and imports is served by the handler it is meant for, and a change
  of an account goes to the general route.\<close>

theorem client_calls_reach_handlers:
  assumes "CHR ''/'' \<notin> set a" and "CHR ''/'' \<notin> set oper" and "a \<noteq> ''batch''"
  shows "(sends (getCodexQuota_call a) req \<longrightarrow> control_v1 env req = quota_route a (cq_now (ap_control req)))
    \<and> (sends (refreshCodexQuota_call a) req \<longrightarrow> control_v1 env req = refresh_route env a (cq_now (ap_control req)))
    \<and> (sends (resetCodexQuota_call a key) req \<longrightarrow> control_v1 env req = reset_route env a req \<and> ap_key req = Some key)
    \<and> (sends (reconcileCodexQuotaReset_call a oper) req \<longrightarrow> control_v1 env req = reconcile_route env a oper req)
    \<and> (sends (resolveCodexQuotaReset_call a oper r note) req \<longrightarrow> control_v1 env req = resolve_route env a oper req)
    \<and> (sends (discoverCodexModels sc) req \<longrightarrow> control_v1 env req = on_db (discovery_route env (cq_now (ap_control req)) (cq_body (ap_control req))))
    \<and> (sends getDiscoveredModels req \<longrightarrow> control_v1 env req = on_db (discovered_route env))
    \<and> (sends (importDiscoveredModel al p u st) req \<longrightarrow> control_v1 env req = on_db (import_selection_route (ae_admin env) (cq_body (ap_control req))))
    \<and> (sends (patchAccount a ch) req \<longrightarrow> control_v1 env req = on_db (general_route env req))"
  using assms
  by (simp add: sends_defs getCodexQuota_call_def refreshCodexQuota_call_def resetCodexQuota_call_def reconcileCodexQuotaReset_call_def
      resolveCodexQuotaReset_call_def discoverCodexModels_def getDiscoveredModels_def importDiscoveredModel_def patchAccount_def
      control_v1_def specific_route_def only_def)

definition request_for :: "client_call \<Rightarrow> api_request" where
  "request_for c = rename_request\<lparr>ap_method := cl_method c, ap_key := cl_key c,
     ap_control := (ap_control rename_request)\<lparr>cq_path := js_split (CHR ''/'') (cl_path c), cq_body := (case cl_body c of None \<Rightarrow> JNull | Some b \<Rightarrow> b)\<rparr>\<rparr>"

lemma request_for_sends: "sends c (request_for c)"
  by (simp add: sends_def request_for_def split: option.split)

theorem client_calls_reach_handlers_witness:
  "control_v1 api_demo (request_for (resetCodexQuota_call ''7'' ''k'')) = reset_route api_demo ''7'' (request_for (resetCodexQuota_call ''7'' ''k''))"
  using client_calls_reach_handlers [of "''7''" "''8''" "request_for (resetCodexQuota_call ''7'' ''k'')" api_demo "''k''"] by (simp add: request_for_sends)

text \<open>The scope chosen in the discovery dialog is the scope the server looks up, for every provider and account key.\<close>

theorem discovery_scope_agrees:
  assumes "k \<noteq> []" and "list_all is_digit k" and "sv_uuid env k"
  shows "scope_of env (wire (JObj (scope_body (toScope (''provider:'' @ k))))) = Inr (OfProvider (dec_val k))
    \<and> scope_of env (wire (JObj (scope_body (toScope (''account:'' @ k))))) = Inr (OfAccount (dec_val k))
    \<and> scope_of env (wire (JObj (scope_body (toScope ''all'')))) = Inr AllAccounts"
proof -
  have "\<not> is_digit (CHR '':'')" by (simp add: char_class_defs)
  then have "CHR '':'' \<notin> set k" using assms(2) by (auto simp: list_all_iff)
  then have "js_split (CHR '':'') k = [k]" by (rule js_split_single)
  then have "js_split (CHR '':'') (''provider:'' @ k) = [''provider'', k]" "js_split (CHR '':'') (''account:'' @ k) = [''account'', k]" by simp_all
  then have "toScope (''provider:'' @ k) = ScopeProvider (JStr k)" "toScope (''account:'' @ k) = ScopeAccount (JStr k)" "toScope ''all'' = ScopeAll"
    by (simp_all add: toScope_def Let_def)
  then show ?thesis using assms(3) by (simp add: scope_of_def z_uuid_def)
qed

text \<open>The discovery dialog offers six strategies, of which the import route accepts two: with any other the call is refused as
  invalid and nothing is imported.\<close>

theorem offered_strategies_refused:
  assumes "sends (importDiscoveredModel al p u st) req" and "st \<notin> {''round_robin'', ''quota_failover''}"
  shows "control_v1 env req s = (Inl ZodError, s)"
proof -
  have "control_v1 env req = on_db (import_selection_route (ae_admin env) (cq_body (ap_control req)))"
    and b: "get_prop (cq_body (ap_control req)) ''routing_strategy'' = JStr st"
    using assms(1) by (simp_all add: sends_defs importDiscoveredModel_def control_v1_def specific_route_def only_def)
  moreover have "SelectionSchema sv (cq_body (ap_control req)) = None" for sv
    using b assms(2)
    by (cases "SelectionSchema sv (cq_body (ap_control req))")
       (auto simp: SelectionSchema_def z_default_def z_enum_def dest!: z_object_get [where k = "''routing_strategy''"])
  ultimately show ?thesis
    by (simp add: import_selection_route_def selection_change_def parse_body_def on_db_def txOn_def bind_lift act_simps split_beta)
qed

theorem discovery_scope_agrees_witness:
  "scope_of (ad_schema demo_admin\<lparr>sv_uuid := (\<lambda>_. True)\<rparr>) (wire (JObj (scope_body (toScope ''provider:12'')))) = Inr (OfProvider 12)"
  using discovery_scope_agrees [of "''12''" "ad_schema demo_admin\<lparr>sv_uuid := (\<lambda>_. True)\<rparr>"] by (simp add: char_class_defs dec_val_def digit_val_def)

theorem offered_strategies_refused_witness:
  "control_v1 api_demo (request_for (importDiscoveredModel ''a'' ''1'' ''u'' ''lkgp'')) (demo_catalog, ()) = (Inl ZodError, (demo_catalog, ()))"
  by (rule offered_strategies_refused [OF request_for_sends]) simp

section \<open>What is shown after a load\<close>

lemma promise_all_Inr: "promise_all rs = Inr ps \<Longrightarrow> rs = map (\<lambda>(k, v). (k, Inr v)) ps"
  by (induction rs arbitrary: ps) (auto split: sum.splits)

lemma promise_all_Inl: "promise_all rs = Inl e \<Longrightarrow> \<exists>k. (k, Inl e) \<in> set rs"
  by (induction rs) (auto split: sum.splits)

lemma fold_set_prop:
  "distinct (map fst ps) \<Longrightarrow> lookup_or_undef (fold (\<lambda>(k, v) d. set_prop k v d) ps d) j = (case map_of ps j of Some v \<Rightarrow> v | None \<Rightarrow> lookup_or_undef d j)"
proof (induction ps arbitrary: d)
  case (Cons p ps)
  then have "map_of ps (fst p) = None" by (simp add: map_of_eq_None_iff)
  with Cons show ?case by (cases p) (auto simp: lookup_set_prop split: option.split)
qed simp

text \<open>A load is all or nothing: the tables it names are the answered ones and a silent load leaves the others as they are, or one call
  failed and the tables shown stay.\<close>

lemma load_cases:
  fixes silent :: bool
  defines "paths \<equiv> (if silent then LIVE_PATHS else FULL_PATHS)"
  obtains (Shown) "\<forall>(k, p)\<in>set paths. answer p = Inr (lookup_or_undef (ds_data (load own answer silent s)) k)"
      "silent \<Longrightarrow> \<forall>k. k \<notin> fst ` set paths \<longrightarrow> lookup_or_undef (ds_data (load own answer silent s)) k = lookup_or_undef (ds_data s) k"
      "ds_error (load own answer silent s) = None"
    | (Failure) k p e where "(k, p) \<in> set paths" "answer p = Inl e" "ds_data (load own answer silent s) = ds_data s"
      "ds_error (load own answer silent s) = Some (uiError own e ''error.controlUnavailable'')"
proof -
  let ?rs = "map (\<lambda>p. (fst p, answer (snd p))) paths" and ?data = "ds_data (load own answer silent s)"
  have keys: "distinct (map fst paths)" by (simp add: paths_def LIVE_PATHS_def FULL_PATHS_def)
  show thesis
  proof (cases "promise_all ?rs")
    case (Inl e)
    then obtain k p where "(k, p) \<in> set paths" "answer p = Inl e" using promise_all_Inl by fastforce
    moreover have "?data = ds_data s" "ds_error (load own answer silent s) = Some (uiError own e ''error.controlUnavailable'')"
      using Inl by (auto simp: load_def paths_def Let_def)
    ultimately show thesis using Failure by blast
  next
    case (Inr ps)
    have ps: "?rs = map (\<lambda>(k, v). (k, Inr v)) ps" by (rule promise_all_Inr [OF Inr])
    have k: "map fst ps = map fst paths" using arg_cong [OF ps, of "map fst"] by (simp add: comp_def split_beta)
    have "?data = (if silent then fold (\<lambda>(k, v) d. set_prop k v d) ps (ds_data s) else ps)" using Inr by (auto simp: load_def paths_def Let_def)
    then have look: "lookup_or_undef ?data j = (case map_of ps j of Some v \<Rightarrow> v | None \<Rightarrow> if silent then lookup_or_undef (ds_data s) j else JUndef)" for j
      using keys k fold_set_prop [of ps "ds_data s" j] by (cases silent) (simp_all add: lookup_or_undef_def [of ps])
    have "answer p = Inr (lookup_or_undef ?data k)" if "(k, p) \<in> set paths" for k p
    proof -
      have "(k, answer p) \<in> set ?rs" using that by force
      then obtain v where v: "(k, v) \<in> set ps" "answer p = Inr v" unfolding ps by auto
      then have "map_of ps k = Some v" using keys \<open>map fst ps = map fst paths\<close> by (metis map_of_is_SomeI)
      then show ?thesis using v(2) by (simp add: look)
    qed
    moreover have "lookup_or_undef ?data j = lookup_or_undef (ds_data s) j" if "j \<notin> fst ` set paths" silent for j
    proof -
      have "map_of ps j = None" using that k by (metis image_set map_of_eq_None_iff)
      then show ?thesis using look [of j] that(2) by simp
    qed
    moreover have "ds_error (load own answer silent s) = None" using Inr by (auto simp: load_def paths_def Let_def)
    ultimately show thesis by (intro Shown) auto
  qed
qed

text \<open>A change that the server refuses leaves the dialog open and the tables shown as they were, with the server's message.  After a change
  that it accepts the dialog is closed, and the tables shown are the ones the server answers then, or the failure of that load is shown.\<close>

theorem mutate_shows_outcome:
  "mutate own after (Inl e) s = s\<lparr>ds_error := Some (uiError own e ''error.actionFailed'')\<rparr>
   \<and> ds_modal (mutate own after (Inr v) s) = None
   \<and> ((\<forall>(k, p)\<in>set FULL_PATHS. after p = Inr (lookup_or_undef (ds_data (mutate own after (Inr v) s)) k))
      \<or> (ds_data (mutate own after (Inr v) s) = ds_data s \<and> ds_error (mutate own after (Inr v) s) \<noteq> None))"
proof -
  let ?s = "s\<lparr>ds_error := None, ds_modal := None\<rparr>"
  have m: "mutate own after (Inr v) s = load own after False ?s" by (simp add: mutate_def)
  have "ds_modal (load own after False ?s) = None" by (simp add: load_def Let_def split: sum.split)
  moreover have "(\<forall>(k, p)\<in>set FULL_PATHS. after p = Inr (lookup_or_undef (ds_data (load own after False ?s)) k))
      \<or> (ds_data (load own after False ?s) = ds_data s \<and> ds_error (load own after False ?s) \<noteq> None)"
    by (cases rule: load_cases [where own = own and answer = after and silent = False and s = ?s]) auto
  ultimately show ?thesis unfolding m by (simp add: mutate_def)
qed

text \<open>Before the routing settings are first saved, the read of the routing settings is refused with 404, and with it fails every
  full load: the tables shown stay as they are, whatever the other reads answer, and an error is shown.\<close>

theorem unrouted_dashboard_fails:
  assumes "routing d = None" and "resource (rr_control req) = ''routing''"
    and "answer ''routing'' = (case GET_view env req d of Inl e \<Rightarrow> snd (heard txt_of fb (problem issues e)) | Inr v \<Rightarrow> shown v)"
  shows "ds_data (load own answer False s) = ds_data s \<and> ds_error (load own answer False s) \<noteq> None"
proof -
  have "GET_view env req d = Inl (ApiError 404 ''not_found'' ''Routing settings not found'')"
    using assms(1, 2) by (simp add: GET_view_def Let_def routing_data_def)
  then have "answer ''routing'' \<noteq> Inr v" for v using assms(3) by (simp add: heard_def api_def response_ok_def)
  moreover have "(''routing'', ''routing'') \<in> set FULL_PATHS" by (simp add: FULL_PATHS_def)
  ultimately show ?thesis
    by (cases rule: load_cases [where own = own and answer = answer and silent = False and s = s]) auto
qed

theorem unrouted_dashboard_fails_witness:
  "let s = \<lparr>ds_data = [], ds_error = None, ds_modal = None, ds_loading = True\<rparr>;
       answer = (\<lambda>p. if p = ''routing'' then snd (heard (\<lambda>_. ''t'') ''f'' (problem JNull (ApiError 404 ''not_found'' ''Routing settings not found''))) else Inr (JArr []))
   in ds_data (load (\<lambda>_. []) answer False s) = [] \<and> ds_error (load (\<lambda>_. []) answer False s) \<noteq> None"
proof -
  let ?answer = "\<lambda>p. if p = ''routing'' then snd (heard (\<lambda>_. ''t'') ''f'' (problem JNull (ApiError 404 ''not_found'' ''Routing settings not found''))) else Inr (JArr [])"
  have r: "resource (rr_control (read_of ''routing'')) = ''routing''" by (simp add: read_of_def resource_def)
  have "?answer ''routing'' = (case GET_view read_demo (read_of ''routing'') empty_db of Inl e \<Rightarrow> snd (heard (\<lambda>_. ''t'') ''f'' (problem JNull e)) | Inr v \<Rightarrow> Inr JNull)"
    by (simp add: GET_view_def Let_def r routing_data_def empty_db_def)
  from unrouted_dashboard_fails [where d = empty_db and s = "\<lparr>ds_data = [], ds_error = None, ds_modal = None, ds_loading = True\<rparr>" and answer = ?answer, OF _ r this]
  show ?thesis by (simp add: Let_def empty_db_def)
qed

end
