(* ===== verification/Dashboard_Forms.thy ===== *)
theory Dashboard_Forms
  imports Dashboard_Client
begin

text \<open>
  The forms of \<open>dashboard-client.tsx\<close> and of the Claude dialog: which call each form sends.  A form is the list of its
  successful controls, as \<open>FormData\<close> holds them.  The optimisation switches are followed from the dialog and the settings card
  through the routing schema into the stored settings and back.
\<close>

type_synonym form = "(string \<times> string) list"

definition form_get :: "form \<Rightarrow> string \<Rightarrow> jv" where
  "form_get f k = (case map_of f k of None \<Rightarrow> JNull | Some s \<Rightarrow> JStr s)"

definition form_all :: "form \<Rightarrow> string \<Rightarrow> jv" where
  "form_all f k = JArr (map (\<lambda>p. JStr (snd p)) (filter (\<lambda>p. fst p = k) f))"

text \<open>\<open>String(form.get(k) ?? '')\<close>, \<open>String(form.get(k) || d)\<close>, \<open>Number(form.get(k) || d)\<close> and \<open>form.get(k) || u\<close>.\<close>

definition form_text :: "form \<Rightarrow> string \<Rightarrow> string" where
  "form_text f k = (case map_of f k of None \<Rightarrow> [] | Some s \<Rightarrow> s)"

definition text_or :: "form \<Rightarrow> string \<Rightarrow> string \<Rightarrow> string" where
  "text_or f k d = (if form_text f k = [] then d else form_text f k)"

definition number_or :: "form \<Rightarrow> string \<Rightarrow> rat \<Rightarrow> jv" where
  "number_or f k d = JNum (if form_text f k = [] then Fin d else js_number (form_text f k))"

definition value_or :: "form \<Rightarrow> string \<Rightarrow> jv \<Rightarrow> jv" where
  "value_or f k u = (if form_text f k = [] then u else JStr (form_text f k))"

lemma number_or_defined [simp]: "number_or f k d \<noteq> JUndef"
  by (simp add: number_or_def)

section \<open>Creating resources\<close>

definition submitProvider :: "form \<Rightarrow> client_call" where
  "submitProvider f = body_call Post ''providers''
     [(''slug'', form_get f ''slug''), (''name'', form_get f ''name''), (''adapter'', form_get f ''adapter''), (''base_url'', form_get f ''base_url''),
      (''enabled'', JBool True), (''metadata'', JObj [])]"

record account_draft =
  dr_provider :: string
  dr_base_url :: string
  dr_adapter :: string
  dr_kind :: string

text \<open>\<open>accountDefaultsForProvider\<close> of \<open>account-form.ts\<close>.\<close>

definition accountDefaultsForProvider :: "(string \<times> string \<times> string option) list \<Rightarrow> string \<Rightarrow> account_draft" where
  "accountDefaultsForProvider ps i =
     (case find (\<lambda>p. fst p = i) ps of
        None \<Rightarrow> \<lparr>dr_provider = [], dr_base_url = [], dr_adapter = [], dr_kind = ''api_key''\<rparr>
      | Some (k, url, adapter) \<Rightarrow>
          \<lparr>dr_provider = k, dr_base_url = url, dr_adapter = (case adapter of None \<Rightarrow> ''openai-compatible'' | Some a \<Rightarrow> a), dr_kind = ''api_key''\<rparr>)"

definition submitted_credential :: "string \<Rightarrow> form \<Rightarrow> jv" where
  "submitted_credential kind f =
     JObj (if kind = ''cookie'' then [(''kind'', JStr kind), (''cookies'', form_get f ''cookies''), (''organization_id'', value_or f ''organization_id'' JUndef)]
       else if kind = ''oauth'' then [(''kind'', JStr kind), (''access_token'', form_get f ''access_token''), (''organization_id'', value_or f ''organization_id'' JUndef)]
       else [(''kind'', JStr kind), (''api_key'', form_get f ''api_key'')])"

definition submitAccount :: "account_draft \<Rightarrow> form \<Rightarrow> client_call" where
  "submitAccount dr f = body_call Post ''accounts''
     [(''provider_id'', form_get f ''provider_id''), (''name'', form_get f ''name''), (''display_name'', form_get f ''display_name''),
      (''base_url'', JStr (dr_base_url dr)), (''enabled'', JBool True), (''priority'', number_or f ''priority'' 1), (''weight'', num 1),
      (''max_concurrency'', number_or f ''max_concurrency'' 100), (''cost'', num 0), (''credential'', submitted_credential (dr_kind dr) f),
      (''metadata'', JObj []), (''proxy'', JStr (form_text f ''proxy''))]"

definition submitProxyPool :: "form \<Rightarrow> client_call" where
  "submitProxyPool f = body_call Post ''proxy-pool'' [(''raw'', JStr (form_text f ''proxy_pool_raw''))]"

definition cacheFormValues :: "form \<Rightarrow> (string \<times> jv) list" where
  "cacheFormValues f =
     (let mode = form_text f ''cache''; ttl = js_trim (form_text f ''cache_ttl''); raw = js_trim (form_text f ''cache_similar_threshold'')
      in [(''cache'', JStr mode), (''cache_ttl'', JStr ttl),
          (''cache_similar_threshold'', if mode = ''similar'' \<and> raw \<noteq> [] then JNum (js_number raw) else JNull)])"

definition submitModel :: "form \<Rightarrow> client_call" where
  "submitModel f = body_call Post ''models''
     ([(''alias'', form_get f ''alias''), (''upstream_model'', form_get f ''upstream_model''), (''enabled'', JBool True), (''accounts'', form_all f ''accounts''),
       (''fallbacks'', form_all f ''fallbacks''), (''input_per_mtok'', number_or f ''input_per_mtok'' 0), (''output_per_mtok'', number_or f ''output_per_mtok'' 0)]
      @ cacheFormValues f)"

definition submitKey :: "form \<Rightarrow> client_call" where
  "submitKey f = body_call Post ''virtual-keys''
     [(''name'', form_get f ''name''), (''models'', form_all f ''models''), (''rpm'', number_or f ''rpm'' 60), (''tpm'', number_or f ''tpm'' 0),
      (''max_concurrency'', number_or f ''max_concurrency'' 0), (''budget_usd'', number_or f ''budget_usd'' 0),
      (''budget_duration'', JStr (text_or f ''budget_duration'' ''day'')), (''team_id'', value_or f ''team_id'' JNull), (''enabled'', JBool True)]"

definition submitTeam :: "form \<Rightarrow> client_call" where
  "submitTeam f = body_call Post ''teams'' [(''name'', form_get f ''name''), (''budget_usd'', number_or f ''budget_usd'' 0), (''enabled'', JBool True)]"

definition submitWebhook :: "form \<Rightarrow> client_call" where
  "submitWebhook f = body_call Post ''webhook''
     [(''enabled'', JBool (form_get f ''enabled'' = JStr ''on'')), (''url'', form_get f ''url''), (''secret'', form_get f ''secret'')]"

definition importSnapshotFile :: "jv \<Rightarrow> client_call" where
  "importSnapshotFile snapshot = body_call Post ''import'' [(''snapshot'', snapshot)]"

section \<open>Batches\<close>

definition form_lines :: "form \<Rightarrow> string \<Rightarrow> string list" where
  "form_lines f k = map js_trim (js_split (CHR 0x0A) (form_text f k))"

definition is_entry :: "string \<Rightarrow> bool" where
  "is_entry l \<longleftrightarrow> l \<noteq> [] \<and> hd l \<noteq> CHR ''#''"

text \<open>The part before the first colon is the name, unless the colon comes first.\<close>

definition named_line :: "string \<Rightarrow> string option \<times> string" where
  "named_line l =
     (case index_of_char (CHR '':'') l of
        Some n \<Rightarrow> if 0 < n then (Some (js_trim (take n l)), js_trim (drop (Suc n) l)) else (None, l)
      | None \<Rightarrow> (None, l))"

definition codex_line :: "string \<Rightarrow> string option \<times> string" where
  "codex_line l = (if starts_with l ''{'' \<or> starts_with l ''eyJ'' then (None, l) else named_line l)"

definition entry_json :: "string \<Rightarrow> string option \<times> string \<Rightarrow> jv" where
  "entry_json member e = JObj [(''name'', case fst e of None \<Rightarrow> JUndef | Some n \<Rightarrow> JStr n), (member, JStr (snd e))]"

definition submitBatchAccounts :: "string \<Rightarrow> form \<Rightarrow> client_call option" where
  "submitBatchAccounts batchProviderId f =
     (let es = map named_line (filter is_entry (form_lines f ''entries''))
      in if es = [] then None
         else Some (body_call Post ''accounts/batch''
           [(''provider_id'', JStr (text_or f ''provider_id'' batchProviderId)), (''kind'', value_or f ''kind'' (JStr ''api_key'')),
            (''entries'', JArr (map (entry_json ''secret'') es)), (''priority'', number_or f ''priority'' 1), (''max_concurrency'', number_or f ''max_concurrency'' 100)]))"

abbreviation MAX_AUTH_FILE_BYTES :: nat where "MAX_AUTH_FILE_BYTES \<equiv> 1024 * 1024"

text \<open>A file is its size and its text.  Nothing is sent when a file is too large.\<close>

definition submitBatchCodex :: "string \<Rightarrow> form \<Rightarrow> (nat \<times> string) list \<Rightarrow> client_error + client_call option" where
  "submitBatchCodex batchProviderId f files =
     (let provider = text_or f ''provider_id'' batchProviderId
      in if provider = [] then Inr None
         else if list_ex (\<lambda>(size, _). MAX_AUTH_FILE_BYTES < size) files then Inl (RequestFailed ''codex file too large'')
         else let es = map codex_line (filter is_entry (form_lines f ''entries'')) @ map (\<lambda>(_, text). (None, text)) files
              in Inr (if es = [] then None
                      else Some (body_call Post ''codex/import-auth-batch''
                        [(''provider_id'', JStr provider), (''entries'', JArr (map (entry_json ''raw'') es)), (''max_concurrency'', number_or f ''max_concurrency'' 1)])))"

definition submitBatchModels :: "form \<Rightarrow> client_call option" where
  "submitBatchModels f =
     (let ls = filter (\<lambda>l. l \<noteq> []) (form_lines f ''lines'')
      in if ls = [] then None
         else Some (body_call Post ''models/batch''
           [(''lines'', JArr (map JStr ls)), (''accounts'', form_all f ''accounts''), (''fallbacks'', form_all f ''fallbacks''),
            (''input_per_mtok'', number_or f ''input_per_mtok'' 0), (''output_per_mtok'', number_or f ''output_per_mtok'' 0)]))"

section \<open>Changing resources\<close>

definition submitRotation :: "string \<Rightarrow> form \<Rightarrow> client_call" where
  "submitRotation account f = body_call Patch (''accounts/'' @ account) [(''credential'', JObj [(''api_key'', form_get f ''api_key'')])]"

definition publish_call :: client_call where
  "publish_call = body_call Post ''config-versions/publish'' []"

definition rollback_calls :: "nat \<Rightarrow> client_call list" where
  "rollback_calls version = [body_call Post ''config-versions/rollback'' [(''version'', num (of_nat version))], publish_call]"

definition toggleResource :: "string \<Rightarrow> string \<Rightarrow> bool \<Rightarrow> client_call" where
  "toggleResource path i enabled = body_call Patch (path @ ''/'' @ i) [(''enabled'', JBool (\<not> enabled))]"

definition toggleAccount :: "string \<Rightarrow> bool \<Rightarrow> client_call" where
  "toggleAccount i enabled = body_call Patch (''accounts/'' @ i) [(''enabled'', JBool (\<not> enabled))]"

datatype resource_kind = ProviderKind | AccountKind | ModelKind | KeyKind | TeamKind

fun resource_path :: "resource_kind \<Rightarrow> string" where
  "resource_path ProviderKind = ''providers''"
| "resource_path AccountKind = ''accounts''"
| "resource_path ModelKind = ''models''"
| "resource_path KeyKind = ''virtual-keys''"
| "resource_path TeamKind = ''teams''"

definition deleteResource :: "resource_kind \<Rightarrow> string \<Rightarrow> client_call" where
  "deleteResource kind i =
     \<lparr>cl_method = Delete, cl_path = (case kind of ProviderKind \<Rightarrow> ''providers'' | ModelKind \<Rightarrow> ''models'' | _ \<Rightarrow> ''accounts'') @ ''/'' @ i, cl_body = None, cl_key = None\<rparr>"

definition updateModelStrategy :: "string \<Rightarrow> string \<Rightarrow> client_call" where
  "updateModelStrategy i strategy = body_call Patch (''models/'' @ i) [(''routing_strategy'', JStr strategy)]"

text \<open>\<open>Number(form.get(k))\<close>: a missing control counts as null.\<close>

definition edited_members :: "resource_kind \<Rightarrow> bool \<Rightarrow> form \<Rightarrow> (string \<times> jv) list" where
  "edited_members kind pooled f =
     (case kind of
        ProviderKind \<Rightarrow> [(''name'', form_get f ''name''), (''base_url'', form_get f ''base_url'')]
      | TeamKind \<Rightarrow> [(''name'', form_get f ''name''), (''budget_usd'', number_or f ''budget_usd'' 0)]
      | AccountKind \<Rightarrow> [(''display_name'', form_get f ''display_name''), (''base_url'', form_get f ''base_url''),
          (''priority'', JNum (to_number (form_get f ''priority''))), (''max_concurrency'', JNum (to_number (form_get f ''max_concurrency''))),
          (''proxy'', JStr (form_text f ''proxy''))]
      | ModelKind \<Rightarrow> [(''alias'', form_get f ''alias''), (''upstream_model'', form_get f ''upstream_model''), (''fallbacks'', form_all f ''fallbacks''),
          (''input_per_mtok'', number_or f ''input_per_mtok'' 0), (''output_per_mtok'', number_or f ''output_per_mtok'' 0)]
          @ cacheFormValues f @ (if pooled then [] else [(''accounts'', form_all f ''accounts'')])
      | KeyKind \<Rightarrow> [(''name'', form_get f ''name''), (''rpm'', JNum (to_number (form_get f ''rpm''))), (''models'', form_all f ''models''),
          (''tpm'', number_or f ''tpm'' 0), (''max_concurrency'', number_or f ''max_concurrency'' 0), (''budget_usd'', number_or f ''budget_usd'' 0),
          (''team_id'', value_or f ''team_id'' JNull)])"

text \<open>\<open>pooled\<close>: the model belongs to a provider and has no accounts of its own.\<close>

definition submitEditing :: "resource_kind \<Rightarrow> string \<Rightarrow> bool \<Rightarrow> form \<Rightarrow> client_call" where
  "submitEditing kind i pooled f = body_call Patch (resource_path kind @ ''/'' @ i) (edited_members kind pooled f)"

section \<open>Claude accounts\<close>

definition CLAUDE_BASE_URL :: string where
  "CLAUDE_BASE_URL = ''https://claude.ai''"

text \<open>The provider to use, or the call that creates it.\<close>

definition ensureClaudeProvider :: "(string \<times> string \<times> string) list \<Rightarrow> string + client_call" where
  "ensureClaudeProvider ps =
     (case find (\<lambda>(_, adapter, url). adapter = ''anthropic'' \<and> url = CLAUDE_BASE_URL) ps of
        Some (i, _) \<Rightarrow> Inl i
      | None \<Rightarrow> Inr (body_call Post ''providers'' [(''slug'', JStr ''claude''), (''name'', JStr ''Claude''), (''adapter'', JStr ''anthropic''),
          (''base_url'', JStr CLAUDE_BASE_URL), (''enabled'', JBool True), (''metadata'', JObj [])]))"

text \<open>\<open>replace(/[^a-z0-9._-]+/g, '-')\<close>: every run of other characters becomes one dash.\<close>

definition slug_char :: "char \<Rightarrow> bool" where
  "slug_char c \<longleftrightarrow> is_lower c \<or> is_digit c \<or> c \<in> set ''._-''"

fun slugged :: "bool \<Rightarrow> string \<Rightarrow> string" where
  "slugged inside [] = []"
| "slugged inside (c # cs) = (if slug_char c then c # slugged False cs else if inside then slugged True cs else CHR ''-'' # slugged True cs)"

record claude_form =
  ci_kind :: string
  ci_cookies :: string
  ci_token :: string
  ci_organization :: string
  ci_display :: string
  ci_priority :: jsnum
  ci_concurrency :: jsnum

definition claude_form_credential :: "claude_form \<Rightarrow> jv" where
  "claude_form_credential x =
     JObj ([(''kind'', JStr (ci_kind x))]
       @ (if ci_kind x = ''cookie'' then [(''cookies'', JStr (ci_cookies x)), (''organization_id'', if ci_organization x = [] then JUndef else JStr (ci_organization x))] else [])
       @ (if ci_kind x = ''oauth'' then [(''access_token'', JStr (ci_token x)), (''organization_id'', if ci_organization x = [] then JUndef else JStr (ci_organization x))] else []))"

definition claude_name :: "string \<Rightarrow> claude_form \<Rightarrow> string" where
  "claude_name uuid_text x =
     ''claude-'' @ (if js_trim (ci_display x) \<noteq> [] then slugged False (toLowerCase (js_trim (ci_display x))) else take 12 uuid_text)"

definition createClaudeAccount :: "string \<Rightarrow> string \<Rightarrow> claude_form \<Rightarrow> client_call" where
  "createClaudeAccount uuid_text provider x = body_call Post ''accounts''
     [(''provider_id'', JStr provider), (''name'', JStr (claude_name uuid_text x)),
      (''display_name'', JStr (if js_trim (ci_display x) = [] then ''Claude account'' else js_trim (ci_display x))),
      (''base_url'', JStr CLAUDE_BASE_URL), (''enabled'', JBool True), (''priority'', JNum (ci_priority x)), (''weight'', num 1),
      (''max_concurrency'', JNum (ci_concurrency x)), (''cost'', num 0), (''credential'', claude_form_credential x),
      (''metadata'', JObj [(''auth_method'', JStr (ci_kind x))])]"


section \<open>Optimisation switches\<close>

record optimization_draft =
  od_rtk :: bool
  od_caveman :: bool
  od_headroom :: bool
  od_squoze :: bool
  od_rtk_mode :: string
  od_caveman_mode :: string
  od_profile :: string
  od_reserve :: jsnum
  od_keep :: jsnum

definition mode_or_auto :: "jv \<Rightarrow> string" where
  "mode_or_auto v = (case v of JStr s \<Rightarrow> s | _ \<Rightarrow> ''auto'')"

definition draft_of :: "jv \<Rightarrow> optimization_draft" where
  "draft_of opt =
     \<lparr>od_rtk = truthy (get_prop opt ''rtk_compression''), od_caveman = truthy (get_prop opt ''caveman''), od_headroom = truthy (get_prop opt ''headroom''),
      od_squoze = truthy (get_prop opt ''squoze''), od_rtk_mode = mode_or_auto (get_prop opt ''rtk_mode''),
      od_caveman_mode = mode_or_auto (get_prop opt ''caveman_mode''), od_profile = mode_or_auto (get_prop opt ''headroom_profile''),
      od_reserve = num_or (to_number (get_prop opt ''headroom_reserve'')) (Fin 120000), od_keep = num_or (to_number (get_prop opt ''headroom_keep'')) (Fin 8)\<rparr>"

definition draftFromRouting :: "jv \<Rightarrow> optimization_draft" where
  "draftFromRouting rt = draft_of (coalesce (get_prop rt ''optimization'') (JObj []))"

record optimization_patch =
  op_rtk :: "bool option"
  op_caveman :: "bool option"
  op_headroom :: "bool option"
  op_squoze :: "bool option"
  op_rtk_mode :: "string option"
  op_caveman_mode :: "string option"
  op_profile :: "string option"
  op_reserve :: "jsnum option"
  op_keep :: "jsnum option"

definition given :: "'a option \<Rightarrow> 'a \<Rightarrow> 'a" where
  "given p x = (case p of Some y \<Rightarrow> y | None \<Rightarrow> x)"

text \<open>The patch over the draft, and the exclusion both editors apply to it.\<close>

definition patched_draft :: "optimization_patch \<Rightarrow> optimization_draft \<Rightarrow> optimization_draft" where
  "patched_draft p s =
     (let next0 = \<lparr>od_rtk = given (op_rtk p) (od_rtk s), od_caveman = given (op_caveman p) (od_caveman s), od_headroom = given (op_headroom p) (od_headroom s),
          od_squoze = given (op_squoze p) (od_squoze s), od_rtk_mode = given (op_rtk_mode p) (od_rtk_mode s),
          od_caveman_mode = given (op_caveman_mode p) (od_caveman_mode s), od_profile = given (op_profile p) (od_profile s),
          od_reserve = given (op_reserve p) (od_reserve s), od_keep = given (op_keep p) (od_keep s)\<rparr>;
          next1 = (if op_squoze p = Some True then next0\<lparr>od_rtk := False, od_caveman := False, od_headroom := False\<rparr> else next0)
      in if op_rtk p = Some True \<or> op_caveman p = Some True \<or> op_headroom p = Some True then next1\<lparr>od_squoze := False\<rparr> else next1)"

text \<open>The controls of \<open>OptimizationFields\<close> that take part in the form: those of a switch that is off are disabled.\<close>

definition on_off :: "bool \<Rightarrow> string" where
  "on_off b = (if b then ''on'' else ''off'')"

definition optimization_controls :: "(jsnum \<Rightarrow> string) \<Rightarrow> optimization_draft \<Rightarrow> form" where
  "optimization_controls show_num s =
     [(''rtk_compression'', on_off (od_rtk s)), (''caveman'', on_off (od_caveman s)), (''headroom'', on_off (od_headroom s)), (''squoze'', on_off (od_squoze s))]
     @ (if od_rtk s then [(''rtk_mode'', od_rtk_mode s)] else [])
     @ (if od_caveman s then [(''caveman_mode'', od_caveman_mode s)] else [])
     @ (if od_headroom s then [(''headroom_profile'', od_profile s), (''headroom_reserve'', show_num (od_reserve s)), (''headroom_keep'', show_num (od_keep s))] else [])"

definition switched_on :: "form \<Rightarrow> string \<Rightarrow> bool" where
  "switched_on f k \<longleftrightarrow> form_get f k = JStr ''on''"

definition submitted_optimization :: "form \<Rightarrow> jv" where
  "submitted_optimization f =
     JObj ([(''rtk_compression'', JBool (switched_on f ''rtk_compression'')), (''caveman'', JBool (switched_on f ''caveman'')),
        (''headroom'', JBool (switched_on f ''headroom'')), (''squoze'', JBool (switched_on f ''squoze'')),
        (''headroom_reserve'', number_or f ''headroom_reserve'' 120000), (''headroom_keep'', number_or f ''headroom_keep'' 8)]
       @ member_if (switched_on f ''rtk_compression'' \<and> form_text f ''rtk_mode'' \<noteq> []) ''rtk_mode'' (JStr (form_text f ''rtk_mode''))
       @ member_if (switched_on f ''caveman'' \<and> form_text f ''caveman_mode'' \<noteq> []) ''caveman_mode'' (JStr (form_text f ''caveman_mode''))
       @ member_if (switched_on f ''headroom'' \<and> form_text f ''headroom_profile'' \<noteq> []) ''headroom_profile'' (JStr (form_text f ''headroom_profile'')))"

lemma submitted_defined: "submitted_optimization f \<noteq> JUndef"
  by (simp add: submitted_optimization_def)

definition submitRouting :: "form \<Rightarrow> client_call" where
  "submitRouting f = body_call Post ''routing''
     [(''strategy'', form_get f ''strategy''), (''sticky_ttl'', form_get f ''sticky_ttl''), (''max_attempts'', number_or f ''max_attempts'' 2),
      (''resilience'', JObj [(''cooldown'', form_get f ''cooldown''), (''circuit_failures'', number_or f ''circuit_failures'' 3),
         (''circuit_reset'', form_get f ''circuit_reset''), (''lockout_failures'', number_or f ''lockout_failures'' 10),
         (''lockout_duration'', form_get f ''lockout_duration'')]),
      (''optimization'', submitted_optimization f)]"

text \<open>\<open>mutateOptimization\<close> of the settings card: the numbers come from the settings shown, and every member is sent.\<close>

definition draft_json :: "optimization_draft \<Rightarrow> jv" where
  "draft_json s =
     JObj [(''rtk_compression'', JBool (od_rtk s)), (''caveman'', JBool (od_caveman s)), (''headroom'', JBool (od_headroom s)), (''squoze'', JBool (od_squoze s)),
       (''rtk_mode'', JStr (od_rtk_mode s)), (''caveman_mode'', JStr (od_caveman_mode s)), (''headroom_profile'', JStr (od_profile s)),
       (''headroom_reserve'', JNum (od_reserve s)), (''headroom_keep'', JNum (od_keep s))]"

definition mutateOptimization :: "jv \<Rightarrow> optimization_patch \<Rightarrow> client_call" where
  "mutateOptimization rt p =
     (let res = get_prop rt ''resilience''
      in body_call Post ''routing''
        [(''strategy'', or_default rt ''strategy'' (JStr ''balanced'')), (''sticky_ttl'', or_default rt ''sticky_ttl'' (JStr ''1h'')),
         (''max_attempts'', JNum (to_number (or_default rt ''max_attempts'' (num 2)))),
         (''resilience'', JObj [(''cooldown'', or_default res ''cooldown'' (JStr ''30s'')), (''circuit_failures'', JNum (to_number (or_default res ''circuit_failures'' (num 3)))),
            (''circuit_reset'', or_default res ''circuit_reset'' (JStr ''1m'')), (''lockout_failures'', JNum (to_number (or_default res ''lockout_failures'' (num 10)))),
            (''lockout_duration'', or_default res ''lockout_duration'' (JStr ''15m''))]),
         (''optimization'', draft_json (patched_draft (p\<lparr>op_reserve := None, op_keep := None\<rparr>) (draftFromRouting rt)))])"

section \<open>The switches exclude each other\<close>

definition exclusive :: "optimization_draft \<Rightarrow> bool" where
  "exclusive s \<longleftrightarrow> \<not> (od_squoze s \<and> (od_rtk s \<or> od_caveman s \<or> od_headroom s))"

lemma patched_exclusive: "exclusive s \<Longrightarrow> exclusive (patched_draft p s)"
  by (cases "op_squoze p"; cases "op_rtk p"; cases "op_caveman p"; cases "op_headroom p")
     (auto simp: exclusive_def patched_draft_def given_def Let_def)


section \<open>What the settings card can save\<close>

lemma optimization_refused:
  assumes "get_prop v ''optimization'' = opt" and "is_record opt" and "get_prop opt ''squoze'' = JBool True"
    and "get_prop opt ''rtk_mode'' = JStr m"
  shows "RoutingSchema v = None"
proof (rule ccontr)
  assume "RoutingSchema v \<noteq> None"
  then obtain w where "RoutingSchema v = Some w" by blast
  then have "z_refine squoze_exclusive (z_default default_optimization optimization_schema) opt = Some (get_prop w ''optimization'')"
    unfolding RoutingSchema_def assms(1) [symmetric] by (rule z_object_get) simp_all
  then obtain o' where o': "optimization_schema opt = Some o'" "squoze_exclusive o'"
    using assms(2) by (auto simp: z_refine_def z_default_def split: option.splits if_splits)
  have "z_optional z_bool (get_prop opt ''squoze'') = Some (get_prop o' ''squoze'')"
    by (rule z_object_get [OF o'(1) [unfolded optimization_schema_def]]) simp_all
  moreover have "z_optional (z_enum [''light'', ''standard'', ''aggressive'', ''auto'']) (get_prop opt ''rtk_mode'') = Some (get_prop o' ''rtk_mode'')"
    by (rule z_object_get [OF o'(1) [unfolded optimization_schema_def]]) simp_all
  ultimately have "get_prop o' ''squoze'' = JBool True" "get_prop o' ''rtk_mode'' = JStr m" "m \<noteq> []"
    using assms(3,4) by (auto simp: z_optional_def z_enum_def split: if_splits)
  then show False using o'(2) by (simp add: squoze_exclusive_def)
qed

lemma routing_refused: "RoutingSchema body = None \<Longrightarrow> routing_POST env body d = (Inl ZodError, d)"
  by (simp add: routing_POST_def parse_body_def bind_lift)

text \<open>C35: the settings card cannot save the exclusive mode: whenever the settings it sends have squoze on, be it that the operator switches it on
  or that another setting is changed while it is on, the mode presets it always sends along make the server refuse them, and nothing changes.\<close>

theorem card_never_saves_squoze:
  assumes "od_squoze (patched_draft (p\<lparr>op_reserve := None, op_keep := None\<rparr>) (draftFromRouting rt))"
    and "cl_body (mutateOptimization rt p) = Some body"
  shows "routing_POST env body d = (Inl ZodError, d)"
proof (rule routing_refused, rule optimization_refused)
  let ?s = "patched_draft (p\<lparr>op_reserve := None, op_keep := None\<rparr>) (draftFromRouting rt)"
  show "get_prop body ''optimization'' = wire (draft_json ?s)"
    using assms(2) by (auto simp: mutateOptimization_def body_call_def Let_def draft_json_def)
  show "is_record (wire (draft_json ?s))" "get_prop (wire (draft_json ?s)) ''squoze'' = JBool True"
    "get_prop (wire (draft_json ?s)) ''rtk_mode'' = JStr (od_rtk_mode ?s)"
    using assms(1) by (simp_all add: draft_json_def)
qed

definition no_patch :: optimization_patch where
  "no_patch = \<lparr>op_rtk = None, op_caveman = None, op_headroom = None, op_squoze = None, op_rtk_mode = None, op_caveman_mode = None, op_profile = None,
     op_reserve = None, op_keep = None\<rparr>"

theorem card_never_saves_squoze_witness:
  "routing_POST demo_admin (the (cl_body (mutateOptimization JNull (no_patch\<lparr>op_squoze := Some True\<rparr>)))) demo_tables_db = (Inl ZodError, demo_tables_db)"
  by (rule card_never_saves_squoze [of "no_patch\<lparr>op_squoze := Some True\<rparr>" JNull])
     (simp_all add: patched_draft_def no_patch_def given_def mutateOptimization_def body_call_def Let_def)


section \<open>What the routing dialog saves\<close>

text \<open>The settings as they are shown again: the presets of a switch that is off, and the figures of headroom when it is off, are not kept.\<close>

definition saved_draft :: "optimization_draft \<Rightarrow> optimization_draft" where
  "saved_draft s = s\<lparr>od_rtk_mode := (if od_rtk s then od_rtk_mode s else ''auto''), od_caveman_mode := (if od_caveman s then od_caveman_mode s else ''auto''),
     od_profile := (if od_headroom s then od_profile s else ''auto''), od_reserve := (if od_headroom s then od_reserve s else Fin 120000),
     od_keep := (if od_headroom s then od_keep s else Fin 8)\<rparr>"

definition counting :: "(jsnum \<Rightarrow> string) \<Rightarrow> jsnum \<Rightarrow> bool" where
  "counting show_num n \<longleftrightarrow> is_integer n \<and> num_positive n \<and> show_num n \<noteq> [] \<and> js_number (show_num n) = n"

definition rtkModes :: "string list" where
  "rtkModes = [''auto'', ''light'', ''standard'', ''aggressive'']"

definition cavemanModes :: "string list" where
  "cavemanModes = [''auto'', ''lite'', ''full'']"

definition headroomProfiles :: "string list" where
  "headroomProfiles = [''auto'', ''conservative'', ''balanced'', ''aggressive'']"

definition editable :: "(jsnum \<Rightarrow> string) \<Rightarrow> optimization_draft \<Rightarrow> bool" where
  "editable show_num s \<longleftrightarrow> exclusive s \<and> od_rtk_mode s \<in> set rtkModes \<and> od_caveman_mode s \<in> set cavemanModes \<and> od_profile s \<in> set headroomProfiles
     \<and> counting show_num (od_reserve s) \<and> counting show_num (od_keep s)"

definition saved_members :: "optimization_draft \<Rightarrow> (string \<times> jv) list" where
  "saved_members s =
     [(''rtk_compression'', JBool (od_rtk s)), (''caveman'', JBool (od_caveman s)), (''headroom'', JBool (od_headroom s)),
      (''headroom_reserve'', JNum (od_reserve (saved_draft s))), (''headroom_keep'', JNum (od_keep (saved_draft s)))]
     @ member_if (od_rtk s) ''rtk_mode'' (JStr (od_rtk_mode s)) @ member_if (od_caveman s) ''caveman_mode'' (JStr (od_caveman_mode s))
     @ member_if (od_headroom s) ''headroom_profile'' (JStr (od_profile s)) @ [(''squoze'', JBool (od_squoze s))]"

definition optimization_keys :: "string list" where
  "optimization_keys = [''rtk_compression'', ''caveman'', ''headroom'', ''headroom_reserve'', ''headroom_keep'', ''rtk_mode'', ''caveman_mode'', ''headroom_profile'', ''squoze'']"

lemma modes_filled: "[] \<notin> set rtkModes" "[] \<notin> set cavemanModes" "[] \<notin> set headroomProfiles"
  by (simp_all add: rtkModes_def cavemanModes_def headroomProfiles_def)

lemma editable_facts:
  assumes "editable show_num s"
  shows "od_rtk_mode s \<noteq> []" "od_caveman_mode s \<noteq> []" "od_profile s \<noteq> []" "\<exists>r. od_reserve s = Fin r \<and> is_integer (Fin r) \<and> 0 < r"
    "\<exists>k. od_keep s = Fin k \<and> is_integer (Fin k) \<and> 0 < k"
  using assms modes_filled by (auto simp: editable_def counting_def is_integer_def num_positive_def split: jsnum.splits)

lemma submitted_members:
  assumes "editable show_num s" and "map_of rest ''headroom_reserve'' = None" and "map_of rest ''headroom_keep'' = None"
    and "k \<in> set optimization_keys"
  shows "get_prop (wire (submitted_optimization (optimization_controls show_num s @ rest))) k = lookup_or_undef (saved_members s) k"
proof -
  let ?f = "optimization_controls show_num s @ rest"
  have sw: "switched_on ?f ''rtk_compression'' = od_rtk s" "switched_on ?f ''caveman'' = od_caveman s" "switched_on ?f ''headroom'' = od_headroom s"
    "switched_on ?f ''squoze'' = od_squoze s"
    by (simp_all add: switched_on_def form_get_def optimization_controls_def on_off_def)
  have modes: "od_rtk s \<Longrightarrow> form_text ?f ''rtk_mode'' = od_rtk_mode s" "od_caveman s \<Longrightarrow> form_text ?f ''caveman_mode'' = od_caveman_mode s"
    "od_headroom s \<Longrightarrow> form_text ?f ''headroom_profile'' = od_profile s"
    by (simp_all add: form_text_def optimization_controls_def)
  have nums: "number_or ?f ''headroom_reserve'' 120000 = JNum (od_reserve (saved_draft s))"
    "number_or ?f ''headroom_keep'' 8 = JNum (od_keep (saved_draft s))"
    using assms by (simp_all add: number_or_def form_text_def optimization_controls_def editable_def counting_def saved_draft_def)
  have fin: "is_finite (od_reserve (saved_draft s))" "is_finite (od_keep (saved_draft s))"
    using editable_facts [OF assms(1)] by (auto simp: is_finite_def saved_draft_def)
  show ?thesis using assms(4) editable_facts(1-3) [OF assms(1)] unfolding submitted_optimization_def sw nums
    by (cases "od_rtk s"; cases "od_caveman s"; cases "od_headroom s") (auto simp: optimization_keys_def saved_members_def member_if_def modes fin)
qed

lemma z_object_cong:
  assumes "is_record v" and "is_record w" and "\<And>k. k \<in> fst ` set shape \<Longrightarrow> get_prop v k = get_prop w k"
  shows "z_object shape v = z_object shape w"
proof -
  have "map (\<lambda>(k, s). map_option (Pair k) (s (get_prop v k))) shape = map (\<lambda>(k, s). map_option (Pair k) (s (get_prop w k))) shape"
    by (rule map_cong) (use assms(3) in force)+
  with assms(1,2) show ?thesis unfolding z_object_def by argo
qed

lemma saved_members_parse:
  assumes "editable show_num s"
  shows "optimization_schema (JObj (saved_members s)) = Some (JObj (saved_members s))" "squoze_exclusive (JObj (saved_members s))"
proof -
  obtain r k where n: "od_reserve s = Fin r" "is_integer (Fin r)" "0 < r" "od_keep s = Fin k" "is_integer (Fin k)" "0 < k"
    using editable_facts(4,5) [OF assms] by blast
  have ints: "is_integer (Fin 120000)" "is_integer (Fin 8)" by (simp_all add: is_integer_def)
  have m: "od_rtk_mode s \<in> {''light'', ''standard'', ''aggressive'', ''auto''}" "od_caveman_mode s \<in> {''lite'', ''full'', ''auto''}"
    "od_profile s \<in> {''conservative'', ''balanced'', ''aggressive'', ''auto''}"
    using assms by (auto simp: editable_def rtkModes_def cavemanModes_def headroomProfiles_def)
  then have e: "JStr (od_rtk_mode s) \<in> JStr ` {''light'', ''standard'', ''aggressive'', ''auto''}" "JStr (od_caveman_mode s) \<in> JStr ` {''lite'', ''full'', ''auto''}"
    "JStr (od_profile s) \<in> JStr ` {''conservative'', ''balanced'', ''aggressive'', ''auto''}" by blast+
  show "optimization_schema (JObj (saved_members s)) = Some (JObj (saved_members s))"
    unfolding optimization_schema_def z_object_def
    by (cases "od_rtk s"; cases "od_caveman s"; cases "od_headroom s")
       (use n ints e in \<open>simp_all add: saved_members_def saved_draft_def member_if_def z_default_def z_optional_def z_number_def z_enum_def\<close>)
  show "squoze_exclusive (JObj (saved_members s))"
    using assms by (auto simp: squoze_exclusive_def saved_members_def member_if_def editable_def exclusive_def)
qed

lemma optimization_json_get:
  "get_prop (optimization_json env v) ''rtk_compression'' = JBool (truthy (get_prop v ''rtk_compression''))"
  "get_prop (optimization_json env v) ''caveman'' = JBool (truthy (get_prop v ''caveman''))"
  "get_prop (optimization_json env v) ''headroom'' = JBool (truthy (get_prop v ''headroom''))"
  "get_prop (optimization_json env v) ''headroom_reserve'' = JNum (num_or (to_number (get_prop v ''headroom_reserve'')) (Fin 120000))"
  "get_prop (optimization_json env v) ''headroom_keep'' = JNum (num_or (to_number (get_prop v ''headroom_keep'')) (Fin 8))"
  "get_prop (optimization_json env v) ''rtk_mode'' = (if truthy (get_prop v ''rtk_mode'') then JStr (js_string env (get_prop v ''rtk_mode'')) else JUndef)"
  "get_prop (optimization_json env v) ''caveman_mode'' = (if truthy (get_prop v ''caveman_mode'') then JStr (js_string env (get_prop v ''caveman_mode'')) else JUndef)"
  "get_prop (optimization_json env v) ''headroom_profile'' = (if truthy (get_prop v ''headroom_profile'') then JStr (js_string env (get_prop v ''headroom_profile'')) else JUndef)"
  "get_prop (optimization_json env v) ''squoze'' = (if get_prop v ''squoze'' = JBool True then JBool True else JUndef)"
  by (simp_all add: optimization_json_def member_if_def)

lemma stored_optimization_get:
  "get_prop (stored_optimization v) ''rtk_compression'' = get_prop v ''rtk_compression''"
  "get_prop (stored_optimization v) ''caveman'' = get_prop v ''caveman''"
  "get_prop (stored_optimization v) ''headroom'' = get_prop v ''headroom''"
  "get_prop (stored_optimization v) ''headroom_reserve'' = get_prop v ''headroom_reserve''"
  "get_prop (stored_optimization v) ''headroom_keep'' = get_prop v ''headroom_keep''"
  "get_prop (stored_optimization v) ''rtk_mode'' = (if truthy (get_prop v ''rtk_mode'') then get_prop v ''rtk_mode'' else JUndef)"
  "get_prop (stored_optimization v) ''caveman_mode'' = (if truthy (get_prop v ''caveman_mode'') then get_prop v ''caveman_mode'' else JUndef)"
  "get_prop (stored_optimization v) ''headroom_profile'' = (if truthy (get_prop v ''headroom_profile'') then get_prop v ''headroom_profile'' else JUndef)"
  "get_prop (stored_optimization v) ''squoze'' = (if get_prop v ''squoze'' = JBool True then JBool True else JUndef)"
  by (simp_all add: stored_optimization_def member_if_def)

lemma saved_members_get:
  "lookup_or_undef (saved_members s) ''rtk_compression'' = JBool (od_rtk s)" "lookup_or_undef (saved_members s) ''caveman'' = JBool (od_caveman s)"
  "lookup_or_undef (saved_members s) ''headroom'' = JBool (od_headroom s)" "lookup_or_undef (saved_members s) ''headroom_reserve'' = JNum (od_reserve (saved_draft s))"
  "lookup_or_undef (saved_members s) ''headroom_keep'' = JNum (od_keep (saved_draft s))"
  "lookup_or_undef (saved_members s) ''rtk_mode'' = (if od_rtk s then JStr (od_rtk_mode s) else JUndef)"
  "lookup_or_undef (saved_members s) ''caveman_mode'' = (if od_caveman s then JStr (od_caveman_mode s) else JUndef)"
  "lookup_or_undef (saved_members s) ''headroom_profile'' = (if od_headroom s then JStr (od_profile s) else JUndef)"
  "lookup_or_undef (saved_members s) ''squoze'' = JBool (od_squoze s)"
  by (simp_all add: saved_members_def member_if_def)

lemma saved_shown:
  assumes "editable show_num s"
  shows "draft_of (optimization_json env (stored_optimization (JObj (saved_members s)))) = saved_draft s"
proof -
  obtain r k where n: "od_reserve s = Fin r" "0 < r" "od_keep s = Fin k" "0 < k" using editable_facts(4,5) [OF assms] by blast
  have nums: "num_or (od_reserve (saved_draft s)) (Fin 120000) = od_reserve (saved_draft s)" "num_or (od_keep (saved_draft s)) (Fin 8) = od_keep (saved_draft s)"
    using n by (simp_all add: saved_draft_def num_or_def)
  show ?thesis
    unfolding draft_of_def optimization_json_get
    by (simp add: stored_optimization_get saved_members_get nums editable_facts(1-3) [OF assms] mode_or_auto_def js_string_def)
       (simp add: saved_draft_def)
qed

text \<open>The other controls of the dialog.\<close>

definition routing_controls_ok :: "form \<Rightarrow> bool" where
  "routing_controls_ok f \<longleftrightarrow>
     map_of f ''strategy'' \<in> Some ` set [''balanced'', ''priority'', ''weighted'', ''p2c'', ''least_used'', ''lkgp'', ''reset_aware'', ''fastest'', ''cheapest'', ''quota_drain'', ''adaptive'']
     \<and> (\<forall>k\<in>set [''sticky_ttl'', ''cooldown'', ''circuit_reset'', ''lockout_duration'']. map_of f k \<noteq> None)
     \<and> (\<forall>k\<in>set [''max_attempts'', ''circuit_failures'', ''lockout_failures'']. \<exists>t n. map_of f k = Some t \<and> t \<noteq> [] \<and> js_number t = Fin n \<and> is_integer (Fin n) \<and> 0 < n)
     \<and> map_of f ''headroom_reserve'' = None \<and> map_of f ''headroom_keep'' = None"

lemma controls_apart:
  "k \<notin> set optimization_keys \<Longrightarrow> map_of (optimization_controls show_num s @ rest) k = map_of rest k"
proof -
  assume k: "k \<notin> set optimization_keys"
  have "fst ` set (optimization_controls show_num s) \<subseteq> set optimization_keys"
    by (cases "od_rtk s"; cases "od_caveman s"; cases "od_headroom s") (simp_all add: optimization_keys_def optimization_controls_def)
  with k have "map_of (optimization_controls show_num s) k = None" by (auto simp: map_of_eq_None_iff)
  then show ?thesis by (simp add: map_add_def split: option.split)
qed

lemma dialog_optimization:
  assumes "editable show_num s" and "map_of rest ''headroom_reserve'' = None" and "map_of rest ''headroom_keep'' = None"
  shows "z_refine squoze_exclusive (z_default default_optimization optimization_schema) (wire (submitted_optimization (optimization_controls show_num s @ rest)))
     = Some (JObj (saved_members s))"
proof -
  let ?o = "wire (submitted_optimization (optimization_controls show_num s @ rest))"
  have rec: "is_record ?o" by (simp add: submitted_optimization_def)
  have "optimization_schema ?o = optimization_schema (JObj (saved_members s))" unfolding optimization_schema_def
    by (rule z_object_cong) (use rec submitted_members [OF assms] in \<open>auto simp: optimization_keys_def\<close>)
  then have "optimization_schema ?o = Some (JObj (saved_members s))" using saved_members_parse(1) [OF assms(1)] by simp
  moreover have "?o \<noteq> JUndef" using rec by auto
  ultimately show ?thesis using saved_members_parse(2) [OF assms(1)] by (simp add: z_refine_def z_default_def)
qed

lemma dialog_accepted:
  assumes "editable show_num s" and "routing_controls_ok rest" and "cl_body (submitRouting (optimization_controls show_num s @ rest)) = Some body"
  shows "\<exists>w. RoutingSchema body = Some w \<and> get_prop w ''optimization'' = JObj (saved_members s)"
proof -
  let ?f = "optimization_controls show_num s @ rest" and ?o = "z_refine squoze_exclusive (z_default default_optimization optimization_schema)"
  let ?texts = "[''sticky_ttl'', ''cooldown'', ''circuit_reset'', ''lockout_duration'']" and ?nums = "[''max_attempts'', ''circuit_failures'', ''lockout_failures'']"
  have ok: "\<forall>k\<in>set ?texts. map_of rest k \<noteq> None"
    "\<forall>k\<in>set ?nums. \<exists>t n. map_of rest k = Some t \<and> t \<noteq> [] \<and> js_number t = Fin n \<and> is_integer (Fin n) \<and> 0 < n"
    using assms(2) unfolding routing_controls_ok_def by blast+
  have disjoint: "set (''strategy'' # ?texts @ ?nums) \<inter> set optimization_keys = {}" by (simp add: optimization_keys_def)
  have apart: "map_of ?f k = map_of rest k" if "k \<in> set (''strategy'' # ?texts @ ?nums)" for k
    using disjoint that by (intro controls_apart) blast
  have words: "\<exists>t. form_get ?f k = JStr t" if "k \<in> set ?texts" for k
  proof -
    have "map_of ?f k = map_of rest k" using that by (intro apart) auto
    then show ?thesis using bspec [OF ok(1) that] by (auto simp: form_get_def)
  qed
  have strat: "form_get ?f ''strategy'' \<in> JStr ` set [''balanced'', ''priority'', ''weighted'', ''p2c'', ''least_used'', ''lkgp'', ''reset_aware'', ''fastest'', ''cheapest'', ''quota_drain'', ''adaptive'']"
  proof -
    have "map_of ?f ''strategy'' = map_of rest ''strategy''" by (rule apart) simp
    then show ?thesis using assms(2) unfolding routing_controls_ok_def form_get_def by (elim conjE imageE) (simp only: option.case imageI)
  qed
  have nums: "\<exists>n. wire (number_or ?f k d) = num n \<and> is_integer (Fin n) \<and> 0 < n" if "k \<in> set ?nums" for k d
  proof -
    have "map_of ?f k = map_of rest k" using that by (intro apart) auto
    then show ?thesis using bspec [OF ok(2) that] by (auto simp: number_or_def form_text_def is_finite_def)
  qed
  have opt: "?o (wire (submitted_optimization ?f)) = Some (JObj (saved_members s))"
    by (rule dialog_optimization [OF assms(1)]) (use assms(2) in \<open>simp_all only: routing_controls_ok_def\<close>)
  obtain st t0 t1 t2 t3 where t: "form_get ?f ''strategy'' = JStr st" "form_get ?f ''sticky_ttl'' = JStr t0" "form_get ?f ''cooldown'' = JStr t1"
    "form_get ?f ''circuit_reset'' = JStr t2" "form_get ?f ''lockout_duration'' = JStr t3"
    using strat words [of "''sticky_ttl''"] words [of "''cooldown''"] words [of "''circuit_reset''"] words [of "''lockout_duration''"] by force
  obtain n0 n1 n2 where n: "wire (number_or ?f ''max_attempts'' 2) = num n0" "is_integer (Fin n0)" "0 < n0"
    "wire (number_or ?f ''circuit_failures'' 3) = num n1" "is_integer (Fin n1)" "0 < n1" "wire (number_or ?f ''lockout_failures'' 10) = num n2" "is_integer (Fin n2)" "0 < n2"
    using nums [of "''max_attempts''" 2] nums [of "''circuit_failures''" 3] nums [of "''lockout_failures''" 10] by auto
  let ?r = "JObj [(''cooldown'', JStr t1), (''circuit_failures'', num n1), (''circuit_reset'', JStr t2), (''lockout_failures'', num n2), (''lockout_duration'', JStr t3)]"
  have b: "body = JObj [(''strategy'', JStr st), (''sticky_ttl'', JStr t0), (''max_attempts'', num n0), (''resilience'', ?r), (''optimization'', wire (submitted_optimization ?f))]"
    using assms(3) unfolding submitRouting_def body_call_def t by (auto simp: n submitted_defined)
  have "resilience_schema ?r \<noteq> None" using n by (simp add: resilience_schema_def z_object_def z_default_def z_number_def)
  then have "\<exists>w. RoutingSchema body = Some w" unfolding RoutingSchema_def
    using strat opt n by (intro z_object_accepts) (simp_all add: b t(1) z_default_def z_enum_def z_number_def)
  then obtain w where w: "RoutingSchema body = Some w" by blast
  have "?o (get_prop body ''optimization'') = Some (get_prop w ''optimization'')"
    by (rule z_object_get [OF w [unfolded RoutingSchema_def]]) simp_all
  then have "Some (get_prop w ''optimization'') = Some (JObj (saved_members s))" using opt by (simp add: b)
  with w show ?thesis by simp
qed



definition demo_draft :: optimization_draft where
  "demo_draft = \<lparr>od_rtk = True, od_caveman = False, od_headroom = False, od_squoze = False, od_rtk_mode = ''light'', od_caveman_mode = ''full'',
     od_profile = ''auto'', od_reserve = Fin 9000, od_keep = Fin 4\<rparr>"

definition demo_controls :: form where
  "demo_controls = [(''strategy'', ''balanced''), (''sticky_ttl'', ''1h''), (''max_attempts'', ''2''), (''cooldown'', ''30s''), (''circuit_failures'', ''3''),
     (''circuit_reset'', ''1m''), (''lockout_failures'', ''9''), (''lockout_duration'', ''15m'')]"

definition demo_show :: "jsnum \<Rightarrow> string" where
  "demo_show n = (if n = Fin 9000 then ''9000'' else ''4'')"

lemma demo_counts: "js_number ''9000'' = Fin 9000" "js_number ''4'' = Fin 4" "js_number ''2'' = Fin 2" "js_number ''3'' = Fin 3" "js_number ''9'' = Fin 9"
  by (simp_all add: js_number_digits dec_val_def digit_val_def char_class_defs)



text \<open>Settings that the control plane has accepted never combine the exclusive mode with another switch, and no sequence of changes in the
  dialog or on the card produces that combination.\<close>

theorem optimization_stays_exclusive:
  assumes "RoutingSchema v = Some w"
  shows "exclusive (fold patched_draft ps (draft_of (optimization_json env (stored_optimization (get_prop w ''optimization'')))))"
proof -
  let ?o = "get_prop w ''optimization''"
  have "z_refine squoze_exclusive (z_default default_optimization optimization_schema) (get_prop v ''optimization'') = Some ?o"
    by (rule z_object_get [OF assms [unfolded RoutingSchema_def]]) simp_all
  then have "squoze_exclusive ?o" by (auto simp: z_refine_def split: option.splits if_splits)
  then have "exclusive (draft_of (optimization_json env (stored_optimization ?o)))"
    by (auto simp: exclusive_def draft_of_def optimization_json_get stored_optimization_get squoze_exclusive_def)
  then show ?thesis by (induction ps rule: rev_induct) (simp_all add: patched_exclusive)
qed

theorem optimization_stays_exclusive_witness:
  "exclusive (fold patched_draft [no_patch\<lparr>op_squoze := Some True\<rparr>, no_patch\<lparr>op_caveman := Some True\<rparr>]
     (draft_of (optimization_json demo_oidc (stored_optimization default_optimization))))"
proof -
  have "resilience_schema (get_prop default_routing ''resilience'') \<noteq> None" by (simp add: resilience_schema_def default_routing_def z_object_def z_default_def z_number_def is_integer_def)
  moreover have "squoze_exclusive default_optimization" by (simp add: squoze_exclusive_def default_optimization_def)
  ultimately obtain w where w: "RoutingSchema (JObj []) = Some w" "get_prop w ''optimization'' = default_optimization"
    by (simp add: RoutingSchema_def z_object_def z_default_def z_refine_def default_optimization_def default_routing_def)
  show ?thesis using optimization_stays_exclusive [OF w(1)] unfolding w(2) by blast
qed

section \<open>What the model form can compose\<close>

lemma wire_get:
  assumes "distinct (map fst ps)"
  shows "get_prop (wire (JObj ps)) k = (if lookup_or_undef ps k = JUndef then JUndef else wire (lookup_or_undef ps k))"
  using assms
proof (induction ps)
  case (Cons p ps)
  have "k' \<notin> fst ` set ps \<Longrightarrow> lookup_or_undef (map (\<lambda>p. (fst p, wire (snd p))) (filter (\<lambda>p. snd p \<noteq> JUndef) ps)) k' = JUndef" for k'
    by (rule lookup_absent) force
  with Cons show ?case by (cases p) auto
qed simp

definition cache_consistent :: "jv \<Rightarrow> bool" where
  "cache_consistent v \<longleftrightarrow> (\<forall>t. get_prop v ''cache_similar_threshold'' = num t \<longrightarrow> 0 < t \<and> t \<le> 1 \<and> get_prop v ''cache'' = JStr ''similar'')
     \<and> (get_prop v ''cache_similar_threshold'' = JNull \<or> (\<exists>t. get_prop v ''cache_similar_threshold'' = num t))"

lemma cache_members_parse:
  assumes "z_object shape b = Some v" and "distinct (map fst shape)"
    and "(''cache'', z_optional (z_enum ['''', ''off'', ''exact'', ''similar''])) \<in> set shape" and "(''cache_similar_threshold'', similarThreshold) \<in> set shape"
    and "get_prop b ''cache'' = JStr mode"
    and "get_prop b ''cache_similar_threshold'' = wire (if mode = ''similar'' \<and> raw \<noteq> [] then JNum n else JNull)"
  shows "cache_consistent v"
proof -
  have "get_prop v ''cache'' = JStr mode" "similarThreshold (get_prop b ''cache_similar_threshold'') = Some (get_prop v ''cache_similar_threshold'')"
    using z_object_get [OF assms(1,2,3)] z_object_get [OF assms(1,2,4)] assms(5) by (auto simp: z_optional_def z_enum_def split: if_splits)
  then have "get_prop v ''cache_similar_threshold'' = JNull \<or> (\<exists>t. get_prop v ''cache_similar_threshold'' = num t \<and> 0 < t \<and> t \<le> 1 \<and> mode = ''similar'')"
    unfolding assms(6) by (auto simp: similarThreshold_def z_optional_def z_nullable_def z_number_def eq_commute [of "num _"] split: if_splits jsnum.splits)
  with \<open>get_prop v ''cache'' = JStr mode\<close> show ?thesis by (auto simp: cache_consistent_def)
qed

lemma cache_form_get:
  assumes "distinct (map fst (xs @ cacheFormValues f @ ys))"
  shows "get_prop (wire (JObj (xs @ cacheFormValues f @ ys))) ''cache'' = JStr (form_text f ''cache'')"
    "\<exists>(raw :: string) n. get_prop (wire (JObj (xs @ cacheFormValues f @ ys))) ''cache_similar_threshold''
        = wire (if form_text f ''cache'' = ''similar'' \<and> raw \<noteq> [] then JNum n else JNull)"
proof -
  have look: "lookup_or_undef (xs @ cacheFormValues f @ ys) k = lookup_or_undef (cacheFormValues f) k" if "k \<in> fst ` set (cacheFormValues f)" for k
  proof -
    have "map_of xs k = None" "map_of ys k = None" using assms that by (auto simp: map_of_eq_None_iff)
    then show ?thesis by (simp add: lookup_or_undef_def map_add_def split: option.split)
  qed
  let ?raw = "js_trim (form_text f ''cache_similar_threshold'')"
  have l: "lookup_or_undef (xs @ cacheFormValues f @ ys) ''cache'' = JStr (form_text f ''cache'')"
    "lookup_or_undef (xs @ cacheFormValues f @ ys) ''cache_similar_threshold'' = (if form_text f ''cache'' = ''similar'' \<and> ?raw \<noteq> [] then JNum (js_number ?raw) else JNull)"
    using look [of "''cache''"] look [of "''cache_similar_threshold''"] by (simp_all add: cacheFormValues_def [of f] Let_def)
  show "get_prop (wire (JObj (xs @ cacheFormValues f @ ys))) ''cache'' = JStr (form_text f ''cache'')"
    unfolding wire_get [OF assms] l by simp
  have "get_prop (wire (JObj (xs @ cacheFormValues f @ ys))) ''cache_similar_threshold''
        = wire (if form_text f ''cache'' = ''similar'' \<and> ?raw \<noteq> [] then JNum (js_number ?raw) else JNull)"
    unfolding wire_get [OF assms] l by simp
  then show "\<exists>(raw :: string) n. get_prop (wire (JObj (xs @ cacheFormValues f @ ys))) ''cache_similar_threshold''
        = wire (if form_text f ''cache'' = ''similar'' \<and> raw \<noteq> [] then JNum n else JNull)" by blast
qed


text \<open>Whatever an operator types into the form of a model, new or edited, a threshold that the control plane accepts from it lies in the range and comes
  with the mode it needs, and the form always states it, so that the snapshot compiler has nothing to refuse about it.\<close>

theorem model_form_cache_consistent:
  "(\<forall>v. ModelSchema env (the (cl_body (submitModel f))) = Some v \<longrightarrow> cache_consistent v)
   \<and> (\<forall>v. ModelPatchSchema env (the (cl_body (submitEditing ModelKind i pooled f))) = Some v \<longrightarrow> cache_consistent v)"
proof (intro conjI allI impI)
  fix v
  let ?xs = "[(''alias'', form_get f ''alias''), (''upstream_model'', form_get f ''upstream_model''), (''enabled'', JBool True), (''accounts'', form_all f ''accounts''),
       (''fallbacks'', form_all f ''fallbacks''), (''input_per_mtok'', number_or f ''input_per_mtok'' 0), (''output_per_mtok'', number_or f ''output_per_mtok'' 0)]"
  let ?b = "wire (JObj (?xs @ cacheFormValues f @ []))"
  have b: "the (cl_body (submitModel f)) = ?b" by (simp add: submitModel_def body_call_def)
  have d: "distinct (map fst (?xs @ cacheFormValues f @ []))" by (simp add: cacheFormValues_def Let_def)
  obtain raw :: string and n where t: "get_prop ?b ''cache_similar_threshold'' = wire (if form_text f ''cache'' = ''similar'' \<and> raw \<noteq> [] then JNum n else JNull)"
    using cache_form_get(2) [OF d] by blast
  assume "ModelSchema env (the (cl_body (submitModel f))) = Some v"
  then have "ProviderModelSchema env ?b = Some v \<or> ManualModelSchema env ?b = Some v" by (auto simp: b ModelSchema_def z_union_def split: option.splits)
  then show "cache_consistent v"
    unfolding ProviderModelSchema_def ManualModelSchema_def
    by (elim disjE; elim cache_members_parse [OF _ _ _ _ cache_form_get(1) [OF d] t]) (simp_all add: model_base_def)
next
  fix v
  let ?xs = "[(''alias'', form_get f ''alias''), (''upstream_model'', form_get f ''upstream_model''), (''fallbacks'', form_all f ''fallbacks''),
       (''input_per_mtok'', number_or f ''input_per_mtok'' 0), (''output_per_mtok'', number_or f ''output_per_mtok'' 0)]"
  let ?ys = "if pooled then [] else [(''accounts'', form_all f ''accounts'')]"
  let ?b = "wire (JObj (?xs @ cacheFormValues f @ ?ys))"
  have b: "the (cl_body (submitEditing ModelKind i pooled f)) = ?b" by (simp add: submitEditing_def body_call_def edited_members_def)
  have d: "distinct (map fst (?xs @ cacheFormValues f @ ?ys))" by (simp add: cacheFormValues_def Let_def)
  obtain raw :: string and n where t: "get_prop ?b ''cache_similar_threshold'' = wire (if form_text f ''cache'' = ''similar'' \<and> raw \<noteq> [] then JNum n else JNull)"
    using cache_form_get(2) [OF d] by blast
  assume "ModelPatchSchema env (the (cl_body (submitEditing ModelKind i pooled f))) = Some v"
  then show "cache_consistent v"
    unfolding ModelPatchSchema_def b by (elim cache_members_parse [OF _ _ _ _ cache_form_get(1) [OF d] t]) simp_all
qed

theorem model_form_cache_consistent_witness:
  "cache_consistent (JObj [(''alias'', JStr ''m''), (''upstream_model'', JStr ''u''), (''fallbacks'', JArr []), (''input_per_mtok'', num 0), (''output_per_mtok'', num 0),
     (''cache'', JStr ''exact''), (''cache_ttl'', JStr ''5m''), (''cache_similar_threshold'', JNull)])"
proof -
  let ?f = "[(''alias'', ''m''), (''upstream_model'', ''u''), (''cache'', ''exact''), (''cache_ttl'', ''5m ''), (''cache_similar_threshold'', ''0.9'')]"
  let ?v = "JObj [(''alias'', JStr ''m''), (''upstream_model'', JStr ''u''), (''fallbacks'', JArr []), (''input_per_mtok'', num 0), (''output_per_mtok'', num 0),
     (''cache'', JStr ''exact''), (''cache_ttl'', JStr ''5m''), (''cache_similar_threshold'', JNull)]"
  have "js_trim ''5m '' = ''5m''" by code_simp
  then have "ModelPatchSchema demo_schema (the (cl_body (submitEditing ModelKind ''3'' True ?f))) = Some ?v"
    by (simp add: submitEditing_def body_call_def edited_members_def cacheFormValues_def form_get_def form_all_def number_or_def form_text_def is_finite_def
        ModelPatchSchema_def z_object_def z_optional_def z_number_def z_array_def z_enum_def similarThreshold_def z_nullable_def)
  then show ?thesis using model_form_cache_consistent [of demo_schema ?f "''3''" True] by blast
qed

section \<open>Batches\<close>

definition line_ok :: "string \<times> string \<Rightarrow> bool" where
  "line_ok e \<longleftrightarrow> fst e \<noteq> [] \<and> CHR '':'' \<notin> set (fst e) \<and> CHR 0x0A \<notin> set (fst e) \<union> set (snd e) \<and> js_trim (fst e) = fst e \<and> js_trim (snd e) = snd e
     \<and> snd e \<noteq> [] \<and> hd (fst e) \<noteq> CHR ''#''"

lemma named_line_pair:
  assumes "line_ok (n, x)"
  shows "named_line (n @ CHR '':'' # x) = (Some n, x)"
proof -
  have "index_of_char (CHR '':'') (n @ CHR '':'' # x) = Some (length n)" using assms by (simp add: index_of_char_append line_ok_def)
  then show ?thesis using assms by (simp add: named_line_def line_ok_def)
qed

lemma trim_ends:
  assumes "js_trim s = s" and "s \<noteq> []"
  shows "\<not> is_space (hd s)" "\<not> is_space (last s)"
proof -
  let ?t = "dropWhile is_space s"
  have r: "rev (dropWhile is_space (rev ?t)) = s" using assms(1) by (simp add: js_trim_def)
  have "length (dropWhile is_space (rev ?t)) \<le> length ?t" using length_dropWhile_le [of is_space "rev ?t"] by simp
  then have "length ?t = length s" using arg_cong [OF r, of length] length_dropWhile_le [of is_space s] by simp
  then have t: "?t = s" by (metis append_eq_conv_conj append_self_conv2 length_0_conv length_append takeWhile_dropWhile_id add_cancel_left_left)
  then show "\<not> is_space (hd s)" using assms(2) hd_dropWhile [of is_space s] by metis
  have "dropWhile is_space (rev s) = rev s" using r t by (metis rev_rev_ident)
  then show "\<not> is_space (last s)" using assms(2) hd_dropWhile [of is_space "rev s"] by (metis hd_rev rev_is_Nil_conv)
qed

lemma trim_noop_ends: "s \<noteq> [] \<Longrightarrow> \<not> is_space (hd s) \<Longrightarrow> \<not> is_space (last s) \<Longrightarrow> js_trim s = s"
  by (simp add: js_trim_def dropWhile_eq_self_iff [THEN iffD2] hd_rev)

lemma trim_pair:
  assumes "line_ok (n, x)"
  shows "js_trim (n @ CHR '':'' # x) = n @ CHR '':'' # x"
  using assms trim_ends [of n] trim_ends [of x] by (intro trim_noop_ends) (simp_all add: line_ok_def)

definition pasted :: "(string \<times> string) list \<Rightarrow> string" where
  "pasted es = js_join [CHR 0x0A] (map (\<lambda>(n, x). n @ CHR '':'' # x) es)"

lemma pasted_lines:
  assumes "list_all line_ok es" and "es \<noteq> []"
  shows "filter is_entry (form_lines [(k, pasted es)] k) = map (\<lambda>(n, x). n @ CHR '':'' # x) es"
proof -
  let ?ls = "map (\<lambda>(n, x). n @ CHR '':'' # x) es"
  have "js_split (CHR 0x0A) (pasted es) = ?ls" unfolding pasted_def
    by (rule js_split_join) (use assms in \<open>auto simp: list_all_iff line_ok_def\<close>)
  moreover have "map js_trim ?ls = ?ls" using assms(1) trim_pair by (auto simp: list_all_iff map_idI)
  moreover have "list_all is_entry ?ls" using assms(1) by (auto simp: list_all_iff is_entry_def line_ok_def)
  ultimately show ?thesis by (simp add: form_lines_def form_text_def list_all_iff)
qed

text \<open>A list of names and secrets, pasted one \<open>name:secret\<close> a line, reaches the batch import as exactly these pairs, whatever further colons the
  secrets hold; and in the Codex batch a token or a document is never cut at a colon.\<close>

theorem batch_lines_exact:
  assumes "list_all line_ok es" and "es \<noteq> []"
  shows "map named_line (filter is_entry (form_lines [(''entries'', pasted es)] ''entries'')) = map (\<lambda>(n, x). (Some n, x)) es
    \<and> (\<forall>l. starts_with l ''{'' \<or> starts_with l ''eyJ'' \<longrightarrow> codex_line l = (None, l))"
  unfolding pasted_lines [OF assms] using assms(1) by (auto simp: list_all_iff named_line_pair codex_line_def)

theorem batch_lines_exact_witness:
  "map named_line (filter is_entry (form_lines [(''entries'', pasted [(''a'', ''k:1''), (''b c'', ''2'')])] ''entries'')) = [(Some ''a'', ''k:1''), (Some ''b c'', ''2'')]"
proof -
  have "js_trim ''a'' = ''a''" "js_trim ''b c'' = ''b c''" "js_trim ''k:1'' = ''k:1''" "js_trim ''2'' = ''2''" by code_simp+
  then have "list_all line_ok [(''a'', ''k:1''), (''b c'', ''2'')]" by (simp add: line_ok_def)
  then show ?thesis using batch_lines_exact [of "[(''a'', ''k:1''), (''b c'', ''2'')]"] by simp
qed

end
