(* ===== verification/Dashboard_Panels.thy ===== *)
theory Dashboard_Panels
  imports Dashboard_Forms Login_Flows
begin

text \<open>
  The parts of the dashboard that keep a state of their own while the server's state moves: the quota panel of a Codex account
  (\<open>codex-quota-panel.tsx\<close>), the messages by which a login window reports to the dialogs (\<open>dashboard-client.tsx\<close>,
  \<open>codex-account-modal.tsx\<close>, \<open>claude-account-modal.tsx\<close>), the device dialog with its polling, and the import of chosen models
  (\<open>model-discovery-modal.tsx\<close>).  The panel asks through a function from calls to actions on the server; the theorems take
  \<open>control_v1\<close> for it.
\<close>

section \<open>The quota panel\<close>

record panel =
  qp_answer :: "api_answer option"
  qp_busy :: bool
  qp_failed :: bool
  qp_confirm :: bool
  qp_operation :: "op_row option"
  qp_key :: string
  qp_note :: string

text \<open>\<open>loaded.reset_operation ?? null\<close>: only the quota view carries the member, the stored row that a refresh answers has none.\<close>

fun reset_operation_of :: "api_answer \<Rightarrow> op_row option" where
  "reset_operation_of (QuotaView q) = qv_operation q"
| "reset_operation_of _ = None"

fun state_row_of :: "api_answer \<Rightarrow> pstate_row option" where
  "state_row_of (QuotaView q) = Some (qv_state q)"
| "state_row_of (QuotaState p) = Some p"
| "state_row_of _ = None"

text \<open>\<open>new Date(raw).getTime()\<close> is a parameter; the column is a date already.\<close>

definition quotaFetchedAt :: "(jv \<Rightarrow> ms option) \<Rightarrow> pstate_row \<Rightarrow> ms option" where
  "quotaFetchedAt new_Date p =
     (let raw = get_prop (ps_quota p) ''fetched_at''
      in if nullish raw then ps_fetched p else if truthy raw then new_Date raw else None)"

definition quotaNeedsUpstreamRefresh :: "(jv \<Rightarrow> ms option) \<Rightarrow> ms \<Rightarrow> pstate_row \<Rightarrow> bool" where
  "quotaNeedsUpstreamRefresh new_Date now p =
     (if ps_capability p \<in> {''unsupported'', ''contract_changed'', ''error''} then False
      else case quotaFetchedAt new_Date p of
          None \<Rightarrow> ps_capability p = ''unknown''
        | Some t \<Rightarrow> 5 * 60000 < now - t)"

definition needs_refresh :: "(jv \<Rightarrow> ms option) \<Rightarrow> ms \<Rightarrow> api_answer \<Rightarrow> bool" where
  "needs_refresh new_Date now ans = (case state_row_of ans of None \<Rightarrow> False | Some p \<Rightarrow> quotaNeedsUpstreamRefresh new_Date now p)"

definition loaded :: "api_answer \<Rightarrow> panel \<Rightarrow> panel" where
  "loaded ans p = p\<lparr>qp_answer := Some ans, qp_operation := reset_operation_of ans\<rparr>"

type_synonym 's ask = "client_call \<Rightarrow> ('s, api_answer) act"

definition panel_load :: "(jv \<Rightarrow> ms option) \<Rightarrow> ms \<Rightarrow> string \<Rightarrow> bool \<Rightarrow> 's ask \<Rightarrow> panel \<times> 's \<Rightarrow> panel \<times> 's" where
  "panel_load new_Date now a refresh ask = (\<lambda>(p, s).
     case ask (if refresh then refreshCodexQuota_call a else getCodexQuota_call a) s of
       (Inl _, s1) \<Rightarrow> (p\<lparr>qp_failed := True, qp_busy := False\<rparr>, s1)
     | (Inr ans, s1) \<Rightarrow>
         (let p1 = (loaded ans p)\<lparr>qp_failed := False, qp_busy := False\<rparr>
          in if \<not> refresh \<and> needs_refresh new_Date now ans
             then (case ask (refreshCodexQuota_call a) s1 of (Inl _, s2) \<Rightarrow> (p1, s2) | (Inr fresh, s2) \<Rightarrow> (loaded fresh p1, s2))
             else (p1, s1)))"

text \<open>\<open>beginReset\<close> takes a fresh key, which \<open>performReset\<close> sends.\<close>

definition beginReset :: "string \<Rightarrow> panel \<Rightarrow> panel" where
  "beginReset uuid_text p = p\<lparr>qp_key := uuid_text, qp_confirm := True\<rparr>"

definition after_operation :: "(jv \<Rightarrow> ms option) \<Rightarrow> ms \<Rightarrow> string \<Rightarrow> (op_row \<Rightarrow> bool) \<Rightarrow> 's ask \<Rightarrow> (error + api_answer) \<times> 's \<Rightarrow> panel \<Rightarrow> panel \<times> 's" where
  "after_operation new_Date now a reload ask = (\<lambda>(r, s) p.
     case r of
       Inl _ \<Rightarrow> (p\<lparr>qp_failed := True, qp_busy := False\<rparr>, s)
     | Inr (ResetOperation oper) \<Rightarrow>
         (let p1 = p\<lparr>qp_operation := Some oper, qp_busy := False\<rparr>
          in if reload oper then panel_load new_Date now a True ask (p1, s) else (p1, s))
     | Inr _ \<Rightarrow> (p\<lparr>qp_busy := False\<rparr>, s))"

definition performReset :: "(jv \<Rightarrow> ms option) \<Rightarrow> ms \<Rightarrow> string \<Rightarrow> 's ask \<Rightarrow> panel \<times> 's \<Rightarrow> panel \<times> 's" where
  "performReset new_Date now a ask = (\<lambda>(p, s).
     after_operation new_Date now a (\<lambda>r. op_status r = Succeeded) ask (ask (resetCodexQuota_call a (qp_key p)) s) (p\<lparr>qp_confirm := False, qp_failed := False\<rparr>))"

definition reconcile :: "(jv \<Rightarrow> ms option) \<Rightarrow> ms \<Rightarrow> string \<Rightarrow> 's ask \<Rightarrow> panel \<times> 's \<Rightarrow> panel \<times> 's" where
  "reconcile new_Date now a ask = (\<lambda>(p, s).
     case qp_operation p of
       None \<Rightarrow> (p, s)
     | Some oper \<Rightarrow> after_operation new_Date now a (\<lambda>r. op_status r \<noteq> Unknown) ask (ask (reconcileCodexQuotaReset_call a (show_nat (op_id oper))) s) p)"

definition resolve_reset :: "(jv \<Rightarrow> ms option) \<Rightarrow> ms \<Rightarrow> string \<Rightarrow> string \<Rightarrow> 's ask \<Rightarrow> panel \<times> 's \<Rightarrow> panel \<times> 's" where
  "resolve_reset new_Date now a resolution ask = (\<lambda>(p, s).
     case qp_operation p of
       None \<Rightarrow> (p, s)
     | Some oper \<Rightarrow>
         (case ask (resolveCodexQuotaReset_call a (show_nat (op_id oper)) resolution (qp_note p)) s of
            (Inl _, s1) \<Rightarrow> (p\<lparr>qp_failed := True, qp_busy := False\<rparr>, s1)
          | (Inr _, s1) \<Rightarrow> panel_load new_Date now a True ask (p\<lparr>qp_note := []\<rparr>, s1)))"

text \<open>The button is shown when there are credits and no operation; \<open>available_count ?? 0\<close> above zero.\<close>

definition credit_count :: "panel \<Rightarrow> jsnum" where
  "credit_count p =
     (case qp_answer p of None \<Rightarrow> Fin 0
      | Some ans \<Rightarrow> (case state_row_of ans of None \<Rightarrow> Fin 0 | Some row \<Rightarrow> to_number (coalesce (get_prop (ps_credits row) ''available_count'') (num 0))))"

definition offers_reset :: "panel \<Rightarrow> bool" where
  "offers_reset p \<longleftrightarrow> num_positive (credit_count p) \<and> qp_operation p = None"

section \<open>Messages of the login windows\<close>

datatype channel = CodexChannel | ClaudeChannel

text \<open>The effect that runs when the dashboard is opened by a login's redirect; the values are those of the query.\<close>

definition auth_return :: "(string \<times> string) list \<Rightarrow> (channel \<times> jv) option" where
  "auth_return params =
     (let claude = map_of params ''claude_status''; status = (case claude of None \<Rightarrow> map_of params ''codex_status'' | c \<Rightarrow> c)
      in case status of
           None \<Rightarrow> None
         | Some st \<Rightarrow>
             if st = [] then None
             else Some (if claude = None \<or> claude = Some [] then CodexChannel else ClaudeChannel,
               JObj [(''status'', JStr st), (''accountId'', case map_of params ''account_id'' of None \<Rightarrow> JUndef | Some i \<Rightarrow> JStr i)]))"

datatype dialog_reaction = FinishWith jv | BrowserError | NoReaction

definition codex_on_message :: "jv \<Rightarrow> dialog_reaction" where
  "codex_on_message msg =
     (if get_prop msg ''status'' = JStr ''connected'' \<and> truthy (get_prop msg ''accountId'') then FinishWith (get_prop msg ''accountId'')
      else if truthy (get_prop msg ''status'') \<and> get_prop msg ''status'' \<noteq> JStr ''connected'' then BrowserError
      else NoReaction)"

definition claude_on_message :: "jv \<Rightarrow> dialog_reaction" where
  "claude_on_message msg =
     (if get_prop msg ''status'' = JStr ''connected'' \<and> truthy (get_prop msg ''account_id'') then FinishWith (get_prop msg ''account_id'') else NoReaction)"

record routing_defaults =
  rd_display :: string
  rd_priority :: jsnum
  rd_concurrency :: jsnum

text \<open>\<open>finish\<close> of the Codex dialog: the change it sends for the connected account.\<close>

definition finish_call :: "routing_defaults \<Rightarrow> string \<Rightarrow> client_call" where
  "finish_call r a = patchAccount a
     ([(''priority'', JNum (rd_priority r)), (''max_concurrency'', JNum (rd_concurrency r))]
      @ member_if (js_trim (rd_display r) \<noteq> []) ''display_name'' (JStr (js_trim (rd_display r))))"

section \<open>The device dialog\<close>

text \<open>The effect of the dialog starts over when the routing fields change: \<open>dm_generation\<close> tells the runs of the effect apart, and an answer that
  arrives for an earlier run is dropped.  \<open>dm_flights\<close> are the polls whose answers are on their way.\<close>

record device_modal =
  dm_generation :: nat
  dm_timer :: bool
  dm_flights :: "(nat \<times> (error + device_status)) list"
  dm_shown :: "device_state option"
  dm_finished :: "uuid option"

datatype 'p device_event = SendPoll 'p | Deliver nat bool | EditRouting

definition shown_answer :: "error + device_status \<Rightarrow> bool \<Rightarrow> device_modal \<Rightarrow> device_modal" where
  "shown_answer r finish_ok m =
     (case r of
        Inl _ \<Rightarrow> m\<lparr>dm_shown := Some FlowFailed, dm_timer := True\<rparr>
      | Inr (StatusComplete a) \<Rightarrow>
          if finish_ok then m\<lparr>dm_shown := Some Complete, dm_finished := Some a\<rparr> else m\<lparr>dm_shown := Some FlowFailed, dm_timer := True\<rparr>
      | Inr (StatusOther st _) \<Rightarrow> m\<lparr>dm_shown := Some st, dm_timer := st \<notin> {FlowExpired, Denied}\<rparr>)"

fun device_step :: "('p \<Rightarrow> ('s, device_status) act) \<Rightarrow> 'p device_event \<Rightarrow> device_modal \<times> 's \<Rightarrow> device_modal \<times> 's" where
  "device_step poll (SendPoll x) (m, s) =
     (if dm_timer m then (case poll x s of (r, s1) \<Rightarrow> (m\<lparr>dm_timer := False, dm_flights := dm_flights m @ [(dm_generation m, r)]\<rparr>, s1)) else (m, s))"
| "device_step poll (Deliver i finish_ok) (m, s) =
     (if i < length (dm_flights m)
      then let (g, r) = dm_flights m ! i; m1 = m\<lparr>dm_flights := take i (dm_flights m) @ drop (Suc i) (dm_flights m)\<rparr>
           in (if g = dm_generation m then shown_answer r finish_ok m1 else m1, s)
      else (m, s))"
| "device_step poll EditRouting (m, s) = (m\<lparr>dm_generation := Suc (dm_generation m), dm_timer := True\<rparr>, s)"

definition device_run :: "('p \<Rightarrow> ('s, device_status) act) \<Rightarrow> 'p device_event list \<Rightarrow> device_modal \<times> 's \<Rightarrow> device_modal \<times> 's" where
  "device_run poll es ms = fold (device_step poll) es ms"

section \<open>Files and chosen models\<close>

text \<open>\<open>importFiles\<close>: files that are too large are skipped, the others are imported one after the other until one fails; the routing fields go to the
  last account imported.\<close>

fun import_files :: "(string \<Rightarrow> ('s, string) act) \<Rightarrow> (nat \<times> string) list \<Rightarrow> string \<Rightarrow> ('s, string) act" where
  "import_files imp [] lastId = return_act lastId"
| "import_files imp ((bytes, contents) # fs) lastId =
     (if MAX_AUTH_FILE_BYTES < bytes then import_files imp fs lastId
      else bind_act (imp contents) (\<lambda>i. import_files imp fs i))"

record chosen_model =
  cm_provider :: string
  cm_upstream :: string
  cm_alias :: "string option"
  cm_strategy :: "string option"

definition chosen_alias :: "chosen_model \<Rightarrow> string" where
  "chosen_alias m = (case cm_alias m of None \<Rightarrow> [] | Some al \<Rightarrow> js_trim al)"

datatype selection_result = NothingChosen | AliasInvalid string | AliasConflict string | Imports "client_call list"

fun check_chosen :: "string list \<Rightarrow> chosen_model list \<Rightarrow> selection_result option" where
  "check_chosen existing [] = None"
| "check_chosen existing (m # ms) =
     (if \<not> isValidPublicAlias (chosen_alias m) then Some (AliasInvalid (if chosen_alias m = [] then cm_upstream m else chosen_alias m))
      else if toLowerCase (chosen_alias m) \<in> toLowerCase ` set existing then Some (AliasConflict (chosen_alias m))
      else check_chosen existing ms)"

text \<open>\<open>importSelected\<close>: the calls are made in order, until one fails.\<close>

definition importSelected :: "string list \<Rightarrow> chosen_model list \<Rightarrow> selection_result" where
  "importSelected existing chosen =
     (if chosen = [] then NothingChosen
      else case check_chosen existing chosen of
          Some r \<Rightarrow> r
        | None \<Rightarrow> Imports (map (\<lambda>m. importDiscoveredModel (chosen_alias m) (cm_provider m) (cm_upstream m) (given (cm_strategy m) ''round_robin'')) chosen))"


section \<open>What the panel shows of a reset\<close>

definition digits :: "string \<Rightarrow> bool" where
  "digits a \<longleftrightarrow> a \<noteq> [] \<and> list_all is_digit a"

lemma digits_no_slash: "digits a \<Longrightarrow> CHR ''/'' \<notin> set a"
  by (auto simp: digits_def list_all_iff char_class_defs)

lemma quota_calls_served:
  assumes "digits a" and "\<And>c. sends c (req c)"
  shows "control_v1 env (req (refreshCodexQuota_call a)) = refresh_route env a (cq_now (ap_control (req (refreshCodexQuota_call a))))"
    "control_v1 env (req (getCodexQuota_call a)) = quota_route a (cq_now (ap_control (req (getCodexQuota_call a))))"
  using digits_no_slash [OF assms(1)] assms(2) [of "refreshCodexQuota_call a"] assms(2) [of "getCodexQuota_call a"]
  by (simp_all add: sends_defs refreshCodexQuota_call_def getCodexQuota_call_def control_v1_def specific_route_def only_def)

lemma refresh_keeps_active:
  assumes "refreshCodexQuota dispatch date acct now (d, u) = (r, (d', u'))"
  shows "latest_active acct d' = latest_active acct d"
  using preservesD [OF refresh_keeps_operations _ assms, of "operations d"] by (simp add: latest_active_def)

text \<open>C40: after a refresh of the quota the panel shows no reset, and offers to start one when there are credits, although one is still pending or
  unknown at the server: the answer to a refresh is the stored row, which has no operation in it.\<close>

theorem refresh_hides_active_reset:
  assumes "digits a" and "\<And>c. sends c (req c)"
    and "refreshCodexQuota (ae_dispatch env) (re_date (ae_read env)) (dec_val a) (cq_now (ap_control (req (refreshCodexQuota_call a)))) (d, u) = (Inr row, (d', u'))"
    and "latest_active (dec_val a) d = Some r" and "get_prop (ps_credits row) ''available_count'' = num n" and "0 < n"
  shows "\<exists>p'. panel_load new_Date now a True (\<lambda>c. control_v1 env (req c)) (p, (d, u)) = (p', (d', u'))
    \<and> latest_active (dec_val a) d' = Some r \<and> qp_operation p' = None \<and> offers_reset p'"
proof -
  have "refresh_route env a (cq_now (ap_control (req (refreshCodexQuota_call a)))) (d, u) = (Inr (QuotaState row), (d', u'))"
    using assms(1,3) by (simp add: refresh_route_def with_ids_def digits_def bind_act_Inr return_act_apply)
  then show ?thesis
    using refresh_keeps_active [OF assms(3)] assms(4-6)
    by (simp add: panel_load_def quota_calls_served [OF assms(1,2)] loaded_def offers_reset_def credit_count_def Let_def coalesce_def)
qed

text \<open>While the cached quota is fresh enough, loading the panel shows exactly the reset that is pending or unknown at the server, if there is one.\<close>

theorem poll_shows_active_reset:
  assumes "digits a" and "\<And>c. sends c (req c)"
    and "getCodexQuota (dec_val a) (cq_now (ap_control (req (getCodexQuota_call a)))) d = (Inr q, d')"
    and "\<not> quotaNeedsUpstreamRefresh new_Date now (qv_state q)"
  shows "\<exists>p'. panel_load new_Date now a False (\<lambda>c. control_v1 env (req c)) (p, (d, u)) = (p', (d', u)) \<and> qp_operation p' = latest_active (dec_val a) d'"
proof -
  have "quota_route a (cq_now (ap_control (req (getCodexQuota_call a)))) (d, u) = (Inr (QuotaView q), (d', u))"
    using assms(1,3) by (simp add: quota_route_def with_ids_def digits_def bind_act_def on_db_apply return_act_apply)
  moreover have "qv_operation q = latest_active (dec_val a) d'"
    using assms(3) unfolding getCodexQuota_def
    by (elim bind_act_InrE) (auto simp: gets_act_apply throw_apply Let_def split: option.splits elim!: then_act_InrE)
  ultimately show ?thesis
    using assms(4) by (simp add: panel_load_def quota_calls_served [OF assms(1,2)] loaded_def Let_def needs_refresh_def)
qed

definition demo_panel :: panel where
  "demo_panel = \<lparr>qp_answer = None, qp_busy = False, qp_failed = False, qp_confirm = False, qp_operation = None, qp_key = [], qp_note = []\<rparr>"

definition quota_demo :: "unit api_env" where
  "quota_demo = api_demo\<lparr>ae_dispatch := (\<lambda>_ _ _ _ s. (Inr \<lparr>r_data = JObj [(''available_count'', num 1)], r_warning = None\<rparr>, snd s))\<rparr>"

lemma demo_reset_active: "latest_active 2 (rdb codex_run_end) = Some codex_op"
  by (simp add: latest_active_def codex_eval)

lemma demo_two: "digits ''2''" "dec_val ''2'' = 2"
  by (simp_all add: digits_def char_class_defs dec_val_def digit_val_def)

theorem refresh_hides_active_reset_witness:
  "\<exists>p' s'. panel_load (\<lambda>_. None) 9 ''2'' True (\<lambda>c. control_v1 quota_demo (request_for c)) (demo_panel, (rdb codex_run_end, ())) = (p', s')
     \<and> latest_active 2 (fst s') = Some codex_op \<and> offers_reset p'"
proof -
  let ?d = "rdb codex_run_end" and ?row = "ok_row 2 (JObj [(''available_count'', num 1)]) (JObj [(''available_count'', num 1)]) 5"
  have acc: "find_account 2 ?d \<noteq> None" by (simp add: find_account_def codex_eval)
  have "\<exists>d'. refreshCodexQuota (ae_dispatch quota_demo) (re_date (ae_read quota_demo)) 2 5 (?d, ()) = (Inr ?row, (d', ()))"
    using acc by (auto simp: refreshCodexQuota_def quota_demo_def catch_act_def call_dispatch_apply bind_act_def lift_res_apply objectData_def
        on_db_apply txOn_def fetched_at_def upsert_pstate_def then_act_def gets_act_apply modify_act_apply audit_def return_act_apply split: option.splits)
  then obtain d' where run: "refreshCodexQuota (ae_dispatch quota_demo) (re_date (ae_read quota_demo)) 2 5 (?d, ()) = (Inr ?row, (d', ()))" by blast
  have "cq_now (ap_control (request_for c)) = 5" for c by (simp add: request_for_def rename_request_def)
  then have "refreshCodexQuota (ae_dispatch quota_demo) (re_date (ae_read quota_demo)) (dec_val ''2'')
      (cq_now (ap_control (request_for (refreshCodexQuota_call ''2'')))) (?d, ()) = (Inr ?row, (d', ()))" using run by (simp add: demo_two)
  from refresh_hides_active_reset [where req = request_for, OF demo_two(1) request_for_sends this, of codex_op 1] demo_reset_active
  show ?thesis by (fastforce simp: demo_two ok_row_def)
qed

theorem poll_shows_active_reset_witness:
  "\<exists>p' s'. panel_load (\<lambda>_. None) 9 ''2'' False (\<lambda>c. control_v1 quota_demo (request_for c)) (demo_panel, ((rdb codex_run_end)\<lparr>pstates := [ok_row 2 (JObj []) (JObj []) 5]\<rparr>, ())) = (p', s')
     \<and> qp_operation p' = Some codex_op"
proof -
  let ?d = "(rdb codex_run_end)\<lparr>pstates := [ok_row 2 (JObj []) (JObj []) 5]\<rparr>"
  have now: "cq_now (ap_control (request_for c)) = 5" for c by (simp add: request_for_def rename_request_def)
  have "map (expire_op 2 None 5) (operations ?d) = operations ?d" by (simp add: expire_op_def lease_ms_def codex_eval)
  moreover have "find_account 2 ?d = Some (sample_account 2 1 ''main'')" by (simp add: find_account_def codex_eval)
  moreover have "find (\<lambda>p. ps_account p = 2) (pstates ?d) = Some (ok_row 2 (JObj []) (JObj []) 5)" by (simp add: ok_row_def)
  ultimately have "\<exists>q. getCodexQuota 2 5 ?d = (Inr q, ?d) \<and> qv_state q = ok_row 2 (JObj []) (JObj []) 5"
    unfolding getCodexQuota_def expirePendingReset_def update_ops_def Let_def by (simp add: bind_gets then_modify gets_act_apply)
  then obtain q where q: "getCodexQuota (dec_val ''2'') (cq_now (ap_control (request_for (getCodexQuota_call ''2'')))) ?d = (Inr q, ?d)"
    "qv_state q = ok_row 2 (JObj []) (JObj []) 5" by (auto simp: now demo_two)
  have "\<not> quotaNeedsUpstreamRefresh (\<lambda>_. None) 9 (qv_state q)" by (simp add: q(2) quotaNeedsUpstreamRefresh_def quotaFetchedAt_def ok_row_def)
  from poll_shows_active_reset [where req = request_for and env = quota_demo, OF demo_two(1) request_for_sends q(1) this]
  show ?thesis using demo_reset_active by (fastforce simp: demo_two latest_active_def)
qed

section \<open>Who hears of a finished login\<close>

text \<open>A Codex login that comes back with an account ends the dialog for that account, but a Claude login never does, whatever the server put into
  the address: the dashboard posts the account under another name than the Claude dialog reads.\<close>

theorem login_messages_heard:
  "(\<forall>m. auth_return params = Some (ClaudeChannel, m) \<longrightarrow> claude_on_message m = NoReaction)
   \<and> (map_of params ''claude_status'' = None \<and> map_of params ''codex_status'' = Some ''connected'' \<and> map_of params ''account_id'' = Some a \<and> a \<noteq> [] \<longrightarrow>
        (\<exists>m. auth_return params = Some (CodexChannel, m) \<and> codex_on_message m = FinishWith (JStr a)))"
  by (auto simp: auth_return_def claude_on_message_def codex_on_message_def Let_def split: option.splits if_splits)

theorem login_messages_heard_witness:
  "claude_on_message (JObj [(''status'', JStr ''connected''), (''accountId'', JStr ''7'')]) = NoReaction
   \<and> auth_return [(''claude_status'', ''connected''), (''account_id'', ''7'')] = Some (ClaudeChannel, JObj [(''status'', JStr ''connected''), (''accountId'', JStr ''7'')])"
proof -
  have "auth_return [(''claude_status'', ''connected''), (''account_id'', ''7'')] = Some (ClaudeChannel, JObj [(''status'', JStr ''connected''), (''accountId'', JStr ''7'')])"
    by (simp add: auth_return_def)
  then show ?thesis using login_messages_heard [of "[(''claude_status'', ''connected''), (''account_id'', ''7'')]" "''7''"] by blast
qed

section \<open>What is imported\<close>

lemma selected_not_imports: "check_chosen existing ms = Some r \<Longrightarrow> r \<noteq> Imports calls"
  by (induction ms) (auto split: if_splits)

lemma check_chosen_None:
  "check_chosen existing ms = None \<longleftrightarrow> (\<forall>m\<in>set ms. isValidPublicAlias (chosen_alias m) \<and> toLowerCase (chosen_alias m) \<notin> toLowerCase ` set existing)"
  by (induction ms) auto

text \<open>Calls are made only for the chosen models, one for each and in their order, and only when the control plane accepts every alias and none is taken
  among the models shown; with the strategy left alone each call is valid.\<close>

theorem import_selected_sound:
  assumes "importSelected existing chosen = Imports calls"
  shows "length calls = length chosen
    \<and> (\<forall>m\<in>set chosen. validatePublicAlias (chosen_alias m) = Inr (chosen_alias m) \<and> toLowerCase (chosen_alias m) \<notin> toLowerCase ` set existing)
    \<and> (\<forall>m\<in>set chosen. cm_strategy m = None \<and> sv_uuid env (cm_provider m) \<and> cm_upstream m \<noteq> [] \<longrightarrow>
         (\<exists>c\<in>set calls. \<exists>v. SelectionSchema env (the (cl_body c)) = Some v \<and> get_prop v ''alias'' = JStr (chosen_alias m)))"
proof -
  have none: "check_chosen existing chosen = None"
    and calls: "calls = map (\<lambda>m. importDiscoveredModel (chosen_alias m) (cm_provider m) (cm_upstream m) (given (cm_strategy m) ''round_robin'')) chosen"
    using assms by (auto simp: importSelected_def check_chosen_None split: if_splits option.splits dest: selected_not_imports)
  have valid: "\<exists>v. SelectionSchema env (the (cl_body (importDiscoveredModel al p up ''round_robin''))) = Some v \<and> get_prop v ''alias'' = JStr al"
    if "sv_uuid env p" "up \<noteq> []" for al p up
    using that by (simp add: SelectionSchema_def importDiscoveredModel_def body_call_def z_object_def z_default_def z_enum_def z_uuid_def z_optional_def Suc_le_eq)
  have "\<exists>c\<in>set calls. \<exists>v. SelectionSchema env (the (cl_body c)) = Some v \<and> get_prop v ''alias'' = JStr (chosen_alias m)"
    if "m \<in> set chosen" "cm_strategy m = None" "sv_uuid env (cm_provider m)" "cm_upstream m \<noteq> []" for m
  proof (rule bexI)
    show "importDiscoveredModel (chosen_alias m) (cm_provider m) (cm_upstream m) ''round_robin'' \<in> set calls"
      using that(1,2) by (simp add: calls given_def image_iff) (rule bexI [of _ m], simp_all)
  qed (rule valid [OF that(3,4)])
  moreover have "length calls = length chosen" by (simp add: calls)
  ultimately show ?thesis using none by (simp only: check_chosen_None alias_check) blast
qed


theorem import_selected_sound_witness:
  "(\<forall>m\<in>set [\<lparr>cm_provider = ''1'', cm_upstream = ''u'', cm_alias = Some '' b '', cm_strategy = None\<rparr>]. validatePublicAlias (chosen_alias m) = Inr (chosen_alias m))
   \<and> importSelected [''a''] [\<lparr>cm_provider = ''1'', cm_upstream = ''u'', cm_alias = Some '' b '', cm_strategy = None\<rparr>]
     = Imports [importDiscoveredModel ''b'' ''1'' ''u'' ''round_robin'']"
proof -
  let ?m = "\<lparr>cm_provider = ''1'', cm_upstream = ''u'', cm_alias = Some '' b '', cm_strategy = None\<rparr>"
  have "js_trim '' b '' = ''b''" by code_simp
  then have "importSelected [''a''] [?m] = Imports [importDiscoveredModel ''b'' ''1'' ''u'' ''round_robin'']"
    by (simp add: importSelected_def chosen_alias_def isValidPublicAlias_def toLowerCase_def given_def char_class_defs)
  with import_selected_sound [OF this, of demo_schema] show ?thesis by blast
qed

section \<open>A completion that nobody hears\<close>

text \<open>What the dialog relies on at the server: one poll at most reports completion, and the flow has ended with it.\<close>

locale single_completion =
  fixes poll :: "'p \<Rightarrow> ('s, device_status) act" and ended :: "'s \<Rightarrow> bool"
  assumes complete_ends: "poll x s = (Inr (StatusComplete a), s') \<Longrightarrow> ended s'"
    and ended_answers: "ended s \<Longrightarrow> poll x s = (Inr (StatusOther FlowExpired JUndef), s)"
begin

definition unheard :: "device_modal \<times> 's \<Rightarrow> bool" where
  "unheard ms \<longleftrightarrow> ended (snd ms) \<and> dm_finished (fst ms) = None \<and> (\<forall>(g, r)\<in>set (dm_flights (fst ms)). \<forall>a. r = Inr (StatusComplete a) \<longrightarrow> g < dm_generation (fst ms))
     \<and> (\<forall>(g, r)\<in>set (dm_flights (fst ms)). g \<le> dm_generation (fst ms))"

lemma unheard_step:
  assumes "unheard ms"
  shows "unheard (device_step poll e ms)"
proof -
  obtain m s where ms: "ms = (m, s)" by (cases ms)
  show ?thesis
  proof (cases e)
    case (SendPoll x)
    have "poll x s = (Inr (StatusOther FlowExpired JUndef), s)" using assms ended_answers by (simp add: unheard_def ms)
    then show ?thesis using assms by (auto simp: unheard_def ms SendPoll)
  next
    case (Deliver i ok)
    show ?thesis
    proof (cases "i < length (dm_flights m)")
      case True
      obtain g r where f: "dm_flights m ! i = (g, r)" by fastforce
      then have gr: "(g, r) \<in> set (dm_flights m)" using True by (metis nth_mem)
      then have quiet: "r \<noteq> Inr (StatusComplete a)" if "g = dm_generation m" for a using assms that by (auto simp: unheard_def ms)
      let ?m1 = "m\<lparr>dm_flights := take i (dm_flights m) @ drop (Suc i) (dm_flights m)\<rparr>"
      have u1: "unheard (?m1, s)" using assms by (auto simp: unheard_def ms dest: in_set_takeD in_set_dropD)
      have "unheard (shown_answer r ok ?m1, s)" if "g = dm_generation m"
        using u1 quiet [OF that] by (auto simp: unheard_def shown_answer_def split: sum.splits device_status.splits)
      with u1 True f show ?thesis by (simp add: ms Deliver Let_def)
    next
      case False
      with assms show ?thesis by (simp add: ms Deliver)
    qed
  next
    case EditRouting
    with assms show ?thesis by (auto simp: unheard_def ms less_Suc_eq split: prod.splits dest: bspec)
  qed
qed

lemma lost_completion:
  assumes "poll x s = (Inr (StatusComplete a), s')" and "dm_timer m" and "dm_flights m = []" and "dm_finished m = None"
  shows "dm_finished (fst (device_run poll (SendPoll x # EditRouting # es) (m, s))) = None"
proof -
  let ?ms = "device_step poll EditRouting (device_step poll (SendPoll x) (m, s))"
  have "unheard ?ms" using assms complete_ends [OF assms(1)] by (simp add: unheard_def)
  then have "unheard (fold (device_step poll) es ?ms)" by (induction es rule: rev_induct) (simp_all add: unheard_step)
  then show ?thesis by (simp add: device_run_def unheard_def)
qed

end

lemma device_credential_ends:
  assumes "pollDeviceFlow env session t1 t2 s = (Inr a, s1)" and "da_credential a \<noteq> None"
  shows "fs_store s1 (deviceKey session) = None"
  using assms(1)
proof (cases rule: pollDeviceFlow_cases)
  case (failed doc e s2)
  then show ?thesis using assms(2) by (auto simp: retry_later_def put_back_apply return_act_apply plain_answer_def split: if_splits)
next
  case (refused doc e body s2)
  then show ?thesis using assms(2) refused_poll_ends [OF refused] by simp
next
  case (granted v e doc body s2)
  then show ?thesis using assms(2) granted_poll_ends [OF granted(4)] by simp
qed (use assms(2) in \<open>auto simp: plain_answer_def\<close>)

lemma createAccount_keeps_store: "createAccount env random inp s = (r, s') \<Longrightarrow> fs_store s' = fs_store s"
  by (auto simp: createAccount_def on_tables_def split_beta)

lemma device_status_ends:
  assumes "codexDeviceStatusCore env session random t1 t2 s = (Inr (StatusComplete a), s')"
  shows "fs_store s' (deviceKey session) = None"
proof -
  obtain ans s1 where p: "pollDeviceFlow env session t1 t2 s = (Inr ans, s1)"
    and rest: "(case da_credential ans of
       Some c \<Rightarrow> bind_act (createAccount env random (codex_input_of \<lparr>oo_name = None, oo_account = None\<rparr> ''device'' c)) (\<lambda>acc. return_act (StatusComplete (fst acc)))
     | None \<Rightarrow> return_act (StatusOther (da_state ans) (da_interval ans))) s1 = (Inr (StatusComplete a), s')"
    using assms unfolding codexDeviceStatusCore_def by (rule bind_act_InrE)
  then obtain c where c: "da_credential ans = Some c" by (cases "da_credential ans") (simp_all add: return_act_apply)
  have "fs_store s1 (deviceKey session) = None" using device_credential_ends [OF p] c by simp
  moreover have "fs_store s' = fs_store s1"
    using rest unfolding c option.case by (rule bind_act_InrE) (simp add: return_act_apply createAccount_keeps_store)
  ultimately show ?thesis by simp
qed

lemma device_status_missing:
  "fs_store s (deviceKey session) = None \<Longrightarrow> codexDeviceStatusCore env session random t1 t2 s = (Inr (StatusOther FlowExpired JUndef), s)"
  by (simp add: codexDeviceStatusCore_def bind_act_Inr [OF poll_missing] plain_answer_def return_act_apply)

interpretation device_dialog: single_completion "\<lambda>(random, t1, t2). codexDeviceStatusCore env session random t1 t2" "\<lambda>s. fs_store s (deviceKey session) = None" for env session
  by unfold_locales (auto simp: device_status_missing dest: device_status_ends)

text \<open>When the operator edits the routing fields while the poll that completes the login is on its way, the answer is dropped, and no later event makes the
  dialog finish: the account exists, the fields are not applied to it, and the dialog ends up reporting that the code has expired.\<close>

theorem device_completion_lost:
  assumes "codexDeviceStatusCore env session random t1 t2 s = (Inr (StatusComplete a), s')"
    and "dm_timer m" and "dm_flights m = []" and "dm_finished m = None"
  shows "dm_finished (fst (device_run (\<lambda>(random, t1, t2). codexDeviceStatusCore env session random t1 t2) (SendPoll (random, t1, t2) # EditRouting # es) (m, s))) = None"
  by (rule device_dialog.lost_completion [of env session _ _ a s']) (use assms in simp_all)

end
