(* ===== verification/Dashboard_Views.thy ===== *)
theory Dashboard_Views
  imports Dashboard_Client
begin
text \<open>
  The views of the dashboard that hold logic of their own: the search of \<open>components/command-palette.tsx\<close>, the grouping of accounts and
  the labels of \<open>dashboard-client.tsx\<close>, \<open>mcp-view.tsx\<close> with its calls about MCP servers, and the adjustment of balances in
  \<open>billing-view.tsx\<close>.  The calls are run against the handlers of the control route.
\<close>

section \<open>The command palette\<close>

text \<open>The texts of the rows the palette searches: alias and upstream model, display name and name, name and prefix, name.\<close>

record palette_data =
  pd_models :: "(string \<times> string) list"
  pd_accounts :: "(string \<times> string) list"
  pd_keys :: "(string \<times> string) list"
  pd_teams :: "string list"

record palette_entry =
  en_view :: page
  en_label :: string
  en_hint :: string

definition palette_hit :: "string \<Rightarrow> string \<times> string \<Rightarrow> bool" where
  "palette_hit q row \<longleftrightarrow> js_includes (toLowerCase (fst row @ '' '' @ snd row)) q"

definition pair_entry :: "page \<Rightarrow> string \<Rightarrow> string \<times> string \<Rightarrow> palette_entry" where
  "pair_entry v tail row = \<lparr>en_view = v, en_label = fst row, en_hint = snd row @ tail\<rparr>"

text \<open>Everything that matches; \<open>dots\<close> is the ellipsis after a key's prefix, \<open>budget\<close> the translated hint of a team.\<close>

definition palette_hits :: "string \<Rightarrow> string \<Rightarrow> palette_data \<Rightarrow> string \<Rightarrow> palette_entry list" where
  "palette_hits dots budget data q =
     map (pair_entry ModelsPage []) (filter (palette_hit q) (pd_models data))
     @ map (pair_entry AccountsPage []) (filter (palette_hit q) (pd_accounts data))
     @ map (pair_entry KeysPage dots) (filter (palette_hit q) (pd_keys data))
     @ map (\<lambda>n. \<lparr>en_view = TeamsPage, en_label = n, en_hint = budget\<rparr>) (filter (\<lambda>n. js_includes (toLowerCase n) q) (pd_teams data))"

definition palette_entries :: "string \<Rightarrow> string \<Rightarrow> palette_data \<Rightarrow> string \<Rightarrow> palette_entry list" where
  "palette_entries dots budget data query =
     (let q = toLowerCase (js_trim query) in if q = [] then [] else take 24 (palette_hits dots budget data q))"

record palette =
  pa_open :: bool
  pa_query :: string
  pa_browser :: browser

datatype palette_event = Typed string | EscapeKey | EnterKey | Picked palette_entry

definition go :: "palette_entry \<Rightarrow> palette \<Rightarrow> palette" where
  "go e p = p\<lparr>pa_browser := navigate (en_view e) (pa_browser p), pa_open := False\<rparr>"

text \<open>A closed palette is not on the page and hears nothing.\<close>

fun palette_step :: "(string \<Rightarrow> palette_entry list) \<Rightarrow> palette_event \<Rightarrow> palette \<Rightarrow> palette" where
  "palette_step found event p =
     (if \<not> pa_open p then p
      else case event of
        Typed q \<Rightarrow> p\<lparr>pa_query := q\<rparr>
      | EscapeKey \<Rightarrow> p\<lparr>pa_open := False\<rparr>
      | EnterKey \<Rightarrow> (case found (pa_query p) of [] \<Rightarrow> p | e # _ \<Rightarrow> go e p)
      | Picked e \<Rightarrow> go e p)"

section \<open>Accounts by kind, and labels\<close>

text \<open>Providers with their key and adapter, accounts with their key and provider.\<close>

definition provider_ids :: "string \<Rightarrow> (string \<times> string) list \<Rightarrow> string set" where
  "provider_ids adapter ps = set (map fst (filter (\<lambda>p. snd p = adapter) ps))"

definition codexAccounts :: "(string \<times> string) list \<Rightarrow> ('a \<Rightarrow> string) \<Rightarrow> 'a list \<Rightarrow> 'a list" where
  "codexAccounts ps provider as = filter (\<lambda>a. provider a \<in> provider_ids ''openai-codex'' ps) as"

definition claudeAccounts :: "(string \<times> string) list \<Rightarrow> ('a \<Rightarrow> string) \<Rightarrow> 'a list \<Rightarrow> 'a list" where
  "claudeAccounts ps provider as = filter (\<lambda>a. provider a \<in> provider_ids ''anthropic'' ps) as"

definition standardAccounts :: "(string \<times> string) list \<Rightarrow> ('a \<Rightarrow> string) \<Rightarrow> 'a list \<Rightarrow> 'a list" where
  "standardAccounts ps provider as =
     filter (\<lambda>a. provider a \<notin> provider_ids ''openai-codex'' ps \<and> provider a \<notin> provider_ids ''anthropic'' ps) as"

definition modelAccountCount :: "bool \<Rightarrow> nat \<Rightarrow> string" where
  "modelAccountCount russian n =
     (if russian \<and> n mod 10 = 1 \<and> n mod 100 \<noteq> 11 then ''models.accountCountOne''
      else if russian \<and> 2 \<le> n mod 10 \<and> n mod 10 \<le> 4 \<and> (n mod 100 < 12 \<or> 14 < n mod 100) then ''models.accountCountFew''
      else if n = 1 then ''models.accountCountOne'' else ''models.accountCountMany'')"

definition configStatusLabel :: "(string \<Rightarrow> string) \<Rightarrow> string option \<Rightarrow> string" where
  "configStatusLabel t status =
     (if status = Some ''draft'' then t ''status.config.draft''
      else if status = Some ''published'' then t ''status.config.published''
      else if status = Some ''rolled_back'' then t ''status.config.rolledBack''
      else case status of None \<Rightarrow> [] | Some s \<Rightarrow> s)"

definition requestOutcomeLabel :: "(string \<Rightarrow> string) \<Rightarrow> string \<Rightarrow> string" where
  "requestOutcomeLabel t outcome =
     (if outcome = ''success'' then t ''requests.outcome.success''
      else if outcome = ''rate_limited'' then t ''requests.outcome.rateLimited''
      else if outcome = ''upstream_error'' then t ''requests.outcome.upstreamError''
      else if outcome = ''saturated'' then t ''requests.outcome.saturated''
      else if outcome = ''canceled'' then t ''requests.outcome.canceled''
      else t ''requests.outcome.rejected'')"

section \<open>MCP servers\<close>

text \<open>The state of the view; an error and a message are keys of the translations or texts of the server.\<close>

record mcp_view =
  mv_name :: string
  mv_url :: string
  mv_headers :: string
  mv_message :: "string option"
  mv_error :: "string option"

text \<open>\<open>call\<close>: a body that is not JSON counts as an empty object; \<open>str\<close> is \<open>String(value)\<close> and \<open>http\<close> the text for a status.\<close>

definition mcp_call :: "(jv \<Rightarrow> string) \<Rightarrow> (nat \<Rightarrow> string) \<Rightarrow> nat \<Rightarrow> jv option \<Rightarrow> client_error + jv" where
  "mcp_call str http st document =
     (let json = (case document of None \<Rightarrow> JObj [] | Some v \<Rightarrow> v)
      in if \<not> response_ok st then Inl (RequestFailed (str (coalesce (get_prop (get_prop json ''error'') ''message'') (JStr (http st)))))
         else if nullish json then Inl NotAnObject
         else Inr (get_prop json ''data''))"

text \<open>\<open>sample\<close> is the text the field starts with, \<open>parse\<close> is \<open>JSON.parse\<close>.\<close>

definition parseHeaders :: "(string \<Rightarrow> jv option) \<Rightarrow> string \<Rightarrow> string \<Rightarrow> jv option" where
  "parseHeaders parse sample headers =
     (let trimmed = js_trim headers
      in if trimmed = [] \<or> trimmed = sample then Some (JObj [])
         else case parse trimmed of Some (JObj ps) \<Rightarrow> Some (JObj ps) | _ \<Rightarrow> None)"

definition createServer :: "(string \<Rightarrow> jv option) \<Rightarrow> string \<Rightarrow> mcp_view \<Rightarrow> client_call option" where
  "createServer parse sample s =
     (case parseHeaders parse sample (mv_headers s) of
        None \<Rightarrow> None
      | Some h \<Rightarrow> Some (body_call Post ''mcp-servers''
          [(''name'', JStr (js_trim (mv_name s))), (''url'', JStr (js_trim (mv_url s))), (''enabled'', JBool True), (''headers'', h)]))"

definition created :: "(string \<Rightarrow> jv option) \<Rightarrow> string \<Rightarrow> (client_call \<Rightarrow> client_error + jv) \<Rightarrow> (client_error \<Rightarrow> string) \<Rightarrow> mcp_view \<Rightarrow> mcp_view" where
  "created parse sample answer message s =
     (case createServer parse sample s of
        None \<Rightarrow> s\<lparr>mv_error := Some ''mcp.headersInvalid''\<rparr>
      | Some c \<Rightarrow>
          let s0 = s\<lparr>mv_error := None, mv_message := None\<rparr>
          in case answer c of
               Inl e \<Rightarrow> s0\<lparr>mv_error := Some (message e)\<rparr>
             | Inr _ \<Rightarrow> s0\<lparr>mv_message := Some ''mcp.created'', mv_name := [], mv_url := [], mv_headers := sample\<rparr>)"

definition toggleServer :: "string \<Rightarrow> bool \<Rightarrow> client_call" where
  "toggleServer key enabled = body_call Patch (''mcp-servers/'' @ key) [(''enabled'', JBool (\<not> enabled))]"

definition deleteServer :: "string \<Rightarrow> client_call" where
  "deleteServer key = \<lparr>cl_method = Delete, cl_path = ''mcp-servers/'' @ key, cl_body = None, cl_key = None\<rparr>"

text \<open>The members \<open>rotateHeaders\<close> keeps of what was typed: the ones that are texts.\<close>

definition text_headers :: "(string \<Rightarrow> jv option) \<Rightarrow> string \<Rightarrow> (string \<times> jv) list option" where
  "text_headers parse raw = (case parse raw of Some (JObj ps) \<Rightarrow> Some (filter (\<lambda>p. is_str (snd p)) ps) | _ \<Rightarrow> None)"

definition rotateHeaders :: "(string \<Rightarrow> jv option) \<Rightarrow> string \<Rightarrow> string option \<Rightarrow> client_call option" where
  "rotateHeaders parse key raw =
     (case raw of None \<Rightarrow> None
      | Some r \<Rightarrow> map_option (\<lambda>clean. body_call Patch (''mcp-servers/'' @ key) [(''headers'', JObj clean)]) (text_headers parse r))"

definition rotated :: "(string \<Rightarrow> jv option) \<Rightarrow> (client_call \<Rightarrow> client_error + jv) \<Rightarrow> (client_error \<Rightarrow> string) \<Rightarrow> string \<Rightarrow> string option \<Rightarrow> mcp_view \<Rightarrow> mcp_view" where
  "rotated parse answer message key raw s =
     (if raw = None then s
      else case rotateHeaders parse key raw of
        None \<Rightarrow> s\<lparr>mv_error := Some ''mcp.headersInvalid''\<rparr>
      | Some c \<Rightarrow>
          (case answer c of
             Inl e \<Rightarrow> s\<lparr>mv_error := Some (message e)\<rparr>
           | Inr _ \<Rightarrow> s\<lparr>mv_error := None, mv_message := Some ''mcp.rotated''\<rparr>))"

section \<open>Balances\<close>

text \<open>\<open>toFixed(4)\<close> of a number below \<open>10^21\<close>: the nearest multiple, the larger one of two; \<open>big\<close> is the text of larger numbers.\<close>

definition fixed4 :: "rat \<Rightarrow> nat" where
  "fixed4 x = nat \<lfloor>x * 10000 + 1 / 2\<rfloor>"

definition four_digits :: "nat \<Rightarrow> string" where
  "four_digits n = [digit_char (n div 1000 mod 10), digit_char (n div 100 mod 10), digit_char (n div 10 mod 10), digit_char (n mod 10)]"

definition fmtUsd :: "(rat \<Rightarrow> string) \<Rightarrow> rat \<Rightarrow> string" where
  "fmtUsd big n = (if n < 0 then ''-'' else []) @ ''$''
     @ (if 10 ^ 21 \<le> \<bar>n\<bar> then big \<bar>n\<bar> else show_nat (fixed4 \<bar>n\<bar> div 10000) @ ''.'' @ four_digits (fixed4 \<bar>n\<bar>))"

record billing_form =
  bf_team :: string
  bf_delta :: string
  bf_note :: string
  bf_message :: "string \<times> (string \<times> string) list"

text \<open>The balances of the view: key and name of every team.  The result is the call that is sent, if any.\<close>

definition submitAdjustment :: "(rat \<Rightarrow> string) \<Rightarrow> (string \<times> string) list \<Rightarrow> (string \<times> string \<times> string \<Rightarrow> bool) \<Rightarrow> billing_form \<Rightarrow> billing_form \<times> client_call option" where
  "submitAdjustment big balances confirm s =
     (case (map_of balances (bf_team s), js_number (bf_delta s)) of
        (Some name, Fin x) \<Rightarrow>
          if x = 0 then (s\<lparr>bf_message := (''billing.adjustInvalid'', [])\<rparr>, None)
          else if \<not> confirm (name, (if 0 < x then ''+'' else []) @ fmtUsd big x, bf_note s) then (s, None)
          else (s\<lparr>bf_message := ([], [])\<rparr>,
                Some (body_call Post ''billing/adjust'' [(''team_id'', JStr (bf_team s)), (''delta_usd'', JNum (Fin x)), (''note'', JStr (bf_note s))]))
      | _ \<Rightarrow> (s\<lparr>bf_message := (''billing.adjustInvalid'', [])\<rparr>, None))"

text \<open>What the answer of that call makes of the form; \<open>own\<close> is the text of the browser's own errors.\<close>

definition adjusted :: "(client_error \<Rightarrow> string) \<Rightarrow> string \<Rightarrow> string \<Rightarrow> client_error + jv \<Rightarrow> billing_form \<Rightarrow> billing_form" where
  "adjusted own name amount answer s =
     (case answer of
        Inl (RequestFailed m) \<Rightarrow> s\<lparr>bf_message := (m, [])\<rparr>
      | Inl e \<Rightarrow> s\<lparr>bf_message := (own e, [])\<rparr>
      | Inr _ \<Rightarrow> s\<lparr>bf_message := (''adjust.done'', [(''team'', name), (''amount'', amount)]), bf_delta := [], bf_note := []\<rparr>)"

section \<open>The palette lists what matches\<close>

text \<open>While a query is typed and at most 24 rows match, the palette lists exactly the models, accounts, keys and teams one of whose shown texts contains the
  trimmed query regardless of case, each leading to its own page; it never lists more than 24, and picking an entry with the return key
  closes it at the address of that entry's page.\<close>

theorem palette_search:
  fixes query :: string
  defines "q \<equiv> toLowerCase (js_trim query)"
  assumes "q \<noteq> []"
  shows "length (palette_entries dots budget data query) \<le> 24
    \<and> (length (palette_hits dots budget data q) \<le> 24 \<longrightarrow>
        (\<forall>e. e \<in> set (palette_entries dots budget data query) \<longleftrightarrow>
          (\<exists>a b. (a, b) \<in> set (pd_models data) \<and> sublist q (toLowerCase (a @ '' '' @ b)) \<and> e = \<lparr>en_view = ModelsPage, en_label = a, en_hint = b\<rparr>)
        \<or> (\<exists>a b. (a, b) \<in> set (pd_accounts data) \<and> sublist q (toLowerCase (a @ '' '' @ b)) \<and> e = \<lparr>en_view = AccountsPage, en_label = a, en_hint = b\<rparr>)
        \<or> (\<exists>a b. (a, b) \<in> set (pd_keys data) \<and> sublist q (toLowerCase (a @ '' '' @ b)) \<and> e = \<lparr>en_view = KeysPage, en_label = a, en_hint = b @ dots\<rparr>)
        \<or> (\<exists>n. n \<in> set (pd_teams data) \<and> sublist q (toLowerCase n) \<and> e = \<lparr>en_view = TeamsPage, en_label = n, en_hint = budget\<rparr>)))
    \<and> (pa_open p \<and> pa_query p = query \<and> nav_ok (pa_browser p) \<longrightarrow>
        (case palette_entries dots budget data query of
           [] \<Rightarrow> palette_step (palette_entries dots budget data) EnterKey p = p
         | e # _ \<Rightarrow> \<not> pa_open (palette_step (palette_entries dots budget data) EnterKey p)
             \<and> viewFromPath (br_path (pa_browser (palette_step (palette_entries dots budget data) EnterKey p))) = en_view e))"
proof -
  let ?es = "palette_entries dots budget data query"
  have es: "?es = take 24 (palette_hits dots budget data q)" using assms(2) by (simp add: palette_entries_def q_def Let_def)
  have "br_view (navigate v b) = v" for v b by (simp add: navigate_def Let_def)
  moreover have "nav_ok (navigate v b)" if "nav_ok b" for v b by (rule nav_step_ok [OF that]) (rule nav_step.intros)
  ultimately
  have nav: "viewFromPath (br_path (navigate v b)) = v" if "nav_ok b" for v b using that by (metis nav_ok_def)
  have "length ?es \<le> 24" by (simp add: es)
  moreover have "set ?es = set (palette_hits dots budget data q)" if "length (palette_hits dots budget data q) \<le> 24" using that by (simp add: es)
  ultimately show ?thesis using nav
    by (auto simp: palette_hits_def pair_entry_def palette_hit_def includes_iff_sublist go_def image_iff split: list.split)
qed

definition demo_palette :: palette_data where
  "demo_palette = \<lparr>pd_models = [(''gpt'', ''up-1'')], pd_accounts = [], pd_keys = [(''ci'', ''sk-1'')], pd_teams = [''Core'']\<rparr>"

theorem palette_search_witness:
  "palette_entries ''..'' ''b'' demo_palette '' CO '' = [\<lparr>en_view = TeamsPage, en_label = ''Core'', en_hint = ''b''\<rparr>]
   \<and> \<lparr>en_view = TeamsPage, en_label = ''Core'', en_hint = ''b''\<rparr> \<in> set (palette_entries ''..'' ''b'' demo_palette '' CO '')"
proof -
  have q: "toLowerCase (js_trim '' CO '') = ''co''" by code_simp
  have h: "palette_hits ''..'' ''b'' demo_palette ''co'' = [\<lparr>en_view = TeamsPage, en_label = ''Core'', en_hint = ''b''\<rparr>]" by code_simp
  have "sublist ''co'' (toLowerCase ''Core'')" unfolding includes_iff_sublist [symmetric] by code_simp
  then show ?thesis using palette_search [of "'' CO ''" "''..''" "''b''" demo_palette] unfolding q h
    by (simp add: palette_entries_def q h Let_def)
qed

section \<open>Every account is shown once\<close>

text \<open>The three lists of the account page hold every account exactly once.\<close>

theorem account_groups_partition:
  assumes "distinct (map fst ps)"
  shows "mset (codexAccounts ps provider as) + mset (claudeAccounts ps provider as) + mset (standardAccounts ps provider as) = mset as"
proof -
  have "provider_ids ''openai-codex'' ps \<inter> provider_ids ''anthropic'' ps = {}"
    using assms by (fastforce simp: provider_ids_def dest: eq_key_imp_eq_value)
  then show ?thesis unfolding codexAccounts_def claudeAccounts_def standardAccounts_def by (induction as) auto
qed

theorem account_groups_partition_witness:
  "mset (codexAccounts [(''1'', ''openai-codex''), (''2'', ''anthropic'')] id [''2'', ''1'', ''3'']) + mset (claudeAccounts [(''1'', ''openai-codex''), (''2'', ''anthropic'')] id [''2'', ''1'', ''3''])
     + mset (standardAccounts [(''1'', ''openai-codex''), (''2'', ''anthropic'')] id [''2'', ''1'', ''3'']) = mset [''2'', ''1'', ''3'']"
  by (rule account_groups_partition) simp

section \<open>Rotating the headers of an MCP server\<close>

lemma record_of_texts:
  assumes "z_optional (z_record z_string) (JObj ps) = Some w" and "list_all (\<lambda>p. is_str (snd p)) ps"
  shows "w = JObj ps"
proof -
  have "all_some (map (\<lambda>(k, w). map_option (Pair k) (z_string w)) ps) = Some ps"
    using assms(2) by (induction ps) (auto elim: is_str.elims)
  then show ?thesis using assms(1) by (simp add: z_optional_def z_record_def)
qed

lemma wire_texts: "list_all (\<lambda>p. is_str (snd p)) ps \<Longrightarrow> wire (JObj ps) = JObj ps"
  by (induction ps) (auto elim!: is_str.elims)

lemma headers_patch_parsed:
  assumes "McpServerPatchSchema env (JObj [(''headers'', JObj ps)]) = Some v" and "list_all (\<lambda>p. is_str (snd p)) ps"
  shows "get_prop v ''headers'' = JObj ps" "get_prop v ''name'' = JUndef" "get_prop v ''url'' = JUndef" "get_prop v ''enabled'' = JUndef"
proof -
  note get = z_object_get [OF assms(1) [unfolded McpServerPatchSchema_def]]
  have "z_optional (z_record z_string) (get_prop (JObj [(''headers'', JObj ps)]) ''headers'') = Some (get_prop v ''headers'')"
    by (rule get) simp_all
  then show "get_prop v ''headers'' = JObj ps" using record_of_texts assms(2) by simp
  have "z_optional (z_text 1 (Some 100)) JUndef = Some (get_prop v ''name'')" using get [of "''name''"] by simp
  moreover have "z_optional (httpUrl env) JUndef = Some (get_prop v ''url'')" using get [of "''url''"] by simp
  moreover have "z_optional z_bool JUndef = Some (get_prop v ''enabled'')" using get [of "''enabled''"] by simp
  ultimately show "get_prop v ''name'' = JUndef" "get_prop v ''url'' = JUndef" "get_prop v ''enabled'' = JUndef" by (simp_all add: z_optional_def)
qed

lemma mcp_servers_PATCH_Inr:
  assumes "mcp_servers_PATCH env key body d = (Inr x, d')"
  shows "\<exists>v sid d1. McpServerPatchSchema (ad_schema env) body = Some v \<and> headers_secret v d = (Inr sid, d1)
    \<and> mcps d' = update_where (\<lambda>m. mc_id m = dec_val key) (patched_mcp v sid) (mcps d1) \<and> secrets d' = secrets d1"
  using assms unfolding mcp_servers_PATCH_def
  by (elim bind_act_InrE) (auto simp: audit_simps split: if_splits dest!: then_draftAfter)

lemma headers_patched:
  assumes "mcp_servers_PATCH env key (JObj [(''headers'', JObj ps)]) d = (Inr x, d')" and "list_all (\<lambda>p. is_str (snd p)) ps"
  shows "mcps d' = (if ps = [] then mcps d else update_where (\<lambda>m. mc_id m = dec_val key) (\<lambda>m. m\<lparr>mc_headers := Some (next_id d)\<rparr>) (mcps d))"
    and "secrets d' = secrets d @ (if ps = [] then [] else [\<lparr>s_id = next_id d, s_purpose = ''mcp_headers'', s_sealed = JObj ps\<rparr>])"
proof -
  have none: "update_where P (\<lambda>m. m) ms = ms" for P and ms :: "mcp_row list" by (induction ms) (auto simp: update_where_def)
  obtain v sid d1 where v: "McpServerPatchSchema (ad_schema env) (JObj [(''headers'', JObj ps)]) = Some v" and h: "headers_secret v d = (Inr sid, d1)"
    and d': "mcps d' = update_where (\<lambda>m. mc_id m = dec_val key) (patched_mcp v sid) (mcps d1)" "secrets d' = secrets d1"
    using mcp_servers_PATCH_Inr [OF assms(1)] by blast
  note p = headers_patch_parsed [OF v assms(2)]
  have row: "patched_mcp v sid = (\<lambda>m. if sid = None then m else m\<lparr>mc_headers := sid\<rparr>)"
    by (rule ext) (simp add: patched_mcp_def or_text_def or_bool_def p)
  from h show "mcps d' = (if ps = [] then mcps d else update_where (\<lambda>m. mc_id m = dec_val key) (\<lambda>m. m\<lparr>mc_headers := Some (next_id d)\<rparr>) (mcps d))"
    and "secrets d' = secrets d @ (if ps = [] then [] else [\<lparr>s_id = next_id d, s_purpose = ''mcp_headers'', s_sealed = JObj ps\<rparr>])"
    unfolding d' row by (auto simp: headers_secret_def p act_simps insertSecret_def none split: if_splits)
qed

text \<open>A rotation that the server accepts is announced as done.  The texts among the typed members become the stored headers of that server;
  when none of them is a text nothing is stored, every server keeps its old headers, and the announcement is the same.\<close>

theorem rotation_stores_texts:
  assumes "parse raw = Some (JObj typed)" and "rotateHeaders parse key (Some raw) = Some c" and "answer c = Inr w"
    and "mcp_servers_PATCH env key (the (cl_body c)) d = (Inr x, d')"
  shows "mv_message (rotated parse answer message key (Some raw) s) = Some ''mcp.rotated''
    \<and> (if \<exists>p\<in>set typed. is_str (snd p)
       then mcps d' = update_where (\<lambda>m. mc_id m = dec_val key) (\<lambda>m. m\<lparr>mc_headers := Some (next_id d)\<rparr>) (mcps d)
         \<and> secrets d' = secrets d @ [\<lparr>s_id = next_id d, s_purpose = ''mcp_headers'', s_sealed = JObj (filter (\<lambda>p. is_str (snd p)) typed)\<rparr>]
       else mcps d' = mcps d \<and> secrets d' = secrets d)"
proof -
  let ?ps = "filter (\<lambda>p. is_str (snd p)) typed"
  have texts: "list_all (\<lambda>p. is_str (snd p)) ?ps" by (simp add: list_all_iff)
  have "c = body_call Patch (''mcp-servers/'' @ key) [(''headers'', JObj ?ps)]"
    using assms(1, 2) by (simp add: rotateHeaders_def text_headers_def)
  then have "the (cl_body c) = JObj [(''headers'', wire (JObj ?ps))]" by (simp add: body_call_def)
  then have run: "mcp_servers_PATCH env key (JObj [(''headers'', JObj ?ps)]) d = (Inr x, d')" using assms(4) by (simp only: wire_texts [OF texts])
  have "mv_message (rotated parse answer message key (Some raw) s) = Some ''mcp.rotated''" using assms(2, 3) by (simp add: rotated_def)
  then show ?thesis using headers_patched [OF run texts] by (auto simp: filter_empty_conv)
qed

definition demo_mcp_db :: db where
  "demo_mcp_db = demo_tables_db\<lparr>mcps := [\<lparr>mc_id = 4, mc_name = ''m'', mc_url = ''u'', mc_enabled = True, mc_headers = Some 2\<rparr>]\<rparr>"

theorem rotation_stores_texts_witness:
  "\<exists>x d'. mcp_servers_PATCH demo_admin ''4'' (JObj [(''headers'', JObj [])]) demo_mcp_db = (Inr x, d') \<and> mcps d' = mcps demo_mcp_db
     \<and> mv_message (rotated (\<lambda>_. Some (JObj [(''n'', num 1)])) (\<lambda>_. Inr JNull) (\<lambda>_. []) ''4'' (Some ''raw'')
         \<lparr>mv_name = [], mv_url = [], mv_headers = [], mv_message = None, mv_error = None\<rparr>) = Some ''mcp.rotated''"
proof -
  let ?c = "body_call Patch ''mcp-servers/4'' [(''headers'', JObj [])]"
  have f: "aliases demo_mcp_db = []" "enabled_keys demo_mcp_db \<noteq> []" "routing demo_mcp_db = None" "settings demo_mcp_db = []"
    by (simp_all add: demo_mcp_db_def demo_tables_facts enabled_keys_def demo_key_def)
  have v: "McpServerPatchSchema demo_schema (JObj [(''headers'', JObj [])]) = Some (JObj [(''headers'', JObj [])])"
    by (simp add: McpServerPatchSchema_def z_object_def z_optional_def z_record_def)
  have row: "mcps demo_mcp_db = [\<lparr>mc_id = 4, mc_name = ''m'', mc_url = ''u'', mc_enabled = True, mc_headers = Some 2\<rparr>]" by (simp add: demo_mcp_db_def)
  have "demo_mcp_db\<lparr>mcps := update_where (\<lambda>m. mc_id m = 4) (patched_mcp (JObj [(''headers'', JObj [])]) None) (mcps demo_mcp_db)\<rparr> = demo_mcp_db"
    by (simp add: row patched_mcp_def or_text_def or_bool_def demo_mcp_db_def)
  then have "mcp_servers_PATCH demo_admin ''4'' (JObj [(''headers'', JObj [])]) demo_mcp_db
      = then_act (draftAfter demo_admin ''update'' ''mcp_server'' ''4'' (JObj (redact_member ''headers'' True [(''headers'', JObj [])])))
          (return_act (McpRow (hd (mcps demo_mcp_db)))) demo_mcp_db"
    by (simp add: mcp_servers_PATCH_def parse_body_def v path_uuid_def bind_lift handler_simps demo_four headers_secret_def row the_row_def bind_return)
  then obtain x d' where run: "mcp_servers_PATCH demo_admin ''4'' (JObj [(''headers'', JObj [])]) demo_mcp_db = (Inr x, d')"
    using demo_draftAfter [OF f] by metis
  have "the (cl_body ?c) = JObj [(''headers'', JObj [])]" by (simp add: body_call_def)
  then show ?thesis
    using run rotation_stores_texts [of "\<lambda>_. Some (JObj [(''n'', num 1)])" "''raw''" "[(''n'', num 1)]" "''4''" ?c "\<lambda>_. Inr JNull" JNull demo_admin demo_mcp_db x d'
        "\<lambda>_. []" "\<lparr>mv_name = [], mv_url = [], mv_headers = [], mv_message = None, mv_error = None\<rparr>"]
    by (auto simp: rotateHeaders_def text_headers_def)
qed

section \<open>An adjustment is booked as entered\<close>

lemma fixed4_close: "0 \<le> x \<Longrightarrow> \<bar>rat_of_nat (fixed4 x) / 10000 - x\<bar> \<le> 1 / 20000"
proof -
  assume "0 \<le> x"
  then have n: "rat_of_nat (fixed4 x) = rat_of_int \<lfloor>x * 10000 + 1 / 2\<rfloor>" by (simp add: fixed4_def of_nat_nat)
  have "rat_of_int \<lfloor>x * 10000 + 1 / 2\<rfloor> \<le> x * 10000 + 1 / 2" "x * 10000 + 1 / 2 < rat_of_int \<lfloor>x * 10000 + 1 / 2\<rfloor> + 1"
    by (rule of_int_floor_le, linarith)
  then show ?thesis unfolding n abs_le_iff by (simp add: field_simps)
qed

lemma digits_of_fixed: "dec_val (show_nat (n div 10000) @ four_digits n) = n"
proof -
  have d: "digit_val (digit_char (k mod 10)) = k mod 10" for k using digit_char_digit [of "k mod 10"] by simp
  have "dec_val (show_nat (n div 10000) @ four_digits n) = dec_val (show_nat (n div 10000)) * 10000
      + (n div 1000 mod 10) * 1000 + (n div 100 mod 10) * 100 + (n div 10 mod 10) * 10 + n mod 10"
    by (simp add: dec_val_def four_digits_def d)
  also have "\<dots> = n"
  proof -
    have "n div 100 = n div 10 div 10" "n div 1000 = n div 100 div 10" "n div 10000 = n div 1000 div 10" by (simp_all add: div_mult2_eq)
    moreover have "k = k div 10 * 10 + k mod 10" for k :: nat by simp
    note this [of n] this [of "n div 10"] this [of "n div 100"] this [of "n div 1000"]
    ultimately show ?thesis unfolding dec_val_show_nat by linarith
  qed
  finally show ?thesis .
qed

text \<open>The amount shown is the amount rounded to the next hundredth of a cent: its digits are those of a multiple of 0.0001 at
  most half a unit away, behind the sign.\<close>

theorem fmtUsd_close:
  assumes "\<bar>x\<bar> < 10 ^ 21"
  shows "\<exists>n. fmtUsd big x = (if x < 0 then ''-'' else []) @ ''$'' @ show_nat (n div 10000) @ ''.'' @ four_digits n
    \<and> dec_val (show_nat (n div 10000) @ four_digits n) = n \<and> \<bar>rat_of_nat n / 10000 - \<bar>x\<bar>\<bar> \<le> 1 / 20000"
  using assms fixed4_close [of "\<bar>x\<bar>"] by (intro exI [of _ "fixed4 \<bar>x\<bar>"]) (simp add: fmtUsd_def digits_of_fixed)

theorem fmtUsd_close_witness:
  "\<exists>n. fmtUsd (\<lambda>_. []) (5 / 2) = ''$'' @ show_nat (n div 10000) @ ''.'' @ four_digits n \<and> \<bar>rat_of_nat n / 10000 - 5 / 2\<bar> \<le> 1 / 20000"
proof -
  have "\<bar>5 / 2 :: rat\<bar> < 10 ^ 21" "\<not> (5 / 2 :: rat) < 0" by simp_all
  from fmtUsd_close [OF this(1), of "\<lambda>_. []"] this(2) show ?thesis by auto
qed

lemma billing_adjust_exact:
  assumes "sv_uuid (ad_schema env) team" and "length note \<le> 300"
  shows "billing_adjust env (JObj [(''team_id'', JStr team), (''delta_usd'', JNum (Fin x)), (''note'', JStr note)]) d =
    (if \<bar>x\<bar> < 1 / 10 ^ 9 \<or> 10000 < \<bar>x\<bar> then (Inl (ApiError 422 ''invalid_amount'' ''delta_usd must be a non-zero amount within 10 000''), d)
     else case find (\<lambda>t. t_id t = dec_val team) (teams d) of
       None \<Rightarrow> (Inl (ApiError 404 ''not_found'' ''Team not found''), d)
     | Some t \<Rightarrow> (Inr (Value (JObj [(''team_id'', JStr team), (''balance_usd'', num (t_balance t + x))])),
         add_balance (dec_val team) x (d\<lparr>credits := credits d @ [\<lparr>ct_team = dec_val team, ct_delta = numeric6 x, ct_kind = ''adjustment'',
             ct_source = ''manual'', ct_external = []\<rparr>],
           audits := audits d @ [\<lparr>au_actor = ''local-admin'', au_action = ''adjustment'', au_type = ''team'', au_resource = Some (show_nat (dec_val team)),
             au_payload = JObj [(''delta_usd'', JNum (Fin x)), (''note'', JStr note)]\<rparr>]\<rparr>)))"
proof -
  have "find (\<lambda>t. t_id t = i) ts = Some t \<Longrightarrow> list_ex (\<lambda>t. t_id t = i) ts" for i t and ts :: "team_row list"
    by (metis find_Some_iff list_ex_iff nth_mem)
  then show ?thesis using assms unfolding billing_adjust_def billingAdjust_def
    by (auto simp: z_uuid_def z_number_def coalesce_def txOn_def insert_credit_def act_defs audit_def add_balance_def split: option.split)
qed

text \<open>An adjustment is sent only for a listed team and a finite amount other than zero that was confirmed with the team's name and the amount.
  The server then books exactly what was entered: an amount beyond 10,000 or below a billionth is refused, a team that is gone is not
  found, and otherwise one ledger row, the balance of that team and one audit row change, with the entered amount.\<close>

theorem adjustment_booked_as_entered:
  assumes "submitAdjustment big balances confirm s = (s', Some c)" and "sv_uuid (ad_schema env) (bf_team s)" and "length (bf_note s) \<le> 300"
  shows "\<exists>name x. map_of balances (bf_team s) = Some name \<and> js_number (bf_delta s) = Fin x \<and> x \<noteq> 0
    \<and> confirm (name, (if 0 < x then ''+'' else []) @ fmtUsd big x, bf_note s)
    \<and> billing_adjust env (the (cl_body c)) d =
        (if \<bar>x\<bar> < 1 / 10 ^ 9 \<or> 10000 < \<bar>x\<bar> then (Inl (ApiError 422 ''invalid_amount'' ''delta_usd must be a non-zero amount within 10 000''), d)
         else case find (\<lambda>t. t_id t = dec_val (bf_team s)) (teams d) of
           None \<Rightarrow> (Inl (ApiError 404 ''not_found'' ''Team not found''), d)
         | Some t \<Rightarrow> (Inr (Value (JObj [(''team_id'', JStr (bf_team s)), (''balance_usd'', num (t_balance t + x))])),
             add_balance (dec_val (bf_team s)) x (d\<lparr>credits := credits d @ [\<lparr>ct_team = dec_val (bf_team s), ct_delta = numeric6 x, ct_kind = ''adjustment'',
                 ct_source = ''manual'', ct_external = []\<rparr>],
               audits := audits d @ [\<lparr>au_actor = ''local-admin'', au_action = ''adjustment'', au_type = ''team'', au_resource = Some (show_nat (dec_val (bf_team s))),
                 au_payload = JObj [(''delta_usd'', JNum (Fin x)), (''note'', JStr (bf_note s))]\<rparr>]\<rparr>)))"
proof -
  obtain name x where sent: "map_of balances (bf_team s) = Some name" "js_number (bf_delta s) = Fin x" "x \<noteq> 0"
    "confirm (name, (if 0 < x then ''+'' else []) @ fmtUsd big x, bf_note s)"
    "the (cl_body c) = JObj [(''team_id'', JStr (bf_team s)), (''delta_usd'', JNum (Fin x)), (''note'', JStr (bf_note s))]"
    using assms(1) by (auto simp: submitAdjustment_def body_call_def is_finite_def split: option.splits jsnum.splits if_splits)
  then show ?thesis using billing_adjust_exact [OF assms(2, 3), of x d] by metis
qed

theorem adjustment_booked_as_entered_witness:
  "let f = \<lparr>bf_team = ''4'', bf_delta = ''7'', bf_note = ''n'', bf_message = ([], [])\<rparr>
   in \<exists>s' c. submitAdjustment (\<lambda>_. []) [(''4'', ''t'')] (\<lambda>_. True) f = (s', Some c)
      \<and> billing_adjust demo_admin (the (cl_body c)) empty_db = (Inl (ApiError 404 ''not_found'' ''Team not found''), empty_db)"
proof -
  let ?f = "\<lparr>bf_team = ''4'', bf_delta = ''7'', bf_note = ''n'', bf_message = ([], [])\<rparr>"
  have seven: "js_number ''7'' = Fin 7" using js_number_digits [of "''7''"] by (simp add: dec_val_def digit_val_def char_class_defs)
  obtain s' c where run: "submitAdjustment (\<lambda>_. []) [(''4'', ''t'')] (\<lambda>_. True) ?f = (s', Some c)" by (simp add: submitAdjustment_def seven)
  have "sv_uuid (ad_schema demo_admin) (bf_team ?f)" "length (bf_note ?f) \<le> 300" by (simp_all add: demo_schema_def demo_four)
  from adjustment_booked_as_entered [OF run this, of empty_db] run show ?thesis by (auto simp: Let_def seven empty_db_def)
qed

section \<open>The other calls of the MCP view\<close>

lemma mcp_calls_reach_route:
  assumes "CHR ''/'' \<notin> set k"
  shows "(\<exists>parse sample s. createServer parse sample s = Some c) \<or> c = toggleServer k on \<or> c = deleteServer k \<or> (\<exists>parse raw. rotateHeaders parse k raw = Some c)
    \<Longrightarrow> sends c req \<Longrightarrow> control_v1 env req = on_db (general_route env req)"
  using assms
  by (auto simp: sends_defs createServer_def toggleServer_def deleteServer_def rotateHeaders_def control_v1_def specific_route_def split: option.splits)

text \<open>Creating a server with a header that is not a text is refused, where rotating drops that header.\<close>

lemma z_record_member: "z_record s (JObj ps) = Some w \<Longrightarrow> (k, h) \<in> set ps \<Longrightarrow> s h \<noteq> None"
proof -
  have "list_all (\<lambda>x. x \<noteq> None) xs" if "all_some xs = Some ys" for xs :: "(string \<times> jv) option list" and ys using that by (auto simp: all_some_Some list_all_iff)
  then show "z_record s (JObj ps) = Some w \<Longrightarrow> (k, h) \<in> set ps \<Longrightarrow> s h \<noteq> None" by (fastforce simp: z_record_def list_all_iff)
qed

lemma created_headers_are_texts:
  assumes "createServer parse sample s = Some c" and "McpServerSchema env (the (cl_body c)) = Some v"
    and "parseHeaders parse sample (mv_headers s) = Some (JObj ps)" and "(k, h) \<in> set ps" and "h \<noteq> JUndef"
  shows "is_str (wire h)"
proof -
  let ?body = "the (cl_body c)"
  have "get_prop ?body ''headers'' = wire (JObj ps)" using assms(1, 3) by (auto simp: createServer_def body_call_def)
  moreover have "z_default (JObj []) (z_record z_string) (get_prop ?body ''headers'') = Some (get_prop v ''headers'')"
    by (rule z_object_get [OF assms(2) [unfolded McpServerSchema_def]]) simp_all
  ultimately have "z_record z_string (wire (JObj ps)) = Some (get_prop v ''headers'')" by (simp add: z_default_def)
  moreover have "(k, wire h) \<in> set (map (\<lambda>p. (fst p, wire (snd p))) (filter (\<lambda>p. snd p \<noteq> JUndef) ps))" using assms(4, 5) by force
  ultimately have "z_string (wire h) \<noteq> None" unfolding wire.simps(4) by (rule z_record_member)
  then show ?thesis by (cases "wire h") simp_all
qed

end
