(* ===== verification/Spec2Isabelle.thy ===== *)
theory Spec2Isabelle
  imports Proxylib Rate_Limit Ipacl Store Request_Events Quota_Reset Auth Billing Canonical_Json Snapshots Control Credentials Model_Metadata Provider_Operations Discovery Schemas Resources Oidc Session_Store Codex_Tokens Codex_Accounts Login_Flows Admin Snapshot_Transfer Control_Api Snapshot_Migration Snapshot_Export Gateway_Api Background Read_Models Operations_Api Worker_Pool Deployment
    Dashboard_Panels Dashboard_Views
begin
text \<open>
  A verification library for the control plane of 2papi (\<open>src/control-plane\<close>), the TypeScript service that
  administers a gateway for language-model providers.  It keeps providers, accounts with encrypted credentials, model aliases,
  virtual keys, teams and balances in PostgreSQL, compiles them into versioned configurations that the gateways download,
  and receives their acknowledgements, refreshed credentials and reports of served requests.

  \<^bold>\<open>Method.\<close>  Pure functions of the source are HOL functions of the same name.  A handler is a function from the
  state to a result and the next state (theory \<open>Prelude\<close>): \<open>Inl\<close> carries the error the source throws, with the status
  and code of an \<open>ApiError\<close>, and \<open>txOn\<close> restores the state when the body of a transaction fails.  Constraints, foreign
  keys, defaults and cascades of \<open>migrations/\<close> are part of the statements that meet them.  All definitions are executable;
  recursion is structural or has a termination proof, so no fuel is used anywhere.

  \<^bold>\<open>Theories and sources\<close> (paths below \<open>src/control-plane\<close>)

  \<^item> \<open>Prelude\<close>: errors, the state-and-error type and its combinators, transactions, preservation of invariants
    (\<open>preserves\<close>, collection \<open>preserves_intros\<close>), rows and keys of tables, the collection \<open>act_simps\<close>.
  \<^item> \<open>Js_Strings\<close>, \<open>Js_Values\<close>: the string, number and value operations of JavaScript the code uses.
  \<^item> \<open>Store\<close>: one record per table of \<open>migrations/\<close>, the database, \<open>audit\<close> and \<open>insertSecret\<close>; \<open>lib/db.ts\<close>.
  \<^item> \<open>Proxylib\<close>, \<open>Ipacl\<close>, \<open>Rate_Limit\<close>: \<open>lib/proxylib.ts\<close>, \<open>lib/ipacl.ts\<close>, \<open>lib/rate-limit.ts\<close>.
  \<^item> \<open>Canonical_Json\<close>, \<open>Snapshots\<close>, \<open>Control\<close>: \<open>lib/canonical-json.ts\<close>, \<open>lib/snapshots.ts\<close>, the versions, publication and
    gateways of \<open>lib/control.ts\<close> and \<open>lib/snapshot-envelope.ts\<close>.
  \<^item> \<open>Gateway_Api\<close>: the routes of the gateways under \<open>app/api/internal\<close> and the JSON form of \<open>lib/request-events.ts\<close>.
  \<^item> \<open>Credentials\<close>: \<open>lib/crypto.ts\<close>, \<open>lib/api.ts\<close> and the route by which gateways store refreshed credentials.
  \<^item> \<open>Request_Events\<close>, \<open>Billing\<close>, \<open>Quota_Reset\<close>: \<open>lib/request-events.ts\<close>, \<open>lib/cloud-auth.ts\<close>, \<open>lib/webhooks.ts\<close>,
    \<open>lib/balance.ts\<close>, \<open>lib/codex/quota.ts\<close>.
  \<^item> \<open>Auth\<close>, \<open>Oidc\<close>: \<open>lib/edition.ts\<close>, \<open>lib/auth.ts\<close>, \<open>lib/passwords.ts\<close>, \<open>lib/jwt.ts\<close>, \<open>lib/oidc.ts\<close>, \<open>lib/sso-routes.ts\<close>.
  \<^item> \<open>Session_Store\<close>, \<open>Codex_Tokens\<close>, \<open>Codex_Accounts\<close>, \<open>Login_Flows\<close>: \<open>lib/redis.ts\<close> and the login flows of \<open>lib/codex\<close> and
    \<open>lib/claude\<close>.
  \<^item> \<open>Provider_Operations\<close>, \<open>Model_Metadata\<close>, \<open>Discovery\<close>: \<open>lib/provider-operations.ts\<close>, \<open>lib/model-metadata.ts\<close>,
    \<open>lib/codex/operations.ts\<close>.
  \<^item> \<open>Schemas\<close>, \<open>Resources\<close>, \<open>Admin\<close>, \<open>Control_Api\<close>: the request schemas of \<open>lib/control.ts\<close>, \<open>lib/resource-deletion.ts\<close>,
    \<open>lib/model-routes.ts\<close>, and the changing half of the control route
    \<open>app/api/control/v1/[[...resource]]/route.ts\<close>.
  \<^item> \<open>Read_Models\<close>: the reading half of that route and \<open>lib/quota.ts\<close>.
  \<^item> \<open>Background\<close>: \<open>lib/credential-prober.ts\<close>, the schedulers of the probe, of the model discovery and of the reconciliation, and
    \<open>instrumentation.ts\<close>.
  \<^item> \<open>Snapshot_Transfer\<close>, \<open>Snapshot_Export\<close>, \<open>Snapshot_Migration\<close>: \<open>lib/snapshot-transfer.ts\<close>, \<open>lib/snapshot-migration.ts\<close>.
  \<^item> \<open>Operations_Api\<close>: the routes with files of their own below \<open>app/api/control/v1\<close> and the choice between them and the general route.
  \<^item> \<open>Worker_Pool\<close>: \<open>mapLimit\<close> of \<open>lib/codex/operations.ts\<close>, with every interleaving of its workers.
  \<^item> \<open>Deployment\<close>: \<open>lib/env.ts\<close>, \<open>scripts/migrate.ts\<close>, \<open>scripts/seed.ts\<close>.
  \<^item> \<open>Dashboard_Basics\<close>, \<open>Dashboard_Client\<close>, \<open>Dashboard_Forms\<close>, \<open>Dashboard_Panels\<close>, \<open>Dashboard_Views\<close>: the logic of the dashboard in
    \<open>app/view-router.ts\<close>, \<open>app/i18n.ts\<close>, \<open>app/codex-client.ts\<close>, \<open>app/account-form.ts\<close>, \<open>app/dashboard-client.tsx\<close>,
    \<open>app/mcp-view.tsx\<close>, \<open>app/billing-view.tsx\<close> and \<open>app/components\<close>: what is asked of the server, what is read of its answers, and the state that is
    shown.  Calls are run against the models of the handlers.

  \<^bold>\<open>Interfaces.\<close>  Six locales state what clients rely on.  \<open>ledger_op\<close> (\<open>Billing\<close>): an operation on balances that keeps
  the difference between a team's balance and its ledger; interpreted for top-ups, operator adjustments and the sign-up bonus.
  \<open>op_update\<close> (\<open>Quota_Reset\<close>): a statement on reset operations that never reopens a finished one; interpreted for expiry, completion,
  reconciliation and resolution.  \<open>configuration_change\<close> (\<open>Admin\<close>): a handler that either leaves the database as it was or records one
  audit row and a draft of the state it left; interpreted for every change of the control route, for the import, and for the imports and the renaming of \<open>Operations_Api\<close>.
  \<open>background_job\<close> (\<open>Background\<close>): a timer loop with at most one run in flight that stays silent once stopped; interpreted for the credential
  probe, the model discovery and the reconciliation.  \<open>single_completion\<close> (\<open>Dashboard_Panels\<close>): a server that answers a completed login once;
  interpreted on the status route of the device login.  \<open>owned_updates\<close> (\<open>Worker_Pool\<close>): updates that touch only the rows of their owner;
  interpreted on the discovery of models.  The properties
  that span handlers rest on the facts of these interpretations.

  \<^bold>\<open>What is shown\<close>

  \<^item> Money: each payment is booked once, spend and balances agree with the stored requests, a repeated report changes nothing, and
    reconciliation restores the ledger's balance.
  \<^item> Quota resets: a reset spends at most one credit, at most one operation per account is active, a finished one is final.
  \<^item> Configuration: compilation does not depend on secrets, fallback chains are accepted exactly when they are acyclic, a change
    publishes the state it left, publication needs adopted gateways, a gateway can acknowledge what it downloaded and then passes the gate.
  \<^item> Credentials: sealing is invertible, revisions are sequential, audit rows and discovered metadata carry no secrets, old versions
    lose theirs or become invalid, an import of an export restores every account.
  \<^item> Access: the control route and the internal routes do nothing without their gate, login states and sessions are used once,
    verified tokens and licences are what they claim.
  \<^item> Dashboard: pages and addresses agree, dialogs save what they show, and the places where the dashboard and its server
    disagree are stated as theorems.
  \<^item> Parsers and stores: proxy lists, allowlists, rate-limit windows, and the Redis store as a refinement of the map in memory.

  \<^bold>\<open>Abstractions.\<close>  A UUID is a number of one counter whose text is its decimal numeral.  \<open>numeric(12,6)\<close> columns are rationals
  rounded on storing (\<open>numeric6\<close>), JavaScript numbers are exact rationals with the non-finite values beside them, strings have 8-bit
  characters, \<open>ORDER BY\<close> compares character codes.  A secret record holds its document; sealing is treated on its own in \<open>Credentials\<close>.
  Randomness, clocks, the network, hashes, signatures, AES-GCM, \<open>new URL\<close>, date parsing and the driver's text of a parameter are
  arguments of the definitions, with documented laws as hypotheses where a property needs them.  Requests are handled one after
  the other; row locks have no effect then, and interleavings inside one handler are modelled for the worker pool of the discovery and where a flow
  consists of several requests or events.

  \<^bold>\<open>Not modelled.\<close>  The markup, labels and number formats of the dashboard and its message tables (\<open>app/i18n.ts\<close>): presentation.  The
  connection pool of \<open>lib/db.ts\<close> and the page entry points: the driver and the framework.  The Go gateway (\<open>cmd\<close>, \<open>internal\<close>): another program.
  SQL files appear through the tables and constraints of \<open>Store\<close>.  The JSON of most answers, logging
  and response headers are left out; the manifest lists every part with its status.
\<close>

end
